(* ===== verification/Prelude.thy ===== *)
theory Prelude
  imports Main "HOL-Library.Word"
begin

text \<open>
  Shared ground of the development: the collections of simplification rules the component
  theories add to, generic lemmas on lists and association lists, Go's fixed-width signed
  arithmetic, and the two kinds of interface every component is described by: a wire format
  (a self-delimiting encoding) and a step function with an invariant.

  Go strings and byte slices are both sequences of bytes, so both are \<open>string\<close> here (an
  Isabelle \<open>char\<close> is exactly one byte). A Go \<open>int64\<close> is an \<open>int\<close> with the wrap-around
  written out by \<open>wrap64\<close>; a \<open>uint32\<close> is a \<open>32 word\<close>.
\<close>

type_synonym bytes = string
type_synonym u32 = "32 word"

named_theorems wire_defs "definitions of encoders and decoders"
named_theorems call_defs "definitions of the operations of a call"

section \<open>Signed 64-bit arithmetic\<close>

definition max_int64 :: int where
  "max_int64 = 2 ^ 63 - 1"

definition min_int64 :: int where
  "min_int64 = - (2 ^ 63)"

definition in_int64 :: "int \<Rightarrow> bool" where
  "in_int64 i \<longleftrightarrow> - (2 ^ 63) \<le> i \<and> i < 2 ^ 63"

definition wrap64 :: "int \<Rightarrow> int" where
  "wrap64 i = (i + 2 ^ 63) mod 2 ^ 64 - 2 ^ 63"

lemma wrap64_id: "in_int64 i \<Longrightarrow> wrap64 i = i"
  by (simp add: in_int64_def wrap64_def)

lemma wrap64_range: "in_int64 (wrap64 i)"
  unfolding in_int64_def wrap64_def
  using pos_mod_sign [of "2 ^ 64 :: int" "i + 2 ^ 63"] pos_mod_bound [of "2 ^ 64 :: int" "i + 2 ^ 63"]
  by simp

section \<open>Lists\<close>

lemma take_append_length [simp]: "take (length xs) (xs @ ys) = xs"
  by simp

lemma drop_append_length [simp]: "drop (length xs) (xs @ ys) = ys"
  by simp

lemma distinct_remove1_set [simp]: "distinct xs \<Longrightarrow> set (remove1 x xs) = set xs - {x}"
  by (rule set_remove1_eq)

lemma length_remove1_in: "x \<in> set xs \<Longrightarrow> Suc (length (remove1 x xs)) = length xs"
  by (simp add: length_remove1) (metis Suc_pred length_pos_if_in_set)

lemma length_remove1_int:
  "x \<in> set xs \<Longrightarrow> int (length (remove1 x xs)) = int (length xs) - 1"
  using length_remove1_in [of x xs] by linarith

lemma filter_update_len:
  assumes "i < length xs" "P (xs ! i)" "\<not> P y"
  shows "int (length (filter P (xs[i := y]))) = int (length (filter P xs)) - 1"
  using assms
proof (induction xs arbitrary: i)
  case (Cons x xs)
  then show ?case by (cases i) auto
qed simp

lemma filter_update_same:
  assumes "i < length xs" "P (xs ! i) = P y"
  shows "length (filter P (xs[i := y])) = length (filter P xs)"
  using assms
proof (induction xs arbitrary: i)
  case (Cons x xs)
  then show ?case by (cases i) auto
qed simp

lemma list_all_update: "list_all P xs \<Longrightarrow> P y \<Longrightarrow> list_all P (xs[i := y])"
  by (induction xs arbitrary: i) (auto split: nat.splits)

section \<open>Association lists as Go maps\<close>

text \<open>
  A Go map is ranged over in an unspecified order, so a map whose iteration order shows is an
  association list with distinct keys: the list order is the order one \<open>range\<close> loop takes.
\<close>

type_synonym ('k, 'v) gomap = "('k \<times> 'v) list"

fun alist_upd :: "'k \<Rightarrow> ('v option \<Rightarrow> 'v) \<Rightarrow> ('k, 'v) gomap \<Rightarrow> ('k, 'v) gomap" where
  "alist_upd k f [] = [(k, f None)]"
| "alist_upd k f ((k', v) # xs) =
     (if k' = k then (k', f (Some v)) # xs else (k', v) # alist_upd k f xs)"

definition alist_put :: "'k \<Rightarrow> 'v \<Rightarrow> ('k, 'v) gomap \<Rightarrow> ('k, 'v) gomap" where
  "alist_put k v xs = alist_upd k (\<lambda>_. v) xs"

lemma alist_upd_lookup:
  "map_of (alist_upd k f xs) = (map_of xs)(k \<mapsto> f (map_of xs k))"
  by (induction xs) (auto simp: fun_eq_iff)

lemma alist_put_lookup [simp]: "map_of (alist_put k v xs) = (map_of xs)(k \<mapsto> v)"
  by (simp add: alist_put_def alist_upd_lookup)

lemma alist_upd_keys: "fst ` set (alist_upd k f xs) = insert k (fst ` set xs)"
  by (induction k f xs rule: alist_upd.induct) (auto simp: image_iff)

lemma alist_upd_distinct:
  "distinct (map fst xs) \<Longrightarrow> distinct (map fst (alist_upd k f xs))"
proof (induction k f xs rule: alist_upd.induct)
  case (2 k f k' v xs)
  then show ?case
    using alist_upd_keys [of k f xs] by (auto simp del: set_map simp: image_set [symmetric])
qed simp

lemma alist_put_distinct [simp]:
  "distinct (map fst xs) \<Longrightarrow> distinct (map fst (alist_put k v xs))"
  by (simp add: alist_put_def alist_upd_distinct)

section \<open>Wire formats\<close>

text \<open>
  Several components send self-delimiting messages over a byte stream. The interface is an
  encoder and a decoder that returns the value and the bytes after it; the law is that decoding
  an encoded value followed by anything returns that value and leaves the rest alone.
\<close>

fun dec_n :: "(bytes \<Rightarrow> ('a \<times> bytes) option) \<Rightarrow> nat \<Rightarrow> bytes \<Rightarrow> ('a list \<times> bytes) option" where
  "dec_n d 0 b = Some ([], b)"
| "dec_n d (Suc n) b =
     (case d b of
        None \<Rightarrow> None
      | Some (x, b') \<Rightarrow> map_option (\<lambda>(xs, r). (x # xs, r)) (dec_n d n b'))"

locale wire_format =
  fixes enc :: "'a \<Rightarrow> bytes"
    and dec :: "bytes \<Rightarrow> ('a \<times> bytes) option"
    and ok :: "'a \<Rightarrow> bool"
  assumes dec_enc: "ok x \<Longrightarrow> dec (enc x @ rest) = Some (x, rest)"
begin

lemma prefix_free:
  assumes "ok x" and "ok y" and "enc x @ r = enc y @ s"
  shows "x = y \<and> r = s"
proof -
  have "dec (enc x @ r) = Some (y, s)"
    unfolding assms(3) by (rule dec_enc [OF assms(2)])
  with dec_enc [OF assms(1), of r] show ?thesis by auto
qed

lemma enc_inj: "ok x \<Longrightarrow> ok y \<Longrightarrow> enc x = enc y \<Longrightarrow> x = y"
  using prefix_free [of x y "[]" "[]"] by simp

lemma dec_stream:
  "list_all ok xs \<Longrightarrow> dec_n dec (length xs) (concat (map enc xs) @ rest) = Some (xs, rest)"
  by (induction xs) (simp_all add: dec_enc)

end

text \<open>
  A codec without framing (the whole input is one value) is the weaker contract; a wire format
  gives one by requiring that nothing is left.
\<close>

locale exact_codec =
  fixes enc1 :: "'a \<Rightarrow> bytes"
    and dec1 :: "bytes \<Rightarrow> 'a option"
    and ok1 :: "'a \<Rightarrow> bool"
  assumes dec1_enc1: "ok1 x \<Longrightarrow> dec1 (enc1 x) = Some x"
begin

lemma enc1_inj: "ok1 x \<Longrightarrow> ok1 y \<Longrightarrow> enc1 x = enc1 y \<Longrightarrow> x = y"
  by (metis dec1_enc1 option.inject)

end

definition whole :: "(bytes \<Rightarrow> ('a \<times> bytes) option) \<Rightarrow> bytes \<Rightarrow> 'a option" where
  "whole d b = (case d b of Some (x, []) \<Rightarrow> Some x | _ \<Rightarrow> None)"

sublocale wire_format \<subseteq> one: exact_codec enc "whole dec" ok
  by unfold_locales (use dec_enc [of _ "[]"] in \<open>simp add: whole_def\<close>)

section \<open>Machines with an invariant\<close>

fun run_steps :: "('e \<Rightarrow> 's \<Rightarrow> 's) \<Rightarrow> 'e list \<Rightarrow> 's \<Rightarrow> 's" where
  "run_steps st [] s = s"
| "run_steps st (e # es) s = run_steps st es (st e s)"

lemma run_steps_append: "run_steps st (xs @ ys) s = run_steps st ys (run_steps st xs s)"
  by (induction xs arbitrary: s) simp_all

locale invariant_machine =
  fixes step :: "'e \<Rightarrow> 's \<Rightarrow> 's"
    and inv :: "'s \<Rightarrow> bool"
  assumes step_inv: "inv s \<Longrightarrow> inv (step e s)"
begin

lemma run_inv: "inv s \<Longrightarrow> inv (run_steps step es s)"
  by (induction es arbitrary: s) (simp_all add: step_inv)

end

end
