(* ===== verification/Go_Strings.thy ===== *)
theory Go_Strings
  imports Prelude "HOL-Library.Char_ord" "HOL-Library.Sublist"
begin

text \<open>
  The parts of Go's \<open>strings\<close> and \<open>strconv\<close> packages the code calls, on byte strings.
  Case mapping and white space are those of ASCII: every key, token and header the modelled
  code folds or trims is an ASCII one (a non-ASCII byte is left alone here).
\<close>

section \<open>Bytes\<close>

definition byte :: "char \<Rightarrow> nat" where
  "byte c = of_char c"

definition is_lower :: "char \<Rightarrow> bool" where
  "is_lower c \<longleftrightarrow> 97 \<le> byte c \<and> byte c \<le> 122"

definition is_upper :: "char \<Rightarrow> bool" where
  "is_upper c \<longleftrightarrow> 65 \<le> byte c \<and> byte c \<le> 90"

definition is_digit :: "char \<Rightarrow> bool" where
  "is_digit c \<longleftrightarrow> 48 \<le> byte c \<and> byte c \<le> 57"

definition is_space :: "char \<Rightarrow> bool" where
  "is_space c \<longleftrightarrow> byte c = 32 \<or> (9 \<le> byte c \<and> byte c \<le> 13)"

definition lower_char :: "char \<Rightarrow> char" where
  "lower_char c = (if is_upper c then char_of (byte c + 32) else c)"

definition upper_char :: "char \<Rightarrow> char" where
  "upper_char c = (if is_lower c then char_of (byte c - 32) else c)"

definition to_lower :: "string \<Rightarrow> string" where
  "to_lower s = map lower_char s"

definition to_upper :: "string \<Rightarrow> string" where
  "to_upper s = map upper_char s"

definition equal_fold :: "string \<Rightarrow> string \<Rightarrow> bool" where
  "equal_fold s t \<longleftrightarrow> to_lower s = to_lower t"

lemma byte_less [simp]: "byte c < 256"
  by (simp add: byte_def)

lemma char_of_byte [simp]: "char_of (byte c) = c"
  by (simp add: byte_def)

lemma byte_char_of [simp]: "n < 256 \<Longrightarrow> byte (char_of n) = n"
  by (simp add: byte_def)

lemma byte_eq_iff: "byte c = byte d \<longleftrightarrow> c = d"
  by (simp add: byte_def)

lemma lower_char_idem [simp]: "lower_char (lower_char c) = lower_char c"
  by (simp add: lower_char_def is_upper_def)

lemma to_lower_idem [simp]: "to_lower (to_lower s) = to_lower s"
  by (simp add: to_lower_def)

lemma to_lower_append [simp]: "to_lower (s @ t) = to_lower s @ to_lower t"
  by (simp add: to_lower_def)

lemma length_to_lower [simp]: "length (to_lower s) = length s"
  by (simp add: to_lower_def)

lemma to_lower_Nil [simp]: "to_lower s = [] \<longleftrightarrow> s = []"
  by (simp add: to_lower_def)

section \<open>Searching and splitting\<close>

definition has_prefix :: "string \<Rightarrow> string \<Rightarrow> bool" where
  "has_prefix s p \<longleftrightarrow> take (length p) s = p"

definition has_suffix :: "string \<Rightarrow> string \<Rightarrow> bool" where
  "has_suffix s p \<longleftrightarrow> length p \<le> length s \<and> drop (length s - length p) s = p"

definition trim_prefix :: "string \<Rightarrow> string \<Rightarrow> string" where
  "trim_prefix s p = (if has_prefix s p then drop (length p) s else s)"

definition trim_suffix :: "string \<Rightarrow> string \<Rightarrow> string" where
  "trim_suffix s p = (if has_suffix s p then take (length s - length p) s else s)"

fun index_byte :: "string \<Rightarrow> char \<Rightarrow> nat option" where
  "index_byte [] c = None"
| "index_byte (x # xs) c = (if x = c then Some 0 else map_option Suc (index_byte xs c))"

fun last_index_byte :: "string \<Rightarrow> char \<Rightarrow> nat option" where
  "last_index_byte [] c = None"
| "last_index_byte (x # xs) c =
     (case last_index_byte xs c of
        Some i \<Rightarrow> Some (Suc i)
      | None \<Rightarrow> if x = c then Some 0 else None)"

fun go_index :: "string \<Rightarrow> string \<Rightarrow> nat option" where
  "go_index [] p = (if p = [] then Some 0 else None)"
| "go_index (x # xs) p =
     (if has_prefix (x # xs) p then Some 0 else map_option Suc (go_index xs p))"

definition contains :: "string \<Rightarrow> string \<Rightarrow> bool" where
  "contains s p \<longleftrightarrow> go_index s p \<noteq> None"

fun split_on :: "char \<Rightarrow> string \<Rightarrow> string list" where
  "split_on c [] = [[]]"
| "split_on c (x # xs) =
     (if x = c then [] # split_on c xs
      else case split_on c xs of
             [] \<Rightarrow> [[x]]
           | w # ws \<Rightarrow> (x # w) # ws)"

fun go_join :: "string list \<Rightarrow> string \<Rightarrow> string" where
  "go_join [] sep = []"
| "go_join [w] sep = w"
| "go_join (w # ws) sep = w @ sep @ go_join ws sep"

definition trim_left :: "string \<Rightarrow> string" where
  "trim_left s = dropWhile is_space s"

definition trim_right :: "string \<Rightarrow> string" where
  "trim_right s = rev (dropWhile is_space (rev s))"

definition trim_space :: "string \<Rightarrow> string" where
  "trim_space s = trim_right (trim_left s)"

lemma has_prefix_iff: "has_prefix s p \<longleftrightarrow> (\<exists>t. s = p @ t)"
  unfolding has_prefix_def by (metis append_eq_conv_conj append_take_drop_id)

lemma has_prefix_append [simp]: "has_prefix (p @ t) p"
  by (simp add: has_prefix_def)

lemma trim_prefix_append [simp]: "trim_prefix (p @ t) p = t"
  by (simp add: trim_prefix_def)

lemma has_suffix_iff: "has_suffix s p \<longleftrightarrow> (\<exists>t. s = t @ p)"
  unfolding has_suffix_def
  by (metis append_eq_conv_conj append_take_drop_id diff_diff_cancel length_append le_add2 length_drop
      add_diff_cancel_right')

lemma has_suffix_append [simp]: "has_suffix (t @ p) p"
  using has_suffix_iff by blast

lemma trim_suffix_append [simp]: "trim_suffix (t @ p) p = t"
  by (simp add: trim_suffix_def)

lemma split_on_not_Nil [simp]: "split_on c s \<noteq> []"
  by (induction s) (auto split: list.splits)

lemma length_split_on [simp]: "0 < length (split_on c s)"
  by simp

lemma split_on_absent: "c \<notin> set w \<Longrightarrow> split_on c w = [w]"
  by (induction w) auto

lemma split_on_prefix:
  "c \<notin> set w \<Longrightarrow> split_on c (w @ c # s) = w # split_on c s"
  by (induction w) (auto split: list.splits)

lemma split_on_segments: "w \<in> set (split_on c s) \<Longrightarrow> c \<notin> set w"
  by (induction s arbitrary: w) (auto split: list.splits if_splits)

lemma go_join_cons: "ws \<noteq> [] \<Longrightarrow> go_join (w # ws) sep = w @ sep @ go_join ws sep"
  by (cases ws) auto

lemma join_split_on: "go_join (split_on c s) [c] = s"
proof (induction s)
  case (Cons x xs)
  then show ?case
    by (cases "split_on c xs"; cases "tl (split_on c xs)") (auto simp: go_join_cons)
qed simp

lemma split_join_on:
  "\<lbrakk>ws \<noteq> []; \<And>w. w \<in> set ws \<Longrightarrow> c \<notin> set w\<rbrakk> \<Longrightarrow> split_on c (go_join ws [c]) = ws"
proof (induction ws rule: induct_list012)
  case (3 w v ws)
  then show ?case by (simp add: split_on_prefix)
qed (simp_all add: split_on_absent)

lemma go_join_snoc: "ws \<noteq> [] \<Longrightarrow> go_join (ws @ [w]) sep = go_join ws sep @ sep @ w"
  by (induction ws rule: induct_list012) (auto simp: go_join_cons)

lemma index_byte_None: "index_byte s c = None \<longleftrightarrow> c \<notin> set s"
  by (induction s) auto

lemma index_byte_Some:
  "index_byte s c = Some i \<Longrightarrow> i < length s \<and> s ! i = c \<and> c \<notin> set (take i s)"
  by (induction s arbitrary: i) (auto split: if_splits)

lemma index_byte_prefix [simp]: "c \<notin> set w \<Longrightarrow> index_byte (w @ c # s) c = Some (length w)"
  by (induction w) auto

lemma last_index_byte_None: "last_index_byte s c = None \<longleftrightarrow> c \<notin> set s"
  by (induction s) (auto split: option.splits)

lemma last_index_byte_suffix [simp]:
  "c \<notin> set w \<Longrightarrow> last_index_byte (p @ c # w) c = Some (length p)"
  by (induction p) (auto simp: last_index_byte_None split: option.splits)

lemma last_index_byte_Some:
  "last_index_byte s c = Some i \<Longrightarrow> i < length s \<and> s ! i = c \<and> c \<notin> set (drop (Suc i) s)"
  by (induction s arbitrary: i) (auto simp: last_index_byte_None split: option.splits if_splits)

lemma last_index_byte_split:
  assumes "last_index_byte s c = Some i"
  shows "s = take i s @ c # drop (Suc i) s \<and> c \<notin> set (drop (Suc i) s)"
  using last_index_byte_Some [OF assms] id_take_nth_drop [of i s] by simp

lemma trim_space_idle:
  "\<lbrakk>\<And>c. c \<in> set s \<Longrightarrow> \<not> is_space c\<rbrakk> \<Longrightarrow> trim_space s = s"
proof -
  assume ns: "\<And>c. c \<in> set s \<Longrightarrow> \<not> is_space c"
  have "\<And>t. set t \<subseteq> set s \<Longrightarrow> dropWhile is_space t = t"
    using ns by (metis dropWhile_eq_self_iff hd_in_set subsetD)
  then show ?thesis by (simp add: trim_space_def trim_left_def trim_right_def)
qed

section \<open>Decimal and hexadecimal numbers\<close>

definition digit_char :: "nat \<Rightarrow> char" where
  "digit_char n = char_of (48 + n)"

fun nat_str :: "nat \<Rightarrow> string" where
  "nat_str n = (if n < 10 then [digit_char n] else nat_str (n div 10) @ [digit_char (n mod 10)])"

declare nat_str.simps [simp del]

definition itoa :: "int \<Rightarrow> string" where
  "itoa i = (if i < 0 then CHR ''-'' # nat_str (nat (- i)) else nat_str (nat i))"

definition digit_num :: "char \<Rightarrow> nat option" where
  "digit_num c =
     (if is_digit c then Some (byte c - 48)
      else if is_lower c then Some (byte c - 97 + 10)
      else if is_upper c then Some (byte c - 65 + 10)
      else None)"

definition digit_val :: "nat \<Rightarrow> char \<Rightarrow> nat option" where
  "digit_val base c =
     (case digit_num c of
        None \<Rightarrow> None
      | Some v \<Rightarrow> if v < base then Some v else None)"

fun digits_acc :: "nat \<Rightarrow> nat \<Rightarrow> string \<Rightarrow> nat option" where
  "digits_acc base acc [] = Some acc"
| "digits_acc base acc (c # cs) =
     (case digit_val base c of
        None \<Rightarrow> None
      | Some v \<Rightarrow> digits_acc base (acc * base + v) cs)"

text \<open>\<open>strconv.ParseUint(s, base, bits)\<close>: no sign, no empty string, no value above the width.\<close>

definition parse_uint :: "string \<Rightarrow> nat \<Rightarrow> nat \<Rightarrow> nat option" where
  "parse_uint s base bits =
     (if s = [] then None
      else case digits_acc base 0 s of
             None \<Rightarrow> None
           | Some v \<Rightarrow> if int v < 2 ^ bits then Some v else None)"

text \<open>\<open>strconv.ParseInt(s, 10, 64)\<close> and \<open>strconv.Atoi\<close> on a 64-bit machine.\<close>

definition parse_int :: "string \<Rightarrow> int option" where
  "parse_int s =
     (let neg = (s \<noteq> [] \<and> hd s = CHR ''-'');
          body = (if s \<noteq> [] \<and> (hd s = CHR ''-'' \<or> hd s = CHR ''+'') then tl s else s)
      in case parse_uint body 10 64 of
           None \<Rightarrow> None
         | Some v \<Rightarrow>
             if neg then (if int v \<le> 2 ^ 63 then Some (- int v) else None)
             else (if int v < 2 ^ 63 then Some (int v) else None))"

text \<open>The \<open>%q\<close> verb. Bytes from 128 up are shown as \<open>\x\<close> escapes.\<close>

definition hex_digit :: "nat \<Rightarrow> char" where
  "hex_digit n = (if n < 10 then char_of (48 + n) else char_of (87 + n))"

definition quote_char :: "char \<Rightarrow> string" where
  "quote_char c =
     (let n = byte c; bs = char_of (92 :: nat) in
      if n = 34 then [bs, char_of (34 :: nat)]
      else if n = 92 then [bs, bs]
      else if n = 7 then bs # ''a''
      else if n = 8 then bs # ''b''
      else if n = 12 then bs # ''f''
      else if n = 10 then bs # ''n''
      else if n = 13 then bs # ''r''
      else if n = 9 then bs # ''t''
      else if n = 11 then bs # ''v''
      else if 32 \<le> n \<and> n \<le> 126 then [c]
      else bs # ''x'' @ [hex_digit (n div 16), hex_digit (n mod 16)])"

definition go_quote :: "string \<Rightarrow> string" where
  "go_quote s =
     char_of (34 :: nat) # concat (map quote_char s) @ [char_of (34 :: nat)]"

lemma digit_char_props:
  assumes "n < 10"
  shows "is_digit (digit_char n)" and "digit_val 10 (digit_char n) = Some n"
    and "byte (digit_char n) = 48 + n"
  using assms by (simp_all add: digit_char_def is_digit_def digit_val_def digit_num_def)

lemma digits_acc_append:
  "digits_acc b acc (xs @ ys) =
     (case digits_acc b acc xs of None \<Rightarrow> None | Some v \<Rightarrow> digits_acc b v ys)"
  by (induction xs arbitrary: acc) (auto split: option.splits)

lemma nat_str_not_Nil [simp]: "nat_str n \<noteq> []"
  by (subst nat_str.simps) simp

lemma digits_nat_str: "digits_acc 10 0 (nat_str n) = Some n"
proof (induction n rule: nat_str.induct)
  case (1 n)
  show ?case
  proof (cases "n < 10")
    case True
    then show ?thesis by (subst nat_str.simps) (simp add: digit_char_props)
  next
    case False
    then show ?thesis using 1
      by (subst nat_str.simps) (simp add: digits_acc_append digit_char_props)
  qed
qed

lemma nat_str_digits: "c \<in> set (nat_str n) \<Longrightarrow> is_digit c"
proof (induction n rule: nat_str.induct)
  case (1 n)
  then show ?case
    by (subst (asm) nat_str.simps) (auto simp: digit_char_props split: if_splits)
qed

lemma nat_str_len: "n < 10 ^ k \<Longrightarrow> 0 < k \<Longrightarrow> length (nat_str n) \<le> k"
proof (induction n arbitrary: k rule: nat_str.induct)
  case (1 n)
  show ?case
  proof (cases "n < 10")
    case True
    then show ?thesis using 1 by (subst nat_str.simps) simp
  next
    case False
    from "1.prems" obtain j where k: "k = Suc j" by (cases k) auto
    with False "1.prems" have "0 < j" by (cases j) auto
    note j = k this
    have "n div 10 < 10 ^ j" using "1.prems" j by (simp add: less_mult_imp_div_less)
    then have "length (nat_str (n div 10)) \<le> j" using "1.IH" False j by blast
    with False j show ?thesis by (subst nat_str.simps) simp
  qed
qed

lemma parse_nat_str: "n < 2 ^ bits \<Longrightarrow> parse_uint (nat_str n) 10 bits = Some n"
  by (simp add: parse_uint_def digits_nat_str of_nat_less_numeral_power_cancel_iff)

lemma nat_str_inj: "nat_str m = nat_str n \<Longrightarrow> m = n"
  by (metis digits_nat_str option.inject)

lemma nat_str_hd: "hd (nat_str n) \<noteq> CHR ''-'' \<and> hd (nat_str n) \<noteq> CHR ''+''"
proof -
  have "is_digit (hd (nat_str n))" by (rule nat_str_digits [of _ n]) simp
  moreover have "\<not> is_digit CHR ''-''" and "\<not> is_digit CHR ''+''" by code_simp+
  ultimately show ?thesis by metis
qed

lemma parse_int_itoa: "in_int64 i \<Longrightarrow> parse_int (itoa i) = Some i"
proof -
  assume "in_int64 i"
  then have b: "- (2 ^ 63) \<le> i" "i < 2 ^ 63" by (simp_all add: in_int64_def)
  show ?thesis
  proof (cases "i < 0")
    case True
    then have "nat (- i) < 2 ^ 64" using b by (simp add: nat_less_iff)
    then show ?thesis using True b by (simp add: parse_int_def itoa_def parse_nat_str)
  next
    case False
    then have "nat i < 2 ^ 64" using b by (simp add: nat_less_iff)
    then show ?thesis using False b nat_str_hd [of "nat i"]
      by (simp add: parse_int_def itoa_def parse_nat_str)
  qed
qed

end
