(* ===== verification/Errors.thy ===== *)
theory Errors
  imports Go_Strings
begin

text \<open>
  Go error values. An \<open>error\<close> that may be nil is a \<open>go_error option\<close>; an operation that
  returns a value or an error returns \<open>go_error + 'a\<close>.

  The constructors are the error types of the code: a package-level sentinel (its identity is
  its text), an anonymous \<open>errors.New\<close> or \<open>fmt.Errorf\<close> value (never identical to another
  one), a \<open>fmt.Errorf\<close> with \<open>%w\<close> verbs, \<open>*status.StatusError\<close>, \<open>*transport.sendError\<close>,
  \<open>*client.mappedStatus\<close> and \<open>stream.sendClosedError\<close>. \<open>errors.Is\<close> and \<open>errors.As\<close> walk
  the tree of wrapped errors in pre-order; identity is decided for the targets the code
  compares with, which are sentinels and status errors.
\<close>

type_synonym code = u32

record detail =
  TypeURL :: string
  Value :: bytes

datatype go_error =
    ErrVar string
  | ErrNew string
  | ErrWrap string "go_error list"
  | ErrStatus code string "detail list" "go_error option"
  | ErrSend go_error bool
  | ErrMapped "go_error option" "go_error option"
  | ErrSendClosed

abbreviation err_EOF :: go_error where "err_EOF \<equiv> ErrVar ''EOF''"
abbreviation err_UnexpectedEOF :: go_error where "err_UnexpectedEOF \<equiv> ErrVar ''unexpected EOF''"
abbreviation ctx_Canceled :: go_error where "ctx_Canceled \<equiv> ErrVar ''context canceled''"
abbreviation ctx_DeadlineExceeded :: go_error where
  "ctx_DeadlineExceeded \<equiv> ErrVar ''context deadline exceeded''"

fun unwrap_err :: "go_error \<Rightarrow> go_error list" where
  "unwrap_err (ErrWrap _ es) = es"
| "unwrap_err (ErrStatus _ _ _ (Some e)) = [e]"
| "unwrap_err (ErrSend e _) = [e]"
| "unwrap_err (ErrMapped s c) =
     (case s of None \<Rightarrow> [] | Some e \<Rightarrow> [e]) @ (case c of None \<Rightarrow> [] | Some e \<Rightarrow> [e])"
| "unwrap_err _ = []"

fun err_tree :: "go_error \<Rightarrow> go_error list" where
  "err_tree (ErrWrap s es) = ErrWrap s es # concat (map err_tree es)"
| "err_tree (ErrStatus c m d None) = [ErrStatus c m d None]"
| "err_tree (ErrStatus c m d (Some e)) = ErrStatus c m d (Some e) # err_tree e"
| "err_tree (ErrSend e r) = ErrSend e r # err_tree e"
| "err_tree (ErrMapped s c) =
     ErrMapped s c # (case s of None \<Rightarrow> [] | Some e \<Rightarrow> err_tree e)
       @ (case c of None \<Rightarrow> [] | Some e \<Rightarrow> err_tree e)"
| "err_tree e = [e]"

fun err_same :: "go_error \<Rightarrow> go_error \<Rightarrow> bool" where
  "err_same (ErrVar a) (ErrVar b) = (a = b)"
| "err_same ErrSendClosed ErrSendClosed = True"
| "err_same _ _ = False"

lemma err_tree_unwrap: "err_tree e = e # concat (map err_tree (unwrap_err e))"
  by (cases e rule: err_tree.cases) (auto split: option.splits)

lemma err_tree_self [simp]: "e \<in> set (err_tree e)"
  by (subst err_tree_unwrap) simp

lemma err_tree_wrapped:
  "d \<in> set (unwrap_err e) \<Longrightarrow> x \<in> set (err_tree d) \<Longrightarrow> x \<in> set (err_tree e)"
  by (subst err_tree_unwrap) auto

section \<open>The \<open>Is\<close> methods and the search functions of package errors\<close>

fun status_is :: "go_error \<Rightarrow> go_error \<Rightarrow> bool" where
  "status_is (ErrStatus c _ _ cause) (ErrStatus c' _ _ cause') =
     (case (cause, cause') of
        (None, None) \<Rightarrow> c = c'
      | (Some x, Some y) \<Rightarrow> err_same x y \<and> c = c'
      | _ \<Rightarrow> False)"
| "status_is _ _ = False"

fun send_closed_is :: "go_error \<Rightarrow> go_error \<Rightarrow> bool" where
  "send_closed_is ErrSendClosed t = (t = err_EOF)"
| "send_closed_is _ _ = False"

definition err_matches :: "go_error \<Rightarrow> go_error \<Rightarrow> bool" where
  "err_matches t e \<longleftrightarrow> err_same e t \<or> status_is e t \<or> send_closed_is e t"

definition errors_is :: "go_error \<Rightarrow> go_error \<Rightarrow> bool" where
  "errors_is e t \<longleftrightarrow> list_ex (err_matches t) (err_tree e)"

definition errors_is_opt :: "go_error option \<Rightarrow> go_error \<Rightarrow> bool" where
  "errors_is_opt e t = (case e of None \<Rightarrow> False | Some x \<Rightarrow> errors_is x t)"

type_synonym status_parts = "code \<times> string \<times> detail list \<times> go_error option"

fun as_status1 :: "go_error \<Rightarrow> status_parts option" where
  "as_status1 (ErrStatus c m d cause) = Some (c, m, d, cause)"
| "as_status1 _ = None"

fun first_some :: "('a \<Rightarrow> 'b option) \<Rightarrow> 'a list \<Rightarrow> 'b option" where
  "first_some f [] = None"
| "first_some f (x # xs) = (case f x of Some y \<Rightarrow> Some y | None \<Rightarrow> first_some f xs)"

definition errors_as_status :: "go_error \<Rightarrow> status_parts option" where
  "errors_as_status e = first_some as_status1 (err_tree e)"

fun as_send1 :: "go_error \<Rightarrow> (go_error \<times> bool) option" where
  "as_send1 (ErrSend e r) = Some (e, r)"
| "as_send1 _ = None"

definition errors_as_send :: "go_error \<Rightarrow> (go_error \<times> bool) option" where
  "errors_as_send e = first_some as_send1 (err_tree e)"

lemma first_some_append:
  "first_some f (xs @ ys) = (case first_some f xs of Some y \<Rightarrow> Some y | None \<Rightarrow> first_some f ys)"
  by (induction xs) (auto split: option.splits)

lemma first_some_None: "first_some f xs = None \<longleftrightarrow> (\<forall>x \<in> set xs. f x = None)"
  by (induction xs) (auto split: option.splits)

lemma first_some_Some: "first_some f xs = Some y \<Longrightarrow> \<exists>x \<in> set xs. f x = Some y"
  by (induction xs) (auto split: option.splits)

lemma errors_is_wrapped:
  "d \<in> set (unwrap_err e) \<Longrightarrow> errors_is d t \<Longrightarrow> errors_is e t"
  using err_tree_wrapped by (fastforce simp: errors_is_def list_ex_iff)

lemma errors_is_var [simp]: "errors_is (ErrVar a) (ErrVar b) \<longleftrightarrow> a = b"
  by (simp add: errors_is_def err_matches_def)

lemma errors_as_status_status [simp]:
  "errors_as_status (ErrStatus c m d cause) = Some (c, m, d, cause)"
  by (cases cause) (simp_all add: errors_as_status_def)

lemma errors_as_status_leaf [simp]:
  "errors_as_status (ErrVar s) = None" "errors_as_status (ErrNew s) = None"
  "errors_as_status ErrSendClosed = None"
  by (simp_all add: errors_as_status_def)

lemma errors_as_status_wrap [simp]:
  "errors_as_status (ErrWrap s [e]) = errors_as_status e"
  "errors_as_status (ErrSend e r) = errors_as_status e"
  by (simp_all add: errors_as_status_def)

lemma errors_as_send_send [simp]: "errors_as_send (ErrSend e r) = Some (e, r)"
  by (simp add: errors_as_send_def)

lemma errors_as_send_leaf [simp]:
  "errors_as_send (ErrVar s) = None" "errors_as_send (ErrNew s) = None"
  "errors_as_send ErrSendClosed = None"
  by (simp_all add: errors_as_send_def)

lemma errors_is_wrap_iff [simp]:
  "errors_is (ErrWrap s [e]) (ErrVar a) \<longleftrightarrow> errors_is e (ErrVar a)"
  "errors_is (ErrSend e r) (ErrVar a) \<longleftrightarrow> errors_is e (ErrVar a)"
  by (simp_all add: errors_is_def err_matches_def)

end
