(* ===== verification/Status.thy ===== *)
theory Status
  imports Errors
begin

text \<open>
  Package \<open>status\<close> (src/status/status.go) and the HTTP map of src/internal/httpstatus: the
  status codes, the status error and its details, and the two directions between status codes
  and HTTP statuses. Values are compared by content, so the deep copies the code makes are the
  values themselves; a nil and an empty byte slice are the same value.
\<close>

section \<open>Codes\<close>

abbreviation OK :: code where "OK \<equiv> 0"
abbreviation Canceled :: code where "Canceled \<equiv> 1"
abbreviation Unknown :: code where "Unknown \<equiv> 2"
abbreviation InvalidArgument :: code where "InvalidArgument \<equiv> 3"
abbreviation DeadlineExceeded :: code where "DeadlineExceeded \<equiv> 4"
abbreviation NotFound :: code where "NotFound \<equiv> 5"
abbreviation AlreadyExists :: code where "AlreadyExists \<equiv> 6"
abbreviation PermissionDenied :: code where "PermissionDenied \<equiv> 7"
abbreviation ResourceExhausted :: code where "ResourceExhausted \<equiv> 8"
abbreviation FailedPrecondition :: code where "FailedPrecondition \<equiv> 9"
abbreviation Aborted :: code where "Aborted \<equiv> 10"
abbreviation OutOfRange :: code where "OutOfRange \<equiv> 11"
abbreviation Unimplemented :: code where "Unimplemented \<equiv> 12"
abbreviation Internal :: code where "Internal \<equiv> 13"
abbreviation Unavailable :: code where "Unavailable \<equiv> 14"
abbreviation DataLoss :: code where "DataLoss \<equiv> 15"
abbreviation Unauthenticated :: code where "Unauthenticated \<equiv> 16"

section \<open>Status errors\<close>

definition code_text :: "code \<Rightarrow> string" where
  "code_text c = nat_str (unat c)"

fun err_text :: "go_error \<Rightarrow> string" where
  "err_text (ErrVar s) = s"
| "err_text (ErrNew s) = s"
| "err_text (ErrWrap s _) = s"
| "err_text (ErrStatus c m _ cause) =
     (if m \<noteq> [] then m
      else case cause of
             Some e \<Rightarrow> err_text e
           | None \<Rightarrow> ''status: code = '' @ code_text c)"
| "err_text (ErrSend e _) = err_text e"
| "err_text (ErrMapped s c) =
     (case s of
        Some e \<Rightarrow> err_text e
      | None \<Rightarrow> (case c of Some e \<Rightarrow> err_text e | None \<Rightarrow> ''client: mapped status''))"
| "err_text ErrSendClosed = ''stream: send closed''"

definition status_error :: "code \<Rightarrow> string \<Rightarrow> go_error" where
  "status_error c msg = ErrStatus c msg [] None"

definition code_of :: "go_error option \<Rightarrow> code" where
  "code_of err =
     (case err of
        None \<Rightarrow> OK
      | Some e \<Rightarrow>
          (case errors_as_status e of
             Some (c, _) \<Rightarrow> c
           | None \<Rightarrow> Unknown))"

definition err_cardinality_cause :: go_error where
  "err_cardinality_cause = ErrVar ''status: cardinality mismatch''"

definition err_cardinality :: go_error where
  "err_cardinality =
     ErrStatus Internal ''status: cardinality mismatch'' [] (Some err_cardinality_cause)"

definition err_sessions_exhausted :: go_error where
  "err_sessions_exhausted =
     ErrStatus ResourceExhausted ''status: sessions exhausted'' []
       (Some (ErrVar ''status: sessions exhausted''))"

definition err_calls_exhausted :: go_error where
  "err_calls_exhausted =
     ErrStatus ResourceExhausted ''status: calls exhausted'' []
       (Some (ErrVar ''status: calls exhausted''))"

fun copy_details :: "detail list \<Rightarrow> detail list" where
  "copy_details [] = []"
| "copy_details (d # ds) = \<lparr>TypeURL = TypeURL d, Value = Value d\<rparr> # copy_details ds"

definition with_details :: "go_error option \<Rightarrow> detail list \<Rightarrow> go_error" where
  "with_details err details =
     (case err of
        None \<Rightarrow> ErrStatus Internal ''status: WithDetails called with nil error'' [] None
      | Some e \<Rightarrow>
          let copied = copy_details details in
          (case errors_as_status e of
             Some (c, m, ds, cause) \<Rightarrow> ErrStatus c m (copy_details ds @ copied) cause
           | None \<Rightarrow> ErrStatus Unknown (err_text e) copied (Some e)))"

definition details_of :: "go_error option \<Rightarrow> detail list" where
  "details_of err =
     (case err of
        None \<Rightarrow> []
      | Some e \<Rightarrow>
          (case errors_as_status e of
             None \<Rightarrow> []
           | Some (_, _, ds, _) \<Rightarrow> copy_details ds))"

lemma copy_details_id [simp]: "copy_details ds = ds"
  by (induction ds) simp_all

lemma code_of_None [simp]: "code_of None = OK"
  by (simp add: code_of_def)

lemma code_of_status [simp]: "code_of (Some (ErrStatus c m d cause)) = c"
  by (simp add: code_of_def)

lemma code_of_status_error [simp]: "code_of (Some (status_error c m)) = c"
  by (simp add: status_error_def)

lemma code_of_leaf [simp]:
  "code_of (Some (ErrVar s)) = Unknown" "code_of (Some (ErrNew s)) = Unknown"
  "code_of (Some ErrSendClosed) = Unknown"
  by (simp_all add: code_of_def)

lemma code_of_wrap [simp]:
  "code_of (Some (ErrWrap s [e])) = code_of (Some e)"
  "code_of (Some (ErrSend e r)) = code_of (Some e)"
  by (simp_all add: code_of_def)

lemma code_of_mapped [simp]:
  "code_of (Some (ErrMapped (Some (ErrStatus c m d cause)) x)) = c"
  by (cases cause) (simp_all add: code_of_def errors_as_status_def)

lemma status_is_code:
  "errors_is (status_error c m) (status_error c' m') \<longleftrightarrow> c = c'"
  by (simp add: errors_is_def err_matches_def status_error_def)

lemma sentinel_is_private:
  "errors_is (status_error ResourceExhausted m) err_calls_exhausted = False"
  "errors_is err_calls_exhausted (status_error ResourceExhausted m) = False"
  "errors_is err_calls_exhausted err_sessions_exhausted = False"
  "errors_is err_calls_exhausted err_calls_exhausted = True"
  by (simp_all add: errors_is_def err_matches_def status_error_def err_calls_exhausted_def
        err_sessions_exhausted_def)

text \<open>
  Attaching details never changes what a caller reads from an error: the status code is the
  one the error had (Unknown for a plain error, Internal for a nil one), and the details are the
  ones it had followed by the new ones, in order.
\<close>

lemma with_details_keeps:
  "code_of (Some (with_details (Some e) ds)) = code_of (Some e)
   \<and> details_of (Some (with_details (Some e) ds)) = details_of (Some e) @ ds
   \<and> code_of (Some (with_details None ds)) = Internal"
  by (auto simp: with_details_def details_of_def code_of_def Let_def split: option.splits)

section \<open>HTTP statuses\<close>

definition to_http :: "code \<Rightarrow> int" where
  "to_http c =
     (if c = OK then 200
      else if c = Canceled then 499
      else if c = Unknown then 500
      else if c = InvalidArgument then 400
      else if c = DeadlineExceeded then 504
      else if c = NotFound then 404
      else if c = AlreadyExists then 409
      else if c = PermissionDenied then 403
      else if c = ResourceExhausted then 429
      else if c = FailedPrecondition then 400
      else if c = Aborted then 409
      else if c = OutOfRange then 400
      else if c = Unimplemented then 501
      else if c = Internal then 500
      else if c = Unavailable then 503
      else if c = DataLoss then 500
      else if c = Unauthenticated then 401
      else 500)"

definition from_http :: "int \<Rightarrow> code" where
  "from_http h =
     (if h = 200 then OK
      else if h = 400 then InvalidArgument
      else if h = 401 then Unauthenticated
      else if h = 403 then PermissionDenied
      else if h = 404 then NotFound
      else if h = 408 \<or> h = 499 then Canceled
      else if h = 409 then AlreadyExists
      else if h = 429 then ResourceExhausted
      else if h = 500 then Unknown
      else if h = 501 then Unimplemented
      else if h = 503 then Unavailable
      else if h = 504 then DeadlineExceeded
      else Unknown)"

lemma to_http_OK: "to_http c = 200 \<longleftrightarrow> c = OK"
  by (simp add: to_http_def)

lemma from_http_OK: "from_http h = OK \<longleftrightarrow> h = 200"
  by (simp add: from_http_def)

text \<open>The codes that survive the trip over HTTP unchanged.\<close>

definition http_exact :: "code \<Rightarrow> bool" where
  "http_exact c \<longleftrightarrow>
     c \<in> {OK, Canceled, Unknown, InvalidArgument, DeadlineExceeded, NotFound, AlreadyExists,
          PermissionDenied, ResourceExhausted, Unimplemented, Unavailable, Unauthenticated}"

text \<open>
  The HTTP map loses no success and invents none, and a status that went over HTTP keeps its
  HTTP status: 200 is exactly OK in both directions, mapping a code out, in and out again is
  mapping it out once, and a code comes back as itself exactly when it is one of the twelve that
  do not share their HTTP status with a preferred one.
\<close>

lemma http_round_trip:
  "(to_http c = 200 \<longleftrightarrow> c = OK) \<and> (from_http h = OK \<longleftrightarrow> h = 200)
   \<and> to_http (from_http (to_http c)) = to_http c
   \<and> (from_http (to_http c) = c \<longleftrightarrow> http_exact c)"
proof -
  have "to_http (from_http (to_http c)) = to_http c"
    by (simp add: to_http_def from_http_def)
  moreover have "from_http (to_http c) = c \<longleftrightarrow> http_exact c"
    by (auto simp: to_http_def from_http_def http_exact_def)
  ultimately show ?thesis using to_http_OK from_http_OK by blast
qed

end
