(* ===== verification/Pool.thy ===== *)
theory Pool
  imports Status
begin

text \<open>
  The session pool (src/internal/sessionpool/pool.go). Sessions are numbered by the order in
  which the dial function produced them; an entry lives in the table \<open>p_bySess\<close>, and buckets
  list entries by session, as the code's pointers do. \<open>p_log\<close> records the sessions the pool
  closed. What the pool cannot decide is an argument: \<open>ru\<close> is the answer of \<open>Reusable()\<close> in
  the critical section at hand, \<open>now\<close> the clock (nanoseconds).
\<close>

section \<open>State\<close>

record pool_options =
  MaxSessionsPerEndpoint :: int
  MaxIdleSessions :: int
  SessionIdleTimeout :: int
  MaxSessionLifetime :: int
  HandshakeTimeout :: int
  MaxCallsPerConn :: int

record pool_entry =
  e_endpoint :: string
  refcount :: int
  createdAt :: int
  idleSince :: int
  inIdle :: bool

record bucket =
  b_entries :: "nat list"
  b_idle :: "nat list"
  pendingDial :: int

record pool =
  p_cfg :: pool_options
  p_capPer :: int
  p_closed :: bool
  p_buckets :: "(string, bucket) gomap"
  p_bySess :: "(nat, pool_entry) gomap"
  p_flights :: "(string, nat) gomap"
  p_flres :: "(nat, go_error option) gomap"
  p_nextFlight :: nat
  p_log :: "nat list"

definition default_pool_options :: pool_options where
  "default_pool_options =
     \<lparr>MaxSessionsPerEndpoint = 0, MaxIdleSessions = 0, SessionIdleTimeout = 0,
      MaxSessionLifetime = 0, HandshakeTimeout = 0, MaxCallsPerConn = 0\<rparr>"

definition new_pool :: "pool_options \<Rightarrow> pool" where
  "new_pool cfg =
     \<lparr>p_cfg = cfg,
      p_capPer = (if MaxCallsPerConn cfg < 0 then -1
                  else if 1 < MaxCallsPerConn cfg then MaxCallsPerConn cfg else 1),
      p_closed = False, p_buckets = [], p_bySess = [], p_flights = [], p_flres = [],
      p_nextFlight = 0, p_log = []\<rparr>"

definition empty_bucket :: bucket where
  "empty_bucket = \<lparr>b_entries = [], b_idle = [], pendingDial = 0\<rparr>"

definition alist_del :: "'k \<Rightarrow> ('k, 'v) gomap \<Rightarrow> ('k, 'v) gomap" where
  "alist_del k xs = filter (\<lambda>(k', _). k' \<noteq> k) xs"

definition get_bucket :: "pool \<Rightarrow> string \<Rightarrow> bucket" where
  "get_bucket p ep = (case map_of (p_buckets p) ep of None \<Rightarrow> empty_bucket | Some b \<Rightarrow> b)"

definition put_bucket :: "string \<Rightarrow> bucket \<Rightarrow> pool \<Rightarrow> pool" where
  "put_bucket ep b p = p\<lparr>p_buckets := alist_put ep b (p_buckets p)\<rparr>"

definition get_entry :: "pool \<Rightarrow> nat \<Rightarrow> pool_entry option" where
  "get_entry p s = map_of (p_bySess p) s"

definition put_entry :: "nat \<Rightarrow> pool_entry \<Rightarrow> pool \<Rightarrow> pool" where
  "put_entry s e p = p\<lparr>p_bySess := alist_put s e (p_bySess p)\<rparr>"

definition bucket_locked :: "string \<Rightarrow> pool \<Rightarrow> pool" where
  "bucket_locked ep p = put_bucket ep (get_bucket p ep) p"

section \<open>Operations under the pool lock\<close>

definition add_entry_locked :: "string \<Rightarrow> nat \<Rightarrow> int \<Rightarrow> pool \<Rightarrow> pool" where
  "add_entry_locked ep s now p =
     (let b = get_bucket p ep in
      put_entry s \<lparr>e_endpoint = ep, refcount = 0, createdAt = now, idleSince = 0, inIdle = False\<rparr>
        (put_bucket ep (b\<lparr>b_entries := b_entries b @ [s]\<rparr>) p))"

definition lifetime_expired :: "pool \<Rightarrow> pool_entry \<Rightarrow> int \<Rightarrow> bool" where
  "lifetime_expired p e now =
     (if MaxSessionLifetime (p_cfg p) \<le> 0 then False
      else MaxSessionLifetime (p_cfg p) \<le> now - createdAt e)"

definition remove_idle_locked :: "nat \<Rightarrow> pool \<Rightarrow> pool" where
  "remove_idle_locked s p =
     (case get_entry p s of
        None \<Rightarrow> p
      | Some e \<Rightarrow>
          if \<not> inIdle e then p
          else
            let b = get_bucket p (e_endpoint e) in
            put_bucket (e_endpoint e) (b\<lparr>b_idle := remove1 s (b_idle b)\<rparr>)
              (put_entry s (e\<lparr>inIdle := False\<rparr>) p))"

definition discard_locked :: "nat \<Rightarrow> pool \<Rightarrow> pool" where
  "discard_locked s p =
     (case get_entry p s of
        None \<Rightarrow> p
      | Some e \<Rightarrow>
          let ep = e_endpoint e;
              p1 = (if map_of (p_buckets p) ep = None then p
                    else
                      let q = remove_idle_locked s p; b = get_bucket q ep in
                      put_bucket ep (b\<lparr>b_entries := remove1 s (b_entries b)\<rparr>) q) in
          p1\<lparr>p_bySess := alist_del s (p_bySess p1), p_log := s # p_log p1\<rparr>)"

definition lendable_locked :: "(nat \<Rightarrow> bool) \<Rightarrow> int \<Rightarrow> pool \<Rightarrow> nat \<Rightarrow> bool" where
  "lendable_locked ru now p s =
     (case get_entry p s of
        None \<Rightarrow> False
      | Some e \<Rightarrow>
          \<not> lifetime_expired p e now \<and> ru s \<and> \<not> (0 < p_capPer p \<and> p_capPer p \<le> refcount e))"

definition lend :: "nat \<Rightarrow> pool \<Rightarrow> pool" where
  "lend s p =
     (let p1 = remove_idle_locked s p in
      case get_entry p1 s of
        None \<Rightarrow> p1
      | Some e \<Rightarrow> put_entry s (e\<lparr>refcount := refcount e + 1\<rparr>) p1)"

definition try_lend_locked ::
    "(nat \<Rightarrow> bool) \<Rightarrow> int \<Rightarrow> nat list \<Rightarrow> string \<Rightarrow> pool \<Rightarrow> (nat \<times> pool) option" where
  "try_lend_locked ru now skip ep p =
     (case map_of (p_buckets p) ep of
        None \<Rightarrow> None
      | Some b \<Rightarrow>
          (case find (\<lambda>s. s \<notin> set skip \<and> lendable_locked ru now p s) (b_entries b) of
             None \<Rightarrow> None
           | Some s \<Rightarrow> Some (s, lend s p)))"

definition return_locked :: "(nat \<Rightarrow> bool) \<Rightarrow> int \<Rightarrow> nat \<Rightarrow> pool \<Rightarrow> pool" where
  "return_locked ru now s p =
     (case get_entry p s of
        None \<Rightarrow> p
      | Some e \<Rightarrow>
          let reusable = (ru s \<and> \<not> lifetime_expired p e now); b = get_bucket p (e_endpoint e) in
          if 0 < refcount e then p
          else if \<not> reusable then discard_locked s p
          else if 0 \<le> MaxIdleSessions (p_cfg p) \<and> MaxIdleSessions (p_cfg p) \<le> int (length (b_idle b))
          then discard_locked s (bucket_locked (e_endpoint e) p)
          else put_bucket (e_endpoint e) (b\<lparr>b_idle := b_idle b @ [s]\<rparr>)
                 (put_entry s (e\<lparr>inIdle := True, idleSince := now\<rparr>) p))"

definition reclaim_idle :: "(nat \<Rightarrow> bool) \<Rightarrow> int \<Rightarrow> nat \<Rightarrow> pool \<Rightarrow> pool" where
  "reclaim_idle ru now s p =
     (case get_entry p s of
        None \<Rightarrow> p
      | Some e \<Rightarrow>
          if 0 < refcount e then p
          else if lifetime_expired p e now
               \<or> (0 < SessionIdleTimeout (p_cfg p) \<and> inIdle e
                  \<and> SessionIdleTimeout (p_cfg p) \<le> now - idleSince e)
               \<or> \<not> ru s
          then discard_locked s p else p)"

definition reclaim_dead :: "(nat \<Rightarrow> bool) \<Rightarrow> int \<Rightarrow> nat \<Rightarrow> pool \<Rightarrow> pool" where
  "reclaim_dead ru now s p =
     (case get_entry p s of
        None \<Rightarrow> p
      | Some e \<Rightarrow>
          if refcount e = 0 \<and> \<not> inIdle e \<and> (lifetime_expired p e now \<or> \<not> ru s)
          then discard_locked s p else p)"

definition reclaim_bucket :: "(nat \<Rightarrow> bool) \<Rightarrow> int \<Rightarrow> string \<Rightarrow> pool \<Rightarrow> pool" where
  "reclaim_bucket ru now ep p =
     (let p1 = fold (reclaim_idle ru now) (b_idle (get_bucket p ep)) p in
      fold (reclaim_dead ru now) (b_entries (get_bucket p1 ep)) p1)"

definition reclaim_locked :: "(nat \<Rightarrow> bool) \<Rightarrow> int \<Rightarrow> pool \<Rightarrow> pool" where
  "reclaim_locked ru now p = fold (reclaim_bucket ru now) (map fst (p_buckets p)) p"

text \<open>One tick of the reclaim loop.\<close>

definition reclaim_tick :: "(nat \<Rightarrow> bool) \<Rightarrow> int \<Rightarrow> pool \<Rightarrow> pool" where
  "reclaim_tick ru now p = (if p_closed p then p else reclaim_locked ru now p)"

section \<open>Release and Close\<close>

definition pool_release :: "(nat \<Rightarrow> bool) \<Rightarrow> int \<Rightarrow> nat \<Rightarrow> pool \<Rightarrow> pool" where
  "pool_release ru now s p =
     (case get_entry p s of
        None \<Rightarrow> p
      | Some e \<Rightarrow>
          if refcount e = 0 then p
          else return_locked ru now s (put_entry s (e\<lparr>refcount := refcount e - 1\<rparr>) p))"

definition pool_close :: "pool \<Rightarrow> pool" where
  "pool_close p =
     (if p_closed p then p
      else p\<lparr>p_closed := True, p_buckets := [], p_bySess := [],
             p_log := map fst (p_bySess p) @ p_log p\<rparr>)"

section \<open>Acquire, one critical section at a time\<close>

text \<open>
  \<open>acquire_begin\<close> is the loop body up to the first unlock: it returns a session, fails, joins
  the flight in progress, or reserves a dial (as the leader of a flight when the pool is
  multiplexed). The dial itself runs without the lock; the three ways it can end are the three
  sections that follow. A waiter whose flight is done runs \<open>acquire_waited\<close>.
\<close>

datatype acquire_out =
    AcqErr go_error
  | AcqSess nat
  | AcqWait nat
  | AcqDial "nat option"
  | AcqAgain

definition err_pool_closed :: go_error where
  "err_pool_closed = ErrNew ''sessionpool: pool closed''"

definition at_cap :: "string \<Rightarrow> pool \<Rightarrow> bool" where
  "at_cap ep p \<longleftrightarrow>
     0 < MaxSessionsPerEndpoint (p_cfg p)
     \<and> MaxSessionsPerEndpoint (p_cfg p)
         \<le> int (length (b_entries (get_bucket p ep))) + pendingDial (get_bucket p ep)"

definition add_pending :: "int \<Rightarrow> string \<Rightarrow> pool \<Rightarrow> pool" where
  "add_pending d ep p =
     (let b = get_bucket p ep in put_bucket ep (b\<lparr>pendingDial := pendingDial b + d\<rparr>) p)"

definition acquire_begin ::
    "(nat \<Rightarrow> bool) \<Rightarrow> int \<Rightarrow> nat list \<Rightarrow> string \<Rightarrow> pool \<Rightarrow> acquire_out \<times> pool" where
  "acquire_begin ru now skip ep p =
     (if p_closed p then (AcqErr err_pool_closed, p)
      else
        let p1 = reclaim_locked ru now p in
        case try_lend_locked ru now skip ep p1 of
          Some (s, p2) \<Rightarrow> (AcqSess s, p2)
        | None \<Rightarrow>
            let p2 = bucket_locked ep p1 in
            if p_capPer p2 < 0 then
              (case map_of (p_flights p2) ep of
                 Some fl \<Rightarrow> (AcqWait fl, p2)
               | None \<Rightarrow>
                   if at_cap ep p2 then (AcqErr err_sessions_exhausted, p2)
                   else (AcqDial (Some (p_nextFlight p2)),
                         (add_pending 1 ep p2)\<lparr>p_flights := alist_put ep (p_nextFlight p2) (p_flights p2),
                            p_nextFlight := Suc (p_nextFlight p2)\<rparr>))
            else if at_cap ep p2 then (AcqErr err_sessions_exhausted, p2)
            else (AcqDial None, add_pending 1 ep p2))"

definition retire_flight :: "string \<Rightarrow> nat option \<Rightarrow> go_error option \<Rightarrow> pool \<Rightarrow> pool" where
  "retire_flight ep flight err p =
     (let p1 = add_pending (-1) ep p in
      case flight of
        None \<Rightarrow> p1
      | Some fl \<Rightarrow> p1\<lparr>p_flights := alist_del ep (p_flights p1),
                      p_flres := alist_put fl err (p_flres p1)\<rparr>)"

definition acquire_panicked :: "string \<Rightarrow> nat option \<Rightarrow> string \<Rightarrow> pool \<Rightarrow> pool" where
  "acquire_panicked ep flight v p =
     retire_flight ep flight (Some (ErrNew (''sessionpool: dial panicked: '' @ v))) p"

definition acquire_failed :: "string \<Rightarrow> nat option \<Rightarrow> go_error \<Rightarrow> pool \<Rightarrow> go_error \<times> pool" where
  "acquire_failed ep flight err p =
     (let err' = (if p_closed p then err_pool_closed else err) in
      (err', retire_flight ep flight (Some err') p))"

definition acquire_dialed ::
    "string \<Rightarrow> nat option \<Rightarrow> nat \<Rightarrow> int \<Rightarrow> pool \<Rightarrow> (go_error + nat) \<times> pool" where
  "acquire_dialed ep flight s now p =
     (if p_closed p then
        (Inl err_pool_closed,
         (retire_flight ep flight (Some err_pool_closed) p)\<lparr>p_log := s # p_log p\<rparr>)
      else
        let p1 = add_entry_locked ep s now p in
        (Inr s,
         retire_flight ep flight None
           (case get_entry p1 s of
              None \<Rightarrow> p1
            | Some e \<Rightarrow> put_entry s (e\<lparr>refcount := 1\<rparr>) p1)))"

definition acquire_waited ::
    "(nat \<Rightarrow> bool) \<Rightarrow> int \<Rightarrow> nat list \<Rightarrow> string \<Rightarrow> nat \<Rightarrow> pool \<Rightarrow> acquire_out \<times> pool" where
  "acquire_waited ru now skip ep fl p =
     (case map_of (p_flres p) fl of
        Some (Some e) \<Rightarrow> (AcqErr e, p)
      | _ \<Rightarrow>
          if p_closed p then (AcqErr err_pool_closed, p)
          else
            (case try_lend_locked ru now skip ep p of
               Some (s, p1) \<Rightarrow> (AcqSess s, p1)
             | None \<Rightarrow>
                 let p1 = bucket_locked ep p in
                 if at_cap ep p1 then (AcqErr err_sessions_exhausted, p1) else (AcqAgain, p1)))"


section \<open>The dial budget and the releasing call\<close>

text \<open>
  Package \<open>establish\<close>: the budget a context carries, if any; and the time bound of one dial
  (\<open>dialNew\<close>), 0 when there is none.
\<close>

definition establish_with_timeout :: "int option \<Rightarrow> int \<Rightarrow> int option" where
  "establish_with_timeout ctx d = (if d \<le> 0 then ctx else Some d)"

definition establish_timeout :: "int option \<Rightarrow> int" where
  "establish_timeout ctx = (case ctx of None \<Rightarrow> 0 | Some d \<Rightarrow> d)"

definition dial_budget :: "pool_options \<Rightarrow> int option \<Rightarrow> int" where
  "dial_budget cfg ctx =
     (let budget = (if 0 < establish_timeout ctx then establish_timeout ctx
                    else HandshakeTimeout cfg) in
      if 0 < budget then budget else 0)"

lemma dial_budget_set: "0 < d \<Longrightarrow> dial_budget cfg (establish_with_timeout ctx d) = d"
  by (simp add: dial_budget_def establish_with_timeout_def establish_timeout_def)

text \<open>
  \<open>releasingCall.Close\<close>: the call's own \<open>Close\<close> every time, \<open>Release\<close> once.
\<close>

record releasing_call =
  rl_conn :: nat
  rl_once :: bool

definition releasing_close ::
    "(nat \<Rightarrow> bool) \<Rightarrow> int \<Rightarrow> releasing_call \<times> pool \<Rightarrow> releasing_call \<times> pool" where
  "releasing_close ru now cp =
     (if rl_once (fst cp) then cp
      else ((fst cp)\<lparr>rl_once := True\<rparr>, pool_release ru now (rl_conn (fst cp)) (snd cp)))"

lemma releasing_close_once:
  "releasing_close ru' now' (releasing_close ru now cp) = releasing_close ru now cp"
  by (simp add: releasing_close_def)

end
