(* ===== verification/Pool_Inv.thy ===== *)
theory Pool_Inv
  imports Pool
begin

text \<open>
  The pool's structural invariant and its preservation by every operation under the lock. The
  operations pass through states where one entry is neither lent nor idle, so the invariant has
  a parameter: the sessions for which the idle flag need not yet agree with the reference count.
\<close>

definition pool_inv_but :: "nat set \<Rightarrow> pool \<Rightarrow> bool" where
  "pool_inv_but X p \<longleftrightarrow>
     (\<forall>ep. distinct (b_entries (get_bucket p ep)) \<and> distinct (b_idle (get_bucket p ep)))
     \<and> (\<forall>ep s. s \<in> set (b_entries (get_bucket p ep))
               \<longleftrightarrow> (\<exists>e. get_entry p s = Some e \<and> e_endpoint e = ep))
     \<and> (\<forall>ep s. s \<in> set (b_idle (get_bucket p ep))
               \<longleftrightarrow> (\<exists>e. get_entry p s = Some e \<and> e_endpoint e = ep \<and> inIdle e))
     \<and> (\<forall>s e. get_entry p s = Some e \<longrightarrow>
          0 \<le> refcount e \<and> (0 < p_capPer p \<longrightarrow> refcount e \<le> p_capPer p)
          \<and> (s \<notin> X \<longrightarrow> (inIdle e \<longleftrightarrow> refcount e = 0)))
     \<and> (0 \<le> MaxIdleSessions (p_cfg p) \<longrightarrow>
          (\<forall>ep. int (length (b_idle (get_bucket p ep))) \<le> MaxIdleSessions (p_cfg p)))
     \<and> distinct (map fst (p_bySess p))"

abbreviation pool_inv :: "pool \<Rightarrow> bool" where
  "pool_inv p \<equiv> pool_inv_but {} p"

section \<open>Reading the state after an update\<close>

lemma alist_del_lookup [simp]: "map_of (alist_del k xs) = (map_of xs)(k := None)"
  by (induction xs) (auto simp: alist_del_def fun_eq_iff)

lemma alist_del_distinct [simp]:
  "distinct (map fst xs) \<Longrightarrow> distinct (map fst (alist_del k xs))"
  by (induction xs) (auto simp: alist_del_def)

lemma get_bucket_put [simp]:
  "get_bucket (put_bucket ep b p) ep' = (if ep' = ep then b else get_bucket p ep')"
  by (simp add: get_bucket_def put_bucket_def)

lemma get_bucket_put_entry [simp]: "get_bucket (put_entry s e p) ep = get_bucket p ep"
  by (simp add: get_bucket_def put_entry_def)

lemma get_entry_put [simp]:
  "get_entry (put_entry s e p) t = (if t = s then Some e else get_entry p t)"
  by (simp add: get_entry_def put_entry_def)

lemma get_entry_put_bucket [simp]: "get_entry (put_bucket ep b p) t = get_entry p t"
  by (simp add: get_entry_def put_bucket_def)

lemma put_fixed [simp]:
  "p_cfg (put_bucket ep b p) = p_cfg p" "p_cfg (put_entry s e p) = p_cfg p"
  "p_capPer (put_bucket ep b p) = p_capPer p" "p_capPer (put_entry s e p) = p_capPer p"
  "p_closed (put_bucket ep b p) = p_closed p" "p_closed (put_entry s e p) = p_closed p"
  "p_flights (put_bucket ep b p) = p_flights p" "p_flights (put_entry s e p) = p_flights p"
  "p_flres (put_bucket ep b p) = p_flres p" "p_flres (put_entry s e p) = p_flres p"
  "p_nextFlight (put_bucket ep b p) = p_nextFlight p"
  "p_nextFlight (put_entry s e p) = p_nextFlight p"
  "p_bySess (put_bucket ep b p) = p_bySess p"
  "p_bySess (put_entry s e p) = alist_put s e (p_bySess p)"
  by (simp_all add: put_bucket_def put_entry_def)

lemma get_bucket_other [simp]:
  "get_bucket (p\<lparr>p_flights := f\<rparr>) ep = get_bucket p ep"
  "get_bucket (p\<lparr>p_flres := r\<rparr>) ep = get_bucket p ep"
  "get_bucket (p\<lparr>p_nextFlight := n\<rparr>) ep = get_bucket p ep"
  "get_bucket (p\<lparr>p_log := l\<rparr>) ep = get_bucket p ep"
  "get_bucket (p\<lparr>p_bySess := m\<rparr>) ep = get_bucket p ep"
  by (simp_all add: get_bucket_def)

lemma get_entry_other [simp]:
  "get_entry (p\<lparr>p_flights := f\<rparr>) s = get_entry p s"
  "get_entry (p\<lparr>p_flres := r\<rparr>) s = get_entry p s"
  "get_entry (p\<lparr>p_nextFlight := n\<rparr>) s = get_entry p s"
  "get_entry (p\<lparr>p_log := l\<rparr>) s = get_entry p s"
  by (simp_all add: get_entry_def)

lemma pool_inv_other [simp]:
  "pool_inv_but X (p\<lparr>p_flights := f\<rparr>) = pool_inv_but X p"
  "pool_inv_but X (p\<lparr>p_flres := r\<rparr>) = pool_inv_but X p"
  "pool_inv_but X (p\<lparr>p_nextFlight := n\<rparr>) = pool_inv_but X p"
  "pool_inv_but X (p\<lparr>p_log := l\<rparr>) = pool_inv_but X p"
  by (simp_all add: pool_inv_but_def)

lemma bucket_locked_same [simp]:
  "get_bucket (bucket_locked ep p) ep' = get_bucket p ep'"
  "get_entry (bucket_locked ep p) s = get_entry p s"
  "p_cfg (bucket_locked ep p) = p_cfg p" "p_capPer (bucket_locked ep p) = p_capPer p"
  "p_closed (bucket_locked ep p) = p_closed p" "p_bySess (bucket_locked ep p) = p_bySess p"
  "p_flights (bucket_locked ep p) = p_flights p" "p_flres (bucket_locked ep p) = p_flres p"
  "p_nextFlight (bucket_locked ep p) = p_nextFlight p"
  by (simp_all add: bucket_locked_def)

lemma bucket_locked_inv [simp]: "pool_inv_but X (bucket_locked ep p) = pool_inv_but X p"
  by (simp add: pool_inv_but_def)

lemma remove1_bound [intro]:
  "int (length xs) \<le> m \<Longrightarrow> int (length (remove1 x xs)) \<le> m"
  by (rule order_trans [of _ "int (length xs)"]) (simp_all add: length_remove1)

lemma pool_inv_weaken: "pool_inv_but X p \<Longrightarrow> X \<subseteq> Y \<Longrightarrow> pool_inv_but Y p"
  unfolding pool_inv_but_def by blast

lemma pool_inv_settle:
  assumes inv: "pool_inv_but (insert s X) p" and e: "get_entry p s = Some e"
    and i: "inIdle e \<longleftrightarrow> refcount e = 0"
  shows "pool_inv_but X p"
proof -
  have "0 \<le> refcount d \<and> (0 < p_capPer p \<longrightarrow> refcount d \<le> p_capPer p)
      \<and> (t \<notin> X \<longrightarrow> (inIdle d \<longleftrightarrow> refcount d = 0))" if "get_entry p t = Some d" for t d
    using inv that e i unfolding pool_inv_but_def by (cases "t = s") auto
  with inv show ?thesis unfolding pool_inv_but_def by blast
qed

lemma pool_inv_entry:
  assumes "pool_inv_but X p" "get_entry p s = Some e"
  shows "s \<in> set (b_entries (get_bucket p (e_endpoint e)))" "0 \<le> refcount e"
    "s \<notin> X \<Longrightarrow> inIdle e \<longleftrightarrow> refcount e = 0"
    "s \<in> set (b_idle (get_bucket p (e_endpoint e))) \<longleftrightarrow> inIdle e"
    "0 < p_capPer p \<Longrightarrow> refcount e \<le> p_capPer p"
  using assms unfolding pool_inv_but_def by auto

section \<open>The primitive updates\<close>

lemma remove_idle_entry:
  "get_entry (remove_idle_locked s p) t =
     (if t = s then map_option (\<lambda>e. e\<lparr>inIdle := False\<rparr>) (get_entry p s) else get_entry p t)"
  by (auto simp: remove_idle_locked_def Let_def split: option.splits)

lemma remove_idle_bucket:
  "get_bucket (remove_idle_locked s p) ep =
     (case get_entry p s of
        None \<Rightarrow> get_bucket p ep
      | Some e \<Rightarrow>
          if inIdle e \<and> e_endpoint e = ep
          then (get_bucket p ep)\<lparr>b_idle := remove1 s (b_idle (get_bucket p ep))\<rparr>
          else get_bucket p ep)"
  by (auto simp: remove_idle_locked_def Let_def split: option.splits)

lemma remove_idle_fixed [simp]:
  "p_cfg (remove_idle_locked s p) = p_cfg p" "p_capPer (remove_idle_locked s p) = p_capPer p"
  "p_closed (remove_idle_locked s p) = p_closed p" "p_flights (remove_idle_locked s p) = p_flights p"
  "p_flres (remove_idle_locked s p) = p_flres p"
  "p_nextFlight (remove_idle_locked s p) = p_nextFlight p"
  "distinct (map fst (p_bySess p)) \<Longrightarrow> distinct (map fst (p_bySess (remove_idle_locked s p)))"
  by (auto simp: remove_idle_locked_def Let_def split: option.splits)

lemma remove_idle_inv:
  assumes "pool_inv_but X p"
  shows "pool_inv_but (insert s X) (remove_idle_locked s p)"
proof (cases "get_entry p s")
  case None
  then show ?thesis using assms pool_inv_weaken [OF assms, of "insert s X"]
    by (auto simp: remove_idle_locked_def)
next
  case (Some e)
  show ?thesis
  proof (cases "inIdle e")
    case False
    then show ?thesis using Some pool_inv_weaken [OF assms, of "insert s X"]
      by (auto simp: remove_idle_locked_def)
  next
    case True
    show ?thesis
      using assms Some True
      unfolding pool_inv_but_def remove_idle_entry remove_idle_bucket
      by auto
  qed
qed


lemma bucket_exists: "s \<in> set (b_entries (get_bucket p ep)) \<Longrightarrow> map_of (p_buckets p) ep \<noteq> None"
  by (auto simp: get_bucket_def empty_bucket_def split: option.splits)

lemma discard_entry:
  "get_entry (discard_locked s p) t = (if t = s then None else get_entry p t)"
  using remove_idle_entry [of s p t]
  by (auto simp: discard_locked_def Let_def get_entry_def put_bucket_def split: option.splits)

lemma discard_bucket:
  assumes "pool_inv_but X p"
  shows "get_bucket (discard_locked s p) ep =
     (case get_entry p s of
        None \<Rightarrow> get_bucket p ep
      | Some e \<Rightarrow>
          if e_endpoint e = ep
          then (get_bucket p ep)\<lparr>b_entries := remove1 s (b_entries (get_bucket p ep)),
                                 b_idle := remove1 s (b_idle (get_bucket p ep))\<rparr>
          else get_bucket p ep)"
proof (cases "get_entry p s")
  case None
  then show ?thesis by (simp add: discard_locked_def)
next
  case (Some e)
  note f = pool_inv_entry [OF assms Some]
  have "map_of (p_buckets p) (e_endpoint e) \<noteq> None" using bucket_exists [OF f(1)] .
  moreover have "\<not> inIdle e \<Longrightarrow> remove1 s (b_idle (get_bucket p (e_endpoint e)))
      = b_idle (get_bucket p (e_endpoint e))"
    using f(4) by (simp add: remove1_idem)
  ultimately show ?thesis using Some
    by (auto simp: discard_locked_def Let_def remove_idle_bucket)
qed

lemma discard_fixed [simp]:
  "p_cfg (discard_locked s p) = p_cfg p" "p_capPer (discard_locked s p) = p_capPer p"
  "p_closed (discard_locked s p) = p_closed p" "p_flights (discard_locked s p) = p_flights p"
  "p_flres (discard_locked s p) = p_flres p" "p_nextFlight (discard_locked s p) = p_nextFlight p"
  "distinct (map fst (p_bySess p)) \<Longrightarrow> distinct (map fst (p_bySess (discard_locked s p)))"
  by (auto simp: discard_locked_def Let_def split: option.splits)

lemma discard_inv:
  assumes "pool_inv_but X p"
  shows "pool_inv_but (X - {s}) (discard_locked s p)"
proof (cases "get_entry p s")
  case None
  then have "discard_locked s p = p" by (simp add: discard_locked_def)
  moreover have "pool_inv_but (X - {s}) p"
    using assms None unfolding pool_inv_but_def by auto
  ultimately show ?thesis by simp
next
  case (Some e)
  show ?thesis
    using assms Some
    unfolding pool_inv_but_def discard_entry discard_bucket [OF assms]
    by auto
qed

lemma discard_entries_le:
  assumes "pool_inv_but X p"
  shows "length (b_entries (get_bucket (discard_locked s p) ep))
           \<le> length (b_entries (get_bucket p ep))
         \<and> pendingDial (get_bucket (discard_locked s p) ep) = pendingDial (get_bucket p ep)"
  by (auto simp: discard_bucket [OF assms] length_remove1 split: option.splits)

text \<open>
  What every update under the lock leaves alone, apart from lending and adding entries: no
  bucket gains an entry, no reservation changes, and the flights stay.
\<close>

definition shrinks :: "pool \<Rightarrow> pool \<Rightarrow> bool" where
  "shrinks p q \<longleftrightarrow>
     p_cfg q = p_cfg p \<and> p_capPer q = p_capPer p \<and> p_closed q = p_closed p
     \<and> p_flights q = p_flights p \<and> p_flres q = p_flres p \<and> p_nextFlight q = p_nextFlight p
     \<and> (\<forall>ep. length (b_entries (get_bucket q ep)) \<le> length (b_entries (get_bucket p ep))
             \<and> pendingDial (get_bucket q ep) = pendingDial (get_bucket p ep))
     \<and> (\<forall>s. get_entry p s = None \<longrightarrow> get_entry q s = None)"

lemma shrinks_refl [simp]: "shrinks p p"
  by (simp add: shrinks_def)

lemma shrinks_trans: "shrinks p q \<Longrightarrow> shrinks q r \<Longrightarrow> shrinks p r"
  unfolding shrinks_def by (auto intro: order_trans)

lemma discard_shrinks: "pool_inv_but X p \<Longrightarrow> shrinks p (discard_locked s p)"
  using discard_entries_le by (simp add: shrinks_def discard_entry)

lemma bucket_locked_shrinks: "shrinks p (bucket_locked ep p)"
  by (simp add: shrinks_def)

text \<open>The number of calls the pool counts on a session, and the updates that change none.\<close>

definition rc :: "pool \<Rightarrow> nat \<Rightarrow> int" where
  "rc p s = (case get_entry p s of None \<Rightarrow> 0 | Some e \<Rightarrow> refcount e)"

definition quiet :: "pool \<Rightarrow> pool \<Rightarrow> bool" where
  "quiet p q \<longleftrightarrow> shrinks p q \<and> rc q = rc p"

lemma quiet_refl [simp]: "quiet p p"
  by (simp add: quiet_def)

lemma quiet_trans: "quiet p q \<Longrightarrow> quiet q r \<Longrightarrow> quiet p r"
  unfolding quiet_def using shrinks_trans by metis

lemma rc_bucket_locked [simp]: "rc (bucket_locked ep p) = rc p"
  by (simp add: rc_def fun_eq_iff)

lemma bucket_locked_quiet: "quiet p (bucket_locked ep p)"
  by (simp add: quiet_def bucket_locked_shrinks)

lemma discard_quiet:
  "pool_inv_but X p \<Longrightarrow> rc p s = 0 \<Longrightarrow> quiet p (discard_locked s p)"
  using discard_shrinks by (auto simp: quiet_def rc_def discard_entry fun_eq_iff)

section \<open>Reclaim\<close>

lemma reclaim_idle_ok:
  assumes "pool_inv p"
  shows "pool_inv (reclaim_idle ru now s p) \<and> quiet p (reclaim_idle ru now s p)"
proof (cases "get_entry p s")
  case (Some e)
  then have "rc p s = 0 \<or> 0 < refcount e"
    using pool_inv_entry(2) [OF assms Some] by (auto simp: rc_def)
  then show ?thesis using assms discard_inv [OF assms, of s] discard_quiet [OF assms, of s] Some
    by (auto simp: reclaim_idle_def)
qed (use assms in \<open>simp add: reclaim_idle_def\<close>)

lemma reclaim_dead_ok:
  assumes "pool_inv p"
  shows "pool_inv (reclaim_dead ru now s p) \<and> quiet p (reclaim_dead ru now s p)"
proof (cases "get_entry p s")
  case (Some e)
  then have "rc p s = refcount e" by (simp add: rc_def)
  then show ?thesis using assms discard_inv [OF assms, of s] discard_quiet [OF assms, of s] Some
    by (auto simp: reclaim_dead_def)
qed (use assms in \<open>simp add: reclaim_dead_def\<close>)

lemma fold_ok:
  assumes "\<And>x p. pool_inv p \<Longrightarrow> pool_inv (f x p) \<and> quiet p (f x p)"
  shows "pool_inv p \<Longrightarrow> pool_inv (fold f xs p) \<and> quiet p (fold f xs p)"
proof (induction xs arbitrary: p)
  case (Cons x xs)
  with assms [of p x] have "pool_inv (f x p)" and 1: "quiet p (f x p)" by blast+
  from Cons.IH [OF this(1)] show ?case using quiet_trans [OF 1] by simp
qed simp

lemma reclaim_bucket_ok:
  assumes "pool_inv p"
  shows "pool_inv (reclaim_bucket ru now ep p) \<and> quiet p (reclaim_bucket ru now ep p)"
proof -
  let ?p1 = "fold (reclaim_idle ru now) (b_idle (get_bucket p ep)) p"
  have 1: "pool_inv ?p1" "quiet p ?p1"
    using fold_ok [where f = "reclaim_idle ru now", OF reclaim_idle_ok assms] by blast+
  from fold_ok [where f = "reclaim_dead ru now", OF reclaim_dead_ok 1(1)] show ?thesis
    using quiet_trans [OF 1(2)] by (simp add: reclaim_bucket_def Let_def)
qed

lemma reclaim_ok:
  "pool_inv p \<Longrightarrow> pool_inv (reclaim_locked ru now p) \<and> quiet p (reclaim_locked ru now p)"
  unfolding reclaim_locked_def by (rule fold_ok [where f = "reclaim_bucket ru now", OF reclaim_bucket_ok])

section \<open>Lending and returning\<close>

lemma lend_inv:
  assumes inv: "pool_inv p" and e: "get_entry p s = Some e"
    and cap: "0 < p_capPer p \<longrightarrow> refcount e < p_capPer p"
  shows "pool_inv (lend s p) \<and> shrinks p (lend s p) \<and> rc (lend s p) = (rc p)(s := rc p s + 1)"
proof -
  have r: "0 \<le> refcount e" using pool_inv_entry(2) [OF inv e] .
  have i: "pool_inv_but {s} (remove_idle_locked s p)" using remove_idle_inv [OF inv, of s] by simp
  have g: "get_entry (remove_idle_locked s p) s = Some (e\<lparr>inIdle := False\<rparr>)"
    by (simp add: remove_idle_entry e)
  have l: "lend s p = put_entry s (e\<lparr>inIdle := False, refcount := refcount e + 1\<rparr>)
      (remove_idle_locked s p)"
    by (simp add: lend_def g Let_def)
  have "pool_inv (lend s p)"
    using i g r cap unfolding l pool_inv_but_def by auto
  moreover have "shrinks p (lend s p)"
    using e unfolding l shrinks_def
    by (auto simp: remove_idle_bucket remove_idle_entry split: option.splits)
  moreover have "rc (lend s p) = (rc p)(s := rc p s + 1)"
    using e by (auto simp: l rc_def remove_idle_entry fun_eq_iff)
  ultimately show ?thesis by blast
qed

lemma try_lend_some:
  assumes "try_lend_locked ru now skip ep p = Some (s, q)"
  shows "q = lend s p \<and> s \<in> set (b_entries (get_bucket p ep)) \<and> s \<notin> set skip
         \<and> lendable_locked ru now p s"
  using assms
  by (auto simp: try_lend_locked_def get_bucket_def find_Some_iff in_set_conv_nth
      split: option.splits)

lemma try_lend_ok:
  assumes "pool_inv p" "try_lend_locked ru now skip ep p = Some (s, q)"
  shows "pool_inv q \<and> shrinks p q \<and> rc q = (rc p)(s := rc p s + 1)"
proof -
  from try_lend_some [OF assms(2)] have q: "q = lend s p" and l: "lendable_locked ru now p s"
    by blast+
  from l obtain e where "get_entry p s = Some e" "0 < p_capPer p \<longrightarrow> refcount e < p_capPer p"
    by (auto simp: lendable_locked_def split: option.splits)
  from lend_inv [OF assms(1) this] q show ?thesis by simp
qed

lemma return_ok:
  assumes inv: "pool_inv_but {s} p"
    and idle: "\<And>e. get_entry p s = Some e \<Longrightarrow> \<not> inIdle e"
  shows "pool_inv (return_locked ru now s p) \<and> quiet p (return_locked ru now s p)"
proof (cases "get_entry p s")
  case None
  then have "pool_inv p" using discard_inv [OF inv, of s] by (simp add: discard_locked_def)
  with None show ?thesis by (simp add: return_locked_def)
next
  case (Some e)
  note f = pool_inv_entry [OF inv Some]
  have ni: "\<not> inIdle e" using idle Some by blast
  consider "0 < refcount e" | "\<not> 0 < refcount e" "\<not> (ru s \<and> \<not> lifetime_expired p e now)"
    | "\<not> 0 < refcount e" "ru s \<and> \<not> lifetime_expired p e now"
      "0 \<le> MaxIdleSessions (p_cfg p) \<and> MaxIdleSessions (p_cfg p)
         \<le> int (length (b_idle (get_bucket p (e_endpoint e))))"
    | "\<not> 0 < refcount e" "ru s \<and> \<not> lifetime_expired p e now"
      "\<not> (0 \<le> MaxIdleSessions (p_cfg p) \<and> MaxIdleSessions (p_cfg p)
         \<le> int (length (b_idle (get_bucket p (e_endpoint e)))))"
    by blast
  then show ?thesis
  proof cases
    case 1
    then have "pool_inv p" using pool_inv_settle [OF inv Some] ni by simp
    with 1 Some show ?thesis by (simp add: return_locked_def Let_def)
  next
    case 2
    then have "rc p s = 0" using Some f(2) by (simp add: rc_def)
    then show ?thesis using 2 Some discard_inv [OF inv, of s] discard_quiet [OF inv, of s]
      by (auto simp: return_locked_def Let_def)
  next
    case 3
    let ?q = "bucket_locked (e_endpoint e) p"
    have "pool_inv_but {s} ?q" using inv by simp
    moreover have "rc ?q s = 0" using 3 Some f(2) by (simp add: rc_def)
    ultimately show ?thesis
      using discard_inv [of "{s}" ?q s] discard_quiet [of "{s}" ?q s]
        3 Some quiet_trans [OF bucket_locked_quiet]
      by (auto simp: return_locked_def Let_def)
  next
    case 4
    let ?b = "get_bucket p (e_endpoint e)"
    let ?q = "put_bucket (e_endpoint e) (?b\<lparr>b_idle := b_idle ?b @ [s]\<rparr>)
                (put_entry s (e\<lparr>inIdle := True, idleSince := now\<rparr>) p)"
    have r: "return_locked ru now s p = ?q"
      using 4 Some by (auto simp: return_locked_def Let_def)
    have "s \<notin> set (b_idle ?b)" using f(4) ni by simp
    moreover have "refcount e = 0" using 4 f(2) by simp
    ultimately have "pool_inv ?q" using inv Some 4 ni
      unfolding pool_inv_but_def by auto
    moreover have "quiet p ?q" using Some
      by (auto simp: quiet_def shrinks_def rc_def fun_eq_iff)
    ultimately show ?thesis using r by simp
  qed
qed

lemma release_ok:
  assumes "pool_inv p"
  shows "pool_inv (pool_release ru now s p) \<and> shrinks p (pool_release ru now s p)
         \<and> rc (pool_release ru now s p) = (rc p)(s := max 0 (rc p s - 1))"
proof (cases "get_entry p s")
  case None
  with assms show ?thesis by (auto simp: pool_release_def rc_def fun_eq_iff)
next
  case (Some e)
  show ?thesis
  proof (cases "refcount e = 0")
    case True
    with assms Some show ?thesis by (auto simp: pool_release_def rc_def fun_eq_iff)
  next
    case False
    let ?q = "put_entry s (e\<lparr>refcount := refcount e - 1\<rparr>) p"
    have r: "0 < refcount e" "\<not> inIdle e" "0 < p_capPer p \<longrightarrow> refcount e - 1 \<le> p_capPer p"
      using pool_inv_entry [OF assms Some] False by fastforce+
    have inv: "pool_inv_but {s} ?q"
      using assms Some False r unfolding pool_inv_but_def by auto
    have "shrinks p ?q" using Some by (auto simp: shrinks_def)
    moreover have "rc ?q = (rc p)(s := max 0 (rc p s - 1))"
      using Some r by (auto simp: rc_def fun_eq_iff)
    moreover have "pool_inv (return_locked ru now s ?q) \<and> quiet ?q (return_locked ru now s ?q)"
      using return_ok [OF inv] r by simp
    ultimately show ?thesis using False Some shrinks_trans
      by (auto simp: pool_release_def quiet_def)
  qed
qed

lemma close_ok: "pool_inv p \<Longrightarrow> pool_inv (pool_close p)"
  by (auto simp: pool_close_def pool_inv_but_def get_bucket_def get_entry_def empty_bucket_def)

lemma new_pool_inv: "pool_inv (new_pool cfg)"
  by (simp add: pool_inv_but_def get_bucket_def get_entry_def empty_bucket_def new_pool_def)

end
