(* ===== verification/Pool_World.thy ===== *)
theory Pool_World
  imports Pool_Inv
begin

text \<open>
  The pool under concurrency: every interleaving of the critical sections of \<open>acquire\<close>,
  \<open>Release\<close>, the reclaim loop and \<open>Close\<close>, with dials in flight between them. Goroutines are
  numbered; a goroutine in the middle of an \<open>acquire\<close> has a phase. New sessions get fresh
  numbers, which is the one thing assumed of the dial function: it never returns a connection
  the pool already holds.
\<close>

datatype acq_phase =
    Dialing string "nat list" "nat option"
  | Waiting string "nat list" nat
  | Again string "nat list"

record pool_world =
  pw_pool :: pool
  pw_threads :: "(nat, acq_phase) gomap"
  pw_next :: nat
  pw_held :: "nat list"
  pw_results :: "(nat \<times> (go_error + nat)) list"

datatype pool_event =
    PvAcquire nat string "nat list" "nat \<Rightarrow> bool" int
  | PvDialed nat int
  | PvDialFailed nat go_error
  | PvDialPanic nat string
  | PvWaited nat "nat \<Rightarrow> bool" int
  | PvCtxDone nat go_error
  | PvRelease nat "nat \<Rightarrow> bool" int
  | PvReclaim "nat \<Rightarrow> bool" int
  | PvClose

definition pool_start :: "pool_options \<Rightarrow> pool_world" where
  "pool_start cfg =
     \<lparr>pw_pool = new_pool cfg, pw_threads = [], pw_next = 0, pw_held = [], pw_results = []\<rparr>"

definition acq_finish :: "nat \<Rightarrow> go_error + nat \<Rightarrow> pool \<Rightarrow> pool_world \<Rightarrow> pool_world" where
  "acq_finish t r p w =
     w\<lparr>pw_pool := p, pw_threads := alist_del t (pw_threads w),
       pw_held := (case r of Inl _ \<Rightarrow> pw_held w | Inr s \<Rightarrow> s # pw_held w),
       pw_results := (t, r) # pw_results w\<rparr>"

definition acq_phase_to :: "nat \<Rightarrow> acq_phase \<Rightarrow> pool \<Rightarrow> pool_world \<Rightarrow> pool_world" where
  "acq_phase_to t ph p w = w\<lparr>pw_pool := p, pw_threads := alist_put t ph (pw_threads w)\<rparr>"

definition acq_outcome ::
    "nat \<Rightarrow> string \<Rightarrow> nat list \<Rightarrow> acquire_out \<times> pool \<Rightarrow> pool_world \<Rightarrow> pool_world" where
  "acq_outcome t ep skip r w =
     (case r of
        (AcqErr e, p) \<Rightarrow> acq_finish t (Inl e) p w
      | (AcqSess s, p) \<Rightarrow> acq_finish t (Inr s) p w
      | (AcqWait fl, p) \<Rightarrow> acq_phase_to t (Waiting ep skip fl) p w
      | (AcqDial fl, p) \<Rightarrow> acq_phase_to t (Dialing ep skip fl) p w
      | (AcqAgain, p) \<Rightarrow> acq_phase_to t (Again ep skip) p w)"

fun pw_step :: "pool_event \<Rightarrow> pool_world \<Rightarrow> pool_world" where
  "pw_step (PvAcquire t ep skip ru now) w =
     (case map_of (pw_threads w) t of
        None \<Rightarrow> acq_outcome t ep skip (acquire_begin ru now skip ep (pw_pool w)) w
      | Some (Again ep' skip') \<Rightarrow>
          acq_outcome t ep' skip' (acquire_begin ru now skip' ep' (pw_pool w)) w
      | Some _ \<Rightarrow> w)"
| "pw_step (PvDialed t now) w =
     (case map_of (pw_threads w) t of
        Some (Dialing ep skip fl) \<Rightarrow>
          (case acquire_dialed ep fl (pw_next w) now (pw_pool w) of
             (r, p) \<Rightarrow> acq_finish t r p (w\<lparr>pw_next := Suc (pw_next w)\<rparr>))
      | _ \<Rightarrow> w)"
| "pw_step (PvDialFailed t e) w =
     (case map_of (pw_threads w) t of
        Some (Dialing ep skip fl) \<Rightarrow>
          (case acquire_failed ep fl e (pw_pool w) of (e', p) \<Rightarrow> acq_finish t (Inl e') p w)
      | _ \<Rightarrow> w)"
| "pw_step (PvDialPanic t v) w =
     (case map_of (pw_threads w) t of
        Some (Dialing ep skip fl) \<Rightarrow>
          w\<lparr>pw_pool := acquire_panicked ep fl v (pw_pool w),
            pw_threads := alist_del t (pw_threads w)\<rparr>
      | _ \<Rightarrow> w)"
| "pw_step (PvWaited t ru now) w =
     (case map_of (pw_threads w) t of
        Some (Waiting ep skip fl) \<Rightarrow>
          if map_of (p_flres (pw_pool w)) fl = None then w
          else acq_outcome t ep skip (acquire_waited ru now skip ep fl (pw_pool w)) w
      | _ \<Rightarrow> w)"
| "pw_step (PvCtxDone t e) w =
     (case map_of (pw_threads w) t of
        Some (Waiting ep skip fl) \<Rightarrow> acq_finish t (Inl e) (pw_pool w) w
      | _ \<Rightarrow> w)"
| "pw_step (PvRelease s ru now) w =
     w\<lparr>pw_pool := pool_release ru now s (pw_pool w), pw_held := remove1 s (pw_held w)\<rparr>"
| "pw_step (PvReclaim ru now) w =
     w\<lparr>pw_pool := reclaim_tick ru now (pw_pool w)\<rparr>"
| "pw_step PvClose w = w\<lparr>pw_pool := pool_close (pw_pool w)\<rparr>"

section \<open>Counting dials\<close>

fun dial_at :: "string \<Rightarrow> acq_phase \<Rightarrow> bool" where
  "dial_at ep (Dialing ep' _ _) = (ep' = ep)"
| "dial_at ep _ = False"

definition dials :: "(nat, acq_phase) gomap \<Rightarrow> string \<Rightarrow> int" where
  "dials ths ep = int (length (filter (\<lambda>(t, ph). dial_at ep ph) ths))"

definition dial1 :: "acq_phase option \<Rightarrow> string \<Rightarrow> int" where
  "dial1 ph ep = (case ph of None \<Rightarrow> 0 | Some q \<Rightarrow> if dial_at ep q then 1 else 0)"

lemma dials_absent: "t \<notin> fst ` set ths \<Longrightarrow> alist_del t ths = ths"
  by (auto simp: alist_del_def filter_id_conv image_iff)

lemma dials_del:
  "distinct (map fst ths) \<Longrightarrow> dials (alist_del t ths) ep = dials ths ep - dial1 (map_of ths t) ep"
proof (induction ths)
  case (Cons x ths)
  obtain u ph where x: "x = (u, ph)" by (cases x)
  show ?case
  proof (cases "u = t")
    case True
    have "alist_del t (x # ths) = alist_del t ths" by (simp add: alist_del_def x True)
    moreover have "alist_del t ths = ths" using Cons.prems True x
      by (intro dials_absent) (auto simp: image_iff)
    ultimately show ?thesis by (simp add: dials_def dial1_def x True)
  next
    case False
    have "alist_del t (x # ths) = x # alist_del t ths" by (simp add: alist_del_def x False)
    moreover have "dials (alist_del t ths) ep = dials ths ep - dial1 (map_of ths t) ep"
      using Cons by simp
    ultimately show ?thesis using False by (simp add: dials_def x)
  qed
qed (simp add: dials_def dial1_def alist_del_def)

lemma dials_put:
  "distinct (map fst ths) \<Longrightarrow>
     dials (alist_put t ph ths) ep
       = dials ths ep - dial1 (map_of ths t) ep + (if dial_at ep ph then 1 else 0)"
proof (induction ths)
  case (Cons x ths)
  obtain u qh where x: "x = (u, qh)" by (cases x)
  show ?case
  proof (cases "u = t")
    case True
    then show ?thesis by (simp add: dials_def dial1_def x alist_put_def)
  next
    case False
    have "alist_put t ph (x # ths) = x # alist_put t ph ths"
      using False by (simp add: alist_put_def x)
    moreover have "dials (alist_put t ph ths) ep
        = dials ths ep - dial1 (map_of ths t) ep + (if dial_at ep ph then 1 else 0)"
      using Cons by simp
    ultimately show ?thesis using False by (simp add: dials_def x)
  qed
qed (simp add: dials_def dial1_def alist_put_def)

lemma dials_pos: "map_of ths t = Some (Dialing ep skip fl) \<Longrightarrow> 1 \<le> dials ths ep"
proof -
  assume "map_of ths t = Some (Dialing ep skip fl)"
  then have "(t, Dialing ep skip fl) \<in> set (filter (\<lambda>(t, ph). dial_at ep ph) ths)"
    by (auto dest: map_of_SomeD)
  then show ?thesis unfolding dials_def
    by (metis One_nat_def Suc_leI length_pos_if_in_set of_nat_1 of_nat_le_iff)
qed

section \<open>Accounting\<close>

text \<open>
  What ties the pool to the dials in flight: as long as it is open, every reservation belongs to
  a dial and entries plus reservations stay within the limit; a multiplexed pool has at most one
  dial per endpoint, and it is the one its flight stands for.
\<close>

definition single_flight :: "(string \<Rightarrow> int) \<Rightarrow> pool \<Rightarrow> bool" where
  "single_flight D p \<longleftrightarrow>
     (p_capPer p < 0 \<longrightarrow> (\<forall>ep. D ep = (if map_of (p_flights p) ep = None then 0 else 1)))"

definition pool_acc :: "(string \<Rightarrow> int) \<Rightarrow> pool \<Rightarrow> bool" where
  "pool_acc D p \<longleftrightarrow>
     pool_inv p
     \<and> (\<not> p_closed p \<longrightarrow>
          (\<forall>ep. pendingDial (get_bucket p ep) = D ep
                \<and> (0 < MaxSessionsPerEndpoint (p_cfg p) \<longrightarrow>
                     int (length (b_entries (get_bucket p ep))) + D ep
                       \<le> MaxSessionsPerEndpoint (p_cfg p))))
     \<and> single_flight D p"

lemma acc_shrinks: "pool_acc D p \<Longrightarrow> pool_inv q \<Longrightarrow> shrinks p q \<Longrightarrow> pool_acc D q"
proof -
  assume acc: "pool_acc D p" and inv: "pool_inv q" and sh: "shrinks p q"
  have f: "p_cfg q = p_cfg p" "p_capPer q = p_capPer p" "p_closed q = p_closed p"
    "p_flights q = p_flights p"
    and le: "\<And>ep. int (length (b_entries (get_bucket q ep)))
              \<le> int (length (b_entries (get_bucket p ep)))"
    and pd: "\<And>ep. pendingDial (get_bucket q ep) = pendingDial (get_bucket p ep)"
    using sh by (auto simp: shrinks_def)
  have "int (length (b_entries (get_bucket q ep))) + D ep \<le> MaxSessionsPerEndpoint (p_cfg p)"
    if "\<not> p_closed p" "0 < MaxSessionsPerEndpoint (p_cfg p)" for ep
    using acc that le [of ep] unfolding pool_acc_def by (meson add_right_mono order_trans)
  moreover have "single_flight D q"
    using acc f unfolding pool_acc_def single_flight_def by simp
  ultimately show ?thesis using acc inv unfolding pool_acc_def f pd by simp
qed

lemma add_pending_simps [simp]:
  "get_bucket (add_pending d ep p) ep' =
     (if ep' = ep then (get_bucket p ep)\<lparr>pendingDial := pendingDial (get_bucket p ep) + d\<rparr>
      else get_bucket p ep')"
  "get_entry (add_pending d ep p) s = get_entry p s"
  "p_cfg (add_pending d ep p) = p_cfg p" "p_capPer (add_pending d ep p) = p_capPer p"
  "p_closed (add_pending d ep p) = p_closed p" "p_flights (add_pending d ep p) = p_flights p"
  "p_flres (add_pending d ep p) = p_flres p" "p_bySess (add_pending d ep p) = p_bySess p"
  "p_nextFlight (add_pending d ep p) = p_nextFlight p"
  by (simp_all add: add_pending_def Let_def)

lemma add_pending_inv [simp]: "pool_inv_but X (add_pending d ep p) = pool_inv_but X p"
proof -
  have "b_entries (get_bucket (add_pending d ep p) e) = b_entries (get_bucket p e)"
    "b_idle (get_bucket (add_pending d ep p) e) = b_idle (get_bucket p e)" for e
    by simp_all
  then show ?thesis by (simp add: pool_inv_but_def del: add_pending_simps(1))
qed

lemma rc_other [simp]:
  "rc (add_pending d ep p) = rc p" "rc (p\<lparr>p_flights := f\<rparr>) = rc p"
  "rc (p\<lparr>p_flres := r\<rparr>) = rc p" "rc (p\<lparr>p_nextFlight := n\<rparr>) = rc p" "rc (p\<lparr>p_log := l\<rparr>) = rc p"
  by (simp_all add: rc_def fun_eq_iff)


lemma begin_not_dial:
  assumes "pool_inv p" "acquire_begin ru now skip ep p = (out, q)" "\<And>fl. out \<noteq> AcqDial fl"
  shows "pool_inv q \<and> shrinks p q
         \<and> rc q = (case out of AcqSess s \<Rightarrow> (rc p)(s := rc p s + 1) | _ \<Rightarrow> rc p)"
proof -
  let ?p1 = "reclaim_locked ru now p"
  have 1: "pool_inv ?p1" "shrinks p ?p1" "rc ?p1 = rc p"
    using reclaim_ok [OF assms(1), of ru now] by (auto simp: quiet_def)
  show ?thesis
  proof (cases "try_lend_locked ru now skip ep ?p1")
    case None
    then show ?thesis using assms 1 shrinks_trans [OF 1(2) bucket_locked_shrinks]
      by (auto simp: acquire_begin_def Let_def split: if_splits option.splits)
  next
    case (Some sq)
    obtain s q' where "sq = (s, q')" by (cases sq)
    with Some assms(2) 1 try_lend_ok [of ?p1 ru now skip ep s q'] shrinks_trans [OF 1(2)] assms(1)
    show ?thesis by (auto simp: acquire_begin_def Let_def split: if_splits)
  qed
qed

lemma begin_dial:
  assumes acc: "pool_acc D p" and b: "acquire_begin ru now skip ep p = (AcqDial fl, q)"
  shows "pool_acc (D(ep := D ep + 1)) q \<and> rc q = rc p \<and> p_closed q = p_closed p
         \<and> p_cfg q = p_cfg p \<and> p_capPer q = p_capPer p \<and> (fl = None \<longleftrightarrow> \<not> p_capPer p < 0)
         \<and> (\<forall>s. get_entry p s = None \<longrightarrow> get_entry q s = None)"
proof -
  let ?p2 = "bucket_locked ep (reclaim_locked ru now p)"
  have inv: "pool_inv p" using acc by (simp add: pool_acc_def)
  have 2: "pool_inv ?p2" "shrinks p ?p2" "rc ?p2 = rc p"
    using reclaim_ok [OF inv, of ru now] shrinks_trans [OF _ bucket_locked_shrinks]
    by (auto simp: quiet_def)
  from acc_shrinks [OF acc 2(1,2)] have a: "pool_acc D ?p2" .
  have f: "p_cfg ?p2 = p_cfg p" "p_capPer ?p2 = p_capPer p" "p_closed ?p2 = p_closed p"
    "\<forall>s. get_entry p s = None \<longrightarrow> get_entry ?p2 s = None"
    using 2(2) unfolding shrinks_def by blast+
  have opn: "\<not> p_closed p" and room: "\<not> at_cap ep ?p2"
    using b by (auto simp: acquire_begin_def Let_def split: if_splits option.splits)
  have cap: "int (length (b_entries (get_bucket ?p2 ep))) + D ep + 1 \<le> MaxSessionsPerEndpoint (p_cfg p)"
    if "0 < MaxSessionsPerEndpoint (p_cfg p)"
    using a room that opn unfolding at_cap_def pool_acc_def f by auto
  show ?thesis
  proof (cases "p_capPer p < 0")
    case True
    then have nf: "map_of (p_flights ?p2) ep = None" and q: "q = (add_pending 1 ep ?p2)
        \<lparr>p_flights := alist_put ep (p_nextFlight ?p2) (p_flights ?p2),
         p_nextFlight := Suc (p_nextFlight ?p2)\<rparr>" and fl: "fl = Some (p_nextFlight ?p2)"
      using b f(2) by (auto simp: acquire_begin_def Let_def split: if_splits option.splits)
    have "single_flight (D(ep := D ep + 1)) q"
      using a nf unfolding pool_acc_def q single_flight_def by auto
    moreover have "\<not> p_closed q \<longrightarrow> (\<forall>e. pendingDial (get_bucket q e) = (D(ep := D ep + 1)) e
                \<and> (0 < MaxSessionsPerEndpoint (p_cfg q) \<longrightarrow>
                     int (length (b_entries (get_bucket q e))) + (D(ep := D ep + 1)) e
                       \<le> MaxSessionsPerEndpoint (p_cfg q)))"
      using a cap f(1,3) opn unfolding pool_acc_def q by (auto simp: algebra_simps)
    moreover have "pool_inv q" using 2(1) unfolding q by simp
    ultimately show ?thesis using f 2 True unfolding pool_acc_def by (auto simp: q fl)
  next
    case False
    then have q: "q = add_pending 1 ep ?p2" and fl: "fl = None"
      using b f(2) by (auto simp: acquire_begin_def Let_def split: if_splits option.splits)
    have "single_flight (D(ep := D ep + 1)) q"
      using False f(2) unfolding q single_flight_def by simp
    moreover have "\<not> p_closed q \<longrightarrow> (\<forall>e. pendingDial (get_bucket q e) = (D(ep := D ep + 1)) e
                \<and> (0 < MaxSessionsPerEndpoint (p_cfg q) \<longrightarrow>
                     int (length (b_entries (get_bucket q e))) + (D(ep := D ep + 1)) e
                       \<le> MaxSessionsPerEndpoint (p_cfg q)))"
      using a cap f(1,3) opn unfolding pool_acc_def q by (auto simp: algebra_simps)
    moreover have "pool_inv q" using 2(1) unfolding q by simp
    ultimately show ?thesis using f 2 False unfolding pool_acc_def by (auto simp: q fl)
  qed
qed

lemma waited_ok:
  assumes "pool_inv p" "acquire_waited ru now skip ep fl p = (out, q)"
  shows "pool_inv q \<and> shrinks p q
         \<and> rc q = (case out of AcqSess s \<Rightarrow> (rc p)(s := rc p s + 1) | _ \<Rightarrow> rc p)
         \<and> (\<forall>f. out \<noteq> AcqDial f)"
  using assms try_lend_ok [OF assms(1)] bucket_locked_shrinks [of p ep]
  by (auto simp: acquire_waited_def Let_def split: option.splits if_splits)

lemma retire_simps [simp]:
  "get_bucket (retire_flight ep fl err p) ep' = get_bucket (add_pending (-1) ep p) ep'"
  "get_entry (retire_flight ep fl err p) s = get_entry p s"
  "p_cfg (retire_flight ep fl err p) = p_cfg p" "p_capPer (retire_flight ep fl err p) = p_capPer p"
  "p_closed (retire_flight ep fl err p) = p_closed p" "rc (retire_flight ep fl err p) = rc p"
  "p_flights (retire_flight ep fl err p)
     = (case fl of None \<Rightarrow> p_flights p | Some _ \<Rightarrow> alist_del ep (p_flights p))"
  "pool_inv_but X (retire_flight ep fl err p) = pool_inv_but X p"
  by (simp_all add: retire_flight_def Let_def split: option.splits)

lemma retire_acc:
  assumes "pool_acc D p" "fl = None \<longleftrightarrow> \<not> p_capPer p < 0" "1 \<le> D ep"
  shows "pool_acc (D(ep := D ep - 1)) (retire_flight ep fl err p)"
proof -
  have one: "D ep = 1" if "p_capPer p < 0"
    using assms that unfolding pool_acc_def single_flight_def by (metis not_one_le_zero)
  have cap: "int (length (b_entries (get_bucket p ep))) + (D ep - 1)
      \<le> MaxSessionsPerEndpoint (p_cfg p)"
    if "\<not> p_closed p" "0 < MaxSessionsPerEndpoint (p_cfg p)"
  proof -
    have "int (length (b_entries (get_bucket p ep))) + D ep \<le> MaxSessionsPerEndpoint (p_cfg p)"
      using assms(1) that unfolding pool_acc_def by blast
    then show ?thesis by simp
  qed
  let ?q = "retire_flight ep fl err p"
  have "single_flight (D(ep := D ep - 1)) ?q"
    using assms one unfolding pool_acc_def single_flight_def by (auto split: option.splits)
  moreover have "\<not> p_closed ?q \<longrightarrow> (\<forall>e. pendingDial (get_bucket ?q e) = (D(ep := D ep - 1)) e
                \<and> (0 < MaxSessionsPerEndpoint (p_cfg ?q) \<longrightarrow>
                     int (length (b_entries (get_bucket ?q e))) + (D(ep := D ep - 1)) e
                       \<le> MaxSessionsPerEndpoint (p_cfg ?q)))"
    using assms(1) cap unfolding pool_acc_def by auto
  ultimately show ?thesis using assms(1) unfolding pool_acc_def by simp
qed


lemma added_inv:
  assumes inv: "pool_inv p" and new: "get_entry p s = None"
  shows "pool_inv (put_entry s
           \<lparr>e_endpoint = ep, refcount = 1, createdAt = now, idleSince = 0, inIdle = False\<rparr>
           (put_bucket ep ((get_bucket p ep)\<lparr>b_entries := b_entries (get_bucket p ep) @ [s]\<rparr>) p))"
proof -
  have "s \<notin> set (b_entries (get_bucket p e))" "s \<notin> set (b_idle (get_bucket p e))" for e
    using inv new unfolding pool_inv_but_def by auto
  then show ?thesis using inv new unfolding pool_inv_but_def by auto
qed

lemma dialed_ok:
  assumes acc: "pool_acc D p" and fl: "fl = None \<longleftrightarrow> \<not> p_capPer p < 0" and d: "1 \<le> D ep"
    and new: "get_entry p s = None" and r: "acquire_dialed ep fl s now p = (r, q)"
  shows "pool_acc (D(ep := D ep - 1)) q \<and> p_closed q = p_closed p \<and> p_capPer q = p_capPer p
         \<and> p_cfg q = p_cfg p \<and> (\<forall>t. t \<noteq> s \<longrightarrow> get_entry p t = None \<longrightarrow> get_entry q t = None)
         \<and> (p_closed p \<or> r = Inr s \<and> rc q = (rc p)(s := 1))"
proof (cases "p_closed p")
  case True
  then have q: "q = (retire_flight ep fl (Some err_pool_closed) p)\<lparr>p_log := s # p_log p\<rparr>"
    using r by (simp add: acquire_dialed_def)
  have "pool_acc (D(ep := D ep - 1)) q"
    using retire_acc [OF acc fl d, of "Some err_pool_closed"]
    unfolding q pool_acc_def single_flight_def by simp
  with True show ?thesis by (simp add: q)
next
  case False
  let ?a = "put_entry s \<lparr>e_endpoint = ep, refcount = 1, createdAt = now, idleSince = 0, inIdle = False\<rparr>
      (put_bucket ep ((get_bucket p ep)\<lparr>b_entries := b_entries (get_bucket p ep) @ [s]\<rparr>) p)"
  have inv: "pool_inv p" using acc by (simp add: pool_acc_def)
  have q: "q = retire_flight ep fl None
      (put_entry s \<lparr>e_endpoint = ep, refcount = 1, createdAt = now, idleSince = 0, inIdle = False\<rparr>
         (add_entry_locked ep s now p))" and rr: "r = Inr s"
    using r False by (auto simp: acquire_dialed_def add_entry_locked_def Let_def)
  have b: "get_bucket q e = get_bucket (retire_flight ep fl None ?a) e"
    "get_entry q t = get_entry (retire_flight ep fl None ?a) t" for e t
    by (simp_all add: q add_entry_locked_def Let_def)
  have f: "p_cfg q = p_cfg p" "p_capPer q = p_capPer p" "p_closed q = p_closed p"
    "p_flights q = p_flights (retire_flight ep fl None p)"
    by (simp_all add: q add_entry_locked_def Let_def split: option.split)
  have "distinct (map fst (p_bySess p))" using inv by (simp add: pool_inv_but_def)
  then have ds: "distinct (map fst (p_bySess q))"
    by (simp add: q add_entry_locked_def Let_def retire_flight_def split: option.splits)
  have "pool_inv (retire_flight ep fl None ?a)" using added_inv [OF inv new] by simp
  then have "pool_inv q" using ds unfolding pool_inv_but_def b f by simp
  moreover have "single_flight (D(ep := D ep - 1)) q"
    using retire_acc [OF acc fl d, of None] f unfolding pool_acc_def single_flight_def by simp
  moreover have "\<forall>e. pendingDial (get_bucket q e) = (D(ep := D ep - 1)) e
                \<and> (0 < MaxSessionsPerEndpoint (p_cfg q) \<longrightarrow>
                     int (length (b_entries (get_bucket q e))) + (D(ep := D ep - 1)) e
                       \<le> MaxSessionsPerEndpoint (p_cfg q))"
    using acc False unfolding pool_acc_def f by (auto simp: b algebra_simps)
  moreover have "rc q = (rc p)(s := 1)" using b(2) by (auto simp: rc_def fun_eq_iff)
  ultimately show ?thesis using f rr False unfolding pool_acc_def by (auto simp: b(2))
qed

section \<open>The invariant of the world\<close>

definition pw_inv :: "pool_world \<Rightarrow> bool" where
  "pw_inv w \<longleftrightarrow>
     pool_acc (dials (pw_threads w)) (pw_pool w)
     \<and> distinct (map fst (pw_threads w))
     \<and> (\<forall>s \<ge> pw_next w. get_entry (pw_pool w) s = None)
     \<and> (\<forall>t ep skip fl. map_of (pw_threads w) t = Some (Dialing ep skip fl) \<longrightarrow>
          (fl = None \<longleftrightarrow> \<not> p_capPer (pw_pool w) < 0))
     \<and> (\<not> p_closed (pw_pool w) \<longrightarrow>
          (\<forall>s. rc (pw_pool w) s = int (count_list (pw_held w) s)))"

lemma acc_fun_eq: "pool_acc D p \<Longrightarrow> (\<And>ep. D ep = E ep) \<Longrightarrow> pool_acc E p"
  by (metis ext)

lemma outcome_rest:
  assumes inv: "pw_inv w" and nd: "\<And>ep. dial1 (map_of (pw_threads w) t) ep = 0"
    and q: "pool_inv q" "shrinks (pw_pool w) q"
    and rcq: "rc q = (case out of AcqSess s \<Rightarrow> (rc (pw_pool w))(s := rc (pw_pool w) s + 1)
                      | _ \<Rightarrow> rc (pw_pool w))"
    and out: "\<And>fl. out \<noteq> AcqDial fl"
  shows "pw_inv (acq_outcome t ep skip (out, q) w)"
proof -
  have dt: "distinct (map fst (pw_threads w))" and acc: "pool_acc (dials (pw_threads w)) (pw_pool w)"
    using inv by (simp_all add: pw_inv_def)
  have a: "pool_acc (dials (pw_threads w)) q" using acc_shrinks [OF acc q] .
  have sh: "p_closed q = p_closed (pw_pool w)" "p_capPer q = p_capPer (pw_pool w)"
    "\<forall>s. get_entry (pw_pool w) s = None \<longrightarrow> get_entry q s = None"
    using q(2) by (simp_all add: shrinks_def)
  have ad: "pool_acc (dials (alist_del t (pw_threads w))) q"
    by (rule acc_fun_eq [OF a]) (simp add: dials_del [OF dt] nd)
  have ap: "pool_acc (dials (alist_put t ph (pw_threads w))) q" if "\<And>e. \<not> dial_at e ph" for ph
    by (rule acc_fun_eq [OF a]) (simp add: dials_put [OF dt] nd that)
  show ?thesis
    using inv sh rcq out ad ap dt
    by (cases out) (auto simp: pw_inv_def acq_outcome_def acq_finish_def acq_phase_to_def)
qed

lemma outcome_dial:
  assumes inv: "pw_inv w" and nd: "\<And>ep. dial1 (map_of (pw_threads w) t) ep = 0"
    and b: "acquire_begin ru now skip ep (pw_pool w) = (AcqDial fl, q)"
  shows "pw_inv (acq_outcome t ep skip (AcqDial fl, q) w)"
proof -
  have dt: "distinct (map fst (pw_threads w))" and acc: "pool_acc (dials (pw_threads w)) (pw_pool w)"
    using inv by (simp_all add: pw_inv_def)
  from begin_dial [OF acc b] have a: "pool_acc ((dials (pw_threads w))(ep := dials (pw_threads w) ep + 1)) q"
    and f: "rc q = rc (pw_pool w)" "p_closed q = p_closed (pw_pool w)"
      "p_capPer q = p_capPer (pw_pool w)" "fl = None \<longleftrightarrow> \<not> p_capPer (pw_pool w) < 0"
      "\<forall>s. get_entry (pw_pool w) s = None \<longrightarrow> get_entry q s = None"
    by blast+
  have "pool_acc (dials (alist_put t (Dialing ep skip fl) (pw_threads w))) q"
    by (rule acc_fun_eq [OF a]) (simp add: dials_put [OF dt] nd)
  then show ?thesis using inv f dt
    by (auto simp: pw_inv_def acq_outcome_def acq_phase_to_def)
qed

lemma begin_step:
  assumes inv: "pw_inv w" and nd: "\<And>ep. dial1 (map_of (pw_threads w) t) ep = 0"
  shows "pw_inv (acq_outcome t ep skip (acquire_begin ru now skip ep (pw_pool w)) w)"
proof -
  obtain out q where b: "acquire_begin ru now skip ep (pw_pool w) = (out, q)" by fastforce
  have pinv: "pool_inv (pw_pool w)" using inv by (simp add: pw_inv_def pool_acc_def)
  show ?thesis
  proof (cases "\<exists>fl. out = AcqDial fl")
    case True
    then show ?thesis using outcome_dial [OF inv nd] b by auto
  next
    case False
    then have n: "\<And>fl. out \<noteq> AcqDial fl" by blast
    from begin_not_dial [OF pinv b n] show ?thesis
      unfolding b using outcome_rest [OF inv nd _ _ _ n] by blast
  qed
qed


lemma count_held_remove:
  "int (count_list (remove1 s xs) t) =
     (if t = s then max 0 (int (count_list xs t) - 1) else int (count_list xs t))"
  by (induction xs) auto

lemma pw_step_inv: "pw_inv w \<Longrightarrow> pw_inv (pw_step e w)"
proof -
  assume inv: "pw_inv w"
  then have pinv: "pool_inv (pw_pool w)" and dt: "distinct (map fst (pw_threads w))"
    and acc: "pool_acc (dials (pw_threads w)) (pw_pool w)"
    and fr: "\<forall>s \<ge> pw_next w. get_entry (pw_pool w) s = None"
    and held: "\<not> p_closed (pw_pool w) \<longrightarrow>
          (\<forall>s. rc (pw_pool w) s = int (count_list (pw_held w) s))"
    and fls: "\<And>t ep skip fl. map_of (pw_threads w) t = Some (Dialing ep skip fl) \<Longrightarrow>
          (fl = None \<longleftrightarrow> \<not> p_capPer (pw_pool w) < 0)"
    by (simp_all add: pw_inv_def pool_acc_def)
  have del: "pool_acc (dials (alist_del t (pw_threads w))) q"
    if "map_of (pw_threads w) t = Some (Dialing ep skip fl)"
      "pool_acc ((dials (pw_threads w))(ep := dials (pw_threads w) ep - 1)) q" for t ep skip fl q
    by (rule acc_fun_eq [OF that(2)]) (auto simp: dials_del [OF dt] that(1) dial1_def)
  show ?thesis
  proof (cases e)
    case (PvAcquire t ep skip ru now)
    show ?thesis
    proof (cases "map_of (pw_threads w) t")
      case None
      then show ?thesis using begin_step [OF inv, of t ep skip ru now] PvAcquire
        by (simp add: dial1_def)
    next
      case (Some ph)
      then show ?thesis using begin_step [OF inv, of t] PvAcquire inv
        by (cases ph) (auto simp: dial1_def)
    qed
  next
    case (PvDialed t now)
    show ?thesis
    proof (cases "\<exists>ep skip fl. map_of (pw_threads w) t = Some (Dialing ep skip fl)")
      case True
      then obtain ep skip fl where m: "map_of (pw_threads w) t = Some (Dialing ep skip fl)" by blast
      obtain r q where r: "acquire_dialed ep fl (pw_next w) now (pw_pool w) = (r, q)" by fastforce
      from dialed_ok [OF acc fls [OF m] dials_pos [OF m] _ r] fr
      have d: "pool_acc ((dials (pw_threads w))(ep := dials (pw_threads w) ep - 1)) q"
        "p_closed q = p_closed (pw_pool w)" "p_capPer q = p_capPer (pw_pool w)"
        "\<forall>s. s \<noteq> pw_next w \<longrightarrow> get_entry (pw_pool w) s = None \<longrightarrow> get_entry q s = None"
        "p_closed (pw_pool w) \<or> r = Inr (pw_next w) \<and> rc q = (rc (pw_pool w))(pw_next w := 1)"
        by auto
      have "rc (pw_pool w) (pw_next w) = 0" using fr by (simp add: rc_def)
      then have "\<not> p_closed (pw_pool w) \<longrightarrow> count_list (pw_held w) (pw_next w) = 0"
        using held by (metis of_nat_eq_0_iff)
      with d(4,5) fr held del [OF m d(1)] d(2,3) dt fls show ?thesis
        by (auto simp: PvDialed m r acq_finish_def pw_inv_def split: sum.splits)
    next
      case False
      then show ?thesis using inv PvDialed by (auto split: option.splits acq_phase.splits)
    qed
  next
    case (PvDialFailed t er)
    show ?thesis
    proof (cases "\<exists>ep skip fl. map_of (pw_threads w) t = Some (Dialing ep skip fl)")
      case True
      then obtain ep skip fl where m: "map_of (pw_threads w) t = Some (Dialing ep skip fl)" by blast
      from del [OF m retire_acc [OF acc fls [OF m] dials_pos [OF m]]] show ?thesis
        using fr held dt fls
        by (auto simp: PvDialFailed m acquire_failed_def Let_def acq_finish_def pw_inv_def)
    next
      case False
      then show ?thesis using inv PvDialFailed by (auto split: option.splits acq_phase.splits)
    qed
  next
    case (PvDialPanic t v)
    show ?thesis
    proof (cases "\<exists>ep skip fl. map_of (pw_threads w) t = Some (Dialing ep skip fl)")
      case True
      then obtain ep skip fl where m: "map_of (pw_threads w) t = Some (Dialing ep skip fl)" by blast
      from del [OF m retire_acc [OF acc fls [OF m] dials_pos [OF m]]] show ?thesis
        using fr held dt fls
        by (auto simp: PvDialPanic m acquire_panicked_def Let_def pw_inv_def)
    next
      case False
      then show ?thesis using inv PvDialPanic by (auto split: option.splits acq_phase.splits)
    qed
  next
    case (PvWaited t ru now)
    show ?thesis
    proof (cases "\<exists>ep skip fl. map_of (pw_threads w) t = Some (Waiting ep skip fl)")
      case True
      then obtain ep skip fl where m: "map_of (pw_threads w) t = Some (Waiting ep skip fl)" by blast
      obtain out q where r: "acquire_waited ru now skip ep fl (pw_pool w) = (out, q)" by fastforce
      from waited_ok [OF pinv r] have o: "pool_inv q" "shrinks (pw_pool w) q"
        "rc q = (case out of AcqSess s \<Rightarrow> (rc (pw_pool w))(s := rc (pw_pool w) s + 1)
                 | _ \<Rightarrow> rc (pw_pool w))" "\<And>f. out \<noteq> AcqDial f"
        by blast+
      have "pw_inv (acq_outcome t ep skip (out, q) w)"
        by (rule outcome_rest [OF inv _ o]) (simp add: m dial1_def)
      then show ?thesis using inv by (simp add: PvWaited m r)
    next
      case False
      then show ?thesis using inv PvWaited by (auto split: option.splits acq_phase.splits)
    qed
  next
    case (PvCtxDone t er)
    show ?thesis
    proof (cases "\<exists>ep skip fl. map_of (pw_threads w) t = Some (Waiting ep skip fl)")
      case True
      then obtain ep skip fl where m: "map_of (pw_threads w) t = Some (Waiting ep skip fl)" by blast
      have "pool_acc (dials (alist_del t (pw_threads w))) (pw_pool w)"
        by (rule acc_fun_eq [OF acc]) (simp add: dials_del [OF dt] m dial1_def)
      then show ?thesis using fr held dt fls
        by (auto simp: PvCtxDone m acq_finish_def pw_inv_def)
    next
      case False
      then show ?thesis using inv PvCtxDone by (auto split: option.splits acq_phase.splits)
    qed
  next
    case (PvRelease s ru now)
    let ?q = "pool_release ru now s (pw_pool w)"
    from release_ok [OF pinv, of ru now s] have q: "pool_inv ?q" "shrinks (pw_pool w) ?q"
      "rc ?q = (rc (pw_pool w))(s := max 0 (rc (pw_pool w) s - 1))" by blast+
    have sh: "p_closed ?q = p_closed (pw_pool w)" "p_capPer ?q = p_capPer (pw_pool w)"
      "\<forall>s. get_entry (pw_pool w) s = None \<longrightarrow> get_entry ?q s = None"
      using q(2) by (simp_all add: shrinks_def)
    have "int (count_list (remove1 s (pw_held w)) t)
        = (if t = s then max 0 (int (count_list (pw_held w) t) - 1) else int (count_list (pw_held w) t))" for t
      by (rule count_held_remove)
    then show ?thesis using acc_shrinks [OF acc q(1,2)] sh q(3) fr held dt fls
      by (auto simp: PvRelease pw_inv_def)
  next
    case (PvReclaim ru now)
    let ?q = "reclaim_tick ru now (pw_pool w)"
    from reclaim_ok [OF pinv, of ru now] pinv have q: "pool_inv ?q" "shrinks (pw_pool w) ?q"
      "rc ?q = rc (pw_pool w)" by (auto simp: quiet_def reclaim_tick_def)
    have sh: "p_closed ?q = p_closed (pw_pool w)" "p_capPer ?q = p_capPer (pw_pool w)"
      "\<forall>s. get_entry (pw_pool w) s = None \<longrightarrow> get_entry ?q s = None"
      using q(2) by (simp_all add: shrinks_def)
    then show ?thesis using acc_shrinks [OF acc q(1,2)] q(3) fr held dt fls inv
      by (auto simp: PvReclaim pw_inv_def)
  next
    case PvClose
    have "pool_acc (dials (pw_threads w)) (pool_close (pw_pool w))"
      using acc close_ok [OF pinv] unfolding pool_acc_def single_flight_def
      by (auto simp: pool_close_def)
    then show ?thesis using fr held dt fls
      by (auto simp: PvClose pw_inv_def pool_close_def get_entry_def)
  qed
qed

interpretation pool_machine: invariant_machine pw_step pw_inv
  by unfold_locales (rule pw_step_inv)

end
