(* ===== verification/Pool_Props.thy ===== *)
theory Pool_Props
  imports Pool_World
begin

text \<open>
  What the pool promises its callers: the bounds and the exclusivity that hold in every
  reachable state, the four ways \<open>Release\<close> can go, and the retry loop of \<open>OpenCall\<close>.
\<close>

lemma start_inv: "pw_inv (pool_start cfg)"
proof -
  have "pool_acc (dials []) (new_pool cfg)"
    using new_pool_inv [of cfg] unfolding pool_acc_def single_flight_def
    by (auto simp: dials_def new_pool_def get_bucket_def empty_bucket_def)
  then show ?thesis
    by (simp add: pw_inv_def pool_start_def get_entry_def new_pool_def rc_def)
qed

lemma reachable_inv: "pw_inv (run_steps pw_step es (pool_start cfg))"
  by (rule pool_machine.run_inv [OF start_inv])

lemma reclaim_fixed:
  "pool_inv p \<Longrightarrow> p_cfg (reclaim_locked ru now p) = p_cfg p
     \<and> p_capPer (reclaim_locked ru now p) = p_capPer p"
  using reclaim_ok [of p ru now] by (simp add: quiet_def shrinks_def)

definition same_limits :: "pool \<Rightarrow> pool \<Rightarrow> bool" where
  "same_limits p q \<longleftrightarrow> p_cfg q = p_cfg p \<and> p_capPer q = p_capPer p"

lemma shrinks_limits: "shrinks p q \<Longrightarrow> same_limits p q"
  by (simp add: shrinks_def same_limits_def)

lemma begin_limits:
  assumes "pw_inv w" "acquire_begin ru now skip ep (pw_pool w) = (out, q)"
  shows "same_limits (pw_pool w) q"
proof -
  have acc: "pool_acc (dials (pw_threads w)) (pw_pool w)" and inv: "pool_inv (pw_pool w)"
    using assms(1) by (simp_all add: pw_inv_def pool_acc_def)
  show ?thesis
  proof (cases "\<exists>fl. out = AcqDial fl")
    case True
    then show ?thesis using begin_dial [OF acc] assms(2) by (auto simp: same_limits_def)
  next
    case False
    then show ?thesis using begin_not_dial [OF inv assms(2)] shrinks_limits by blast
  qed
qed

lemma outcome_pool [simp]: "pw_pool (acq_outcome t ep skip (out, q) w) = q"
  by (cases out) (simp_all add: acq_outcome_def acq_finish_def acq_phase_to_def)

lemma step_limits: "pw_inv w \<Longrightarrow> same_limits (pw_pool w) (pw_pool (pw_step e w))"
proof -
  assume inv: "pw_inv w"
  then have pinv: "pool_inv (pw_pool w)" by (simp add: pw_inv_def pool_acc_def)
  have r: "same_limits (pw_pool w) (pw_pool w)" by (simp add: same_limits_def)
  have b: "same_limits (pw_pool w) (pw_pool (acq_outcome t ep skip (acquire_begin ru now skip ep
      (pw_pool w)) w))" for t ep skip ru now
    using begin_limits [OF inv, of ru now skip ep] by (cases "acquire_begin ru now skip ep (pw_pool w)") simp
  have wt: "same_limits (pw_pool w) (pw_pool (acq_outcome t ep skip (acquire_waited ru now skip ep fl
      (pw_pool w)) w))" for t ep skip ru now fl
    using waited_ok [OF pinv, of ru now skip ep fl] shrinks_limits
    by (cases "acquire_waited ru now skip ep fl (pw_pool w)") simp
  show ?thesis
  proof (cases e)
    case (PvAcquire t ep skip ru now)
    then show ?thesis using b r by (auto split: option.splits acq_phase.splits)
  next
    case (PvWaited t ru now)
    then show ?thesis using wt r by (auto split: option.splits acq_phase.splits)
  next
    case (PvRelease s ru now)
    then show ?thesis using release_ok [OF pinv, of ru now s] shrinks_limits by simp
  next
    case (PvReclaim ru now)
    then show ?thesis using reclaim_fixed [OF pinv] by (simp add: same_limits_def reclaim_tick_def)
  qed (auto simp: same_limits_def acquire_dialed_def acquire_failed_def acquire_panicked_def
        acq_finish_def Let_def add_entry_locked_def pool_close_def
        split: option.splits acq_phase.splits prod.splits)
qed

lemma run_limits: "pw_inv w \<Longrightarrow> same_limits (pw_pool w) (pw_pool (run_steps pw_step es w))"
proof (induction es arbitrary: w)
  case (Cons e es)
  from Cons.IH [OF pw_step_inv [OF Cons.prems, of e]] step_limits [OF Cons.prems, of e]
  show ?case by (simp add: same_limits_def)
qed (simp add: same_limits_def)

lemma reachable_limits:
  "p_cfg (pw_pool (run_steps pw_step es (pool_start cfg))) = cfg
   \<and> (MaxCallsPerConn cfg < 0 \<longrightarrow>
        p_capPer (pw_pool (run_steps pw_step es (pool_start cfg))) < 0)"
proof -
  have "p_cfg (pw_pool (pool_start cfg)) = cfg"
    and "MaxCallsPerConn cfg < 0 \<longrightarrow> p_capPer (pw_pool (pool_start cfg)) < 0"
    by (simp_all add: pool_start_def new_pool_def)
  with run_limits [OF start_inv, of cfg es] show ?thesis by (simp add: same_limits_def)
qed

text \<open>
  C3: however goroutines interleave, an open pool never exceeds its limits: at each endpoint the
  sessions it holds plus the dials in flight stay within \<open>MaxSessionsPerEndpoint\<close>, the idle
  queue stays within \<open>MaxIdleSessions\<close>, and a multiplexed pool never has two dials in flight to
  one endpoint.
\<close>

theorem pool_within_limits:
  fixes cfg :: pool_options and es :: "pool_event list"
  shows "(p_closed (pw_pool (run_steps pw_step es (pool_start cfg)))
          \<or> MaxSessionsPerEndpoint cfg \<le> 0
          \<or> int (length (b_entries (get_bucket (pw_pool (run_steps pw_step es (pool_start cfg))) ep)))
              + dials (pw_threads (run_steps pw_step es (pool_start cfg))) ep
                \<le> MaxSessionsPerEndpoint cfg)
     \<and> (MaxIdleSessions cfg < 0
          \<or> int (length (b_idle (get_bucket (pw_pool (run_steps pw_step es (pool_start cfg))) ep)))
              \<le> MaxIdleSessions cfg)
     \<and> (0 \<le> MaxCallsPerConn cfg
          \<or> dials (pw_threads (run_steps pw_step es (pool_start cfg))) ep \<le> 1)"
proof -
  let ?w = "run_steps pw_step es (pool_start cfg)"
  have acc: "pool_acc (dials (pw_threads ?w)) (pw_pool ?w)"
    using reachable_inv [of es cfg] by (simp add: pw_inv_def)
  have cfg: "p_cfg (pw_pool ?w) = cfg" and cap: "MaxCallsPerConn cfg < 0 \<longrightarrow> p_capPer (pw_pool ?w) < 0"
    using reachable_limits by blast+
  have "MaxCallsPerConn cfg < 0 \<longrightarrow> dials (pw_threads ?w) ep \<le> 1"
    using acc cap unfolding pool_acc_def single_flight_def by simp
  moreover have "\<not> p_closed (pw_pool ?w) \<longrightarrow> 0 < MaxSessionsPerEndpoint cfg \<longrightarrow>
      int (length (b_entries (get_bucket (pw_pool ?w) ep))) + dials (pw_threads ?w) ep
        \<le> MaxSessionsPerEndpoint cfg"
    using acc unfolding pool_acc_def cfg by blast
  moreover have "0 \<le> MaxIdleSessions cfg \<longrightarrow>
      int (length (b_idle (get_bucket (pw_pool ?w) ep))) \<le> MaxIdleSessions cfg"
    using acc unfolding pool_acc_def pool_inv_but_def cfg by blast
  ultimately show ?thesis by (meson not_le)
qed

text \<open>
  C14: a session in a caller's hands stays the caller's: as long as the pool is open, every session
  an \<open>Acquire\<close> returned and nobody released yet is still tracked, with exactly as many calls
  counted on it as there are holders, never idle, and never with more holders than the protocol's
  calls per connection; in particular a sequential connection has one holder at most.
\<close>

theorem held_sessions_tracked:
  assumes "w = run_steps pw_step es (pool_start cfg)" and "\<not> p_closed (pw_pool w)"
    and "s \<in> set (pw_held w)"
  shows "\<exists>e. get_entry (pw_pool w) s = Some e \<and> refcount e = int (count_list (pw_held w) s)
             \<and> \<not> inIdle e \<and> (p_capPer (pw_pool w) \<le> 0 \<or> refcount e \<le> p_capPer (pw_pool w))"
proof -
  have inv: "pw_inv w" using assms(1) reachable_inv by simp
  then have pinv: "pool_inv (pw_pool w)" by (simp add: pw_inv_def pool_acc_def)
  have "rc (pw_pool w) s = int (count_list (pw_held w) s)"
    using inv assms(2) by (simp add: pw_inv_def)
  moreover have "count_list (pw_held w) s \<noteq> 0" using assms(3) by (simp add: count_list_0_iff)
  ultimately obtain e where e: "get_entry (pw_pool w) s = Some e"
    and r: "refcount e = int (count_list (pw_held w) s)" and "refcount e \<noteq> 0"
    by (auto simp: rc_def split: option.splits)
  moreover have "\<not> inIdle e" using pool_inv_entry(3) [OF pinv e] \<open>refcount e \<noteq> 0\<close> by simp
  moreover have "p_capPer (pw_pool w) \<le> 0 \<or> refcount e \<le> p_capPer (pw_pool w)"
    using pool_inv_entry(5) [OF pinv e] by (meson not_le)
  ultimately show ?thesis by blast
qed

definition demo_cfg :: pool_options where
  "demo_cfg = default_pool_options\<lparr>MaxSessionsPerEndpoint := 1, MaxIdleSessions := 1\<rparr>"

definition demo_world :: pool_world where
  "demo_world = run_steps pw_step [PvAcquire 7 ''a'' [] (\<lambda>_. True) 0, PvDialed 7 1] (pool_start demo_cfg)"

lemma demo_world_held: "pw_held demo_world = [0] \<and> \<not> p_closed (pw_pool demo_world)"
  by code_simp

lemma held_sessions_tracked_witness:
  "\<exists>e. get_entry (pw_pool demo_world) 0 = Some e
       \<and> refcount e = int (count_list (pw_held demo_world) 0) \<and> \<not> inIdle e"
  using held_sessions_tracked [OF demo_world_def, of 0] demo_world_held by auto


section \<open>The four ways to return a session\<close>

text \<open>
  \<open>Release\<close> does what its contract says in every state: with other calls in flight it only
  counts down; the last release puts a reusable session at the end of the idle queue when there
  is room, and otherwise forgets it and closes it, exactly once; releasing an idle or unknown
  session changes nothing.
\<close>

lemma release_four_ways:
  assumes inv: "pool_inv p"
  shows "case get_entry p s of
      None \<Rightarrow> pool_release ru now s p = p
    | Some e \<Rightarrow>
        (if refcount e = 0 then pool_release ru now s p = p
         else if 1 < refcount e then
           get_entry (pool_release ru now s p) s = Some (e\<lparr>refcount := refcount e - 1\<rparr>)
           \<and> p_log (pool_release ru now s p) = p_log p
         else if ru s \<and> \<not> lifetime_expired p e now
              \<and> (MaxIdleSessions (p_cfg p) < 0
                 \<or> int (length (b_idle (get_bucket p (e_endpoint e)))) < MaxIdleSessions (p_cfg p))
         then
           get_entry (pool_release ru now s p) s
             = Some (e\<lparr>refcount := 0, inIdle := True, idleSince := now\<rparr>)
           \<and> b_idle (get_bucket (pool_release ru now s p) (e_endpoint e))
             = b_idle (get_bucket p (e_endpoint e)) @ [s]
           \<and> p_log (pool_release ru now s p) = p_log p
         else
           get_entry (pool_release ru now s p) s = None
           \<and> p_log (pool_release ru now s p) = s # p_log p)"
proof (cases "get_entry p s")
  case None
  then show ?thesis by (simp add: pool_release_def)
next
  case (Some e)
  have logs: "p_log (put_entry t x q) = p_log q" "p_log (put_bucket ep b q) = p_log q"
    "p_log (bucket_locked ep q) = p_log q" for t x q ep b
    by (simp_all add: put_entry_def put_bucket_def bucket_locked_def)
  have dlog: "p_log (discard_locked s q) = s # p_log q" if "get_entry q s \<noteq> None" for q
    using that by (auto simp: discard_locked_def Let_def remove_idle_locked_def logs split: option.splits)
  have "refcount e = 0 \<or> 1 < refcount e \<or> refcount e = 1"
    using pool_inv_entry(2) [OF inv Some] by linarith
  then show ?thesis using Some
    by (auto simp: pool_release_def return_locked_def Let_def logs dlog discard_entry
        lifetime_expired_def)
qed

lemma release_four_ways_witness:
  "get_entry (pool_release (\<lambda>_. True) 9 0 (pw_pool demo_world)) 0
     = Some \<lparr>e_endpoint = ''a'', refcount = 0, createdAt = 1, idleSince = 9, inIdle = True\<rparr>"
proof -
  have inv: "pool_inv (pw_pool demo_world)"
    using reachable_inv unfolding demo_world_def pw_inv_def pool_acc_def by blast
  have e: "get_entry (pw_pool demo_world) 0
      = Some \<lparr>e_endpoint = ''a'', refcount = 1, createdAt = 1, idleSince = 0, inIdle = False\<rparr>"
    by code_simp
  have c: "p_cfg (pw_pool demo_world) = demo_cfg" "b_idle (get_bucket (pw_pool demo_world) ''a'') = []"
    by code_simp+
  show ?thesis using release_four_ways [OF inv, where s = 0 and ru = "\<lambda>_. True" and now = 9]
    by (simp add: e c lifetime_expired_def demo_cfg_def default_pool_options_def)
qed

section \<open>OpenCall\<close>

definition err_conn_busy :: go_error where
  "err_conn_busy = ErrVar ''transport: connection busy''"

definition err_conn_spent :: go_error where
  "err_conn_spent = ErrVar ''transport: connection spent''"

text \<open>
  The loop over attempts. \<open>acq\<close> is \<open>acquire\<close> at the given attempt with the sessions to skip,
  \<open>opn\<close> the answer of the session's own \<open>OpenCall\<close>, \<open>ru\<close> and \<open>now\<close> what a release sees at
  that attempt: they are arbitrary, so other goroutines may do anything in between. With no limit
  the loop need not end, so its value is an option.
\<close>

type_synonym acquire_fn = "nat \<Rightarrow> nat list \<Rightarrow> pool \<Rightarrow> (go_error + nat) \<times> pool"

partial_function (option) open_call_loop ::
    "acquire_fn \<Rightarrow> (nat \<Rightarrow> nat \<Rightarrow> go_error + 'c) \<Rightarrow> (nat \<Rightarrow> nat \<Rightarrow> bool) \<Rightarrow> (nat \<Rightarrow> int) \<Rightarrow> int
     \<Rightarrow> nat \<Rightarrow> nat list \<Rightarrow> pool \<Rightarrow> ((go_error + 'c \<times> nat) \<times> pool) option" where
  [code]: "open_call_loop acq opn ru now mx attempt skip p =
     (if 0 < mx \<and> mx \<le> int attempt then Some (Inl err_sessions_exhausted, p)
      else
        (case acq attempt skip p of
           (Inl e, p1) \<Rightarrow> Some (Inl e, p1)
         | (Inr s, p1) \<Rightarrow>
             (case opn attempt s of
                Inr c \<Rightarrow> Some (Inr (c, s), p1)
              | Inl e \<Rightarrow>
                  if errors_is e err_conn_busy then
                    open_call_loop acq opn ru now mx (Suc attempt) (s # skip)
                      (pool_release (ru attempt) (now attempt) s p1)
                  else if errors_is e err_conn_spent then
                    open_call_loop acq opn ru now mx (Suc attempt) skip
                      (pool_release (ru attempt) (now attempt) s (p1\<lparr>p_log := s # p_log p1\<rparr>))
                  else Some (Inl e, pool_release (ru attempt) (now attempt) s p1))))"

definition pool_open_call ::
    "acquire_fn \<Rightarrow> (nat \<Rightarrow> nat \<Rightarrow> go_error + 'c) \<Rightarrow> (nat \<Rightarrow> nat \<Rightarrow> bool) \<Rightarrow> (nat \<Rightarrow> int) \<Rightarrow> pool
     \<Rightarrow> ((go_error + 'c \<times> nat) \<times> pool) option" where
  "pool_open_call acq opn ru now p =
     open_call_loop acq opn ru now (MaxSessionsPerEndpoint (p_cfg p)) 0 [] p"

definition conn_sentinel :: "go_error \<Rightarrow> bool" where
  "conn_sentinel e \<longleftrightarrow> errors_is e err_conn_busy \<or> errors_is e err_conn_spent"

lemma exhausted_no_sentinel: "\<not> conn_sentinel err_sessions_exhausted"
  by (simp add: conn_sentinel_def err_sessions_exhausted_def err_conn_busy_def err_conn_spent_def
      errors_is_def err_matches_def)

lemma open_call_loop_returns:
  assumes "0 < mx" and "\<And>n sk q e. fst (acq n sk q) = Inl e \<Longrightarrow> \<not> conn_sentinel e"
  shows "\<exists>r q. open_call_loop acq opn ru now mx n skip p = Some (r, q)
           \<and> (\<forall>e. r = Inl e \<longrightarrow> \<not> conn_sentinel e)"
proof (induction "nat (mx - int n)" arbitrary: n skip p rule: less_induct)
  case less
  show ?case
  proof (cases "mx \<le> int n")
    case True
    then show ?thesis using assms(1) exhausted_no_sentinel
      by (subst open_call_loop.simps) simp
  next
    case False
    then have dec: "nat (mx - int (Suc n)) < nat (mx - int n)" by simp
    obtain r p1 where a: "acq n skip p = (r, p1)" by fastforce
    note IH = less [OF dec]
    show ?thesis
    proof (cases r)
      case (Inl e)
      then show ?thesis using False a assms(2) [of n skip p e]
        by (subst open_call_loop.simps) simp
    next
      case (Inr s)
      then show ?thesis using False a IH
        by (subst open_call_loop.simps) (auto simp: conn_sentinel_def split: sum.split)
    qed
  qed
qed


text \<open>\<open>acquire\<close> when no other goroutine is at work: the dial's answer is an argument.\<close>

definition acquire_alone ::
    "(nat \<Rightarrow> bool) \<Rightarrow> int \<Rightarrow> (nat \<Rightarrow> go_error + nat) \<Rightarrow> string \<Rightarrow> acquire_fn" where
  "acquire_alone ru now dial ep n skip p =
     (case acquire_begin ru now skip ep p of
        (AcqErr e, q) \<Rightarrow> (Inl e, q)
      | (AcqSess s, q) \<Rightarrow> (Inr s, q)
      | (AcqDial fl, q) \<Rightarrow>
          (case dial n of
             Inl e \<Rightarrow> (case acquire_failed ep fl e q of (e', q') \<Rightarrow> (Inl e', q'))
           | Inr s \<Rightarrow> acquire_dialed ep fl s now q)
      | (_, q) \<Rightarrow> (Inl ctx_Canceled, q))"

lemma begin_error:
  "acquire_begin ru now skip ep p = (AcqErr e, q) \<Longrightarrow>
     e = err_pool_closed \<or> e = err_sessions_exhausted"
  by (auto simp: acquire_begin_def Let_def split: if_splits option.splits)

lemma acquire_alone_no_sentinel:
  assumes "\<And>n e. dial n = Inl e \<Longrightarrow> \<not> conn_sentinel e" "fst (acquire_alone ru now dial ep n sk q) = Inl e"
  shows "\<not> conn_sentinel e"
proof -
  have c: "\<not> conn_sentinel err_pool_closed" "\<not> conn_sentinel ctx_Canceled"
    by (simp_all add: conn_sentinel_def err_pool_closed_def err_conn_busy_def err_conn_spent_def
        errors_is_def err_matches_def)
  obtain out q' where b: "acquire_begin ru now sk ep q = (out, q')" by fastforce
  show ?thesis
    using assms c exhausted_no_sentinel begin_error [of ru now sk ep q e q'] b
    by (cases out) (auto simp: acquire_alone_def acquire_failed_def acquire_dialed_def Let_def
        split: sum.splits if_splits)
qed


end
