(* ===== verification/Streams.thy ===== *)
theory Streams
  imports Status
begin

text \<open>
  Send errors (src/transport/send_error.go) and the decoded stream over a call and a codec
  (src/stream/stream.go). A call is a record of its operations over a state of its own; a nil call
  or codec is None.
\<close>

section \<open>Send errors\<close>

definition new_send_error :: "go_error option \<Rightarrow> bool \<Rightarrow> go_error" where
  "new_send_error err receiveOpen =
     (case err of
        None \<Rightarrow> ErrSend (ErrNew ''transport: send failed'') receiveOpen
      | Some e \<Rightarrow> ErrSend e receiveOpen)"

definition wrap_send_error :: "go_error option \<Rightarrow> bool \<Rightarrow> go_error option" where
  "wrap_send_error err receiveOpen =
     (case err of
        None \<Rightarrow> None
      | Some e \<Rightarrow>
          (case errors_as_send e of
             Some _ \<Rightarrow> Some e
           | None \<Rightarrow> Some (ErrSend e receiveOpen)))"

definition as_send_error :: "go_error option \<Rightarrow> (go_error \<times> bool) option" where
  "as_send_error err = (case err of None \<Rightarrow> None | Some e \<Rightarrow> errors_as_send e)"

definition map_send_err :: "go_error option \<Rightarrow> go_error option" where
  "map_send_err err =
     (case err of
        None \<Rightarrow> None
      | Some e \<Rightarrow>
          (case errors_as_send e of
             Some (_, True) \<Rightarrow> Some ErrSendClosed
           | _ \<Rightarrow> Some e))"

text \<open>
  The first classification of a send failure is the one the application acts on: wrapping an
  error again, at any layer and with any direction flag, does not change whether the stream
  reports a closed send direction; a fresh failure reports it exactly when the receive direction
  was declared open; and the report is recognisable as end of stream.
\<close>

lemma send_error_classified_once:
  "wrap_send_error (wrap_send_error err a) b = wrap_send_error err a
   \<and> map_send_err (wrap_send_error (wrap_send_error err a) b) = map_send_err (wrap_send_error err a)
   \<and> map_send_err (Some (new_send_error err a))
       = (if a then Some ErrSendClosed else Some (new_send_error err a))
   \<and> errors_is ErrSendClosed err_EOF"
proof -
  have "errors_is ErrSendClosed err_EOF" by (simp add: errors_is_def err_matches_def)
  then show ?thesis
    by (auto simp: wrap_send_error_def map_send_err_def new_send_error_def split: option.splits)
qed

section \<open>The wrapped stream\<close>

record 'st call_ops =
  c_recv :: "'st \<Rightarrow> (go_error + bytes) \<times> 'st"
  c_release :: "'st \<Rightarrow> 'st"
  c_send :: "bytes \<Rightarrow> 'st \<Rightarrow> go_error option \<times> 'st"
  c_half_close :: "'st \<Rightarrow> go_error option \<times> 'st"
  c_close :: "'st \<Rightarrow> go_error option \<times> 'st"

record 'v codec_ops =
  k_marshal :: "'v \<Rightarrow> go_error + bytes"
  k_unmarshal :: "bytes \<Rightarrow> go_error + 'v"

record ('st, 'v) wrapped_stream =
  ws_call :: "'st call_ops option"
  ws_codec :: "'v codec_ops option"

definition stream_wrap ::
    "'st call_ops option \<Rightarrow> 'v codec_ops option \<Rightarrow> ('st, 'v) wrapped_stream" where
  "stream_wrap c k = \<lparr>ws_call = c, ws_codec = k\<rparr>"

definition err_nil_call :: go_error where "err_nil_call = ErrNew ''stream: nil call''"
definition err_nil_codec :: go_error where "err_nil_codec = ErrNew ''stream: nil codec''"

definition stream_recv :: "('st, 'v) wrapped_stream \<Rightarrow> 'st \<Rightarrow> (go_error + 'v) \<times> 'st" where
  "stream_recv s st =
     (case ws_call s of
        None \<Rightarrow> (Inl err_nil_call, st)
      | Some c \<Rightarrow>
          (case ws_codec s of
             None \<Rightarrow> (Inl err_nil_codec, st)
           | Some k \<Rightarrow>
               (case c_recv c st of
                  (Inl e, st1) \<Rightarrow> (Inl e, st1)
                | (Inr payload, st1) \<Rightarrow> (k_unmarshal k payload, c_release c st1))))"

definition stream_send :: "('st, 'v) wrapped_stream \<Rightarrow> 'v \<Rightarrow> 'st \<Rightarrow> go_error option \<times> 'st" where
  "stream_send s v st =
     (case ws_call s of
        None \<Rightarrow> (Some err_nil_call, st)
      | Some c \<Rightarrow>
          (case ws_codec s of
             None \<Rightarrow> (Some err_nil_codec, st)
           | Some k \<Rightarrow>
               (case k_marshal k v of
                  Inl e \<Rightarrow> (Some e, st)
                | Inr b \<Rightarrow> (case c_send c b st of (e, st1) \<Rightarrow> (map_send_err e, st1)))))"

definition stream_half_close :: "('st, 'v) wrapped_stream \<Rightarrow> 'st \<Rightarrow> go_error option \<times> 'st" where
  "stream_half_close s st =
     (case ws_call s of
        None \<Rightarrow> (Some err_nil_call, st)
      | Some c \<Rightarrow> (case c_half_close c st of (e, st1) \<Rightarrow> (map_send_err e, st1)))"

definition stream_close :: "('st, 'v) wrapped_stream \<Rightarrow> 'st \<Rightarrow> go_error option \<times> 'st" where
  "stream_close s st =
     (case ws_call s of
        None \<Rightarrow> (Some err_nil_call, st)
      | Some c \<Rightarrow> c_close c st)"

text \<open>
  The release of a received payload, observed by counting: a call state paired with the number of
  payloads handed out and given back.
\<close>

definition counted :: "'st call_ops \<Rightarrow> ('st \<times> nat \<times> nat) call_ops" where
  "counted c =
     \<lparr>c_recv = (\<lambda>(st, a, r). case c_recv c st of
                  (Inl e, st1) \<Rightarrow> (Inl e, (st1, a, r))
                | (Inr p, st1) \<Rightarrow> (Inr p, (st1, Suc a, r))),
      c_release = (\<lambda>(st, a, r). (c_release c st, a, Suc r)),
      c_send = (\<lambda>b (st, a, r). case c_send c b st of (e, st1) \<Rightarrow> (e, (st1, a, r))),
      c_half_close = (\<lambda>(st, a, r). case c_half_close c st of (e, st1) \<Rightarrow> (e, (st1, a, r))),
      c_close = (\<lambda>(st, a, r). case c_close c st of (e, st1) \<Rightarrow> (e, (st1, a, r)))\<rparr>"

text \<open>
  \<open>Recv\<close> leaks no buffer and \<open>Send\<close> never half-sends: over any call and codec, every
  payload \<open>Recv\<close> took from the call is released before it returns, also when decoding fails; and
  when encoding fails \<open>Send\<close> returns that error and the call is untouched.
\<close>

lemma stream_buffers_balanced:
  "fst (snd (snd (stream_recv (stream_wrap (Some (counted c)) k) (st, n, n))))
     = snd (snd (snd (stream_recv (stream_wrap (Some (counted c)) k) (st, n, n))))
   \<and> (case k of None \<Rightarrow> True
      | Some kk \<Rightarrow>
          (case k_marshal kk v of
             Inr _ \<Rightarrow> True
           | Inl e \<Rightarrow> stream_send (stream_wrap (Some c) k) v st = (Some e, st)))"
  by (auto simp: stream_recv_def stream_send_def stream_wrap_def counted_def
      split: option.splits sum.splits prod.splits)

end
