(* ===== verification/Descriptor.thy ===== *)
theory Descriptor
  imports Errors
begin

text \<open>
  Package \<open>descriptor\<close> (src/descriptor/descriptor.go): method and service descriptions, with
  the validation their constructors do.
\<close>

type_synonym shape = "8 word"

abbreviation Unary :: shape where "Unary \<equiv> 0"
abbreviation ServerStreaming :: shape where "ServerStreaming \<equiv> 1"
abbreviation ClientStreaming :: shape where "ClientStreaming \<equiv> 2"
abbreviation BidiStreaming :: shape where "BidiStreaming \<equiv> 3"

definition shape_valid :: "shape \<Rightarrow> bool" where
  "shape_valid s \<longleftrightarrow> s \<le> BidiStreaming"

record rpc_method =
  m_fullName :: string
  m_service :: string
  m_name :: string
  m_shape :: shape

definition zero_method :: rpc_method where
  "zero_method = \<lparr>m_fullName = [], m_service = [], m_name = [], m_shape = 0\<rparr>"

definition dot :: char where "dot = CHR ''.''"

definition new_method :: "string \<Rightarrow> shape \<Rightarrow> go_error + rpc_method" where
  "new_method fullName s =
     (if fullName = [] then Inl (ErrNew ''descriptor: empty method full name'')
      else if \<not> shape_valid s then
        Inl (ErrNew (''descriptor: invalid shape '' @ nat_str (unat s)))
      else
        let parts = split_on dot fullName in
        if length parts < 2 then
          Inl (ErrNew (''descriptor: method full name '' @ go_quote fullName
                 @ '' missing service separator''))
        else if list_ex (\<lambda>seg. seg = []) parts then
          Inl (ErrNew (''descriptor: method full name '' @ go_quote fullName
                 @ '' has empty segment''))
        else
          Inr \<lparr>m_fullName = fullName, m_service = go_join (butlast parts) [dot],
               m_name = last parts, m_shape = s\<rparr>)"

text \<open>\<open>MustMethod\<close> and \<open>MustService\<close> panic on an error: the value None.\<close>

definition must_method :: "string \<Rightarrow> shape \<Rightarrow> rpc_method option" where
  "must_method fullName s =
     (case new_method fullName s of Inl _ \<Rightarrow> None | Inr m \<Rightarrow> Some m)"

definition method_is_zero :: "rpc_method \<Rightarrow> bool" where
  "method_is_zero m \<longleftrightarrow>
     m_fullName m = [] \<and> m_service m = [] \<and> m_name m = [] \<and> m_shape m = 0"

record service =
  s_fullName :: string
  s_methods :: "rpc_method list"

fun check_methods :: "string \<Rightarrow> string list \<Rightarrow> rpc_method list \<Rightarrow> go_error option" where
  "check_methods fullName seen [] = None"
| "check_methods fullName seen (m # ms) =
     (if m_service m \<noteq> fullName then
        Some (ErrNew (''descriptor: method '' @ go_quote (m_fullName m) @ '' service ''
                @ go_quote (m_service m) @ '' does not match service '' @ go_quote fullName))
      else if m_name m \<in> set seen then
        Some (ErrNew (''descriptor: duplicate method name '' @ go_quote (m_name m)
                @ '' in service '' @ go_quote fullName))
      else check_methods fullName (m_name m # seen) ms)"

definition new_service :: "string \<Rightarrow> rpc_method list \<Rightarrow> go_error + service" where
  "new_service fullName methods =
     (if fullName = [] then Inl (ErrNew ''descriptor: empty service full name'')
      else case check_methods fullName [] methods of
             Some e \<Rightarrow> Inl e
           | None \<Rightarrow> Inr \<lparr>s_fullName = fullName, s_methods = methods\<rparr>)"

definition must_service :: "string \<Rightarrow> rpc_method list \<Rightarrow> service option" where
  "must_service fullName methods =
     (case new_service fullName methods of Inl _ \<Rightarrow> None | Inr s \<Rightarrow> Some s)"

section \<open>Well-formed methods\<close>

text \<open>What the constructor promises, stated without reference to how it parses.\<close>

definition method_ok :: "rpc_method \<Rightarrow> bool" where
  "method_ok m \<longleftrightarrow>
     m_fullName m = m_service m @ dot # m_name m \<and> dot \<notin> set (m_name m)
     \<and> m_name m \<noteq> [] \<and> m_service m \<noteq> [] \<and> shape_valid (m_shape m)
     \<and> [] \<notin> set (split_on dot (m_service m))"

lemma split_on_append_dot:
  "dot \<notin> set w \<Longrightarrow> split_on dot (p @ dot # w) = split_on dot p @ [w]"
proof (induction p)
  case Nil
  then show ?case by (simp add: split_on_absent)
next
  case (Cons x p)
  then show ?case by (auto split: list.splits)
qed

lemma split_snoc:
  assumes "2 \<le> length (split_on dot s)"
  shows "s = go_join (butlast (split_on dot s)) [dot] @ dot # last (split_on dot s)"
proof -
  let ?p = "split_on dot s"
  have nb: "butlast ?p \<noteq> []" using assms by (cases ?p; cases "tl ?p") auto
  have "s = go_join (butlast ?p @ [last ?p]) [dot]" by (simp add: join_split_on)
  then show ?thesis using go_join_snoc [OF nb, of "last ?p" "[dot]"] by simp
qed

lemma new_method_ok: "new_method f s = Inr m \<Longrightarrow> method_ok m \<and> m_fullName m = f \<and> m_shape m = s"
proof -
  assume h: "new_method f s = Inr m"
  let ?p = "split_on dot f"
  have len: "2 \<le> length ?p" and ne: "[] \<notin> set ?p" and v: "shape_valid s"
    and m: "m = \<lparr>m_fullName = f, m_service = go_join (butlast ?p) [dot], m_name = last ?p, m_shape = s\<rparr>"
    using h by (auto simp: new_method_def Let_def list_ex_iff split: if_splits)
  have nb: "butlast ?p \<noteq> []" using len by (cases ?p; cases "tl ?p") auto
  have seg: "\<And>w. w \<in> set (butlast ?p) \<Longrightarrow> dot \<notin> set w"
    by (meson in_set_butlastD split_on_segments)
  have sp: "split_on dot (go_join (butlast ?p) [dot]) = butlast ?p"
    by (rule split_join_on [OF nb seg])
  have "last ?p \<in> set ?p" by simp
  then have l: "dot \<notin> set (last ?p)" "last ?p \<noteq> []" using split_on_segments ne by metis+
  have bn: "[] \<notin> set (butlast ?p)" using ne in_set_butlastD by metis
  have "go_join (butlast ?p) [dot] \<noteq> []"
  proof
    assume "go_join (butlast ?p) [dot] = []"
    with sp have "butlast ?p = [[]]" by simp
    with bn show False by simp
  qed
  with m v l bn sp split_snoc [OF len] show ?thesis by (simp add: method_ok_def)
qed

lemma new_method_complete: "method_ok m \<Longrightarrow> new_method (m_fullName m) (m_shape m) = Inr m"
proof -
  assume ok: "method_ok m"
  then have sp: "split_on dot (m_fullName m) = split_on dot (m_service m) @ [m_name m]"
    by (simp add: method_ok_def split_on_append_dot)
  then have "2 \<le> length (split_on dot (m_fullName m))"
    using length_split_on [of dot "m_service m"] by (simp add: Suc_le_eq)
  then show ?thesis using ok sp
    by (auto simp: new_method_def Let_def method_ok_def list_ex_iff join_split_on)
qed

lemma method_ok_eq:
  "method_ok m \<Longrightarrow> method_ok n \<Longrightarrow> m_service m = m_service n \<Longrightarrow> m_name m = m_name n
   \<Longrightarrow> m_fullName m = m_fullName n"
  by (simp add: method_ok_def)

text \<open>
  \<open>NewMethod\<close> accepts exactly the well-formed names and is inverse to reading them back: it
  returns \<open>m\<close> for a name and a shape iff \<open>m\<close> is well formed (service, a dot, a non-empty
  dot-free method name, no empty segment, a valid shape) and carries that name and shape.
\<close>

lemma new_method_exact:
  "new_method f s = Inr m \<longleftrightarrow> method_ok m \<and> m_fullName m = f \<and> m_shape m = s"
  using new_method_ok new_method_complete by metis

lemma check_methods_None:
  "check_methods f seen ms = None \<longleftrightarrow>
     (\<forall>m \<in> set ms. m_service m = f \<and> m_name m \<notin> set seen) \<and> distinct (map m_name ms)"
proof (induction ms arbitrary: seen)
  case (Cons m ms)
  have "m_name m \<notin> m_name ` set ms \<longleftrightarrow> (\<forall>x \<in> set ms. m_name x \<noteq> m_name m)"
    by (auto simp: image_iff)
  with Cons show ?case by auto
qed simp

lemma new_service_iff:
  "new_service f ms = Inr s \<longleftrightarrow>
     f \<noteq> [] \<and> s = \<lparr>s_fullName = f, s_methods = ms\<rparr>
     \<and> (\<forall>m \<in> set ms. m_service m = f) \<and> distinct (map m_name ms)"
  using check_methods_None [of f "[]" ms] by (auto simp: new_service_def split: option.splits)

lemma new_service_distinct_full:
  assumes "new_service f ms = Inr s" and "\<forall>m \<in> set ms. method_ok m"
  shows "distinct (map m_fullName ms)"
proof -
  have d: "distinct (map m_name ms)" and sv: "\<forall>m \<in> set ms. m_service m = f"
    using assms(1) by (auto simp: new_service_iff)
  have "inj_on m_fullName (set ms)"
  proof (rule inj_onI)
    fix x y assume "x \<in> set ms" "y \<in> set ms" "m_fullName x = m_fullName y"
    moreover from this have "m_name x = m_name y"
      using assms(2) sv by (auto simp: method_ok_def)
    ultimately show "x = y" using d by (simp add: distinct_map inj_on_def)
  qed
  with d show ?thesis by (simp add: distinct_map)
qed

text \<open>
  A service accepted by \<open>NewService\<close> is an unambiguous method table: its methods are the
  given ones in order, all of that service, and when they were built by \<open>NewMethod\<close> their full
  names are pairwise different.
\<close>

lemma new_service_table:
  assumes "new_service f ms = Inr s"
    and "list_all (\<lambda>m. new_method (m_fullName m) (m_shape m) = Inr m) ms"
  shows "s_methods s = ms \<and> distinct (map m_fullName (s_methods s))
         \<and> list_all (\<lambda>m. m_service m = s_fullName s) (s_methods s)"
proof -
  have "\<forall>m \<in> set ms. method_ok m"
    using assms(2) new_method_ok by (auto simp: list_all_iff)
  with assms(1) show ?thesis
    using new_service_distinct_full new_service_iff by (auto simp: list_all_iff)
qed

definition demo_methods :: "rpc_method list" where
  "demo_methods =
     [\<lparr>m_fullName = ''a.S.X'', m_service = ''a.S'', m_name = ''X'', m_shape = 0\<rparr>,
      \<lparr>m_fullName = ''a.S.Y'', m_service = ''a.S'', m_name = ''Y'', m_shape = 3\<rparr>]"

lemma new_service_table_witness:
  "distinct (map m_fullName demo_methods)"
proof -
  have a: "new_service ''a.S'' demo_methods = Inr \<lparr>s_fullName = ''a.S'', s_methods = demo_methods\<rparr>"
    by code_simp
  have b: "list_all (\<lambda>m. new_method (m_fullName m) (m_shape m) = Inr m) demo_methods"
    by code_simp
  show ?thesis using new_service_table [OF a b] by simp
qed

end
