(* ===== verification/Registry.thy ===== *)
theory Registry
  imports Pool
begin

text \<open>
  Name registries and address resolution: the transport and codec factories
  (src/transport/register.go, src/codec/register.go), the resolver registry and the ip resolver
  (src/resolver), and the mapping of limits (src/internal/transportbind, src/transport/limits.go).
  A panic is None. Random choice among addresses is an argument.
\<close>

section \<open>Factories\<close>

type_synonym 'a factory = "go_error + 'a option"
type_synonym 'a registry = "string \<rightharpoonup> 'a factory"

definition registry_add :: "string \<Rightarrow> 'a factory option \<Rightarrow> 'a registry \<Rightarrow> 'a registry option" where
  "registry_add name fn reg =
     (if name = [] then None else case fn of None \<Rightarrow> None | Some f \<Rightarrow> Some (reg(name \<mapsto> f)))"

definition registry_new :: "string \<Rightarrow> 'a registry \<Rightarrow> string \<Rightarrow> go_error + 'a" where
  "registry_new pkg reg name =
     (case reg name of
        None \<Rightarrow> Inl (ErrNew (pkg @ '': unknown name '' @ go_quote name))
      | Some (Inl e) \<Rightarrow> Inl e
      | Some (Inr None) \<Rightarrow> Inl (ErrNew (pkg @ '': factory '' @ go_quote name @ '' returned nil''))
      | Some (Inr (Some x)) \<Rightarrow> Inr x)"

definition transport_register :: "string \<Rightarrow> 'a factory option \<Rightarrow> 'a registry \<Rightarrow> 'a registry option" where
  "transport_register = registry_add"

definition transport_new :: "'a registry \<Rightarrow> string \<Rightarrow> go_error + 'a" where
  "transport_new = registry_new ''transport''"

definition codec_register :: "string \<Rightarrow> 'a factory option \<Rightarrow> 'a registry \<Rightarrow> 'a registry option" where
  "codec_register = registry_add"

definition codec_new :: "'a registry \<Rightarrow> string \<Rightarrow> go_error + 'a" where
  "codec_new = registry_new ''codec''"

text \<open>The contract of a registry: the last registration of a name is the one that is used.\<close>

locale name_registry =
  fixes register :: "string \<Rightarrow> 'a factory option \<Rightarrow> 'r \<Rightarrow> 'r option"
    and make :: "'r \<Rightarrow> string \<Rightarrow> go_error + 'a"
  assumes make_same: "register n (Some (Inr (Some x))) r = Some r' \<Longrightarrow> make r' n = Inr x"
    and make_other: "register n f r = Some r' \<Longrightarrow> m \<noteq> n \<Longrightarrow> make r' m = make r m"
    and register_total: "(register n f r = None) = (n = [] \<or> f = None)"
begin

lemma last_wins:
  assumes "register n f r = Some r1" "register n (Some (Inr (Some x))) r1 = Some r2"
  shows "make r2 n = Inr x \<and> (m \<noteq> n \<longrightarrow> make r2 m = make r m)"
  using make_same [OF assms(2)] make_other [OF assms(2)] make_other [OF assms(1)] by auto

end

interpretation transports: name_registry transport_register transport_new
  by unfold_locales
    (auto simp: transport_register_def transport_new_def registry_add_def registry_new_def
      split: if_splits option.splits)

interpretation codecs: name_registry codec_register codec_new
  by unfold_locales
    (auto simp: codec_register_def codec_new_def registry_add_def registry_new_def
      split: if_splits option.splits)

section \<open>Resolvers\<close>

type_synonym resolver_fn = "string \<Rightarrow> go_error + string"

definition resolver_register ::
    "string \<Rightarrow> resolver_fn option \<Rightarrow> (string \<rightharpoonup> resolver_fn) \<Rightarrow> (string \<rightharpoonup> resolver_fn) option" where
  "resolver_register name r reg =
     (if name = [] then None else case r of None \<Rightarrow> None | Some f \<Rightarrow> Some (reg(name \<mapsto> f)))"

definition split_scheme :: "string \<Rightarrow> string \<times> string" where
  "split_scheme target =
     (case go_index target ''://'' of
        Some i \<Rightarrow> (take i target, drop (i + 3) target)
      | None \<Rightarrow> ([], target))"

text \<open>\<open>ctxErr\<close> is the error of the context, if it is done.\<close>

definition resolver_parse ::
    "(string \<rightharpoonup> resolver_fn) \<Rightarrow> go_error option \<Rightarrow> string \<Rightarrow> go_error + string" where
  "resolver_parse reg ctxErr target =
     (case ctxErr of
        Some e \<Rightarrow> Inl e
      | None \<Rightarrow>
          (case split_scheme target of
             (scheme, body) \<Rightarrow>
               if scheme = [] then
                 Inl (ErrNew ''resolver: target must be scheme://service-identifier'')
               else if body = [] then
                 Inl (ErrNew (''resolver: missing service identifier after '' @ go_quote scheme @ ''://''))
               else
                 (case reg scheme of
                    None \<Rightarrow> Inl (ErrNew (''resolver: unknown scheme '' @ go_quote scheme))
                  | Some f \<Rightarrow> f body)))"

section \<open>The ip resolver\<close>

definition addr_err :: "string \<Rightarrow> string \<Rightarrow> go_error + 'a" where
  "addr_err hp why = Inl (ErrNew (''address '' @ hp @ '': '' @ why))"

definition bracket_err :: "string \<Rightarrow> string \<Rightarrow> char \<Rightarrow> go_error + 'a" where
  "bracket_err hp what c =
     addr_err hp (what @ [char_of (39 :: nat), c, char_of (39 :: nat)] @ '' in address'')"

definition split_host_port :: "string \<Rightarrow> go_error + string \<times> string" where
  "split_host_port hp =
     (case last_index_byte hp CHR '':'' of
        None \<Rightarrow> addr_err hp ''missing port in address''
      | Some i \<Rightarrow>
          if hd hp = CHR ''['' then
            (case index_byte hp CHR '']'' of
               None \<Rightarrow> bracket_err hp ''missing '' CHR '']''
             | Some e \<Rightarrow>
                 if e + 1 = length hp then addr_err hp ''missing port in address''
                 else if e + 1 \<noteq> i then
                   (if hp ! (e + 1) = CHR '':'' then addr_err hp ''too many colons in address''
                    else addr_err hp ''missing port in address'')
                 else if CHR ''['' \<in> set (drop 1 hp) then bracket_err hp ''unexpected '' CHR ''[''
                 else if CHR '']'' \<in> set (drop (e + 1) hp) then
                   bracket_err hp ''unexpected '' CHR '']''
                 else Inr (drop 1 (take e hp), drop (i + 1) hp))
          else if CHR '':'' \<in> set (take i hp) then addr_err hp ''too many colons in address''
          else if CHR ''['' \<in> set hp then bracket_err hp ''unexpected '' CHR ''[''
          else if CHR '']'' \<in> set hp then bracket_err hp ''unexpected '' CHR '']''
          else Inr (take i hp, drop (i + 1) hp))"

definition join_host_port :: "string \<Rightarrow> string \<Rightarrow> string" where
  "join_host_port host port =
     (if CHR '':'' \<in> set host then ''['' @ host @ '']:'' @ port else host @ '':'' @ port)"

definition split_candidates :: "string \<Rightarrow> string list" where
  "split_candidates s = filter (\<lambda>p. p \<noteq> []) (map trim_space (split_on CHR '','' s))"

definition ip_pick :: "(nat \<Rightarrow> nat) \<Rightarrow> string list \<Rightarrow> go_error + string" where
  "ip_pick rnd candidates =
     (case candidates of
        [] \<Rightarrow> Inl (ErrNew ''resolver/ip: empty address'')
      | [c] \<Rightarrow> Inr c
      | _ \<Rightarrow> Inr (candidates ! (rnd (length candidates) mod length candidates)))"

definition ip_select :: "(nat \<Rightarrow> nat) \<Rightarrow> string \<Rightarrow> go_error + string" where
  "ip_select rnd service0 =
     (let service = trim_space (trim_prefix service0 ''//'') in
      if service = [] then Inl (ErrNew ''resolver/ip: empty address'')
      else
        (case ip_pick rnd (split_candidates service) of
           Inl e \<Rightarrow> Inl e
         | Inr addr \<Rightarrow>
             (case split_host_port addr of
                Inl e \<Rightarrow> Inl (ErrWrap (''resolver/ip: '' @ err_text e) [e])
              | Inr (host, port) \<Rightarrow>
                  if host = [] \<or> port = [] then Inl (ErrNew ''resolver/ip: invalid address'')
                  else Inr (join_host_port host port))))"

text \<open>What splitting guarantees of its parts.\<close>

definition hp_ok :: "string \<Rightarrow> string \<Rightarrow> bool" where
  "hp_ok host port \<longleftrightarrow>
     CHR '':'' \<notin> set port \<and> set port \<inter> {CHR ''['', CHR '']''} = {}
     \<and> CHR ''['' \<notin> set host \<and> CHR '']'' \<notin> set host"

lemma split_host_port_ok:
  assumes "split_host_port hp = Inr (h, p)"
  shows "hp_ok h p"
proof -
  from assms obtain i where i: "last_index_byte hp CHR '':'' = Some i"
    by (auto simp: split_host_port_def addr_err_def bracket_err_def split: option.splits)
  note li = last_index_byte_Some [OF i]
  show ?thesis
  proof (cases "hd hp = CHR ''[''")
    case True
    with assms i obtain e where e: "index_byte hp CHR '']'' = Some e" "e + 1 = i"
      "CHR ''['' \<notin> set (drop 1 hp)" "CHR '']'' \<notin> set (drop (e + 1) hp)"
      and hp: "h = drop 1 (take e hp)" "p = drop (i + 1) hp"
      by (auto simp: split_host_port_def addr_err_def bracket_err_def split: option.splits if_splits)
    have "CHR '']'' \<notin> set (take e hp)" using index_byte_Some [OF e(1)] by simp
    then have "CHR '']'' \<notin> set h" unfolding hp by (meson in_set_dropD)
    moreover have "CHR ''['' \<notin> set h"
      using e(3) unfolding hp by (metis in_set_takeD drop_take)
    moreover have "set p \<subseteq> set (drop 1 hp)" unfolding hp
      by (rule set_drop_subset_set_drop) simp
    moreover have "set p \<subseteq> set (drop (e + 1) hp)" unfolding hp e(2) [symmetric]
      by (rule set_drop_subset_set_drop) simp
    moreover have "CHR '':'' \<notin> set p" using li hp by simp
    ultimately show ?thesis using e(3,4) by (auto simp: hp_ok_def)
  next
    case False
    with assms i have "CHR ''['' \<notin> set hp" "CHR '']'' \<notin> set hp"
      and hp: "h = take i hp" "p = drop (i + 1) hp"
      by (auto simp: split_host_port_def addr_err_def bracket_err_def split: if_splits)
    then show ?thesis using li by (auto simp: hp_ok_def dest: in_set_takeD in_set_dropD)
  qed
qed

lemma split_join_host_port:
  assumes "hp_ok h p" "h \<noteq> []"
  shows "split_host_port (join_host_port h p) = Inr (h, p)"
proof (cases "CHR '':'' \<in> set h")
  case True
  have j: "join_host_port h p = (''['' @ h @ '']'') @ CHR '':'' # p"
    using True by (simp add: join_host_port_def)
  have l: "last_index_byte ((''['' @ h @ '']'') @ CHR '':'' # p) CHR '':'' = Some (length (''['' @ h @ '']''))"
    using assms by (intro last_index_byte_suffix) (simp add: hp_ok_def)
  have "index_byte ((''['' @ h) @ CHR '']'' # '':'' @ p) CHR '']'' = Some (length (''['' @ h))"
    using assms by (intro index_byte_prefix) (simp add: hp_ok_def)
  then show ?thesis using l assms unfolding j
    by (simp add: split_host_port_def addr_err_def bracket_err_def hp_ok_def)
next
  case False
  have j: "join_host_port h p = h @ CHR '':'' # p" using False by (simp add: join_host_port_def)
  have "last_index_byte (h @ CHR '':'' # p) CHR '':'' = Some (length h)"
    using assms by (intro last_index_byte_suffix) (simp add: hp_ok_def)
  moreover have "hd (h @ CHR '':'' # p) \<noteq> CHR ''[''"
    using assms by (cases h) (auto simp: hp_ok_def)
  ultimately show ?thesis using assms False unfolding j
    by (simp add: split_host_port_def addr_err_def bracket_err_def hp_ok_def)
qed

text \<open>
  An address the ip resolver returns is one a dialer can split again: it parses back to a
  non-empty host and port, whatever list it was picked from.
\<close>

lemma ip_select_dialable:
  assumes "ip_select rnd s = Inr addr"
  shows "\<exists>h p. split_host_port addr = Inr (h, p) \<and> h \<noteq> [] \<and> p \<noteq> []
               \<and> addr = join_host_port h p"
proof -
  from assms obtain a h p where "split_host_port a = Inr (h, p)" "h \<noteq> []" "p \<noteq> []"
    "addr = join_host_port h p"
    by (auto simp: ip_select_def Let_def split: sum.splits if_splits)
  with split_join_host_port [OF split_host_port_ok] show ?thesis by blast
qed

lemma ip_select_dialable_witness:
  "\<exists>h p. split_host_port ''[::1]:80'' = Inr (h, p) \<and> h \<noteq> [] \<and> p \<noteq> []
         \<and> ''[::1]:80'' = join_host_port h p"
proof -
  have "ip_select (\<lambda>_. 1) '' a:1 , [::1]:80 '' = Inr ''[::1]:80''" by code_simp
  from ip_select_dialable [OF this] show ?thesis .
qed

section \<open>Limits\<close>

record transport_limits =
  MaxMessageSize :: int
  MaxFrameSize :: int
  MaxMetadataSize :: int
  MaxInboundMetadataSize :: int
  ReadAheadMessages :: int
  OpenTimeout :: int
  MaxDrainBytes :: int

record session_options =
  so_MaxMessageSize :: int
  so_MaxFrameSize :: int
  so_MaxMetadataSize :: int
  so_MaxInboundMetadataSize :: int
  so_ReadAheadMessages :: int
  so_OpenTimeout :: int
  so_MaxDrainBytes :: int

record pool_limits =
  pl_MaxSessionsPerEndpoint :: int
  pl_MaxIdleSessions :: int
  pl_SessionIdleTimeout :: int
  pl_MaxSessionLifetime :: int
  pl_HandshakeTimeout :: int

definition from_limits :: "transport_limits \<Rightarrow> session_options" where
  "from_limits l =
     \<lparr>so_MaxMessageSize = MaxMessageSize l, so_MaxFrameSize = MaxFrameSize l,
      so_MaxMetadataSize = MaxMetadataSize l,
      so_MaxInboundMetadataSize = MaxInboundMetadataSize l,
      so_ReadAheadMessages = ReadAheadMessages l, so_OpenTimeout = OpenTimeout l,
      so_MaxDrainBytes = MaxDrainBytes l\<rparr>"

definition to_limits :: "session_options \<Rightarrow> transport_limits" where
  "to_limits c =
     \<lparr>MaxMessageSize = so_MaxMessageSize c, MaxFrameSize = so_MaxFrameSize c,
      MaxMetadataSize = so_MaxMetadataSize c,
      MaxInboundMetadataSize = so_MaxInboundMetadataSize c,
      ReadAheadMessages = so_ReadAheadMessages c, OpenTimeout = so_OpenTimeout c,
      MaxDrainBytes = so_MaxDrainBytes c\<rparr>"

definition to_pool_limits :: "pool_options \<Rightarrow> pool_limits" where
  "to_pool_limits c =
     \<lparr>pl_MaxSessionsPerEndpoint = MaxSessionsPerEndpoint c, pl_MaxIdleSessions = MaxIdleSessions c,
      pl_SessionIdleTimeout = SessionIdleTimeout c, pl_MaxSessionLifetime = MaxSessionLifetime c,
      pl_HandshakeTimeout = HandshakeTimeout c\<rparr>"

lemma limits_inverse: "to_limits (from_limits l) = l" "from_limits (to_limits c) = c"
  by (simp_all add: to_limits_def from_limits_def)

text \<open>\<open>codecName\<close> is None for a codec that carries no identity.\<close>

definition check_codec_name :: "string \<Rightarrow> string \<Rightarrow> string option \<Rightarrow> go_error option" where
  "check_codec_name what axisName codecName =
     (if axisName = [] then None
      else
        (case codecName of
           None \<Rightarrow> None
         | Some got \<Rightarrow>
             if got \<noteq> axisName then
               Some (ErrNew (what @ '': transport carries codec '' @ go_quote axisName
                 @ '' but the codec reports '' @ go_quote got
                 @ ''; the name is fixed when the axis is constructed, so set WithCodecName or pair the axis with the codec that matches it''))
             else None))"

end
