(* ===== verification/Options.thy ===== *)
theory Options
  imports Registry
begin

text \<open>
  Package argos: options and service entries (src/options.go, src/option.go, src/service.go).
  Filters and observers are only stored and passed on, so they are numbered; a nil option in the
  list is None. The process default is an argument of the constructors.
\<close>

section \<open>Service entries\<close>

record service_listen =
  sl_Address :: string
  sl_Transport :: string
  sl_Codec :: string

record service_options =
  sv_Transport :: string
  sv_Codec :: string
  sv_Target :: string
  sv_ListenAddress :: string
  sv_Listeners :: "service_listen list"

record service_listen_plan =
  pn_Address :: string
  pn_Stack :: service_options

definition zero_service :: service_options where
  "zero_service =
     \<lparr>sv_Transport = [], sv_Codec = [], sv_Target = [], sv_ListenAddress = [], sv_Listeners = []\<rparr>"

definition check_complete :: "service_options \<Rightarrow> go_error option" where
  "check_complete sc =
     (if sv_Transport sc = [] \<or> sv_Codec sc = []
      then Some (ErrNew ''argos: incomplete service stack (Transport + Codec)'') else None)"

fun listener_plans ::
    "string \<Rightarrow> service_listen list \<Rightarrow> go_error + service_listen_plan list" where
  "listener_plans fallback [] = Inr []"
| "listener_plans fallback (l # ls) =
     (let stack = zero_service\<lparr>sv_Transport := sl_Transport l, sv_Codec := sl_Codec l\<rparr>;
          addr = (if sl_Address l = [] then fallback else sl_Address l) in
      case check_complete stack of
        Some e \<Rightarrow> Inl (ErrWrap (''listener '' @ go_quote (sl_Address l) @ '': '' @ err_text e) [e])
      | None \<Rightarrow>
          if addr = [] then
            Inl (ErrNew ''listener missing address (set ListenAddress on ServiceOptions or Options.ListenAddress)'')
          else
            (case listener_plans fallback ls of
               Inl e \<Rightarrow> Inl e
             | Inr ps \<Rightarrow> Inr (\<lparr>pn_Address = addr, pn_Stack = stack\<rparr> # ps)))"

definition server_listen_plans ::
    "service_options \<Rightarrow> string \<Rightarrow> go_error + service_listen_plan list" where
  "server_listen_plans sc fallback =
     (if sv_Listeners sc \<noteq> [] then listener_plans fallback (sv_Listeners sc)
      else
        (case check_complete sc of
           Some e \<Rightarrow> Inl e
         | None \<Rightarrow>
             let addr = (if sv_ListenAddress sc = [] then fallback else sv_ListenAddress sc) in
             if addr = [] then
               Inl (ErrNew ''missing listen address (ServiceOptions.ListenAddress or Options.ListenAddress)'')
             else Inr [\<lparr>pn_Address = addr, pn_Stack = sc\<rparr>]))"

definition assemble_transport :: "'t registry \<Rightarrow> service_options \<Rightarrow> go_error + 't" where
  "assemble_transport reg sc =
     (case check_complete sc of Some e \<Rightarrow> Inl e | None \<Rightarrow> transport_new reg (sv_Transport sc))"

definition assemble_codec :: "'c registry \<Rightarrow> service_options \<Rightarrow> go_error + 'c" where
  "assemble_codec reg sc =
     (case check_complete sc of Some e \<Rightarrow> Inl e | None \<Rightarrow> codec_new reg (sv_Codec sc))"

definition clone_service_options :: "service_options \<Rightarrow> service_options" where
  "clone_service_options sc =
     (if sv_Listeners sc \<noteq> [] then sc\<lparr>sv_Listeners := map id (sv_Listeners sc)\<rparr> else sc)"

definition bar :: char where "bar = CHR ''|''"

definition service_listen_key :: "string \<Rightarrow> service_options \<Rightarrow> string" where
  "service_listen_key addr sc = addr @ bar # sv_Transport sc @ bar # sv_Codec sc"

definition listen_surfaces :: "service_options \<Rightarrow> string \<Rightarrow> (string \<times> string \<times> string) list" where
  "listen_surfaces sc fallback =
     map (\<lambda>(a, t, c). (if a = [] then fallback else a, t, c))
       (if sv_Listeners sc = [] then [(sv_ListenAddress sc, sv_Transport sc, sv_Codec sc)]
        else map (\<lambda>l. (sl_Address l, sl_Transport l, sl_Codec l)) (sv_Listeners sc))"

definition plan_surface :: "service_listen_plan \<Rightarrow> string \<times> string \<times> string" where
  "plan_surface p = (pn_Address p, sv_Transport (pn_Stack p), sv_Codec (pn_Stack p))"

abbreviation surface_ok :: "string \<times> string \<times> string \<Rightarrow> bool" where
  "surface_ok x \<equiv> fst x \<noteq> [] \<and> fst (snd x) \<noteq> [] \<and> snd (snd x) \<noteq> []"

lemma check_complete_iff: "check_complete x = None \<longleftrightarrow> sv_Transport x \<noteq> [] \<and> sv_Codec x \<noteq> []"
  by (simp add: check_complete_def)

lemma plan_surface_make:
  "plan_surface \<lparr>pn_Address = a, pn_Stack = s\<rparr> = (a, sv_Transport s, sv_Codec s)"
  by (simp add: plan_surface_def)

lemma listener_plans_exact:
  "case listener_plans fb ls of
     Inr ps \<Rightarrow> map plan_surface ps
                 = map (\<lambda>l. (if sl_Address l = [] then fb else sl_Address l, sl_Transport l, sl_Codec l)) ls
               \<and> list_all surface_ok (map plan_surface ps)
   | Inl _ \<Rightarrow> \<not> list_all surface_ok
       (map (\<lambda>l. (if sl_Address l = [] then fb else sl_Address l, sl_Transport l, sl_Codec l)) ls)"
  by (induction ls)
    (auto simp: Let_def plan_surface_make check_complete_def split: option.splits if_splits sum.splits)

lemma bar_split:
  assumes "x @ bar # u = y @ bar # v" "bar \<notin> set x" "bar \<notin> set y"
  shows "x = y \<and> u = v"
  using assms by (metis append_eq_append_conv_if split_list_first index_byte_prefix
      append_eq_conv_conj list.sel(3) option.inject same_append_eq)

lemma service_listen_key_inj:
  assumes "service_listen_key a s = service_listen_key b t"
    and "bar \<notin> set a" "bar \<notin> set b" "bar \<notin> set (sv_Transport s)" "bar \<notin> set (sv_Transport t)"
  shows "a = b \<and> sv_Transport s = sv_Transport t \<and> sv_Codec s = sv_Codec t"
proof -
  have e: "a @ bar # (sv_Transport s @ bar # sv_Codec s) = b @ bar # (sv_Transport t @ bar # sv_Codec t)"
    using assms(1) by (simp add: service_listen_key_def)
  from bar_split [OF e assms(2,3)] have "a = b"
    and f: "sv_Transport s @ bar # sv_Codec s = sv_Transport t @ bar # sv_Codec t" by simp_all
  from bar_split [OF f assms(4,5)] \<open>a = b\<close> show ?thesis by simp
qed

text \<open>
  \<open>ServerListenPlans\<close> succeeds exactly for a service all of whose listen surfaces are complete.
  The surfaces are the configured listeners, or the service's own address and stack when it has
  none, with the fallback address where the address is empty; complete means address, transport
  and codec are all set. On success there is one plan per surface, in order, with exactly that
  address and stack; on failure some surface is incomplete.
\<close>

lemma listen_plans_exact:
  "case server_listen_plans sc fb of
     Inr ps \<Rightarrow> map plan_surface ps = listen_surfaces sc fb
               \<and> list_all surface_ok (listen_surfaces sc fb) \<and> ps \<noteq> []
   | Inl _ \<Rightarrow> \<not> list_all surface_ok (listen_surfaces sc fb)"
proof (cases "sv_Listeners sc = []")
  case True
  then show ?thesis
    by (auto simp: server_listen_plans_def listen_surfaces_def plan_surface_def check_complete_def
        Let_def split: option.splits if_splits)
next
  case False
  with listener_plans_exact [of fb "sv_Listeners sc"] show ?thesis
    by (auto simp: server_listen_plans_def listen_surfaces_def comp_def split: sum.splits)
qed

section \<open>Options\<close>

record options =
  MaxHeaderBytes :: int
  MaxConcurrentCalls :: int
  o_HandshakeTimeout :: int
  MaxInboundConns :: int
  MaxInboundConnIdle :: int
  MaxInboundConnAge :: int
  HTTPReadHeaderTimeout :: int
  HTTPIdleTimeout :: int
  o_ListenAddress :: string
  Filters :: "nat list"
  OpenFilters :: "nat list"
  Services :: "(string, service_options) gomap"
  CallErrorObserver :: "nat option"
  ConnErrorObserver :: "nat option"
  serviceName :: string
  targetOverride :: string
  overrideTransport :: string
  overrideCodec :: string
  hasTransportOverride :: bool
  hasCodecOverride :: bool

definition defaults :: options where
  "defaults =
     \<lparr>MaxHeaderBytes = 0, MaxConcurrentCalls = 0, o_HandshakeTimeout = 0, MaxInboundConns = 0,
      MaxInboundConnIdle = 0, MaxInboundConnAge = 0, HTTPReadHeaderTimeout = 0,
      HTTPIdleTimeout = 0, o_ListenAddress = [], Filters = [], OpenFilters = [], Services = [],
      CallErrorObserver = None, ConnErrorObserver = None, serviceName = [], targetOverride = [],
      overrideTransport = [], overrideCodec = [], hasTransportOverride = False,
      hasCodecOverride = False\<rparr>"

definition options_clone :: "options option \<Rightarrow> options" where
  "options_clone c =
     (case c of
        None \<Rightarrow> defaults
      | Some o' \<Rightarrow>
          o'\<lparr>serviceName := [], targetOverride := [], overrideTransport := [], overrideCodec := [],
             hasTransportOverride := False, hasCodecOverride := False,
             Filters := map id (Filters o'), OpenFilters := map id (OpenFilters o'),
             Services := map (\<lambda>(k, v). (k, clone_service_options v)) (Services o')\<rparr>)"

datatype client_option =
    WithClientOptions "options option"
  | WithServiceName string
  | WithTarget string
  | WithTransport string
  | WithCodec string
  | WithOpenFilter nat
  | WithClientCallErrorObserver "nat option"
  | WithClientConnErrorObserver "nat option"
  | WithMaxHeaderBytes int
  | WithMaxConcurrentCalls int
  | WithHandshakeTimeout int

datatype server_option =
    WithServerOptions "options option"
  | WithFilter nat
  | WithServerCallErrorObserver "nat option"
  | WithServerConnErrorObserver "nat option"
  | WithServerMaxHeaderBytes int
  | WithServerMaxConcurrentCalls int
  | WithServerHandshakeTimeout int
  | WithMaxInboundConns int
  | WithMaxInboundConnIdle int
  | WithMaxInboundConnAge int
  | WithListenAddress string

fun apply_client :: "client_option \<Rightarrow> options \<Rightarrow> options" where
  "apply_client (WithClientOptions _) c = c"
| "apply_client (WithServiceName n) c = c\<lparr>serviceName := n\<rparr>"
| "apply_client (WithTarget t) c = c\<lparr>targetOverride := t\<rparr>"
| "apply_client (WithTransport n) c = c\<lparr>overrideTransport := n, hasTransportOverride := True\<rparr>"
| "apply_client (WithCodec n) c = c\<lparr>overrideCodec := n, hasCodecOverride := True\<rparr>"
| "apply_client (WithOpenFilter f) c = c\<lparr>OpenFilters := OpenFilters c @ [f]\<rparr>"
| "apply_client (WithClientCallErrorObserver f) c = c\<lparr>CallErrorObserver := f\<rparr>"
| "apply_client (WithClientConnErrorObserver f) c = c\<lparr>ConnErrorObserver := f\<rparr>"
| "apply_client (WithMaxHeaderBytes n) c = c\<lparr>MaxHeaderBytes := n\<rparr>"
| "apply_client (WithMaxConcurrentCalls n) c = c\<lparr>MaxConcurrentCalls := n\<rparr>"
| "apply_client (WithHandshakeTimeout d) c = c\<lparr>o_HandshakeTimeout := d\<rparr>"

fun apply_server :: "server_option \<Rightarrow> options \<Rightarrow> options" where
  "apply_server (WithServerOptions _) c = c"
| "apply_server (WithFilter f) c = c\<lparr>Filters := Filters c @ [f]\<rparr>"
| "apply_server (WithServerCallErrorObserver f) c = c\<lparr>CallErrorObserver := f\<rparr>"
| "apply_server (WithServerConnErrorObserver f) c = c\<lparr>ConnErrorObserver := f\<rparr>"
| "apply_server (WithServerMaxHeaderBytes n) c = c\<lparr>MaxHeaderBytes := n\<rparr>"
| "apply_server (WithServerMaxConcurrentCalls n) c = c\<lparr>MaxConcurrentCalls := n\<rparr>"
| "apply_server (WithServerHandshakeTimeout d) c = c\<lparr>o_HandshakeTimeout := d\<rparr>"
| "apply_server (WithMaxInboundConns n) c = c\<lparr>MaxInboundConns := n\<rparr>"
| "apply_server (WithMaxInboundConnIdle d) c = c\<lparr>MaxInboundConnIdle := d\<rparr>"
| "apply_server (WithMaxInboundConnAge d) c = c\<lparr>MaxInboundConnAge := d\<rparr>"
| "apply_server (WithListenAddress a) c = c\<lparr>o_ListenAddress := a\<rparr>"

definition limit_fields :: "options \<Rightarrow> (string \<times> int) list" where
  "limit_fields c =
     [(''MaxHeaderBytes'', MaxHeaderBytes c), (''MaxConcurrentCalls'', MaxConcurrentCalls c),
      (''HandshakeTimeout'', o_HandshakeTimeout c), (''MaxInboundConns'', MaxInboundConns c),
      (''MaxInboundConnIdle'', MaxInboundConnIdle c), (''MaxInboundConnAge'', MaxInboundConnAge c),
      (''HTTPReadHeaderTimeout'', HTTPReadHeaderTimeout c), (''HTTPIdleTimeout'', HTTPIdleTimeout c)]"

definition options_validate :: "options \<Rightarrow> go_error option" where
  "options_validate c =
     map_option (\<lambda>(name, _). ErrNew (''argos: '' @ name @ '' must not be negative''))
       (find (\<lambda>(_, v). v < 0) (limit_fields c))"

definition fill_defaults :: "options \<Rightarrow> options" where
  "fill_defaults c = c"

definition options_finish :: "options \<Rightarrow> go_error + options" where
  "options_finish c =
     (let c' = fill_defaults c in
      case options_validate c' of Some e \<Rightarrow> Inl e | None \<Rightarrow> Inr c')"

fun client_base :: "options \<Rightarrow> client_option option list \<Rightarrow> go_error + options" where
  "client_base base [] = Inr base"
| "client_base base (None # os) = Inl (ErrNew ''argos: nil ClientOption'')"
| "client_base base (Some (WithClientOptions (Some b)) # os) = client_base b os"
| "client_base base (Some _ # os) = client_base base os"

definition client_options :: "options \<Rightarrow> client_option option list \<Rightarrow> go_error + options" where
  "client_options dflt os =
     (case client_base dflt os of
        Inl e \<Rightarrow> Inl e
      | Inr base \<Rightarrow>
          options_finish (fold (\<lambda>o'. case o' of None \<Rightarrow> id | Some x \<Rightarrow> apply_client x) os
                            (options_clone (Some base))))"

fun server_base :: "options \<Rightarrow> server_option option list \<Rightarrow> go_error + options" where
  "server_base base [] = Inr base"
| "server_base base (None # os) = Inl (ErrNew ''argos: nil ServerOption'')"
| "server_base base (Some (WithServerOptions (Some b)) # os) = server_base b os"
| "server_base base (Some _ # os) = server_base base os"

definition server_options :: "options \<Rightarrow> server_option option list \<Rightarrow> go_error + options" where
  "server_options dflt os =
     (case server_base dflt os of
        Inl e \<Rightarrow> Inl e
      | Inr base \<Rightarrow>
          options_finish (fold (\<lambda>o'. case o' of None \<Rightarrow> id | Some x \<Rightarrow> apply_server x) os
                            (options_clone (Some base))))"

definition selected_service :: "options option \<Rightarrow> string \<times> service_options" where
  "selected_service c =
     (case c of
        None \<Rightarrow> ([], zero_service)
      | Some o' \<Rightarrow>
          let sel0 = (case map_of (Services o') (serviceName o') of
                        None \<Rightarrow> zero_service | Some sc \<Rightarrow> sc);
              sel1 = (if hasTransportOverride o' then sel0\<lparr>sv_Transport := overrideTransport o'\<rparr>
                      else sel0);
              sel2 = (if hasCodecOverride o' then sel1\<lparr>sv_Codec := overrideCodec o'\<rparr> else sel1);
              sel3 = (if targetOverride o' \<noteq> [] then sel2\<lparr>sv_Target := targetOverride o'\<rparr>
                      else sel2)
          in (serviceName o', sel3))"

section \<open>What the constructors guarantee\<close>

fun is_client_base :: "client_option option \<Rightarrow> bool" where
  "is_client_base (Some (WithClientOptions _)) = True"
| "is_client_base _ = False"

fun named_service :: "client_option option \<Rightarrow> string option" where
  "named_service (Some (WithServiceName n)) = Some n"
| "named_service _ = None"

fun named_filter :: "client_option option \<Rightarrow> nat option" where
  "named_filter (Some (WithOpenFilter f)) = Some f"
| "named_filter _ = None"

abbreviation apply_opt :: "client_option option \<Rightarrow> options \<Rightarrow> options" where
  "apply_opt o' \<equiv> (case o' of None \<Rightarrow> id | Some x \<Rightarrow> apply_client x)"

lemma client_base_filter:
  "None \<notin> set os \<Longrightarrow> client_base b (filter is_client_base os) = client_base b os"
  by (induction b os rule: client_base.induct) auto

lemma client_base_append:
  "client_base b (xs @ ys)
     = (case client_base b xs of Inl e \<Rightarrow> Inl e | Inr b' \<Rightarrow> client_base b' ys)"
  by (induction b xs rule: client_base.induct) auto

lemma client_base_no_base:
  "list_all (\<lambda>x. \<not> is_client_base x) os \<Longrightarrow> None \<notin> set os \<Longrightarrow> client_base b os = Inr b"
  by (induction b os rule: client_base.induct) auto

lemma client_base_nil:
  "None \<in> set os \<longleftrightarrow> client_base b os = Inl (ErrNew ''argos: nil ClientOption'')"
  by (induction b os rule: client_base.induct) auto

lemma fold_apply_filter:
  "fold apply_opt (filter (\<lambda>x. \<not> is_client_base x) os) = fold apply_opt os"
proof (induction os)
  case (Cons a os)
  have "apply_opt a = id" if "is_client_base a"
    using that by (cases a rule: is_client_base.cases) auto
  with Cons show ?case by auto
qed simp

lemma fold_apply_bases: "fold apply_opt (filter is_client_base os) = id"
proof (induction os)
  case (Cons a os)
  have "apply_opt a = id" if "is_client_base a"
    using that by (cases a rule: is_client_base.cases) auto
  with Cons show ?case by auto
qed simp

lemma client_base_moved:
  "client_base b (filter is_client_base os @ filter (\<lambda>x. \<not> is_client_base x) os) = client_base b os"
proof (cases "None \<in> set os")
  case True
  then have "None \<in> set (filter is_client_base os @ filter (\<lambda>x. \<not> is_client_base x) os)" by simp
  with True client_base_nil show ?thesis by metis
next
  case False
  obtain b' where b': "client_base b os = Inr b'"
    using False by (induction b os rule: client_base.induct) auto
  have "client_base b' (filter (\<lambda>x. \<not> is_client_base x) os) = Inr b'"
    using False by (intro client_base_no_base) (auto simp: list_all_iff)
  with False b' show ?thesis by (simp add: client_base_append client_base_filter)
qed

lemma fold_service_name:
  "serviceName (fold apply_opt os c)
     = (case rev (List.map_filter named_service os) of [] \<Rightarrow> serviceName c | n # _ \<Rightarrow> n)"
proof (induction os rule: rev_induct)
  case (snoc x os)
  then show ?case
    by (cases x; cases "the x") (auto simp: map_filter_simps List.map_filter_def)
qed (simp add: List.map_filter_def)

lemma fold_open_filters:
  "OpenFilters (fold apply_opt os c) = OpenFilters c @ List.map_filter named_filter os"
proof (induction os rule: rev_induct)
  case (snoc x os)
  then show ?case
    by (cases x; cases "the x") (auto simp: map_filter_simps List.map_filter_def)
qed (simp add: List.map_filter_def)

lemma options_finish_cases:
  "options_finish c = (if list_all (\<lambda>(_, v). 0 \<le> v) (limit_fields c) then Inr c
     else Inl (the (options_validate c)))"
  by (auto simp: options_finish_def fill_defaults_def options_validate_def Let_def
      find_None_iff list_all_iff split: option.splits)
    (metis (no_types, lifting) case_prodE find_None_iff not_less old.prod.case option.distinct(1))+

text \<open>
  \<open>ClientOptions\<close> is order independent in its base and isolates what belongs to one client.
  Moving every \<open>WithClientOptions\<close> to the front of the list does not change the result. When the
  list is accepted, no limit of the result is negative; the service selected is the one named by
  the last \<open>WithServiceName\<close> of this list (none when the list names none, whatever the base had
  selected); and the open filters are those of the base followed by those of the list, in order,
  where the base is the last non-nil one named, or the process default.
\<close>

lemma client_options_layered:
  "client_options dflt (filter is_client_base os @ filter (\<lambda>x. \<not> is_client_base x) os)
     = client_options dflt os
   \<and> (case client_options dflt os of
        Inl _ \<Rightarrow> True
      | Inr c \<Rightarrow>
          list_all (\<lambda>(_, v). 0 \<le> v) (limit_fields c)
          \<and> fst (selected_service (Some c))
              = (case rev (List.map_filter named_service os) of [] \<Rightarrow> [] | n # _ \<Rightarrow> n)
          \<and> (\<exists>b. client_base dflt os = Inr b
                \<and> OpenFilters c = OpenFilters b @ List.map_filter named_filter os))"
proof -
  have 1: "client_options dflt (filter is_client_base os @ filter (\<lambda>x. \<not> is_client_base x) os)
     = client_options dflt os"
    by (simp add: client_options_def client_base_moved fold_apply_filter fold_apply_bases
        split: sum.split)
  have sel: "fst (selected_service (Some c)) = serviceName c" for c
    by (simp add: selected_service_def Let_def)
  have cl: "serviceName (options_clone (Some b)) = []"
    "OpenFilters (options_clone (Some b)) = OpenFilters b" for b
    by (simp_all add: options_clone_def)
  show ?thesis
  proof (cases "client_options dflt os")
    case (Inr c)
    then obtain b where b: "client_base dflt os = Inr b"
      and f: "options_finish (fold apply_opt os (options_clone (Some b))) = Inr c"
      by (auto simp: client_options_def split: sum.splits)
    from f have c: "c = fold apply_opt os (options_clone (Some b))"
      and l: "list_all (\<lambda>(_, v). 0 \<le> v) (limit_fields c)"
      by (auto simp: options_finish_cases split: if_splits)
    have "serviceName c = (case rev (List.map_filter named_service os) of [] \<Rightarrow> [] | n # _ \<Rightarrow> n)"
      "OpenFilters c = OpenFilters b @ List.map_filter named_filter os"
      unfolding c by (simp_all add: fold_service_name fold_open_filters cl split: list.split)
    with 1 Inr b l sel show ?thesis by simp
  qed (use 1 in simp)
qed

end
