(* ===== verification/Admission.thy ===== *)
theory Admission
  imports Status
begin

text \<open>
  The two in-flight call limits: the server's \<open>admitGate\<close> (src/server/admit.go) and the client's
  counter (\<open>admit\<close> and \<open>releaseAdmit\<close> of src/client/client.go). A locale states what both promise
  to their callers. The server gate is also modelled section by section: between its critical
  sections and the channel operations other goroutines run, so the steps of many concurrent
  \<open>tryAdmit\<close>, \<open>release\<close> and \<open>close\<close> calls are interleaved freely.
\<close>

section \<open>The contract\<close>

datatype gate_op = GAdmit | GLeave

locale admission_gate =
  fixes admit :: "'g \<Rightarrow> go_error + 'g"
    and leave :: "'g \<Rightarrow> 'g"
    and in_use :: "'g \<Rightarrow> int"
    and limit :: "'g \<Rightarrow> int"
    and busy :: go_error
  assumes admit_room: "admit g = Inr g' \<Longrightarrow> 0 < limit g \<Longrightarrow> in_use g < limit g \<and> in_use g' = in_use g + 1"
    and admit_limit: "admit g = Inr g' \<Longrightarrow> limit g' = limit g"
    and admit_refused: "admit g = Inl e \<Longrightarrow> e = busy"
    and busy_code: "code_of (Some busy) = ResourceExhausted"
    and leave_le: "in_use (leave g) \<le> in_use g"
    and leave_exact: "0 < limit g \<Longrightarrow> 0 < in_use g \<Longrightarrow> in_use (leave g) = in_use g - 1"
    and leave_limit: "limit (leave g) = limit g"
begin

definition gate_step :: "gate_op \<Rightarrow> 'g \<Rightarrow> 'g" where
  "gate_step op g = (case op of GAdmit \<Rightarrow> (case admit g of Inl _ \<Rightarrow> g | Inr g' \<Rightarrow> g') | GLeave \<Rightarrow> leave g)"

lemma step_limit [simp]: "limit (gate_step op g) = limit g"
  by (auto simp: gate_step_def leave_limit split: gate_op.split sum.split dest: admit_limit)

lemma step_bounded:
  assumes "0 < limit g" "in_use g \<le> limit g"
  shows "in_use (gate_step op g) \<le> limit g"
  using assms leave_le [of g]
  by (auto simp: gate_step_def split: gate_op.split sum.split dest: admit_room)

lemma run_limit [simp]: "limit (run_steps gate_step ops g) = limit g"
  by (induction ops arbitrary: g) simp_all

lemma run_bounded:
  "0 < limit g \<Longrightarrow> in_use g \<le> limit g \<Longrightarrow> in_use (run_steps gate_step ops g) \<le> limit g"
proof (induction ops arbitrary: g)
  case (Cons op ops)
  show ?case
    using Cons.IH [of "gate_step op g"] Cons.prems step_bounded by simp
qed simp

lemma refused_code: "admit g = Inl e \<Longrightarrow> code_of (Some e) = ResourceExhausted"
  using admit_refused busy_code by simp

lemma admit_leave:
  "admit g = Inr g' \<Longrightarrow> 0 < limit g \<Longrightarrow> 0 \<le> in_use g \<Longrightarrow> in_use (leave g') = in_use g"
  using admit_room [of g g'] admit_limit [of g g'] leave_exact [of g'] by auto

end

section \<open>The client's counter\<close>

record client_gate =
  cg_MaxConcurrentCalls :: int
  cg_inFlight :: int

definition client_admit :: "client_gate \<Rightarrow> go_error + client_gate" where
  "client_admit c =
     (if 0 < cg_MaxConcurrentCalls c \<and> cg_MaxConcurrentCalls c \<le> cg_inFlight c
      then Inl err_calls_exhausted
      else Inr (c\<lparr>cg_inFlight := cg_inFlight c + 1\<rparr>))"

definition release_admit :: "client_gate \<Rightarrow> client_gate" where
  "release_admit c = (if 0 < cg_inFlight c then c\<lparr>cg_inFlight := cg_inFlight c - 1\<rparr> else c)"

interpretation client_limit:
  admission_gate client_admit release_admit cg_inFlight cg_MaxConcurrentCalls err_calls_exhausted
  by unfold_locales
    (auto simp: client_admit_def release_admit_def err_calls_exhausted_def code_of_def split: if_splits)

section \<open>The server's gate\<close>

text \<open>\<open>g_used\<close> is the number of elements in the channel \<open>slots\<close>, \<open>g_cap\<close> its capacity.\<close>

record admit_gate =
  g_cap :: int
  g_used :: int
  g_unlimited :: bool
  g_closed :: bool

definition new_admit_gate :: "int \<Rightarrow> admit_gate" where
  "new_admit_gate maxCalls =
     (if maxCalls \<le> 0 then \<lparr>g_cap = 0, g_used = 0, g_unlimited = True, g_closed = False\<rparr>
      else \<lparr>g_cap = maxCalls, g_used = 0, g_unlimited = False, g_closed = False\<rparr>)"

definition gate_check :: "admit_gate \<Rightarrow> go_error option" where
  "gate_check g = (if g_closed g then Some err_calls_exhausted else None)"

text \<open>The non-blocking send: Inr on success.\<close>

definition slot_send :: "admit_gate \<Rightarrow> go_error + admit_gate" where
  "slot_send g = (if g_used g < g_cap g then Inr (g\<lparr>g_used := g_used g + 1\<rparr>)
                  else Inl err_calls_exhausted)"

text \<open>The receive: None when it would block.\<close>

definition slot_recv :: "admit_gate \<Rightarrow> admit_gate option" where
  "slot_recv g = (if 0 < g_used g then Some (g\<lparr>g_used := g_used g - 1\<rparr>) else None)"

definition gate_close :: "admit_gate \<Rightarrow> admit_gate" where
  "gate_close g = g\<lparr>g_closed := True\<rparr>"

definition gate_release :: "admit_gate \<Rightarrow> admit_gate option" where
  "gate_release g = (if g_unlimited g then Some g else slot_recv g)"

text \<open>\<open>tryAdmit\<close> with no other goroutine in between.\<close>

definition try_admit :: "admit_gate \<Rightarrow> go_error + admit_gate" where
  "try_admit g =
     (case gate_check g of
        Some e \<Rightarrow> Inl e
      | None \<Rightarrow>
          if g_unlimited g then (case gate_check g of Some e \<Rightarrow> Inl e | None \<Rightarrow> Inr g)
          else
            (case slot_send g of
               Inl e \<Rightarrow> Inl e
             | Inr g' \<Rightarrow> (case gate_check g' of Some e \<Rightarrow> Inl e | None \<Rightarrow> Inr g')))"

definition gate_limit :: "admit_gate \<Rightarrow> int" where
  "gate_limit g = (if g_unlimited g then 0 else g_cap g)"

interpretation server_limit:
  admission_gate try_admit "\<lambda>g. case gate_release g of Some g' \<Rightarrow> g' | None \<Rightarrow> g" g_used gate_limit
    err_calls_exhausted
  by unfold_locales
    (auto simp: try_admit_def gate_check_def slot_send_def slot_recv_def gate_release_def gate_limit_def
      err_calls_exhausted_def code_of_def split: if_splits option.splits)

section \<open>Interleavings of the server's gate\<close>

text \<open>
  Calls are numbered. A call is checked once it has passed the first closed test, holds a slot
  between the channel send and the second test, is admitted from there to its first release.
  \<open>aw_blocked\<close> records that a receive found the channel empty.
\<close>

record admit_world =
  aw_gate :: admit_gate
  aw_seen :: "nat list"
  aw_checked :: "nat list"
  aw_reserved :: "nat list"
  aw_admitted :: "nat list"
  aw_refused :: "nat list"
  aw_blocked :: bool

datatype admit_event =
    AvCheck nat
  | AvSend nat
  | AvConfirm nat
  | AvRelease nat
  | AvClose

definition admit_start :: "int \<Rightarrow> admit_world" where
  "admit_start n = \<lparr>aw_gate = new_admit_gate n, aw_seen = [], aw_checked = [], aw_reserved = [],
     aw_admitted = [], aw_refused = [], aw_blocked = False\<rparr>"

definition refuse :: "nat \<Rightarrow> admit_world \<Rightarrow> admit_world" where
  "refuse t w = w\<lparr>aw_refused := t # aw_refused w\<rparr>"

definition give_back :: "(admit_gate \<Rightarrow> admit_gate option) \<Rightarrow> admit_world \<Rightarrow> admit_world" where
  "give_back f w = (case f (aw_gate w) of Some g \<Rightarrow> w\<lparr>aw_gate := g\<rparr> | None \<Rightarrow> w\<lparr>aw_blocked := True\<rparr>)"

fun adm_step :: "admit_event \<Rightarrow> admit_world \<Rightarrow> admit_world" where
  "adm_step (AvCheck t) w =
     (if t \<in> set (aw_seen w) then w
      else let w' = w\<lparr>aw_seen := t # aw_seen w\<rparr> in
           case gate_check (aw_gate w) of
             Some _ \<Rightarrow> refuse t w'
           | None \<Rightarrow> w'\<lparr>aw_checked := t # aw_checked w\<rparr>)"
| "adm_step (AvSend t) w =
     (if t \<notin> set (aw_checked w) then w
      else let w' = w\<lparr>aw_checked := remove1 t (aw_checked w)\<rparr> in
           if g_unlimited (aw_gate w) then
             (case gate_check (aw_gate w) of
                Some _ \<Rightarrow> refuse t w'
              | None \<Rightarrow> w'\<lparr>aw_admitted := t # aw_admitted w\<rparr>)
           else
             (case slot_send (aw_gate w) of
                Inl _ \<Rightarrow> refuse t w'
              | Inr g \<Rightarrow> w'\<lparr>aw_gate := g, aw_reserved := t # aw_reserved w\<rparr>))"
| "adm_step (AvConfirm t) w =
     (if t \<notin> set (aw_reserved w) then w
      else let w' = w\<lparr>aw_reserved := remove1 t (aw_reserved w)\<rparr> in
           case gate_check (aw_gate w) of
             Some _ \<Rightarrow> refuse t (give_back slot_recv w')
           | None \<Rightarrow> w'\<lparr>aw_admitted := t # aw_admitted w\<rparr>)"
| "adm_step (AvRelease t) w =
     (if t \<notin> set (aw_admitted w) then w
      else give_back gate_release (w\<lparr>aw_admitted := remove1 t (aw_admitted w)\<rparr>))"
| "adm_step AvClose w = w\<lparr>aw_gate := gate_close (aw_gate w)\<rparr>"

definition adm_inv :: "int \<Rightarrow> admit_world \<Rightarrow> bool" where
  "adm_inv n w \<longleftrightarrow>
     \<not> aw_blocked w
     \<and> (if 0 < n then \<not> g_unlimited (aw_gate w) \<and> g_cap (aw_gate w) = n
          \<and> g_used (aw_gate w) = int (length (aw_reserved w)) + int (length (aw_admitted w))
          \<and> g_used (aw_gate w) \<le> n
        else g_unlimited (aw_gate w) \<and> aw_reserved w = [])"

lemmas gate_defs = gate_check_def slot_send_def slot_recv_def gate_release_def gate_close_def
  refuse_def give_back_def adm_inv_def

lemma adm_step_inv: "adm_inv n w \<Longrightarrow> adm_inv n (adm_step e w)"
proof (cases e)
  case (AvConfirm t)
  assume i: "adm_inv n w"
  show ?thesis
  proof (cases "t \<in> set (aw_reserved w)")
    case True
    then have "0 < int (length (aw_reserved w)) + int (length (aw_admitted w))"
      by (cases "aw_reserved w") auto
    with True i show ?thesis
      by (auto simp: AvConfirm gate_defs length_remove1_int Let_def split: if_splits)
  qed (use i AvConfirm in simp)
next
  case (AvRelease t)
  assume i: "adm_inv n w"
  show ?thesis
  proof (cases "t \<in> set (aw_admitted w)")
    case True
    then have "0 < int (length (aw_reserved w)) + int (length (aw_admitted w))"
      by (cases "aw_admitted w") auto
    with True i show ?thesis
      by (auto simp: AvRelease gate_defs length_remove1_int split: if_splits)
  qed (use i AvRelease in simp)
qed (auto simp: gate_defs Let_def split: if_splits)

interpretation admit_machine: invariant_machine adm_step "adm_inv n" for n
  by unfold_locales (rule adm_step_inv)

lemma adm_inv_start: "adm_inv n (admit_start n)"
  by (simp add: admit_start_def new_admit_gate_def adm_inv_def)

lemma closed_step:
  "g_closed (aw_gate w) \<Longrightarrow>
     g_closed (aw_gate (adm_step e w)) \<and> set (aw_admitted (adm_step e w)) \<subseteq> set (aw_admitted w)"
  by (cases e) (auto simp: gate_defs Let_def dest: subsetD [OF set_remove1_subset] split: option.splits)

lemma closed_run:
  "g_closed (aw_gate w) \<Longrightarrow> set (aw_admitted (run_steps adm_step es w)) \<subseteq> set (aw_admitted w)"
proof (induction es arbitrary: w)
  case (Cons e es)
  from closed_step [OF Cons.prems, of e] Cons.IH [of "adm_step e w"] show ?case by auto
qed simp

text \<open>
  C4: the server never runs more calls than \<open>MaxConcurrentCalls\<close>, under every interleaving of
  concurrent admissions, confirmations, releases (repeated ones included) and shutdown. A limit of
  zero or less is no limit. The slots taken are always exactly those of admitted calls and of
  calls between the channel send and the second closed test, so none is lost or freed twice;
  the receive that frees a slot never blocks; and once the gate is closed no call is admitted any
  more, calls already past the first test included.
\<close>

theorem admission_bounded:
  "let w = run_steps adm_step es (admit_start n) in
     (n \<le> 0 \<or> int (length (aw_admitted w)) \<le> n)
     \<and> (if 0 < n then g_used (aw_gate w) = int (length (aw_reserved w)) + int (length (aw_admitted w))
        else g_unlimited (aw_gate w))
     \<and> \<not> aw_blocked w
     \<and> (if g_closed (aw_gate w)
        then set (aw_admitted (run_steps adm_step es' w)) \<subseteq> set (aw_admitted w) else True)"
proof -
  let ?w = "run_steps adm_step es (admit_start n)"
  have "adm_inv n ?w" by (rule admit_machine.run_inv [OF adm_inv_start])
  with closed_run [of ?w es'] show ?thesis
    by (auto simp: adm_inv_def Let_def split: if_splits)
qed

end
