(* ===== verification/Server.thy ===== *)
theory Server
  imports Descriptor Options Admission
begin

text \<open>
  Package \<open>server\<close>, construction and lifecycle (src/server/server.go, src/server/binding.go): the
  route table, the listen surfaces derived from the options, and the sections of \<open>Run\<close> and
  \<open>Shutdown\<close> that the mutex separates. Handlers are opaque values of type \<open>'h\<close>, None for a nil one.
  A Go map is an association list whose order is the order the range loops happen to take; the
  theorems hold for every such order.
\<close>

section \<open>Routes\<close>

record 'h route_entry =
  re_method :: rpc_method
  re_handler :: 'h

type_synonym 'h routes = "(string, (string, 'h route_entry) gomap) gomap"

record 'h server =
  srv_cfg :: options
  srv_cfgErr :: "go_error option"
  srv_admit :: admit_gate
  srv_routes :: "'h routes"
  srv_running :: bool
  srv_ran :: bool
  srv_stopped :: bool
  srv_runCtx :: "nat option"
  srv_serveErr :: "go_error option"

definition new_server :: "options \<Rightarrow> server_option option list \<Rightarrow> 'h server" where
  "new_server dflt os =
     (case server_options dflt os of
        Inr cfg \<Rightarrow>
          \<lparr>srv_cfg = cfg, srv_cfgErr = None, srv_admit = new_admit_gate (MaxConcurrentCalls cfg),
           srv_routes = [], srv_running = False, srv_ran = False, srv_stopped = False,
           srv_runCtx = None, srv_serveErr = None\<rparr>
      | Inl e \<Rightarrow>
          \<lparr>srv_cfg = defaults, srv_cfgErr = Some e, srv_admit = new_admit_gate (MaxConcurrentCalls defaults),
           srv_routes = [], srv_running = False, srv_ran = False, srv_stopped = False,
           srv_runCtx = None, srv_serveErr = None\<rparr>)"

definition methods_by_name :: "rpc_method list \<Rightarrow> (string, rpc_method) gomap" where
  "methods_by_name ms = fold (\<lambda>m. alist_put (m_name m) m) ms []"

fun bind_handlers ::
    "string \<Rightarrow> (string, rpc_method) gomap \<Rightarrow> (string, 'h option) gomap
     \<Rightarrow> (string, 'h route_entry) gomap \<Rightarrow> go_error + (string, 'h route_entry) gomap" where
  "bind_handlers svc byName [] entry = Inr entry"
| "bind_handlers svc byName ((name, h) # hs) entry =
     (case h of
        None \<Rightarrow> Inl (ErrNew (''server: nil handler for '' @ svc @ ''.'' @ name))
      | Some h' \<Rightarrow>
          (case map_of byName name of
             None \<Rightarrow> Inl (ErrNew (''server: handler for unknown method '' @ svc @ ''.'' @ name))
           | Some m \<Rightarrow>
               bind_handlers svc byName hs
                 (alist_put name \<lparr>re_method = m, re_handler = h'\<rparr> entry)))"

definition register ::
    "service \<Rightarrow> (string, 'h option) gomap \<Rightarrow> 'h server \<Rightarrow> go_error option \<times> 'h server" where
  "register d hs s =
     (if s_fullName d = [] then (Some (ErrNew ''server: empty service''), s)
      else if srv_ran s \<or> srv_running s then (Some (ErrNew ''server: Register after Run''), s)
      else if srv_stopped s then (Some (ErrNew ''server: closed''), s)
      else if map_of (srv_routes s) (s_fullName d) \<noteq> None then
        (Some (ErrNew (''server: service '' @ go_quote (s_fullName d) @ '' already registered'')), s)
      else
        (case bind_handlers (s_fullName d) (methods_by_name (s_methods d)) hs [] of
           Inl e \<Rightarrow> (Some e, s)
         | Inr entry \<Rightarrow>
             (case find (\<lambda>m. map_of entry (m_name m) = None) (s_methods d) of
                Some m \<Rightarrow> (Some (ErrNew (''server: missing handler for '' @ m_fullName m)), s)
              | None \<Rightarrow> (None, s\<lparr>srv_routes := alist_put (s_fullName d) entry (srv_routes s)\<rparr>))))"

definition split_method :: "string \<Rightarrow> (string \<times> string) option" where
  "split_method full =
     (case last_index_byte full dot of
        None \<Rightarrow> None
      | Some i \<Rightarrow>
          if i = 0 \<or> i = length full - 1 then None
          else Some (take i full, drop (Suc i) full))"

definition lookup :: "'h routes \<Rightarrow> string \<Rightarrow> 'h route_entry option" where
  "lookup routes fullMethod =
     (case split_method fullMethod of
        None \<Rightarrow> None
      | Some (svc, name) \<Rightarrow>
          (case map_of routes svc of None \<Rightarrow> None | Some methods \<Rightarrow> map_of methods name))"

definition clone_routes :: "'h routes \<Rightarrow> 'h routes" where
  "clone_routes rs = fold (\<lambda>(svc, ms). alist_put svc (fold (\<lambda>(k, v). alist_put k v) ms [])) rs []"

subsection \<open>Dispatch agrees with registration\<close>

lemma split_method_build:
  assumes "dot \<notin> set n" "n \<noteq> []" "s \<noteq> []"
  shows "split_method (s @ dot # n) = Some (s, n)"
  using assms by (simp add: split_method_def)

lemma split_method_full:
  "method_ok m \<Longrightarrow> split_method (m_fullName m) = Some (m_service m, m_name m)"
  by (simp add: method_ok_def split_method_build)

lemma split_method_Some:
  assumes "split_method full = Some (s, n)"
  shows "full = s @ dot # n \<and> dot \<notin> set n \<and> n \<noteq> [] \<and> s \<noteq> []"
proof -
  obtain i where i: "last_index_byte full dot = Some i" "i \<noteq> 0" "i \<noteq> length full - 1"
    "s = take i full" "n = drop (Suc i) full"
    using assms by (auto simp: split_method_def split: option.splits if_splits)
  note l = last_index_byte_Some [OF i(1)]
  have "full = s @ dot # n" using last_index_byte_split [OF i(1)] i(4,5) l by simp
  moreover have "dot \<notin> set n" using l i(5) by simp
  moreover have "n \<noteq> []" using l i(3,5) by auto
  moreover have "s \<noteq> []" using l i(2,4) by auto
  ultimately show ?thesis by blast
qed

lemma fold_put_map_of:
  "map_of (fold (\<lambda>m. alist_put (f m) (g m)) xs acc) k
     = (case find (\<lambda>m. f m = k) (rev xs) of Some m \<Rightarrow> Some (g m) | None \<Rightarrow> map_of acc k)"
proof (induction xs arbitrary: acc)
  case (Cons x xs)
  have "find P (ys @ [x]) = (case find P ys of Some y \<Rightarrow> Some y | None \<Rightarrow> if P x then Some x else None)"
    for P ys by (induction ys) auto
  with Cons show ?case by (auto split: option.splits)
qed simp

lemma find_by_key:
  "distinct (map f xs) \<Longrightarrow> find (\<lambda>m. f m = k) xs = Some y \<longleftrightarrow> y \<in> set xs \<and> f y = k"
  by (induction xs) auto

lemma find_rev_distinct:
  assumes "distinct (map f xs)"
  shows "find (\<lambda>m. f m = k) (rev xs) = find (\<lambda>m. f m = k) xs"
proof -
  have "distinct (map f (rev xs))" using assms by (simp add: rev_map [symmetric])
  then have "find (\<lambda>m. f m = k) (rev xs) = Some y \<longleftrightarrow> find (\<lambda>m. f m = k) xs = Some y" for y
    using find_by_key [of f xs k y] find_by_key [of f "rev xs" k y] assms by simp
  then show ?thesis by (cases "find (\<lambda>m. f m = k) xs") (auto simp del: find_Some_iff)
qed

lemma methods_by_name_lookup:
  "distinct (map m_name ms) \<Longrightarrow>
     map_of (methods_by_name ms) k = find (\<lambda>m. m_name m = k) ms"
  by (simp add: methods_by_name_def fold_put_map_of find_rev_distinct split: option.split)

lemma bind_handlers_lookup:
  assumes "bind_handlers svc bn hs acc = Inr entry" and "distinct (map fst hs)"
  shows "map_of entry k =
           (case map_of hs k of
              None \<Rightarrow> map_of acc k
            | Some h \<Rightarrow> Some \<lparr>re_method = the (map_of bn k), re_handler = the h\<rparr>)
         \<and> (\<forall>h. map_of hs k = Some h \<longrightarrow> h \<noteq> None \<and> map_of bn k \<noteq> None)"
  using assms
proof (induction hs arbitrary: acc)
  case (Cons x hs)
  obtain name h where x: "x = (name, h)" by (cases x)
  from Cons.prems x obtain h' m where m: "h = Some h'" "map_of bn name = Some m"
    "bind_handlers svc bn hs (alist_put name \<lparr>re_method = m, re_handler = h'\<rparr> acc) = Inr entry"
    by (auto split: option.splits)
  have d: "distinct (map fst hs)" and nn: "map_of hs name = None"
    using Cons.prems(2) x by (auto simp: map_of_eq_None_iff)
  from Cons.IH [OF m(3) d] m nn x show ?case by (auto split: option.splits)
qed simp

lemma register_ok:
  assumes "register d hs s = (None, s')" "distinct (map fst hs)" "distinct (map m_name (s_methods d))"
  shows "\<exists>entry. srv_routes s' = alist_put (s_fullName d) entry (srv_routes s)
           \<and> map_of (srv_routes s) (s_fullName d) = None
           \<and> (\<forall>k. map_of entry k =
                (case find (\<lambda>m. m_name m = k) (s_methods d) of
                   None \<Rightarrow> None
                 | Some m \<Rightarrow> map_option (\<lambda>h. \<lparr>re_method = m, re_handler = the h\<rparr>) (map_of hs k)))
           \<and> (\<forall>m \<in> set (s_methods d). \<exists>h. map_of hs (m_name m) = Some (Some h))"
proof -
  let ?bn = "methods_by_name (s_methods d)"
  obtain entry where e: "bind_handlers (s_fullName d) ?bn hs [] = Inr entry"
    "srv_routes s' = alist_put (s_fullName d) entry (srv_routes s)"
    "map_of (srv_routes s) (s_fullName d) = None"
    and f: "find (\<lambda>m. map_of entry (m_name m) = None) (s_methods d) = None"
    using assms(1) by (auto simp: register_def split: if_splits sum.splits option.splits)
  note b = bind_handlers_lookup [OF e(1) assms(2)]
  have k: "map_of entry k =
      (case find (\<lambda>m. m_name m = k) (s_methods d) of
         None \<Rightarrow> None
       | Some m \<Rightarrow> map_option (\<lambda>h. \<lparr>re_method = m, re_handler = the h\<rparr>) (map_of hs k))" for k
    using b [of k] methods_by_name_lookup [OF assms(3), of k]
    by (auto split: option.splits)
  have "\<exists>h. map_of hs (m_name m) = Some (Some h)" if "m \<in> set (s_methods d)" for m
  proof -
    have "map_of entry (m_name m) \<noteq> None" using f that by (auto simp: find_None_iff)
    with b [of "m_name m"] show ?thesis by (auto split: option.splits)
  qed
  with e k show ?thesis by blast
qed

text \<open>
  C18: calls are dispatched to exactly what was registered. After a successful \<open>Register\<close> of a
  service built with \<open>NewService\<close> from methods built with \<open>NewMethod\<close>, looking up the full name
  of one of its methods gives that method and the handler given under its short name, which is
  not nil; every other name is looked up as before, so services never shadow each other.
\<close>

theorem register_dispatch:
  assumes "register d hs s = (None, s')" and "distinct (map fst hs)"
    and "new_service f ms = Inr d"
    and "list_all (\<lambda>m. new_method (m_fullName m) (m_shape m) = Inr m) ms"
  shows "lookup (srv_routes s') full =
           (case find (\<lambda>m. m_fullName m = full) ms of
              Some m \<Rightarrow> map_option (\<lambda>h. \<lparr>re_method = m, re_handler = the h\<rparr>) (map_of hs (m_name m))
            | None \<Rightarrow> lookup (srv_routes s) full)
         \<and> list_all (\<lambda>m. \<exists>h. map_of hs (m_name m) = Some (Some h)) ms"
proof -
  have d: "d = \<lparr>s_fullName = f, s_methods = ms\<rparr>" "\<forall>m \<in> set ms. m_service m = f"
    "distinct (map m_name ms)" using assms(3) by (auto simp: new_service_iff)
  have ok: "\<forall>m \<in> set ms. method_ok m" using assms(4) new_method_ok by (auto simp: list_all_iff)
  obtain entry where e: "srv_routes s' = alist_put f entry (srv_routes s)"
    "map_of (srv_routes s) f = None"
    "\<And>k. map_of entry k = (case find (\<lambda>m. m_name m = k) ms of None \<Rightarrow> None
       | Some m \<Rightarrow> map_option (\<lambda>h. \<lparr>re_method = m, re_handler = the h\<rparr>) (map_of hs k))"
    and h: "\<forall>m \<in> set ms. \<exists>h. map_of hs (m_name m) = Some (Some h)"
    using register_ok [OF assms(1,2)] d by auto
  have df: "distinct (map m_fullName ms)" by (rule new_service_distinct_full [OF assms(3) ok])
  show ?thesis
  proof (cases "find (\<lambda>m. m_fullName m = full) ms")
    case (Some m)
    then have m: "m \<in> set ms" "m_fullName m = full" using find_by_key [OF df, of full m] by auto
    then have "split_method full = Some (f, m_name m)" using split_method_full ok d(2) by metis
    moreover have "find (\<lambda>x. m_name x = m_name m) ms = Some m"
      using find_by_key [OF d(3), of "m_name m" m] m(1) by simp
    ultimately show ?thesis using Some e h by (simp add: lookup_def list_all_iff)
  next
    case None
    have "lookup (srv_routes s') full = lookup (srv_routes s) full"
    proof (cases "split_method full")
      case (Some p)
      obtain sv n where p: "p = (sv, n)" by (cases p)
      have "find (\<lambda>m. m_name m = n) ms = None" if "sv = f"
      proof (rule ccontr)
        assume "find (\<lambda>m. m_name m = n) ms \<noteq> None"
        then obtain m where m: "m \<in> set ms" "m_name m = n" by (auto simp: find_None_iff)
        have "full = f @ dot # n" using split_method_Some [of full] Some p that by simp
        then have "m_fullName m = full" using m ok d(2) by (auto simp: method_ok_def)
        with None m show False by (auto simp: find_None_iff)
      qed
      with Some p e show ?thesis by (auto simp: lookup_def)
    qed (simp add: lookup_def)
    with None h show ?thesis by (simp add: list_all_iff)
  qed
qed

definition demo_server :: "nat server" where
  "demo_server = new_server defaults []"

definition demo_service :: service where
  "demo_service = \<lparr>s_fullName = ''a.S'', s_methods = demo_methods\<rparr>"

definition demo_handlers :: "(string, nat option) gomap" where
  "demo_handlers = map (\<lambda>m. (m_name m, Some (length (m_name m)))) demo_methods"

lemma register_dispatch_witness:
  "lookup (srv_routes (snd (register demo_service demo_handlers demo_server))) ''a.S.X''
     = map_option (\<lambda>h. \<lparr>re_method = hd demo_methods, re_handler = the h\<rparr>) (map_of demo_handlers ''X'')"
proof -
  have 1: "register demo_service demo_handlers demo_server
      = (None, snd (register demo_service demo_handlers demo_server))" by code_simp
  have 2: "distinct (map fst demo_handlers)" by code_simp
  have 3: "new_service ''a.S'' demo_methods = Inr demo_service" by code_simp
  have 4: "list_all (\<lambda>m. new_method (m_fullName m) (m_shape m) = Inr m) demo_methods" by code_simp
  have 5: "find (\<lambda>m. m_fullName m = ''a.S.X'') demo_methods = Some (hd demo_methods)"
    by code_simp
  have 6: "m_name (hd demo_methods) = ''X''" by code_simp
  show ?thesis
    using register_dispatch [OF 1 2 3 4, of "''a.S.X''"] 5 6 by simp
qed

section \<open>Listen surfaces\<close>

record listen_reg =
  lr_stack :: service_options
  lr_cfg :: options
  lr_name :: string

fun plan_regs ::
    "options \<Rightarrow> string \<Rightarrow> nat \<Rightarrow> service_listen_plan list \<Rightarrow> string list
     \<Rightarrow> string list \<times> listen_reg list" where
  "plan_regs cfg svc i [] seen = (seen, [])"
| "plan_regs cfg svc i (p # ps) seen =
     (let key = service_listen_key (pn_Address p) (pn_Stack p) in
      if key \<in> set seen then plan_regs cfg svc (Suc i) ps seen
      else
        let cfg' = (if pn_Address p \<noteq> [] \<and> pn_Address p \<noteq> o_ListenAddress cfg
                    then (options_clone (Some cfg))\<lparr>o_ListenAddress := pn_Address p\<rparr> else cfg);
            (seen', regs) = plan_regs cfg svc (Suc i) ps (key # seen) in
        (seen', \<lparr>lr_stack = pn_Stack p, lr_cfg = cfg', lr_name = svc @ ''-'' @ nat_str i\<rparr> # regs))"

fun listen_regs ::
    "options \<Rightarrow> 'h routes \<Rightarrow> string list \<Rightarrow> go_error + listen_reg list" where
  "listen_regs cfg [] seen = Inr []"
| "listen_regs cfg ((svc, ms) # rs) seen =
     (case map_of (Services cfg) svc of
        None \<Rightarrow> Inl (ErrNew (''server: service '' @ go_quote svc
                  @ '' registered but missing from Options.Services''))
      | Some sc \<Rightarrow>
          (case server_listen_plans sc (o_ListenAddress cfg) of
             Inl e \<Rightarrow> Inl (ErrWrap (''server: service '' @ go_quote svc @ '': '' @ err_text e) [e])
           | Inr plans \<Rightarrow>
               (case plan_regs cfg svc 0 plans seen of
                  (seen', regs) \<Rightarrow>
                    (case listen_regs cfg rs seen' of
                       Inl e \<Rightarrow> Inl e
                     | Inr regs' \<Rightarrow> Inr (regs @ regs')))))"

definition build_listen_regs :: "'h server \<Rightarrow> go_error + listen_reg list" where
  "build_listen_regs s = listen_regs (srv_cfg s) (srv_routes s) []"

definition reg_key :: "listen_reg \<Rightarrow> string" where
  "reg_key r = service_listen_key (o_ListenAddress (lr_cfg r)) (lr_stack r)"

definition plan_key :: "service_listen_plan \<Rightarrow> string" where
  "plan_key p = service_listen_key (pn_Address p) (pn_Stack p)"

lemma plan_regs_keys:
  assumes "plan_regs cfg svc i ps seen = (seen', regs)" and "list_all (\<lambda>p. pn_Address p \<noteq> []) ps"
  shows "seen' = rev (map reg_key regs) @ seen \<and> distinct (map reg_key regs)
         \<and> set (map reg_key regs) \<inter> set seen = {}
         \<and> set seen' = set seen \<union> set (map plan_key ps)"
  using assms
proof (induction ps arbitrary: i seen seen' regs)
  case (Cons p ps)
  let ?k = "service_listen_key (pn_Address p) (pn_Stack p)"
  show ?case
  proof (cases "?k \<in> set seen")
    case True
    with Cons.IH [of "Suc i" seen seen' regs] Cons.prems show ?thesis
      by (auto simp: plan_key_def)
  next
    case False
    let ?cfg = "if pn_Address p \<noteq> [] \<and> pn_Address p \<noteq> o_ListenAddress cfg
       then (options_clone (Some cfg))\<lparr>o_ListenAddress := pn_Address p\<rparr> else cfg"
    obtain regs1 where r: "plan_regs cfg svc (Suc i) ps (?k # seen) = (seen', regs1)"
      "regs = \<lparr>lr_stack = pn_Stack p, lr_cfg = ?cfg, lr_name = svc @ ''-'' @ nat_str i\<rparr> # regs1"
      using Cons.prems(1) False by (auto simp: Let_def split: prod.splits)
    have "o_ListenAddress ?cfg = pn_Address p" using Cons.prems(2) by auto
    then have k: "map reg_key regs = ?k # map reg_key regs1" using r(2) by (simp add: reg_key_def)
    have "list_all (\<lambda>p. pn_Address p \<noteq> []) ps" using Cons.prems(2) by simp
    from Cons.IH [OF r(1) this] k False show ?thesis by (auto simp: plan_key_def)
  qed
qed simp

lemma plans_addressed:
  "server_listen_plans sc fb = Inr ps \<Longrightarrow> list_all (\<lambda>p. pn_Address p \<noteq> []) ps"
proof (cases "sv_Listeners sc = []")
  case True
  then show "server_listen_plans sc fb = Inr ps \<Longrightarrow> ?thesis"
    by (auto simp: server_listen_plans_def Let_def split: option.splits if_splits)
next
  case False
  with listener_plans_exact [of fb "sv_Listeners sc"]
  show "server_listen_plans sc fb = Inr ps \<Longrightarrow> ?thesis"
    by (auto simp: server_listen_plans_def list_all_iff plan_surface_def)
qed

lemma listen_plans_nonempty: "server_listen_plans sc fb = Inr ps \<Longrightarrow> ps \<noteq> []"
  using listener_plans_exact [of fb "sv_Listeners sc"]
  by (auto simp: server_listen_plans_def Let_def split: option.splits if_splits)

definition service_plans :: "options \<Rightarrow> string \<Rightarrow> service_listen_plan list" where
  "service_plans cfg svc =
     (case map_of (Services cfg) svc of
        None \<Rightarrow> []
      | Some sc \<Rightarrow> (case server_listen_plans sc (o_ListenAddress cfg) of Inl _ \<Rightarrow> [] | Inr ps \<Rightarrow> ps))"

lemma listen_regs_keys:
  assumes "listen_regs cfg rs seen = Inr regs"
  shows "distinct (map reg_key regs) \<and> set (map reg_key regs) \<inter> set seen = {}
         \<and> set seen \<union> set (map reg_key regs)
             = set seen \<union> (\<Union>x \<in> set rs. set (map plan_key (service_plans cfg (fst x))))"
  using assms
proof (induction rs arbitrary: seen regs)
  case (Cons x rs)
  obtain svc ms where x: "x = (svc, ms)" by (cases x)
  from Cons.prems x obtain sc plans seen1 regs1 regs2 where
    p: "map_of (Services cfg) svc = Some sc" "server_listen_plans sc (o_ListenAddress cfg) = Inr plans"
    and r: "plan_regs cfg svc 0 plans seen = (seen1, regs1)" "listen_regs cfg rs seen1 = Inr regs2"
      "regs = regs1 @ regs2"
    by (auto split: option.splits sum.splits prod.splits)
  have sp: "service_plans cfg (fst x) = plans" using p x by (simp add: service_plans_def)
  note 1 = plan_regs_keys [OF r(1) plans_addressed [OF p(2)]]
  note 2 = Cons.IH [OF r(2)]
  let ?K = "set (map reg_key regs1)" and ?P = "set (map plan_key plans)"
    and ?U = "\<Union>x \<in> set rs. set (map plan_key (service_plans cfg (fst x)))"
  have s1: "set seen1 = ?K \<union> set seen" "set seen1 = set seen \<union> ?P" using 1 by auto
  have "set seen1 \<union> set (map reg_key regs2) = set seen1 \<union> ?U" using 2 by blast
  then have "set seen \<union> set (map reg_key regs) = set seen \<union> (?P \<union> ?U)"
    unfolding r(3) map_append set_append using s1 by blast
  moreover have "(\<Union>x \<in> set (x # rs). set (map plan_key (service_plans cfg (fst x)))) = ?P \<union> ?U"
    using sp by simp
  moreover have i: "set (map reg_key regs2) \<inter> (?K \<union> set seen) = {}" using 2 s1(1) by metis
  moreover have "distinct (map reg_key regs)"
    unfolding r(3) map_append distinct_append using 1 2 i by blast
  moreover have "set (map reg_key regs) \<inter> set seen = {}"
    unfolding r(3) map_append set_append using 1 i by blast
  ultimately show ?case by simp
qed simp

lemma listen_regs_planned:
  "listen_regs cfg rs seen = Inr q \<Longrightarrow> list_all (\<lambda>x. service_plans cfg (fst x) \<noteq> []) rs"
proof (induction rs arbitrary: seen q)
  case (Cons y rs)
  obtain svc ms where y: "y = (svc, ms)" by (cases y)
  from Cons.prems y obtain sc plans seen1 regs1 regs2 where
    p: "map_of (Services cfg) svc = Some sc" "server_listen_plans sc (o_ListenAddress cfg) = Inr plans"
    and r: "listen_regs cfg rs seen1 = Inr regs2"
    by (auto split: option.splits sum.splits prod.splits)
  from listen_plans_nonempty [OF p(2)] Cons.IH [OF r] p y show ?case
    by (simp add: service_plans_def)
qed simp

text \<open>
  \<open>Run\<close> serves every listen surface of every registered service exactly once. When the
  surfaces can be built, no two of the resulting listeners share an address, transport and codec
  (their keys are pairwise different), and their keys are exactly those of the planned surfaces
  of the registered services, so none is left out and none is invented; every registered service
  has at least one.
\<close>

lemma listen_regs_cover:
  "case build_listen_regs s of
     Inl _ \<Rightarrow> srv_routes s \<noteq> []
   | Inr regs \<Rightarrow>
       distinct (map reg_key regs)
       \<and> set (map reg_key regs)
           = (\<Union>x \<in> set (srv_routes s). set (map plan_key (service_plans (srv_cfg s) (fst x))))
       \<and> list_all (\<lambda>x. service_plans (srv_cfg s) (fst x) \<noteq> []) (srv_routes s)"
proof (cases "build_listen_regs s")
  case (Inl e)
  then show ?thesis by (auto simp: build_listen_regs_def)
next
  case (Inr regs)
  from Inr listen_regs_keys [of "srv_cfg s" "srv_routes s" "[]" regs]
    listen_regs_planned [of "srv_cfg s" "srv_routes s" "[]" regs]
  show ?thesis by (simp add: build_listen_regs_def)
qed

section \<open>Bindings\<close>

text \<open>
  Transports and codecs are the opaque products of the registries; \<open>axisName\<close> is the transport's
  \<open>CodecName\<close>, \<open>codecName\<close> the name a codec that implements \<open>Named\<close> reports.
\<close>

definition new_binding ::
    "'t registry \<Rightarrow> 'c registry \<Rightarrow> ('t \<Rightarrow> string) \<Rightarrow> ('c \<Rightarrow> string option) \<Rightarrow> string \<Rightarrow> service_options
     \<Rightarrow> go_error + 't \<times> 'c" where
  "new_binding treg creg axisName codecName name sc =
     (case assemble_transport treg sc of
        Inl e \<Rightarrow> Inl e
      | Inr tr \<Rightarrow>
          (case assemble_codec creg sc of
             Inl e \<Rightarrow> Inl e
           | Inr cd \<Rightarrow>
               (case check_codec_name name (axisName tr) (codecName cd) of
                  Some e \<Rightarrow> Inl e
                | None \<Rightarrow> Inr (tr, cd))))"

record ('t, 'c) live_binding =
  lb_name :: string
  lb_transport :: 't
  lb_codec :: 'c
  lb_cfg :: options

fun bind_all ::
    "(string \<Rightarrow> service_options \<Rightarrow> go_error + 't \<times> 'c) \<Rightarrow> listen_reg list
     \<Rightarrow> go_error + ('t, 'c) live_binding list" where
  "bind_all mk [] = Inr []"
| "bind_all mk (r # rs) =
     (case mk (lr_name r) (lr_stack r) of
        Inl e \<Rightarrow> Inl (ErrWrap (''server: listen '' @ go_quote (lr_name r) @ '': '' @ err_text e) [e])
      | Inr (tr, cd) \<Rightarrow>
          (case bind_all mk rs of
             Inl e \<Rightarrow> Inl e
           | Inr ls \<Rightarrow>
               Inr (\<lparr>lb_name = lr_name r, lb_transport = tr, lb_codec = cd, lb_cfg = lr_cfg r\<rparr> # ls)))"

lemma new_binding_codec:
  assumes "new_binding treg creg an cn name sc = Inr (tr, cd)"
  shows "sv_Transport sc \<noteq> [] \<and> sv_Codec sc \<noteq> []
         \<and> (an tr = [] \<or> cn cd = None \<or> cn cd = Some (an tr))"
  using assms
  by (auto simp: new_binding_def assemble_transport_def check_complete_def check_codec_name_def
      split: sum.splits option.splits if_splits)

text \<open>
  Every surface that goes live pairs a transport with a codec that matches: \<open>Run\<close> binds all
  the surfaces or none, in order, under their own names and options, and on each one the codec
  name the transport carries on the wire is the name the codec reports, unless one of the two has
  no name.
\<close>

lemma bindings_match:
  "case bind_all (new_binding treg creg an cn) regs of
     Inl _ \<Rightarrow> list_ex (\<lambda>r. isl (new_binding treg creg an cn (lr_name r) (lr_stack r))) regs
   | Inr ls \<Rightarrow>
       map (\<lambda>l. (lb_name l, lb_cfg l)) ls = map (\<lambda>r. (lr_name r, lr_cfg r)) regs
       \<and> list_all (\<lambda>l. an (lb_transport l) = [] \<or> cn (lb_codec l) = None
                        \<or> cn (lb_codec l) = Some (an (lb_transport l))) ls"
proof (induction regs)
  case (Cons r regs)
  then show ?case
    by (auto split: sum.splits dest: new_binding_codec)
qed simp

section \<open>Run and Shutdown\<close>

text \<open>
  \<open>Run\<close> holds the mutex in four sections: it enters, then either aborts a start that failed to
  bind or launches the surfaces, and finishes after they have ended. \<open>nilCtx\<close> is a nil context;
  the context made for a run is named by the goroutine that runs it.
\<close>

definition run_enter ::
    "nat \<Rightarrow> bool \<Rightarrow> 'h server \<Rightarrow> go_error + (listen_reg list \<times> 'h routes \<times> 'h server)" where
  "run_enter t nilCtx s =
     (case srv_cfgErr s of
        Some e \<Rightarrow> Inl e
      | None \<Rightarrow>
          if nilCtx then Inl (ErrNew ''server: nil context'')
          else if srv_stopped s then Inl (ErrNew ''server: closed'')
          else if srv_ran s \<or> srv_running s then Inl (ErrNew ''server: Run already called'')
          else
            (case build_listen_regs s of
               Inl e \<Rightarrow> Inl e
             | Inr regs \<Rightarrow>
                 if regs = [] then Inl (ErrNew ''server: no registered services'')
                 else Inr (regs, clone_routes (srv_routes s),
                           s\<lparr>srv_running := True, srv_runCtx := Some t\<rparr>)))"

definition run_abort :: "'h server \<Rightarrow> 'h server" where
  "run_abort s = s\<lparr>srv_running := False, srv_runCtx := None\<rparr>"

definition run_launch :: "'h server \<Rightarrow> 'h server" where
  "run_launch s = s\<lparr>srv_ran := True\<rparr>"

text \<open>A surface that ended with an error while the run context was live: the first one is kept.\<close>

definition serve_failed :: "go_error \<Rightarrow> 'h server \<Rightarrow> 'h server" where
  "serve_failed e s = s\<lparr>srv_serveErr := (case srv_serveErr s of None \<Rightarrow> Some e | Some e' \<Rightarrow> Some e')\<rparr>"

definition run_finish :: "'h server \<Rightarrow> 'h server" where
  "run_finish s = s\<lparr>srv_running := False, srv_admit := gate_close (srv_admit s)\<rparr>"

definition err_server_shutdown :: go_error where "err_server_shutdown = ErrVar ''server: shutdown''"
definition err_peer_gone :: go_error where "err_peer_gone = ErrVar ''server: peer gone''"
definition err_session_expired :: go_error where
  "err_session_expired = ErrVar ''server: session expired''"

text \<open>What \<open>Run\<close> returns, from the cause of its context and the error of the caller's context.\<close>

definition run_result :: "'h server \<Rightarrow> go_error option \<Rightarrow> go_error option \<Rightarrow> go_error option" where
  "run_result s cause ctxErr =
     (case srv_serveErr s of
        Some e \<Rightarrow> Some e
      | None \<Rightarrow>
          (case cause of
             Some c \<Rightarrow> if \<not> errors_is c ctx_Canceled \<and> \<not> errors_is c err_server_shutdown then Some c
                       else ctxErr
           | None \<Rightarrow> ctxErr))"

definition shutdown_begin :: "'h server \<Rightarrow> bool \<times> nat option \<times> 'h server" where
  "shutdown_begin s =
     (srv_running s, srv_runCtx s,
      s\<lparr>srv_stopped := True, srv_admit := gate_close (srv_admit s)\<rparr>)"

subsection \<open>Interleavings of the sections\<close>

text \<open>
  Goroutines that call \<open>Run\<close> are numbered. \<open>rw_binding\<close> are those between entering and the
  outcome of binding, \<open>rw_serving\<close> those that launched their surfaces and have not returned,
  \<open>rw_launched\<close> all that ever launched. \<open>rw_frozen\<close> is the route table the run took its copy of.
\<close>

record 'h run_world =
  rw_server :: "'h server"
  rw_binding :: "nat list"
  rw_serving :: "nat list"
  rw_launched :: "nat list"
  rw_frozen :: "'h routes option"

datatype 'h run_event =
    RvRegister service "(string, 'h option) gomap"
  | RvRun nat bool
  | RvAbort nat
  | RvLaunch nat
  | RvServeFail go_error
  | RvFinish nat
  | RvShutdown

definition run_start :: "options \<Rightarrow> server_option option list \<Rightarrow> 'h run_world" where
  "run_start dflt os = \<lparr>rw_server = new_server dflt os, rw_binding = [], rw_serving = [],
     rw_launched = [], rw_frozen = None\<rparr>"

fun rw_step :: "'h run_event \<Rightarrow> 'h run_world \<Rightarrow> 'h run_world" where
  "rw_step (RvRegister d hs) w = w\<lparr>rw_server := snd (register d hs (rw_server w))\<rparr>"
| "rw_step (RvRun t nilCtx) w =
     (case run_enter t nilCtx (rw_server w) of
        Inl _ \<Rightarrow> w
      | Inr (regs, rts, s) \<Rightarrow>
          w\<lparr>rw_server := s, rw_binding := t # rw_binding w, rw_frozen := Some (srv_routes s)\<rparr>)"
| "rw_step (RvAbort t) w =
     (if t \<notin> set (rw_binding w) then w
      else w\<lparr>rw_server := run_abort (rw_server w), rw_binding := remove1 t (rw_binding w),
              rw_frozen := None\<rparr>)"
| "rw_step (RvLaunch t) w =
     (if t \<notin> set (rw_binding w) then w
      else w\<lparr>rw_server := run_launch (rw_server w), rw_binding := remove1 t (rw_binding w),
              rw_serving := t # rw_serving w, rw_launched := t # rw_launched w\<rparr>)"
| "rw_step (RvServeFail e) w =
     (if rw_serving w = [] then w else w\<lparr>rw_server := serve_failed e (rw_server w)\<rparr>)"
| "rw_step (RvFinish t) w =
     (if t \<notin> set (rw_serving w) then w
      else w\<lparr>rw_server := run_finish (rw_server w), rw_serving := remove1 t (rw_serving w)\<rparr>)"
| "rw_step RvShutdown w = w\<lparr>rw_server := snd (snd (shutdown_begin (rw_server w)))\<rparr>"

definition rw_inv :: "'h run_world \<Rightarrow> bool" where
  "rw_inv w \<longleftrightarrow>
     (let s = rw_server w; n = length (rw_binding w) + length (rw_serving w) in
      n \<le> 1 \<and> (srv_running s \<longleftrightarrow> n = 1)
      \<and> length (rw_launched w) = (if srv_ran s then 1 else 0)
      \<and> (rw_serving w \<noteq> [] \<longrightarrow> srv_ran s) \<and> (rw_binding w \<noteq> [] \<longrightarrow> \<not> srv_ran s)
      \<and> (srv_running s \<or> srv_ran s \<longrightarrow> rw_frozen w = Some (srv_routes s))
      \<and> (srv_ran s \<and> \<not> srv_running s \<or> srv_stopped s \<longrightarrow> g_closed (srv_admit s)))"

lemma register_running:
  "srv_running s \<or> srv_ran s \<or> srv_stopped s \<Longrightarrow> snd (register d hs s) = s"
  by (auto simp: register_def)

lemma register_frame:
  "srv_running (snd (register d hs s)) = srv_running s \<and> srv_ran (snd (register d hs s)) = srv_ran s
   \<and> srv_stopped (snd (register d hs s)) = srv_stopped s
   \<and> srv_admit (snd (register d hs s)) = srv_admit s"
  by (auto simp: register_def split: sum.splits option.splits)

lemma run_enter_Inr:
  "run_enter t c s = Inr (regs, rts, s') \<Longrightarrow>
     \<not> srv_stopped s \<and> \<not> srv_ran s \<and> \<not> srv_running s \<and> regs \<noteq> [] \<and> rts = clone_routes (srv_routes s)
     \<and> s' = s\<lparr>srv_running := True, srv_runCtx := Some t\<rparr>"
  by (auto simp: run_enter_def split: option.splits if_splits sum.splits)

lemma length_one: "length xs \<le> 1 \<Longrightarrow> t \<in> set xs \<Longrightarrow> xs = [t]"
  by (cases xs) auto

lemma rw_step_inv: "rw_inv w \<Longrightarrow> rw_inv (rw_step e w)"
proof (cases e)
  case (RvRegister d hs)
  assume i: "rw_inv w"
  show ?thesis
  proof (cases "srv_running (rw_server w) \<or> srv_ran (rw_server w) \<or> srv_stopped (rw_server w)")
    case True
    with i show ?thesis by (simp add: RvRegister register_running)
  next
    case False
    with i register_frame [of d hs "rw_server w"] show ?thesis
      by (simp add: RvRegister rw_inv_def Let_def)
  qed
next
  case (RvRun t c)
  assume i: "rw_inv w"
  show ?thesis
  proof (cases "run_enter t c (rw_server w)")
    case (Inr x)
    obtain regs rts s where x: "x = (regs, rts, s)" by (cases x)
    note r = run_enter_Inr [of t c "rw_server w" regs rts s]
    have "length (rw_binding w) + length (rw_serving w) \<le> 1"
      "length (rw_binding w) + length (rw_serving w) \<noteq> 1"
      using i r Inr x by (auto simp: rw_inv_def Let_def)
    then have "length (rw_binding w) + length (rw_serving w) = 0" by arith
    then have "rw_binding w = []" "rw_serving w = []" by auto
    with r Inr x i show ?thesis by (auto simp: RvRun rw_inv_def Let_def)
  qed (use i RvRun in simp)
next
  case (RvAbort t)
  assume i: "rw_inv w"
  show ?thesis
  proof (cases "t \<in> set (rw_binding w)")
    case True
    then have "rw_binding w = [t]" using i length_one by (fastforce simp: rw_inv_def Let_def)
    with i show ?thesis by (auto simp: RvAbort rw_inv_def run_abort_def Let_def)
  qed (use i RvAbort in simp)
next
  case (RvLaunch t)
  assume i: "rw_inv w"
  show ?thesis
  proof (cases "t \<in> set (rw_binding w)")
    case True
    then have "rw_binding w = [t]" using i length_one by (fastforce simp: rw_inv_def Let_def)
    with i show ?thesis by (auto simp: RvLaunch rw_inv_def run_launch_def Let_def)
  qed (use i RvLaunch in simp)
next
  case (RvFinish t)
  assume i: "rw_inv w"
  show ?thesis
  proof (cases "t \<in> set (rw_serving w)")
    case True
    then have "rw_serving w = [t]" using i length_one by (fastforce simp: rw_inv_def Let_def)
    with i show ?thesis by (auto simp: RvFinish rw_inv_def run_finish_def gate_close_def Let_def)
  qed (use i RvFinish in simp)
qed (auto simp: rw_inv_def serve_failed_def shutdown_begin_def gate_close_def Let_def)

interpretation run_machine: invariant_machine rw_step rw_inv
  by unfold_locales (rule rw_step_inv)

lemma rw_inv_start: "rw_inv (run_start dflt os)"
  by (auto simp: rw_inv_def run_start_def new_server_def Let_def split: sum.splits)

lemma stopped_step:
  "srv_stopped (rw_server w) \<Longrightarrow>
     srv_stopped (rw_server (rw_step e w)) \<and> set (rw_binding (rw_step e w)) \<subseteq> set (rw_binding w)
     \<and> srv_routes (rw_server (rw_step e w)) = srv_routes (rw_server w)"
proof (cases e)
  case (RvRun t c)
  assume "srv_stopped (rw_server w)"
  with run_enter_Inr [of t c "rw_server w"] show ?thesis
    by (cases "run_enter t c (rw_server w)") (auto simp: RvRun)
next
  case (RvAbort t)
  assume "srv_stopped (rw_server w)"
  then show ?thesis
    by (auto simp: RvAbort run_abort_def dest: subsetD [OF set_remove1_subset])
next
  case (RvLaunch t)
  assume "srv_stopped (rw_server w)"
  then show ?thesis
    by (auto simp: RvLaunch run_launch_def dest: subsetD [OF set_remove1_subset])
qed (auto simp: register_running run_abort_def run_launch_def serve_failed_def run_finish_def
    shutdown_begin_def)

lemma stopped_run:
  "srv_stopped (rw_server w) \<Longrightarrow>
     set (rw_binding (run_steps rw_step es w)) \<subseteq> set (rw_binding w)
     \<and> srv_routes (rw_server (run_steps rw_step es w)) = srv_routes (rw_server w)"
proof (induction es arbitrary: w)
  case (Cons e es)
  from stopped_step [OF Cons.prems, of e] Cons.IH [of "rw_step e w"] show ?case by auto
qed simp

text \<open>
  C16: a \<open>Server\<close> serves at most once, under every interleaving of \<open>Register\<close>, concurrent \<open>Run\<close>
  calls, failed starts, surfaces that fail and \<open>Shutdown\<close>. At most one \<open>Run\<close> is past its first
  section, and at most one ever launches; while one runs, and after it, the route table is the one
  it copied; the admission gate is closed once the run has ended or the server was stopped; and
  after \<open>Shutdown\<close> no further \<open>Run\<close> enters and no service is added.
\<close>

theorem serves_at_most_once:
  "let w = run_steps rw_step es (run_start dflt os); s = rw_server w;
       w' = run_steps rw_step es' w in
     length (rw_binding w) + length (rw_serving w) \<le> 1 \<and> length (rw_launched w) \<le> 1
     \<and> (if srv_running s \<or> srv_ran s then rw_frozen w = Some (srv_routes s) else True)
     \<and> (if srv_stopped s then g_closed (srv_admit s)
          \<and> set (rw_binding w') \<subseteq> set (rw_binding w) \<and> srv_routes (rw_server w') = srv_routes s
        else True)
     \<and> (if srv_ran s \<and> rw_serving w = [] then g_closed (srv_admit s) else True)"
proof -
  let ?w = "run_steps rw_step es (run_start dflt os)"
  have "rw_inv ?w" by (rule run_machine.run_inv [OF rw_inv_start])
  with stopped_run [of ?w es'] show ?thesis
    by (auto simp: rw_inv_def Let_def split: if_splits)
qed

text \<open>An aborted start leaves the server as it was: \<open>Run\<close> can be called again.\<close>

lemma abort_restores:
  "run_enter t c s = Inr (regs, rts, s') \<Longrightarrow> srv_runCtx s = None \<Longrightarrow> run_abort s' = s"
  using run_enter_Inr [of t c s regs rts s'] by (cases s) (auto simp: run_abort_def)

lemma fold_put_pairs:
  assumes "distinct (map fst xs)"
  shows "map_of (fold (\<lambda>(k, v). alist_put k (f v)) xs []) k = map_option f (map_of xs k)"
proof -
  have "map_of (fold (\<lambda>(k, v). alist_put k (f v)) xs acc) k
      = (case map_of xs k of Some v \<Rightarrow> Some (f v) | None \<Rightarrow> map_of acc k)" for acc
    using assms
  proof (induction xs arbitrary: acc)
    case (Cons x xs)
    obtain a b where x: "x = (a, b)" by (cases x)
    then have "map_of xs a = None" "distinct (map fst xs)"
      using Cons.prems by (simp_all add: map_of_eq_None_iff)
    with Cons.IH x show ?case by (cases "k = a") (simp_all split: option.split)
  qed simp
  then show ?thesis by (simp split: option.split)
qed

text \<open>The copy a run dispatches on answers every lookup as the table it was taken from.\<close>

lemma clone_routes_lookup:
  assumes "distinct (map fst rs)" "\<forall>x \<in> set rs. distinct (map fst (snd x))"
  shows "lookup (clone_routes rs) full = lookup rs full"
proof -
  have c: "map_of (clone_routes rs) svc
      = map_option (\<lambda>ms. fold (\<lambda>(k, v). alist_put k v) ms []) (map_of rs svc)" for svc
    unfolding clone_routes_def by (rule fold_put_pairs [OF assms(1)])
  have "map_of (fold (\<lambda>(k, v). alist_put k v) ms []) n = map_of ms n" if "map_of rs svc = Some ms" for svc ms n
    using that assms(2) fold_put_pairs [of ms id n] map_of_SomeD [OF that] by (fastforce simp: option.map_id)
  with c show ?thesis by (auto simp: lookup_def split: option.splits)
qed

end
