(* ===== verification/Filter_Chain.thy ===== *)
theory Filter_Chain
  imports Errors
begin

text \<open>
  Package \<open>filter\<close> (src/filter/filter.go). A filter is a program that may call \<open>next\<close> any
  number of times and look at what it returned before going on: \<open>CallNext q k\<close> calls it with
  \<open>q\<close> (context and method) and continues with \<open>k\<close>. Openers and handlers run against a log of
  the requests that reached the terminal function, the newest first.
\<close>

datatype ('q, 'r) filter_prog =
    Return 'r
  | CallNext 'q "'r \<Rightarrow> ('q, 'r) filter_prog"

type_synonym ('q, 'r) next_fn = "'q \<Rightarrow> 'q list \<Rightarrow> 'r \<times> 'q list"
type_synonym ('q, 'r) filter_fn = "'q \<Rightarrow> ('q, 'r) filter_prog"

definition terminal :: "('q \<Rightarrow> 'r) \<Rightarrow> ('q, 'r) next_fn" where
  "terminal f q log = (f q, q # log)"

section \<open>Server chains\<close>

primrec run_filter :: "('q, 'r) next_fn \<Rightarrow> ('q, 'r) filter_prog \<Rightarrow> 'q list \<Rightarrow> 'r \<times> 'q list" where
  "run_filter nxt (Return r) log = (r, log)"
| "run_filter nxt (CallNext q k) log =
     (case nxt q log of (r, log') \<Rightarrow> run_filter nxt (k r) log')"

definition filter_layer :: "('q, 'r) filter_fn \<Rightarrow> ('q, 'r) next_fn \<Rightarrow> ('q, 'r) next_fn" where
  "filter_layer f nxt = (\<lambda>q log. run_filter nxt (f q) log)"

definition chain :: "('q, 'r) filter_fn list \<Rightarrow> ('q, 'r) next_fn \<Rightarrow> ('q, 'r) next_fn" where
  "chain filters end_fn = foldr filter_layer filters end_fn"

lemma chain_append: "chain (fs @ gs) e = chain fs (chain gs e)"
  by (simp add: chain_def)

section \<open>Client open chains\<close>

text \<open>What an opener returns: a stream or nil, and an error or nil.\<close>

type_synonym 's open_result = "'s option \<times> go_error option"

definition err_open_filter_misuse :: go_error where
  "err_open_filter_misuse = ErrVar ''openfilter: must call next or return non-nil error''"

primrec run_open ::
    "('q, 's open_result) next_fn \<Rightarrow> ('q, 's open_result) filter_prog \<Rightarrow> bool \<Rightarrow> 'q list
     \<Rightarrow> ('s open_result \<times> bool) \<times> 'q list" where
  "run_open nxt (Return r) called log = ((r, called), log)"
| "run_open nxt (CallNext q k) called log =
     (if called then run_open nxt (k (None, Some err_open_filter_misuse)) True log
      else (case nxt q log of (r, log') \<Rightarrow> run_open nxt (k r) True log'))"

definition open_layer ::
    "('q, 's open_result) filter_fn \<Rightarrow> ('q, 's open_result) next_fn \<Rightarrow> ('q, 's open_result) next_fn" where
  "open_layer f nxt = (\<lambda>q log.
     (case run_open nxt (f q) False log of
        ((r, called), log') \<Rightarrow>
          if \<not> called \<and> r = (None, None) then ((None, Some err_open_filter_misuse), log')
          else (r, log')))"

definition chain_open ::
    "('q, 's open_result) filter_fn list \<Rightarrow> ('q, 's open_result) next_fn
     \<Rightarrow> ('q, 's open_result) next_fn" where
  "chain_open filters end_fn = foldr open_layer filters end_fn"

lemma chain_open_append: "chain_open (fs @ gs) e = chain_open fs (chain_open gs e)"
  by (simp add: chain_open_def)

text \<open>An opener that reaches the terminal at most once per call.\<close>

definition at_most_once :: "('q, 'r) next_fn \<Rightarrow> bool" where
  "at_most_once nxt \<longleftrightarrow>
     (\<forall>q log. \<exists>xs. snd (nxt q log) = xs @ log \<and> length xs \<le> 1)"

lemma run_open_called: "snd (run_open nxt p True log) = log"
  by (induction p arbitrary: log) auto

lemma run_open_once:
  assumes "at_most_once nxt"
  shows "\<exists>xs. snd (run_open nxt p False log) = xs @ log \<and> length xs \<le> 1"
proof (cases p)
  case (CallNext q k)
  obtain r log' where n: "nxt q log = (r, log')" by fastforce
  have "snd (run_open nxt p False log) = log'"
    using run_open_called [of nxt "k r" log'] by (simp add: CallNext n)
  moreover have "\<exists>xs. log' = xs @ log \<and> length xs \<le> 1"
    using assms n unfolding at_most_once_def by (metis snd_conv)
  ultimately show ?thesis by simp
qed simp

lemma open_layer_once: "at_most_once nxt \<Longrightarrow> at_most_once (open_layer f nxt)"
  unfolding at_most_once_def [of "open_layer f nxt"]
proof (intro allI)
  fix q log
  assume "at_most_once nxt"
  from run_open_once [OF this, of "f q" log]
  show "\<exists>xs. snd (open_layer f nxt q log) = xs @ log \<and> length xs \<le> 1"
    by (auto simp: open_layer_def split: prod.splits)
qed

lemma chain_open_once: "at_most_once e \<Longrightarrow> at_most_once (chain_open fs e)"
  by (induction fs) (simp_all add: chain_open_def open_layer_once)

lemma terminal_once: "at_most_once (terminal f)"
  unfolding at_most_once_def terminal_def
proof (intro allI)
  fix q log
  show "\<exists>xs. snd (f q, q # log) = xs @ log \<and> length xs \<le> 1"
    by (rule exI [of _ "[q]"]) simp
qed

text \<open>
  Whatever the filters of an open chain do, one call of the chain opens at most one call: the
  terminal opener is reached at most once, however often filters call \<open>next\<close>; and when the
  outermost filter answers \<open>(nil, nil)\<close> without calling \<open>next\<close>, the caller gets the misuse
  error and nothing was opened.
\<close>

lemma chain_open_opens_once:
  "length (snd (chain_open fs (terminal f) q log)) \<le> Suc (length log)
   \<and> chain_open ((\<lambda>_. Return (None, None)) # fs) (terminal f) q log
       = ((None, Some err_open_filter_misuse), log)"
proof -
  obtain xs where "snd (chain_open fs (terminal f) q log) = xs @ log" "length xs \<le> 1"
    using chain_open_once [OF terminal_once, of fs f] unfolding at_most_once_def by blast
  then have "length (snd (chain_open fs (terminal f) q log)) \<le> Suc (length log)" by simp
  then show ?thesis by (simp add: chain_open_def open_layer_def)
qed

text \<open>
  The server chain has no such guard: a filter that calls \<open>next\<close> twice runs the handler twice.
\<close>

lemma server_chain_repeats:
  "snd (chain [\<lambda>q. CallNext q (\<lambda>_. CallNext q Return)] (terminal f) q []) = [q, q]"
  by (simp add: chain_def filter_layer_def terminal_def)

end
