(* ===== verification/Server_Conn.thy ===== *)
theory Server_Conn
  imports Server Filter_Chain
begin

text \<open>
  Package \<open>server\<close>, connections and calls (src/server/conn.go, src/server/statusmap.go,
  src/server/errors.go). What a connection and its calls do to the outside is a trace of actions;
  what the outside answers (the handshake, each \<open>AcceptCall\<close>, the call's own \<open>Accept\<close> and
  \<open>Finish\<close>, the handlers and filters) is an argument. Deferred actions are appended in the order
  Go runs them. A panic in a filter or handler is not recovered by this code and not modelled.
\<close>

section \<open>Contexts and the status of a finished call\<close>

record go_ctx =
  cx_err :: "go_error option"
  cx_cause :: "go_error option"

definition live_ctx :: go_ctx where "live_ctx = \<lparr>cx_err = None, cx_cause = None\<rparr>"

definition cancel_ctx :: "go_error option \<Rightarrow> go_ctx \<Rightarrow> go_ctx" where
  "cancel_ctx cause c =
     (if cx_err c \<noteq> None then c
      else \<lparr>cx_err = Some ctx_Canceled,
            cx_cause = (case cause of None \<Rightarrow> Some ctx_Canceled | Some e \<Rightarrow> Some e)\<rparr>)"

definition status_from_context :: "go_ctx option \<Rightarrow> go_error option" where
  "status_from_context ctx =
     (case ctx of
        None \<Rightarrow> None
      | Some c \<Rightarrow>
          (case cx_err c of
             None \<Rightarrow> None
           | Some err \<Rightarrow>
               if errors_is_opt (cx_cause c) err_server_shutdown
                  \<or> errors_is_opt (cx_cause c) err_peer_gone
                  \<or> errors_is_opt (cx_cause c) err_session_expired
               then Some (status_error Unavailable (err_text (the (cx_cause c))))
               else if errors_is err ctx_DeadlineExceeded
               then Some (status_error DeadlineExceeded (err_text err))
               else if errors_is err ctx_Canceled
               then Some (status_error Canceled (err_text err))
               else Some (status_error Unknown (err_text err))))"

definition finish_error :: "go_ctx option \<Rightarrow> go_error option \<Rightarrow> go_error option" where
  "finish_error ctx handlerErr =
     (case handlerErr of
        Some e \<Rightarrow>
          if errors_is e ctx_Canceled \<or> errors_is e ctx_DeadlineExceeded then
            (case status_from_context ctx of Some mapped \<Rightarrow> Some mapped | None \<Rightarrow> Some e)
          else Some e
      | None \<Rightarrow> status_from_context ctx)"

text \<open>
  The call context is derived from the connection's: it ends with the connection, at time \<open>t\<close>
  with a cause, or at its own deadline, whichever is first. \<open>now\<close> is when it is looked at.
\<close>

definition derive_call_ctx :: "int option \<Rightarrow> (int \<times> go_error) option \<Rightarrow> int \<Rightarrow> go_ctx" where
  "derive_call_ctx deadline connEnd now =
     (let conn = (case connEnd of
                    Some (t, cause) \<Rightarrow> if t \<le> now then Some (t, cancel_ctx (Some cause) live_ctx) else None
                  | None \<Rightarrow> None);
          dl = (case deadline of Some d \<Rightarrow> d \<le> now | None \<Rightarrow> False);
          expired = \<lparr>cx_err = Some ctx_DeadlineExceeded, cx_cause = Some ctx_DeadlineExceeded\<rparr> in
      case conn of
        None \<Rightarrow> if dl then expired else live_ctx
      | Some (t, c) \<Rightarrow> if dl \<and> the deadline < t then expired else c)"

datatype call_end = StillLive | DeadlineFirst | ConnFirst go_error

definition call_end_at :: "int option \<Rightarrow> (int \<times> go_error) option \<Rightarrow> int \<Rightarrow> call_end" where
  "call_end_at deadline connEnd now =
     (case (deadline, connEnd) of
        (None, None) \<Rightarrow> StillLive
      | (Some d, None) \<Rightarrow> if d \<le> now then DeadlineFirst else StillLive
      | (None, Some (t, e)) \<Rightarrow> if t \<le> now then ConnFirst e else StillLive
      | (Some d, Some (t, e)) \<Rightarrow>
          if now < min d t then StillLive else if d < t then DeadlineFirst else ConnFirst e)"

definition server_cause :: "go_error \<Rightarrow> bool" where
  "server_cause e \<longleftrightarrow> errors_is e err_server_shutdown \<or> errors_is e err_peer_gone
                       \<or> errors_is e err_session_expired"

definition is_ctx_error :: "go_error option \<Rightarrow> bool" where
  "is_ctx_error e \<longleftrightarrow> errors_is_opt e ctx_Canceled \<or> errors_is_opt e ctx_DeadlineExceeded"

lemmas cause_defs = err_server_shutdown_def err_peer_gone_def err_session_expired_def

lemma status_of_call_end:
  "status_from_context (Some (derive_call_ctx dl conn now)) =
     (case call_end_at dl conn now of
        StillLive \<Rightarrow> None
      | DeadlineFirst \<Rightarrow> Some (status_error DeadlineExceeded (err_text ctx_DeadlineExceeded))
      | ConnFirst e \<Rightarrow>
          Some (if server_cause e then status_error Unavailable (err_text e)
                else status_error Canceled (err_text ctx_Canceled)))"
  by (cases dl; cases conn)
    (auto simp: derive_call_ctx_def call_end_at_def status_from_context_def cancel_ctx_def live_ctx_def
      server_cause_def errors_is_opt_def cause_defs Let_def)

text \<open>
  C15: the status a call ends with says why it ended. A handler error that is not a context error
  is delivered with its own code, whatever happened to the context. A handler that returned nil,
  or a context error, is finished by the context: with its own result while the context is live,
  with \<open>DeadlineExceeded\<close> when the deadline passed first, with \<open>Unavailable\<close> when the connection
  ended first because the server stopped, the peer went away or the session expired, and with
  \<open>Canceled\<close> when it was cancelled for any other reason. So a call is reported as successful
  exactly when its handler succeeded before its context ended.
\<close>

theorem call_outcome:
  "code_of (finish_error (Some (derive_call_ctx dl conn now)) herr) =
     (if herr = None \<or> is_ctx_error herr then
        (case call_end_at dl conn now of
           StillLive \<Rightarrow> code_of herr
         | DeadlineFirst \<Rightarrow> DeadlineExceeded
         | ConnFirst cause \<Rightarrow> if server_cause cause then Unavailable else Canceled)
      else code_of herr)
   \<and> (finish_error (Some (derive_call_ctx dl conn now)) herr = None
        \<longleftrightarrow> herr = None \<and> call_end_at dl conn now = StillLive)"
proof (cases herr)
  case None
  then show ?thesis
    by (cases "call_end_at dl conn now")
      (auto simp: finish_error_def status_of_call_end code_of_def status_error_def)
next
  case (Some e)
  then show ?thesis
    by (cases "call_end_at dl conn now")
      (auto simp: finish_error_def status_of_call_end code_of_def status_error_def is_ctx_error_def
        errors_is_opt_def)
qed

section \<open>One call\<close>

datatype phase = PhaseOpen | PhaseDispatch | PhaseFinish | PhaseCleanup | PhaseLeak

record call_info =
  ci_Service :: string
  ci_Method :: string
  ci_Phase :: phase

datatype call_action =
    KAdmitted
  | KAccept rpc_method
  | KHandle rpc_method
  | KFinish "go_error option"
  | KNotify nat call_info go_error
  | KCancel
  | KRelease
  | KClose

definition notify_call_error :: "options option \<Rightarrow> call_info \<Rightarrow> go_error \<Rightarrow> call_action list" where
  "notify_call_error cfg info err =
     (case cfg of
        None \<Rightarrow> []
      | Some c \<Rightarrow> (case CallErrorObserver c of None \<Rightarrow> [] | Some f \<Rightarrow> [KNotify f info err]))"

record 'h server_call =
  sc_id :: nat
  sc_Method :: string
  sc_Deadline :: "int option"
  sc_Accept :: "rpc_method \<Rightarrow> go_error option"
  sc_Finish :: "go_error option \<Rightarrow> go_error option"
  sc_handler :: "'h \<Rightarrow> rpc_method \<Rightarrow> go_error option"

definition handle_rejected :: "'h server_call option \<Rightarrow> go_error \<Rightarrow> call_action list" where
  "handle_rejected call err =
     (let finishErr = (case errors_as_status err of
                         None \<Rightarrow> status_error InvalidArgument (err_text err)
                       | Some (c, m, ds, cause) \<Rightarrow> ErrStatus c m ds cause) in
      case call of None \<Rightarrow> [] | Some _ \<Rightarrow> [KFinish (Some finishErr), KClose])"

text \<open>The part of \<open>handleCall\<close> between admission and the deferred clean-up.\<close>

definition serve_call ::
    "(nat \<Rightarrow> (rpc_method, go_error option) filter_fn) \<Rightarrow> options \<Rightarrow> 'h routes \<Rightarrow> 'h server_call
     \<Rightarrow> go_ctx \<Rightarrow> call_action list" where
  "serve_call filt cfg routes call ctx =
     (case lookup routes (sc_Method call) of
        None \<Rightarrow>
          let ferr = status_error Unimplemented (''server: method not found: '' @ sc_Method call) in
          KFinish (Some ferr)
          # notify_call_error (Some cfg) \<lparr>ci_Service = [], ci_Method = sc_Method call, ci_Phase = PhaseDispatch\<rparr> ferr
      | Some entry \<Rightarrow>
          let m = re_method entry in
          KAccept m #
          (case sc_Accept call m of
             Some err \<Rightarrow>
               let ferr = (if code_of (Some err) = Unknown then status_error Unimplemented (err_text err)
                           else err) in
               KFinish (Some ferr)
               # notify_call_error (Some cfg)
                   \<lparr>ci_Service = m_service m, ci_Method = m_name m, ci_Phase = PhaseDispatch\<rparr> ferr
           | None \<Rightarrow>
               (case chain (map filt (Filters cfg)) (terminal (sc_handler call (re_handler entry))) m [] of
                  (herr, log) \<Rightarrow>
                    let ferr = finish_error (Some ctx) herr in
                    map KHandle (rev log) @ KFinish ferr
                    # (case sc_Finish call ferr of
                         None \<Rightarrow> []
                       | Some err \<Rightarrow>
                           notify_call_error (Some cfg)
                             \<lparr>ci_Service = m_service m, ci_Method = m_name m, ci_Phase = PhaseFinish\<rparr> err))))"

text \<open>\<open>admitted\<close> is the result of \<open>tryAdmit\<close>; the action \<open>KRelease\<close> is the call of its release.\<close>

definition handle_call ::
    "(nat \<Rightarrow> (rpc_method, go_error option) filter_fn) \<Rightarrow> options \<Rightarrow> 'h routes \<Rightarrow> 'h server_call
     \<Rightarrow> (int \<times> go_error) option \<Rightarrow> int \<Rightarrow> go_error option \<Rightarrow> call_action list" where
  "handle_call filt cfg routes call connEnd now admitted =
     (case admitted of
        Some err \<Rightarrow>
          KFinish (Some err)
          # notify_call_error (Some cfg) \<lparr>ci_Service = [], ci_Method = sc_Method call, ci_Phase = PhaseOpen\<rparr> err
          @ [KClose]
      | None \<Rightarrow>
          KAdmitted
          # serve_call filt cfg routes call (derive_call_ctx (sc_Deadline call) connEnd now)
          @ [KCancel, KRelease, KClose])"

fun is_finish :: "call_action \<Rightarrow> bool" where
  "is_finish (KFinish _) = True"
| "is_finish _ = False"

fun is_handle :: "call_action \<Rightarrow> bool" where
  "is_handle (KHandle _) = True"
| "is_handle _ = False"

fun is_ending :: "call_action \<Rightarrow> bool" where
  "is_ending (KNotify _ _ _) = True"
| "is_ending KCancel = True"
| "is_ending KRelease = True"
| "is_ending KClose = True"
| "is_ending _ = False"

text \<open>A trace of a call before its clean-up: preparation, one \<open>Finish\<close>, notifications.\<close>

definition finished_once :: "call_action list \<Rightarrow> bool" where
  "finished_once tr \<longleftrightarrow>
     (\<exists>pre f post. tr = pre @ KFinish f # post
        \<and> list_all (\<lambda>a. is_handle a \<or> (\<exists>m. a = KAccept m)) pre
        \<and> list_all (\<lambda>a. \<exists>o' i e. a = KNotify o' i e) post)"

lemma notify_only: "list_all (\<lambda>a. \<exists>o' i e. a = KNotify o' i e) (notify_call_error c i err)"
  by (auto simp: notify_call_error_def split: option.splits)

lemma finished_onceI:
  "list_all (\<lambda>a. is_handle a \<or> (\<exists>m. a = KAccept m)) pre \<Longrightarrow>
   list_all (\<lambda>a. \<exists>o' i e. a = KNotify o' i e) post \<Longrightarrow> finished_once (pre @ KFinish f # post)"
  unfolding finished_once_def by blast

lemma serve_call_once: "finished_once (serve_call filt cfg routes call ctx)"
proof (cases "lookup routes (sc_Method call)")
  case None
  then show ?thesis
    using finished_onceI [of "[]"] notify_only by (simp add: serve_call_def Let_def)
next
  case (Some entry)
  let ?m = "re_method entry"
  show ?thesis
  proof (cases "sc_Accept call ?m")
    case None
    obtain herr log where c: "chain (map filt (Filters cfg))
        (terminal (sc_handler call (re_handler entry))) ?m [] = (herr, log)" by fastforce
    let ?f = "finish_error (Some ctx) herr"
    let ?n = "case sc_Finish call ?f of None \<Rightarrow> [] | Some err \<Rightarrow> notify_call_error (Some cfg)
                \<lparr>ci_Service = m_service ?m, ci_Method = m_name ?m, ci_Phase = PhaseFinish\<rparr> err"
    have "serve_call filt cfg routes call ctx
        = (KAccept ?m # map KHandle (rev log)) @ KFinish ?f # ?n"
      using Some None c by (simp add: serve_call_def Let_def)
    moreover have "finished_once \<dots>"
      by (rule finished_onceI) (auto simp: list_all_iff notify_only [unfolded list_all_iff] split: option.split)
    ultimately show ?thesis by simp
  next
    case err: (Some e)
    let ?f = "if code_of (Some e) = Unknown then status_error Unimplemented (err_text e) else e"
    let ?n = "notify_call_error (Some cfg)
                \<lparr>ci_Service = m_service ?m, ci_Method = m_name ?m, ci_Phase = PhaseDispatch\<rparr> ?f"
    have "serve_call filt cfg routes call ctx = [KAccept ?m] @ KFinish (Some ?f) # ?n"
      using Some err by (simp add: serve_call_def Let_def)
    moreover have "finished_once \<dots>" by (rule finished_onceI) (simp_all add: notify_only)
    ultimately show ?thesis by simp
  qed
qed

lemma no_handle_none:
  "list_all (\<lambda>a. \<exists>o' i e. a = KNotify o' i e) post \<Longrightarrow>
     filter is_handle post = [] \<and> filter is_finish post = [] \<and> KClose \<notin> set post
     \<and> KAdmitted \<notin> set post \<and> KRelease \<notin> set post \<and> list_all is_ending post"
  by (induction post) auto

lemma pre_quiet:
  "list_all (\<lambda>a. is_handle a \<or> (\<exists>m. a = KAccept m)) pre \<Longrightarrow>
     filter is_finish pre = [] \<and> KClose \<notin> set pre \<and> KAdmitted \<notin> set pre \<and> KRelease \<notin> set pre"
proof (induction pre)
  case (Cons a pre)
  then show ?case by (cases a) auto
qed simp

lemma serve_call_handles:
  "filter is_handle (serve_call filt cfg routes call ctx) = []
   \<or> (\<exists>e. lookup routes (sc_Method call) = Some e \<and> sc_Accept call (re_method e) = None)"
proof -
  have n: "filter is_handle (notify_call_error c i err) = []" for c i err
    using no_handle_none [OF notify_only] by simp
  show ?thesis
    by (cases "lookup routes (sc_Method call)"; cases "sc_Accept call (re_method (the (lookup routes (sc_Method call))))")
      (auto simp: serve_call_def Let_def n)
qed

text \<open>
  C2: every call the server takes in is answered and cleaned up exactly once. Whatever the
  routes, filters, handler, transport and admission gate do, the trace of \<open>handleCall\<close> has exactly
  one \<open>Finish\<close>; before it come at most the call's \<open>Accept\<close> and its handler, after it only
  notifications and the clean-up; it ends with the only \<open>Close\<close>, and the slot is released as often
  as it was taken. The handler runs only for an admitted call whose method is registered and whose
  \<open>Accept\<close> succeeded.
\<close>

theorem handle_call_protocol:
  "let tr = handle_call filt cfg routes call connEnd now admitted in
     (\<exists>pre f post. tr = pre @ KFinish f # post @ [KClose]
        \<and> filter is_finish pre = [] \<and> list_all is_ending post
        \<and> KClose \<notin> set pre \<and> KClose \<notin> set post)
     \<and> count_list tr KAdmitted = (if admitted = None then 1 else 0)
     \<and> count_list tr KRelease = count_list tr KAdmitted
     \<and> (filter is_handle tr = []
        \<or> (admitted = None \<and> (\<exists>e. lookup routes (sc_Method call) = Some e
                                 \<and> sc_Accept call (re_method e) = None)))"
proof (cases admitted)
  case (Some err)
  let ?n = "notify_call_error (Some cfg)
     \<lparr>ci_Service = [], ci_Method = sc_Method call, ci_Phase = PhaseOpen\<rparr> err"
  note n = no_handle_none [OF notify_only, of "Some cfg"
      "\<lparr>ci_Service = [], ci_Method = sc_Method call, ci_Phase = PhaseOpen\<rparr>" err]
  have tr: "handle_call filt cfg routes call connEnd now admitted = [] @ KFinish (Some err) # ?n @ [KClose]"
    using Some by (simp add: handle_call_def)
  have 1: "\<exists>pr f' po. handle_call filt cfg routes call connEnd now admitted = pr @ KFinish f' # po @ [KClose]
      \<and> filter is_finish pr = [] \<and> list_all is_ending po \<and> KClose \<notin> set pr \<and> KClose \<notin> set po"
    unfolding tr
    by (intro exI [where x = "[]"] exI [where x = "Some err"] exI [where x = ?n]) (use n in auto)
  have c: "count_list ?n KAdmitted = 0" "count_list ?n KRelease = 0"
    using n by (simp_all add: count_list_0_iff)
  show ?thesis
    unfolding Let_def by (intro conjI, rule 1) (use c n Some in \<open>simp_all add: tr [unfolded Some]\<close>)
next
  case None
  let ?ctx = "derive_call_ctx (sc_Deadline call) connEnd now"
  let ?s = "serve_call filt cfg routes call ?ctx"
  obtain pre f post where s: "?s = pre @ KFinish f # post"
    and pre: "list_all (\<lambda>a. is_handle a \<or> (\<exists>m. a = KAccept m)) pre"
    and post: "list_all (\<lambda>a. \<exists>o' i e. a = KNotify o' i e) post"
    using serve_call_once [of filt cfg routes call ?ctx] unfolding finished_once_def by blast
  note p = no_handle_none [OF post] and q = pre_quiet [OF pre]
  have tr: "handle_call filt cfg routes call connEnd now admitted
      = (KAdmitted # pre) @ KFinish f # (post @ [KCancel, KRelease]) @ [KClose]"
    using None s by (simp add: handle_call_def)
  have c: "count_list pre KAdmitted = 0" "count_list post KAdmitted = 0"
    "count_list pre KRelease = 0" "count_list post KRelease = 0"
    using p q by (simp_all add: count_list_0_iff)
  have h: "filter is_handle ?s = [] \<or> (\<exists>e. lookup routes (sc_Method call) = Some e
      \<and> sc_Accept call (re_method e) = None)" by (rule serve_call_handles)
  have 1: "\<exists>pr f' po. handle_call filt cfg routes call connEnd now admitted = pr @ KFinish f' # po @ [KClose]
      \<and> filter is_finish pr = [] \<and> list_all is_ending po \<and> KClose \<notin> set pr \<and> KClose \<notin> set po"
    unfolding tr
    by (intro exI [where x = "KAdmitted # pre"] exI [where x = f] exI [where x = "post @ [KCancel, KRelease]"])
      (use p q in auto)
  have "filter is_handle (handle_call filt cfg routes call connEnd now admitted) = filter is_handle ?s"
    using s by (simp add: tr)
  with h None have 2: "filter is_handle (handle_call filt cfg routes call connEnd now admitted) = []
      \<or> (admitted = None \<and> (\<exists>e. lookup routes (sc_Method call) = Some e
                               \<and> sc_Accept call (re_method e) = None))" by simp
  show ?thesis
    unfolding Let_def by (intro conjI, rule 1) (use 2 c None in \<open>simp_all add: tr [unfolded None]\<close>)
qed

section \<open>Connections\<close>

text \<open>
  The connection limit: \<open>lb.active\<close> is one atomic counter. A connection above the limit takes its
  increment back in a second step, so others may see it counted meanwhile.
\<close>

definition err_max_conns :: go_error where
  "err_max_conns = status_error ResourceExhausted ''server: MaxInboundConns exceeded''"

record conn_gate =
  cn_max :: int
  cn_active :: int

definition conn_admit :: "conn_gate \<Rightarrow> go_error + conn_gate" where
  "conn_admit g =
     (let n = cn_active g + 1 in
      if 0 < cn_max g \<and> cn_max g < n then Inl err_max_conns else Inr (g\<lparr>cn_active := n\<rparr>))"

definition conn_leave :: "conn_gate \<Rightarrow> conn_gate" where
  "conn_leave g = g\<lparr>cn_active := cn_active g - 1\<rparr>"

interpretation conn_limit: admission_gate conn_admit conn_leave cn_active cn_max err_max_conns
  by unfold_locales
    (auto simp: conn_admit_def conn_leave_def err_max_conns_def status_error_def code_of_def Let_def
      split: if_splits)

record conn_world =
  nw_max :: int
  nw_active :: int
  nw_serving :: "nat list"
  nw_refused :: "nat list"

datatype conn_event =
    NvArrive nat
  | NvTakeBack nat
  | NvDone nat

fun nw_step :: "conn_event \<Rightarrow> conn_world \<Rightarrow> conn_world" where
  "nw_step (NvArrive c) w =
     (let n = nw_active w + 1; w' = w\<lparr>nw_active := n\<rparr> in
      if 0 < nw_max w \<and> nw_max w < n then w'\<lparr>nw_refused := c # nw_refused w\<rparr>
      else w'\<lparr>nw_serving := c # nw_serving w\<rparr>)"
| "nw_step (NvTakeBack c) w =
     (if c \<in> set (nw_refused w)
      then w\<lparr>nw_active := nw_active w - 1, nw_refused := remove1 c (nw_refused w)\<rparr> else w)"
| "nw_step (NvDone c) w =
     (if c \<in> set (nw_serving w)
      then w\<lparr>nw_active := nw_active w - 1, nw_serving := remove1 c (nw_serving w)\<rparr> else w)"

definition nw_inv :: "int \<Rightarrow> conn_world \<Rightarrow> bool" where
  "nw_inv m w \<longleftrightarrow>
     nw_max w = m
     \<and> nw_active w = int (length (nw_serving w)) + int (length (nw_refused w))
     \<and> (m \<le> 0 \<or> int (length (nw_serving w)) \<le> m)"

interpretation conn_machine: invariant_machine nw_step "nw_inv m" for m
proof unfold_locales
  fix w e assume i: "nw_inv m w"
  show "nw_inv m (nw_step e w)"
    using i by (cases e) (auto simp: nw_inv_def Let_def length_remove1_int)
qed

text \<open>
  A listen surface never serves more connections at once than \<open>MaxInboundConns\<close>, under every
  interleaving of arriving, refused and finished connections, although a refused connection is
  counted for a moment; and when all of them are gone the counter is back at zero.
\<close>

lemma conns_bounded:
  "let w = run_steps nw_step es \<lparr>nw_max = m, nw_active = 0, nw_serving = [], nw_refused = []\<rparr> in
     (m \<le> 0 \<or> int (length (nw_serving w)) \<le> m)
     \<and> nw_active w = int (length (nw_serving w)) + int (length (nw_refused w))"
proof -
  have "nw_inv m (run_steps nw_step es \<lparr>nw_max = m, nw_active = 0, nw_serving = [], nw_refused = []\<rparr>)"
    by (rule conn_machine.run_inv) (auto simp: nw_inv_def)
  then show ?thesis by (simp add: nw_inv_def Let_def)
qed

subsection \<open>The accept loop\<close>

datatype conn_phase =
    ConnPhaseDial | ConnPhaseHandshake | ConnPhaseAccept | ConnPhaseAdmit | ConnPhaseIdleReclaim
  | ConnPhaseClose

datatype concurrency = OneCallPerConn | Sequential | Concurrent

datatype 'h conn_action =
    CActive int
  | CNotify nat string conn_phase go_error
  | CHandshake
  | CReject "call_action list"
  | CServe "'h server_call"
  | CSpawn "'h server_call"
  | CCancel "go_error option"
  | CWait
  | CCloseConn

definition notify_conn_error ::
    "options option \<Rightarrow> string \<Rightarrow> conn_phase \<Rightarrow> go_error \<Rightarrow> 'h conn_action list" where
  "notify_conn_error cfg binding ph err =
     (case cfg of
        None \<Rightarrow> []
      | Some c \<Rightarrow> (case ConnErrorObserver c of None \<Rightarrow> [] | Some f \<Rightarrow> [CNotify f binding ph err]))"

text \<open>
  What \<open>AcceptCall\<close> answers: a call, or an error with the call it rejected, if any. \<open>acceptDone\<close>
  tells whether the accept context has ended when the loop looks at it, \<open>aged\<close> whether the age
  timer has fired.
\<close>

datatype 'h accept_out =
    Accepted "'h server_call"
  | AcceptFailed go_error "'h server_call option" bool bool

definition err_call_rejected :: go_error where
  "err_call_rejected = ErrVar ''transport: call rejected''"

text \<open>
  One round per answer. The wait context of a round is cancelled right after \<open>AcceptCall\<close> returns;
  \<open>acceptErr\<close> is the error of the accept context it was derived from. The second component tells
  whether the loop has returned; when the answers run out it is still waiting in \<open>AcceptCall\<close>.
\<close>

fun accept_loop ::
    "options \<Rightarrow> string \<Rightarrow> concurrency \<Rightarrow> 'h accept_out list \<Rightarrow> 'h conn_action list \<times> bool" where
  "accept_loop cfg name conc [] = ([], False)"
| "accept_loop cfg name conc (Accepted call # as) =
     (case accept_loop cfg name conc as of
        (tr, fin) \<Rightarrow> ((if conc = Concurrent then CSpawn call else CServe call) # tr, fin))"
| "accept_loop cfg name conc (AcceptFailed err call acceptDone aged # as) =
     (let acceptCtx = (if acceptDone then cancel_ctx None live_ctx else live_ctx);
          waitCtx = cancel_ctx None acceptCtx in
      if errors_is err err_call_rejected then
        (case accept_loop cfg name conc as of
           (tr, fin) \<Rightarrow> (CReject (handle_rejected call err) # tr, fin))
      else if errors_is err err_EOF then ([], True)
      else if cx_err acceptCtx \<noteq> None \<or> cx_err waitCtx \<noteq> None then
        (if aged then [CCancel (Some err_session_expired)] else [], True)
      else
        (notify_conn_error (Some cfg) name ConnPhaseAccept err @ [CCancel (Some err_peer_gone)], True))"

record 'h conn_env =
  ev_runEnded :: bool
  ev_handshake :: "go_error option"
  ev_accepts :: "'h accept_out list"

text \<open>\<open>onConn\<close>, with \<open>active\<close> the value of \<open>lb.active\<close> when it starts.\<close>

definition on_conn ::
    "options \<Rightarrow> string \<Rightarrow> concurrency \<Rightarrow> int \<Rightarrow> 'h conn_env \<Rightarrow> 'h conn_action list \<times> bool" where
  "on_conn cfg name conc active ev =
     (if 0 < MaxInboundConns cfg \<and> MaxInboundConns cfg < active + 1 then
        ([CActive 1, CActive (- 1)] @ notify_conn_error (Some cfg) name ConnPhaseAdmit err_max_conns
           @ [CCloseConn], True)
      else if ev_runEnded ev then ([CActive 1, CCloseConn, CCancel None, CActive (- 1)], True)
      else
        (case ev_handshake ev of
           Some err \<Rightarrow>
             ([CActive 1, CHandshake] @ notify_conn_error (Some cfg) name ConnPhaseHandshake err
                @ [CCloseConn, CCancel None, CActive (- 1)], True)
         | None \<Rightarrow>
             (case accept_loop cfg name conc (ev_accepts ev) of
                (tr, fin) \<Rightarrow>
                  ([CActive 1, CHandshake] @ tr
                     @ (if fin then [CWait, CCloseConn, CCancel None, CActive (- 1)] else []), fin))))"

fun served_call :: "'h conn_action \<Rightarrow> 'h server_call option" where
  "served_call (CServe c) = Some c"
| "served_call (CSpawn c) = Some c"
| "served_call _ = None"

fun accepted_call :: "'h accept_out \<Rightarrow> 'h server_call option" where
  "accepted_call (Accepted c) = Some c"
| "accepted_call _ = None"

fun keeps_accepting :: "'h accept_out \<Rightarrow> bool" where
  "keeps_accepting (Accepted _) = True"
| "keeps_accepting (AcceptFailed e _ _ _) = errors_is e err_call_rejected"

fun active_delta :: "'h conn_action \<Rightarrow> int" where
  "active_delta (CActive n) = n"
| "active_delta _ = 0"

fun bad_conn_action :: "'h conn_action \<Rightarrow> bool" where
  "bad_conn_action (CNotify _ _ ph _) = (ph = ConnPhaseAccept)"
| "bad_conn_action (CCancel (Some e)) = (e \<noteq> err_session_expired)"
| "bad_conn_action _ = False"

lemma wait_always_done: "cx_err (cancel_ctx c x) \<noteq> None"
  by (simp add: cancel_ctx_def)

lemma accept_loop_trace:
  "case accept_loop cfg name conc as of
     (tr, fin) \<Rightarrow>
       List.map_filter served_call tr = List.map_filter accepted_call (takeWhile keeps_accepting as)
       \<and> fin = (\<not> list_all keeps_accepting as)
       \<and> \<not> list_ex bad_conn_action tr
       \<and> CCloseConn \<notin> set tr \<and> CWait \<notin> set tr \<and> sum_list (map active_delta tr) = 0"
proof (induction as)
  case (Cons a as)
  obtain tr fin where l: "accept_loop cfg name conc as = (tr, fin)" by fastforce
  from Cons.IH l show ?case
    by (cases a) (auto simp: List.map_filter_def Let_def wait_always_done)
qed (simp add: List.map_filter_def)

lemma notify_conn_quiet:
  "sum_list (map active_delta (notify_conn_error c n p e)) = 0
   \<and> CCloseConn \<notin> set (notify_conn_error c n p e) \<and> count_list (notify_conn_error c n p e) CCloseConn = 0
   \<and> List.map_filter served_call (notify_conn_error c n p e) = []
   \<and> (p \<noteq> ConnPhaseAccept \<longrightarrow> \<not> list_ex bad_conn_action (notify_conn_error c n p e))"
  by (auto simp: notify_conn_error_def List.map_filter_def split: option.splits)

lemma map_filter_append: "List.map_filter f (xs @ ys) = List.map_filter f xs @ List.map_filter f ys"
  by (simp add: List.map_filter_def)

text \<open>
  C23: a connection is closed exactly once and its calls are served exactly once. For every
  behaviour of the transport, the connection is closed exactly when \<open>onConn\<close> returns, the active
  counter is then back where it was, and the calls served (in place or on their own goroutines,
  which are joined before the close) are exactly the accepted ones, in order, up to the first
  answer that ends the loop; none when the connection was refused, arrived after the end of the
  run, or failed its handshake. The trace also shows that the loop's report of an accept failure
  is never made: no observer is told of a \<open>ConnPhaseAccept\<close> error and no connection is ever
  cancelled with \<open>ErrPeerGone\<close>, because the wait context is always cancelled before it is tested.
\<close>

theorem on_conn_protocol:
  "case on_conn cfg name conc active ev of
     (tr, fin) \<Rightarrow>
       count_list tr CCloseConn = (if fin then 1 else 0)
       \<and> sum_list (map active_delta tr) = (if fin then 0 else 1)
       \<and> List.map_filter served_call tr =
           (if MaxInboundConns cfg \<le> 0 \<or> active < MaxInboundConns cfg then
              (if ev_runEnded ev then []
               else if ev_handshake ev = None
               then List.map_filter accepted_call (takeWhile keeps_accepting (ev_accepts ev)) else [])
            else [])
       \<and> \<not> list_ex bad_conn_action tr"
proof -
  obtain tr fin where l: "accept_loop cfg name conc (ev_accepts ev) = (tr, fin)" by fastforce
  with accept_loop_trace [where cfg = cfg and name = name and conc = conc and as = "ev_accepts ev"] have t:
    "List.map_filter served_call tr = List.map_filter accepted_call (takeWhile keeps_accepting (ev_accepts ev))"
    "\<not> list_ex bad_conn_action tr" "count_list tr CCloseConn = 0" "sum_list (map active_delta tr) = 0"
    by (auto simp: count_list_0_iff)
  note [simp] = notify_conn_quiet map_filter_append t
  show ?thesis
  proof (cases "0 < MaxInboundConns cfg \<and> MaxInboundConns cfg < active + 1")
    case True
    then show ?thesis by (auto simp: on_conn_def List.map_filter_simps)
  next
    case False
    then show ?thesis
      by (cases "ev_runEnded ev"; cases "ev_handshake ev")
        (auto simp: on_conn_def l List.map_filter_simps)
  qed
qed

end
