(* ===== verification/Client.thy ===== *)
theory Client
  imports Descriptor Options Admission Filter_Chain
begin

text \<open>
  Package \<open>client\<close> (src/client/client.go, src/client/call.go, src/client/errors.go): assembling a
  client, opening a call through the open filters, and the call stream handed to the application.
  The resolver, the transport's \<open>OpenCall\<close> and the filters are arguments; a call is a value of
  type \<open>'k\<close>, a decorated stream one of type \<open>'s\<close>.
\<close>

section \<open>Establishment errors\<close>

definition join_status :: "code \<Rightarrow> go_error option \<Rightarrow> go_error" where
  "join_status c cause =
     ErrMapped (Some (status_error c (case cause of None \<Rightarrow> [] | Some e \<Rightarrow> err_text e))) cause"

definition is_narrow_interface_assert :: "go_error option \<Rightarrow> bool" where
  "is_narrow_interface_assert err =
     (case err of
        None \<Rightarrow> False
      | Some e \<Rightarrow>
          contains (err_text e) ''requires '' \<or> contains (err_text e) ''missing ''
          \<or> contains (err_text e) ''narrow interface'')"

definition map_establish_err :: "go_error option \<Rightarrow> go_error option" where
  "map_establish_err err =
     (case err of
        None \<Rightarrow> None
      | Some e \<Rightarrow>
          if code_of (Some e) \<noteq> Unknown then Some e
          else if errors_is e ctx_DeadlineExceeded then Some (join_status DeadlineExceeded (Some e))
          else if is_narrow_interface_assert (Some e) then Some e
          else Some (join_status Unavailable (Some e)))"

lemma join_status_tree: "set (err_tree e) \<subseteq> set (err_tree (join_status c (Some e)))"
  by (auto simp: join_status_def)

lemma code_join_status: "code_of (Some (join_status c (Some e))) = c"
  by (simp add: join_status_def status_error_def)

text \<open>
  Why a connection could not be established reaches the application as a status, and the
  cause is never lost. An error that already carries a status keeps its code; otherwise a timeout
  is \<open>DeadlineExceeded\<close>, an error whose text reads like a failed interface assertion is left
  alone, and everything else is \<open>Unavailable\<close>. Every error that could be found in the original
  with the functions of package errors is still found in the mapped one.
\<close>

lemma establish_error_classified:
  "case map_establish_err (Some e) of
     None \<Rightarrow> False
   | Some r \<Rightarrow>
       code_of (Some r) =
         (if code_of (Some e) \<noteq> Unknown then code_of (Some e)
          else if errors_is e ctx_DeadlineExceeded then DeadlineExceeded
          else if is_narrow_interface_assert (Some e) then Unknown
          else Unavailable)
       \<and> set (err_tree e) \<subseteq> set (err_tree r)"
  using join_status_tree [of e] by (auto simp: map_establish_err_def code_join_status)

text \<open>
  The text test also catches dial errors: an address without a port is reported by package net
  with the words \<open>missing port in address\<close>, and then stays without a status.
\<close>

lemma missing_port_unmapped:
  "map_establish_err (Some (ErrNew ''dial tcp: address 10.0.0.1: missing port in address''))
     = Some (ErrNew ''dial tcp: address 10.0.0.1: missing port in address'')"
  by code_simp

section \<open>Clients\<close>

record ('t, 'c) client =
  cl_cfg :: options
  cl_service :: string
  cl_target :: string
  cl_transport :: 't
  cl_codec :: 'c
  cl_gate :: client_gate

definition new_opener ::
    "'t registry \<Rightarrow> 'c registry \<Rightarrow> ('t \<Rightarrow> string) \<Rightarrow> ('c \<Rightarrow> string option) \<Rightarrow> string \<Rightarrow> service_options
     \<Rightarrow> go_error + 't \<times> 'c" where
  "new_opener treg creg axisName codecName service sel =
     (let what = ''client: service '' @ go_quote service in
      if sv_Transport sel = [] then Inl (ErrNew (what @ '': missing Transport''))
      else
        (case assemble_transport treg sel of
           Inl e \<Rightarrow> Inl (ErrWrap (what @ '': '' @ err_text e) [e])
         | Inr tr \<Rightarrow>
             (case assemble_codec creg sel of
                Inl e \<Rightarrow> Inl (ErrWrap (what @ '': '' @ err_text e) [e])
              | Inr cd \<Rightarrow>
                  (case check_codec_name what (axisName tr) (codecName cd) of
                     Some e \<Rightarrow> Inl e
                   | None \<Rightarrow> Inr (tr, cd)))))"

definition new_client ::
    "options \<Rightarrow> 't registry \<Rightarrow> 'c registry \<Rightarrow> ('t \<Rightarrow> string) \<Rightarrow> ('c \<Rightarrow> string option)
     \<Rightarrow> client_option option list \<Rightarrow> go_error + ('t, 'c) client" where
  "new_client dflt treg creg axisName codecName os =
     (case client_options dflt os of
        Inl e \<Rightarrow> Inl e
      | Inr cfg \<Rightarrow>
          (case selected_service (Some cfg) of
             (service, sel) \<Rightarrow>
               if service = [] then
                 Inl (ErrNew ''client: missing service name; pass argos.WithServiceName'')
               else
                 (case new_opener treg creg axisName codecName service sel of
                    Inl e \<Rightarrow> Inl e
                  | Inr (tr, cd) \<Rightarrow>
                      Inr \<lparr>cl_cfg = cfg, cl_service = service, cl_target = sv_Target sel,
                           cl_transport = tr, cl_codec = cd,
                           cl_gate = \<lparr>cg_MaxConcurrentCalls = MaxConcurrentCalls cfg, cg_inFlight = 0\<rparr>\<rparr>)))"

section \<open>Opening a call\<close>

text \<open>What the surroundings of one \<open>Open\<close> do.\<close>

record ('k, 's) open_env =
  oe_nilCtx :: bool
  oe_ctxErr :: "go_error option"
  oe_method :: rpc_method
  oe_filt :: "nat \<Rightarrow> (rpc_method, 's open_result) filter_fn"
  oe_parse :: "string \<Rightarrow> go_error + string"
  oe_openCall :: "string \<Rightarrow> rpc_method \<Rightarrow> go_error + 'k"
  oe_wrap :: "'k \<Rightarrow> 's"

definition terminus :: "('t, 'c) client \<Rightarrow> ('k, 's) open_env \<Rightarrow> rpc_method \<Rightarrow> go_error + 'k" where
  "terminus c ev method =
     (if m_fullName method \<noteq> m_fullName (oe_method ev) then
        Inl (ErrNew (''client: OpenFilter changed method from '' @ go_quote (m_fullName (oe_method ev))
               @ '' to '' @ go_quote (m_fullName method)))
      else if cl_target c = [] then
        Inl (ErrNew (''client: missing target for service '' @ go_quote (cl_service c)))
      else
        (case oe_parse ev (cl_target c) of
           Inl e \<Rightarrow> Inl e
         | Inr endpoint \<Rightarrow>
             (case oe_openCall ev endpoint method of
                Inl e \<Rightarrow> Inl (the (map_establish_err (Some e)))
              | Inr call \<Rightarrow> Inr call)))"

definition terminus_open :: "('t, 'c) client \<Rightarrow> ('k, 's) open_env \<Rightarrow> rpc_method \<Rightarrow> 's open_result" where
  "terminus_open c ev method =
     (case terminus c ev method of Inl e \<Rightarrow> (None, Some e) | Inr call \<Rightarrow> (Some (oe_wrap ev call), None))"

text \<open>The calls the terminal opener returned, newest first, from the log of its requests.\<close>

definition opened_calls :: "('t, 'c) client \<Rightarrow> ('k, 's) open_env \<Rightarrow> rpc_method list \<Rightarrow> 'k list" where
  "opened_calls c ev log =
     List.map_filter (\<lambda>m. case terminus c ev m of Inl _ \<Rightarrow> None | Inr call \<Rightarrow> Some call) log"

record ('k, 's) call_stream =
  cs_call :: 'k
  cs_stream :: 's
  cs_headersReady :: bool
  cs_closed :: bool
  cs_leakClosed :: bool
  cs_closeErr :: "go_error option"

text \<open>
  \<open>Open\<close>: the stream or the error, the calls that were opened, those closed again before
  returning, and the client's counter afterwards.
\<close>

definition client_open ::
    "('t, 'c) client \<Rightarrow> ('k, 's) open_env
     \<Rightarrow> (go_error + ('k, 's) call_stream) \<times> 'k list \<times> 'k list \<times> client_gate" where
  "client_open c ev =
     (let m = oe_method ev; g = cl_gate c in
      if oe_nilCtx ev then (Inl (ErrNew ''client: nil context''), [], [], g)
      else
        (case oe_ctxErr ev of
           Some e \<Rightarrow> (Inl e, [], [], g)
         | None \<Rightarrow>
             if method_is_zero m then (Inl (ErrNew ''client: zero Method''), [], [], g)
             else if m_service m \<noteq> cl_service c then
               (Inl (ErrNew (''client: method service '' @ go_quote (m_service m)
                       @ '' does not match client service '' @ go_quote (cl_service c))), [], [], g)
             else
               (case client_admit g of
                  Inl e \<Rightarrow> (Inl e, [], [], g)
                | Inr g' \<Rightarrow>
                    (case chain_open (map (oe_filt ev) (OpenFilters (cl_cfg c)))
                            (terminal (terminus_open c ev)) m [] of
                       ((st, err), log) \<Rightarrow>
                         let opened = opened_calls c ev log in
                         let abandoned = (case opened of [] \<Rightarrow> [] | call # _ \<Rightarrow> [call]) in
                         (case err of
                            Some e \<Rightarrow> (Inl e, opened, abandoned, release_admit g')
                          | None \<Rightarrow>
                              (case opened of
                                 [] \<Rightarrow> (Inl (ErrNew ''client: OpenFilter returned stream without opening a call''),
                                        opened, abandoned, release_admit g')
                               | call # _ \<Rightarrow>
                                   (case st of
                                      None \<Rightarrow>
                                        (Inl (ErrWrap (err_text err_open_filter_misuse
                                            @ '': OpenFilter returned a nil stream after opening the call'')
                                            [err_open_filter_misuse]),
                                         opened, abandoned, release_admit g')
                                    | Some s \<Rightarrow>
                                        (Inr \<lparr>cs_call = call, cs_stream = s, cs_headersReady = False,
                                              cs_closed = False, cs_leakClosed = False, cs_closeErr = None\<rparr>,
                                         opened, [], g'))))))))"

lemma chain_log_short:
  "length (snd (chain_open fs (terminal f) q [])) \<le> 1"
proof -
  obtain xs where "snd (chain_open fs (terminal f) q []) = xs @ []" "length xs \<le> 1"
    using chain_open_once [OF terminal_once, of fs f] unfolding at_most_once_def by blast
  then show ?thesis by simp
qed

lemma opened_short: "length log \<le> 1 \<Longrightarrow> length (opened_calls c ev log) \<le> 1"
  unfolding opened_calls_def List.map_filter_def length_map by (rule order_trans [OF length_filter_le])

lemma admit_release: "client_admit g = Inr g' \<Longrightarrow> 0 \<le> cg_inFlight g \<Longrightarrow> release_admit g' = g"
  by (cases g) (auto simp: client_admit_def release_admit_def split: if_splits)

text \<open>
  C6: \<open>Open\<close> never leaks. Whatever the open filters, the resolver and the transport do, at most one
  call is opened; when \<open>Open\<close> fails, every call that was opened has been closed again and the
  admission counter is as before; when it succeeds, the stream it returns carries exactly the call
  that was opened, nothing was closed, and the counter went up by one and is within the limit.
\<close>

theorem open_never_leaks:
  assumes "0 \<le> cg_inFlight (cl_gate c)"
  shows "case client_open c ev of
           (Inl _, opened, closed, g) \<Rightarrow> closed = opened \<and> g = cl_gate c \<and> length opened \<le> 1
         | (Inr cs, opened, closed, g) \<Rightarrow>
             opened = [cs_call cs] \<and> closed = []
             \<and> cg_inFlight g = cg_inFlight (cl_gate c) + 1
             \<and> (cg_MaxConcurrentCalls g \<le> 0 \<or> cg_inFlight g \<le> cg_MaxConcurrentCalls g)"
proof (cases "client_admit (cl_gate c)")
  case (Inl e)
  then show ?thesis by (auto simp: client_open_def Let_def split: option.splits)
next
  case (Inr g')
  obtain st err log where ch: "chain_open (map (oe_filt ev) (OpenFilters (cl_cfg c)))
      (terminal (terminus_open c ev)) (oe_method ev) [] = ((st, err), log)"
    by (metis prod.collapse)
  have "length log \<le> 1" using chain_log_short ch by (metis snd_conv)
  then have o: "length (opened_calls c ev log) \<le> 1" by (rule opened_short)
  note r = admit_release [OF Inr assms]
  have g: "cg_inFlight g' = cg_inFlight (cl_gate c) + 1
      \<and> (cg_MaxConcurrentCalls g' \<le> 0 \<or> cg_inFlight g' \<le> cg_MaxConcurrentCalls g')"
    using Inr by (auto simp: client_admit_def split: if_splits)
  show ?thesis
  proof (cases "opened_calls c ev log")
    case Nil
    then show ?thesis
      by (auto simp: client_open_def Let_def Inr ch r split: option.splits)
  next
    case (Cons k ks)
    with o have "ks = []" by simp
    with Cons g r show ?thesis
      by (auto simp: client_open_def Let_def Inr ch split: option.splits)
  qed
qed

definition demo_client :: "(nat, nat) client" where
  "demo_client = \<lparr>cl_cfg = defaults\<lparr>OpenFilters := [0]\<rparr>, cl_service = ''a.S'', cl_target = ''ip://h:1'',
     cl_transport = 0, cl_codec = 0, cl_gate = \<lparr>cg_MaxConcurrentCalls = 1, cg_inFlight = 0\<rparr>\<rparr>"

definition demo_env :: "(nat, nat) open_env" where
  "demo_env = \<lparr>oe_nilCtx = False, oe_ctxErr = None,
     oe_method = \<lparr>m_fullName = ''a.S.X'', m_service = ''a.S'', m_name = ''X'', m_shape = 0\<rparr>,
     oe_filt = (\<lambda>_ q. CallNext q (\<lambda>_. CallNext q (\<lambda>_. Return (None, None)))),
     oe_parse = (\<lambda>_. Inr ''h:1''), oe_openCall = (\<lambda>_ _. Inr 7), oe_wrap = (\<lambda>k. k)\<rparr>"

text \<open>A filter that opens the call, asks again, and returns nothing: the call is closed.\<close>

lemma open_never_leaks_witness:
  "case client_open demo_client demo_env of
     (Inl _, opened, closed, g) \<Rightarrow> closed = opened \<and> g = cl_gate demo_client \<and> opened = [7]
   | (Inr _, _) \<Rightarrow> False"
proof -
  have 1: "0 \<le> cg_inFlight (cl_gate demo_client)" by code_simp
  have 2: "\<exists>e x g. client_open demo_client demo_env = (Inl e, [7], x, g)"
    by (simp add: client_open_def demo_client_def demo_env_def Let_def method_is_zero_def client_admit_def
        defaults_def chain_open_def open_layer_def terminal_def opened_calls_def terminus_def
        terminus_open_def List.map_filter_def)
  from open_never_leaks [OF 1, of demo_env] 2 show ?thesis by (auto split: sum.splits)
qed

section \<open>The call stream\<close>

text \<open>
  Each operation looks at the call context before and after the stream operation it delegates to;
  \<open>ctx0\<close> and \<open>ctx1\<close> are its errors then, \<open>res\<close> is what the stream operation returned.
\<close>

definition interrupted :: "go_error option \<Rightarrow> go_error option \<Rightarrow> go_error option" where
  "interrupted ctxErr err =
     (case err of
        None \<Rightarrow> None
      | Some e \<Rightarrow>
          if errors_is e err_EOF then err
          else if errors_as_status e \<noteq> None then err
          else (case ctxErr of Some ce \<Rightarrow> Some ce | None \<Rightarrow> err))"

definition cs_send :: "go_error option \<Rightarrow> go_error option \<Rightarrow> go_error option \<Rightarrow> go_error option" where
  "cs_send ctx0 res ctx1 = (case ctx0 of Some e \<Rightarrow> Some e | None \<Rightarrow> interrupted ctx1 res)"

definition cs_half_close :: "go_error option \<Rightarrow> go_error option \<Rightarrow> go_error option \<Rightarrow> go_error option" where
  "cs_half_close ctx0 res ctx1 = (case ctx0 of Some e \<Rightarrow> Some e | None \<Rightarrow> interrupted ctx1 res)"

definition cs_recv ::
    "go_error option \<Rightarrow> go_error option \<Rightarrow> go_error option \<Rightarrow> ('k, 's) call_stream
     \<Rightarrow> go_error option \<times> ('k, 's) call_stream" where
  "cs_recv ctx0 res ctx1 s =
     (case ctx0 of
        Some e \<Rightarrow> (Some e, s)
      | None \<Rightarrow>
          let s' = (if (case res of None \<Rightarrow> True
                        | Some e \<Rightarrow> errors_is e err_EOF \<or> errors_as_status e \<noteq> None)
                    then s\<lparr>cs_headersReady := True\<rparr> else s) in
          (interrupted ctx1 res, s'))"

definition err_client_call_closed :: go_error where "err_client_call_closed = ErrVar ''client: call closed''"

text \<open>
  \<open>Header\<close> waits for one of three channels: headers ready, closed, context done. \<open>None\<close> is that it
  still waits; when several are ready \<open>pick\<close> is the choice the runtime makes.
\<close>

datatype header_case = HeadersCh | ClosedCh | CtxDone

definition cs_header ::
    "header_case \<Rightarrow> go_error option \<Rightarrow> 'm \<Rightarrow> ('k, 's) call_stream \<Rightarrow> (go_error + 'm) option" where
  "cs_header pick ctxErr md s =
     (if cs_closed s then Some (Inl err_client_call_closed)
      else
        (case pick of
           HeadersCh \<Rightarrow> if cs_headersReady s then Some (Inr md) else None
         | ClosedCh \<Rightarrow> None
         | CtxDone \<Rightarrow> (case ctxErr of Some e \<Rightarrow> Some (Inl e) | None \<Rightarrow> None)))"

definition cs_trailer :: "'m \<Rightarrow> ('k, 's) call_stream \<Rightarrow> 'm option" where
  "cs_trailer md s = (if cs_closed s then None else Some md)"

text \<open>\<open>Close\<close> runs its body once; \<open>callErr\<close> is what closing the call returned.\<close>

definition cs_close ::
    "go_error option \<Rightarrow> client_gate \<Rightarrow> ('k, 's) call_stream
     \<Rightarrow> go_error option \<times> client_gate \<times> ('k, 's) call_stream" where
  "cs_close callErr g s =
     (if cs_closed s then (cs_closeErr s, g, s)
      else (callErr, release_admit g,
            s\<lparr>cs_closed := True, cs_leakClosed := True, cs_closeErr := callErr\<rparr>))"

text \<open>The clean-up hook of a stream that became unreachable.\<close>

definition leak_cleanup :: "client_gate \<Rightarrow> ('k, 's) call_stream \<Rightarrow> client_gate" where
  "leak_cleanup g s = (if cs_leakClosed s then g else release_admit g)"

section \<open>A client and its streams\<close>

text \<open>
  Streams are listed with a flag that tells whether the application still holds them; a stream it
  dropped can only be collected, once.
\<close>

record ('t, 'c, 'k, 's) client_world =
  kw_client :: "('t, 'c) client"
  kw_streams :: "(bool \<times> ('k, 's) call_stream) list"

datatype ('k, 's) client_event =
    ClOpen "('k, 's) open_env"
  | ClClose nat "go_error option"
  | ClLeak nat

fun kw_step :: "('k, 's) client_event \<Rightarrow> ('t, 'c, 'k, 's) client_world \<Rightarrow> ('t, 'c, 'k, 's) client_world" where
  "kw_step (ClOpen ev) w =
     (case client_open (kw_client w) ev of
        (r, _, _, g) \<Rightarrow>
          w\<lparr>kw_client := (kw_client w)\<lparr>cl_gate := g\<rparr>,
            kw_streams := (case r of Inl _ \<Rightarrow> kw_streams w | Inr cs \<Rightarrow> kw_streams w @ [(True, cs)])\<rparr>)"
| "kw_step (ClClose i callErr) w =
     (if i < length (kw_streams w) \<and> fst (kw_streams w ! i) then
        (case cs_close callErr (cl_gate (kw_client w)) (snd (kw_streams w ! i)) of
           (_, g, s) \<Rightarrow>
             w\<lparr>kw_client := (kw_client w)\<lparr>cl_gate := g\<rparr>,
               kw_streams := (kw_streams w)[i := (True, s)]\<rparr>)
      else w)"
| "kw_step (ClLeak i) w =
     (if i < length (kw_streams w) \<and> fst (kw_streams w ! i) then
        (let s = snd (kw_streams w ! i) in
         w\<lparr>kw_client := (kw_client w)\<lparr>cl_gate := leak_cleanup (cl_gate (kw_client w)) s\<rparr>,
           kw_streams := (kw_streams w)[i := (False, s)]\<rparr>)
      else w)"

definition in_flight_stream :: "bool \<times> ('k, 's) call_stream \<Rightarrow> bool" where
  "in_flight_stream x \<longleftrightarrow> fst x \<and> \<not> cs_closed (snd x)"

definition kw_inv :: "int \<Rightarrow> ('t, 'c, 'k, 's) client_world \<Rightarrow> bool" where
  "kw_inv n w \<longleftrightarrow>
     cg_MaxConcurrentCalls (cl_gate (kw_client w)) = n
     \<and> cg_inFlight (cl_gate (kw_client w)) = int (length (filter in_flight_stream (kw_streams w)))
     \<and> (n \<le> 0 \<or> cg_inFlight (cl_gate (kw_client w)) \<le> n)
     \<and> list_all (\<lambda>x. cs_leakClosed (snd x) = cs_closed (snd x)) (kw_streams w)"

lemma open_gate_max: "cg_MaxConcurrentCalls (snd (snd (snd (client_open c ev)))) = cg_MaxConcurrentCalls (cl_gate c)"
  by (auto simp: client_open_def Let_def release_admit_def client_admit_def
      split: option.splits sum.splits prod.splits list.splits if_splits)

lemma open_fresh: "fst (client_open c ev) = Inr cs \<Longrightarrow> \<not> cs_closed cs \<and> \<not> cs_leakClosed cs"
  by (auto simp: client_open_def Let_def split: option.splits sum.splits prod.splits list.splits if_splits)

lemma open_gate_effect:
  assumes "0 \<le> cg_inFlight (cl_gate c)"
  shows "case client_open c ev of
           (Inl _, _, _, g) \<Rightarrow> g = cl_gate c
         | (Inr cs, _, _, g) \<Rightarrow> client_admit (cl_gate c) = Inr g"
proof (cases "client_admit (cl_gate c)")
  case (Inr g')
  note r = admit_release [OF Inr assms]
  show ?thesis
    by (auto simp: client_open_def Let_def Inr r split: option.splits prod.splits list.splits)
qed (auto simp: client_open_def Let_def split: option.splits)

lemma kw_open_inv: "kw_inv n w \<Longrightarrow> kw_inv n (kw_step (ClOpen ev) w)"
proof -
  assume i: "kw_inv n w"
  let ?c = "kw_client w"
  obtain r op cl g where o: "client_open ?c ev = (r, op, cl, g)" by (metis prod.collapse)
  have nn: "0 \<le> cg_inFlight (cl_gate ?c)" using i by (simp add: kw_inv_def)
  have mx: "cg_MaxConcurrentCalls g = n" using open_gate_max [of ?c ev] i o by (simp add: kw_inv_def)
  note e = open_gate_effect [OF nn, of ev, unfolded o]
  show ?thesis
  proof (cases r)
    case (Inl x)
    with e i o mx show ?thesis by (auto simp: kw_inv_def)
  next
    case (Inr cs)
    then have f: "\<not> cs_closed cs" "\<not> cs_leakClosed cs" using open_fresh [of ?c ev cs] o by simp_all
    have a: "client_admit (cl_gate ?c) = Inr g" using e Inr by simp
    then have "cg_inFlight g = cg_inFlight (cl_gate ?c) + 1 \<and> (n \<le> 0 \<or> cg_inFlight g \<le> n)"
      using mx by (auto simp: client_admit_def split: if_splits)
    with f i o mx Inr show ?thesis by (auto simp: kw_inv_def in_flight_stream_def)
  qed
qed

lemma kw_step_inv: "kw_inv n w \<Longrightarrow> kw_inv n (kw_step e w)"
proof (cases e)
  case (ClOpen ev)
  then show "kw_inv n w \<Longrightarrow> ?thesis" using kw_open_inv by simp
next
  case (ClClose i ce)
  assume iv: "kw_inv n w"
  let ?xs = "kw_streams w" and ?g = "cl_gate (kw_client w)"
  show ?thesis
  proof (cases "i < length ?xs \<and> in_flight_stream (?xs ! i)")
    case True
    let ?s = "(snd (?xs ! i))\<lparr>cs_closed := True, cs_leakClosed := True, cs_closeErr := ce\<rparr>"
    have u: "int (length (filter in_flight_stream (?xs[i := (True, ?s)])))
        = int (length (filter in_flight_stream ?xs)) - 1"
      by (rule filter_update_len) (use True in \<open>auto simp: in_flight_stream_def\<close>)
    have "0 \<le> int (length (filter in_flight_stream (?xs[i := (True, ?s)])))" by simp
    then have pos: "0 < cg_inFlight ?g" using u iv by (simp add: kw_inv_def)
    have st: "kw_step e w = w\<lparr>kw_client := (kw_client w)\<lparr>cl_gate := release_admit ?g\<rparr>,
        kw_streams := ?xs[i := (True, ?s)]\<rparr>"
      using True by (simp add: ClClose cs_close_def in_flight_stream_def)
    have "list_all (\<lambda>x. cs_leakClosed (snd x) = cs_closed (snd x)) (?xs[i := (True, ?s)])"
      using iv by (intro list_all_update) (simp_all add: kw_inv_def)
    with u pos iv show ?thesis unfolding st by (auto simp: kw_inv_def release_admit_def)
  next
    case False
    then have "kw_step e w = w"
    proof (cases "i < length ?xs \<and> fst (?xs ! i)")
      case True
      with False have "cs_closed (snd (?xs ! i))" by (simp add: in_flight_stream_def)
      moreover have "?xs[i := (True, snd (?xs ! i))] = ?xs"
        using True by (metis list_update_id prod.collapse)
      ultimately show ?thesis using True by (simp add: ClClose cs_close_def)
    qed (auto simp: ClClose)
    with iv show ?thesis by simp
  qed
next
  case (ClLeak i)
  assume iv: "kw_inv n w"
  let ?xs = "kw_streams w" and ?g = "cl_gate (kw_client w)"
  show ?thesis
  proof (cases "i < length ?xs \<and> fst (?xs ! i)")
    case True
    let ?s = "snd (?xs ! i)"
    have lc: "cs_leakClosed ?s = cs_closed ?s" using iv True by (simp add: kw_inv_def list_all_length)
    have la: "list_all (\<lambda>x. cs_leakClosed (snd x) = cs_closed (snd x)) (?xs[i := (False, ?s)])"
      using iv lc by (intro list_all_update) (simp_all add: kw_inv_def)
    have st: "kw_step e w = w\<lparr>kw_client := (kw_client w)\<lparr>cl_gate := leak_cleanup ?g ?s\<rparr>,
        kw_streams := ?xs[i := (False, ?s)]\<rparr>" using True by (simp add: ClLeak Let_def)
    show ?thesis
    proof (cases "cs_closed ?s")
      case closed: True
      have "length (filter in_flight_stream (?xs[i := (False, ?s)])) = length (filter in_flight_stream ?xs)"
        by (rule filter_update_same) (use True closed in \<open>auto simp: in_flight_stream_def\<close>)
      with la lc closed iv show ?thesis unfolding st by (auto simp: kw_inv_def leak_cleanup_def)
    next
      case False
      have u: "int (length (filter in_flight_stream (?xs[i := (False, ?s)])))
          = int (length (filter in_flight_stream ?xs)) - 1"
        by (rule filter_update_len) (use True False in \<open>auto simp: in_flight_stream_def\<close>)
      have "0 \<le> int (length (filter in_flight_stream (?xs[i := (False, ?s)])))" by simp
      then have pos: "0 < cg_inFlight ?g" using u iv by (simp add: kw_inv_def)
      with u la lc False iv show ?thesis
        unfolding st by (auto simp: kw_inv_def leak_cleanup_def release_admit_def)
    qed
  qed (use iv ClLeak in auto)
qed

interpretation client_machine: invariant_machine kw_step "kw_inv n" for n
  by unfold_locales (rule kw_step_inv)

text \<open>
  C22: a client's in-flight count is exact. Starting from a fresh client, after any sequence of
  opened calls (whatever filters, resolver and transport do, failures included), closes (repeated
  ones included) and leaked streams collected without a close, the counter is the number of open
  streams the application still holds, and never above \<open>MaxConcurrentCalls\<close> when that is positive.
\<close>

theorem client_in_flight_exact:
  "let w = run_steps kw_step es
             \<lparr>kw_client = c\<lparr>cl_gate := \<lparr>cg_MaxConcurrentCalls = n, cg_inFlight = 0\<rparr>\<rparr>, kw_streams = []\<rparr> in
     cg_inFlight (cl_gate (kw_client w)) = int (length (filter in_flight_stream (kw_streams w)))
     \<and> (n \<le> 0 \<or> cg_inFlight (cl_gate (kw_client w)) \<le> n)"
proof -
  let ?w = "run_steps kw_step es
             \<lparr>kw_client = c\<lparr>cl_gate := \<lparr>cg_MaxConcurrentCalls = n, cg_inFlight = 0\<rparr>\<rparr>, kw_streams = []\<rparr>"
  have "kw_inv n ?w" by (rule client_machine.run_inv) (auto simp: kw_inv_def)
  then show ?thesis unfolding kw_inv_def Let_def by blast
qed

end
