(* ===== verification/Metadata.thy ===== *)
theory Metadata
  imports Status
begin

text \<open>
  Package \<open>metadata\<close> (src/metadata): the metadata map and the per-call handle \<open>callMD\<close>.
  A map is an association list in the order one \<open>range\<close> loop takes. The handle's operations
  are its critical sections; \<open>SendHeaders\<close> is two of them, with the wire submit in between,
  so that everything other goroutines may do in that window is an interleaving of steps.
\<close>

section \<open>Metadata values\<close>

type_synonym metadata = "(string, string list) gomap"

definition md_get :: "metadata \<Rightarrow> string \<Rightarrow> string list" where
  "md_get md k = (case map_of md k of None \<Rightarrow> [] | Some vs \<Rightarrow> vs)"

fun wire_values :: "string \<Rightarrow> string list \<Rightarrow> int" where
  "wire_values k [] = 0"
| "wire_values k (v # vs) = int (length k) + int (length v) + 2 + wire_values k vs"

fun wire_size :: "metadata \<Rightarrow> int" where
  "wire_size [] = 0"
| "wire_size ((k, vs) # md) = wire_values k vs + wire_size md"

fun md_clone :: "metadata option \<Rightarrow> metadata option" where
  "md_clone None = None"
| "md_clone (Some md) = Some (map (\<lambda>(k, vs). (k, map id vs)) md)"

lemma md_clone_id [simp]: "md_clone m = m"
  by (cases m) simp_all

definition md_add :: "metadata \<Rightarrow> string \<Rightarrow> string list \<Rightarrow> metadata" where
  "md_add md k vs =
     (if vs = [] then md
      else alist_upd k (\<lambda>old. (case old of None \<Rightarrow> [] | Some o' \<Rightarrow> o') @ vs) md)"

lemma md_add_get:
  "md_get (md_add md k vs) k' = (if k' = k then md_get md k @ vs else md_get md k')"
  by (auto simp: md_get_def md_add_def alist_upd_lookup split: option.splits)

lemma md_add_distinct: "distinct (map fst md) \<Longrightarrow> distinct (map fst (md_add md k vs))"
  by (simp add: md_add_def alist_upd_distinct)

lemma wire_values_append: "wire_values k (vs @ ws) = wire_values k vs + wire_values k ws"
  by (induction vs) simp_all

lemma wire_size_add: "wire_size (md_add md k vs) = wire_size md + wire_values k vs"
proof (cases "vs = []")
  case False
  then have eq: "md_add md k vs =
      alist_upd k (\<lambda>old. (case old of None \<Rightarrow> [] | Some o' \<Rightarrow> o') @ vs) md"
    by (simp add: md_add_def)
  show ?thesis unfolding eq
    by (induction md) (auto simp: wire_values_append split: option.splits)
qed (simp add: md_add_def)

lemma wire_values_nonneg: "0 \<le> wire_values k vs"
  by (induction vs) simp_all

lemma wire_size_nonneg: "0 \<le> wire_size md"
  by (induction md rule: wire_size.induct) (simp_all add: wire_values_nonneg)

section \<open>The call handle\<close>

datatype role = RoleInitiator | RoleResponder

record call_md =
  md_role :: role
  md_can_send :: bool
  incomingHeaders :: metadata
  incomingTrailers :: metadata
  outgoingHeaders :: metadata
  outgoingTrailers :: metadata
  headersFrozen :: bool
  headersSent :: bool
  trailersFrozen :: bool

definition err_headers_already_sent :: go_error where
  "err_headers_already_sent = ErrVar ''metadata: headers already sent''"

definition err_outgoing_headers_frozen :: go_error where
  "err_outgoing_headers_frozen = ErrVar ''metadata: outgoing headers frozen''"

definition err_outgoing_trailers_frozen :: go_error where
  "err_outgoing_trailers_frozen = ErrVar ''metadata: outgoing trailers frozen''"

definition err_send_headers_unsupported :: go_error where
  "err_send_headers_unsupported = status_error Unimplemented ''metadata: SendHeaders unsupported''"

definition err_trailers_initiator :: go_error where
  "err_trailers_initiator =
     status_error Unimplemented ''metadata: AddOutgoingTrailer unsupported for initiator''"

text \<open>\<open>New(role, sendHeaders)\<close>; the flag says whether \<open>sendHeaders\<close> is non-nil.\<close>

definition new_call_md :: "role \<Rightarrow> bool \<Rightarrow> call_md" where
  "new_call_md r can =
     \<lparr>md_role = r, md_can_send = can, incomingHeaders = [], incomingTrailers = [],
      outgoingHeaders = [], outgoingTrailers = [], headersFrozen = False, headersSent = False,
      trailersFrozen = False\<rparr>"

definition add_outgoing_header ::
    "string \<Rightarrow> string list \<Rightarrow> call_md \<Rightarrow> call_md \<times> go_error option" where
  "add_outgoing_header k vs c =
     (if headersFrozen c then (c, Some err_outgoing_headers_frozen)
      else (c\<lparr>outgoingHeaders := md_add (outgoingHeaders c) k vs\<rparr>, None))"

definition add_outgoing_trailer ::
    "string \<Rightarrow> string list \<Rightarrow> call_md \<Rightarrow> call_md \<times> go_error option" where
  "add_outgoing_trailer k vs c =
     (if md_role c = RoleInitiator then (c, Some err_trailers_initiator)
      else if trailersFrozen c then (c, Some err_outgoing_trailers_frozen)
      else (c\<lparr>outgoingTrailers := md_add (outgoingTrailers c) k vs\<rparr>, None))"

text \<open>
  \<open>SendHeaders\<close> up to the first unlock: an error, or the snapshot handed to the carrier; and the
  second critical section, entered when the carrier returned nil.
\<close>

definition send_headers_begin :: "call_md \<Rightarrow> go_error + metadata" where
  "send_headers_begin c =
     (if md_role c \<noteq> RoleResponder then Inl err_send_headers_unsupported
      else if headersSent c then Inl err_headers_already_sent
      else if headersFrozen c then Inl err_headers_already_sent
      else if \<not> md_can_send c then Inl err_send_headers_unsupported
      else Inr (outgoingHeaders c))"

definition send_headers_commit :: "call_md \<Rightarrow> call_md \<times> go_error option" where
  "send_headers_commit c =
     (if headersSent c then (c, Some err_headers_already_sent)
      else (c\<lparr>headersFrozen := True, headersSent := True\<rparr>, None))"

text \<open>The whole operation when no other goroutine runs in the window.\<close>

definition send_headers ::
    "(metadata \<Rightarrow> go_error option) \<Rightarrow> call_md \<Rightarrow> call_md \<times> go_error option" where
  "send_headers carrier c =
     (case send_headers_begin c of
        Inl e \<Rightarrow> (c, Some e)
      | Inr snapshot \<Rightarrow>
          (case carrier snapshot of
             Some e \<Rightarrow> (c, Some e)
           | None \<Rightarrow> send_headers_commit c))"

definition set_incoming_headers :: "metadata option \<Rightarrow> call_md \<Rightarrow> call_md" where
  "set_incoming_headers h c =
     c\<lparr>incomingHeaders := (case h of None \<Rightarrow> [] | Some md \<Rightarrow> md)\<rparr>"

definition set_incoming_trailers :: "metadata option \<Rightarrow> call_md \<Rightarrow> call_md" where
  "set_incoming_trailers t c =
     c\<lparr>incomingTrailers := (case t of None \<Rightarrow> [] | Some md \<Rightarrow> md)\<rparr>"

definition freeze_outgoing_headers :: "call_md \<Rightarrow> call_md" where
  "freeze_outgoing_headers c = c\<lparr>headersFrozen := True\<rparr>"

definition freeze_outgoing_trailers :: "call_md \<Rightarrow> call_md" where
  "freeze_outgoing_trailers c = c\<lparr>trailersFrozen := True\<rparr>"

section \<open>Interleavings of the critical sections\<close>

text \<open>
  Goroutines are numbered. \<open>MdSendBegin t\<close> is goroutine \<open>t\<close> entering \<open>SendHeaders\<close>;
  \<open>MdSendEnd t r\<close> is its carrier call returning \<open>r\<close>, with the second critical section when
  \<open>r\<close> is nil. The state keeps the snapshots in flight, the number of \<open>SendHeaders\<close> calls that
  returned nil, and the outgoing headers at the first moment they were frozen.
\<close>

datatype md_event =
    MdAddHeader string "string list"
  | MdAddTrailer string "string list"
  | MdSetIncoming "metadata option"
  | MdSetIncomingTrailers "metadata option"
  | MdFreezeHeaders
  | MdFreezeTrailers
  | MdSendBegin nat
  | MdSendEnd nat "go_error option"

record md_world =
  w_md :: call_md
  w_inflight :: "(nat, metadata) gomap"
  w_sent :: nat
  w_refused :: "go_error list"

definition md_init :: "role \<Rightarrow> bool \<Rightarrow> md_world" where
  "md_init r can = \<lparr>w_md = new_call_md r can, w_inflight = [], w_sent = 0, w_refused = []\<rparr>"

definition note_refused :: "go_error option \<Rightarrow> md_world \<Rightarrow> md_world" where
  "note_refused e w = (case e of None \<Rightarrow> w | Some x \<Rightarrow> w\<lparr>w_refused := x # w_refused w\<rparr>)"

fun md_step :: "md_event \<Rightarrow> md_world \<Rightarrow> md_world" where
  "md_step (MdAddHeader k vs) w =
     (case add_outgoing_header k vs (w_md w) of (c, e) \<Rightarrow> note_refused e (w\<lparr>w_md := c\<rparr>))"
| "md_step (MdAddTrailer k vs) w =
     (case add_outgoing_trailer k vs (w_md w) of (c, e) \<Rightarrow> note_refused e (w\<lparr>w_md := c\<rparr>))"
| "md_step (MdSetIncoming h) w = w\<lparr>w_md := set_incoming_headers h (w_md w)\<rparr>"
| "md_step (MdSetIncomingTrailers t) w = w\<lparr>w_md := set_incoming_trailers t (w_md w)\<rparr>"
| "md_step MdFreezeHeaders w = w\<lparr>w_md := freeze_outgoing_headers (w_md w)\<rparr>"
| "md_step MdFreezeTrailers w = w\<lparr>w_md := freeze_outgoing_trailers (w_md w)\<rparr>"
| "md_step (MdSendBegin t) w =
     (if map_of (w_inflight w) t \<noteq> None then w
      else case send_headers_begin (w_md w) of
             Inl e \<Rightarrow> note_refused (Some e) w
           | Inr snap \<Rightarrow> w\<lparr>w_inflight := (t, snap) # w_inflight w\<rparr>)"
| "md_step (MdSendEnd t r) w =
     (case map_of (w_inflight w) t of
        None \<Rightarrow> w
      | Some snap \<Rightarrow>
          let w' = w\<lparr>w_inflight := filter (\<lambda>(t', _). t' \<noteq> t) (w_inflight w)\<rparr> in
          (case r of
             Some e \<Rightarrow> note_refused (Some e) w'
           | None \<Rightarrow>
               (case send_headers_commit (w_md w) of
                  (c, None) \<Rightarrow> w'\<lparr>w_md := c, w_sent := Suc (w_sent w)\<rparr>
                | (c, Some e) \<Rightarrow> note_refused (Some e) (w'\<lparr>w_md := c\<rparr>))))"

definition md_inv :: "md_world \<Rightarrow> bool" where
  "md_inv w \<longleftrightarrow>
     (headersSent (w_md w) \<longrightarrow> headersFrozen (w_md w))
     \<and> w_sent w = (if headersSent (w_md w) then 1 else 0)
     \<and> (md_role (w_md w) = RoleInitiator \<longrightarrow>
          w_inflight w = [] \<and> \<not> headersSent (w_md w) \<and> outgoingTrailers (w_md w) = [])
     \<and> (\<not> md_can_send (w_md w) \<longrightarrow> w_inflight w = [] \<and> \<not> headersSent (w_md w))"

lemmas md_op_defs =
  add_outgoing_header_def add_outgoing_trailer_def send_headers_begin_def
  send_headers_commit_def set_incoming_headers_def set_incoming_trailers_def
  freeze_outgoing_headers_def freeze_outgoing_trailers_def note_refused_def

lemma md_step_inv: "md_inv w \<Longrightarrow> md_inv (md_step e w)"
  by (cases e) (auto simp: md_inv_def md_op_defs Let_def split: option.splits sum.splits if_splits)

interpretation md_machine: invariant_machine md_step md_inv
  by unfold_locales (rule md_step_inv)

lemma md_init_inv: "md_inv (md_init r can)"
  by (simp add: md_inv_def md_init_def new_call_md_def)

lemma md_step_frozen:
  "headersFrozen (w_md w) \<Longrightarrow>
     headersFrozen (w_md (md_step e w))
     \<and> outgoingHeaders (w_md (md_step e w)) = outgoingHeaders (w_md w)"
  by (cases e) (auto simp: md_op_defs Let_def split: option.splits)

lemma md_run_frozen:
  "headersFrozen (w_md w) \<Longrightarrow>
     headersFrozen (w_md (run_steps md_step es w))
     \<and> outgoingHeaders (w_md (run_steps md_step es w)) = outgoingHeaders (w_md w)"
proof (induction es arbitrary: w)
  case (Cons e es)
  then show ?case using md_step_frozen [of w e] by simp
qed simp

lemma md_step_trailers_frozen:
  "trailersFrozen (w_md w) \<Longrightarrow>
     trailersFrozen (w_md (md_step e w))
     \<and> outgoingTrailers (w_md (md_step e w)) = outgoingTrailers (w_md w)"
  by (cases e) (auto simp: md_op_defs Let_def split: option.splits)

lemma md_run_trailers_frozen:
  "trailersFrozen (w_md w) \<Longrightarrow>
     trailersFrozen (w_md (run_steps md_step es w))
     \<and> outgoingTrailers (w_md (run_steps md_step es w)) = outgoingTrailers (w_md w)"
proof (induction es arbitrary: w)
  case (Cons e es)
  then show ?case using md_step_trailers_frozen [of w e] by simp
qed simp

lemma md_step_fixed:
  "md_role (w_md (md_step e w)) = md_role (w_md w)
   \<and> md_can_send (w_md (md_step e w)) = md_can_send (w_md w)"
  by (cases e) (auto simp: md_op_defs Let_def split: option.splits)

lemma md_run_fixed:
  "md_role (w_md (run_steps md_step es w)) = md_role (w_md w)
   \<and> md_can_send (w_md (run_steps md_step es w)) = md_can_send (w_md w)"
  by (induction es arbitrary: w) (simp_all add: md_step_fixed)

text \<open>
  C27: whatever the goroutines of a call do and however their critical sections interleave, at
  most one \<open>SendHeaders\<close> reports success, none does for the initiator or a carrier without header
  submit, and an initiator never has outgoing trailers.
\<close>

theorem send_headers_once:
  "w_sent (run_steps md_step es (md_init r can)) \<le> (if r = RoleResponder \<and> can then 1 else 0)
   \<and> (r = RoleResponder
      \<or> outgoingTrailers (w_md (run_steps md_step es (md_init r can))) = [])"
proof -
  let ?w = "run_steps md_step es (md_init r can)"
  have "md_inv ?w" by (rule md_machine.run_inv [OF md_init_inv])
  moreover have "md_role (w_md ?w) = r" and "md_can_send (w_md ?w) = can"
    using md_run_fixed [of es "md_init r can"] by (simp_all add: md_init_def new_call_md_def)
  ultimately show ?thesis by (cases r) (auto simp: md_inv_def)
qed

text \<open>
  Freezing is permanent under every interleaving: from the moment outgoing headers (trailers)
  are frozen, no sequence of operations changes them.
\<close>

lemma frozen_stays:
  "(headersFrozen (w_md w) \<longrightarrow>
      outgoingHeaders (w_md (run_steps md_step es w)) = outgoingHeaders (w_md w))
   \<and> (trailersFrozen (w_md w) \<longrightarrow>
      outgoingTrailers (w_md (run_steps md_step es w)) = outgoingTrailers (w_md w))"
  using md_run_frozen md_run_trailers_frozen by blast

definition md_demo :: md_world where
  "md_demo = run_steps md_step [MdAddHeader ''a'' [''1''], MdFreezeHeaders, MdFreezeTrailers]
               (md_init RoleResponder True)"

lemma frozen_stays_witness:
  "outgoingHeaders (w_md (run_steps md_step [MdAddHeader ''b'' [''2''], MdSendBegin 0] md_demo))
     = [(''a'', [''1''])]
   \<and> outgoingTrailers (w_md (run_steps md_step [MdAddTrailer ''t'' [''3'']] md_demo)) = []"
proof -
  have w: "headersFrozen (w_md md_demo)" "trailersFrozen (w_md md_demo)"
      "outgoingHeaders (w_md md_demo) = [(''a'', [''1''])]" "outgoingTrailers (w_md md_demo) = []"
    by code_simp+
  show ?thesis
    using frozen_stays [of md_demo "[MdAddHeader ''b'' [''2''], MdSendBegin 0]"]
      frozen_stays [of md_demo "[MdAddTrailer ''t'' [''3'']]"] w by simp
qed

end
