(* ===== verification/Grpc_Metadata.thy ===== *)
theory Grpc_Metadata
  imports Metadata
begin

text \<open>
  User metadata on gRPC headers (src/transport/grpc/metadata.go, reserved.go): lower-cased keys,
  reserved names stripped, \<open>-bin\<close> values in base64. Base64 is Go's: the encoder without
  padding, the decoder skipping line breaks, requiring padding exactly in the standard variant
  and ignoring unused trailing bits.
\<close>

type_synonym headers = "(string \<times> string) list"

section \<open>Base64\<close>

definition b64_char :: "nat \<Rightarrow> char" where
  "b64_char n =
     (if n < 26 then char_of (65 + n)
      else if n < 52 then char_of (71 + n)
      else if n < 62 then char_of (n - 4)
      else if n = 62 then char_of (43 :: nat)
      else char_of (47 :: nat))"

definition b64_val :: "char \<Rightarrow> nat option" where
  "b64_val c =
     (if is_upper c then Some (byte c - 65)
      else if is_lower c then Some (byte c - 71)
      else if is_digit c then Some (byte c + 4)
      else if byte c = 43 then Some 62
      else if byte c = 47 then Some 63
      else None)"

fun b64_encode :: "bytes \<Rightarrow> string" where
  "b64_encode [] = []"
| "b64_encode [a] = [b64_char (byte a div 4), b64_char (byte a mod 4 * 16)]"
| "b64_encode [a, b] =
     [b64_char (byte a div 4), b64_char (byte a mod 4 * 16 + byte b div 16),
      b64_char (byte b mod 16 * 4)]"
| "b64_encode (a # b # c # s) =
     b64_char (byte a div 4) # b64_char (byte a mod 4 * 16 + byte b div 16)
       # b64_char (byte b mod 16 * 4 + byte c div 64) # b64_char (byte c mod 64) # b64_encode s"

definition b64_pair :: "char \<Rightarrow> char \<Rightarrow> bytes option" where
  "b64_pair a b =
     (case (b64_val a, b64_val b) of
        (Some x, Some y) \<Rightarrow> Some [char_of (x * 4 + y div 16)]
      | _ \<Rightarrow> None)"

definition b64_triple :: "char \<Rightarrow> char \<Rightarrow> char \<Rightarrow> bytes option" where
  "b64_triple a b c =
     (case (b64_val a, b64_val b, b64_val c) of
        (Some x, Some y, Some z) \<Rightarrow>
          Some [char_of (x * 4 + y div 16), char_of (y mod 16 * 16 + z div 4)]
      | _ \<Rightarrow> None)"

definition b64_quad :: "char \<Rightarrow> char \<Rightarrow> char \<Rightarrow> char \<Rightarrow> bytes option" where
  "b64_quad a b c d =
     (case (b64_val a, b64_val b, b64_val c, b64_val d) of
        (Some x, Some y, Some z, Some w) \<Rightarrow>
          Some [char_of (x * 4 + y div 16), char_of (y mod 16 * 16 + z div 4),
                char_of (z mod 4 * 64 + w)]
      | _ \<Rightarrow> None)"

definition pad_char :: char where "pad_char = CHR ''=''"

fun b64_quanta :: "bool \<Rightarrow> string \<Rightarrow> bytes option" where
  "b64_quanta padded [] = Some []"
| "b64_quanta padded [a] = None"
| "b64_quanta padded [a, b] = (if padded then None else b64_pair a b)"
| "b64_quanta padded [a, b, c] = (if padded then None else b64_triple a b c)"
| "b64_quanta padded (a # b # c # d # s) =
     (if padded \<and> d = pad_char then
        (if s \<noteq> [] then None
         else if c = pad_char then b64_pair a b else b64_triple a b c)
      else case b64_quad a b c d of
             None \<Rightarrow> None
           | Some q \<Rightarrow> map_option (\<lambda>r. q @ r) (b64_quanta padded s))"

definition is_line_break :: "char \<Rightarrow> bool" where
  "is_line_break c \<longleftrightarrow> byte c = 10 \<or> byte c = 13"

definition b64_decode :: "bool \<Rightarrow> string \<Rightarrow> bytes option" where
  "b64_decode padded s = b64_quanta padded (filter (\<lambda>c. \<not> is_line_break c) s)"

lemma b64_val_char [simp]: "n < 64 \<Longrightarrow> b64_val (b64_char n) = Some n"
  by (auto simp: b64_val_def b64_char_def is_upper_def is_lower_def is_digit_def)

lemma byte_parts [simp]:
  "byte a div 4 < 64" "byte a mod 4 * 16 + byte b div 16 < 64"
  "byte b mod 16 * 4 + byte c div 64 < 64"
proof -
  have q: "byte a div 4 < 64" "byte b div 16 < 16" "byte c div 64 < 4"
    using byte_less [of a] byte_less [of b] byte_less [of c]
    by (simp_all add: less_mult_imp_div_less)
  have m: "byte a mod 4 \<le> 3" "byte b mod 16 \<le> 15"
    by (simp_all add: less_Suc_eq_le [symmetric])
  show "byte a div 4 < 64" by (rule q)
  show "byte a mod 4 * 16 + byte b div 16 < 64" using q m by linarith
  show "byte b mod 16 * 4 + byte c div 64 < 64" using q m by linarith
qed


lemma sextets:
  "byte a div 4 * 4 + (byte a mod 4 * 16 + byte b div 16) div 16 = byte a"
  "byte a div 4 * 4 + byte a mod 4 * 16 div 16 = byte a"
  "(byte a mod 4 * 16 + byte b div 16) mod 16 * 16 + (byte b mod 16 * 4 + byte c div 64) div 4 = byte b"
  "(byte a mod 4 * 16 + byte b div 16) mod 16 * 16 + byte b mod 16 * 4 div 4 = byte b"
  "(byte b mod 16 * 4 + byte c div 64) mod 4 * 64 + byte c mod 64 = byte c"
proof -
  have q: "byte b div 16 < 16" "byte c div 64 < 4"
    using byte_less [of b] byte_less [of c] by (simp_all add: less_mult_imp_div_less)
  have y: "(byte a mod 4 * 16 + byte b div 16) div 16 = byte a mod 4"
    "(byte a mod 4 * 16 + byte b div 16) mod 16 = byte b div 16"
    using q by simp_all
  have z: "(byte b mod 16 * 4 + byte c div 64) div 4 = byte b mod 16"
    "(byte b mod 16 * 4 + byte c div 64) mod 4 = byte c div 64"
    using q by simp_all
  show "byte a div 4 * 4 + (byte a mod 4 * 16 + byte b div 16) div 16 = byte a"
    "byte a div 4 * 4 + byte a mod 4 * 16 div 16 = byte a"
    "(byte a mod 4 * 16 + byte b div 16) mod 16 * 16 + (byte b mod 16 * 4 + byte c div 64) div 4 = byte b"
    "(byte a mod 4 * 16 + byte b div 16) mod 16 * 16 + byte b mod 16 * 4 div 4 = byte b"
    "(byte b mod 16 * 4 + byte c div 64) mod 4 * 64 + byte c mod 64 = byte c"
    unfolding y z by simp_all
qed

lemma b64_outside:
  "b64_val pad_char = None" "b64_val CHR '','' = None"
  "is_line_break c \<Longrightarrow> b64_val c = None"
proof -
  show "b64_val pad_char = None" and "b64_val CHR '','' = None" by code_simp+
  show "is_line_break c \<Longrightarrow> b64_val c = None"
    by (auto simp: is_line_break_def b64_val_def is_upper_def is_lower_def is_digit_def)
qed

lemma b64_char_not_pad [simp]: "n < 64 \<Longrightarrow> b64_char n \<noteq> pad_char"
  using b64_val_char [of n] b64_outside(1) by (metis option.distinct(1))

lemmas sextet_simps =
  b64_val_char byte_parts sextets char_of_byte option.case prod.case

lemma small_parts: "byte a mod 4 * 16 < 64" "byte a mod 16 * 4 < 64" "byte a mod 64 < 64"
  by (simp_all add: less_mult_imp_div_less)

lemma b64_pair_enc [simp]:
  "b64_pair (b64_char (byte a div 4)) (b64_char (byte a mod 4 * 16)) = Some [a]"
  by (simp only: b64_pair_def sextet_simps small_parts)

lemma b64_triple_enc [simp]:
  "b64_triple (b64_char (byte a div 4)) (b64_char (byte a mod 4 * 16 + byte b div 16))
     (b64_char (byte b mod 16 * 4)) = Some [a, b]"
  by (simp only: b64_triple_def sextet_simps small_parts)

lemma b64_quad_enc [simp]:
  "b64_quad (b64_char (byte a div 4)) (b64_char (byte a mod 4 * 16 + byte b div 16))
     (b64_char (byte b mod 16 * 4 + byte c div 64)) (b64_char (byte c mod 64)) = Some [a, b, c]"
  by (simp only: b64_quad_def sextet_simps small_parts)

lemma b64_quanta_encode:
  "padded \<longrightarrow> length (b64_encode x) mod 4 = 0 \<Longrightarrow> b64_quanta padded (b64_encode x) = Some x"
  by (induction x rule: b64_encode.induct) auto

lemma b64_encode_val: "c \<in> set (b64_encode x) \<Longrightarrow> b64_val c \<noteq> None"
  by (induction x rule: b64_encode.induct) (auto simp: small_parts)

lemma b64_encode_no_break:
  "filter (\<lambda>c. \<not> is_line_break c) (b64_encode x) = b64_encode x"
  using b64_encode_val b64_outside(3) by (metis filter_True)

lemma b64_decode_encode:
  "padded \<longrightarrow> length (b64_encode x) mod 4 = 0 \<Longrightarrow> b64_decode padded (b64_encode x) = Some x"
  by (simp add: b64_decode_def b64_encode_no_break b64_quanta_encode)

interpretation raw_base64: exact_codec b64_encode "b64_decode False" "\<lambda>_. True"
  by unfold_locales (simp add: b64_decode_encode)

section \<open>Metadata headers\<close>

definition bin_hdr_suffix :: string where "bin_hdr_suffix = ''-bin''"

definition is_reserved_header :: "string \<Rightarrow> bool" where
  "is_reserved_header hdr \<longleftrightarrow>
     (hdr \<noteq> [] \<and> hd hdr = CHR '':'')
     \<or> hdr \<in> set [''content-type'', ''user-agent'', ''grpc-message-type'', ''grpc-encoding'',
                 ''grpc-message'', ''grpc-status'', ''grpc-timeout'', ''te'']"

definition is_whitelisted_header :: "string \<Rightarrow> bool" where
  "is_whitelisted_header hdr \<longleftrightarrow> hdr \<in> set ['':authority'', ''user-agent'']"

definition encode_metadata_value :: "string \<Rightarrow> string \<Rightarrow> string" where
  "encode_metadata_value key v = (if has_suffix key bin_hdr_suffix then b64_encode v else v)"

fun encode_metadata :: "metadata \<Rightarrow> headers" where
  "encode_metadata [] = []"
| "encode_metadata ((k, vs) # md) =
     (if is_reserved_header (to_lower k) then encode_metadata md
      else map (\<lambda>v. (to_lower k, encode_metadata_value (to_lower k) v)) vs @ encode_metadata md)"

definition decode_bin_header :: "string \<Rightarrow> bytes option" where
  "decode_bin_header v = (if length v mod 4 = 0 then b64_decode True v else b64_decode False v)"

fun decode_all_bin :: "string list \<Rightarrow> bytes list option" where
  "decode_all_bin [] = Some []"
| "decode_all_bin (p # ps) =
     (case decode_bin_header p of
        None \<Rightarrow> None
      | Some b \<Rightarrow> map_option (\<lambda>bs. b # bs) (decode_all_bin ps))"

definition comma :: char where "comma = CHR '',''"

definition decode_metadata_values :: "string \<Rightarrow> string \<Rightarrow> string list option" where
  "decode_metadata_values key v =
     (if \<not> has_suffix key bin_hdr_suffix then Some [v] else decode_all_bin (split_on comma v))"

definition append_values :: "string \<Rightarrow> string list \<Rightarrow> metadata \<Rightarrow> metadata" where
  "append_values key vals out =
     alist_upd key (\<lambda>old. (case old of None \<Rightarrow> [] | Some o' \<Rightarrow> o') @ vals) out"

definition malformed_metadata :: "string \<Rightarrow> string \<Rightarrow> go_error" where
  "malformed_metadata v key =
     ErrNew (''grpc: malformed binary metadata '' @ go_quote v @ '' in header '' @ go_quote key)"

fun decode_headers :: "headers \<Rightarrow> metadata \<times> go_error option \<Rightarrow> metadata \<times> go_error option" where
  "decode_headers [] acc = acc"
| "decode_headers ((name, v) # hs) (out, firstErr) =
     (let key = to_lower name in
      if is_reserved_header key \<and> \<not> is_whitelisted_header key then
        decode_headers hs (out, firstErr)
      else case decode_metadata_values key v of
             None \<Rightarrow>
               decode_headers hs
                 (out, if firstErr = None then Some (malformed_metadata v key) else firstErr)
           | Some vals \<Rightarrow> decode_headers hs (append_values key vals out, firstErr))"

definition decode_metadata :: "headers \<Rightarrow> metadata \<times> go_error option" where
  "decode_metadata hs = decode_headers hs ([], None)"


section \<open>Round trip\<close>

text \<open>The values user metadata holds under a header name, whatever the case of its keys.\<close>

definition user_values :: "metadata \<Rightarrow> string \<Rightarrow> string list" where
  "user_values md k = concat (map snd (filter (\<lambda>(k', _). to_lower k' = k) md))"

lemma decode_bin_encode: "decode_bin_header (b64_encode v) = Some v"
  by (simp add: decode_bin_header_def b64_decode_encode)

lemma b64_no_comma: "comma \<notin> set (b64_encode v)"
  using b64_encode_val [of comma v] b64_outside(2) by (auto simp: comma_def)

lemma decode_value_encode:
  "decode_metadata_values key (encode_metadata_value key v) = Some [v]"
  by (simp add: decode_metadata_values_def encode_metadata_value_def split_on_absent b64_no_comma
      decode_bin_encode)

lemma append_values_get:
  "md_get (append_values key vs out) k = md_get out k @ (if k = key then vs else [])"
  by (auto simp: md_get_def append_values_def alist_upd_lookup split: option.splits)

lemma decode_headers_append:
  "decode_headers (h1 @ h2) acc = decode_headers h2 (decode_headers h1 acc)"
  by (induction h1 acc rule: decode_headers.induct) (auto simp: Let_def split: option.splits)

lemma decode_key_values:
  assumes "\<not> is_reserved_header (to_lower k)"
  shows "\<exists>out'. decode_headers
            (map (\<lambda>v. (to_lower k, encode_metadata_value (to_lower k) v)) vs) (out, e) = (out', e)
          \<and> (\<forall>j. md_get out' j = md_get out j @ (if j = to_lower k then vs else []))"
proof (induction vs arbitrary: out)
  case (Cons v vs)
  from Cons [of "append_values (to_lower k) [v] out"] assms show ?case
    by (auto simp: decode_value_encode append_values_get Let_def)
qed simp

lemma decode_encode_headers:
  "\<exists>out'. decode_headers (encode_metadata md) (out, e) = (out', e)
     \<and> (\<forall>k. md_get out' k
              = md_get out k @ (if is_reserved_header k then [] else user_values md k))"
proof (induction md arbitrary: out rule: encode_metadata.induct)
  case 1
  then show ?case by (simp add: user_values_def)
next
  case (2 k vs md)
  show ?case
  proof (cases "is_reserved_header (to_lower k)")
    case True
    have "is_reserved_header j \<or> user_values ((k, vs) # md) j = user_values md j" for j
      using True by (auto simp: user_values_def)
    moreover from 2(1) [OF True, of out] obtain out' where
      "decode_headers (encode_metadata md) (out, e) = (out', e)"
      "\<forall>j. md_get out' j = md_get out j @ (if is_reserved_header j then [] else user_values md j)"
      by blast
    ultimately show ?thesis using True by fastforce
  next
    case False
    from decode_key_values [OF False, of vs out e] obtain o1 where o1:
      "decode_headers (map (\<lambda>v. (to_lower k, encode_metadata_value (to_lower k) v)) vs) (out, e) = (o1, e)"
      "\<forall>j. md_get o1 j = md_get out j @ (if j = to_lower k then vs else [])" by blast
    from 2(2) [OF False, of o1] obtain o2 where o2:
      "decode_headers (encode_metadata md) (o1, e) = (o2, e)"
      "\<forall>j. md_get o2 j = md_get o1 j @ (if is_reserved_header j then [] else user_values md j)"
      by blast
    have "user_values ((k, vs) # md) j = (if j = to_lower k then vs else []) @ user_values md j" for j
      by (auto simp: user_values_def)
    with False o1 o2 show ?thesis by (auto simp: decode_headers_append)
  qed
qed

text \<open>
  User metadata crosses the wire intact: for every metadata map, decoding the encoded
  headers reports no error and gives, under each header name, exactly the values held under the
  keys that lower-case to it, in order and byte for byte (binary values included); under a
  reserved name it gives nothing.
\<close>

lemma metadata_round_trip:
  "snd (decode_metadata (encode_metadata md)) = None
   \<and> md_get (fst (decode_metadata (encode_metadata md))) k
        = (if is_reserved_header k then [] else user_values md k)"
proof -
  from decode_encode_headers [of md "[]" None] obtain out' where
    "decode_headers (encode_metadata md) ([], None) = (out', None)"
    "\<forall>k. md_get out' k = md_get [] k @ (if is_reserved_header k then [] else user_values md k)"
    by blast
  then show ?thesis by (simp add: decode_metadata_def md_get_def)
qed

lemma decode_headers_err:
  "fst (decode_headers hs (out, e)) = fst (decode_headers hs (out, e'))
   \<and> (e \<noteq> None \<longrightarrow> snd (decode_headers hs (out, e)) = e)"
proof (induction hs arbitrary: out e e')
  case (Cons h hs)
  obtain n v where h: "h = (n, v)" by (cases h)
  show ?case
    using Cons [of out e e'] Cons [of out "Some (malformed_metadata v (to_lower n))" e']
      Cons [of out e "Some (malformed_metadata v (to_lower n))"]
      Cons [of "append_values (to_lower n) (the (decode_metadata_values (to_lower n) v)) out" e e']
    by (auto simp: h Let_def split: option.splits)
qed simp

text \<open>
  A malformed binary header costs only itself: dropping it from the received headers gives
  the same metadata, whatever stands before and after it, and the failure is reported.
\<close>

lemma malformed_header_isolated:
  assumes "decode_metadata_values (to_lower n) v = None"
    and "\<not> is_reserved_header (to_lower n)"
  shows "fst (decode_metadata (h1 @ (n, v) # h2)) = fst (decode_metadata (h1 @ h2))
         \<and> snd (decode_metadata (h1 @ (n, v) # h2)) \<noteq> None"
proof -
  obtain out e where 1: "decode_headers h1 ([], None) = (out, e)" by fastforce
  define e' where "e' = (if e = None then Some (malformed_metadata v (to_lower n)) else e)"
  have "decode_metadata (h1 @ (n, v) # h2) = decode_headers h2 (out, e')"
    using assms by (simp add: decode_metadata_def decode_headers_append 1 e'_def Let_def)
  moreover have "decode_metadata (h1 @ h2) = decode_headers h2 (out, e)"
    by (simp add: decode_metadata_def decode_headers_append 1)
  moreover have "e' \<noteq> None" by (simp add: e'_def)
  ultimately show ?thesis using decode_headers_err by metis
qed

lemma malformed_header_isolated_witness:
  "fst (decode_metadata [(''a'', ''1''), (''X-Bin'', ''!''), (''b'', ''2'')])
     = fst (decode_metadata [(''a'', ''1''), (''b'', ''2'')])"
proof -
  have "decode_metadata_values (to_lower ''X-Bin'') ''!'' = None" by code_simp
  moreover have "\<not> is_reserved_header (to_lower ''X-Bin'')" by code_simp
  ultimately show ?thesis
    using malformed_header_isolated [of "''X-Bin''" "''!''" "[(''a'', ''1'')]" "[(''b'', ''2'')]"]
    by simp
qed

end
