(* ===== verification/Grpc_Timeout.thy ===== *)
theory Grpc_Timeout
  imports Errors
begin

text \<open>
  The \<open>grpc-timeout\<close> header (src/transport/grpc/timeout.go). A \<open>time.Duration\<close> is an int64 of
  nanoseconds, here an \<open>int\<close> whose products wrap as Go's do.
\<close>

definition max_timeout_value :: int where
  "max_timeout_value = 100000000 - 1"

abbreviation nanosecond :: int where "nanosecond \<equiv> 1"
abbreviation microsecond :: int where "microsecond \<equiv> 1000"
abbreviation millisecond :: int where "millisecond \<equiv> 1000000"
abbreviation second :: int where "second \<equiv> 1000000000"
abbreviation minute :: int where "minute \<equiv> 60000000000"
abbreviation hour :: int where "hour \<equiv> 3600000000000"

definition timeout_unit_to_duration :: "char \<Rightarrow> int option" where
  "timeout_unit_to_duration u =
     (if u = CHR ''H'' then Some hour
      else if u = CHR ''M'' then Some minute
      else if u = CHR ''S'' then Some second
      else if u = CHR ''m'' then Some millisecond
      else if u = CHR ''u'' then Some microsecond
      else if u = CHR ''n'' then Some nanosecond
      else None)"

definition div_up :: "int \<Rightarrow> int \<Rightarrow> int" where
  "div_up d r = (if 0 < d mod r then d div r + 1 else d div r)"

definition encode_timeout :: "int \<Rightarrow> string" where
  "encode_timeout d =
     (if d \<le> 0 then ''0n''
      else if div_up d nanosecond \<le> max_timeout_value then itoa (div_up d nanosecond) @ ''n''
      else if div_up d microsecond \<le> max_timeout_value then itoa (div_up d microsecond) @ ''u''
      else if div_up d millisecond \<le> max_timeout_value then itoa (div_up d millisecond) @ ''m''
      else if div_up d second \<le> max_timeout_value then itoa (div_up d second) @ ''S''
      else if div_up d minute \<le> max_timeout_value then itoa (div_up d minute) @ ''M''
      else itoa (div_up d hour) @ ''H'')"

definition decode_timeout :: "string \<Rightarrow> go_error + int" where
  "decode_timeout s =
     (let size = length s in
      if size < 2 then Inl (ErrNew (''grpc: timeout string too short: '' @ go_quote s))
      else if 9 < size then Inl (ErrNew (''grpc: timeout string too long: '' @ go_quote s))
      else case timeout_unit_to_duration (last s) of
             None \<Rightarrow> Inl (ErrNew (''grpc: timeout unit not recognized: '' @ go_quote s))
           | Some d \<Rightarrow>
               (case parse_uint (butlast s) 10 64 of
                  None \<Rightarrow> Inl (ErrNew (''grpc: malformed timeout '' @ go_quote s))
                | Some t \<Rightarrow>
                    if d = hour \<and> max_int64 div hour < int t then Inr max_int64
                    else Inr (wrap64 (d * wrap64 (int t)))))"

section \<open>Rounding\<close>

lemma div_up_bounds:
  assumes "0 < d" "0 < r"
  shows "d \<le> div_up d r * r" and "div_up d r * r < d + r" and "0 < div_up d r"
proof -
  define q m where "q = d div r" and "m = d mod r"
  have e: "d = q * r + m" by (simp add: q_def m_def)
  have m: "0 \<le> m" "m < r" using assms by (simp_all add: m_def)
  have u: "div_up d r = (if 0 < m then q + 1 else q)" by (simp add: div_up_def q_def m_def)
  have k: "(q + 1) * r = q * r + r" by (simp add: distrib_right)
  show a: "d \<le> div_up d r * r"
    unfolding u using e m k by (cases "0 < m"; simp only: if_True if_False; linarith)
  show "div_up d r * r < d + r"
    unfolding u using e m k assms by (cases "0 < m"; simp only: if_True if_False; linarith)
  have "0 < div_up d r * r" using a assms by linarith
  then show "0 < div_up d r" using assms zero_less_mult_iff [of "div_up d r" r] by linarith
qed

lemma decode_number:
  assumes "0 \<le> n" "n \<le> max_timeout_value" "timeout_unit_to_duration c = Some u"
  shows "decode_timeout (itoa n @ [c]) =
    (if u = hour \<and> max_int64 div hour < n then Inr max_int64 else Inr (wrap64 (u * wrap64 n)))"
proof -
  have i: "itoa n = nat_str (nat n)" using assms(1) by (simp add: itoa_def)
  have "nat n < 10 ^ 8" using assms(1,2) by (simp add: max_timeout_value_def nat_less_iff)
  then have len: "length (nat_str (nat n)) \<le> 8" by (rule nat_str_len) simp
  have ne: "0 < length (nat_str (nat n))" by simp
  have "nat n < 2 ^ 64" using assms(1,2) by (simp add: max_timeout_value_def nat_less_iff)
  then have p: "parse_uint (nat_str (nat n)) 10 64 = Some (nat n)" by (rule parse_nat_str)
  show ?thesis using len ne assms(1,3) p by (simp add: decode_timeout_def i Let_def)
qed

lemma decode_fine:
  assumes "0 \<le> n" "n \<le> max_timeout_value" "timeout_unit_to_duration c = Some u" "u \<le> minute" "0 < u"
  shows "decode_timeout (itoa n @ [c]) = Inr (u * n)"
proof -
  have "u * n \<le> minute * max_timeout_value"
    using assms by (intro mult_mono) (simp_all add: max_timeout_value_def)
  moreover have "0 \<le> u * n" using assms by simp
  ultimately have w: "wrap64 (u * n) = u * n"
    by (intro wrap64_id) (simp add: in_int64_def max_timeout_value_def)
  have "wrap64 n = n" using assms
    by (intro wrap64_id) (simp add: in_int64_def max_timeout_value_def)
  then show ?thesis using decode_number [OF assms(1-3)] assms(4) w by simp
qed

lemma unit_chars:
  "timeout_unit_to_duration CHR ''n'' = Some nanosecond"
  "timeout_unit_to_duration CHR ''u'' = Some microsecond"
  "timeout_unit_to_duration CHR ''m'' = Some millisecond"
  "timeout_unit_to_duration CHR ''S'' = Some second"
  "timeout_unit_to_duration CHR ''M'' = Some minute"
  "timeout_unit_to_duration CHR ''H'' = Some hour"
  by (simp_all add: timeout_unit_to_duration_def)

text \<open>One rung of the encoder's ladder: a unit that fits decodes to the rounded-up duration.\<close>

lemma rung:
  assumes "0 < d" "timeout_unit_to_duration c = Some u" "0 < u" "u \<le> minute"
    and "div_up d u \<le> max_timeout_value"
  shows "\<exists>d'. decode_timeout (itoa (div_up d u) @ [c]) = Inr d' \<and> d \<le> d' \<and> d' \<le> max_int64
            \<and> d' < d + u"
proof -
  note b = div_up_bounds [OF assms(1,3)]
  have "decode_timeout (itoa (div_up d u) @ [c]) = Inr (u * div_up d u)"
    using b assms by (intro decode_fine) simp_all
  moreover have "u * div_up d u \<le> minute * max_timeout_value"
    using b assms by (intro mult_mono) (simp_all add: max_timeout_value_def)
  ultimately show ?thesis using b
    by (auto simp: mult.commute max_int64_def max_timeout_value_def)
qed

lemma hour_rung:
  assumes "0 < d" "d \<le> max_int64"
  shows "\<exists>d'. decode_timeout (itoa (div_up d hour) @ ''H'') = Inr d' \<and> d \<le> d' \<and> d' \<le> max_int64
            \<and> d' < d + hour"
proof -
  have b: "d \<le> div_up d hour * hour" "div_up d hour * hour < d + hour" "0 < div_up d hour"
    using div_up_bounds [of d hour] assms(1) by simp_all
  then have m: "div_up d hour \<le> max_timeout_value"
    using assms by (simp add: max_timeout_value_def max_int64_def)
  note dec = decode_number [OF less_imp_le [OF b(3)] m unit_chars(6)]
  show ?thesis
  proof (cases "max_int64 div hour < div_up d hour")
    case True
    have "d + hour > max_int64"
    proof -
      have "max_int64 < div_up d hour * hour"
        using True by (simp add: max_int64_def)
      with b show ?thesis by linarith
    qed
    with True dec assms show ?thesis by simp
  next
    case False
    then have le: "div_up d hour * hour \<le> max_int64" by (simp add: max_int64_def)
    then have "wrap64 (hour * div_up d hour) = hour * div_up d hour" using b assms
      by (intro wrap64_id) (simp add: in_int64_def max_int64_def)
    moreover have "wrap64 (div_up d hour) = div_up d hour" using b m
      by (intro wrap64_id) (simp add: in_int64_def max_timeout_value_def)
    ultimately show ?thesis using False dec b le by (simp add: mult.commute)
  qed
qed

text \<open>
  The unit the encoder picks for a duration: the finest that keeps eight digits.
\<close>

definition timeout_unit_for :: "int \<Rightarrow> int" where
  "timeout_unit_for d =
     (if div_up d nanosecond \<le> max_timeout_value then nanosecond
      else if div_up d microsecond \<le> max_timeout_value then microsecond
      else if div_up d millisecond \<le> max_timeout_value then millisecond
      else if div_up d second \<le> max_timeout_value then second
      else if div_up d minute \<le> max_timeout_value then minute
      else hour)"

lemma timeout_decodes:
  assumes "0 < d" and "d \<le> max_int64"
  shows "\<exists>d'. decode_timeout (encode_timeout d) = Inr d' \<and> d \<le> d' \<and> d' \<le> max_int64
              \<and> d' < d + timeout_unit_for d"
proof -
  note r = rung [OF assms(1)]
  consider "div_up d nanosecond \<le> max_timeout_value"
    | "\<not> div_up d nanosecond \<le> max_timeout_value" "div_up d microsecond \<le> max_timeout_value"
    | "\<not> div_up d nanosecond \<le> max_timeout_value" "\<not> div_up d microsecond \<le> max_timeout_value"
      "div_up d millisecond \<le> max_timeout_value"
    | "\<not> div_up d nanosecond \<le> max_timeout_value" "\<not> div_up d microsecond \<le> max_timeout_value"
      "\<not> div_up d millisecond \<le> max_timeout_value" "div_up d second \<le> max_timeout_value"
    | "\<not> div_up d nanosecond \<le> max_timeout_value" "\<not> div_up d microsecond \<le> max_timeout_value"
      "\<not> div_up d millisecond \<le> max_timeout_value" "\<not> div_up d second \<le> max_timeout_value"
      "div_up d minute \<le> max_timeout_value"
    | "\<not> div_up d nanosecond \<le> max_timeout_value" "\<not> div_up d microsecond \<le> max_timeout_value"
      "\<not> div_up d millisecond \<le> max_timeout_value" "\<not> div_up d second \<le> max_timeout_value"
      "\<not> div_up d minute \<le> max_timeout_value"
    by blast
  then show ?thesis
  proof cases
    case 1
    with r [OF unit_chars(1)] assms show ?thesis
      by (fastforce simp: encode_timeout_def timeout_unit_for_def)
  next
    case 2
    with r [OF unit_chars(2)] assms show ?thesis
      by (fastforce simp: encode_timeout_def timeout_unit_for_def)
  next
    case 3
    with r [OF unit_chars(3)] assms show ?thesis
      by (fastforce simp: encode_timeout_def timeout_unit_for_def)
  next
    case 4
    with r [OF unit_chars(4)] assms show ?thesis
      by (fastforce simp: encode_timeout_def timeout_unit_for_def)
  next
    case 5
    with r [OF unit_chars(5)] assms show ?thesis
      by (fastforce simp: encode_timeout_def timeout_unit_for_def)
  next
    case 6
    with hour_rung [OF assms] assms show ?thesis
      by (fastforce simp: encode_timeout_def timeout_unit_for_def)
  qed
qed

text \<open>
  A deadline never shrinks on the wire and hardly grows: for every positive duration the
  encoded header decodes, without overflow, to a duration that is at least the original and
  exceeds it by less than one unit of the finest unit whose value fits in eight digits; the header
  has one to eight digits and the unit letter.
\<close>

lemma timeout_round_trip:
  assumes "0 < d" and "d \<le> max_int64"
  shows "(\<exists>d'. decode_timeout (encode_timeout d) = Inr d' \<and> d \<le> d' \<and> d' \<le> max_int64
              \<and> d' < d + timeout_unit_for d)
         \<and> 2 \<le> length (encode_timeout d) \<and> length (encode_timeout d) \<le> 9"
proof -
  obtain d' where "decode_timeout (encode_timeout d) = Inr d'" using timeout_decodes [OF assms] by blast
  then have "2 \<le> length (encode_timeout d) \<and> length (encode_timeout d) \<le> 9"
    by (auto simp: decode_timeout_def Let_def split: if_splits)
  with timeout_decodes [OF assms] show ?thesis by blast
qed

lemma timeout_round_trip_witness:
  "\<exists>d'. decode_timeout (encode_timeout max_int64) = Inr d' \<and> max_int64 \<le> d'
        \<and> d' \<le> max_int64 \<and> d' < max_int64 + timeout_unit_for max_int64"
  using timeout_round_trip [of max_int64] by (simp add: max_int64_def)

lemma digits_acc_bound:
  "digits_acc 10 acc s = Some v \<Longrightarrow> v < (acc + 1) * 10 ^ length s"
proof (induction s arbitrary: acc)
  case (Cons c s)
  then obtain k where k: "digit_val 10 c = Some k" "digits_acc 10 (acc * 10 + k) s = Some v"
    by (auto split: option.splits)
  from k(1) have "k < 10" by (auto simp: digit_val_def split: if_splits option.splits)
  then have "acc * 10 + k + 1 \<le> (acc + 1) * 10" by simp
  then have "(acc * 10 + k + 1) * 10 ^ length s \<le> (acc + 1) * 10 * 10 ^ length s"
    by (rule mult_right_mono) simp
  with Cons.IH [OF k(2)] have "v < (acc + 1) * 10 * 10 ^ length s" by linarith
  then show ?case by (simp add: algebra_simps)
qed simp

lemma unit_range:
  "timeout_unit_to_duration c = Some u \<Longrightarrow> 0 < u \<and> (u \<le> minute \<or> u = hour)"
  by (auto simp: timeout_unit_to_duration_def split: if_splits)

text \<open>
  No header a peer sends makes the decoder overflow: what it accepts has at most eight digits
  and a unit letter, and the result is the exact product of the two, capped at the largest
  duration, hence in range and not negative.
\<close>

lemma decode_timeout_exact:
  assumes "decode_timeout s = Inr d"
  shows "2 \<le> length s \<and> length s \<le> 9
         \<and> (\<exists>n u. digits_acc 10 0 (butlast s) = Some n \<and> timeout_unit_to_duration (last s) = Some u
                  \<and> d = min (int n * u) max_int64 \<and> 0 \<le> d)"
proof -
  obtain n u where len: "2 \<le> length s" "length s \<le> 9"
    and u: "timeout_unit_to_duration (last s) = Some u"
    and n: "parse_uint (butlast s) 10 64 = Some n"
    and d: "d = (if u = hour \<and> max_int64 div hour < int n then max_int64
                 else wrap64 (u * wrap64 (int n)))"
    using assms by (auto simp: decode_timeout_def Let_def split: if_splits option.splits)
  from n have dig: "digits_acc 10 0 (butlast s) = Some n"
    by (auto simp: parse_uint_def split: if_splits option.splits)
  have "n < 10 ^ length (butlast s)" using digits_acc_bound [OF dig] by simp
  also have "(10 :: nat) ^ length (butlast s) \<le> 10 ^ 8"
    using len by (intro power_increasing) simp_all
  finally have nb: "int n < 100000000" by simp
  then have wn: "wrap64 (int n) = int n" by (intro wrap64_id) (simp add: in_int64_def)
  have pos: "0 \<le> int n * u" using unit_range [OF u] by simp
  have "d = min (int n * u) max_int64"
  proof (cases "u = hour \<and> max_int64 div hour < int n")
    case True
    then have "max_int64 \<le> int n * u" by (simp add: max_int64_def)
    with True d show ?thesis by simp
  next
    case False
    have le: "int n * u \<le> max_int64"
    proof (cases "u = hour")
      case True
      with False show ?thesis by (simp add: max_int64_def)
    next
      case False
      then have "u \<le> minute" using unit_range [OF u] by simp
      then have "int n * u \<le> 100000000 * minute"
        using nb unit_range [OF u] by (intro mult_mono) simp_all
      then show ?thesis by (simp add: max_int64_def)
    qed
    then have "wrap64 (u * int n) = u * int n" using pos
      by (intro wrap64_id) (simp add: in_int64_def max_int64_def mult.commute)
    moreover have "d = wrap64 (u * wrap64 (int n))" using False d by (simp only: if_False)
    ultimately show ?thesis using wn le by (simp add: mult.commute)
  qed
  with len dig u pos show ?thesis by (auto simp: max_int64_def)
qed

lemma decode_timeout_exact_witness:
  "\<exists>n u. digits_acc 10 0 (butlast ''250m'') = Some n
         \<and> timeout_unit_to_duration (last ''250m'') = Some u
         \<and> 250000000 = min (int n * u) max_int64"
proof -
  have "decode_timeout ''250m'' = Inr 250000000" by code_simp
  from decode_timeout_exact [OF this] show ?thesis by blast
qed

end
