(* ===== verification/Grpc_Headers.thy ===== *)
theory Grpc_Headers
  imports Grpc_Metadata Grpc_Timeout Descriptor
begin

text \<open>
  Request and response headers of the gRPC framing: the method path (path.go), the content type
  (contenttype.go), and the preface and response headers (preface.go), all under
  src/transport/grpc. Builders produce header lists, parsers are the loops of the code over a
  state record.
\<close>

section \<open>Method path\<close>

definition slash :: char where "slash = CHR ''/''"

definition method_path :: "rpc_method \<Rightarrow> string" where
  "method_path m = slash # m_service m @ slash # m_name m"

definition parse_method_path :: "string \<Rightarrow> go_error + string \<times> string" where
  "parse_method_path path =
     (if \<not> has_prefix path [slash] then
        Inl (ErrNew (''grpc: invalid method path '' @ go_quote path @ '': must start with /''))
      else
        (case last_index_byte (tl path) slash of
           None \<Rightarrow>
             Inl (ErrNew (''grpc: invalid method path '' @ go_quote path @ '': missing /method''))
         | Some pos \<Rightarrow>
             if take pos (tl path) = [] \<or> drop (Suc pos) (tl path) = [] then
               Inl (ErrNew (''grpc: invalid method path '' @ go_quote path
                      @ '': empty service or method''))
             else Inr (take pos (tl path), drop (Suc pos) (tl path))))"

lemma parse_method_path_build:
  assumes "sv \<noteq> []" "nm \<noteq> []" "slash \<notin> set nm"
  shows "parse_method_path (slash # sv @ slash # nm) = Inr (sv, nm)"
proof -
  have "has_prefix (slash # sv @ slash # nm) [slash]" by (simp add: has_prefix_def)
  then show ?thesis using assms by (simp add: parse_method_path_def)
qed

lemma parse_method_path_sound:
  assumes "parse_method_path p = Inr (sv, nm)"
  shows "p = slash # sv @ slash # nm \<and> sv \<noteq> [] \<and> nm \<noteq> [] \<and> slash \<notin> set nm"
proof -
  from assms obtain pos where pos: "last_index_byte (tl p) slash = Some pos"
    and pre: "has_prefix p [slash]" and ne: "sv \<noteq> []" "nm \<noteq> []"
    and sn: "sv = take pos (tl p)" "nm = drop (Suc pos) (tl p)"
    by (auto simp: parse_method_path_def split: if_splits option.splits)
  from pre obtain t where p: "p = slash # t" by (auto simp: has_prefix_iff)
  from last_index_byte_split [OF pos] show ?thesis using ne sn p by simp
qed

section \<open>Content type\<close>

definition base_content_type :: string where "base_content_type = ''application/grpc''"

definition content_type :: "string \<Rightarrow> string" where
  "content_type subtype =
     (if subtype = [] then base_content_type else base_content_type @ ''+'' @ subtype)"

definition content_subtype :: "string \<Rightarrow> string option" where
  "content_subtype ct =
     (if ct = base_content_type then Some []
      else if \<not> has_prefix ct base_content_type then None
      else
        (case drop (length base_content_type) ct of
           [] \<Rightarrow> None
         | c # rest \<Rightarrow> if c = CHR ''+'' \<or> c = CHR '';'' then Some rest else None))"

definition codec_content_subtype :: "string \<Rightarrow> string" where
  "codec_content_subtype codecName =
     (if to_lower codecName \<in> set [[], ''protobuf'', ''proto''] then ''proto''
      else to_lower codecName)"

lemma content_subtype_build: "content_subtype (content_type st) = Some st"
  by (simp add: content_subtype_def content_type_def)

lemma lower_base: "to_lower base_content_type = base_content_type"
  by code_simp

lemma lower_content_type: "to_lower (content_type st) = content_type (to_lower st)"
proof -
  have "to_lower ''+'' = ''+''" by code_simp
  then show ?thesis by (simp add: content_type_def lower_base del: append_Cons)
qed

section \<open>Request preface\<close>

record preface_options =
  po_method :: rpc_method
  po_outgoing :: metadata
  po_timeout :: int
  po_subtype :: string
  po_send :: string
  po_accept :: "string list"

record request_preface =
  rp_target :: string
  rp_headers :: headers

definition build_request_preface :: "preface_options \<Rightarrow> request_preface" where
  "build_request_preface o' =
     \<lparr>rp_target = method_path (po_method o'),
      rp_headers =
        [(''content-type'', content_type (po_subtype o')), (''te'', ''trailers'')]
        @ (if 0 < po_timeout o' then [(''grpc-timeout'', encode_timeout (po_timeout o'))] else [])
        @ (if po_send o' \<noteq> [] then [(''grpc-encoding'', po_send o')] else [])
        @ (if po_accept o' \<noteq> [] then [(''grpc-accept-encoding'', go_join (po_accept o') [comma])]
           else [])
        @ encode_metadata (po_outgoing o')\<rparr>"

record request_info =
  ri_service :: string
  ri_method :: string
  ri_metadata :: metadata
  ri_timeout :: int
  ri_hasTimeout :: bool
  ri_subtype :: string
  ri_encoding :: string
  ri_accept :: string

definition zero_info :: request_info where
  "zero_info =
     \<lparr>ri_service = [], ri_method = [], ri_metadata = [], ri_timeout = 0, ri_hasTimeout = False,
      ri_subtype = [], ri_encoding = [], ri_accept = []\<rparr>"

text \<open>The header loop; \<open>ct\<close> is the local variable \<open>contentType\<close>, the metadata is \<open>md\<close>.\<close>

fun request_loop ::
    "headers \<Rightarrow> request_info \<times> string \<Rightarrow> go_error + request_info \<times> string" where
  "request_loop [] acc = Inr acc"
| "request_loop ((name, v) # hs) (info, ct) =
     (let key = to_lower name in
      if key = ''content-type'' then request_loop hs (info, to_lower v)
      else if key = ''grpc-timeout'' then
        (case decode_timeout v of
           Inl e \<Rightarrow> Inl (ErrWrap (''grpc: malformed grpc-timeout: '' @ err_text e) [e])
         | Inr d \<Rightarrow> request_loop hs (info\<lparr>ri_timeout := d, ri_hasTimeout := True\<rparr>, ct))
      else if key = ''grpc-encoding'' then request_loop hs (info\<lparr>ri_encoding := v\<rparr>, ct)
      else if key = ''grpc-accept-encoding'' then request_loop hs (info\<lparr>ri_accept := v\<rparr>, ct)
      else if key = ''te'' then request_loop hs (info, ct)
      else if is_reserved_header key \<and> \<not> is_whitelisted_header key then request_loop hs (info, ct)
      else
        (case decode_metadata_values key v of
           None \<Rightarrow> Inl (malformed_metadata v key)
         | Some vals \<Rightarrow>
             request_loop hs
               (info\<lparr>ri_metadata := append_values key vals (ri_metadata info)\<rparr>, ct)))"

definition parse_request_headers :: "string \<Rightarrow> headers \<Rightarrow> go_error + request_info" where
  "parse_request_headers target hs =
     (case parse_method_path target of
        Inl e \<Rightarrow> Inl e
      | Inr (svc, meth) \<Rightarrow>
          (case request_loop hs (zero_info\<lparr>ri_service := svc, ri_method := meth\<rparr>, []) of
             Inl e \<Rightarrow> Inl e
           | Inr (info, ct) \<Rightarrow>
               if ct = [] then Inl (ErrNew ''grpc: missing content-type'')
               else
                 (case content_subtype ct of
                    None \<Rightarrow> Inl (ErrNew (''grpc: invalid gRPC content-type '' @ go_quote ct))
                  | Some subtype \<Rightarrow> Inr (info\<lparr>ri_subtype := subtype\<rparr>))))"

section \<open>Response headers and trailers\<close>

definition encode_response_headers :: "string \<Rightarrow> metadata \<Rightarrow> string \<Rightarrow> headers" where
  "encode_response_headers subtype md sendEncoding =
     [(''content-type'', content_type subtype)]
     @ (if sendEncoding \<noteq> [] \<and> sendEncoding \<noteq> ''identity''
        then [(''grpc-encoding'', sendEncoding)] else [])
     @ encode_metadata md"

definition encode_trailers :: "metadata \<Rightarrow> headers" where
  "encode_trailers md = encode_metadata md"

definition decode_trailers :: "headers \<Rightarrow> metadata \<times> go_error option" where
  "decode_trailers hs = decode_metadata hs"

fun response_loop ::
    "headers \<Rightarrow> metadata \<times> string \<times> string \<Rightarrow> go_error + metadata \<times> string \<times> string" where
  "response_loop [] acc = Inr acc"
| "response_loop ((name, v) # hs) (md, ct, enc) =
     (let key = to_lower name in
      if key = ''content-type'' then response_loop hs (md, to_lower v, enc)
      else if key = ''grpc-encoding'' then response_loop hs (md, ct, v)
      else if is_reserved_header key \<and> \<not> is_whitelisted_header key then
        response_loop hs (md, ct, enc)
      else
        (case decode_metadata_values key v of
           None \<Rightarrow> Inl (malformed_metadata v key)
         | Some vals \<Rightarrow> response_loop hs (append_values key vals md, ct, enc)))"

definition decode_response_headers :: "headers \<Rightarrow> go_error + metadata \<times> string \<times> string" where
  "decode_response_headers hs =
     (case response_loop hs ([], [], []) of
        Inl e \<Rightarrow> Inl e
      | Inr (md, ct, enc) \<Rightarrow>
          if ct = [] then Inr (md, [], enc)
          else
            (case content_subtype ct of
               None \<Rightarrow> Inl (ErrNew (''grpc: invalid gRPC content-type '' @ go_quote ct))
             | Some st \<Rightarrow> Inr (md, st, enc)))"


section \<open>Round trips\<close>

abbreviation accept_key :: string where "accept_key \<equiv> ''grpc-accept-encoding''"

lemma not_reserved:
  "\<not> is_reserved_header k \<Longrightarrow>
     k \<noteq> ''content-type'' \<and> k \<noteq> ''grpc-timeout'' \<and> k \<noteq> ''grpc-encoding'' \<and> k \<noteq> ''te''"
  by (auto simp: is_reserved_header_def)

lemma lower_accept: "to_lower accept_key = accept_key"
  by code_simp

lemma accept_value: "encode_metadata_value accept_key v = v"
proof -
  have "\<not> has_suffix accept_key bin_hdr_suffix" by code_simp
  then show ?thesis by (simp add: encode_metadata_value_def)
qed

definition last_or :: "string list \<Rightarrow> string \<Rightarrow> string" where
  "last_or vs d = (if vs = [] then d else last vs)"

lemma last_or_append: "last_or (vs @ ws) d = last_or ws (last_or vs d)"
  by (simp add: last_or_def)

text \<open>What the header loop makes of a list of user metadata headers.\<close>

definition info_after ::
    "request_info \<Rightarrow> request_info \<Rightarrow> string list \<Rightarrow> (string \<Rightarrow> string list) \<Rightarrow> bool" where
  "info_after info info' acc vals \<longleftrightarrow>
     info' = info\<lparr>ri_metadata := ri_metadata info', ri_accept := last_or acc (ri_accept info)\<rparr>
     \<and> (\<forall>k. md_get (ri_metadata info') k = md_get (ri_metadata info) k @ vals k)"

lemma info_after_refl: "info_after info info [] (\<lambda>_. [])"
  by (simp add: info_after_def last_or_def)

lemma info_after_trans:
  "info_after i j a v \<Longrightarrow> info_after j k b w \<Longrightarrow> info_after i k (a @ b) (\<lambda>x. v x @ w x)"
  unfolding info_after_def by (auto simp: last_or_append) (metis request_info.surjective
    request_info.update_convs(3,8))

lemma request_loop_append:
  "request_loop (h1 @ h2) acc =
     (case request_loop h1 acc of Inl e \<Rightarrow> Inl e | Inr acc' \<Rightarrow> request_loop h2 acc')"
  by (induction h1 acc rule: request_loop.induct) (auto simp: Let_def split: sum.splits option.splits)

lemma request_key_accept:
  assumes "to_lower k = accept_key"
  shows "\<exists>info'. request_loop
      (map (\<lambda>v. (to_lower k, encode_metadata_value (to_lower k) v)) vs) (info, ct) = Inr (info', ct)
      \<and> info_after info info' vs (\<lambda>_. [])"
proof (induction vs arbitrary: info)
  case Nil
  then show ?case using info_after_refl by simp
next
  case (Cons v vs)
  have "info_after info (info\<lparr>ri_accept := v\<rparr>) [v] (\<lambda>_. [])"
    by (simp add: info_after_def last_or_def)
  moreover from Cons [of "info\<lparr>ri_accept := v\<rparr>"] obtain info' where
    "request_loop (map (\<lambda>v. (to_lower k, encode_metadata_value (to_lower k) v)) vs)
        (info\<lparr>ri_accept := v\<rparr>, ct) = Inr (info', ct)"
    "info_after (info\<lparr>ri_accept := v\<rparr>) info' vs (\<lambda>_. [])" by blast
  ultimately show ?case
    using info_after_trans [of info "info\<lparr>ri_accept := v\<rparr>" "[v]" "\<lambda>_. []" info' vs "\<lambda>_. []"] assms
    by (auto simp: Let_def accept_value lower_accept)
qed

lemma request_key_user:
  assumes "\<not> is_reserved_header (to_lower k)" "to_lower k \<noteq> accept_key"
  shows "\<exists>info'. request_loop
      (map (\<lambda>v. (to_lower k, encode_metadata_value (to_lower k) v)) vs) (info, ct) = Inr (info', ct)
      \<and> info_after info info' [] (\<lambda>j. if j = to_lower k then vs else [])"
proof (induction vs arbitrary: info)
  case Nil
  then show ?case using info_after_refl by simp
next
  case (Cons v vs)
  let ?i = "info\<lparr>ri_metadata := append_values (to_lower k) [v] (ri_metadata info)\<rparr>"
  have 1: "info_after info ?i [] (\<lambda>j. if j = to_lower k then [v] else [])"
    by (simp add: info_after_def append_values_get last_or_def)
  from Cons [of ?i] obtain info' where 2:
    "request_loop (map (\<lambda>v. (to_lower k, encode_metadata_value (to_lower k) v)) vs) (?i, ct)
       = Inr (info', ct)"
    "info_after ?i info' [] (\<lambda>j. if j = to_lower k then vs else [])" by blast
  have "request_loop
      (map (\<lambda>v. (to_lower k, encode_metadata_value (to_lower k) v)) (v # vs)) (info, ct) = Inr (info', ct)"
    using assms not_reserved [OF assms(1)] 2(1) by (simp add: Let_def decode_value_encode)
  moreover have "info_after info info' [] (\<lambda>j. if j = to_lower k then v # vs else [])"
    using info_after_trans [OF 1 2(2)] by (auto simp: info_after_def)
  ultimately show ?case by blast
qed

definition user_header :: "metadata \<Rightarrow> string \<Rightarrow> string list" where
  "user_header md k = (if is_reserved_header k \<or> k = accept_key then [] else user_values md k)"

lemma user_header_Nil: "user_header [] = (\<lambda>_. [])" and user_values_Nil: "user_values [] k = []"
  by (simp_all add: user_header_def user_values_def fun_eq_iff)

lemma accept_not_reserved: "\<not> is_reserved_header accept_key"
  by code_simp

lemma request_loop_metadata:
  "\<exists>info'. request_loop (encode_metadata md) (info, ct) = Inr (info', ct)
     \<and> info_after info info' (user_values md accept_key) (user_header md)"
proof (induction md arbitrary: info rule: encode_metadata.induct)
  case 1
  then show ?case using info_after_refl by (simp add: user_values_Nil user_header_Nil)
next
  case (2 k vs md)
  have uv: "user_values ((k, vs) # md) j = (if j = to_lower k then vs else []) @ user_values md j" for j
    by (auto simp: user_values_def)
  show ?case
  proof (cases "is_reserved_header (to_lower k)")
    case True
    have "user_values ((k, vs) # md) accept_key = user_values md accept_key"
      using uv True accept_not_reserved by auto
    moreover have "user_header ((k, vs) # md) = user_header md"
      using True by (auto simp: user_header_def uv fun_eq_iff)
    ultimately show ?thesis using 2(1) [OF True, of info] True by simp
  next
    case False
    obtain i1 a v where i1: "request_loop
        (map (\<lambda>v. (to_lower k, encode_metadata_value (to_lower k) v)) vs) (info, ct) = Inr (i1, ct)"
      "info_after info i1 a v"
      and av: "a = (if accept_key = to_lower k then vs else [])"
        "v = (\<lambda>j. if j = to_lower k \<and> j \<noteq> accept_key then vs else [])"
    proof (cases "to_lower k = accept_key")
      case True
      from request_key_accept [OF True, of vs info ct] obtain i where
        "request_loop (map (\<lambda>v. (to_lower k, encode_metadata_value (to_lower k) v)) vs) (info, ct)
           = Inr (i, ct)" "info_after info i vs (\<lambda>_. [])" by blast
      with True show ?thesis by (intro that [of i vs "\<lambda>_. []"]) auto
    next
      case f: False
      from request_key_user [OF False f, of vs info ct] obtain i where
        "request_loop (map (\<lambda>v. (to_lower k, encode_metadata_value (to_lower k) v)) vs) (info, ct)
           = Inr (i, ct)" "info_after info i [] (\<lambda>j. if j = to_lower k then vs else [])" by blast
      with f show ?thesis
        by (intro that [of i "[]" "\<lambda>j. if j = to_lower k then vs else []"]) auto
    qed
    from 2(2) [OF False, of i1] obtain i2 where i2:
      "request_loop (encode_metadata md) (i1, ct) = Inr (i2, ct)"
      "info_after i1 i2 (user_values md accept_key) (user_header md)" by blast
    have a: "user_values ((k, vs) # md) accept_key = a @ user_values md accept_key"
      by (simp add: uv av)
    have h: "user_header ((k, vs) # md) = (\<lambda>j. v j @ user_header md j)"
      using False by (auto simp: user_header_def uv av fun_eq_iff)
    have "request_loop (encode_metadata ((k, vs) # md)) (info, ct) = Inr (i2, ct)"
      using False i1 i2 by (simp add: request_loop_append)
    moreover have "info_after info i2 (user_values ((k, vs) # md) accept_key)
        (user_header ((k, vs) # md))"
      unfolding a h by (rule info_after_trans [OF i1(2) i2(2)])
    ultimately show ?thesis by blast
  qed
qed


lemma lower_keys [simp]:
  "to_lower ''content-type'' = ''content-type''" "to_lower ''te'' = ''te''"
  "to_lower ''grpc-timeout'' = ''grpc-timeout''" "to_lower ''grpc-encoding'' = ''grpc-encoding''"
  "to_lower ''grpc-accept-encoding'' = ''grpc-accept-encoding''"
  by code_simp+

lemma request_loop_keys [simp]:
  "request_loop ((''content-type'', v) # hs) (i, ct) = request_loop hs (i, to_lower v)"
  "request_loop ((''te'', v) # hs) (i, ct) = request_loop hs (i, ct)"
  "request_loop ((''grpc-encoding'', v) # hs) (i, ct) = request_loop hs (i\<lparr>ri_encoding := v\<rparr>, ct)"
  "request_loop ((''grpc-accept-encoding'', v) # hs) (i, ct)
     = request_loop hs (i\<lparr>ri_accept := v\<rparr>, ct)"
  by (simp_all add: Let_def)

lemma request_loop_timeout:
  "decode_timeout v = Inr d \<Longrightarrow>
     request_loop ((''grpc-timeout'', v) # hs) (i, ct)
       = request_loop hs (i\<lparr>ri_timeout := d, ri_hasTimeout := True\<rparr>, ct)"
  by (simp add: Let_def)

lemma content_type_not_Nil [simp]: "content_type st \<noteq> []"
  by (simp add: content_type_def base_content_type_def)

lemma response_loop_append:
  "response_loop (h1 @ h2) acc =
     (case response_loop h1 acc of Inl e \<Rightarrow> Inl e | Inr acc' \<Rightarrow> response_loop h2 acc')"
  by (induction h1 acc rule: response_loop.induct) (auto simp: Let_def split: sum.splits option.splits)

lemma response_key_user:
  assumes "\<not> is_reserved_header (to_lower k)"
  shows "\<exists>md'. response_loop
      (map (\<lambda>v. (to_lower k, encode_metadata_value (to_lower k) v)) vs) (md, ct, enc) = Inr (md', ct, enc)
      \<and> (\<forall>j. md_get md' j = md_get md j @ (if j = to_lower k then vs else []))"
proof (induction vs arbitrary: md)
  case (Cons v vs)
  from Cons [of "append_values (to_lower k) [v] md"] not_reserved [OF assms] assms show ?case
    by (auto simp: Let_def decode_value_encode append_values_get)
qed simp

text \<open>User metadata never disturbs the content type and encoding of a response.\<close>

lemma response_loop_metadata:
  "\<exists>md'. response_loop (encode_metadata md) (md0, ct, enc) = Inr (md', ct, enc)
     \<and> (\<forall>j. md_get md' j = md_get md0 j @ (if is_reserved_header j then [] else user_values md j))"
proof (induction md arbitrary: md0 rule: encode_metadata.induct)
  case 1
  then show ?case by (simp add: user_values_Nil)
next
  case (2 k vs md)
  have uv: "user_values ((k, vs) # md) j = (if j = to_lower k then vs else []) @ user_values md j" for j
    by (auto simp: user_values_def)
  show ?case
  proof (cases "is_reserved_header (to_lower k)")
    case True
    with 2(1) [OF True, of md0] show ?thesis by (auto simp: uv)
  next
    case False
    from response_key_user [OF False, of vs md0 ct enc] obtain m1 where m1:
      "response_loop (map (\<lambda>v. (to_lower k, encode_metadata_value (to_lower k) v)) vs) (md0, ct, enc)
         = Inr (m1, ct, enc)" "\<forall>j. md_get m1 j = md_get md0 j @ (if j = to_lower k then vs else [])"
      by blast
    from 2(2) [OF False, of m1] obtain m2 where m2:
      "response_loop (encode_metadata md) (m1, ct, enc) = Inr (m2, ct, enc)"
      "\<forall>j. md_get m2 j = md_get m1 j @ (if is_reserved_header j then [] else user_values md j)" by blast
    have "response_loop (encode_metadata ((k, vs) # md)) (md0, ct, enc) = Inr (m2, ct, enc)"
      using False m1(1) m2(1) by (simp add: response_loop_append)
    moreover have "\<forall>j. md_get m2 j = md_get md0 j
        @ (if is_reserved_header j then [] else user_values ((k, vs) # md) j)"
      using m1(2) m2(2) False by (auto simp: uv)
    ultimately show ?thesis by blast
  qed
qed

lemma decode_encode_response:
  "\<exists>md'. decode_response_headers (encode_response_headers st md enc)
           = Inr (md', to_lower st, if enc = ''identity'' then [] else enc)
     \<and> (\<forall>j. md_get md' j = (if is_reserved_header j then [] else user_values md j))"
proof -
  let ?ct = "content_type (to_lower st)" and ?e = "if enc = ''identity'' then [] else enc"
  obtain md' where m: "response_loop (encode_metadata md) ([], ?ct, ?e) = Inr (md', ?ct, ?e)"
    "\<forall>j. md_get md' j = md_get [] j @ (if is_reserved_header j then [] else user_values md j)"
    using response_loop_metadata by blast
  have "response_loop (encode_response_headers st md enc) ([], [], []) = Inr (md', ?ct, ?e)"
    using m(1) by (auto simp: encode_response_headers_def Let_def lower_content_type)
  then show ?thesis
    using m(2) by (simp add: decode_response_headers_def content_subtype_build md_get_def)
qed

text \<open>
  The server reads from a request preface exactly what the client put in: the service and
  method of the path, the content subtype (lower-cased), the encoding, a timeout not shorter than
  the deadline, and under every non-protocol name the user's metadata values. The accepted
  encodings are the framing's list, unless user metadata carries a \<open>grpc-accept-encoding\<close>
  entry, which then takes its place.
\<close>

lemma preface_round_trip:
  assumes "method_ok (po_method o')" and "slash \<notin> set (m_name (po_method o'))"
    and "po_timeout o' \<le> max_int64"
  shows "\<exists>info. parse_request_headers (rp_target (build_request_preface o'))
                  (rp_headers (build_request_preface o')) = Inr info
    \<and> ri_service info = m_service (po_method o') \<and> ri_method info = m_name (po_method o')
    \<and> ri_subtype info = to_lower (po_subtype o') \<and> ri_encoding info = po_send o'
    \<and> ri_hasTimeout info = (0 < po_timeout o') \<and> max 0 (po_timeout o') \<le> ri_timeout info
    \<and> ri_accept info = last_or (user_values (po_outgoing o') accept_key)
                          (go_join (po_accept o') [comma])
    \<and> md_get (ri_metadata info) k = user_header (po_outgoing o') k"
proof -
  let ?m = "po_method o'"
  let ?ct = "content_type (to_lower (po_subtype o'))"
  let ?i0 = "zero_info\<lparr>ri_service := m_service ?m, ri_method := m_name ?m\<rparr>"
  have path: "parse_method_path (method_path ?m) = Inr (m_service ?m, m_name ?m)"
    using assms(1,2) by (simp add: method_path_def parse_method_path_build method_ok_def)
  obtain i1 where i1: "request_loop (rp_headers (build_request_preface o')) (?i0, [])
      = request_loop (encode_metadata (po_outgoing o')) (i1, ?ct)"
    and f: "ri_service i1 = m_service ?m" "ri_method i1 = m_name ?m" "ri_metadata i1 = []"
      "ri_encoding i1 = po_send o'" "ri_hasTimeout i1 = (0 < po_timeout o')"
      "max 0 (po_timeout o') \<le> ri_timeout i1" "ri_accept i1 = go_join (po_accept o') [comma]"
  proof (cases "0 < po_timeout o'")
    case True
    with timeout_decodes [OF True assms(3)] obtain d where
      d: "decode_timeout (encode_timeout (po_timeout o')) = Inr d" "po_timeout o' \<le> d" by blast
    show ?thesis
      by (rule that [of "?i0\<lparr>ri_timeout := d, ri_hasTimeout := True, ri_encoding := po_send o',
              ri_accept := go_join (po_accept o') [comma]\<rparr>"])
        (use True d in \<open>auto simp: build_request_preface_def request_loop_timeout [OF d(1)]
            lower_content_type zero_info_def simp del: request_loop.simps\<close>)
  next
    case False
    show ?thesis
      by (rule that [of "?i0\<lparr>ri_encoding := po_send o',
              ri_accept := go_join (po_accept o') [comma]\<rparr>"])
        (use False in \<open>auto simp: build_request_preface_def lower_content_type zero_info_def
            simp del: request_loop.simps\<close>)
  qed
  from request_loop_metadata [of "po_outgoing o'" i1 ?ct] obtain i2 where i2:
    "request_loop (encode_metadata (po_outgoing o')) (i1, ?ct) = Inr (i2, ?ct)"
    "info_after i1 i2 (user_values (po_outgoing o') accept_key) (user_header (po_outgoing o'))"
    by blast
  have eq: "i2 = i1\<lparr>ri_metadata := ri_metadata i2,
      ri_accept := last_or (user_values (po_outgoing o') accept_key) (ri_accept i1)\<rparr>"
    and md: "md_get (ri_metadata i2) k = user_header (po_outgoing o') k"
    using i2(2) f(3) by (simp_all add: info_after_def md_get_def)
  have "parse_request_headers (rp_target (build_request_preface o'))
      (rp_headers (build_request_preface o')) = Inr (i2\<lparr>ri_subtype := to_lower (po_subtype o')\<rparr>)"
    using i1 i2(1) path
    by (simp add: parse_request_headers_def content_subtype_build build_request_preface_def)
  moreover have "ri_service i2 = ri_service i1" "ri_method i2 = ri_method i1"
    "ri_encoding i2 = ri_encoding i1" "ri_hasTimeout i2 = ri_hasTimeout i1"
    "ri_timeout i2 = ri_timeout i1"
    "ri_accept i2 = last_or (user_values (po_outgoing o') accept_key) (ri_accept i1)"
    by (subst eq, simp)+
  ultimately show ?thesis using f md by simp
qed

definition demo_preface :: preface_options where
  "demo_preface =
     \<lparr>po_method = \<lparr>m_fullName = ''a.S.X'', m_service = ''a.S'', m_name = ''X'', m_shape = 0\<rparr>,
      po_outgoing = [(''K'', [''v'']), (''k-Bin'', [''x'', ''y'']), (''Te'', [''no''])],
      po_timeout = 1500, po_subtype = ''proto'', po_send = ''gzip'',
      po_accept = [''identity'', ''gzip'']\<rparr>"

lemma preface_round_trip_witness:
  "\<exists>info. parse_request_headers (rp_target (build_request_preface demo_preface))
            (rp_headers (build_request_preface demo_preface)) = Inr info
          \<and> ri_encoding info = ''gzip'' \<and> 1500 \<le> ri_timeout info"
proof -
  have "method_ok (po_method demo_preface)" and "slash \<notin> set (m_name (po_method demo_preface))"
    by code_simp+
  moreover have "po_timeout demo_preface = 1500" and "po_send demo_preface = ''gzip''"
    by (simp_all add: demo_preface_def)
  ultimately show ?thesis
    using preface_round_trip [of demo_preface] by (auto simp: max_int64_def)
qed

text \<open>
  The request path is exact and unforgeable: \<open>ParseMethodPath\<close> accepts a path as \<open>(s, n)\<close>
  iff the path is \<open>/s/n\<close> with both parts non-empty and no slash in the method name.
\<close>

lemma parse_method_path_exact:
  "parse_method_path p = Inr (s, n) \<longleftrightarrow>
     p = slash # s @ slash # n \<and> s \<noteq> [] \<and> n \<noteq> [] \<and> slash \<notin> set n"
  using parse_method_path_sound parse_method_path_build by metis

end
