(* ===== verification/Grpc_Message.thy ===== *)
theory Grpc_Message
  imports Errors
begin

text \<open>
  Percent encoding of \<open>grpc-message\<close> (src/transport/grpc/message.go), with the UTF-8 decoding of
  package \<open>unicode/utf8\<close> it is built on: \<open>rune_size\<close> is the size \<open>DecodeRuneInString\<close> returns
  for a valid first rune and 0 for an invalid one (which Go reports as \<open>(RuneError, 1)\<close>).
\<close>

section \<open>UTF-8\<close>

definition in_range :: "nat \<Rightarrow> nat \<Rightarrow> char \<Rightarrow> bool" where
  "in_range lo hi c \<longleftrightarrow> lo \<le> byte c \<and> byte c \<le> hi"

definition second_ok :: "char \<Rightarrow> char \<Rightarrow> bool" where
  "second_ok a b =
     (if byte a = 224 then in_range 160 191 b
      else if byte a = 237 then in_range 128 159 b
      else if byte a = 240 then in_range 144 191 b
      else if byte a = 244 then in_range 128 143 b
      else in_range 128 191 b)"

definition cont_at :: "string \<Rightarrow> nat \<Rightarrow> bool" where
  "cont_at s i \<longleftrightarrow> i < length s \<and> in_range 128 191 (s ! i)"

fun rune_size :: "string \<Rightarrow> nat" where
  "rune_size [] = 0"
| "rune_size (a # s) =
     (if byte a < 128 then 1
      else if in_range 194 223 a \<and> s \<noteq> [] \<and> second_ok a (hd s) then 2
      else if in_range 224 239 a \<and> s \<noteq> [] \<and> second_ok a (hd s) \<and> cont_at s 1 then 3
      else if in_range 240 244 a \<and> s \<noteq> [] \<and> second_ok a (hd s) \<and> cont_at s 1 \<and> cont_at s 2 then 4
      else 0)"

definition rune_error_bytes :: bytes where
  "rune_error_bytes = [char_of (239 :: nat), char_of (191 :: nat), char_of (189 :: nat)]"

lemma rune_size_le: "rune_size s \<le> length s"
  by (cases s) (auto simp: cont_at_def Suc_le_eq)

section \<open>Encoding\<close>

definition percent :: char where "percent = CHR ''%''"

definition plain :: "char \<Rightarrow> bool" where
  "plain c \<longleftrightarrow> 32 \<le> byte c \<and> byte c \<le> 126 \<and> c \<noteq> percent"

definition hex_upper :: "nat \<Rightarrow> char" where
  "hex_upper n = (if n < 10 then char_of (48 + n) else char_of (55 + n))"

definition pct :: "char \<Rightarrow> string" where
  "pct c = [percent, hex_upper (byte c div 16), hex_upper (byte c mod 16)]"

function encode_unchecked :: "string \<Rightarrow> string" where
  "encode_unchecked [] = []"
| "encode_unchecked (a # s) =
     (if rune_size (a # s) = 0 then concat (map pct rune_error_bytes) @ encode_unchecked s
      else if 1 < rune_size (a # s) then
        concat (map pct (take (rune_size (a # s)) (a # s)))
          @ encode_unchecked (drop (rune_size (a # s)) (a # s))
      else (if plain a then [a] else pct a) @ encode_unchecked s)"
  by pat_completeness auto
termination by (relation "measure length") (auto simp del: rune_size.simps)

definition encode_grpc_message :: "string \<Rightarrow> string" where
  "encode_grpc_message msg =
     (if msg = [] then [] else if list_ex (\<lambda>c. \<not> plain c) msg then encode_unchecked msg else msg)"

section \<open>Decoding\<close>

fun decode_unchecked :: "string \<Rightarrow> string" where
  "decode_unchecked (c # d # e # s) =
     (if c = percent then
        (case parse_uint [d, e] 16 8 of
           Some v \<Rightarrow> char_of v # decode_unchecked s
         | None \<Rightarrow> c # decode_unchecked (d # e # s))
      else c # decode_unchecked (d # e # s))"
| "decode_unchecked s = s"

text \<open>The scan that decides whether any percent sign has two bytes after it.\<close>

fun has_escape :: "string \<Rightarrow> bool" where
  "has_escape (c # d # e # s) = (c = percent \<or> has_escape (d # e # s))"
| "has_escape s = False"

definition decode_grpc_message :: "string \<Rightarrow> string" where
  "decode_grpc_message msg =
     (if msg = [] then [] else if has_escape msg then decode_unchecked msg else msg)"

text \<open>The reference: the text with every invalid byte replaced by U+FFFD, and validity.\<close>

function to_valid_utf8 :: "string \<Rightarrow> string" where
  "to_valid_utf8 [] = []"
| "to_valid_utf8 (a # s) =
     (if rune_size (a # s) = 0 then rune_error_bytes @ to_valid_utf8 s
      else take (rune_size (a # s)) (a # s) @ to_valid_utf8 (drop (rune_size (a # s)) (a # s)))"
  by pat_completeness auto
termination by (relation "measure length") (auto simp del: rune_size.simps)

function valid_utf8 :: "string \<Rightarrow> bool" where
  "valid_utf8 [] = True"
| "valid_utf8 (a # s) =
     (if rune_size (a # s) = 0 then False
      else valid_utf8 (drop (rune_size (a # s)) (a # s)))"
  by pat_completeness auto
termination by (relation "measure length") (auto simp del: rune_size.simps)

lemma hex_upper_num: "n < 16 \<Longrightarrow> digit_val 16 (hex_upper n) = Some n"
  by (simp add: hex_upper_def digit_val_def digit_num_def is_digit_def is_lower_def is_upper_def)

lemma parse_pct: "parse_uint [hex_upper (byte c div 16), hex_upper (byte c mod 16)] 16 8 = Some (byte c)"
proof -
  have "byte c div 16 < 16" using byte_less [of c] by (simp add: less_mult_imp_div_less)
  then show ?thesis using byte_less [of c]
    by (simp add: parse_uint_def hex_upper_num del: byte_less)
qed

lemma decode_pct [simp]: "decode_unchecked (pct c @ s) = c # decode_unchecked s"
  by (simp add: pct_def parse_pct)

lemma decode_pcts [simp]: "decode_unchecked (concat (map pct cs) @ s) = cs @ decode_unchecked s"
  by (induction cs) simp_all

lemma decode_plain [simp]: "c \<noteq> percent \<Longrightarrow> decode_unchecked (c # s) = c # decode_unchecked s"
  by (cases "(c # s)" rule: decode_unchecked.cases) auto

lemma rune_size_one: "rune_size (a # s) = Suc 0 \<longleftrightarrow> byte a < 128"
  by auto

lemma decode_encode_unchecked: "decode_unchecked (encode_unchecked s) = to_valid_utf8 s"
proof (induction s rule: encode_unchecked.induct)
  case (2 a s)
  consider "rune_size (a # s) = 0" | "1 < rune_size (a # s)" | "rune_size (a # s) = 1" by linarith
  then show ?case
  proof cases
    case 1
    then show ?thesis using 2 by (simp add: Let_def del: rune_size.simps)
  next
    case 2
    then show ?thesis using "2.IH" by (simp add: Let_def del: rune_size.simps)
  next
    case 3
    then show ?thesis using "2.IH"
      by (simp add: Let_def plain_def del: rune_size.simps)
  qed
qed simp

lemma decode_no_escape: "\<not> has_escape s \<Longrightarrow> decode_unchecked s = s"
  by (induction s rule: has_escape.induct) auto

lemma decode_eq_unchecked: "decode_grpc_message s = decode_unchecked s"
  by (simp add: decode_grpc_message_def decode_no_escape)

lemma plain_ascii: "plain c \<Longrightarrow> byte c < 128"
  by (simp add: plain_def)

lemma encode_plain: "list_all plain s \<Longrightarrow> encode_unchecked s = s"
  by (induction s) (simp_all add: plain_ascii Let_def)

lemma encode_eq_unchecked: "encode_grpc_message s = encode_unchecked s"
  using encode_plain by (auto simp: encode_grpc_message_def list_ex_iff list_all_iff)

lemma to_valid_utf8_id: "valid_utf8 s \<Longrightarrow> to_valid_utf8 s = s"
  by (induction s rule: valid_utf8.induct) (auto simp del: rune_size.simps split: if_splits)

lemma hex_upper_range: "n < 16 \<Longrightarrow> 48 \<le> byte (hex_upper n) \<and> byte (hex_upper n) \<le> 70"
  by (simp add: hex_upper_def)

lemma percent_byte: "byte percent = 37"
  by (simp add: percent_def byte_def)

lemma pct_safe: "x \<in> set (pct c) \<Longrightarrow> 32 \<le> byte x \<and> byte x \<le> 126"
proof -
  have "byte c div 16 < 16" using byte_less [of c] by (simp add: less_mult_imp_div_less)
  then show "x \<in> set (pct c) \<Longrightarrow> 32 \<le> byte x \<and> byte x \<le> 126"
    using hex_upper_range [of "byte c div 16"] hex_upper_range [of "byte c mod 16"]
    by (auto simp: pct_def percent_byte)
qed

lemma encode_safe: "x \<in> set (encode_unchecked s) \<Longrightarrow> 32 \<le> byte x \<and> byte x \<le> 126"
proof (induction s rule: encode_unchecked.induct)
  case (2 a s)
  then show ?case using pct_safe
    by (auto simp: Let_def plain_def simp del: rune_size.simps split: if_splits)
qed simp

text \<open>
  C37: a status message survives the trailer: for every byte string, decoding the encoded
  message gives the text with each invalid UTF-8 byte replaced by U+FFFD; and the encoded form is
  printable ASCII, so no message can end the header line or start another.
\<close>

theorem grpc_message_round_trip:
  "decode_grpc_message (encode_grpc_message s) = to_valid_utf8 s
   \<and> list_all (\<lambda>c. 32 \<le> byte c \<and> byte c \<le> 126) (encode_grpc_message s)"
  using decode_encode_unchecked encode_safe
  by (simp add: decode_eq_unchecked encode_eq_unchecked list_all_iff)

text \<open>The encoder and decoder are an exact codec on valid UTF-8.\<close>

interpretation grpc_message:
  exact_codec encode_grpc_message "\<lambda>b. Some (decode_grpc_message b)" valid_utf8
  by unfold_locales
    (simp add: decode_encode_unchecked decode_eq_unchecked encode_eq_unchecked to_valid_utf8_id)

end
