(* ===== verification/Grpc_Status.thy ===== *)
theory Grpc_Status
  imports Grpc_Headers Grpc_Message
begin

text \<open>
  The status of a call on the wire: \<open>grpc-status\<close>, \<open>grpc-message\<close> and
  \<open>grpc-status-details-bin\<close> (statuswire.go and details.go under src/transport/grpc). The
  protobuf runtime is a parameter: \<open>marshal\<close> and \<open>unmarshal\<close> of a \<open>google.rpc.Status\<close>,
  of which the lemmas assume only that what was marshalled unmarshals to itself. The 32 bits of
  the protobuf's signed code are kept as they are.
\<close>

record pb_status =
  pb_code :: u32
  pb_message :: string
  pb_details :: "detail list"

type_synonym marshal_fn = "pb_status \<Rightarrow> bytes option"
type_synonym unmarshal_fn = "bytes \<Rightarrow> pb_status option"

definition status_details_bin_key :: string where
  "status_details_bin_key = ''grpc-status-details-bin''"

definition status_message :: "go_error \<Rightarrow> string" where
  "status_message e =
     (case errors_as_status e of
        Some (_, m, _, _) \<Rightarrow> if m \<noteq> [] then m else err_text e
      | None \<Rightarrow> err_text e)"

definition fallback_status :: "code \<Rightarrow> string \<Rightarrow> go_error option" where
  "fallback_status c m = (if c = OK then None else Some (status_error c m))"

definition encode_status_details_raw :: "marshal_fn \<Rightarrow> go_error option \<Rightarrow> bytes option" where
  "encode_status_details_raw marshal err =
     (case err of
        None \<Rightarrow> None
      | Some e \<Rightarrow>
          if code_of err = OK then None
          else if details_of err = [] then None
          else marshal \<lparr>pb_code = code_of err, pb_message = status_message e,
                        pb_details = details_of err\<rparr>)"

definition encode_status_details_bin :: "marshal_fn \<Rightarrow> go_error option \<Rightarrow> string option" where
  "encode_status_details_bin marshal err =
     map_option b64_encode (encode_status_details_raw marshal err)"

definition mismatch_text :: "code \<Rightarrow> string \<Rightarrow> pb_status \<Rightarrow> string" where
  "mismatch_text c message st =
     ''grpc-status-details-bin mismatch: grpc-status='' @ nat_str (unat c)
     @ '', grpc-message='' @ go_quote message
     @ '', grpc-status-details-bin={code:'' @ itoa (sint (pb_code st))
     @ '' message:'' @ go_quote (pb_message st)
     @ '' details:'' @ nat_str (length (pb_details st)) @ ''}''"

definition decode_status_details_raw ::
    "unmarshal_fn \<Rightarrow> code \<Rightarrow> string \<Rightarrow> bytes list \<Rightarrow> go_error option" where
  "decode_status_details_raw unmarshal c message raws =
     (case raws of
        [raw] \<Rightarrow>
          (case unmarshal raw of
             None \<Rightarrow> fallback_status c message
           | Some st \<Rightarrow>
               if pb_code st \<noteq> c then Some (status_error Internal (mismatch_text c message st))
               else if pb_details st = [] then Some (status_error c (pb_message st))
               else Some (with_details (Some (status_error c (pb_message st))) (pb_details st)))
      | _ \<Rightarrow> fallback_status c message)"

definition decode_status_details_bin ::
    "unmarshal_fn \<Rightarrow> code \<Rightarrow> string \<Rightarrow> string list \<Rightarrow> go_error option" where
  "decode_status_details_bin unmarshal c message wireValues =
     (case decode_all_bin wireValues of
        None \<Rightarrow> fallback_status c message
      | Some raws \<Rightarrow> decode_status_details_raw unmarshal c message raws)"

definition encode_status_trailers ::
    "marshal_fn \<Rightarrow> go_error option \<Rightarrow> metadata \<Rightarrow> headers" where
  "encode_status_trailers marshal err user =
     (let code = code_of err;
          msg = (case err of None \<Rightarrow> [] | Some e \<Rightarrow> status_message e) in
      encode_trailers user
      @ [(''grpc-status'', nat_str (unat code))]
      @ (if msg \<noteq> [] then [(''grpc-message'', encode_grpc_message msg)] else [])
      @ (case encode_status_details_bin marshal err of
           None \<Rightarrow> []
         | Some wire \<Rightarrow> [(status_details_bin_key, wire)]))"

record status_scan =
  ss_status :: "string option"
  ss_message :: string
  ss_details :: "string list"

fun scan_status :: "headers \<Rightarrow> status_scan \<Rightarrow> status_scan" where
  "scan_status [] acc = acc"
| "scan_status ((name, v) # hs) acc =
     (let key = to_lower name in
      if key = ''grpc-status'' then scan_status hs (acc\<lparr>ss_status := Some v\<rparr>)
      else if key = ''grpc-message'' then scan_status hs (acc\<lparr>ss_message := v\<rparr>)
      else if key = status_details_bin_key then
        scan_status hs (acc\<lparr>ss_details := ss_details acc @ [v]\<rparr>)
      else scan_status hs acc)"

definition status_from_headers :: "headers \<Rightarrow> (code \<times> string \<times> string list) option" where
  "status_from_headers hs =
     (let sc = scan_status hs \<lparr>ss_status = None, ss_message = [], ss_details = []\<rparr> in
      case ss_status sc of
        None \<Rightarrow> None
      | Some sv \<Rightarrow>
          (case parse_uint sv 10 32 of
             None \<Rightarrow> Some (Unknown, decode_grpc_message (ss_message sc), ss_details sc)
           | Some n \<Rightarrow> Some (word_of_nat n, decode_grpc_message (ss_message sc), ss_details sc)))"

definition http_fallback_status :: "int \<Rightarrow> go_error" where
  "http_fallback_status httpStatus =
     (let h = (if httpStatus = 0 then 200 else httpStatus) in
      if h = 200 then status_error Unknown ''grpc: missing grpc-status in response''
      else status_error (from_http h) (''grpc: missing grpc-status; HTTP '' @ itoa h))"

definition resolve_call_status ::
    "unmarshal_fn \<Rightarrow> int \<Rightarrow> headers \<Rightarrow> headers \<Rightarrow> go_error option" where
  "resolve_call_status unmarshal httpStatus headers trailers =
     (case status_from_headers trailers of
        Some (c, msg, details) \<Rightarrow> decode_status_details_bin unmarshal c msg details
      | None \<Rightarrow>
          (case status_from_headers headers of
             Some (c, msg, details) \<Rightarrow> decode_status_details_bin unmarshal c msg details
           | None \<Rightarrow> Some (http_fallback_status httpStatus)))"

section \<open>What the client reads back\<close>

lemma encode_metadata_names:
  "(n, v) \<in> set (encode_metadata md) \<Longrightarrow>
     to_lower n = n \<and> \<not> is_reserved_header n \<and> user_values md n \<noteq> []"
proof (induction md rule: encode_metadata.induct)
  case (2 k vs md)
  have uv: "user_values ((k, vs) # md) j = (if j = to_lower k then vs else []) @ user_values md j" for j
    by (auto simp: user_values_def)
  show ?case
    using 2 by (auto simp: uv split: if_splits)
qed simp

lemma scan_status_append: "scan_status (h1 @ h2) acc = scan_status h2 (scan_status h1 acc)"
  by (induction h1 acc rule: scan_status.induct) (simp_all add: Let_def)

lemma scan_skip:
  "list_all (\<lambda>(n, v). to_lower n \<notin> {''grpc-status'', ''grpc-message'', status_details_bin_key}) hs
   \<Longrightarrow> scan_status hs acc = acc"
  by (induction hs acc rule: scan_status.induct) (simp_all add: Let_def)

lemma scan_user:
  assumes "user_values user status_details_bin_key = []"
  shows "scan_status (encode_metadata user) acc = acc"
proof (rule scan_skip)
  have "to_lower n \<notin> {''grpc-status'', ''grpc-message'', status_details_bin_key}"
    if "(n, v) \<in> set (encode_metadata user)" for n v
    using encode_metadata_names [OF that] assms by (auto simp: is_reserved_header_def)
  then show "list_all (\<lambda>(n, v). to_lower n \<notin> {''grpc-status'', ''grpc-message'',
      status_details_bin_key}) (encode_metadata user)"
    by (auto simp: list_all_iff)
qed

lemma lower_status_keys [simp]:
  "to_lower ''grpc-status'' = ''grpc-status''" "to_lower ''grpc-message'' = ''grpc-message''"
  "to_lower status_details_bin_key = status_details_bin_key"
  "status_details_bin_key \<noteq> ''grpc-status''" "status_details_bin_key \<noteq> ''grpc-message''"
  by code_simp+

lemma decode_grpc_Nil [simp]: "decode_grpc_message [] = []"
  by (simp add: decode_grpc_message_def)

lemma parse_code: "parse_uint (nat_str (unat (c :: u32))) 10 32 = Some (unat c)"
proof (rule parse_nat_str)
  show "unat c < 2 ^ 32" using unsigned_less [of c] by simp
qed

lemma parse_code_0: "parse_uint (nat_str 0) 10 32 = Some 0"
  by (rule parse_nat_str) simp

lemma status_from_trailers:
  assumes "user_values user status_details_bin_key = []"
  shows "status_from_headers (encode_status_trailers marshal err user) =
     Some (code_of err,
           to_valid_utf8 (case err of None \<Rightarrow> [] | Some e \<Rightarrow> status_message e),
           case encode_status_details_bin marshal err of None \<Rightarrow> [] | Some w \<Rightarrow> [w])"
proof -
  have m: "decode_grpc_message (encode_grpc_message x) = to_valid_utf8 x" for x
    by (simp add: decode_eq_unchecked encode_eq_unchecked decode_encode_unchecked)
  show ?thesis
    using scan_user [OF assms]
    by (auto simp: status_from_headers_def encode_status_trailers_def encode_trailers_def
        scan_status_append parse_code parse_code_0 m Let_def split: option.splits)
qed

definition wire_parts :: "marshal_fn \<Rightarrow> go_error \<Rightarrow> status_parts" where
  "wire_parts marshal e =
     (if encode_status_details_raw marshal (Some e) = None
      then (code_of (Some e), to_valid_utf8 (status_message e), [], None)
      else (code_of (Some e), status_message e, details_of (Some e), None))"

lemma sent_status_decodes:
  assumes codec: "\<And>pb raw. marshal pb = Some raw \<Longrightarrow> unmarshal raw = Some pb"
    and "code_of (Some e) \<noteq> OK"
  shows "\<exists>e'. decode_status_details_bin unmarshal (code_of (Some e)) (to_valid_utf8 (status_message e))
              (case encode_status_details_bin marshal (Some e) of None \<Rightarrow> [] | Some w \<Rightarrow> [w]) = Some e'
            \<and> errors_as_status e' = Some (wire_parts marshal e)"
proof (cases "encode_status_details_raw marshal (Some e)")
  case None
  then show ?thesis using assms(2)
    by (simp add: encode_status_details_bin_def decode_status_details_bin_def
        decode_status_details_raw_def fallback_status_def wire_parts_def status_error_def)
next
  case (Some raw)
  then have ne: "details_of (Some e) \<noteq> []" and
    "marshal \<lparr>pb_code = code_of (Some e), pb_message = status_message e,
              pb_details = details_of (Some e)\<rparr> = Some raw"
    by (auto simp: encode_status_details_raw_def split: if_splits)
  from codec [OF this(2)] ne Some show ?thesis
    by (simp add: encode_status_details_bin_def decode_status_details_bin_def
        decode_status_details_raw_def decode_bin_encode wire_parts_def status_error_def
        with_details_def Let_def)
qed

lemma sent_ok_decodes:
  "decode_status_details_bin unmarshal OK m
     (case encode_status_details_bin marshal None of None \<Rightarrow> [] | Some w \<Rightarrow> [w]) = None"
  by (simp add: encode_status_details_bin_def encode_status_details_raw_def decode_status_details_bin_def
      decode_status_details_raw_def fallback_status_def)

text \<open>
  C7: the status a handler returned is the status the client sees, and user trailers cannot
  forge it: for an error whose code is not OK and user trailers that do not themselves name
  \<open>grpc-status-details-bin\<close>, the client resolves the trailers to a status error with the same
  code, with the handler's message and details when the details could be marshalled and
  otherwise with the message (invalid UTF-8 replaced) and no details; and for no error it
  resolves them to success, whatever the HTTP status and headers are.
\<close>

theorem status_round_trip:
  assumes codec: "\<And>pb raw. marshal pb = Some raw \<Longrightarrow> unmarshal raw = Some pb"
    and user: "user_values user status_details_bin_key = []"
    and "code_of (Some e) \<noteq> OK"
  shows "(\<exists>e'. resolve_call_status unmarshal h hdrs (encode_status_trailers marshal (Some e) user)
                = Some e' \<and> errors_as_status e' = Some (wire_parts marshal e))
         \<and> resolve_call_status unmarshal h hdrs (encode_status_trailers marshal None user) = None"
  using sent_status_decodes [OF assms(1,3)] sent_ok_decodes [of unmarshal _ marshal]
  by (simp add: resolve_call_status_def status_from_trailers [OF user] code_of_def [of None])

definition demo_status :: go_error where
  "demo_status = ErrStatus 5 ''gone'' [\<lparr>TypeURL = ''t'', Value = ''v''\<rparr>] None"

definition demo_pb :: pb_status where
  "demo_pb = \<lparr>pb_code = 5, pb_message = ''gone'', pb_details = [\<lparr>TypeURL = ''t'', Value = ''v''\<rparr>]\<rparr>"

definition demo_marshal :: marshal_fn where
  "demo_marshal pb = (if pb = demo_pb then Some ''raw'' else None)"

definition demo_unmarshal :: unmarshal_fn where
  "demo_unmarshal b = (if b = ''raw'' then Some demo_pb else None)"

lemma status_round_trip_witness:
  "\<exists>e'. resolve_call_status demo_unmarshal 200 []
          (encode_status_trailers demo_marshal (Some demo_status) [(''x'', [''1''])]) = Some e'
        \<and> errors_as_status e'
            = Some (5, ''gone'', [\<lparr>TypeURL = ''t'', Value = ''v''\<rparr>], None)"
proof -
  have "demo_unmarshal raw = Some pb" if "demo_marshal pb = Some raw" for pb raw
    using that by (auto simp: demo_marshal_def demo_unmarshal_def split: if_splits)
  moreover have "user_values [(''x'', [''1''])] status_details_bin_key = []" by code_simp
  moreover have "code_of (Some demo_status) \<noteq> OK" by (simp add: demo_status_def)
  moreover have "wire_parts demo_marshal demo_status
      = (5, ''gone'', [\<lparr>TypeURL = ''t'', Value = ''v''\<rparr>], None)"
    by (simp add: wire_parts_def demo_status_def encode_status_details_raw_def details_of_def
        status_message_def demo_marshal_def demo_pb_def)
  ultimately show ?thesis
    using status_round_trip [of demo_marshal demo_unmarshal "[(''x'', [''1''])]" demo_status 200 "[]"]
    by auto
qed

lemma scan_status_source:
  "ss_status (scan_status hs acc) = Some v \<Longrightarrow>
     ss_status acc = Some v \<or> (\<exists>n. (n, v) \<in> set hs \<and> to_lower n = ''grpc-status'')"
  by (induction hs acc rule: scan_status.induct) (auto simp: Let_def split: if_splits)

lemma status_from_headers_code:
  assumes "status_from_headers hs = Some (OK, m, d)"
  shows "\<exists>n v. (n, v) \<in> set hs \<and> to_lower n = ''grpc-status'' \<and> parse_uint v 10 32 = Some 0"
proof -
  let ?sc = "scan_status hs \<lparr>ss_status = None, ss_message = [], ss_details = []\<rparr>"
  from assms obtain v k where v: "ss_status ?sc = Some v" "parse_uint v 10 32 = Some k"
    and z: "word_of_nat k = (0 :: u32)"
    by (auto simp: status_from_headers_def Let_def split: option.splits)
  have "k < 2 ^ 32" using v(2) by (auto simp: parse_uint_def split: if_splits option.splits)
  then have "k = unat (word_of_nat k :: u32)" by (simp add: unat_of_nat)
  then have "k = 0" by (simp add: z)
  with v scan_status_source [OF v(1)] show ?thesis by auto
qed

lemma decode_details_None: "decode_status_details_bin unmarshal c m ds = None \<Longrightarrow> c = OK"
  by (auto simp: decode_status_details_bin_def decode_status_details_raw_def fallback_status_def
      split: option.splits list.splits if_splits)

text \<open>
  C19: silence is never success: the client resolves a response to success only when the trailers
  or the headers carry a \<open>grpc-status\<close> whose value is the number zero; in particular a plain
  HTTP 200 without one is an error.
\<close>

theorem no_silent_success:
  assumes "resolve_call_status unmarshal h hdrs trls = None"
  shows "\<exists>n v. (n, v) \<in> set (trls @ hdrs) \<and> to_lower n = ''grpc-status''
             \<and> parse_uint v 10 32 = Some 0"
  using assms decode_details_None status_from_headers_code
  by (fastforce simp: resolve_call_status_def split: option.splits prod.splits)

lemma no_silent_success_witness:
  "\<exists>n v. (n, v) \<in> set ([(''grpc-status'', ''0'')] @ [(''server'', ''x'')])
         \<and> to_lower n = ''grpc-status'' \<and> parse_uint v 10 32 = Some 0"
  by (rule no_silent_success [of "\<lambda>_. None" 200]) code_simp

text \<open>The status made up for a response that carries none is never a success either.\<close>

lemma fallback_not_ok: "code_of (Some (http_fallback_status h)) \<noteq> OK"
  using from_http_OK by (simp add: http_fallback_status_def Let_def)

end
