(* ===== verification/Go_IO.thy ===== *)
theory Go_IO
  imports Errors
begin

text \<open>
  Byte streams. A reader is the bytes still to come and the error that follows them (\<open>io.EOF\<close>
  for a stream that ends cleanly). A writer keeps what it has written and a script of the
  failures of its next \<open>Write\<close> calls: an entry \<open>Some (k, e)\<close> makes that call write only
  \<open>k\<close> bytes and return \<open>e\<close>. Lengths on the wire are big-endian 32-bit values, kept as \<open>int\<close>.
\<close>

record go_reader =
  rd_data :: bytes
  rd_err :: go_error

definition reader :: "bytes \<Rightarrow> go_reader" where
  "reader b = \<lparr>rd_data = b, rd_err = err_EOF\<rparr>"

definition read_full :: "go_reader \<Rightarrow> nat \<Rightarrow> (go_error + bytes) \<times> go_reader" where
  "read_full r n =
     (if n \<le> length (rd_data r) then
        (Inr (take n (rd_data r)), r\<lparr>rd_data := drop n (rd_data r)\<rparr>)
      else
        (Inl (if rd_data r \<noteq> [] \<and> rd_err r = err_EOF then err_UnexpectedEOF else rd_err r),
         r\<lparr>rd_data := []\<rparr>))"

text \<open>\<open>io.Copy(io.Discard, io.LimitReader(r, n))\<close>: the count copied and the error, if any.\<close>

definition discard_limited :: "go_reader \<Rightarrow> nat \<Rightarrow> nat \<times> go_error option \<times> go_reader" where
  "discard_limited r n =
     (if n \<le> length (rd_data r) then (n, None, r\<lparr>rd_data := drop n (rd_data r)\<rparr>)
      else (length (rd_data r), (if rd_err r = err_EOF then None else Some (rd_err r)),
            r\<lparr>rd_data := []\<rparr>))"

record go_writer =
  wr_out :: bytes
  wr_script :: "(nat \<times> go_error) option list"

definition writer :: go_writer where
  "writer = \<lparr>wr_out = [], wr_script = []\<rparr>"

definition go_write :: "go_writer \<Rightarrow> bytes \<Rightarrow> go_error option \<times> go_writer" where
  "go_write w b =
     (case wr_script w of
        [] \<Rightarrow> (None, w\<lparr>wr_out := wr_out w @ b\<rparr>)
      | None # rest \<Rightarrow> (None, w\<lparr>wr_out := wr_out w @ b, wr_script := rest\<rparr>)
      | Some (k, e) # rest \<Rightarrow>
          (Some e, w\<lparr>wr_out := wr_out w @ take k b, wr_script := rest\<rparr>))"

section \<open>Big-endian lengths\<close>

definition byte_of :: "int \<Rightarrow> char" where
  "byte_of i = char_of (nat (i mod 256))"

definition be32 :: "int \<Rightarrow> bytes" where
  "be32 n = [byte_of (n div 16777216), byte_of (n div 65536), byte_of (n div 256), byte_of n]"

fun be32_val :: "bytes \<Rightarrow> int" where
  "be32_val [a, b, c, d] =
     int (byte a) * 16777216 + int (byte b) * 65536 + int (byte c) * 256 + int (byte d)"
| "be32_val _ = 0"

lemma byte_byte_of: "int (byte (byte_of i)) = i mod 256"
proof -
  have "nat (i mod 256) < 256" by (simp add: nat_less_iff)
  then show ?thesis by (simp add: byte_of_def)
qed

lemma length_be32 [simp]: "length (be32 n) = 4"
  by (simp add: be32_def)

lemma mod_256_mult:
  "0 \<le> c \<Longrightarrow> (n :: int) mod (256 * c) = 256 * (n div 256 mod c) + n mod 256"
  by (rule zmod_zmult2_eq)

lemma be32_val_be32: "be32_val (be32 n) = n mod 4294967296"
proof -
  define q where "q = n div 256"
  define q2 where "q2 = q div 256"
  define q3 where "q3 = q2 div 256"
  have "n div 65536 = q2" and "n div 16777216 = q3"
    by (simp_all add: q_def q2_def q3_def zdiv_zmult2_eq [symmetric])
  then have v: "be32_val (be32 n) =
      q3 mod 256 * 16777216 + q2 mod 256 * 65536 + q mod 256 * 256 + n mod 256"
    by (simp add: be32_def byte_byte_of q_def)
  have "n mod 4294967296 = 256 * (q mod 16777216) + n mod 256"
    using mod_256_mult [of 16777216 n] by (simp add: q_def)
  moreover have "q mod 16777216 = 256 * (q2 mod 65536) + q mod 256"
    using mod_256_mult [of 65536 q] by (simp add: q2_def)
  moreover have "q2 mod 65536 = 256 * (q3 mod 256) + q2 mod 256"
    using mod_256_mult [of 256 q2] by (simp add: q3_def)
  ultimately show ?thesis unfolding v by (simp only:) simp
qed

lemma be32_val_bound: "0 \<le> be32_val b \<and> be32_val b < 4294967296"
proof -
  have "int (byte c) \<le> 255" for c using byte_less [of c] by linarith
  then show ?thesis
  proof (cases b rule: be32_val.cases)
    case (1 a b' c d)
    have "int (byte a) \<le> 255" "int (byte b') \<le> 255" "int (byte c) \<le> 255" "int (byte d) \<le> 255"
      using \<open>\<And>c. int (byte c) \<le> 255\<close> by simp_all
    with 1 show ?thesis by simp
  qed simp_all
qed

lemma read_full_append:
  "read_full (r\<lparr>rd_data := p @ s\<rparr>) (length p) = (Inr p, r\<lparr>rd_data := s\<rparr>)"
  by (simp add: read_full_def)

lemma read_full_reader [simp]:
  "read_full (reader (p @ s)) (length p) = (Inr p, reader s)"
  by (simp add: read_full_def reader_def)

lemma read_full_suffix:
  "read_full r n = (x, r') \<Longrightarrow>
     (\<exists>k \<le> n. rd_data r' = drop k (rd_data r)) \<and> rd_err r' = rd_err r"
  by (auto simp: read_full_def split: if_splits)

lemma go_write_ok [simp]:
  "wr_script w = [] \<Longrightarrow> go_write w b = (None, w\<lparr>wr_out := wr_out w @ b\<rparr>)"
  by (simp add: go_write_def)

end
