(* ===== verification/Grpc_Lpm.thy ===== *)
theory Grpc_Lpm
  imports Go_IO Status
begin

text \<open>
  gRPC length-prefixed messages (src/transport/grpc/lpm.go): a flag byte, a 32-bit big-endian
  length, the payload. Errors are values; the reader left behind shows how far the stream was
  consumed.
\<close>

definition err_invalid_lpm_flag :: go_error where
  "err_invalid_lpm_flag = ErrVar ''grpc: invalid LPM compressed flag''"

definition err_lpm_unsynced :: go_error where
  "err_lpm_unsynced = ErrVar ''grpc: LPM stream out of sync''"

definition max_drain :: "int \<Rightarrow> int" where
  "max_drain maxLen = (if maxLen < 1048576 then 1048576 else maxLen)"

definition lpm_header :: "bool \<Rightarrow> bytes \<Rightarrow> bytes" where
  "lpm_header compressed payload =
     (if compressed then char_of (1 :: nat) else char_of (0 :: nat))
       # be32 (int (length payload) mod 4294967296)"

definition write_lpm :: "go_writer \<Rightarrow> bool \<Rightarrow> bytes \<Rightarrow> go_error option \<times> go_writer" where
  "write_lpm w compressed payload =
     (case go_write w (lpm_header compressed payload) of
        (Some e, w1) \<Rightarrow> (Some e, w1)
      | (None, w1) \<Rightarrow> if payload = [] then (None, w1) else go_write w1 payload)"

text \<open>The rejection of a message longer than the limit, with the drain that keeps the stream aligned.\<close>

definition reject_oversize ::
    "go_reader \<Rightarrow> int \<Rightarrow> int \<Rightarrow> (go_error + bool \<times> bytes) \<times> go_reader" where
  "reject_oversize r n maxLen =
     (let st = status_error ResourceExhausted
                 (''grpc: LPM length '' @ itoa n @ '' > max '' @ itoa maxLen) in
      if max_drain maxLen < n then
        (Inl (ErrWrap (err_text err_lpm_unsynced @ '': '' @ err_text st) [err_lpm_unsynced, st]), r)
      else
        (case discard_limited r (nat n) of
           (drained, Some derr, r') \<Rightarrow>
             (Inl (ErrWrap (err_text err_lpm_unsynced @ '': '' @ err_text derr)
                     [err_lpm_unsynced, derr]), r')
         | (drained, None, r') \<Rightarrow>
             if int drained \<noteq> n then
               (Inl (ErrWrap (err_text err_lpm_unsynced @ '': drained '' @ nat_str drained
                        @ '' of '' @ itoa n) [err_lpm_unsynced]), r')
             else (Inl st, r')))"

definition read_lpm_limited ::
    "go_reader \<Rightarrow> int \<Rightarrow> (go_error + bool \<times> bytes) \<times> go_reader" where
  "read_lpm_limited r maxLen =
     (case read_full r 5 of
        (Inl e, r1) \<Rightarrow> (Inl e, r1)
      | (Inr hdr, r1) \<Rightarrow>
          let flag = byte (hd hdr); n = be32_val (tl hdr) in
          if 1 < flag then
            (Inl (ErrWrap (err_text err_invalid_lpm_flag @ '' '' @ nat_str flag)
                    [err_invalid_lpm_flag]), r1)
          else if 0 < maxLen \<and> maxLen < n then reject_oversize r1 n maxLen
          else if n = 0 then (Inr (flag \<noteq> 0, []), r1)
          else (case read_full r1 (nat n) of
                  (Inl e, r2) \<Rightarrow> (Inl e, r2)
                | (Inr payload, r2) \<Rightarrow> (Inr (flag \<noteq> 0, payload), r2)))"

definition read_lpm :: "go_reader \<Rightarrow> (go_error + bool \<times> bytes) \<times> go_reader" where
  "read_lpm r = read_lpm_limited r 0"

section \<open>Messages as a wire format\<close>

definition lpm_bytes :: "bool \<times> bytes \<Rightarrow> bytes" where
  "lpm_bytes m = wr_out (snd (write_lpm writer (fst m) (snd m)))"

definition lpm_next :: "int \<Rightarrow> bytes \<Rightarrow> ((bool \<times> bytes) \<times> bytes) option" where
  "lpm_next maxLen b =
     (case read_lpm_limited (reader b) maxLen of
        (Inl _, _) \<Rightarrow> None
      | (Inr m, r) \<Rightarrow> Some (m, rd_data r))"

definition lpm_ok :: "int \<Rightarrow> bool \<times> bytes \<Rightarrow> bool" where
  "lpm_ok maxLen m \<longleftrightarrow>
     int (length (snd m)) < 4294967296 \<and> (0 < maxLen \<longrightarrow> int (length (snd m)) \<le> maxLen)"

lemma lpm_bytes_eq: "lpm_bytes (c, p) = lpm_header c p @ p"
  by (simp add: lpm_bytes_def write_lpm_def writer_def)

lemma lpm_header_length [simp]: "length (lpm_header c p) = 5"
  by (simp add: lpm_header_def)

lemma lpm_header_flag: "byte (hd (lpm_header c p)) = (if c then 1 else 0)"
  by (simp add: lpm_header_def)

lemma lpm_header_len: "be32_val (tl (lpm_header c p)) = int (length p) mod 4294967296"
  by (simp add: lpm_header_def be32_val_be32)

lemma read_header:
  "read_full (r\<lparr>rd_data := lpm_header c p @ s\<rparr>) 5 = (Inr (lpm_header c p), r\<lparr>rd_data := s\<rparr>)"
  using read_full_append [where r = r and p = "lpm_header c p" and s = s] by simp

text \<open>What the reader does after the header of a message, whatever follows it.\<close>

lemma read_lpm_after_header:
  "read_lpm_limited (r\<lparr>rd_data := lpm_header c p @ s\<rparr>) maxLen =
     (let n = int (length p) mod 4294967296; r1 = r\<lparr>rd_data := s\<rparr> in
      if 0 < maxLen \<and> maxLen < n then reject_oversize r1 n maxLen
      else if n = 0 then (Inr (c, []), r1)
      else (case read_full r1 (nat n) of
              (Inl e, r2) \<Rightarrow> (Inl e, r2)
            | (Inr payload, r2) \<Rightarrow> (Inr (c, payload), r2)))"
  unfolding read_lpm_limited_def read_header
  by (cases c)
    (auto simp: lpm_header_flag lpm_header_len Let_def split: sum.splits prod.splits)

lemma read_lpm_message:
  assumes "lpm_ok maxLen (c, p)"
  shows "read_lpm_limited (r\<lparr>rd_data := lpm_bytes (c, p) @ s\<rparr>) maxLen
           = (Inr (c, p), r\<lparr>rd_data := s\<rparr>)"
proof -
  have n: "int (length p) mod 4294967296 = int (length p)"
    using assms by (simp add: lpm_ok_def)
  have rf: "read_full (r\<lparr>rd_data := p @ s\<rparr>) (length p) = (Inr p, r\<lparr>rd_data := s\<rparr>)"
    by (rule read_full_append)
  show ?thesis
    using assms rf unfolding lpm_bytes_eq append_assoc read_lpm_after_header n
    by (auto simp: Let_def lpm_ok_def)
qed

interpretation lpm: wire_format lpm_bytes "lpm_next maxLen" "lpm_ok maxLen"
proof
  fix m rest assume ok: "lpm_ok maxLen m"
  obtain c p where m: "m = (c, p)" by (cases m)
  have "read_lpm_limited (reader (lpm_bytes m @ rest)) maxLen = (Inr m, reader rest)"
    using read_lpm_message [where r = "reader []" and s = rest, of maxLen c p] ok by (simp add: m reader_def)
  then show "lpm_next maxLen (lpm_bytes m @ rest) = Some (m, rest)"
    by (simp add: lpm_next_def) (simp add: reader_def)
qed

text \<open>
  Length-prefixed framing is exact on a stream: any sequence of messages within the limit,
  written back to back and followed by anything, is read back as that sequence, and the reader
  stops exactly where the last message ends.
\<close>

lemma lpm_stream_round_trip:
  assumes "list_all (lpm_ok maxLen) ms"
  shows "dec_n (lpm_next maxLen) (length ms) (concat (map lpm_bytes ms) @ rest) = Some (ms, rest)"
  using assms by (rule lpm.dec_stream)

lemma lpm_stream_round_trip_witness:
  "dec_n (lpm_next 4) 2 (concat (map lpm_bytes [(True, ''abc''), (False, [])]) @ ''tail'')
     = Some ([(True, ''abc''), (False, [])], ''tail'')"
  using lpm_stream_round_trip [of 4 "[(True, ''abc''), (False, [])]" "''tail''"]
  by (simp add: lpm_ok_def numeral_2_eq_2)

text \<open>
  A message over the limit is refused without being delivered, and the refusal tells the
  truth about the stream: with the payload present and no longer than the drain bound it is a
  plain ResourceExhausted and the reader stands at the next message; past the bound, or when the
  payload is cut short, the error carries the out-of-sync sentinel.
\<close>

lemma lpm_oversize:
  assumes "0 < maxLen" and "maxLen < int (length p)" and "int (length p) < 4294967296"
  shows "(int (length p) \<le> max_drain maxLen \<longrightarrow>
           (\<exists>m. read_lpm_limited (r\<lparr>rd_data := lpm_bytes (c, p) @ s\<rparr>) maxLen
                 = (Inl (status_error ResourceExhausted m), r\<lparr>rd_data := s\<rparr>)))
       \<and> (max_drain maxLen < int (length p) \<or> k < length p \<longrightarrow>
           (\<exists>e. fst (read_lpm_limited (r\<lparr>rd_data := lpm_header c p @ take k p\<rparr>) maxLen) = Inl e
               \<and> errors_is e err_lpm_unsynced))"
proof -
  have n: "int (length p) mod 4294967296 = int (length p)" using assms by simp
  show ?thesis
    using assms unfolding lpm_bytes_eq append_assoc read_lpm_after_header n
    by (auto simp: Let_def reject_oversize_def discard_limited_def errors_is_def err_matches_def
          err_lpm_unsynced_def min_def)
qed

lemma lpm_oversize_witness:
  "(\<exists>m. read_lpm_limited ((reader [])\<lparr>rd_data := lpm_bytes (True, ''abcd'') @ ''next''\<rparr>) 2
        = (Inl (status_error ResourceExhausted m), (reader [])\<lparr>rd_data := ''next''\<rparr>))
   \<and> (\<exists>e. fst (read_lpm_limited ((reader [])\<lparr>rd_data := lpm_header True ''abcd'' @ take 3 ''abcd''\<rparr>) 2)
           = Inl e \<and> errors_is e err_lpm_unsynced)"
  using lpm_oversize [where maxLen = 2 and p = "''abcd''" and r = "reader []" and c = True
      and s = "''next''" and k = 3]
  by (simp add: max_drain_def)

text \<open>
  \<open>WriteLPM\<close> truncates the length to 32 bits without an error, so a payload of exactly
  four GiB is announced, and read, as an empty message, with its bytes left in the stream where
  the next header is expected.
\<close>

lemma lpm_length_truncated:
  assumes "length p = 4294967296"
  shows "fst (write_lpm writer c p) = None
         \<and> read_lpm_limited (reader (lpm_bytes (c, p))) 0 = (Inr (c, []), reader p)"
proof -
  have "read_lpm_limited ((reader [])\<lparr>rd_data := lpm_header c p @ p\<rparr>) 0
          = (Inr (c, []), (reader [])\<lparr>rd_data := p\<rparr>)"
    unfolding read_lpm_after_header using assms by (simp add: Let_def)
  moreover have "p \<noteq> []" using assms by auto
  ultimately show ?thesis
    by (simp add: lpm_bytes_eq reader_def write_lpm_def writer_def)
qed

lemma lpm_length_truncated_witness:
  "fst (write_lpm writer True (replicate 4294967296 CHR ''x'')) = None"
  using lpm_length_truncated [of "replicate 4294967296 CHR ''x''" True] by simp

end
