(* ===== verification/Grpc_Compress.thy ===== *)
theory Grpc_Compress
  imports Status Go_IO
begin

text \<open>
  Message compression of the gRPC transport (src/transport/grpc/compress.go,
  src/compressor/compressor.go) and the list a transport is configured with
  (src/transport/grpc/framing.go). A compressor compresses a whole message, or fails; what it
  decompresses is a reader, that is the bytes it yields and the error that follows them. A nil
  entry of a list is None. Real algorithms are arguments, described by a locale.
\<close>

record compressor =
  cp_Name :: string
  cp_Compress :: "bytes \<Rightarrow> go_error + bytes"
  cp_Decompress :: "bytes \<Rightarrow> go_error + go_reader"

definition identity_compressor :: compressor where
  "identity_compressor = \<lparr>cp_Name = ''identity'', cp_Compress = Inr, cp_Decompress = (\<lambda>b. Inr (reader b))\<rparr>"

definition find_compressor :: "string \<Rightarrow> compressor option list \<Rightarrow> compressor option" where
  "find_compressor name cs =
     (case find (\<lambda>c. case c of None \<Rightarrow> False | Some x \<Rightarrow> cp_Name x = name) cs of
        Some (Some x) \<Rightarrow> Some x
      | _ \<Rightarrow> None)"

definition accept_names :: "compressor option list \<Rightarrow> string list" where
  "accept_names cs = List.map_filter (map_option cp_Name) cs"

definition parse_accept_encoding :: "string \<Rightarrow> string list" where
  "parse_accept_encoding v =
     (if v = [] then [] else filter (\<lambda>p. p \<noteq> []) (map trim_space (split_on (CHR '','') v)))"

definition peer_accepts :: "string list \<Rightarrow> string \<Rightarrow> bool" where
  "peer_accepts accept name \<longleftrightarrow> name = [] \<or> name = cp_Name identity_compressor \<or> name \<in> set accept"

definition resolve_send_compressor ::
    "compressor option list \<Rightarrow> string \<Rightarrow> string list \<Rightarrow> bool \<Rightarrow> compressor" where
  "resolve_send_compressor cs sendName peerAccept isServer =
     (case find_compressor sendName cs of
        None \<Rightarrow> identity_compressor
      | Some c \<Rightarrow>
          if \<not> isServer then c
          else if \<not> peer_accepts peerAccept (cp_Name c) then identity_compressor
          else c)"

definition compress_message :: "compressor option \<Rightarrow> bytes \<Rightarrow> go_error + bool \<times> bytes" where
  "compress_message c data =
     (case c of
        None \<Rightarrow> Inr (False, data)
      | Some x \<Rightarrow>
          if cp_Name x = cp_Name identity_compressor then Inr (False, data)
          else (case cp_Compress x data of Inl e \<Rightarrow> Inl e | Inr out \<Rightarrow> Inr (True, out)))"

text \<open>\<open>io.ReadAll\<close> of a reader, and of a \<open>LimitReader\<close> on it.\<close>

definition read_all :: "go_reader \<Rightarrow> go_error + bytes" where
  "read_all r = (if rd_err r = err_EOF then Inr (rd_data r) else Inl (rd_err r))"

definition limit_reader :: "nat \<Rightarrow> go_reader \<Rightarrow> go_reader" where
  "limit_reader n r = (if n \<le> length (rd_data r) then reader (take n (rd_data r)) else r)"

definition decompress_message :: "compressor option \<Rightarrow> bytes \<Rightarrow> int \<Rightarrow> go_error + bytes" where
  "decompress_message c data maxMsg =
     (case c of
        None \<Rightarrow> Inl (status_error Unimplemented ''grpc: missing compressor for compressed message'')
      | Some x \<Rightarrow>
          (case cp_Decompress x data of
             Inl e \<Rightarrow> Inl e
           | Inr rc \<Rightarrow>
               (case read_all (if 0 < maxMsg then limit_reader (nat (maxMsg + 1)) rc else rc) of
                  Inl e \<Rightarrow> Inl e
                | Inr out \<Rightarrow>
                    if 0 < maxMsg \<and> maxMsg < int (length out) then
                      Inl (status_error ResourceExhausted
                        (''grpc: decompressed payload '' @ nat_str (length out) @ '' > max '' @ itoa maxMsg))
                    else Inr out)))"

definition unsupported_encoding :: "string \<Rightarrow> go_error" where
  "unsupported_encoding enc =
     status_error Unimplemented
       (''grpc: compression algorithm '' @ go_quote (if enc = [] then ''unknown'' else enc) @ '' not enabled'')"

section \<open>Configuration\<close>

fun check_compressors :: "compressor option list \<Rightarrow> string list \<Rightarrow> go_error option" where
  "check_compressors [] seen = None"
| "check_compressors (c # cs) seen =
     (case c of
        None \<Rightarrow> Some (ErrNew ''grpc: nil compressor'')
      | Some x \<Rightarrow>
          if cp_Name x = [] then Some (ErrNew ''grpc: compressor with empty name'')
          else if cp_Name x \<in> set seen then
            Some (ErrNew (''grpc: duplicate compressor '' @ go_quote (cp_Name x)))
          else check_compressors cs (cp_Name x # seen))"

record framing =
  fr_compressors :: "compressor option list"
  fr_sendName :: string

definition new_framing :: "compressor option list \<Rightarrow> string \<Rightarrow> go_error + framing" where
  "new_framing extra sendName =
     (case check_compressors extra [cp_Name identity_compressor] of
        Some e \<Rightarrow> Inl e
      | None \<Rightarrow>
          let cs = Some identity_compressor # extra;
              name = (if sendName = [] then cp_Name identity_compressor else sendName) in
          (case find_compressor name cs of
             None \<Rightarrow> Inl (ErrNew (''grpc: send compressor '' @ go_quote name @ '' not configured''))
           | Some _ \<Rightarrow> Inr \<lparr>fr_compressors = cs, fr_sendName = name\<rparr>))"

definition compressor_list :: "framing option \<Rightarrow> compressor option list" where
  "compressor_list f =
     (case f of
        None \<Rightarrow> [Some identity_compressor]
      | Some x \<Rightarrow> if fr_compressors x = [] then [Some identity_compressor] else fr_compressors x)"

definition outbound_send_name :: "framing option \<Rightarrow> string" where
  "outbound_send_name f =
     (case f of
        None \<Rightarrow> cp_Name identity_compressor
      | Some x \<Rightarrow> if fr_sendName x = [] then cp_Name identity_compressor else fr_sendName x)"

section \<open>What an algorithm promises\<close>

locale lossless_compressor =
  fixes c :: compressor
  assumes compress_total: "\<exists>out. cp_Compress c data = Inr out"
    and decompress_compress: "cp_Compress c data = Inr out \<Longrightarrow> cp_Decompress c out = Inr (reader data)"
begin

lemma message_round_trip:
  assumes "maxMsg \<le> 0 \<or> int (length data) \<le> maxMsg"
    and "compress_message (Some c) data = Inr (True, out)"
  shows "decompress_message (Some c) out maxMsg = Inr data"
proof -
  have "cp_Compress c data = Inr out"
    using assms(2) by (auto simp: compress_message_def split: if_splits sum.splits)
  from decompress_compress [OF this] assms(1) show ?thesis
    by (auto simp: decompress_message_def read_all_def limit_reader_def reader_def)
qed

lemma bomb_refused:
  assumes "0 < maxMsg" "maxMsg < int (length data)" "cp_Compress c data = Inr out"
  shows "\<exists>m. decompress_message (Some c) out maxMsg = Inl (status_error ResourceExhausted m)"
proof -
  have n: "nat (maxMsg + 1) \<le> length data" using assms(1,2) by linarith
  then have "min (length data) (nat (maxMsg + 1)) = nat (maxMsg + 1)" by simp
  with decompress_compress [OF assms(3)] assms(1) n show ?thesis
    by (auto simp: decompress_message_def read_all_def limit_reader_def reader_def)
qed

end

interpretation identity_codec: lossless_compressor identity_compressor
  by unfold_locales (auto simp: identity_compressor_def)

lemma decompress_bounded:
  "decompress_message c data maxMsg = Inr out \<Longrightarrow> maxMsg \<le> 0 \<or> int (length out) \<le> maxMsg"
  by (auto simp: decompress_message_def split: option.splits sum.splits if_splits)

lemma check_compressors_ok:
  "check_compressors cs seen = None \<Longrightarrow>
     list_all (\<lambda>c. c \<noteq> None \<and> cp_Name (the c) \<noteq> []) cs
     \<and> distinct (map (cp_Name \<circ> the) cs) \<and> set (map (cp_Name \<circ> the) cs) \<inter> set seen = {}"
proof (induction cs arbitrary: seen)
  case (Cons c cs)
  then obtain x where x: "c = Some x" "cp_Name x \<noteq> []" "cp_Name x \<notin> set seen"
    "check_compressors cs (cp_Name x # seen) = None"
    by (auto split: option.splits if_splits)
  from Cons.IH [OF x(4)] x show ?case by auto
qed simp

lemma find_compressor_name: "find_compressor n cs = Some c \<Longrightarrow> cp_Name c = n \<and> Some c \<in> set cs"
  by (auto simp: find_compressor_def find_Some_iff split: option.splits)
    (metis nth_mem option.simps(5))+

text \<open>
  Whatever the peer advertises, the server answers with an encoding the peer accepts, and a
  transport always has the encoding it sends with. A configuration accepted by \<open>newFraming\<close> has
  pairwise different, non-empty names with identity first and its send compressor among them;
  the compressor a server picks is identity or one the peer listed, and a client uses exactly the
  configured one.
\<close>

lemma send_encoding_accepted:
  "case new_framing extra sendName of
     Inl _ \<Rightarrow> if check_compressors extra [''identity''] = None
              then find_compressor sendName (Some identity_compressor # extra) = None else True
   | Inr f \<Rightarrow>
       distinct (map (cp_Name \<circ> the) (compressor_list (Some f)))
       \<and> hd (compressor_list (Some f)) = Some identity_compressor
       \<and> list_all (\<lambda>c. c \<noteq> None \<and> cp_Name (the c) \<noteq> []) (compressor_list (Some f))
       \<and> cp_Name (resolve_send_compressor (compressor_list (Some f)) (outbound_send_name (Some f)) [] False)
           = (if sendName = [] then ''identity'' else sendName)
       \<and> (let c = resolve_send_compressor (compressor_list (Some f)) (outbound_send_name (Some f))
                    (parse_accept_encoding peer) True in
          cp_Name c = ''identity'' \<or> cp_Name c \<in> set (parse_accept_encoding peer))"
proof -
  have id: "cp_Name identity_compressor = ''identity''" by (simp add: identity_compressor_def)
  show ?thesis
  proof (cases "new_framing extra sendName")
    case (Inl e)
    then show ?thesis
      by (auto simp: new_framing_def id Let_def find_compressor_def split: option.splits if_splits)
  next
    case (Inr f)
    let ?n = "if sendName = [] then ''identity'' else sendName"
    let ?cs = "Some identity_compressor # extra"
    obtain c where f: "check_compressors extra [''identity''] = None" "find_compressor ?n ?cs = Some c"
      "f = \<lparr>fr_compressors = ?cs, fr_sendName = ?n\<rparr>"
      using Inr unfolding new_framing_def id by (auto simp: Let_def split: option.splits)
    note ok = check_compressors_ok [OF f(1)] and nm = find_compressor_name [OF f(2)]
    have r: "compressor_list (Some f) = ?cs" "outbound_send_name (Some f) = ?n"
      using f(3) by (simp_all add: compressor_list_def outbound_send_name_def)
    have "cp_Name (resolve_send_compressor ?cs ?n [] False) = ?n"
      using nm unfolding resolve_send_compressor_def f(2) by simp
    moreover have "let c = resolve_send_compressor ?cs ?n (parse_accept_encoding peer) True in
        cp_Name c = ''identity'' \<or> cp_Name c \<in> set (parse_accept_encoding peer)"
      using nm unfolding resolve_send_compressor_def f(2) by (auto simp: id peer_accepts_def Let_def)
    ultimately show ?thesis using ok Inr by (simp add: r id)
  qed
qed

end
