(* ===== verification/Grpc_Call.thy ===== *)
theory Grpc_Call
  imports Grpc_Status Grpc_Lpm Grpc_Compress Streams Registry
begin

text \<open>
  One gRPC call and the sessions that carry it (src/transport/grpc/call.go). An operation runs as a
  whole; the flags \<open>sending\<close> and \<open>recving\<close> are part of the state, so that an overlapping \<open>Send\<close>
  or \<open>Recv\<close> is refused as in the code. The carrier is a record of what it can do and answers;
  \<open>gc_body\<close> is the message stream to read, \<open>gc_writer\<close> the one written, and \<open>gc_wire\<close> the header
  blocks that were accepted for writing. The protobuf encoding of status details is a parameter.
\<close>

section \<open>State\<close>

record client_session =
  gs_closed :: bool
  gs_reusable :: bool
  gs_inFlight :: int

datatype wire_event =
    WHeaders int headers
  | WFinish int headers headers
  | WCloseSend
  | WAbort

record grpc_carrier =
  ca_responseWriter :: bool
  ca_writeHeaders :: "int \<Rightarrow> headers \<Rightarrow> go_error option"
  ca_finish :: "int \<Rightarrow> headers \<Rightarrow> headers \<Rightarrow> go_error option"
  ca_sendCloser :: bool
  ca_closeSend :: "go_error option"
  ca_headerReader :: bool
  ca_responseStatus :: "go_error + int"
  ca_responseHeaders :: "go_error + headers"
  ca_trailerReader :: bool
  ca_responseTrailers :: "go_error + headers"

record grpc_call =
  gc_hasClient :: bool
  gc_method :: string
  gc_md :: "call_md option"
  gc_subtype :: string
  gc_cfg :: session_options
  gc_maxMsg :: int
  gc_compressors :: "compressor option list"
  gc_sendComp :: "compressor option"
  gc_initiator :: bool
  gc_localCar :: bool
  gc_peerEncoding :: string
  gc_deadline :: "int option"
  gc_headersSent :: bool
  gc_headersSeen :: bool
  gc_halfClosed :: bool
  gc_finished :: bool
  gc_closed :: bool
  gc_sawTerminal :: bool
  gc_statusReturned :: bool
  gc_statusErr :: "go_error option"
  gc_messagesSent :: bool
  gc_messagesRecv :: bool
  gc_sendErr :: "go_error option"
  gc_sending :: bool
  gc_recving :: bool
  gc_headersOnce :: bool
  gc_headersErr :: "go_error option"
  gc_body :: go_reader
  gc_writer :: go_writer
  gc_wire :: "wire_event list"

definition err_concurrent_send :: go_error where "err_concurrent_send = ErrVar ''grpc: concurrent Send''"
definition err_concurrent_recv :: go_error where "err_concurrent_recv = ErrVar ''grpc: concurrent Recv''"
definition err_send_finished :: go_error where "err_send_finished = ErrVar ''grpc: send already finished''"
definition err_call_closed :: go_error where "err_call_closed = ErrVar ''grpc: call closed''"

definition http_ok :: int where "http_ok = 200"

text \<open>A call as \<open>OpenCall\<close> and \<open>AcceptCall\<close> build it.\<close>

definition fresh_call ::
    "bool \<Rightarrow> string \<Rightarrow> call_md option \<Rightarrow> string \<Rightarrow> session_options \<Rightarrow> compressor option list
     \<Rightarrow> compressor \<Rightarrow> string \<Rightarrow> int option \<Rightarrow> go_reader \<Rightarrow> go_writer \<Rightarrow> grpc_call" where
  "fresh_call initiator method md subtype cfg cs sendComp peerEnc deadline body out =
     \<lparr>gc_hasClient = initiator, gc_method = method, gc_md = md, gc_subtype = subtype, gc_cfg = cfg,
      gc_maxMsg = so_MaxMessageSize cfg, gc_compressors = cs, gc_sendComp = Some sendComp,
      gc_initiator = initiator, gc_localCar = initiator, gc_peerEncoding = peerEnc,
      gc_deadline = deadline, gc_headersSent = False, gc_headersSeen = False, gc_halfClosed = False,
      gc_finished = False, gc_closed = False, gc_sawTerminal = False, gc_statusReturned = False,
      gc_statusErr = None, gc_messagesSent = False, gc_messagesRecv = False, gc_sendErr = None,
      gc_sending = False, gc_recving = False, gc_headersOnce = False, gc_headersErr = None,
      gc_body = body, gc_writer = out, gc_wire = []\<rparr>"

section \<open>Client session\<close>

definition session_reusable :: "client_session \<Rightarrow> bool" where
  "session_reusable s \<longleftrightarrow> gs_reusable s \<and> \<not> gs_closed s"

definition session_mark_bad :: "client_session \<Rightarrow> client_session" where
  "session_mark_bad s = s\<lparr>gs_reusable := False\<rparr>"

definition end_flight :: "client_session \<Rightarrow> client_session" where
  "end_flight s = (if 0 < gs_inFlight s then s\<lparr>gs_inFlight := gs_inFlight s - 1\<rparr> else s)"

text \<open>\<open>connErr\<close> is what closing the connection returns.\<close>

definition session_close :: "go_error option \<Rightarrow> client_session \<Rightarrow> go_error option \<times> client_session" where
  "session_close connErr s =
     (if gs_closed s then (None, s) else (connErr, s\<lparr>gs_closed := True, gs_reusable := False\<rparr>))"

text \<open>
  \<open>OpenCall\<close>: the preface it sends, what it makes of the stream it gets, and the whole. \<open>ctxErr\<close> is
  the error of a context that is done, \<open>remaining\<close> the time to its deadline, \<open>now\<close> the clock;
  \<open>openStream\<close> opens the stream and tells whether its carrier is a byte stream.
\<close>

definition client_compressor :: "framing option \<Rightarrow> compressor" where
  "client_compressor fr = resolve_send_compressor (compressor_list fr) (outbound_send_name fr) [] False"

definition open_timeout :: "int option \<Rightarrow> int" where
  "open_timeout remaining = (case remaining of None \<Rightarrow> 0 | Some t \<Rightarrow> if t < 0 then 0 else t)"

definition open_preface ::
    "framing option \<Rightarrow> string \<Rightarrow> int \<Rightarrow> rpc_method \<Rightarrow> call_md option \<Rightarrow> request_preface" where
  "open_preface fr subtype timeout m md =
     build_request_preface
       \<lparr>po_method = m, po_outgoing = (case md of None \<Rightarrow> [] | Some d \<Rightarrow> outgoingHeaders d),
        po_timeout = timeout, po_subtype = subtype,
        po_send = (if cp_Name (client_compressor fr) \<noteq> cp_Name identity_compressor
                   then cp_Name (client_compressor fr) else []),
        po_accept = accept_names (compressor_list fr)\<rparr>"

definition open_on_stream ::
    "framing option \<Rightarrow> string \<Rightarrow> session_options \<Rightarrow> int option \<Rightarrow> rpc_method \<Rightarrow> call_md option
     \<Rightarrow> go_error + bool \<times> go_reader \<times> go_writer \<Rightarrow> client_session
     \<Rightarrow> (go_error + grpc_call) \<times> call_md option \<times> client_session" where
  "open_on_stream fr subtype cfg deadline m md stream s =
     (case stream of
        Inl e \<Rightarrow> (Inl e, md, session_mark_bad (end_flight s))
      | Inr (isBytes, body, out) \<Rightarrow>
          if \<not> isBytes then
            (Inl (ErrNew ''grpc: OpenStream Carrier is not ByteStreamCarrier''), md, end_flight s)
          else
            (Inr (fresh_call True (m_fullName m) md subtype cfg (compressor_list fr) (client_compressor fr) []
                    deadline body out), md, s))"

definition open_call ::
    "framing option \<Rightarrow> string \<Rightarrow> session_options \<Rightarrow> go_error option \<Rightarrow> int option \<Rightarrow> int
     \<Rightarrow> (request_preface \<Rightarrow> go_error + bool \<times> go_reader \<times> go_writer)
     \<Rightarrow> rpc_method \<Rightarrow> call_md option \<Rightarrow> client_session
     \<Rightarrow> (go_error + grpc_call) \<times> call_md option \<times> client_session" where
  "open_call fr subtype cfg ctxErr remaining now openStream m md s =
     (if method_is_zero m then (Inl (status_error InvalidArgument ''grpc: zero Method''), md, s)
      else
        (case ctxErr of
           Some e \<Rightarrow> (Inl e, md, s)
         | None \<Rightarrow>
             if gs_closed s \<or> \<not> gs_reusable s then
               (Inl (status_error Unavailable ''grpc: session not reusable''), md, s)
             else
               open_on_stream fr subtype cfg
                 (if 0 < open_timeout remaining then Some (now + open_timeout remaining) else None) m
                 (map_option freeze_outgoing_headers md)
                 (openStream (open_preface fr subtype (open_timeout remaining) m md))
                 (s\<lparr>gs_inFlight := gs_inFlight s + 1\<rparr>)))"

section \<open>Server session\<close>

record server_session =
  ss_closed :: bool
  ss_accepted :: bool

definition err_session_rejected :: go_error where
  "err_session_rejected = ErrVar ''framing: call rejected''"

definition check_inbound_meta :: "session_options \<Rightarrow> metadata \<Rightarrow> go_error option" where
  "check_inbound_meta cfg md =
     (let mx = so_MaxInboundMetadataSize cfg in
      if mx \<le> 0 \<or> md = [] then None
      else if mx < wire_size md then
        Some (status_error ResourceExhausted
          (''grpc: inbound metadata '' @ itoa (wire_size md) @ '' exceeds limit '' @ itoa mx))
      else None)"

definition server_session_close :: "go_error option \<Rightarrow> server_session \<Rightarrow> go_error option \<times> server_session" where
  "server_session_close connErr s = (if ss_closed s then (None, s) else (connErr, s\<lparr>ss_closed := True\<rparr>))"

text \<open>
  \<open>AcceptCall\<close> on a carrier with the request line and headers \<open>req\<close> (None when it cannot read
  them); \<open>isBytes\<close> as above. A rejected call comes back together with the error.
\<close>

definition accept_call ::
    "framing option \<Rightarrow> string \<Rightarrow> session_options \<Rightarrow> go_error option \<Rightarrow> int
     \<Rightarrow> (string \<times> headers) option \<Rightarrow> bool \<Rightarrow> go_reader \<Rightarrow> go_writer \<Rightarrow> call_md option \<Rightarrow> server_session
     \<Rightarrow> grpc_call option \<times> go_error option \<times> server_session" where
  "accept_call fr subtype cfg ctxErr now req isBytes body out md s =
     (case ctxErr of
        Some e \<Rightarrow> (None, Some e, s)
      | None \<Rightarrow>
          if ss_closed s then (None, Some err_EOF, s)
          else if ss_accepted s then (None, Some err_EOF, s)
          else
            let s1 = s\<lparr>ss_accepted := True\<rparr>; cs = compressor_list fr; sn = outbound_send_name fr in
            (case req of
               None \<Rightarrow> (None, Some (ErrNew ''grpc: server Carrier missing RequestHeaderReader''), s1)
             | Some (target, hs) \<Rightarrow>
                 if \<not> isBytes then (None, Some (ErrNew ''grpc: server Carrier is not ByteStreamCarrier''), s1)
                 else
                   (case parse_request_headers target hs of
                      Inl e \<Rightarrow>
                        let st = status_error InvalidArgument (err_text e) in
                        (Some (fresh_call False [] md subtype cfg cs
                                 (resolve_send_compressor cs sn [] True) [] None body out),
                         Some (ErrWrap (err_text err_session_rejected @ '': '' @ err_text st)
                                 [err_session_rejected, st]), s1)
                    | Inr info \<Rightarrow>
                        let fullName = ri_service info @ ''.'' @ ri_method info in
                        (case check_inbound_meta cfg (ri_metadata info) of
                           Some e \<Rightarrow>
                             (Some (fresh_call False fullName md subtype cfg cs
                                      (resolve_send_compressor cs sn [] True) [] None body out),
                              Some (ErrWrap (err_text err_session_rejected @ '': '' @ err_text e)
                                      [err_session_rejected, e]), s1)
                         | None \<Rightarrow>
                             (Some (fresh_call False fullName
                                      (map_option (set_incoming_headers (Some (ri_metadata info))) md)
                                      (if ri_subtype info = [] then subtype else ri_subtype info) cfg cs
                                      (resolve_send_compressor cs sn
                                         (parse_accept_encoding (ri_accept info)) True)
                                      (if ri_encoding info = cp_Name identity_compressor then []
                                       else ri_encoding info)
                                      (if ri_hasTimeout info then Some (now + ri_timeout info) else None)
                                      body out),
                              None, s1)))))"

definition server_accept :: "rpc_method \<Rightarrow> go_error option" where
  "server_accept m =
     (if method_is_zero m then Some (status_error InvalidArgument ''grpc: zero Method'') else None)"

section \<open>Failures\<close>

definition mark_bad :: "grpc_call \<Rightarrow> client_session \<Rightarrow> client_session" where
  "mark_bad c s = (if gc_hasClient c then session_mark_bad s else s)"

definition mark_bad_unless_limit :: "go_error \<Rightarrow> grpc_call \<Rightarrow> client_session \<Rightarrow> client_session" where
  "mark_bad_unless_limit err c s =
     (if code_of (Some err) = ResourceExhausted then s else mark_bad c s)"

definition send_failure :: "go_error \<Rightarrow> bool" where
  "send_failure err = (case as_send_error (Some err) of Some (_, ro) \<Rightarrow> ro | None \<Rightarrow> False)"

definition send_failed :: "go_error \<Rightarrow> grpc_call \<Rightarrow> client_session \<Rightarrow> go_error option \<times> grpc_call \<times> client_session" where
  "send_failed err c s =
     (Some err, (if gc_sendErr c = None then c\<lparr>gc_sendErr := Some err\<rparr> else c),
      (if send_failure err then s else mark_bad c s))"

definition send_encoding_header :: "grpc_call \<Rightarrow> string" where
  "send_encoding_header c =
     (case gc_sendComp c of
        None \<Rightarrow> []
      | Some x \<Rightarrow> if cp_Name x = cp_Name identity_compressor then [] else cp_Name x)"

definition out_headers :: "grpc_call \<Rightarrow> metadata" where
  "out_headers c = (case gc_md c of None \<Rightarrow> [] | Some d \<Rightarrow> outgoingHeaders d)"

section \<open>Sending\<close>

text \<open>The body of \<open>headersOnce\<close>.\<close>

definition headers_once :: "grpc_carrier \<Rightarrow> grpc_call \<Rightarrow> grpc_call" where
  "headers_once ca c =
     (if gc_headersOnce c then c
      else
        let c1 = c\<lparr>gc_headersOnce := True\<rparr> in
        if \<not> ca_responseWriter ca then
          c1\<lparr>gc_headersErr := Some (status_error Unimplemented ''grpc: carrier has no ResponseWriter'')\<rparr>
        else
          let hs = encode_response_headers (gc_subtype c) (out_headers c) (send_encoding_header c) in
          (case ca_writeHeaders ca http_ok hs of
             Some e \<Rightarrow> c1\<lparr>gc_headersErr := Some e\<rparr>
           | None \<Rightarrow> c1\<lparr>gc_headersSent := True, gc_md := map_option freeze_outgoing_headers (gc_md c),
                        gc_wire := gc_wire c @ [WHeaders http_ok hs]\<rparr>))"

definition write_response_headers_once ::
    "grpc_carrier \<Rightarrow> grpc_call \<Rightarrow> client_session \<Rightarrow> go_error option \<times> grpc_call \<times> client_session" where
  "write_response_headers_once ca c s =
     (let c1 = headers_once ca c in
      case gc_headersErr c1 of
        Some e \<Rightarrow> send_failed e c1 s
      | None \<Rightarrow> if \<not> gc_headersSent c1 then (Some err_headers_already_sent, c1, s) else (None, c1, s))"

definition grpc_send_headers ::
    "grpc_carrier \<Rightarrow> grpc_call \<Rightarrow> client_session \<Rightarrow> go_error option \<times> grpc_call \<times> client_session" where
  "grpc_send_headers ca c s =
     (if gc_initiator c then
        (Some (status_error Unimplemented ''grpc: SendHeaders unsupported for initiator''), c, s)
      else if gc_closed c then (Some err_call_closed, c, s)
      else if gc_headersSent c then (Some err_headers_already_sent, c, s)
      else if gc_finished c then (Some err_send_finished, c, s)
      else write_response_headers_once ca c s)"

definition maybe_auto_headers ::
    "grpc_carrier \<Rightarrow> grpc_call \<Rightarrow> client_session \<Rightarrow> go_error option \<times> grpc_call \<times> client_session" where
  "maybe_auto_headers ca c s =
     (if gc_initiator c then (None, c, s)
      else if gc_headersSent c then (None, c, s)
      else grpc_send_headers ca c s)"

text \<open>\<open>Send\<close> after its guards and the automatic headers.\<close>

definition send_message ::
    "bytes \<Rightarrow> grpc_call \<Rightarrow> client_session \<Rightarrow> go_error option \<times> grpc_call \<times> client_session" where
  "send_message data c s =
     (if 0 < gc_maxMsg c \<and> gc_maxMsg c < int (length data) then
        (Some (status_error ResourceExhausted
           (''grpc: Send payload '' @ nat_str (length data) @ '' > max '' @ itoa (gc_maxMsg c))), c, s)
      else
        (case compress_message (gc_sendComp c) data of
           Inl e \<Rightarrow> (Some (status_error Internal (err_text e)), c, s)
         | Inr (compressed, wire) \<Rightarrow>
             if 0 < so_MaxFrameSize (gc_cfg c) \<and> so_MaxFrameSize (gc_cfg c) < int (length wire) then
               (Some (status_error ResourceExhausted
                  (''grpc: Send wire payload '' @ nat_str (length wire) @ '' > max frame ''
                     @ itoa (so_MaxFrameSize (gc_cfg c)))), c, s)
             else
               (case write_lpm (gc_writer c) compressed wire of
                  (Some e, w) \<Rightarrow> send_failed e (c\<lparr>gc_writer := w\<rparr>) s
                | (None, w) \<Rightarrow> (None, c\<lparr>gc_writer := w, gc_messagesSent := True\<rparr>, s))))"

definition grpc_send ::
    "grpc_carrier \<Rightarrow> bytes \<Rightarrow> grpc_call \<Rightarrow> client_session \<Rightarrow> go_error option \<times> grpc_call \<times> client_session" where
  "grpc_send ca payload c s =
     (if gc_sending c then (Some err_concurrent_send, c, s)
      else if gc_closed c then (Some err_call_closed, c, s)
      else
        (case gc_sendErr c of
           Some e \<Rightarrow> (Some e, c, s)
         | None \<Rightarrow>
             if gc_initiator c \<and> gc_halfClosed c then (Some err_send_finished, c, s)
             else if \<not> gc_initiator c \<and> gc_finished c then (Some err_send_finished, c, s)
             else
               (case maybe_auto_headers ca c s of
                  (Some e, c1, s1) \<Rightarrow> (Some e, c1, s1)
                | (None, c1, s1) \<Rightarrow> send_message payload c1 s1)))"

definition grpc_half_close ::
    "grpc_carrier \<Rightarrow> grpc_call \<Rightarrow> client_session \<Rightarrow> go_error option \<times> grpc_call \<times> client_session" where
  "grpc_half_close ca c s =
     (if \<not> gc_initiator c then
        (Some (status_error Unimplemented ''grpc: HalfClose unsupported for responder''), c, s)
      else if gc_closed c then (Some err_call_closed, c, s)
      else
        (case gc_sendErr c of
           Some e \<Rightarrow> (Some e, c, s)
         | None \<Rightarrow>
             if gc_halfClosed c then (None, c, s)
             else
               let c1 = c\<lparr>gc_halfClosed := True\<rparr> in
               if \<not> ca_sendCloser ca then
                 (Some (status_error Unimplemented ''grpc: carrier has no CloseSend''), c1, s)
               else
                 (case ca_closeSend ca of
                    Some e \<Rightarrow> send_failed e c1 s
                  | None \<Rightarrow> (None, c1\<lparr>gc_wire := gc_wire c @ [WCloseSend]\<rparr>, s))))"

definition grpc_finish ::
    "marshal_fn \<Rightarrow> grpc_carrier \<Rightarrow> go_error option \<Rightarrow> grpc_call \<Rightarrow> client_session
     \<Rightarrow> go_error option \<times> grpc_call \<times> client_session" where
  "grpc_finish marshal ca err c s =
     (if gc_initiator c then
        (Some (status_error Unimplemented ''grpc: Finish unsupported for initiator''), c, s)
      else if gc_closed c then (Some err_call_closed, c, s)
      else if gc_finished c then (Some err_send_finished, c, s)
      else
        (case gc_sendErr c of
           Some e \<Rightarrow> (Some e, c, s)
         | None \<Rightarrow>
             if \<not> ca_responseWriter ca then
               (Some (status_error Unimplemented ''grpc: carrier has no ResponseWriter''), c, s)
             else
               let user = (case gc_md c of None \<Rightarrow> [] | Some d \<Rightarrow> outgoingTrailers d);
                   c1 = c\<lparr>gc_md := map_option (freeze_outgoing_headers \<circ> freeze_outgoing_trailers) (gc_md c)\<rparr>;
                   trailers = encode_status_trailers marshal err user;
                   initial = (if gc_headersSent c then []
                              else encode_response_headers (gc_subtype c) (out_headers c1) (send_encoding_header c)) in
               (case ca_finish ca http_ok initial trailers of
                  Some e \<Rightarrow> send_failed e c1 s
                | None \<Rightarrow>
                    (None, c1\<lparr>gc_finished := True, gc_headersSent := True, gc_sawTerminal := True,
                              gc_wire := gc_wire c @ [WFinish http_ok initial trailers]\<rparr>, s))))"

section \<open>Receiving\<close>

definition ensure_response_headers :: "grpc_carrier \<Rightarrow> grpc_call \<Rightarrow> go_error option \<times> grpc_call" where
  "ensure_response_headers ca c =
     (if gc_headersSeen c then (None, c)
      else if \<not> ca_headerReader ca then (None, c)
      else
        (case ca_responseHeaders ca of
           Inl e \<Rightarrow> (Some e, c)
         | Inr hs \<Rightarrow>
             (case decode_response_headers hs of
                Inl _ \<Rightarrow> (None, c\<lparr>gc_headersSeen := True\<rparr>)
              | Inr (md, _, encoding) \<Rightarrow>
                  let c1 = (if encoding \<noteq> [] \<and> encoding \<noteq> cp_Name identity_compressor
                            then c\<lparr>gc_peerEncoding := encoding\<rparr> else c) in
                  (case check_inbound_meta (gc_cfg c) md of
                     Some e \<Rightarrow> (Some e, c1)
                   | None \<Rightarrow>
                       (None, c1\<lparr>gc_md := map_option (set_incoming_headers (Some md)) (gc_md c),
                                 gc_headersSeen := True\<rparr>)))))"

definition max_recv_drain :: "grpc_call \<Rightarrow> int" where
  "max_recv_drain c = (if 0 < so_MaxDrainBytes (gc_cfg c) then so_MaxDrainBytes (gc_cfg c) else 1048576)"

definition drain_response_body :: "grpc_call \<Rightarrow> grpc_call" where
  "drain_response_body c = c\<lparr>gc_body := snd (snd (discard_limited (gc_body c) (nat (max_recv_drain c))))\<rparr>"

text \<open>Header keys that the trailers do not have are added to them.\<close>

definition merge_user_md :: "metadata \<Rightarrow> metadata \<Rightarrow> metadata" where
  "merge_user_md trailers headers =
     trailers @ filter (\<lambda>(k, _). map_of trailers k = None) headers"

definition finish_client_recv ::
    "unmarshal_fn \<Rightarrow> grpc_carrier \<Rightarrow> grpc_call \<Rightarrow> client_session
     \<Rightarrow> (go_error + bytes) \<times> grpc_call \<times> client_session" where
  "finish_client_recv unmarshal ca c0 s =
     (let c = snd (ensure_response_headers ca c0);
          httpStatus = (if ca_headerReader ca
                        then (case ca_responseStatus ca of Inl _ \<Rightarrow> http_ok | Inr st \<Rightarrow> st) else http_ok);
          headers = (if ca_headerReader ca
                     then (case ca_responseHeaders ca of Inl _ \<Rightarrow> [] | Inr hs \<Rightarrow> hs) else []);
          trailers = (if ca_trailerReader ca
                      then (case ca_responseTrailers ca of Inl _ \<Rightarrow> [] | Inr hs \<Rightarrow> hs) else []);
          userMD = fst (decode_metadata trailers) in
      case check_inbound_meta (gc_cfg c) userMD of
        Some e \<Rightarrow> (Inl e, c, mark_bad_unless_limit e c s)
      | None \<Rightarrow>
          let c1 = c\<lparr>gc_md := map_option (set_incoming_trailers
                        (Some (merge_user_md userMD (fst (decode_metadata headers))))) (gc_md c),
                      gc_sawTerminal := True\<rparr> in
          (case resolve_call_status unmarshal httpStatus headers trailers of
             Some e \<Rightarrow> (Inl e, c1\<lparr>gc_statusErr := Some e, gc_statusReturned := True\<rparr>, s)
           | None \<Rightarrow> (Inl err_EOF, c1, s)))"

text \<open>What \<open>Recv\<close> does with a message it has read.\<close>

definition deliver_message ::
    "bool \<Rightarrow> bytes \<Rightarrow> grpc_call \<Rightarrow> client_session \<Rightarrow> (go_error + bytes) \<times> grpc_call \<times> client_session" where
  "deliver_message compressed data c s =
     (let enc = gc_peerEncoding c; ident = cp_Name identity_compressor in
      if enc \<noteq> [] \<and> enc \<noteq> ident \<and> find_compressor enc (gc_compressors c) = None then
        (Inl (unsupported_encoding enc), c, mark_bad c s)
      else if compressed then
        (if enc = [] \<or> enc = ident then (Inl (unsupported_encoding enc), c, mark_bad c s)
         else
           (case find_compressor enc (gc_compressors c) of
              None \<Rightarrow> (Inl (unsupported_encoding enc), c, mark_bad c s)
            | Some cmp \<Rightarrow>
                (case decompress_message (Some cmp) data (gc_maxMsg c) of
                   Inl e \<Rightarrow> (Inl e, c, if code_of (Some e) \<noteq> ResourceExhausted then mark_bad c s else s)
                 | Inr d \<Rightarrow> (Inr d, c\<lparr>gc_messagesRecv := True\<rparr>, s))))
      else if 0 < gc_maxMsg c \<and> gc_maxMsg c < int (length data) then
        (Inl (status_error ResourceExhausted
           (''grpc: Recv payload '' @ nat_str (length data) @ '' > max '' @ itoa (gc_maxMsg c))), c, s)
      else (Inr data, c\<lparr>gc_messagesRecv := True\<rparr>, s))"

text \<open>\<open>Recv\<close> after its guards and the response headers.\<close>

definition recv_message ::
    "unmarshal_fn \<Rightarrow> grpc_carrier \<Rightarrow> grpc_call \<Rightarrow> client_session
     \<Rightarrow> (go_error + bytes) \<times> grpc_call \<times> client_session" where
  "recv_message unmarshal ca c s =
     (let maxWire = (if so_MaxFrameSize (gc_cfg c) \<le> 0 then gc_maxMsg c else so_MaxFrameSize (gc_cfg c)) in
      case read_lpm_limited (gc_body c) maxWire of
        (Inr (compressed, data), r) \<Rightarrow> deliver_message compressed data (c\<lparr>gc_body := r\<rparr>) s
      | (Inl err, r) \<Rightarrow>
          let c1 = c\<lparr>gc_body := r\<rparr> in
          if err = err_EOF then
            (if gc_initiator c then finish_client_recv unmarshal ca c1 s
             else (Inl err_EOF, c1\<lparr>gc_sawTerminal := True\<rparr>, s))
          else if code_of (Some err) = ResourceExhausted then
            (Inl err, c1\<lparr>gc_sawTerminal := True\<rparr>, s)
          else if gc_initiator c \<and> \<not> gc_messagesRecv c \<and> errors_is err err_invalid_lpm_flag then
            finish_client_recv unmarshal ca (drain_response_body c1) s
          else (Inl err, c1, mark_bad_unless_limit err c1 s))"

definition grpc_recv ::
    "unmarshal_fn \<Rightarrow> grpc_carrier \<Rightarrow> grpc_call \<Rightarrow> client_session
     \<Rightarrow> (go_error + bytes) \<times> grpc_call \<times> client_session" where
  "grpc_recv unmarshal ca c s =
     (if gc_recving c then (Inl err_concurrent_recv, c, s)
      else if gc_closed c then (Inl err_call_closed, c, s)
      else if gc_statusReturned c then (Inl err_EOF, c, s)
      else if gc_initiator c then
        (case ensure_response_headers ca c of
           (Some e, c1) \<Rightarrow> (Inl e, c1, mark_bad_unless_limit e c1 s)
         | (None, c1) \<Rightarrow> recv_message unmarshal ca c1 s)
      else recv_message unmarshal ca c s)"

definition grpc_close :: "grpc_call \<Rightarrow> client_session \<Rightarrow> grpc_call \<times> client_session" where
  "grpc_close c s =
     (if gc_closed c then (c, s)
      else
        let terminal = gc_sawTerminal c \<or> gc_finished c;
            c1 = c\<lparr>gc_closed := True, gc_wire := (if gc_localCar c then gc_wire c @ [WAbort] else gc_wire c)\<rparr>;
            s1 = (if gc_initiator c \<and> \<not> terminal then mark_bad c s else s) in
        (c1, if gc_hasClient c then end_flight s1 else s1))"

end
