(* ===== verification/Call_Session.thy ===== *)
theory Call_Session
  imports Grpc_Call
begin

text \<open>
  The contract between a call and the client session it was opened on, shared by the gRPC and the
  unary HTTP transport: a call takes one place of the session when it is opened and gives it back
  when it is closed, and nothing else of the session but its reusability is touched by a call. The
  locale proves once what follows for any number of calls with their operations interleaved.
\<close>

definition session_worse :: "client_session \<Rightarrow> client_session \<Rightarrow> bool" where
  "session_worse s' s \<longleftrightarrow> gs_inFlight s' = gs_inFlight s \<and> gs_closed s' = gs_closed s
     \<and> (gs_reusable s' \<longrightarrow> gs_reusable s)"

lemma session_worse_refl [simp]: "session_worse s s"
  by (simp add: session_worse_def)

lemma session_worse_bad [simp]: "session_worse (session_mark_bad s) s"
  by (simp add: session_worse_def session_mark_bad_def)

record 'c session_world =
  sw_session :: client_session
  sw_calls :: "'c list"

datatype ('o, 'op) session_event =
    SwOpen 'o
  | SwOp nat 'op
  | SwClose "go_error option"

text \<open>
  One step of a session and its calls, for given operations of a call and a given way to open one.
\<close>

fun sess_step ::
    "('op \<Rightarrow> 'c \<times> client_session \<Rightarrow> 'c \<times> client_session)
     \<Rightarrow> ('o \<Rightarrow> client_session \<Rightarrow> (go_error + 'c) \<times> client_session)
     \<Rightarrow> ('o, 'op) session_event \<Rightarrow> 'c session_world \<Rightarrow> 'c session_world" where
  "sess_step step opens (SwOpen o') w =
     (case opens o' (sw_session w) of
        (Inl _, s) \<Rightarrow> w\<lparr>sw_session := s\<rparr>
      | (Inr c, s) \<Rightarrow> w\<lparr>sw_session := s, sw_calls := sw_calls w @ [c]\<rparr>)"
| "sess_step step opens (SwOp i op) w =
     (if i < length (sw_calls w) then
        (case step op (sw_calls w ! i, sw_session w) of
           (c, s) \<Rightarrow> w\<lparr>sw_session := s, sw_calls := (sw_calls w)[i := c]\<rparr>)
      else w)"
| "sess_step step opens (SwClose e) w = w\<lparr>sw_session := snd (session_close e (sw_session w))\<rparr>"

definition session_start :: "'c session_world" where
  "session_start = \<lparr>sw_session = \<lparr>gs_closed = False, gs_reusable = True, gs_inFlight = 0\<rparr>, sw_calls = []\<rparr>"

definition opened_well ::
    "('c \<Rightarrow> bool) \<Rightarrow> ('c \<Rightarrow> bool) \<Rightarrow> client_session \<Rightarrow> (go_error + 'c) \<times> client_session \<Rightarrow> bool" where
  "opened_well owned is_closed s r \<longleftrightarrow>
     (case r of
        (Inl _, s') \<Rightarrow>
          (if 0 \<le> gs_inFlight s then gs_inFlight s' = gs_inFlight s else True)
          \<and> (gs_reusable s' \<longrightarrow> gs_reusable s)
      | (Inr c, s') \<Rightarrow>
          gs_inFlight s' = gs_inFlight s + 1 \<and> gs_reusable s' = gs_reusable s
          \<and> owned c \<and> \<not> is_closed c)"

locale session_calls =
  fixes owned :: "'c \<Rightarrow> bool"
    and is_closed :: "'c \<Rightarrow> bool"
    and ended :: "'c \<Rightarrow> bool"
    and step :: "'op \<Rightarrow> 'c \<times> client_session \<Rightarrow> 'c \<times> client_session"
    and opens :: "'o \<Rightarrow> client_session \<Rightarrow> (go_error + 'c) \<times> client_session"
  assumes inert: "owned c \<Longrightarrow> is_closed c \<Longrightarrow> step op (c, s) = (c, s)"
    and keeps_owned: "owned c \<Longrightarrow> step op (c, s) = (c', s') \<Longrightarrow> owned c'"
    and quiet: "owned c \<Longrightarrow> \<not> is_closed c \<Longrightarrow> step op (c, s) = (c', s') \<Longrightarrow> \<not> is_closed c'
                  \<Longrightarrow> session_worse s' s"
    and closing: "owned c \<Longrightarrow> \<not> is_closed c \<Longrightarrow> step op (c, s) = (c', s') \<Longrightarrow> is_closed c'
                    \<Longrightarrow> s' = end_flight (if ended c' then s else session_mark_bad s)"
    and opened: "opened_well owned is_closed s (opens o' s)"
begin

definition dropped :: "'c \<Rightarrow> bool" where
  "dropped c \<longleftrightarrow> is_closed c \<and> \<not> ended c"

definition sinv :: "'c session_world \<Rightarrow> bool" where
  "sinv w \<longleftrightarrow>
     gs_inFlight (sw_session w) = int (length (filter (\<lambda>c. \<not> is_closed c) (sw_calls w)))
     \<and> list_all owned (sw_calls w)
     \<and> (list_ex dropped (sw_calls w) \<longrightarrow> \<not> gs_reusable (sw_session w))"

lemma open_inv: "sinv w \<Longrightarrow> sinv (sess_step step opens (SwOpen o') w)"
proof -
  assume i: "sinv w"
  obtain r s where o: "opens o' (sw_session w) = (r, s)" by fastforce
  have e: "opened_well owned is_closed (sw_session w) (r, s)" using opened o by metis
  show ?thesis
    by (cases r) (use e i o in \<open>auto simp: sinv_def dropped_def opened_well_def\<close>)
qed

lemma dropped_update:
  assumes "list_ex dropped (xs[i := c])"
  shows "dropped c \<or> list_ex dropped xs"
  using assms set_update_subset_insert [of xs i c] by (auto simp: list_ex_iff)

lemma quiet_inv:
  assumes "sinv w" "i < length (sw_calls w)" "\<not> is_closed (sw_calls w ! i)" "\<not> is_closed c" "owned c"
    and "session_worse s (sw_session w)"
  shows "sinv (w\<lparr>sw_session := s, sw_calls := (sw_calls w)[i := c]\<rparr>)"
proof -
  have len: "length (filter (\<lambda>c. \<not> is_closed c) ((sw_calls w)[i := c]))
      = length (filter (\<lambda>c. \<not> is_closed c) (sw_calls w))"
    by (rule filter_update_same) (use assms in simp_all)
  have la: "list_all owned ((sw_calls w)[i := c])"
    using assms by (intro list_all_update) (simp_all add: sinv_def)
  have "list_ex dropped ((sw_calls w)[i := c]) \<Longrightarrow> list_ex dropped (sw_calls w)"
    using dropped_update assms(4) by (auto simp: dropped_def)
  with len la assms show ?thesis by (auto simp: sinv_def session_worse_def)
qed

lemma close_inv:
  assumes "sinv w" "i < length (sw_calls w)" "\<not> is_closed (sw_calls w ! i)" "is_closed c" "owned c"
    and "s = end_flight (if ended c then sw_session w else session_mark_bad (sw_session w))"
  shows "sinv (w\<lparr>sw_session := s, sw_calls := (sw_calls w)[i := c]\<rparr>)"
proof -
  let ?xs = "sw_calls w"
  have u: "int (length (filter (\<lambda>c. \<not> is_closed c) (?xs[i := c])))
      = int (length (filter (\<lambda>c. \<not> is_closed c) ?xs)) - 1"
    by (rule filter_update_len) (use assms in simp_all)
  have "0 \<le> int (length (filter (\<lambda>c. \<not> is_closed c) (?xs[i := c])))" by simp
  then have "0 < gs_inFlight (sw_session w)" using u assms(1) by (simp add: sinv_def)
  then have s: "gs_inFlight s = gs_inFlight (sw_session w) - 1"
    "gs_reusable s \<longrightarrow> gs_reusable (sw_session w)" "dropped c \<longrightarrow> \<not> gs_reusable s"
    using assms(6) by (auto simp: end_flight_def session_mark_bad_def dropped_def)
  have la: "list_all owned (?xs[i := c])"
    using assms by (intro list_all_update) (simp_all add: sinv_def)
  have "list_ex dropped (?xs[i := c]) \<longrightarrow> \<not> gs_reusable s"
    using dropped_update s(2,3) assms(1) unfolding sinv_def by blast
  with u s la assms(1) show ?thesis by (simp add: sinv_def)
qed

lemma op_inv: "sinv w \<Longrightarrow> sinv (sess_step step opens (SwOp i op) w)"
proof -
  assume iv: "sinv w"
  show ?thesis
  proof (cases "i < length (sw_calls w)")
    case True
    let ?c = "sw_calls w ! i"
    have ow: "owned ?c" using iv True by (simp add: sinv_def list_all_length)
    obtain c s where st: "step op (?c, sw_session w) = (c, s)" by fastforce
    have w': "sess_step step opens (SwOp i op) w = w\<lparr>sw_session := s, sw_calls := (sw_calls w)[i := c]\<rparr>"
      using True st by simp
    show ?thesis
    proof (cases "is_closed ?c")
      case closed: True
      then have "c = ?c" "s = sw_session w" using inert [OF ow closed] st by simp_all
      then show ?thesis using iv w' by simp
    next
      case False
      note o = keeps_owned [OF ow st]
      show ?thesis
        unfolding w'
        by (cases "is_closed c")
          (use close_inv [OF iv True False _ o] closing [OF ow False st] quiet_inv [OF iv True False _ o]
            quiet [OF ow False st] in blast)+
    qed
  qed (use iv in simp)
qed

lemma flight_exact:
  "let w = run_steps (sess_step step opens) es session_start in
     gs_inFlight (sw_session w) = int (length (filter (\<lambda>c. \<not> is_closed c) (sw_calls w)))
     \<and> (if list_ex (\<lambda>c. is_closed c \<and> \<not> ended c) (sw_calls w) then \<not> session_reusable (sw_session w) else True)"
proof -
  have st: "sinv (sess_step step opens e w)" if "sinv w" for e w
  proof (cases e)
    case (SwClose x)
    with that show ?thesis by (auto simp: sinv_def session_close_def)
  qed (use that open_inv op_inv in simp_all)
  have "sinv (run_steps (sess_step step opens) es w)" if "sinv w" for w
    using that by (induction es arbitrary: w) (simp_all add: st)
  moreover have "sinv session_start" by (simp add: sinv_def session_start_def)
  moreover have d: "dropped = (\<lambda>c. is_closed c \<and> \<not> ended c)" by (simp add: dropped_def fun_eq_iff)
  ultimately show ?thesis by (simp add: sinv_def session_reusable_def Let_def d)
qed

end

end
