(* ===== verification/Grpc_Call_Props.thy ===== *)
theory Grpc_Call_Props
  imports Call_Session
begin

text \<open>
  What the operations of a gRPC call guarantee, one by one and in any sequence: the header blocks a
  responder writes, the limits on what is received, what a failed or abandoned call does to the
  shared session, and the messages and status that arrive at the other end.
\<close>

section \<open>Frames\<close>

text \<open>The part of a call the sending side owns.\<close>

definition send_view ::
    "grpc_call \<Rightarrow> wire_event list \<times> go_writer \<times> bool \<times> go_error option \<times> bool \<times> bool \<times> bool" where
  "send_view c = (gc_wire c, gc_writer c, gc_headersOnce c, gc_headersErr c, gc_headersSent c,
                  gc_finished c, gc_initiator c)"

lemma ensure_view: "send_view (snd (ensure_response_headers ca c)) = send_view c"
  by (auto simp: ensure_response_headers_def send_view_def Let_def split: sum.splits option.splits)

lemma finish_recv_view: "send_view (fst (snd (finish_client_recv u ca c s))) = send_view c"
  using ensure_view [of ca c]
  by (auto simp: finish_client_recv_def send_view_def Let_def split: option.splits)

lemma deliver_view: "send_view (fst (snd (deliver_message z d c s))) = send_view c"
  by (auto simp: deliver_message_def send_view_def Let_def split: option.splits sum.splits)

lemma view_body: "send_view (c\<lparr>gc_body := r\<rparr>) = send_view c" "send_view (c\<lparr>gc_sawTerminal := b\<rparr>) = send_view c"
  by (simp_all add: send_view_def)

lemma drain_view: "send_view (drain_response_body c) = send_view c"
  by (simp add: drain_response_body_def view_body)

lemma recv_message_view: "send_view (fst (snd (recv_message u ca c s))) = send_view c"
proof -
  let ?w = "if so_MaxFrameSize (gc_cfg c) \<le> 0 then gc_maxMsg c else so_MaxFrameSize (gc_cfg c)"
  obtain res r where r: "read_lpm_limited (gc_body c) ?w = (res, r)" by fastforce
  show ?thesis
    by (cases res)
      (auto simp: recv_message_def r Let_def deliver_view finish_recv_view view_body drain_view)
qed

lemma recv_view: "send_view (fst (snd (grpc_recv u ca c s))) = send_view c"
  using ensure_view [of ca c]
  by (auto simp: grpc_recv_def recv_message_view split: prod.splits option.splits)

lemma close_view: "\<not> gc_localCar c \<Longrightarrow> send_view (fst (grpc_close c s)) = send_view c"
  by (simp add: grpc_close_def send_view_def Let_def)

section \<open>The header blocks of a response\<close>

fun is_wh :: "wire_event \<Rightarrow> bool" where
  "is_wh (WHeaders _ _) = True" | "is_wh _ = False"

fun is_wf :: "wire_event \<Rightarrow> bool" where
  "is_wf (WFinish _ _ _) = True" | "is_wf _ = False"

datatype call_op =
    GSendHeaders grpc_carrier
  | GSend grpc_carrier bytes
  | GHalfClose grpc_carrier
  | GFinish grpc_carrier "go_error option"
  | GRecv grpc_carrier
  | GClose

fun call_step ::
    "marshal_fn \<Rightarrow> unmarshal_fn \<Rightarrow> call_op \<Rightarrow> grpc_call \<times> client_session \<Rightarrow> grpc_call \<times> client_session" where
  "call_step ma un (GSendHeaders ca) (c, s) = snd (grpc_send_headers ca c s)"
| "call_step ma un (GSend ca p) (c, s) = snd (grpc_send ca p c s)"
| "call_step ma un (GHalfClose ca) (c, s) = snd (grpc_half_close ca c s)"
| "call_step ma un (GFinish ca e) (c, s) = snd (grpc_finish ma ca e c s)"
| "call_step ma un (GRecv ca) (c, s) = snd (grpc_recv un ca c s)"
| "call_step ma un GClose (c, s) = grpc_close c s"

definition wrote_headers :: "grpc_call \<Rightarrow> bool" where
  "wrote_headers c \<longleftrightarrow> gc_headersOnce c \<and> gc_headersErr c = None"

definition wire_ok :: "wire_event list \<Rightarrow> bool \<Rightarrow> bool \<Rightarrow> bool" where
  "wire_ok w finished wrote \<longleftrightarrow>
     length (filter is_wh w) = (if wrote then 1 else 0)
     \<and> length (filter is_wf w) = (if finished then 1 else 0)
     \<and> (finished \<longrightarrow> w \<noteq> [] \<and> is_wf (last w))"

lemma wire_ok_headers: "wire_ok w False False \<Longrightarrow> wire_ok (w @ [WHeaders st h]) False True"
  by (simp add: wire_ok_def)

lemma wire_ok_finish: "wire_ok w False b \<Longrightarrow> wire_ok (w @ [WFinish st i t]) True b"
  by (simp add: wire_ok_def)

definition responder_inv :: "grpc_call \<Rightarrow> bool" where
  "responder_inv c \<longleftrightarrow>
     \<not> gc_initiator c \<and> \<not> gc_localCar c
     \<and> gc_headersSent c = (gc_finished c \<or> wrote_headers c)
     \<and> (gc_headersErr c \<noteq> None \<longrightarrow> gc_headersOnce c)
     \<and> wire_ok (gc_wire c) (gc_finished c) (wrote_headers c)"

lemma inv_of_view:
  "send_view c' = send_view c \<Longrightarrow> gc_localCar c' = gc_localCar c \<Longrightarrow> responder_inv c \<Longrightarrow> responder_inv c'"
  by (simp add: send_view_def responder_inv_def wrote_headers_def)

lemma recv_localCar: "gc_localCar (fst (snd (grpc_recv u ca c s))) = gc_localCar c"
proof -
  have e: "gc_localCar (snd (ensure_response_headers ca c)) = gc_localCar c" for c
    by (auto simp: ensure_response_headers_def Let_def split: sum.splits option.splits)
  have f: "gc_localCar (fst (snd (finish_client_recv u ca c s))) = gc_localCar c" for c
    using e [of c] by (auto simp: finish_client_recv_def Let_def split: option.splits)
  have d: "gc_localCar (fst (snd (deliver_message z x c s))) = gc_localCar c" for z x c
    by (auto simp: deliver_message_def Let_def split: option.splits sum.splits)
  have m: "gc_localCar (fst (snd (recv_message u ca c s))) = gc_localCar c" for c
    by (auto simp: recv_message_def Let_def d f drain_response_body_def split: prod.splits sum.splits)
  show ?thesis
    using e [of c] by (auto simp: grpc_recv_def m split: prod.splits option.splits)
qed

lemma send_failed_inv: "responder_inv c \<Longrightarrow> responder_inv (fst (snd (send_failed e c s)))"
  by (auto simp: send_failed_def responder_inv_def wrote_headers_def)

lemma headers_once_inv: "responder_inv c \<Longrightarrow> \<not> gc_headersSent c \<Longrightarrow> responder_inv (headers_once ca c)"
  by (auto simp: headers_once_def responder_inv_def wrote_headers_def Let_def
      intro: wire_ok_headers split: option.splits)

lemma send_headers_inv: "responder_inv c \<Longrightarrow> responder_inv (fst (snd (grpc_send_headers ca c s)))"
  using headers_once_inv [of c ca] send_failed_inv
  by (auto simp: grpc_send_headers_def write_response_headers_once_def Let_def split: option.splits)

lemma send_message_inv: "responder_inv c \<Longrightarrow> responder_inv (fst (snd (send_message d c s)))"
proof -
  assume i: "responder_inv c"
  have w: "responder_inv (c\<lparr>gc_writer := w\<rparr>)" "responder_inv (c\<lparr>gc_writer := w, gc_messagesSent := True\<rparr>)" for w
    using i by (simp_all add: responder_inv_def wrote_headers_def)
  show ?thesis
    using i w send_failed_inv [OF w(1)]
    by (auto simp: send_message_def split: sum.splits prod.splits option.splits)
qed

lemma send_inv: "responder_inv c \<Longrightarrow> responder_inv (fst (snd (grpc_send ca d c s)))"
proof -
  assume i: "responder_inv c"
  obtain r c1 s1 where m: "maybe_auto_headers ca c s = (r, c1, s1)" by (metis prod.collapse)
  have "responder_inv (fst (snd (maybe_auto_headers ca c s)))"
    using i send_headers_inv by (simp add: maybe_auto_headers_def)
  with m have c1: "responder_inv c1" by simp
  show ?thesis
    using i c1 send_message_inv [OF c1]
    by (auto simp: grpc_send_def m split: option.splits)
qed

lemma finish_inv: "responder_inv c \<Longrightarrow> responder_inv (fst (snd (grpc_finish ma ca e c s)))"
proof -
  assume i: "responder_inv c"
  let ?md = "map_option (freeze_outgoing_headers \<circ> freeze_outgoing_trailers) (gc_md c)"
  have w: "responder_inv (c\<lparr>gc_md := ?md\<rparr>)" using i by (simp add: responder_inv_def wrote_headers_def)
  show ?thesis
  proof (cases "gc_closed c \<or> gc_finished c")
    case False
    with i send_failed_inv [OF w] show ?thesis
      by (auto simp: grpc_finish_def Let_def responder_inv_def wrote_headers_def
          intro: wire_ok_finish split: option.splits)
  qed (use i in \<open>auto simp: grpc_finish_def\<close>)
qed

lemma call_step_inv: "responder_inv (fst cs) \<Longrightarrow> responder_inv (fst (call_step ma un op cs))"
proof -
  assume i: "responder_inv (fst cs)"
  obtain c s where cs: "cs = (c, s)" by (cases cs)
  show ?thesis
  proof (cases op)
    case (GRecv ca)
    then show ?thesis using i recv_view recv_localCar by (auto simp: cs intro: inv_of_view)
  next
    case GClose
    have "\<not> gc_localCar c" using i by (simp add: cs responder_inv_def)
    moreover have "gc_localCar (fst (grpc_close c s)) = gc_localCar c" by (simp add: grpc_close_def Let_def)
    ultimately show ?thesis using GClose i close_view by (auto simp: cs intro: inv_of_view)
  next
    case (GHalfClose ca)
    then show ?thesis using i by (simp add: cs grpc_half_close_def responder_inv_def)
  qed (use i send_headers_inv send_inv finish_inv in \<open>simp_all add: cs\<close>)
qed

interpretation responder_machine: invariant_machine "call_step ma un" "\<lambda>cs. responder_inv (fst cs)" for ma un
  by unfold_locales (rule call_step_inv)


section \<open>Limits on what is received\<close>

lemma ensure_keeps:
  "ensure_response_headers ca c = (e, c1) \<Longrightarrow>
     gc_maxMsg c1 = gc_maxMsg c \<and> gc_hasClient c1 = gc_hasClient c \<and> gc_closed c1 = gc_closed c
     \<and> gc_initiator c1 = gc_initiator c \<and> gc_cfg c1 = gc_cfg c"
  by (auto simp: ensure_response_headers_def Let_def split: sum.splits option.splits if_splits)

definition recv_limited :: "int \<Rightarrow> client_session \<Rightarrow> (go_error + bytes) \<times> grpc_call \<times> client_session \<Rightarrow> bool" where
  "recv_limited mx s r \<longleftrightarrow>
     (case r of
        (Inr d, _, s') \<Rightarrow> (mx \<le> 0 \<or> int (length d) \<le> mx) \<and> s' = s
      | (Inl e, _, s') \<Rightarrow> (if code_of (Some e) = ResourceExhausted then s' = s else True))"

lemma finish_recv_limited: "recv_limited mx s (finish_client_recv u ca c s)"
  by (auto simp: recv_limited_def finish_client_recv_def Let_def mark_bad_unless_limit_def
      split: option.splits)

lemma deliver_limited: "recv_limited (gc_maxMsg c) s (deliver_message z d c s)"
  by (auto simp: recv_limited_def deliver_message_def Let_def unsupported_encoding_def status_error_def
      code_of_def dest: decompress_bounded split: option.splits sum.splits)

lemma recv_message_limited: "recv_limited (gc_maxMsg c) s (recv_message u ca c s)"
proof -
  let ?w = "if so_MaxFrameSize (gc_cfg c) \<le> 0 then gc_maxMsg c else so_MaxFrameSize (gc_cfg c)"
  obtain res r where r: "read_lpm_limited (gc_body c) ?w = (res, r)" by fastforce
  show ?thesis
  proof (cases res)
    case (Inl e)
    then show ?thesis
      by (auto simp: recv_message_def r Let_def finish_recv_limited)
        (simp_all add: recv_limited_def mark_bad_unless_limit_def)
  next
    case (Inr m)
    then show ?thesis
      using deliver_limited [of "c\<lparr>gc_body := r\<rparr>" s] by (cases m) (simp add: recv_message_def r Let_def)
  qed
qed

text \<open>
  C21: \<open>Recv\<close> never hands over more than \<open>MaxMessageSize\<close>, compressed or not, whatever the peer
  sends and whatever a compressor expands it to; and a limit of one call never costs the others
  their connection: when \<open>Recv\<close> delivers a message, or fails with \<open>ResourceExhausted\<close>, the shared
  session is left as it was.
\<close>

theorem recv_within_limits:
  "case grpc_recv un ca c s of
     (Inr d, _, s') \<Rightarrow> (gc_maxMsg c \<le> 0 \<or> int (length d) \<le> gc_maxMsg c) \<and> s' = s
   | (Inl e, _, s') \<Rightarrow> (if code_of (Some e) = ResourceExhausted then s' = s else True)"
proof -
  obtain e c1 where en: "ensure_response_headers ca c = (e, c1)" by fastforce
  have "recv_limited (gc_maxMsg c) s (grpc_recv un ca c s)"
    using recv_message_limited [of c s un ca] recv_message_limited [of c1 s un ca] ensure_keeps [OF en]
    by (cases e)
      (auto simp: grpc_recv_def en, auto simp: recv_limited_def mark_bad_unless_limit_def)
  then show ?thesis by (simp add: recv_limited_def)
qed

section \<open>An oversize message that is not drained\<close>

text \<open>
  C36: after a message too large to drain, \<open>Recv\<close> goes on reading inside it. The first \<open>Recv\<close>
  reports the size limit with \<open>ErrLPMUnsynced\<close>, whose documentation says that no further message can
  be read; but the call is not marked, and the next \<open>Recv\<close> delivers whatever the peer placed behind
  the oversize header as a message of its own.
\<close>

theorem unsynced_recv_continues:
  assumes "\<not> gc_initiator c" "\<not> gc_recving c" "\<not> gc_closed c" "\<not> gc_statusReturned c"
    and "gc_peerEncoding c = []" "0 < so_MaxFrameSize (gc_cfg c)" "gc_maxMsg c \<le> 0"
    and "max_drain (so_MaxFrameSize (gc_cfg c)) < int (length q)" "int (length q) < 4294967296"
    and "lpm_ok (so_MaxFrameSize (gc_cfg c)) (False, p)"
    and "gc_body c = reader (lpm_header False q @ lpm_bytes (False, p) @ rest)"
  shows "\<exists>e c1 c2. grpc_recv un ca c s = (Inl e, c1, s) \<and> errors_is e err_lpm_unsynced
           \<and> code_of (Some e) = ResourceExhausted \<and> grpc_recv un ca c1 s = (Inr p, c2, s)"
proof -
  let ?mx = "so_MaxFrameSize (gc_cfg c)"
  let ?st = "status_error ResourceExhausted
       (''grpc: LPM length '' @ itoa (int (length q)) @ '' > max '' @ itoa ?mx)"
  let ?e = "ErrWrap (err_text err_lpm_unsynced @ '': '' @ err_text ?st) [err_lpm_unsynced, ?st]"
  have big: "?mx < int (length q)" using assms(8) by (auto simp: max_drain_def split: if_splits)
  have n: "int (length q) mod 4294967296 = int (length q)" using assms(9) by simp
  have r1: "read_lpm_limited (gc_body c) ?mx = (Inl ?e, reader (lpm_bytes (False, p) @ rest))"
    using read_lpm_after_header [where r = "reader []" and c = False and p = q
        and s = "lpm_bytes (False, p) @ rest" and maxLen = ?mx] assms(6,8,11) big n
    by (simp add: reader_def reject_oversize_def Let_def)
  have code: "code_of (Some ?e) = ResourceExhausted"
    by (simp add: code_of_def errors_as_status_def err_lpm_unsynced_def status_error_def)
  have ne: "?e \<noteq> err_EOF" by simp
  let ?c1 = "c\<lparr>gc_body := reader (lpm_bytes (False, p) @ rest), gc_sawTerminal := True\<rparr>"
  have "grpc_recv un ca c s = (Inl ?e, ?c1, s)"
    using assms(1-6) r1 code by (simp add: grpc_recv_def recv_message_def Let_def)
  moreover have "read_lpm_limited (reader (lpm_bytes (False, p) @ rest)) ?mx = (Inr (False, p), reader rest)"
    using read_lpm_message [OF assms(10), where r = "reader []" and s = rest] by (simp add: reader_def)
  then have "grpc_recv un ca ?c1 s
      = (Inr p, ?c1\<lparr>gc_body := reader rest, gc_messagesRecv := True\<rparr>, s)"
    using assms(1-7) by (simp add: grpc_recv_def recv_message_def deliver_message_def Let_def)
  moreover have "errors_is ?e err_lpm_unsynced"
    by (simp add: errors_is_def err_matches_def err_lpm_unsynced_def)
  ultimately show ?thesis using code by blast
qed

definition demo_session_cfg :: session_options where
  "demo_session_cfg = \<lparr>so_MaxMessageSize = 0, so_MaxFrameSize = 4, so_MaxMetadataSize = 0,
     so_MaxInboundMetadataSize = 0, so_ReadAheadMessages = 0, so_OpenTimeout = 0, so_MaxDrainBytes = 0\<rparr>"

definition demo_carrier :: grpc_carrier where
  "demo_carrier = \<lparr>ca_responseWriter = True, ca_writeHeaders = (\<lambda>_ _. None), ca_finish = (\<lambda>_ _ _. None),
     ca_sendCloser = True, ca_closeSend = None, ca_headerReader = True, ca_responseStatus = Inr 200,
     ca_responseHeaders = Inr [], ca_trailerReader = True, ca_responseTrailers = Inr []\<rparr>"

definition demo_session :: client_session where
  "demo_session = \<lparr>gs_closed = False, gs_reusable = True, gs_inFlight = 0\<rparr>"

definition demo_call :: grpc_call where
  "demo_call = fresh_call False ''a.S.X'' None ''proto'' demo_session_cfg [] identity_compressor [] None
     (reader (lpm_header False (replicate 2000000 (CHR ''x'')) @ lpm_bytes (False, ''hi'') @ [])) writer"

lemma unsynced_recv_continues_witness:
  "\<exists>e c1 c2. grpc_recv (\<lambda>_. None) demo_carrier demo_call demo_session = (Inl e, c1, demo_session)
     \<and> errors_is e err_lpm_unsynced \<and> code_of (Some e) = ResourceExhausted
     \<and> grpc_recv (\<lambda>_. None) demo_carrier c1 demo_session = (Inr ''hi'', c2, demo_session)"
  by (rule unsynced_recv_continues [where q = "replicate 2000000 (CHR ''x'')" and rest = "[]"])
    (simp_all add: demo_call_def fresh_call_def demo_session_cfg_def max_drain_def lpm_ok_def)

section \<open>Many calls on one session\<close>

definition call_same :: "grpc_call \<Rightarrow> grpc_call \<Rightarrow> bool" where
  "call_same c' c \<longleftrightarrow> gc_closed c' = gc_closed c \<and> gc_hasClient c' = gc_hasClient c
     \<and> gc_initiator c' = gc_initiator c"

definition op_quiet :: "grpc_call \<Rightarrow> client_session \<Rightarrow> grpc_call \<times> client_session \<Rightarrow> bool" where
  "op_quiet c s r \<longleftrightarrow> call_same (fst r) c \<and> session_worse (snd r) s"

lemmas quiet_defs = op_quiet_def call_same_def session_worse_def mark_bad_def session_mark_bad_def
  mark_bad_unless_limit_def

lemma send_failed_quiet: "call_same c' c \<Longrightarrow> op_quiet c s (snd (send_failed e c' s))"
  by (auto simp: send_failed_def quiet_defs)

lemma headers_once_same: "call_same (headers_once ca c) c"
  by (auto simp: headers_once_def call_same_def Let_def split: option.splits)

lemma send_headers_quiet: "op_quiet c s (snd (grpc_send_headers ca c s))"
  using headers_once_same [of ca c] send_failed_quiet [OF headers_once_same [of ca c]]
  by (auto simp: grpc_send_headers_def write_response_headers_once_def Let_def split: option.splits)
    (auto simp: quiet_defs)

lemma send_message_quiet: "op_quiet c s (snd (send_message d c s))"
proof -
  have "call_same (c\<lparr>gc_writer := w\<rparr>) c" for w by (simp add: call_same_def)
  from send_failed_quiet [OF this] show ?thesis
    by (auto simp: send_message_def split: sum.splits prod.splits option.splits) (auto simp: quiet_defs)
qed

lemma op_quiet_trans: "op_quiet c s r \<Longrightarrow> op_quiet (fst r) (snd r) r' \<Longrightarrow> op_quiet c s r'"
  by (auto simp: op_quiet_def call_same_def session_worse_def)

lemma op_quiet_refl: "op_quiet c s (c, s)"
  by (simp add: quiet_defs)

lemma send_quiet: "op_quiet c s (snd (grpc_send ca d c s))"
proof -
  obtain r c1 s1 where m: "maybe_auto_headers ca c s = (r, c1, s1)" by (metis prod.collapse)
  have q: "op_quiet c s (c1, s1)"
    using m send_headers_quiet [of c s ca] op_quiet_refl
    by (auto simp: maybe_auto_headers_def split: if_splits)
  have "op_quiet c s (snd (send_message d c1 s1))"
    using op_quiet_trans [OF q] send_message_quiet by simp
  with q show ?thesis
    by (auto simp: grpc_send_def m op_quiet_refl split: option.splits)
qed

lemma half_close_quiet: "op_quiet c s (snd (grpc_half_close ca c s))"
proof -
  have h: "call_same (c\<lparr>gc_halfClosed := True\<rparr>) c" by (simp add: call_same_def)
  have "op_quiet c s (c\<lparr>gc_halfClosed := True\<rparr>, s)"
    "op_quiet c s (c\<lparr>gc_halfClosed := True, gc_wire := w\<rparr>, s)" for w
    by (simp_all add: quiet_defs)
  with send_failed_quiet [OF h] show ?thesis
    by (simp add: grpc_half_close_def Let_def op_quiet_refl split: option.split)
qed

lemma finish_quiet: "op_quiet c s (snd (grpc_finish ma ca e c s))"
proof -
  have h: "call_same (c\<lparr>gc_md := m\<rparr>) c" for m by (simp add: call_same_def)
  have "op_quiet c s (c\<lparr>gc_md := m, gc_finished := True, gc_headersSent := True, gc_sawTerminal := True,
      gc_wire := w\<rparr>, s)" for m w by (simp add: quiet_defs)
  with send_failed_quiet [OF h] show ?thesis
    by (simp add: grpc_finish_def Let_def op_quiet_refl split: option.split)
qed

lemma finish_recv_quiet: "op_quiet c s (snd (finish_client_recv u ca c s))"
proof -
  obtain e c1 where en: "ensure_response_headers ca c = (e, c1)" by fastforce
  note k = ensure_keeps [OF en]
  have "op_quiet c s (c1, mark_bad_unless_limit x c1 s)"
    "op_quiet c s (c1\<lparr>gc_md := m, gc_sawTerminal := True\<rparr>, s)"
    "op_quiet c s (c1\<lparr>gc_md := m, gc_sawTerminal := True, gc_statusErr := y, gc_statusReturned := True\<rparr>, s)"
    for x m y using k by (auto simp: quiet_defs)
  then show ?thesis
    unfolding finish_client_recv_def en snd_conv Let_def by (simp split: option.split)
qed

lemma deliver_quiet: "op_quiet c s (snd (deliver_message z d c s))"
  by (auto simp: deliver_message_def Let_def split: option.splits sum.splits) (auto simp: quiet_defs)

lemma recv_message_quiet: "op_quiet c s (snd (recv_message u ca c s))"
proof -
  let ?w = "if so_MaxFrameSize (gc_cfg c) \<le> 0 then gc_maxMsg c else so_MaxFrameSize (gc_cfg c)"
  obtain res r where r: "read_lpm_limited (gc_body c) ?w = (res, r)" by fastforce
  let ?c = "c\<lparr>gc_body := r\<rparr>"
  have b: "op_quiet c s (?c, s)" "op_quiet c s (drain_response_body ?c, s)"
    by (simp_all add: quiet_defs drain_response_body_def)
  note q = op_quiet_trans [OF b(1)] op_quiet_trans [OF b(2)]
  have f: "op_quiet c s (snd (finish_client_recv u ca ?c s))"
    "op_quiet c s (snd (finish_client_recv u ca (drain_response_body ?c) s))"
    "op_quiet c s (snd (deliver_message z d ?c s))" for z d
    using q finish_recv_quiet deliver_quiet by simp_all
  show ?thesis
    by (cases res) (auto simp: recv_message_def r Let_def f, auto simp: quiet_defs)
qed

lemma recv_quiet: "op_quiet c s (snd (grpc_recv u ca c s))"
proof -
  obtain e c1 where en: "ensure_response_headers ca c = (e, c1)" by fastforce
  have q: "op_quiet c s (c1, s)" using ensure_keeps [OF en] by (simp add: quiet_defs)
  have "op_quiet c s (snd (recv_message u ca c1 s))"
    using op_quiet_trans [OF q] recv_message_quiet by simp
  with ensure_keeps [OF en] show ?thesis
    by (cases e) (auto simp: grpc_recv_def en recv_message_quiet, auto simp: quiet_defs)
qed

lemma op_is_quiet: "op \<noteq> GClose \<Longrightarrow> op_quiet c s (call_step ma un op (c, s))"
  by (cases op) (simp_all add: send_headers_quiet send_quiet half_close_quiet finish_quiet recv_quiet)

lemma closed_call_inert:
  "gc_closed c \<Longrightarrow> gc_initiator c \<Longrightarrow> call_step ma un op (c, s) = (c, s)"
  by (cases op) (auto simp: grpc_send_headers_def grpc_send_def grpc_half_close_def grpc_finish_def
      grpc_recv_def grpc_close_def)

text \<open>
  Opening a call, as the session machine sees it: the arguments of \<open>OpenCall\<close>, and its result
  without the metadata handle.
\<close>

type_synonym open_args =
  "framing option \<times> string \<times> session_options \<times> go_error option \<times> int option \<times> int
   \<times> (request_preface \<Rightarrow> go_error + bool \<times> go_reader \<times> go_writer) \<times> rpc_method \<times> call_md option"

fun grpc_opens :: "open_args \<Rightarrow> client_session \<Rightarrow> (go_error + grpc_call) \<times> client_session" where
  "grpc_opens (fr, st, cfg, ce, rem, now, os, m, md) s =
     (case open_call fr st cfg ce rem now os m md s of (r, _, s') \<Rightarrow> (r, s'))"

abbreviation grpc_owned :: "grpc_call \<Rightarrow> bool" where
  "grpc_owned c \<equiv> gc_hasClient c \<and> gc_initiator c"

abbreviation grpc_ended :: "grpc_call \<Rightarrow> bool" where
  "grpc_ended c \<equiv> gc_sawTerminal c \<or> gc_finished c"

lemma open_on_stream_effect:
  "case open_on_stream fr st cfg dl m md r (s\<lparr>gs_inFlight := gs_inFlight s + 1\<rparr>) of
     (x, _, s') \<Rightarrow> opened_well grpc_owned gc_closed s (x, s')"
  by (cases r)
    (auto simp: open_on_stream_def opened_well_def end_flight_def session_mark_bad_def fresh_call_def
      split: if_splits)

lemma grpc_opens_well: "opened_well grpc_owned gc_closed s (grpc_opens a s)"
proof -
  obtain fr st cfg ce rem now os m md where a: "a = (fr, st, cfg, ce, rem, now, os, m, md)"
    by (metis prod.collapse)
  show ?thesis
    using open_on_stream_effect
      [of s fr st cfg "if 0 < open_timeout rem then Some (now + open_timeout rem) else None" m
        "map_option freeze_outgoing_headers md" "os (open_preface fr st (open_timeout rem) m md)"]
    by (cases ce) (auto simp: a open_call_def, auto simp: opened_well_def)
qed

interpretation grpc_session: session_calls grpc_owned gc_closed grpc_ended "call_step ma un" grpc_opens for ma un
proof unfold_locales
  fix c :: grpc_call and s op c' s'
  assume o: "grpc_owned c" and st: "call_step ma un op (c, s) = (c', s')"
  have q: "op \<noteq> GClose \<Longrightarrow> call_same c' c \<and> session_worse s' s"
    using op_is_quiet [of op c s ma un] st by (simp add: op_quiet_def)
  have cl: "grpc_close c s = (c', s')" if "op = GClose" using st that by simp
  show "grpc_owned c'"
    using q cl o by (cases "op = GClose") (auto simp: call_same_def grpc_close_def Let_def split: if_splits)
  show "session_worse s' s" if "\<not> gc_closed c" "\<not> gc_closed c'"
    using q cl that by (cases "op = GClose") (auto simp: grpc_close_def Let_def split: if_splits)
  show "s' = end_flight (if grpc_ended c' then s else session_mark_bad s)" if "\<not> gc_closed c" "gc_closed c'"
    using q cl o that
    by (cases "op = GClose") (auto simp: grpc_close_def mark_bad_def call_same_def Let_def split: if_splits)
qed (use closed_call_inert grpc_opens_well in auto)

text \<open>
  A client session knows its calls. Over any sequence of calls opened on it (with streams that
  may fail to open), operations on them in any order with any outcome, closes (repeated ones
  included) and the close of the session, its in-flight count is exactly the number of calls not
  yet closed; and once a call was closed before its end was read, the session is never offered
  for reuse again.
\<close>

lemma session_flight_exact:
  "let w = run_steps (sess_step (call_step ma un) grpc_opens) es session_start in
     gs_inFlight (sw_session w) = int (length (filter (\<lambda>c. \<not> gc_closed c) (sw_calls w)))
     \<and> (if list_ex (\<lambda>c. gc_closed c \<and> \<not> (gc_sawTerminal c \<or> gc_finished c)) (sw_calls w)
        then \<not> session_reusable (sw_session w) else True)"
  by (rule grpc_session.flight_exact)

end
