(* ===== verification/Grpc_End_To_End.thy ===== *)
theory Grpc_End_To_End
  imports Grpc_Call_Props
begin

text \<open>
  Both ends of a gRPC call together: what a responder sends with \<open>Send\<close> and \<open>Finish\<close> is what the
  initiator receives with \<open>Recv\<close>. In between is an HTTP/2 exchange that delivers the body bytes and
  header blocks as they were written; a response with no message is one single block, so its
  trailers arrive among the headers (src/transport/http2/server.go, \<open>Finish\<close>).
\<close>

fun send_all ::
    "grpc_carrier \<Rightarrow> bytes list \<Rightarrow> grpc_call \<Rightarrow> client_session \<Rightarrow> go_error option \<times> grpc_call \<times> client_session" where
  "send_all ca [] c s = (None, c, s)"
| "send_all ca (p # ps) c s =
     (case grpc_send ca p c s of
        (Some e, c1, s1) \<Rightarrow> (Some e, c1, s1)
      | (None, c1, s1) \<Rightarrow> send_all ca ps c1 s1)"

fun recv_all ::
    "unmarshal_fn \<Rightarrow> grpc_carrier \<Rightarrow> nat \<Rightarrow> grpc_call \<Rightarrow> client_session
     \<Rightarrow> (go_error + bytes) list \<times> grpc_call \<times> client_session" where
  "recv_all un ca 0 c s = ([], c, s)"
| "recv_all un ca (Suc n) c s =
     (case grpc_recv un ca c s of
        (r, c1, s1) \<Rightarrow> (case recv_all un ca n c1 s1 of (rs, c2, s2) \<Rightarrow> (r # rs, c2, s2)))"

text \<open>The header blocks as the initiator's carrier presents them.\<close>

fun wire_blocks :: "wire_event list \<Rightarrow> headers \<times> headers" where
  "wire_blocks [WHeaders _ h, WFinish _ _ t] = (h, t)"
| "wire_blocks [WFinish _ i t] = (i @ t, [])"
| "wire_blocks _ = ([], [])"

definition response_carrier :: "headers \<times> headers \<Rightarrow> grpc_carrier" where
  "response_carrier b =
     \<lparr>ca_responseWriter = False, ca_writeHeaders = (\<lambda>_ _. None), ca_finish = (\<lambda>_ _ _. None),
      ca_sendCloser = True, ca_closeSend = None, ca_headerReader = True, ca_responseStatus = Inr http_ok,
      ca_responseHeaders = Inr (fst b), ca_trailerReader = True, ca_responseTrailers = Inr (snd b)\<rparr>"

definition accepts_writes :: "grpc_carrier \<Rightarrow> bool" where
  "accepts_writes ca \<longleftrightarrow> ca_responseWriter ca \<and> ca_writeHeaders ca = (\<lambda>_ _. None)
     \<and> ca_finish ca = (\<lambda>_ _ _. None)"

text \<open>The frame a message travels in, and when both ends let it pass.\<close>

definition frame_of :: "compressor \<Rightarrow> bytes \<Rightarrow> bool \<times> bytes" where
  "frame_of cmp p = (case compress_message (Some cmp) p of Inr f \<Rightarrow> f | Inl _ \<Rightarrow> (False, p))"

definition wire_limit :: "session_options \<Rightarrow> int" where
  "wire_limit cfg = (if so_MaxFrameSize cfg \<le> 0 then so_MaxMessageSize cfg else so_MaxFrameSize cfg)"

definition passes :: "session_options \<Rightarrow> compressor \<Rightarrow> bytes \<Rightarrow> bool" where
  "passes cfg cmp p \<longleftrightarrow>
     lpm_ok (wire_limit cfg) (frame_of cmp p)
     \<and> (so_MaxMessageSize cfg \<le> 0 \<or> int (length p) \<le> so_MaxMessageSize cfg)"

section \<open>The responder\<close>

definition sending_state :: "compressor \<Rightarrow> session_options \<Rightarrow> grpc_call \<Rightarrow> bool" where
  "sending_state cmp cfg c \<longleftrightarrow>
     \<not> gc_sending c \<and> \<not> gc_closed c \<and> gc_sendErr c = None \<and> \<not> gc_initiator c \<and> \<not> gc_finished c
     \<and> gc_sendComp c = Some cmp \<and> gc_cfg c = cfg \<and> gc_maxMsg c = so_MaxMessageSize cfg
     \<and> wr_script (gc_writer c) = [] \<and> (gc_headersSent c = gc_headersOnce c) \<and> gc_headersErr c = None"

abbreviation response_headers :: "grpc_call \<Rightarrow> headers" where
  "response_headers c \<equiv> encode_response_headers (gc_subtype c) (out_headers c) (send_encoding_header c)"

definition same_response :: "grpc_call \<Rightarrow> grpc_call \<Rightarrow> bool" where
  "same_response c' c \<longleftrightarrow> response_headers c' = response_headers c
     \<and> map_option outgoingTrailers (gc_md c') = map_option outgoingTrailers (gc_md c)"

lemma write_lpm_ok:
  "wr_script w = [] \<Longrightarrow> write_lpm w z p = (None, w\<lparr>wr_out := wr_out w @ lpm_bytes (z, p)\<rparr>)"
  by (simp add: write_lpm_def go_write_def lpm_bytes_eq)

lemma frame_limit:
  "passes cfg cmp p \<Longrightarrow> so_MaxFrameSize cfg \<le> 0 \<or> int (length (snd (frame_of cmp p))) \<le> so_MaxFrameSize cfg"
  by (auto simp: passes_def lpm_ok_def wire_limit_def split: if_splits)

lemma auto_headers:
  assumes "sending_state cmp cfg c" "accepts_writes ca"
  shows "\<exists>c1. maybe_auto_headers ca c s = (None, c1, s) \<and> sending_state cmp cfg c1 \<and> gc_headersSent c1
           \<and> same_response c1 c \<and> gc_writer c1 = gc_writer c
           \<and> gc_wire c1 = (if gc_headersSent c then gc_wire c
                            else gc_wire c @ [WHeaders http_ok (response_headers c)])"
proof (cases "gc_headersSent c")
  case True
  then show ?thesis using assms by (simp add: maybe_auto_headers_def sending_state_def same_response_def)
next
  case False
  have f: "outgoingHeaders (freeze_outgoing_headers d) = outgoingHeaders d"
    "outgoingTrailers (freeze_outgoing_headers d) = outgoingTrailers d" for d
    by (simp_all add: freeze_outgoing_headers_def)
  show ?thesis
    using False assms
    by (cases "gc_md c")
      (auto simp: maybe_auto_headers_def grpc_send_headers_def write_response_headers_once_def headers_once_def
        sending_state_def accepts_writes_def same_response_def out_headers_def send_encoding_header_def
        f Let_def)
qed

lemma send_one:
  assumes "sending_state cmp cfg c" "accepts_writes ca" "lossless_compressor cmp" "passes cfg cmp p"
  shows "\<exists>c1. grpc_send ca p c s = (None, c1, s) \<and> sending_state cmp cfg c1 \<and> gc_headersSent c1
           \<and> same_response c1 c
           \<and> wr_out (gc_writer c1) = wr_out (gc_writer c) @ lpm_bytes (frame_of cmp p)
           \<and> gc_wire c1 = (if gc_headersSent c then gc_wire c
                            else gc_wire c @ [WHeaders http_ok (response_headers c)])"
proof -
  obtain c1 where c1: "maybe_auto_headers ca c s = (None, c1, s)" "sending_state cmp cfg c1" "gc_headersSent c1"
    "same_response c1 c" "gc_writer c1 = gc_writer c"
    "gc_wire c1 = (if gc_headersSent c then gc_wire c else gc_wire c @ [WHeaders http_ok (response_headers c)])"
    using auto_headers [OF assms(1,2)] by blast
  obtain out where "cp_Compress cmp p = Inr out"
    using lossless_compressor.compress_total [OF assms(3)] by blast
  then obtain z w where f: "compress_message (Some cmp) p = Inr (z, w)" "frame_of cmp p = (z, w)"
    by (cases "cp_Name cmp = cp_Name identity_compressor") (auto simp: compress_message_def frame_of_def)
  let ?w = "gc_writer c1\<lparr>wr_out := wr_out (gc_writer c1) @ lpm_bytes (z, w)\<rparr>"
  have "grpc_send ca p c s = send_message p c1 s"
    using assms(1) c1(1) by (simp add: grpc_send_def sending_state_def)
  moreover have "send_message p c1 s = (None, c1\<lparr>gc_writer := ?w, gc_messagesSent := True\<rparr>, s)"
    using c1(2) f frame_limit [OF assms(4)] assms(4)
    by (auto simp: send_message_def sending_state_def passes_def write_lpm_ok)
  moreover have "sending_state cmp cfg (c1\<lparr>gc_writer := ?w, gc_messagesSent := True\<rparr>)"
    using c1(2) by (simp add: sending_state_def)
  ultimately show ?thesis
    using c1 f(2) by (simp add: same_response_def out_headers_def send_encoding_header_def)
qed

lemma send_all_ok:
  assumes "sending_state cmp cfg c" "accepts_writes ca" "lossless_compressor cmp" "list_all (passes cfg cmp) ps"
  shows "\<exists>c1. send_all ca ps c s = (None, c1, s) \<and> sending_state cmp cfg c1 \<and> same_response c1 c
           \<and> gc_headersSent c1 = (gc_headersSent c \<or> ps \<noteq> [])
           \<and> wr_out (gc_writer c1) = wr_out (gc_writer c) @ concat (map (\<lambda>p. lpm_bytes (frame_of cmp p)) ps)
           \<and> gc_wire c1 = (if gc_headersSent c \<or> ps = [] then gc_wire c
                            else gc_wire c @ [WHeaders http_ok (response_headers c)])"
  using assms(1,4)
proof (induction ps arbitrary: c)
  case Nil
  then show ?case by (simp add: same_response_def)
next
  case (Cons p ps)
  obtain c1 where c1: "grpc_send ca p c s = (None, c1, s)" "sending_state cmp cfg c1" "gc_headersSent c1"
    "same_response c1 c" "wr_out (gc_writer c1) = wr_out (gc_writer c) @ lpm_bytes (frame_of cmp p)"
    "gc_wire c1 = (if gc_headersSent c then gc_wire c else gc_wire c @ [WHeaders http_ok (response_headers c)])"
    using send_one [OF Cons.prems(1) assms(2,3)] Cons.prems(2) by auto
  obtain c2 where c2: "send_all ca ps c1 s = (None, c2, s)" "sending_state cmp cfg c2" "same_response c2 c1"
    "gc_headersSent c2" "wr_out (gc_writer c2) = wr_out (gc_writer c1)
       @ concat (map (\<lambda>p. lpm_bytes (frame_of cmp p)) ps)" "gc_wire c2 = gc_wire c1"
    using Cons.IH [OF c1(2)] Cons.prems(2) c1(3) by auto
  show ?case
    by (rule exI [of _ c2]) (use c1 c2 in \<open>auto simp: same_response_def\<close>)
qed

lemma finish_ok:
  assumes "sending_state cmp cfg c" "accepts_writes ca"
  shows "\<exists>c1. grpc_finish ma ca err c s = (None, c1, s) \<and> gc_writer c1 = gc_writer c
           \<and> gc_wire c1 = gc_wire c @ [WFinish http_ok (if gc_headersSent c then [] else response_headers c)
               (encode_status_trailers ma err (case gc_md c of None \<Rightarrow> [] | Some d \<Rightarrow> outgoingTrailers d))]"
proof -
  have f: "outgoingHeaders (freeze_outgoing_headers (freeze_outgoing_trailers d)) = outgoingHeaders d" for d
    by (simp add: freeze_outgoing_headers_def freeze_outgoing_trailers_def)
  show ?thesis
    using assms
    by (cases "gc_md c")
      (auto simp: grpc_finish_def sending_state_def accepts_writes_def out_headers_def
        send_encoding_header_def f Let_def)
qed

section \<open>The initiator\<close>

definition receiving_state :: "compressor \<Rightarrow> session_options \<Rightarrow> grpc_call \<Rightarrow> bool" where
  "receiving_state cmp cfg c \<longleftrightarrow>
     \<not> gc_recving c \<and> \<not> gc_closed c \<and> \<not> gc_statusReturned c \<and> gc_initiator c
     \<and> gc_cfg c = cfg \<and> gc_maxMsg c = so_MaxMessageSize cfg
     \<and> find_compressor (cp_Name cmp) (gc_compressors c) = Some cmp
     \<and> gc_peerEncoding c
         = (if \<not> gc_headersSeen c \<or> cp_Name cmp = ''identity'' then [] else cp_Name cmp)"

text \<open>What matters of it when no message is to come.\<close>

definition waiting_state :: "session_options \<Rightarrow> grpc_call \<Rightarrow> bool" where
  "waiting_state cfg c \<longleftrightarrow>
     \<not> gc_recving c \<and> \<not> gc_closed c \<and> \<not> gc_statusReturned c \<and> gc_initiator c \<and> gc_cfg c = cfg"

definition send_name :: "compressor \<Rightarrow> string" where
  "send_name cmp = (if cp_Name cmp = cp_Name identity_compressor then [] else cp_Name cmp)"

lemma identity_name [simp]: "cp_Name identity_compressor = ''identity''"
  by (simp add: identity_compressor_def)

lemma headers_read:
  assumes "receiving_state cmp cfg c" "so_MaxInboundMetadataSize cfg \<le> 0" "cp_Name cmp \<noteq> []"
    and "\<not> gc_headersSeen c"
    and "fst b = encode_response_headers st md (send_name cmp)"
  shows "\<exists>c1. ensure_response_headers (response_carrier b) c = (None, c1)
           \<and> receiving_state cmp cfg c1 \<and> gc_headersSeen c1 \<and> gc_body c1 = gc_body c"
proof -
  obtain md' where "decode_response_headers (fst b)
      = Inr (md', to_lower st, if send_name cmp = ''identity'' then [] else send_name cmp)"
    using decode_encode_response assms(5) by metis
  then show ?thesis
    using assms(1-4)
    by (auto simp: ensure_response_headers_def response_carrier_def check_inbound_meta_def send_name_def
        receiving_state_def Let_def)
qed

lemma block_read:
  assumes "waiting_state cfg c" "so_MaxInboundMetadataSize cfg \<le> 0" "\<not> gc_headersSeen c"
  shows "\<exists>c1. ensure_response_headers (response_carrier b) c = (None, c1)
           \<and> gc_headersSeen c1 \<and> gc_body c1 = gc_body c \<and> gc_cfg c1 = cfg \<and> gc_initiator c1"
  using assms
  by (auto simp: ensure_response_headers_def response_carrier_def check_inbound_meta_def
      waiting_state_def Let_def split: sum.split prod.split)

lemma deliver_ok:
  assumes "receiving_state cmp cfg c" "gc_headersSeen c" "cp_Name cmp \<noteq> []" "lossless_compressor cmp"
    and "passes cfg cmp p"
  shows "deliver_message (fst (frame_of cmp p)) (snd (frame_of cmp p)) c s
           = (Inr p, c\<lparr>gc_messagesRecv := True\<rparr>, s)"
proof (cases "cp_Name cmp = ''identity''")
  case True
  then show ?thesis
    using assms by (auto simp: deliver_message_def frame_of_def compress_message_def receiving_state_def
        passes_def)
next
  case False
  obtain out where out: "cp_Compress cmp p = Inr out"
    using lossless_compressor.compress_total [OF assms(4)] by blast
  then have f: "frame_of cmp p = (True, out)" "compress_message (Some cmp) p = Inr (True, out)"
    using False by (simp_all add: frame_of_def compress_message_def)
  have "decompress_message (Some cmp) out (so_MaxMessageSize cfg) = Inr p"
    using lossless_compressor.message_round_trip [OF assms(4) _ f(2)] assms(5) by (auto simp: passes_def)
  with False f assms show ?thesis
    by (auto simp: deliver_message_def receiving_state_def Let_def)
qed

lemma recv_one:
  assumes "receiving_state cmp cfg c" "gc_headersSeen c" "cp_Name cmp \<noteq> []" "lossless_compressor cmp"
    and "passes cfg cmp p" "gc_body c = reader (lpm_bytes (frame_of cmp p) @ rest)"
  shows "\<exists>c1. grpc_recv un ca c s = (Inr p, c1, s) \<and> receiving_state cmp cfg c1 \<and> gc_headersSeen c1
           \<and> gc_body c1 = reader rest"
proof -
  let ?c = "c\<lparr>gc_body := reader rest\<rparr>"
  have r: "read_lpm_limited (gc_body c) (wire_limit cfg) = (Inr (frame_of cmp p), reader rest)"
    using read_lpm_message [of "wire_limit cfg" "fst (frame_of cmp p)" "snd (frame_of cmp p)" rest "reader []"]
      assms(5,6)
    by (simp add: passes_def reader_def)
  have c: "receiving_state cmp cfg ?c" "gc_headersSeen ?c"
    using assms(1,2) by (simp_all add: receiving_state_def)
  have w: "(if so_MaxFrameSize (gc_cfg c) \<le> 0 then gc_maxMsg c else so_MaxFrameSize (gc_cfg c)) = wire_limit cfg"
    using assms(1) by (simp add: receiving_state_def wire_limit_def)
  have "grpc_recv un ca c s = recv_message un ca c s"
    using assms(1,2) by (simp add: grpc_recv_def ensure_response_headers_def receiving_state_def)
  also have "\<dots> = deliver_message (fst (frame_of cmp p)) (snd (frame_of cmp p)) ?c s"
    unfolding recv_message_def Let_def w r by (simp add: case_prod_beta)
  also have "\<dots> = (Inr p, ?c\<lparr>gc_messagesRecv := True\<rparr>, s)"
    by (rule deliver_ok [OF c assms(3,4,5)])
  finally show ?thesis
    using c by (simp add: receiving_state_def)
qed

lemma recv_end:
  assumes "gc_initiator c" "gc_headersSeen c" "gc_cfg c = cfg" "so_MaxInboundMetadataSize cfg \<le> 0"
    and "gc_body c = reader []"
  shows "\<exists>c1. recv_message un (response_carrier b) c s
           = (Inl (case resolve_call_status un http_ok (fst b) (snd b) of None \<Rightarrow> err_EOF | Some e \<Rightarrow> e), c1, s)"
proof -
  have "read_lpm_limited (reader []) n = (Inl err_EOF, reader [])" for n
    by (simp add: read_lpm_limited_def read_full_def reader_def)
  then show ?thesis
    using assms
    by (auto simp: recv_message_def finish_client_recv_def ensure_response_headers_def response_carrier_def
        check_inbound_meta_def Let_def split: option.split)
qed

lemma recv_all_ready:
  assumes "receiving_state cmp cfg c" "gc_headersSeen c" "cp_Name cmp \<noteq> []" "lossless_compressor cmp"
    and "list_all (passes cfg cmp) ps" "so_MaxInboundMetadataSize cfg \<le> 0"
    and "gc_body c = reader (concat (map (\<lambda>p. lpm_bytes (frame_of cmp p)) ps))"
  shows "\<exists>c1. recv_all un (response_carrier b) (Suc (length ps)) c s
           = (map Inr ps @ [Inl (case resolve_call_status un http_ok (fst b) (snd b) of
                None \<Rightarrow> err_EOF | Some e \<Rightarrow> e)], c1, s)"
  using assms(1,2,5,7)
proof (induction ps arbitrary: c)
  case Nil
  then have "grpc_recv un (response_carrier b) c s = recv_message un (response_carrier b) c s"
    by (simp add: grpc_recv_def receiving_state_def ensure_response_headers_def)
  moreover have "gc_initiator c" "gc_cfg c = cfg" "gc_body c = reader []"
    using Nil.prems by (simp_all add: receiving_state_def)
  ultimately show ?case
    using recv_end [OF _ Nil.prems(2) _ assms(6), of un b s] by auto
next
  case (Cons p ps)
  obtain c1 where c1: "grpc_recv un (response_carrier b) c s = (Inr p, c1, s)" "receiving_state cmp cfg c1"
    "gc_headersSeen c1" "gc_body c1 = reader (concat (map (\<lambda>p. lpm_bytes (frame_of cmp p)) ps))"
    using recv_one [OF Cons.prems(1,2) assms(3,4)] Cons.prems(3,4) by fastforce
  with Cons.IH [OF c1(2,3) _ c1(4)] Cons.prems(3) show ?case
    by (force simp: case_prod_beta)
qed

lemma recv_all_block:
  assumes "waiting_state cfg c" "\<not> gc_headersSeen c" "so_MaxInboundMetadataSize cfg \<le> 0"
    and "gc_body c = reader []"
  shows "\<exists>c1. recv_all un (response_carrier b) (Suc 0) c s
           = ([Inl (case resolve_call_status un http_ok (fst b) (snd b) of None \<Rightarrow> err_EOF | Some e \<Rightarrow> e)], c1, s)"
proof -
  obtain c1 where c1: "ensure_response_headers (response_carrier b) c = (None, c1)" "gc_headersSeen c1"
    "gc_body c1 = reader []" "gc_cfg c1 = cfg" "gc_initiator c1"
    using block_read [OF assms(1,3,2), of b] assms(4) by auto
  have "grpc_recv un (response_carrier b) c s = recv_message un (response_carrier b) c1 s"
    using assms(1) c1(1) by (simp add: grpc_recv_def waiting_state_def)
  with recv_end [OF c1(5,2,4) assms(3) c1(3), of un b s] show ?thesis by auto
qed

lemma recv_all_headers:
  assumes "receiving_state cmp cfg c" "\<not> gc_headersSeen c" "cp_Name cmp \<noteq> []" "lossless_compressor cmp"
    and "list_all (passes cfg cmp) ps" "so_MaxInboundMetadataSize cfg \<le> 0" "ps \<noteq> []"
    and "gc_body c = reader (concat (map (\<lambda>p. lpm_bytes (frame_of cmp p)) ps))"
    and "fst b = encode_response_headers st md (send_name cmp)"
  shows "\<exists>c1. recv_all un (response_carrier b) (Suc (length ps)) c s
           = (map Inr ps @ [Inl (case resolve_call_status un http_ok (fst b) (snd b) of
                None \<Rightarrow> err_EOF | Some e \<Rightarrow> e)], c1, s)"
proof -
  obtain c1 where c1: "ensure_response_headers (response_carrier b) c = (None, c1)"
    "receiving_state cmp cfg c1" "gc_headersSeen c1" "gc_body c1 = gc_body c"
    using headers_read [OF assms(1,6,3,2,9)] by blast
  have "grpc_recv un (response_carrier b) c s = grpc_recv un (response_carrier b) c1 s"
    using assms(1) c1 by (simp add: grpc_recv_def receiving_state_def ensure_response_headers_def)
  then have "recv_all un (response_carrier b) (Suc (length ps)) c s
      = recv_all un (response_carrier b) (Suc (length ps)) c1 s"
    by simp
  with recv_all_ready [OF c1(2,3) assms(3-6), of un b s] assms(8) c1(4) show ?thesis by simp
qed

section \<open>A whole call\<close>

lemma block_status:
  assumes "user_values md status_details_bin_key = []" "user_values user status_details_bin_key = []"
  shows "status_from_headers (encode_response_headers st md enc @ encode_status_trailers ma err user)
           = status_from_headers (encode_status_trailers ma err user)"
proof -
  have "to_lower ''content-type'' = ''content-type''" "to_lower ''grpc-encoding'' = ''grpc-encoding''"
    by code_simp+
  then have "scan_status (encode_response_headers st md enc) acc = acc" for acc
    using scan_user [OF assms(1)]
    by (simp add: encode_response_headers_def scan_status_append Let_def status_details_bin_key_def)
  then show ?thesis by (simp add: status_from_headers_def scan_status_append)
qed

lemma block_resolves:
  assumes "\<And>pb raw. ma pb = Some raw \<Longrightarrow> un raw = Some pb"
    and "user_values md status_details_bin_key = []" "user_values user status_details_bin_key = []"
    and "err = None \<or> code_of err \<noteq> OK"
    and "b = (encode_response_headers st md enc, encode_status_trailers ma err user)
         \<or> b = (encode_response_headers st md enc @ encode_status_trailers ma err user, [])"
  shows "case err of None \<Rightarrow> resolve_call_status un h (fst b) (snd b) = None
         | Some e \<Rightarrow> \<exists>e'. resolve_call_status un h (fst b) (snd b) = Some e'
                        \<and> errors_as_status e' = Some (wire_parts ma e)"
proof -
  have e: "status_from_headers [] = None" by (simp add: status_from_headers_def)
  show ?thesis
  proof (cases err)
    case None
    then show ?thesis
      using sent_ok_decodes [of un _ ma] assms(5)
      by (auto simp: resolve_call_status_def e block_status [OF assms(2,3)] status_from_trailers [OF assms(3)]
          code_of_def Let_def)
  next
    case (Some x)
    with assms(4) have "code_of (Some x) \<noteq> OK" by simp
    from sent_status_decodes [OF assms(1) this] Some assms(5) show ?thesis
      by (auto simp: resolve_call_status_def e block_status [OF assms(2,3)] status_from_trailers [OF assms(3)]
          Let_def)
  qed
qed


text \<open>Two messages and an error with details, through a compressor that reverses the bytes.\<close>

definition demo_rev :: compressor where
  "demo_rev = \<lparr>cp_Name = ''rev'', cp_Compress = (\<lambda>d. Inr (rev d)), cp_Decompress = (\<lambda>d. Inr (reader (rev d)))\<rparr>"


end
