(* ===== verification/Admission_Spec.thy ===== *)
theory Admission_Spec
  imports Admission "HOL-Library.Multiset"
begin

text \<open>
  What the server's admission gate (src/server/admit.go) promises, as an abstract step relation, and
  the proof that the gate with its channel and its two closed tests implements it.
\<close>

section \<open>The contract\<close>

text \<open>
  A call arrives, and is then admitted or refused at one instant. It may be admitted only while the
  server is open and below the limit; it may be refused only when the server is closed, or when the
  calls running together with those still undecided are more than the limit.
\<close>

record admission_spec =
  sp_seen :: "nat set"
  sp_pending :: "nat multiset"
  sp_running :: "nat multiset"
  sp_refused :: "nat multiset"
  sp_open :: bool

inductive spec_step :: "int \<Rightarrow> admission_spec \<Rightarrow> admission_spec \<Rightarrow> bool" for n where
  arrive: "t \<notin> sp_seen s \<Longrightarrow>
     spec_step n s (s\<lparr>sp_seen := insert t (sp_seen s), sp_pending := add_mset t (sp_pending s)\<rparr>)"
| admit: "t \<in># sp_pending s \<Longrightarrow> sp_open s \<Longrightarrow> n \<le> 0 \<or> int (size (sp_running s)) < n \<Longrightarrow>
     spec_step n s (s\<lparr>sp_pending := sp_pending s - {#t#}, sp_running := add_mset t (sp_running s)\<rparr>)"
| refuse: "t \<in># sp_pending s \<Longrightarrow>
     \<not> sp_open s \<or> (0 < n \<and> n < int (size (sp_running s)) + int (size (sp_pending s))) \<Longrightarrow>
     spec_step n s (s\<lparr>sp_pending := sp_pending s - {#t#}, sp_refused := add_mset t (sp_refused s)\<rparr>)"
| leave: "t \<in># sp_running s \<Longrightarrow> spec_step n s (s\<lparr>sp_running := sp_running s - {#t#}\<rparr>)"
| shut: "spec_step n s (s\<lparr>sp_open := False\<rparr>)"

inductive_cases spec_stepE: "spec_step n s s'"

definition spec_start :: admission_spec where
  "spec_start = \<lparr>sp_seen = {}, sp_pending = {#}, sp_running = {#}, sp_refused = {#}, sp_open = True\<rparr>"

lemma spec_bounded:
  assumes "(spec_step n)\<^sup>*\<^sup>* spec_start s"
  shows "n \<le> 0 \<or> int (size (sp_running s)) \<le> n"
  using assms
proof (induction rule: rtranclp_induct)
  case (step s s')
  from step.hyps(2) step.IH show ?case
    by (cases rule: spec_stepE) (auto simp: size_Diff_singleton)
qed (auto simp: spec_start_def)

lemma spec_closed_mono:
  assumes "(spec_step n)\<^sup>*\<^sup>* s s'" "\<not> sp_open s"
  shows "sp_running s' \<subseteq># sp_running s \<and> \<not> sp_open s'"
  using assms
proof (induction rule: rtranclp_induct)
  case (step s' s'')
  from step.hyps(2) step.IH [OF step.prems] show ?case
    by (cases rule: spec_stepE) (auto intro: subset_mset.order_trans [OF diff_subset_eq_self])
qed simp

section \<open>The gate implements it\<close>

definition gate_abs :: "admit_world \<Rightarrow> admission_spec" where
  "gate_abs w =
     \<lparr>sp_seen = set (aw_seen w), sp_pending = mset (aw_checked w) + mset (aw_reserved w),
      sp_running = mset (aw_admitted w), sp_refused = mset (aw_refused w),
      sp_open = (\<not> g_closed (aw_gate w))\<rparr>"

lemma gate_abs_start: "gate_abs (admit_start n) = spec_start"
  by (simp add: gate_abs_def admit_start_def spec_start_def new_admit_gate_def)

lemma spec_step_eq:
  "spec_step n s s' \<Longrightarrow> s' = s'' \<Longrightarrow> (spec_step n)\<^sup>*\<^sup>* s s''"
  by auto

lemma check_simulated: "(spec_step n)\<^sup>*\<^sup>* (gate_abs w) (gate_abs (adm_step (AvCheck t) w))"
proof (cases "t \<in> set (aw_seen w)")
  case False
  let ?s = "gate_abs w"
  let ?s1 = "?s\<lparr>sp_seen := insert t (sp_seen ?s), sp_pending := add_mset t (sp_pending ?s)\<rparr>"
  have 1: "spec_step n ?s ?s1" by (rule spec_step.arrive) (use False in \<open>simp add: gate_abs_def\<close>)
  show ?thesis
  proof (cases "g_closed (aw_gate w)")
    case True
    have "spec_step n ?s1 (?s1\<lparr>sp_pending := sp_pending ?s1 - {#t#}, sp_refused := add_mset t (sp_refused ?s1)\<rparr>)"
      by (rule spec_step.refuse) (use True in \<open>simp_all add: gate_abs_def\<close>)
    with 1 have "(spec_step n)\<^sup>*\<^sup>* ?s (?s1\<lparr>sp_pending := sp_pending ?s1 - {#t#}, sp_refused := add_mset t (sp_refused ?s1)\<rparr>)"
      by auto
    then show ?thesis using True \<open>t \<notin> set (aw_seen w)\<close> by (simp add: gate_abs_def gate_defs Let_def)
  next
    case open_gate: False
    show ?thesis
      by (rule spec_step_eq [OF 1]) (use open_gate False in \<open>simp add: gate_abs_def gate_defs Let_def\<close>)
  qed
qed simp

lemma send_simulated:
  assumes "adm_inv n w"
  shows "(spec_step n)\<^sup>*\<^sup>* (gate_abs w) (gate_abs (adm_step (AvSend t) w))"
proof (cases "t \<in> set (aw_checked w)")
  case True
  let ?s = "gate_abs w"
  have p: "t \<in># sp_pending ?s" using True by (simp add: gate_abs_def)
  obtain k where k: "length (aw_checked w) = Suc k" using True by (cases "aw_checked w") auto
  have d: "mset (aw_checked w) + mset (aw_reserved w) - {#t#} = mset (remove1 t (aw_checked w)) + mset (aw_reserved w)"
    using True by simp
  consider (admit) "g_unlimited (aw_gate w)" "\<not> g_closed (aw_gate w)"
    | (refuse) "g_unlimited (aw_gate w) \<and> g_closed (aw_gate w)
        \<or> \<not> g_unlimited (aw_gate w) \<and> g_cap (aw_gate w) \<le> g_used (aw_gate w)"
    | (reserve) "\<not> g_unlimited (aw_gate w)" "g_used (aw_gate w) < g_cap (aw_gate w)"
    by linarith
  then show ?thesis
  proof cases
    case admit
    then have "spec_step n ?s (?s\<lparr>sp_pending := sp_pending ?s - {#t#}, sp_running := add_mset t (sp_running ?s)\<rparr>)"
      using p assms by (intro spec_step.admit) (auto simp: gate_abs_def adm_inv_def split: if_splits)
    then show ?thesis
      by (rule spec_step_eq) (use True admit d in \<open>simp add: gate_abs_def gate_defs Let_def\<close>)
  next
    case refuse
    then have "spec_step n ?s (?s\<lparr>sp_pending := sp_pending ?s - {#t#}, sp_refused := add_mset t (sp_refused ?s)\<rparr>)"
      using p k assms by (intro spec_step.refuse) (auto simp: gate_abs_def adm_inv_def split: if_splits)
    then show ?thesis
      by (rule spec_step_eq) (use True refuse d in \<open>auto simp: gate_abs_def gate_defs Let_def\<close>)
  next
    case reserve
    then have "gate_abs (adm_step (AvSend t) w) = ?s"
      using True by (simp add: gate_abs_def gate_defs Let_def)
    then show ?thesis by simp
  qed
qed simp

lemma confirm_simulated:
  assumes "adm_inv n w"
  shows "(spec_step n)\<^sup>*\<^sup>* (gate_abs w) (gate_abs (adm_step (AvConfirm t) w))"
proof (cases "t \<in> set (aw_reserved w)")
  case True
  let ?s = "gate_abs w"
  have p: "t \<in># sp_pending ?s" using True by (simp add: gate_abs_def)
  obtain k where k: "length (aw_reserved w) = Suc k" using True by (cases "aw_reserved w") auto
  have d: "mset (aw_checked w) + mset (aw_reserved w) - {#t#} = mset (aw_checked w) + mset (remove1 t (aw_reserved w))"
    using True by simp
  show ?thesis
  proof (cases "g_closed (aw_gate w)")
    case closed: True
    then have "spec_step n ?s (?s\<lparr>sp_pending := sp_pending ?s - {#t#}, sp_refused := add_mset t (sp_refused ?s)\<rparr>)"
      using p by (intro spec_step.refuse) (auto simp: gate_abs_def)
    then show ?thesis
      by (rule spec_step_eq) (use True closed d in \<open>auto simp: gate_abs_def gate_defs Let_def split: option.split\<close>)
  next
    case False
    have "spec_step n ?s (?s\<lparr>sp_pending := sp_pending ?s - {#t#}, sp_running := add_mset t (sp_running ?s)\<rparr>)"
      using p False assms k by (intro spec_step.admit) (auto simp: gate_abs_def adm_inv_def split: if_splits)
    then show ?thesis
      by (rule spec_step_eq) (use True False d in \<open>simp add: gate_abs_def gate_defs Let_def\<close>)
  qed
qed simp

lemma release_simulated: "(spec_step n)\<^sup>*\<^sup>* (gate_abs w) (gate_abs (adm_step (AvRelease t) w))"
proof (cases "t \<in> set (aw_admitted w)")
  case True
  let ?s = "gate_abs w"
  have "spec_step n ?s (?s\<lparr>sp_running := sp_running ?s - {#t#}\<rparr>)"
    by (rule spec_step.leave) (use True in \<open>simp add: gate_abs_def\<close>)
  then show ?thesis
    by (rule spec_step_eq) (use True in \<open>auto simp: gate_abs_def gate_defs split: option.split\<close>)
qed simp

lemma gate_simulated:
  assumes "adm_inv n w"
  shows "(spec_step n)\<^sup>*\<^sup>* (gate_abs w) (gate_abs (adm_step e w))"
proof (cases e)
  case AvClose
  have "spec_step n (gate_abs w) ((gate_abs w)\<lparr>sp_open := False\<rparr>)" by (rule spec_step.shut)
  then show ?thesis by (rule spec_step_eq) (simp add: AvClose gate_abs_def gate_close_def)
qed (use check_simulated send_simulated [OF assms] confirm_simulated [OF assms] release_simulated in simp_all)

text \<open>
  C5: the admission gate implements its contract. Every interleaving of the steps of concurrent
  \<open>tryAdmit\<close>, \<open>release\<close> and \<open>close\<close> calls is a run of the abstract gate, in which a call is admitted
  or refused at one instant: admitted only while the gate is open and fewer than
  \<open>MaxConcurrentCalls\<close> calls are running, refused only when the gate is closed, or when the calls
  running and those still undecided are together more than the limit (so a lone call is never
  refused by an open gate below its limit). Whatever happens after any moment of such a run is
  again a run of the abstract gate from there.
\<close>

theorem admission_refines:
  "gate_abs (admit_start n) = spec_start
   \<and> (spec_step n)\<^sup>*\<^sup>* (gate_abs (run_steps adm_step es (admit_start n)))
        (gate_abs (run_steps adm_step (es @ es') (admit_start n)))"
proof -
  have "(spec_step n)\<^sup>*\<^sup>* (gate_abs w) (gate_abs (run_steps adm_step es' w))" if "adm_inv n w" for w
    using that
  proof (induction es' arbitrary: w)
    case (Cons e es')
    from gate_simulated [OF Cons.prems, of e] Cons.IH [OF adm_step_inv [OF Cons.prems]]
    show ?case by (simp add: rtranclp_trans)
  qed simp
  with admit_machine.run_inv [OF adm_inv_start] show ?thesis
    by (simp add: gate_abs_start run_steps_append)
qed

end
