(* ===== verification/Grpc_Link.thy ===== *)
theory Grpc_Link
  imports Grpc_End_To_End Server_Conn Pool_Props
begin

text \<open>
  The gRPC transport (src/transport/grpc/link.go): its construction from options, and the adapters
  that put gRPC sessions behind the transport interfaces the session pool and the server use. The
  byte transport underneath is an argument, with what it answers; \<open>'p\<close> stands for it.
\<close>

record 'p grpc_transport =
  gt_tr :: 'p
  gt_codecName :: string
  gt_options :: session_options
  gt_pool :: pool_options
  gt_extra :: "compressor option list"
  gt_send :: string
  gt_fr :: "framing option"
  gt_conn :: "pool option"

datatype 'p transport_option =
    WithCodecName string
  | WithLimits transport_limits
  | WithHTTP2Pipe "'p option"
  | WithCompressors "compressor option list"
  | WithSendCompressor string
  | WithPool int int int int
  | WithHandshakeTimeout int

definition default_session_options :: session_options where
  "default_session_options =
     \<lparr>so_MaxMessageSize = 0, so_MaxFrameSize = 0, so_MaxMetadataSize = 0, so_MaxInboundMetadataSize = 0,
      so_ReadAheadMessages = 0, so_OpenTimeout = 0, so_MaxDrainBytes = 0\<rparr>"

fun apply_transport_option :: "'p transport_option \<Rightarrow> 'p grpc_transport \<Rightarrow> 'p grpc_transport" where
  "apply_transport_option (WithCodecName n) a = (if n \<noteq> [] then a\<lparr>gt_codecName := n\<rparr> else a)"
| "apply_transport_option (WithLimits l) a = a\<lparr>gt_options := from_limits l\<rparr>"
| "apply_transport_option (WithHTTP2Pipe p) a = (case p of None \<Rightarrow> a | Some x \<Rightarrow> a\<lparr>gt_tr := x\<rparr>)"
| "apply_transport_option (WithCompressors cs) a = a\<lparr>gt_extra := gt_extra a @ cs\<rparr>"
| "apply_transport_option (WithSendCompressor n) a = a\<lparr>gt_send := n\<rparr>"
| "apply_transport_option (WithPool per idle idleTimeout lifetime) a =
     a\<lparr>gt_pool := (gt_pool a)\<lparr>MaxSessionsPerEndpoint := per, MaxIdleSessions := idle,
                              SessionIdleTimeout := idleTimeout, MaxSessionLifetime := lifetime\<rparr>\<rparr>"
| "apply_transport_option (WithHandshakeTimeout d) a =
     (if 0 < d then a\<lparr>gt_pool := (gt_pool a)\<lparr>HandshakeTimeout := d\<rparr>\<rparr> else a)"

definition new_transport :: "'p \<Rightarrow> 'p transport_option option list \<Rightarrow> go_error + 'p grpc_transport" where
  "new_transport http2 opts =
     (let a = fold (\<lambda>opt a. case opt of None \<Rightarrow> a | Some x \<Rightarrow> apply_transport_option x a) opts
                \<lparr>gt_tr = http2, gt_codecName = ''protobuf'', gt_options = default_session_options,
                 gt_pool = default_pool_options, gt_extra = [], gt_send = [], gt_fr = None, gt_conn = None\<rparr> in
      case new_framing (gt_extra a) (gt_send a) of
        Inl e \<Rightarrow> Inl e
      | Inr fr \<Rightarrow>
          let pool = (gt_pool a)\<lparr>MaxCallsPerConn := -1\<rparr> in
          Inr (a\<lparr>gt_fr := Some fr, gt_pool := pool, gt_conn := Some (new_pool pool)\<rparr>))"

definition transport_limits_of :: "'p grpc_transport \<Rightarrow> transport_limits" where
  "transport_limits_of a = to_limits (gt_options a)"

definition transport_pool_limits :: "'p grpc_transport \<Rightarrow> pool_limits" where
  "transport_pool_limits a =
     to_pool_limits (case gt_conn a of None \<Rightarrow> gt_pool a | Some p \<Rightarrow> p_cfg p)"

text \<open>
  \<open>NewClientSession\<close> and \<open>NewServerSession\<close>: the context may have ended, and the connection may not
  be of the needed kind (\<open>StreamConn\<close>, \<open>CarrierConn\<close>). The framing, options and content subtype a
  session keeps are read off the transport.
\<close>

definition new_client_session :: "go_error option \<Rightarrow> bool \<Rightarrow> go_error + client_session" where
  "new_client_session ctxErr isStream =
     (case ctxErr of
        Some e \<Rightarrow> Inl e
      | None \<Rightarrow>
          if \<not> isStream then Inl (ErrNew ''grpc: client requires StreamConn'')
          else Inr \<lparr>gs_closed = False, gs_reusable = True, gs_inFlight = 0\<rparr>)"

definition new_server_session :: "go_error option \<Rightarrow> bool \<Rightarrow> go_error + server_session" where
  "new_server_session ctxErr isCarrier =
     (case ctxErr of
        Some e \<Rightarrow> Inl e
      | None \<Rightarrow>
          if \<not> isCarrier then Inl (ErrNew ''grpc: server requires CarrierConn'')
          else Inr \<lparr>ss_closed = False, ss_accepted = False\<rparr>)"

definition session_subtype :: "'p grpc_transport \<Rightarrow> string" where
  "session_subtype a = codec_content_subtype (gt_codecName a)"

text \<open>
  \<open>dial\<close>: the second component lists the connections closed on the way. \<open>dialed\<close> is what \<open>Dial\<close>
  answers, a connection and whether it is a \<open>StreamConn\<close>.
\<close>

definition link_dial ::
    "go_error + 'conn \<times> bool \<Rightarrow> go_error option \<Rightarrow> (go_error + 'conn \<times> client_session) \<times> 'conn list" where
  "link_dial dialed ctxErr =
     (case dialed of
        Inl e \<Rightarrow> (Inl e, [])
      | Inr (c, isStream) \<Rightarrow>
          (case new_client_session ctxErr isStream of
             Inl e \<Rightarrow> (Inl e, [c])
           | Inr s \<Rightarrow> (Inr (c, s), [])))"

definition err_session_busy :: go_error where "err_session_busy = ErrVar ''framing: session busy''"
definition err_session_spent :: go_error where "err_session_spent = ErrVar ''framing: session spent''"

definition link_open_call :: "go_error + 'c \<Rightarrow> go_error + 'c" where
  "link_open_call r =
     (case r of
        Inr call \<Rightarrow> Inr call
      | Inl err \<Rightarrow>
          if errors_is err err_session_busy then Inl err_conn_busy
          else if errors_is err err_session_spent then Inl err_conn_spent
          else Inl err)"

definition link_accept_err :: "go_error \<Rightarrow> go_error" where
  "link_accept_err err =
     (if errors_is err err_session_rejected
      then ErrWrap (err_text err_call_rejected @ '': '' @ err_text err) [err_call_rejected, err] else err)"

definition link_accept_call ::
    "('c option \<times> go_error option) option \<Rightarrow> 'c option \<times> go_error option" where
  "link_accept_call sess =
     (case sess of
        None \<Rightarrow> (None, Some (ErrNew ''grpc: AcceptCall before Handshake''))
      | Some (call, err) \<Rightarrow> (call, map_option link_accept_err err))"

definition link_close :: "go_error option \<Rightarrow> server_session option \<Rightarrow> go_error option \<times> server_session option" where
  "link_close connErr sess =
     (case sess of
        None \<Rightarrow> (connErr, None)
      | Some s \<Rightarrow> map_prod id Some (server_session_close connErr s))"

definition transport_close :: "go_error option \<Rightarrow> 'p grpc_transport \<Rightarrow> go_error option \<times> 'p grpc_transport" where
  "transport_close trErr a = (trErr, a\<lparr>gt_conn := map_option pool_close (gt_conn a)\<rparr>)"

section \<open>Construction\<close>

lemma new_transport_ok:
  assumes "new_transport http2 opts = Inr a"
  shows "\<exists>fr p. gt_fr a = Some fr \<and> gt_conn a = Some p \<and> p_cfg p = gt_pool a
           \<and> MaxCallsPerConn (gt_pool a) = -1 \<and> p_capPer p = -1
           \<and> new_framing (gt_extra a) (gt_send a) = Inr fr"
  using assms by (auto simp: new_transport_def new_pool_def Let_def split: sum.splits)

section \<open>A rejected call\<close>

lemma rejection_parts:
  "errors_as_status (ErrWrap a [ErrVar x, ErrWrap b [ErrVar y, ErrStatus c m ds cause]]) = Some (c, m, ds, cause)"
  "errors_is (ErrWrap a [ErrVar x, e]) (ErrVar x)"
  by (cases cause) (simp_all add: errors_as_status_def errors_is_def err_matches_def)

definition rejection :: "code \<Rightarrow> string \<Rightarrow> go_error" where
  "rejection c m =
     ErrWrap (err_text err_session_rejected @ '': '' @ err_text (status_error c m))
       [err_session_rejected, status_error c m]"

lemma link_rejection: "link_accept_err (rejection c m)
    = ErrWrap (err_text err_call_rejected @ '': '' @ err_text (rejection c m)) [err_call_rejected, rejection c m]"
  by (simp add: link_accept_err_def rejection_def err_session_rejected_def errors_is_def err_matches_def)

lemma accept_loop_rejects:
  "accept_loop cfg name conc (AcceptFailed (link_accept_err (rejection c m)) (Some sc) dn aged # as) =
     (CReject [KFinish (Some (status_error c m)), KClose] # fst (accept_loop cfg name conc as),
      snd (accept_loop cfg name conc as))"
  unfolding link_rejection
  by (simp add: rejection_def handle_rejected_def rejection_parts status_error_def err_call_rejected_def
      err_session_rejected_def case_prod_beta Let_def)

lemma accept_call_rejects:
  assumes "accept_call fr st cfg None now (Some (target, hs)) True body out md s = (Some call, Some e, s')"
  shows "\<exists>name cmp m. call = fresh_call False name md st cfg (compressor_list fr) cmp [] None body out
           \<and> e = rejection (case parse_request_headers target hs of
                              Inl _ \<Rightarrow> InvalidArgument | Inr _ \<Rightarrow> ResourceExhausted) m"
  using assms
  by (auto simp: accept_call_def rejection_def check_inbound_meta_def Let_def
      split: if_splits sum.splits option.splits)

text \<open>
  C20: a call the gRPC transport rejects is answered, with the right reason, and costs only itself.
  When \<open>AcceptCall\<close> rejects a request (headers that are not a gRPC request, or more metadata than
  \<open>MaxInboundMetadataSize\<close>), the server's accept loop finishes that call with the reason as a status,
  closes it and goes on with the next request; and the peer, reading the response, receives that
  status: \<open>InvalidArgument\<close> for malformed headers, \<open>ResourceExhausted\<close> for too much metadata.
\<close>

theorem rejected_call_answered:
  assumes codec: "\<And>pb raw. ma pb = Some raw \<Longrightarrow> un raw = Some pb"
    and acc: "accept_call fr st cfg None now (Some (target, hs)) True body writer
                (Some (new_call_md RoleResponder can)) ss = (Some call, Some e, ss')"
    and car: "accepts_writes ca" and lim: "so_MaxInboundMetadataSize ccfg \<le> 0"
  shows "\<exists>f c2.
     accept_loop ocfg name conc (AcceptFailed (link_accept_err e) (Some sc) dn aged # as)
       = (CReject [KFinish (Some f), KClose] # fst (accept_loop ocfg name conc as),
          snd (accept_loop ocfg name conc as))
     \<and> code_of (Some f) = (case parse_request_headers target hs of
                              Inl _ \<Rightarrow> InvalidArgument | Inr _ \<Rightarrow> ResourceExhausted)
     \<and> grpc_finish ma ca (Some f) call s = (None, c2, s)
     \<and> (case recv_all un (response_carrier (wire_blocks (gc_wire c2))) 1
               (fresh_call True m' md' st' ccfg cs cmp [] dl' (reader (wr_out (gc_writer c2))) out') s' of
          (rs, _, s'') \<Rightarrow>
            s'' = s' \<and> (\<exists>fin. rs = [Inl fin] \<and> errors_as_status fin = Some (wire_parts ma f)))"
proof -
  let ?code = "case parse_request_headers target hs of Inl _ \<Rightarrow> InvalidArgument | Inr _ \<Rightarrow> ResourceExhausted"
  let ?md = "new_call_md RoleResponder can"
  obtain n cm m where call: "call = fresh_call False n (Some ?md) st cfg (compressor_list fr) cm [] None body writer"
    and e: "e = rejection ?code m"
    using accept_call_rejects [OF acc] by blast
  let ?f = "status_error ?code m"
  have c0: "sending_state cm cfg call"
    by (simp add: call sending_state_def fresh_call_def writer_def)
  have emp: "outgoingTrailers ?md = []" "out_headers call = []" "gc_md call = Some ?md"
    "\<not> gc_headersSent call" "gc_wire call = []" "wr_out (gc_writer call) = []"
    by (simp_all add: call fresh_call_def out_headers_def new_call_md_def writer_def)
  let ?hs = "response_headers call" and ?ts = "encode_status_trailers ma (Some ?f) []"
  obtain c2 where c2: "grpc_finish ma ca (Some ?f) call s = (None, c2, s)" "gc_writer c2 = gc_writer call"
    "gc_wire c2 = [WFinish http_ok ?hs ?ts]"
    using finish_ok [OF c0 car, of ma "Some ?f" s] emp by auto
  let ?i = "fresh_call True m' md' st' ccfg cs cmp [] dl' (reader (wr_out (gc_writer c2))) out'"
  let ?b = "wire_blocks (gc_wire c2)"
  let ?r = "resolve_call_status un http_ok (fst ?b) (snd ?b)"
  have b: "?b = (?hs @ ?ts, [])" using c2(3) by simp
  have i: "waiting_state ccfg ?i" "\<not> gc_headersSeen ?i" "gc_body ?i = reader []"
    using c2(2) emp(6) by (simp_all add: waiting_state_def fresh_call_def)
  obtain c3 where c3: "recv_all un (response_carrier ?b) (Suc 0) ?i s'
      = ([Inl (case ?r of None \<Rightarrow> err_EOF | Some e \<Rightarrow> e)], c3, s')"
    using recv_all_block [OF i(1,2) lim i(3), of un ?b s'] by blast
  have nok: "code_of (Some ?f) \<noteq> OK" by (simp split: sum.split)
  have "case Some ?f of None \<Rightarrow> ?r = None
      | Some e \<Rightarrow> \<exists>e'. ?r = Some e' \<and> errors_as_status e' = Some (wire_parts ma e)"
    by (rule block_resolves [where user = "[]" and md = "[]" and st = "gc_subtype call"
          and enc = "send_encoding_header call"])
      (use codec nok b emp(2) in \<open>simp_all add: user_values_def\<close>)
  then obtain fin where "?r = Some fin" "errors_as_status fin = Some (wire_parts ma ?f)" by auto
  with c3 have r: "case recv_all un (response_carrier ?b) 1 ?i s' of
      (rs, _, s'') \<Rightarrow> s'' = s' \<and> (\<exists>fin. rs = [Inl fin] \<and> errors_as_status fin = Some (wire_parts ma ?f))"
    by simp
  show ?thesis
    unfolding e accept_loop_rejects
    by (rule exI [of _ ?f], rule exI [of _ c2]) (use c2(1) r in simp)
qed

definition demo_server_call :: "nat server_call" where
  "demo_server_call = \<lparr>sc_id = 0, sc_Method = [], sc_Deadline = None, sc_Accept = (\<lambda>_. None),
     sc_Finish = (\<lambda>_. None), sc_handler = (\<lambda>_ _. None)\<rparr>"

lemma rejected_call_answered_witness:
  "\<exists>f c2.
     accept_loop defaults ''s'' Concurrent
         (AcceptFailed (link_accept_err (the (fst (snd (accept_call None ''proto'' demo_session_cfg None 0
            (Some (''/bad'', [])) True (reader []) writer (Some (new_call_md RoleResponder True))
            \<lparr>ss_closed = False, ss_accepted = False\<rparr>))))) (Some demo_server_call) False False # [])
       = (CReject [KFinish (Some f), KClose] # fst (accept_loop defaults ''s'' Concurrent ([] :: nat accept_out list)),
          snd (accept_loop defaults ''s'' Concurrent ([] :: nat accept_out list)))
     \<and> code_of (Some f) = InvalidArgument"
proof -
  let ?r = "accept_call None ''proto'' demo_session_cfg None 0 (Some (''/bad'', [])) True (reader []) writer
            (Some (new_call_md RoleResponder True)) \<lparr>ss_closed = False, ss_accepted = False\<rparr>"
  have p: "isl (parse_request_headers ''/bad'' [])" by code_simp
  then have "fst ?r \<noteq> None" "fst (snd ?r) \<noteq> None"
    by (auto simp: accept_call_def Let_def split: sum.splits)
  then have a: "?r = (Some (the (fst ?r)), Some (the (fst (snd ?r))), snd (snd ?r))"
    by (metis option.collapse prod.collapse)
  have c: "\<And>pb raw. demo_marshal pb = Some raw \<Longrightarrow> demo_unmarshal raw = Some pb"
    by (auto simp: demo_marshal_def demo_unmarshal_def split: if_splits)
  have cd: "(case parse_request_headers ''/bad'' [] of Inl _ \<Rightarrow> InvalidArgument | Inr _ \<Rightarrow> ResourceExhausted)
      = InvalidArgument"
    using p by (auto split: sum.splits)
  have "accepts_writes demo_carrier" "so_MaxInboundMetadataSize demo_session_cfg \<le> 0"
    by (simp_all add: accepts_writes_def demo_carrier_def demo_session_cfg_def)
  from rejected_call_answered [where ma = demo_marshal and un = demo_unmarshal, OF c a this, where as = "[]"
      and sc = demo_server_call and ocfg = defaults and name = "''s''" and conc = Concurrent and dn = False
      and aged = False, unfolded cd]
  show ?thesis by blast
qed

end
