(* ===== verification/Unary_Routes.thy ===== *)
theory Unary_Routes
  imports Grpc_Call
begin

text \<open>
  The request surface of the unary HTTP transport (src/transport/httpunary): metadata as headers, the
  RPC router, the REST router with its path templates, and the JSON error body. The JSON library is
  an argument where it is used. A Go map is an association list; where the code ranges over one, the
  order of iteration is an argument, because Go leaves it open.
\<close>

section \<open>Headers (headers.go)\<close>

definition unary_content_type :: "string \<Rightarrow> string" where
  "unary_content_type codecName =
     (if codecName = [] \<or> codecName = ''json'' then ''application/json'' else ''application/'' @ codecName)"

definition unary_reserved :: "string \<Rightarrow> bool" where
  "unary_reserved key \<longleftrightarrow>
     to_lower key \<in> set [''content-type'', ''content-length'', ''transfer-encoding'', ''connection'',
       ''keep-alive'', ''proxy-connection'', ''te'', ''trailer'', ''upgrade'', ''host'']"

fun unary_encode_metadata :: "metadata \<Rightarrow> headers" where
  "unary_encode_metadata [] = []"
| "unary_encode_metadata ((k, vs) # md) =
     (let key = to_lower k in
      if unary_reserved key then unary_encode_metadata md
      else map (\<lambda>v. (key, v)) vs @ unary_encode_metadata md)"

fun unary_decode_loop :: "headers \<Rightarrow> metadata \<Rightarrow> metadata" where
  "unary_decode_loop [] out = out"
| "unary_decode_loop ((name, v) # hs) out =
     (let key = to_lower name in
      if unary_reserved key then unary_decode_loop hs out
      else unary_decode_loop hs (append_values key [v] out))"

definition unary_decode_metadata :: "headers \<Rightarrow> metadata" where
  "unary_decode_metadata hs = unary_decode_loop hs []"

section \<open>RPC paths (router\_rpc.go)\<close>

record http_preface =
  hp_method :: string
  hp_target :: string
  hp_headers :: headers

definition preface_http_method :: "http_preface \<Rightarrow> string" where
  "preface_http_method p = (if hp_method p = [] then ''POST'' else to_upper (hp_method p))"

definition question :: char where "question = CHR ''?''"

definition path_only :: "string \<Rightarrow> string" where
  "path_only target = (case index_byte target question of Some i \<Rightarrow> take i target | None \<Rightarrow> target)"

definition unary_method_path :: "rpc_method \<Rightarrow> string" where
  "unary_method_path m = slash # m_service m @ slash # m_name m"

definition unary_parse_path :: "string \<Rightarrow> go_error + string \<times> string" where
  "unary_parse_path target0 =
     (let target = (case index_byte target0 question of Some i \<Rightarrow> take i target0 | None \<Rightarrow> target0) in
      if \<not> has_prefix target [slash] then
        Inl (ErrNew (''httpunary: invalid method path '' @ go_quote target @ '': must start with /''))
      else
        let rest = tl target in
        (case last_index_byte rest slash of
           None \<Rightarrow> Inl (ErrNew (''httpunary: invalid method path '' @ go_quote target @ '': missing /method''))
         | Some pos \<Rightarrow>
             if take pos rest = [] \<or> drop (Suc pos) rest = [] then
               Inl (ErrNew (''httpunary: invalid method path '' @ go_quote target
                      @ '': empty service or method''))
             else Inr (take pos rest, drop (Suc pos) rest)))"

definition rpc_build_preface :: "rpc_method \<Rightarrow> string \<Rightarrow> metadata \<Rightarrow> http_preface" where
  "rpc_build_preface m codecName out =
     \<lparr>hp_method = [], hp_target = unary_method_path m,
      hp_headers = (''content-type'', unary_content_type codecName) # unary_encode_metadata out\<rparr>"

definition unary_reject :: "go_error \<Rightarrow> go_error" where
  "unary_reject st = ErrWrap (err_text err_session_rejected @ '': '' @ err_text st) [err_session_rejected, st]"

definition rpc_resolve_accept :: "string \<Rightarrow> go_error + string" where
  "rpc_resolve_accept requestTarget =
     (case unary_parse_path requestTarget of
        Inl e \<Rightarrow> Inl (unary_reject (status_error InvalidArgument (err_text e)))
      | Inr (svc, meth) \<Rightarrow> Inr (svc @ ''.'' @ meth))"

section \<open>REST paths (router\_rest.go)\<close>

record binding =
  bn_Method :: rpc_method
  bn_Verb :: string
  bn_Pattern :: string

definition path_var_prefix :: string where "path_var_prefix = ''x-argos-path-''"

definition normalize_pattern :: "string \<Rightarrow> string" where
  "normalize_pattern p0 =
     (let p = trim_space p0 in
      if p = [] then [] else if \<not> has_prefix p [slash] then slash # p else p)"

type_synonym rest_router = "(string, binding) gomap"

fun rest_bindings :: "binding list \<Rightarrow> string list \<Rightarrow> rest_router \<Rightarrow> go_error + rest_router" where
  "rest_bindings [] seen r = Inr r"
| "rest_bindings (b # bs) seen r =
     (if method_is_zero (bn_Method b) then Inl (ErrNew ''httpunary: binding has zero Method'')
      else
        let verb = to_upper (trim_space (bn_Verb b)); pat = normalize_pattern (bn_Pattern b);
            name = m_fullName (bn_Method b); key = verb @ '' '' @ pat in
        if verb = [] then Inl (ErrNew (''httpunary: binding '' @ go_quote name @ '' missing Verb''))
        else if pat = [] then Inl (ErrNew (''httpunary: binding '' @ go_quote name @ '' missing Pattern''))
        else if key \<in> set seen then Inl (ErrNew (''httpunary: duplicate binding '' @ go_quote key))
        else rest_bindings bs (key # seen)
               (alist_put name \<lparr>bn_Method = bn_Method b, bn_Verb = verb, bn_Pattern = pat\<rparr> r))"

definition new_rest_router :: "binding list \<Rightarrow> go_error + rest_router" where
  "new_rest_router bindings =
     (if bindings = [] then Inl (ErrNew ''httpunary: REST requires at least one Binding'')
      else rest_bindings bindings [] [])"

definition verb_allows_body :: "string \<Rightarrow> bool" where
  "verb_allows_body verb \<longleftrightarrow> to_upper verb \<notin> set [''GET'', ''HEAD'', ''DELETE'']"

definition seg_braced :: "string \<Rightarrow> bool" where
  "seg_braced seg \<longleftrightarrow> has_prefix seg ''{'' \<and> has_suffix seg ''}''"

definition seg_name :: "string \<Rightarrow> string" where
  "seg_name seg = butlast (tl seg)"

text \<open>The loop of \<open>buildPath\<close>; \<open>i\<close> is the index of the segment, \<open>b\<close> what the builder holds.\<close>

fun build_segs :: "nat \<Rightarrow> string list \<Rightarrow> metadata \<Rightarrow> string \<Rightarrow> go_error + string" where
  "build_segs i [] out b = Inr b"
| "build_segs i (seg # segs) out b =
     (if i = 0 \<and> seg = [] then build_segs (Suc i) segs out b
      else if \<not> seg_braced seg \<or> length seg < 3 then build_segs (Suc i) segs out (b @ slash # seg)
      else
        let name = seg_name seg in
        if name = [] then Inl (status_error InvalidArgument ''httpunary: empty path variable name'')
        else
          let val = (case md_get out (path_var_prefix @ name) of [] \<Rightarrow> [] | v # _ \<Rightarrow> v) in
          if val = [] then
            Inl (status_error InvalidArgument
                   (''httpunary: missing path variable '' @ go_quote name @ '' in metadata''))
          else build_segs (Suc i) segs out (b @ slash # val))"

definition build_path :: "string \<Rightarrow> metadata \<Rightarrow> go_error + string" where
  "build_path pattern out =
     (case build_segs 0 (split_on slash (normalize_pattern pattern)) out [] of
        Inl e \<Rightarrow> Inl e
      | Inr p \<Rightarrow> Inr (if p = [] then [slash] else p))"

definition rest_build_preface :: "rest_router \<Rightarrow> rpc_method \<Rightarrow> string \<Rightarrow> metadata \<Rightarrow> go_error + http_preface" where
  "rest_build_preface r m codecName out =
     (case map_of r (m_fullName m) of
        None \<Rightarrow> Inl (status_error Internal (''httpunary: no REST binding for method '' @ go_quote (m_fullName m)))
      | Some b \<Rightarrow>
          (case build_path (bn_Pattern b) out of
             Inl e \<Rightarrow> Inl e
           | Inr target \<Rightarrow>
               Inr \<lparr>hp_method = bn_Verb b, hp_target = target,
                    hp_headers = (if verb_allows_body (bn_Verb b)
                                  then [(''content-type'', unary_content_type codecName)] else [])
                                 @ unary_encode_metadata out\<rparr>))"

text \<open>The loop of \<open>matchPattern\<close>: None when the segments do not match.\<close>

fun match_segs :: "nat \<Rightarrow> string list \<Rightarrow> string list \<Rightarrow> (string, string) gomap \<Rightarrow> (string, string) gomap option" where
  "match_segs i (ps # pss) (ts # tss) vars =
     (if i = 0 \<and> ps = [] \<and> ts = [] then match_segs (Suc i) pss tss vars
      else if seg_braced ps then
        (if seg_name ps = [] then None else match_segs (Suc i) pss tss (alist_put (seg_name ps) ts vars))
      else if ps \<noteq> ts then None
      else match_segs (Suc i) pss tss vars)"
| "match_segs i _ _ vars = Some vars"

definition match_pattern :: "string \<Rightarrow> string \<Rightarrow> (string, string) gomap option" where
  "match_pattern pattern path =
     (let pSegs = split_on slash (normalize_pattern pattern); pathSegs = split_on slash (path_only path) in
      if length pSegs \<noteq> length pathSegs then None else match_segs 0 pSegs pathSegs [])"

definition apply_path_vars :: "(string, string) gomap \<Rightarrow> metadata \<Rightarrow> metadata" where
  "apply_path_vars vars md = fold (\<lambda>(k, v). alist_put (path_var_prefix @ k) [v]) vars md"

fun path_matches :: "binding list \<Rightarrow> string \<Rightarrow> metadata \<Rightarrow> binding list \<times> metadata" where
  "path_matches [] path md = ([], md)"
| "path_matches (b # bs) path md =
     (case match_pattern (bn_Pattern b) path of
        None \<Rightarrow> path_matches bs path md
      | Some vars \<Rightarrow> (case path_matches bs path (apply_path_vars vars md) of (ms, md') \<Rightarrow> (b # ms, md')))"

text \<open>
  \<open>ResolveAccept\<close> over the bindings in the order of one iteration over the map. It also changes the
  metadata it is given, which the caller goes on to use.
\<close>

definition rest_resolve_accept ::
    "binding list \<Rightarrow> string \<Rightarrow> string \<Rightarrow> metadata \<Rightarrow> (go_error + string) \<times> metadata" where
  "rest_resolve_accept order httpMethod requestTarget md =
     (let method0 = to_upper (trim_space httpMethod);
          verb = (if method0 = [] then ''POST'' else method0);
          path = path_only requestTarget in
      case path_matches order path md of
        ([], md') \<Rightarrow> (Inl (unary_reject (status_error NotFound ''httpunary: route not found'')), md')
      | (ms, md') \<Rightarrow>
          (case find (\<lambda>b. bn_Verb b = verb) ms of
             Some b \<Rightarrow> (Inr (m_fullName (bn_Method b)), md')
           | None \<Rightarrow>
               (Inl (unary_reject (status_error Unimplemented ''httpunary: http method not allowed'')), md')))"

section \<open>The error body (errorjson.go)\<close>

type_synonym json_marshal = "int \<times> string \<Rightarrow> bytes option"
type_synonym json_unmarshal = "bytes \<Rightarrow> (int \<times> string) option"

definition max_error_body :: nat where "max_error_body = 16384"

definition encode_error_body :: "json_marshal \<Rightarrow> go_error option \<Rightarrow> bytes" where
  "encode_error_body marshal err =
     (case err of
        None \<Rightarrow> []
      | Some e \<Rightarrow>
          let code = code_of err;
              msg0 = (case errors_as_status e of Some (_, m, _, _) \<Rightarrow> m | None \<Rightarrow> err_text e);
              msg = (if max_error_body div 2 < length msg0 then take (max_error_body div 2) msg0 else msg0) in
          (case marshal (sint code, msg) of
             None \<Rightarrow> ''{\"code\":2,\"message\":\"encode error\"}''
           | Some b \<Rightarrow> if max_error_body < length b then take max_error_body b else b))"

definition decode_error_body :: "json_unmarshal \<Rightarrow> bytes \<Rightarrow> code \<Rightarrow> go_error" where
  "decode_error_body unmarshal body httpFallback =
     (if body = [] then status_error httpFallback []
      else
        let body' = (if max_error_body < length body then take max_error_body body else body) in
        (case unmarshal body' of
           None \<Rightarrow> status_error httpFallback body'
         | Some (n, msg) \<Rightarrow>
             let code = (word_of_int n :: code) in
             status_error (if code = OK then httpFallback else code) msg))"

end
