(* ===== verification/Unary_Route_Props.thy ===== *)
theory Unary_Route_Props
  imports Unary_Routes
begin

text \<open>
  What the request surface of the unary HTTP transport guarantees: metadata survives, the paths the
  client builds are the ones the server resolves, and an error body never reads as a success.
\<close>

section \<open>Metadata\<close>

lemma md_get_Nil: "md_get [] j = []"
  by (simp add: md_get_def)

lemma unary_append_get [simp]:
  "md_get (append_values k vs md) j = (if j = k then md_get md k @ vs else md_get md j)"
  by (auto simp: md_get_def append_values_def alist_upd_lookup split: option.splits)

lemma unary_reserved_lower [simp]: "unary_reserved (to_lower k) = unary_reserved k"
  by (simp add: unary_reserved_def)

lemma unary_decode_get:
  "md_get (unary_decode_loop hs md0) j
     = md_get md0 j @ (if unary_reserved j then [] else map snd (filter (\<lambda>(n, _). to_lower n = j) hs))"
  by (induction hs md0 rule: unary_decode_loop.induct) (auto simp: Let_def)

lemma unary_encode_filter:
  "map snd (filter (\<lambda>(n, _). to_lower n = j) (unary_encode_metadata md))
     = (if unary_reserved j then [] else user_values md j)"
proof (induction md rule: unary_encode_metadata.induct)
  case (2 k vs md)
  have "user_values ((k, vs) # md) j = (if j = to_lower k then vs else []) @ user_values md j"
    by (auto simp: user_values_def)
  then show ?case using 2 by (auto simp: Let_def filter_map comp_def)
qed (simp add: user_values_def)

lemma unary_metadata_round_trip:
  "md_get (unary_decode_metadata (unary_encode_metadata md)) j
     = (if unary_reserved j then [] else user_values md j)"
  using unary_decode_get [of "unary_encode_metadata md" "[]" j]
  by (simp add: unary_decode_metadata_def unary_encode_filter md_get_Nil)

section \<open>Paths\<close>

text \<open>What a path template makes of the segments, and when the result can be read back.\<close>

definition template_segs :: "string \<Rightarrow> string list" where
  "template_segs pattern = tl (split_on slash (normalize_pattern pattern))"

definition path_value :: "metadata \<Rightarrow> string \<Rightarrow> string" where
  "path_value out name = (case md_get out (path_var_prefix @ name) of [] \<Rightarrow> [] | v # _ \<Rightarrow> v)"

definition fill_seg :: "metadata \<Rightarrow> string \<Rightarrow> string" where
  "fill_seg out seg = (if seg_braced seg then path_value out (seg_name seg) else seg)"

definition seg_readable :: "metadata \<Rightarrow> string \<Rightarrow> bool" where
  "seg_readable out seg \<longleftrightarrow>
     (if seg_braced seg then seg_name seg \<noteq> [] else True)
     \<and> slash \<notin> set (fill_seg out seg) \<and> question \<notin> set (fill_seg out seg)"

lemma braced_length: "seg_braced s \<Longrightarrow> seg_name s \<noteq> [] \<Longrightarrow> 3 \<le> length s"
  by (cases s; cases "tl s"; cases "tl (tl s)") (auto simp: seg_name_def seg_braced_def)

lemma normalize_split:
  assumes "normalize_pattern p \<noteq> []"
  shows "split_on slash (normalize_pattern p) = [] # template_segs p"
proof -
  obtain t where "normalize_pattern p = slash # t"
    using assms by (auto simp: normalize_pattern_def Let_def has_prefix_iff split: if_splits)
  then show ?thesis by (simp add: template_segs_def)
qed

lemma build_segs_fill:
  assumes "list_all (seg_readable out) segs" "build_segs (Suc i) segs out b = Inr p"
  shows "p = b @ concat (map (\<lambda>s. slash # fill_seg out s) segs)"
  using assms
proof (induction segs arbitrary: i b)
  case (Cons s segs)
  show ?case
  proof (cases "seg_braced s")
    case True
    then have n: "seg_name s \<noteq> []" "\<not> length s < 3"
      using Cons.prems(1) braced_length [of s] by (auto simp: seg_readable_def)
    with True Cons.prems(2) have "build_segs (Suc (Suc i)) segs out (b @ slash # fill_seg out s) = Inr p"
      by (auto simp: fill_seg_def path_value_def Let_def split: if_splits)
    from Cons.IH [OF _ this] Cons.prems(1) show ?thesis by simp
  next
    case False
    then have "build_segs (Suc (Suc i)) segs out (b @ slash # fill_seg out s) = Inr p"
      using Cons.prems(2) by (simp add: fill_seg_def)
    from Cons.IH [OF _ this] Cons.prems(1) show ?thesis by simp
  qed
qed simp

lemma split_filled:
  assumes "list_all (seg_readable out) segs" "slash \<notin> set w"
  shows "split_on slash (w @ concat (map (\<lambda>s. slash # fill_seg out s) segs)) = w # map (fill_seg out) segs"
  using assms
proof (induction segs arbitrary: w)
  case Nil
  then show ?case by (simp add: split_on_absent)
next
  case (Cons s segs)
  from Cons.IH [of "fill_seg out s"] Cons.prems show ?case
    by (simp add: split_on_prefix seg_readable_def)
qed

lemma match_segs_fill:
  assumes "list_all (seg_readable out) segs"
  shows "match_segs (Suc i) segs (map (fill_seg out) segs) vars
           = Some (fold (\<lambda>s vs. if seg_braced s then alist_put (seg_name s) (path_value out (seg_name s)) vs
                                else vs) segs vars)"
  using assms
  by (induction segs arbitrary: i vars) (auto simp: fill_seg_def seg_readable_def)

lemma fold_vars:
  "map_of (fold (\<lambda>s vs. if seg_braced s then alist_put (seg_name s) (path_value out (seg_name s)) vs else vs)
             segs vars) k
     = (if \<exists>s \<in> set segs. seg_braced s \<and> seg_name s = k then Some (path_value out k) else map_of vars k)"
  by (induction segs arbitrary: vars) auto

lemma path_only_clean: "question \<notin> set t \<Longrightarrow> path_only t = t"
  by (simp add: path_only_def index_byte_None [THEN iffD2])

text \<open>The path the client builds matches its own template, and the variables come back.\<close>

lemma build_match:
  assumes "normalize_pattern pat \<noteq> []" "list_all (seg_readable out) (template_segs pat)"
    and "build_path pat out = Inr target"
  shows "path_only target = target
         \<and> (\<exists>vars. match_pattern pat target = Some vars
              \<and> map_of vars = (\<lambda>k. if \<exists>s \<in> set (template_segs pat). seg_braced s \<and> seg_name s = k
                                  then Some (path_value out k) else None))"
proof -
  let ?segs = "template_segs pat"
  have sp: "split_on slash (normalize_pattern pat) = [] # ?segs" by (rule normalize_split [OF assms(1)])
  obtain t where t: "normalize_pattern pat = slash # t"
    using assms(1) by (auto simp: normalize_pattern_def Let_def has_prefix_iff split: if_splits)
  have ne: "?segs \<noteq> []" by (simp add: template_segs_def t)
  have "build_segs (Suc 0) ?segs out [] = Inr target"
  proof (rule ccontr)
    obtain x xs where x: "?segs = x # xs" using ne by (cases ?segs) auto
    assume n: "build_segs (Suc 0) ?segs out [] \<noteq> Inr target"
    from assms(3) obtain p where p: "build_segs (Suc 0) ?segs out [] = Inr p"
      "target = (if p = [] then [slash] else p)"
      by (auto simp: build_path_def sp split: sum.splits)
    from build_segs_fill [OF assms(2) p(1)] x have "p \<noteq> []" by simp
    with p n show False by simp
  qed
  from build_segs_fill [OF assms(2) this] have tg: "target = concat (map (\<lambda>s. slash # fill_seg out s) ?segs)"
    by simp
  have q: "question \<notin> set target"
    using assms(2) by (auto simp: tg list_all_iff seg_readable_def question_def slash_def)
  have "split_on slash target = [] # map (fill_seg out) ?segs"
    using split_filled [OF assms(2), of "[]"] by (simp add: tg)
  then have "match_pattern pat target = match_segs (Suc 0) ?segs (map (fill_seg out) ?segs) []"
    by (simp add: match_pattern_def sp path_only_clean [OF q])
  with match_segs_fill [OF assms(2)] path_only_clean [OF q] show ?thesis
    by (auto simp: fun_eq_iff fold_vars)
qed

section \<open>The REST router\<close>

lemma upper_space [simp]: "is_space (upper_char c) = is_space c"
  by (auto simp: upper_char_def is_space_def is_lower_def)

lemma upper_char_idem [simp]: "upper_char (upper_char c) = upper_char c"
proof (cases "is_lower c")
  case True
  then have b: "97 \<le> byte c" "byte c \<le> 122" by (simp_all add: is_lower_def)
  then have "byte (char_of (byte c - 32)) = byte c - 32" by (intro byte_char_of) linarith
  moreover from b have "\<not> 97 \<le> byte c - 32" by linarith
  ultimately have "byte (char_of (byte c - 32)) = byte c - 32" "\<not> 97 \<le> byte c - 32" by simp_all
  then show ?thesis by (simp add: upper_char_def is_lower_def)
qed (simp add: upper_char_def)

lemma to_upper_idem [simp]: "to_upper (to_upper s) = to_upper s"
  by (simp add: to_upper_def)

lemma trim_upper: "trim_space (to_upper s) = to_upper (trim_space s)"
  by (simp add: trim_space_def trim_left_def trim_right_def to_upper_def dropWhile_map rev_map comp_def)

lemma trim_space_idem [simp]: "trim_space (trim_space s) = trim_space s"
proof -
  let ?u = "dropWhile is_space s"
  let ?v = "rev (dropWhile is_space (rev ?u))"
  have "dropWhile is_space ?v = ?v"
  proof (cases ?v)
    case (Cons x xs)
    obtain z where z: "?u = ?v @ z"
      by (metis rev_append rev_rev_ident takeWhile_dropWhile_id)
    with Cons have "hd ?u = x" "?u \<noteq> []" by simp_all
    then have "\<not> is_space x" using hd_dropWhile [of is_space s] by auto
    with Cons show ?thesis by simp
  qed (simp only: dropWhile.simps)
  then show ?thesis by (simp add: trim_space_def trim_left_def trim_right_def)
qed

lemma trim_space_Nil [simp]: "trim_space [] = []"
  by (simp add: trim_space_def trim_left_def trim_right_def)

lemma trim_cons:
  assumes "\<not> is_space c" "trim_space p = p" "p \<noteq> []"
  shows "trim_space (c # p) = c # p"
proof -
  have r: "trim_right p = p"
    using assms(2) by (metis trim_space_def trim_space_idem trim_right_def dropWhile_idem rev_rev_ident)
  then have d: "dropWhile is_space (rev p) = rev p" by (metis rev_rev_ident trim_right_def)
  have "dropWhile is_space (rev p @ [c]) = rev p @ [c]"
  proof (cases "rev p")
    case (Cons x xs)
    with d have "\<not> is_space x" by (metis hd_dropWhile list.sel(1) list.distinct(1))
    with Cons show ?thesis by simp
  qed (use assms in simp)
  with assms(1) show ?thesis by (simp add: trim_space_def trim_left_def trim_right_def)
qed

lemma normalize_idem [simp]: "normalize_pattern (normalize_pattern p) = normalize_pattern p"
proof -
  have "\<not> is_space slash" by (simp add: is_space_def slash_def byte_def)
  then show ?thesis
    using trim_cons [of slash "trim_space p"] by (auto simp: normalize_pattern_def Let_def has_prefix_iff)
qed

definition rest_entry_ok :: "string \<times> binding \<Rightarrow> bool" where
  "rest_entry_ok e \<longleftrightarrow>
     m_fullName (bn_Method (snd e)) = fst e
     \<and> bn_Verb (snd e) \<noteq> [] \<and> to_upper (trim_space (bn_Verb (snd e))) = bn_Verb (snd e)
     \<and> bn_Pattern (snd e) \<noteq> [] \<and> normalize_pattern (bn_Pattern (snd e)) = bn_Pattern (snd e)"

lemma alist_put_all:
  "list_all P xs \<Longrightarrow> P (k, v) \<Longrightarrow> list_all P (alist_put k v xs)"
proof -
  assume "list_all P xs" "P (k, v)"
  then show ?thesis unfolding alist_put_def by (induction xs) auto
qed

lemma rest_bindings_ok:
  "rest_bindings bs seen r0 = Inr r \<Longrightarrow> list_all rest_entry_ok r0 \<Longrightarrow> distinct (map fst r0) \<Longrightarrow>
     list_all rest_entry_ok r \<and> distinct (map fst r)"
proof (induction bs seen r0 rule: rest_bindings.induct)
  case (2 b bs seen r0)
  let ?v = "to_upper (trim_space (bn_Verb b))" and ?p = "normalize_pattern (bn_Pattern b)"
  let ?e = "\<lparr>bn_Method = bn_Method b, bn_Verb = ?v, bn_Pattern = ?p\<rparr>"
  from "2.prems"(1) have ne: "\<not> method_is_zero (bn_Method b)" "?v \<noteq> []" "?p \<noteq> []" "?v @ '' '' @ ?p \<notin> set seen"
    and r: "rest_bindings bs ((?v @ '' '' @ ?p) # seen) (alist_put (m_fullName (bn_Method b)) ?e r0) = Inr r"
    by (auto simp: Let_def split: if_splits)
  have "rest_entry_ok (m_fullName (bn_Method b), ?e)"
    using ne by (simp add: rest_entry_ok_def trim_upper)
  from "2.IH" [OF ne(1) refl refl refl refl ne(2,3,4) r alist_put_all [OF "2.prems"(2) this]
      alist_put_distinct [OF "2.prems"(3)]]
  show ?case .
qed auto

lemma path_matches_one:
  assumes "distinct order" "b \<in> set order" "match_pattern (bn_Pattern b) path = Some vars"
    and "\<And>b'. b' \<in> set order \<Longrightarrow> b' \<noteq> b \<Longrightarrow> match_pattern (bn_Pattern b') path = None"
  shows "path_matches order path md = ([b], apply_path_vars vars md)"
proof -
  have none: "path_matches bs path md' = ([], md')"
    if "\<And>b'. b' \<in> set bs \<Longrightarrow> match_pattern (bn_Pattern b') path = None" for bs md'
    using that by (induction bs) auto
  obtain xs ys where o: "order = xs @ b # ys" using assms(2) by (meson split_list)
  have "b \<notin> set xs" "b \<notin> set ys" using assms(1) o by auto
  then have n: "\<And>b'. b' \<in> set xs \<Longrightarrow> match_pattern (bn_Pattern b') path = None"
    "\<And>b'. b' \<in> set ys \<Longrightarrow> match_pattern (bn_Pattern b') path = None"
    using assms(4) o by auto
  have "path_matches (xs @ zs) path md = path_matches zs path md" for zs
    using n(1) by (induction xs) auto
  with none [OF n(2)] assms(3) o show ?thesis by simp
qed

lemma apply_vars_get:
  assumes "distinct (map fst vars)"
  shows "md_get (apply_path_vars vars md) k =
           (if has_prefix k path_var_prefix \<and> map_of vars (drop (length path_var_prefix) k) \<noteq> None
            then [the (map_of vars (drop (length path_var_prefix) k))] else md_get md k)"
  using assms
proof (induction vars arbitrary: md)
  case (Cons x vars)
  obtain n v where x: "x = (n, v)" by fastforce
  have "md_get (apply_path_vars (x # vars) md) k = md_get (apply_path_vars vars (alist_put (path_var_prefix @ n) [v] md)) k"
    by (simp add: apply_path_vars_def x)
  also have "\<dots> = (if has_prefix k path_var_prefix \<and> map_of vars (drop (length path_var_prefix) k) \<noteq> None
            then [the (map_of vars (drop (length path_var_prefix) k))]
            else md_get (alist_put (path_var_prefix @ n) [v] md) k)"
    using Cons.prems by (intro Cons.IH) simp
  also have "md_get (alist_put (path_var_prefix @ n) [v] md) k = (if k = path_var_prefix @ n then [v] else md_get md k)"
    by (simp add: md_get_def)
  finally show ?case
    using Cons.prems map_of_eq_None_iff [of vars n] by (auto simp: x has_prefix_iff)
qed (simp add: apply_path_vars_def)

lemma match_segs_distinct:
  "match_segs i ps ts vars = Some vs \<Longrightarrow> distinct (map fst vars) \<Longrightarrow> distinct (map fst vs)"
  by (induction i ps ts vars rule: match_segs.induct) (auto split: if_splits)

lemma match_pattern_distinct: "match_pattern pat path = Some vs \<Longrightarrow> distinct (map fst vs)"
  by (auto simp: match_pattern_def Let_def dest: match_segs_distinct split: if_splits)

definition pattern_var :: "string \<Rightarrow> string \<Rightarrow> bool" where
  "pattern_var pat name \<longleftrightarrow> list_ex (\<lambda>s. seg_braced s \<and> seg_name s = name) (template_segs pat)"

text \<open>
  C11: a REST call reaches the method it was made for, with its path variables. For a router built
  from any bindings, the request the client builds for a bound method (its verb, and the template
  filled with the values from the metadata) is resolved by the server to that method, in whatever
  order it iterates over its bindings, and each variable of the template arrives in the metadata
  with the value the client put there, everything else being left alone. It needs values without a
  slash or question mark, as nothing is escaped, no segment \<open>{}\<close>, and no other binding
  whose template matches the path.
\<close>

theorem rest_round_trip:
  assumes "new_rest_router bs = Inr r" and "rest_build_preface r m codec out = Inr p"
    and "map_of r (m_fullName m) = Some b"
    and "list_all (seg_readable out) (template_segs (bn_Pattern b))"
    and "set order = set (map snd r)" "distinct order"
    and "list_all (\<lambda>b'. b' = b \<or> match_pattern (bn_Pattern b') (hp_target p) = None) order"
  shows "\<exists>md'. rest_resolve_accept order (preface_http_method p) (hp_target p) md = (Inr (m_fullName m), md')
           \<and> (\<forall>name. md_get md' (path_var_prefix @ name) =
                (if pattern_var (bn_Pattern b) name then [path_value out name]
                 else md_get md (path_var_prefix @ name)))
           \<and> (\<forall>k. if has_prefix k path_var_prefix then True else md_get md' k = md_get md k)"
proof -
  have ok: "list_all rest_entry_ok r"
    using assms(1) rest_bindings_ok [of bs "[]" "[]" r] by (auto simp: new_rest_router_def split: if_splits)
  have "(m_fullName m, b) \<in> set r" using assms(3) by (rule map_of_SomeD)
  with ok have e: "rest_entry_ok (m_fullName m, b)" by (simp add: list_all_iff)
  have bo: "b \<in> set order" using \<open>(m_fullName m, b) \<in> set r\<close> assms(5) by force
  from e have nb: "m_fullName (bn_Method b) = m_fullName m" "normalize_pattern (bn_Pattern b) \<noteq> []"
    "bn_Verb b \<noteq> []" "to_upper (trim_space (bn_Verb b)) = bn_Verb b"
    by (simp_all add: rest_entry_ok_def)
  have p: "build_path (bn_Pattern b) out = Inr (hp_target p)" "hp_method p = bn_Verb b"
    using assms(2,3) by (auto simp: rest_build_preface_def split: sum.splits)
  obtain vars where v: "path_only (hp_target p) = hp_target p" "match_pattern (bn_Pattern b) (hp_target p) = Some vars"
    "map_of vars = (\<lambda>k. if \<exists>s \<in> set (template_segs (bn_Pattern b)). seg_braced s \<and> seg_name s = k
                         then Some (path_value out k) else None)"
    using build_match [OF nb(2) assms(4) p(1)] by blast
  have pm: "path_matches order (hp_target p) md = ([b], apply_path_vars vars md)"
    by (rule path_matches_one [OF assms(6) bo v(2)]) (use assms(7) in \<open>auto simp: list_all_iff\<close>)
  have "to_upper (bn_Verb b) = bn_Verb b" using nb(4) to_upper_idem by metis
  then have verb: "to_upper (trim_space (preface_http_method p)) = bn_Verb b"
    using p(2) nb(3,4) by (simp add: preface_http_method_def trim_upper)
  have "rest_resolve_accept order (preface_http_method p) (hp_target p) md
      = (Inr (m_fullName m), apply_path_vars vars md)"
    using pm verb nb(1,3) v(1) by (simp add: rest_resolve_accept_def)
  moreover have "md_get (apply_path_vars vars md) (path_var_prefix @ name) =
      (if pattern_var (bn_Pattern b) name then [path_value out name] else md_get md (path_var_prefix @ name))" for name
    using apply_vars_get [OF match_pattern_distinct [OF v(2)], of md "path_var_prefix @ name"]
    by (auto simp: v(3) pattern_var_def list_ex_iff)
  moreover have "if has_prefix k path_var_prefix then True else md_get (apply_path_vars vars md) k = md_get md k" for k
    using apply_vars_get [OF match_pattern_distinct [OF v(2)], of md k] by simp
  ultimately show ?thesis by blast
qed

definition demo_get :: binding where
  "demo_get = \<lparr>bn_Method = \<lparr>m_fullName = ''a.S.Get'', m_service = ''a.S'', m_name = ''Get'', m_shape = Unary\<rparr>,
     bn_Verb = ''get'', bn_Pattern = ''v1/{id}/x''\<rparr>"

definition demo_put :: binding where
  "demo_put = \<lparr>bn_Method = \<lparr>m_fullName = ''a.S.Put'', m_service = ''a.S'', m_name = ''Put'', m_shape = Unary\<rparr>,
     bn_Verb = ''PUT'', bn_Pattern = ''/v1/{id}''\<rparr>"

definition demo_router :: rest_router where
  "demo_router = [(''a.S.Get'', demo_get\<lparr>bn_Verb := ''GET'', bn_Pattern := ''/v1/{id}/x''\<rparr>), (''a.S.Put'', demo_put)]"

lemma rest_round_trip_witness:
  "\<exists>md'. rest_resolve_accept (rev (map snd demo_router)) (preface_http_method
            \<lparr>hp_method = ''GET'', hp_target = ''/v1/42/x'', hp_headers = [(''x-argos-path-id'', ''42'')]\<rparr>)
            (hp_target \<lparr>hp_method = ''GET'', hp_target = ''/v1/42/x'', hp_headers = [(''x-argos-path-id'', ''42'')]\<rparr>) []
       = (Inr (m_fullName (bn_Method demo_get)), md')
     \<and> (\<forall>name. md_get md' (path_var_prefix @ name) =
          (if pattern_var (bn_Pattern (demo_get\<lparr>bn_Verb := ''GET'', bn_Pattern := ''/v1/{id}/x''\<rparr>)) name
           then [path_value [(''x-argos-path-id'', [''42''])] name] else md_get [] (path_var_prefix @ name)))
     \<and> (\<forall>k. if has_prefix k path_var_prefix then True else md_get md' k = md_get [] k)"
  by (rule rest_round_trip [where bs = "[demo_get, demo_put]" and r = demo_router and codec = "''json''"
        and out = "[(''x-argos-path-id'', [''42''])]" and m = "bn_Method demo_get"])
    code_simp+

text \<open>
  The path variables a REST call receives may be those of another verb. The bindings
  \<open>GET /a/{x}/{y}\<close> and \<open>POST /a/{y}/{x}\<close> are accepted together, and \<open>GET /a/1/2\<close> is
  routed to the first whatever the order of iteration; but the variables of every template that
  matches are written to the metadata before the verb is compared, so \<open>x\<close> is \<open>1\<close> or \<open>2\<close> depending
  on the order in which the map happens to be iterated.
\<close>

lemma rest_vars_of_other_verb:
  "let m1 = \<lparr>m_fullName = ''a.S.G'', m_service = ''a.S'', m_name = ''G'', m_shape = Unary\<rparr>;
       m2 = \<lparr>m_fullName = ''a.S.P'', m_service = ''a.S'', m_name = ''P'', m_shape = Unary\<rparr>;
       b1 = \<lparr>bn_Method = m1, bn_Verb = ''GET'', bn_Pattern = ''/a/{x}/{y}''\<rparr>;
       b2 = \<lparr>bn_Method = m2, bn_Verb = ''POST'', bn_Pattern = ''/a/{y}/{x}''\<rparr>;
       ab = rest_resolve_accept [b1, b2] ''GET'' ''/a/1/2'' [];
       ba = rest_resolve_accept [b2, b1] ''GET'' ''/a/1/2'' [] in
     new_rest_router [b1, b2] = Inr [(''a.S.G'', b1), (''a.S.P'', b2)]
     \<and> fst ab = Inr ''a.S.G'' \<and> fst ba = Inr ''a.S.G''
     \<and> md_get (snd ab) ''x-argos-path-x'' = [''2''] \<and> md_get (snd ba) ''x-argos-path-x'' = [''1'']"
  by code_simp

section \<open>Errors\<close>

lemma decode_error_not_ok:
  "fb \<noteq> OK \<Longrightarrow> code_of (Some (decode_error_body un body fb)) \<noteq> OK"
  by (simp add: decode_error_body_def Let_def split: option.split prod.split)

definition error_text :: "go_error \<Rightarrow> string" where
  "error_text e = take 8192 (case errors_as_status e of Some (_, m, _, _) \<Rightarrow> m | None \<Rightarrow> err_text e)"

lemma error_body_decodes:
  assumes "\<And>n msg b. ma (n, msg) = Some b \<Longrightarrow> b \<noteq> [] \<and> un b = Some (n, to_valid_utf8 msg)"
    and "ma (sint (code_of (Some e)), error_text e) = Some b" "length b \<le> max_error_body"
    and "code_of (Some e) \<noteq> OK"
  shows "encode_error_body ma (Some e) = b
         \<and> decode_error_body un b fb = status_error (code_of (Some e)) (to_valid_utf8 (error_text e))"
proof -
  have t: "error_text e = (let m = (case errors_as_status e of Some (_, m, _, _) \<Rightarrow> m | None \<Rightarrow> err_text e) in
      if max_error_body div 2 < length m then take (max_error_body div 2) m else m)"
    by (simp add: error_text_def max_error_body_def Let_def)
  have w: "word_of_int (sint c) = c" for c :: code by simp
  show ?thesis
    using assms(1) [OF assms(2)] assms(2-4)
    by (auto simp: encode_error_body_def decode_error_body_def t Let_def w split: if_splits)
qed

end
