(* ===== verification/Unary_Call.thy ===== *)
theory Unary_Call
  imports Unary_Routes
begin

text \<open>
  Sessions and calls of the unary HTTP transport (src/transport/httpunary/session.go, call.go and
  framing.go). A call buffers at most one message each way; the client commits its request in
  \<open>HalfClose\<close>, the server its whole response in \<open>Finish\<close>. The session fields a call touches
  (\<open>closed\<close>, \<open>reusable\<close>, \<open>inFlight\<close>) and the methods \<open>markBad\<close> and \<open>endFlight\<close> on them are those of
  the gRPC session, written out the same way in both packages, and are shared here. Hooks a
  configuration may leave nil are options.
\<close>

section \<open>Configuration (framing.go)\<close>

datatype unary_router = RPCRouter | RESTRouter rest_router

record unary_framing =
  uf_router :: unary_router
  uf_contentType :: "(string \<Rightarrow> string) option"
  uf_encodeError :: "(go_error \<Rightarrow> string \<times> bytes) option"

record rest_config =
  rc_Bindings :: "binding list"
  rc_ContentType :: "(string \<Rightarrow> string) option"
  rc_EncodeError :: "(go_error \<Rightarrow> string \<times> bytes) option"

definition new_rpc :: unary_framing where
  "new_rpc = \<lparr>uf_router = RPCRouter, uf_contentType = None, uf_encodeError = None\<rparr>"

definition new_rest :: "rest_config \<Rightarrow> go_error + unary_framing" where
  "new_rest c =
     (case new_rest_router (rc_Bindings c) of
        Inl e \<Rightarrow> Inl e
      | Inr r \<Rightarrow> Inr \<lparr>uf_router = RESTRouter r, uf_contentType = rc_ContentType c,
                      uf_encodeError = rc_EncodeError c\<rparr>)"

definition pick_content_type :: "unary_framing \<Rightarrow> string \<Rightarrow> string" where
  "pick_content_type f = (case uf_contentType f of Some g \<Rightarrow> g | None \<Rightarrow> unary_content_type)"

definition unary_build_preface ::
    "unary_router \<Rightarrow> rpc_method \<Rightarrow> string \<Rightarrow> metadata \<Rightarrow> go_error + http_preface" where
  "unary_build_preface rt m codec out =
     (case rt of
        RPCRouter \<Rightarrow> Inr (rpc_build_preface m codec out)
      | RESTRouter r \<Rightarrow> rest_build_preface r m codec out)"

definition unary_resolve_accept ::
    "unary_router \<Rightarrow> binding list \<Rightarrow> string \<Rightarrow> string \<Rightarrow> metadata \<Rightarrow> (go_error + string) \<times> metadata" where
  "unary_resolve_accept rt order httpMethod target md =
     (case rt of
        RPCRouter \<Rightarrow> (rpc_resolve_accept target, md)
      | RESTRouter _ \<Rightarrow> rest_resolve_accept order httpMethod target md)"

section \<open>The call (call.go)\<close>

datatype unary_event =
    UResponse int headers bytes
  | UCloseSend
  | UAbort

text \<open>What the carrier underneath is and answers; \<open>ua_writeResponse\<close> is None on success.\<close>

record unary_carrier =
  ua_unaryWriter :: bool
  ua_writeResponse :: "int \<Rightarrow> headers \<Rightarrow> bytes \<Rightarrow> go_error option"
  ua_sendCloser :: bool
  ua_closeSend :: "go_error option"
  ua_headerReader :: bool
  ua_status :: "go_error + int"
  ua_headers :: "go_error + headers"

record unary_call =
  uc_hasClient :: bool
  uc_method :: string
  uc_md :: "call_md option"
  uc_cfg :: session_options
  uc_maxMsg :: int
  uc_codec :: string
  uc_contentType :: "(string \<Rightarrow> string) option"
  uc_encodeError :: "(go_error \<Rightarrow> string \<times> bytes) option"
  uc_initiator :: bool
  uc_localCar :: bool
  uc_reqBuf :: "bytes option"
  uc_respBuf :: "bytes option"
  uc_reqSent :: bool
  uc_respSeen :: bool
  uc_halfClosed :: bool
  uc_finished :: bool
  uc_closed :: bool
  uc_sawTerminal :: bool
  uc_sendErr :: "go_error option"
  uc_sending :: bool
  uc_recving :: bool
  uc_body :: go_reader
  uc_writer :: go_writer
  uc_wire :: "unary_event list"

definition fresh_unary ::
    "bool \<Rightarrow> string \<Rightarrow> call_md option \<Rightarrow> session_options \<Rightarrow> string \<Rightarrow> unary_framing \<Rightarrow> go_reader \<Rightarrow> go_writer
     \<Rightarrow> unary_call" where
  "fresh_unary initiator method md cfg codec fr body out =
     \<lparr>uc_hasClient = initiator, uc_method = method, uc_md = md, uc_cfg = cfg,
      uc_maxMsg = so_MaxMessageSize cfg, uc_codec = codec,
      uc_contentType = Some (pick_content_type fr), uc_encodeError = uf_encodeError fr,
      uc_initiator = initiator, uc_localCar = initiator, uc_reqBuf = None, uc_respBuf = None,
      uc_reqSent = False, uc_respSeen = False, uc_halfClosed = False, uc_finished = False,
      uc_closed = False, uc_sawTerminal = False, uc_sendErr = None, uc_sending = False,
      uc_recving = False, uc_body = body, uc_writer = out, uc_wire = []\<rparr>"

definition uerr_concurrent_send :: go_error where "uerr_concurrent_send = ErrVar ''httpunary: concurrent Send''"
definition uerr_concurrent_recv :: go_error where "uerr_concurrent_recv = ErrVar ''httpunary: concurrent Recv''"
definition uerr_send_finished :: go_error where "uerr_send_finished = ErrVar ''httpunary: send already finished''"
definition uerr_call_closed :: go_error where "uerr_call_closed = ErrVar ''httpunary: call closed''"

definition unary_check_meta :: "session_options \<Rightarrow> metadata \<Rightarrow> go_error option" where
  "unary_check_meta cfg md =
     (let mx = so_MaxInboundMetadataSize cfg in
      if mx \<le> 0 \<or> md = [] then None
      else if mx < wire_size md then
        Some (status_error ResourceExhausted
          (''httpunary: inbound metadata '' @ itoa (wire_size md) @ '' exceeds limit '' @ itoa mx))
      else None)"

definition unary_mark_bad :: "unary_call \<Rightarrow> client_session \<Rightarrow> client_session" where
  "unary_mark_bad c s = (if uc_hasClient c then session_mark_bad s else s)"

definition unary_mark_bad_unless_limit :: "go_error \<Rightarrow> unary_call \<Rightarrow> client_session \<Rightarrow> client_session" where
  "unary_mark_bad_unless_limit err c s =
     (if code_of (Some err) = ResourceExhausted then s else unary_mark_bad c s)"

definition unary_send_failure :: "go_error \<Rightarrow> bool" where
  "unary_send_failure err = (case as_send_error (Some err) of Some (_, ro) \<Rightarrow> ro | None \<Rightarrow> False)"

definition unary_send_failed ::
    "go_error \<Rightarrow> unary_call \<Rightarrow> client_session \<Rightarrow> go_error option \<times> unary_call \<times> client_session" where
  "unary_send_failed err c s =
     (Some err, (if uc_sendErr c = None then c\<lparr>uc_sendErr := Some err\<rparr> else c),
      (if unary_send_failure err then s else unary_mark_bad c s))"

definition unary_send_headers :: "unary_call \<Rightarrow> go_error" where
  "unary_send_headers c =
     (if uc_initiator c then
        status_error Unimplemented ''httpunary: SendHeaders unsupported for initiator''
      else
        status_error Unimplemented
          ''httpunary: SendHeaders unsupported (UnaryResponseWriter commits at Finish)'')"

definition unary_send :: "bytes \<Rightarrow> unary_call \<Rightarrow> go_error option \<times> unary_call" where
  "unary_send data c =
     (if uc_sending c then (Some uerr_concurrent_send, c)
      else if uc_closed c then (Some uerr_call_closed, c)
      else if uc_initiator c \<and> uc_halfClosed c then (Some uerr_send_finished, c)
      else if \<not> uc_initiator c \<and> uc_finished c then (Some uerr_send_finished, c)
      else if uc_initiator c \<and> uc_reqBuf c \<noteq> None then
        (Some (status_error Internal ''httpunary: unary allows one request message''), c)
      else if \<not> uc_initiator c \<and> uc_respBuf c \<noteq> None then
        (Some (status_error Internal ''httpunary: unary allows one response message''), c)
      else if 0 < uc_maxMsg c \<and> uc_maxMsg c < int (length data) then
        (Some (status_error ResourceExhausted
           (''httpunary: Send payload '' @ nat_str (length data) @ '' > max '' @ itoa (uc_maxMsg c))), c)
      else if uc_initiator c then (None, c\<lparr>uc_reqBuf := Some data\<rparr>)
      else (None, c\<lparr>uc_respBuf := Some data\<rparr>))"

text \<open>\<open>HalfClose\<close>: a non-empty request body is written, then the send direction is closed.\<close>

definition unary_half_close ::
    "unary_carrier \<Rightarrow> unary_call \<Rightarrow> client_session \<Rightarrow> go_error option \<times> unary_call \<times> client_session" where
  "unary_half_close ca c s =
     (if \<not> uc_initiator c then
        (Some (status_error Unimplemented ''httpunary: HalfClose unsupported for responder''), c, s)
      else if uc_closed c then (Some uerr_call_closed, c, s)
      else
        (case uc_sendErr c of
           Some e \<Rightarrow> (Some e, c, s)
         | None \<Rightarrow>
             if uc_halfClosed c then (None, c, s)
             else
               let buf = (case uc_reqBuf c of None \<Rightarrow> [] | Some b \<Rightarrow> b);
                   c1 = c\<lparr>uc_halfClosed := True\<rparr>;
                   (werr, w) = (if buf \<noteq> [] then go_write (uc_writer c) buf else (None, uc_writer c));
                   c2 = c1\<lparr>uc_writer := w\<rparr> in
               (case werr of
                  Some e \<Rightarrow> unary_send_failed e c2 s
                | None \<Rightarrow>
                    if \<not> ua_sendCloser ca then
                      (Some (status_error Unimplemented ''httpunary: carrier has no CloseSend''), c2, s)
                    else
                      (case ua_closeSend ca of
                         Some e \<Rightarrow> unary_send_failed e c2 s
                       | None \<Rightarrow> (None, c2\<lparr>uc_wire := uc_wire c @ [UCloseSend]\<rparr>, s)))))"

text \<open>What \<open>Finish\<close> writes: status, content type and body.\<close>

definition unary_response :: "json_marshal \<Rightarrow> go_error option \<Rightarrow> unary_call \<Rightarrow> int \<times> string \<times> bytes" where
  "unary_response marshal err c =
     (case err of
        None \<Rightarrow>
          (http_ok,
           (case uc_contentType c of Some f \<Rightarrow> f (uc_codec c) | None \<Rightarrow> unary_content_type (uc_codec c)),
           (case uc_respBuf c of None \<Rightarrow> [] | Some b \<Rightarrow> b))
      | Some e \<Rightarrow>
          (to_http (code_of err),
           (case uc_encodeError c of Some f \<Rightarrow> f e | None \<Rightarrow> (''application/json'', encode_error_body marshal err))))"

definition unary_finish ::
    "json_marshal \<Rightarrow> unary_carrier \<Rightarrow> go_error option \<Rightarrow> unary_call \<Rightarrow> client_session
     \<Rightarrow> go_error option \<times> unary_call \<times> client_session" where
  "unary_finish marshal ca err c s =
     (if uc_initiator c then
        (Some (status_error Unimplemented ''httpunary: Finish unsupported for initiator''), c, s)
      else if uc_closed c then (Some uerr_call_closed, c, s)
      else if uc_finished c then (Some uerr_send_finished, c, s)
      else if \<not> ua_unaryWriter ca then
        (Some (status_error Unimplemented ''httpunary: carrier has no UnaryResponseWriter''), c, s)
      else
        let userMD = (case uc_md c of None \<Rightarrow> [] | Some d \<Rightarrow> outgoingHeaders d);
            c1 = c\<lparr>uc_md := map_option (freeze_outgoing_trailers \<circ> freeze_outgoing_headers) (uc_md c)\<rparr>;
            (st, ctype, body) = unary_response marshal err c;
            hs = (''content-type'', ctype) # unary_encode_metadata userMD in
        (case ua_writeResponse ca st hs body of
           Some e \<Rightarrow> unary_send_failed e c1 s
         | None \<Rightarrow>
             (None, c1\<lparr>uc_finished := True, uc_sawTerminal := True, uc_wire := uc_wire c @ [UResponse st hs body]\<rparr>, s)))"

definition read_all_limited :: "go_reader \<Rightarrow> int \<Rightarrow> (go_error + bytes) \<times> go_reader" where
  "read_all_limited r limit =
     (let n = nat (limit + 1);
          r' = r\<lparr>rd_data := drop n (rd_data r)\<rparr> in
      case read_all (limit_reader n r) of
        Inl e \<Rightarrow> (Inl e, r')
      | Inr b \<Rightarrow>
          if limit < int (length b) then
            (Inl (status_error ResourceExhausted (''httpunary: message exceeds max size '' @ itoa limit)), r')
          else (Inr b, r'))"

definition recv_limit :: "unary_call \<Rightarrow> int" where
  "recv_limit c = (if uc_maxMsg c \<le> 0 then 4194304 else uc_maxMsg c)"

definition unary_recv_server ::
    "unary_call \<Rightarrow> client_session \<Rightarrow> (go_error + bytes) \<times> unary_call \<times> client_session" where
  "unary_recv_server c s =
     (case read_all_limited (uc_body c) (recv_limit c) of
        (Inl e, r) \<Rightarrow> (Inl e, c\<lparr>uc_body := r\<rparr>, unary_mark_bad c s)
      | (Inr d, r) \<Rightarrow> (Inr d, c\<lparr>uc_body := r, uc_reqSent := True\<rparr>, s))"

text \<open>The part of \<open>recvClient\<close> after the response headers.\<close>

definition unary_recv_body ::
    "json_unmarshal \<Rightarrow> int \<Rightarrow> unary_call \<Rightarrow> client_session \<Rightarrow> (go_error + bytes) \<times> unary_call \<times> client_session" where
  "unary_recv_body unmarshal st c s =
     (let limit = recv_limit c in
      if st \<noteq> http_ok then
        (case read_all_limited (uc_body c) (if int max_error_body < limit then int max_error_body else limit) of
           (rd, r) \<Rightarrow>
             (case (case rd of Inl e \<Rightarrow> if e = err_EOF then Inr [] else Inl e | Inr b \<Rightarrow> Inr b) of
                Inl e \<Rightarrow> (Inl e, c\<lparr>uc_body := r\<rparr>, unary_mark_bad_unless_limit e c s)
              | Inr body \<Rightarrow>
                  (Inl (decode_error_body unmarshal body (from_http st)),
                   c\<lparr>uc_body := r, uc_respSeen := True, uc_sawTerminal := True\<rparr>, s)))
      else
        (case read_all_limited (uc_body c) limit of
           (Inl e, r) \<Rightarrow> (Inl e, c\<lparr>uc_body := r\<rparr>, unary_mark_bad_unless_limit e c s)
         | (Inr d, r) \<Rightarrow> (Inr d, c\<lparr>uc_body := r, uc_respSeen := True, uc_sawTerminal := True\<rparr>, s)))"

definition unary_recv_client ::
    "json_unmarshal \<Rightarrow> unary_carrier \<Rightarrow> unary_call \<Rightarrow> client_session
     \<Rightarrow> (go_error + bytes) \<times> unary_call \<times> client_session" where
  "unary_recv_client unmarshal ca c s =
     (if \<not> ua_headerReader ca then (Inl (ErrNew ''httpunary: carrier missing ResponseHeaderReader''), c, s)
      else
        (case ua_status ca of
           Inl e \<Rightarrow> (Inl e, c, unary_mark_bad c s)
         | Inr st \<Rightarrow>
             (case ua_headers ca of
                Inl e \<Rightarrow> (Inl e, c, unary_mark_bad c s)
              | Inr hs \<Rightarrow>
                  let inMD = unary_decode_metadata hs in
                  (case unary_check_meta (uc_cfg c) inMD of
                     Some e \<Rightarrow> (Inl e, c, unary_mark_bad_unless_limit e c s)
                   | None \<Rightarrow>
                       unary_recv_body unmarshal st
                         (c\<lparr>uc_md := map_option (set_incoming_headers (Some inMD)) (uc_md c)\<rparr>) s))))"

definition unary_recv ::
    "json_unmarshal \<Rightarrow> unary_carrier \<Rightarrow> unary_call \<Rightarrow> client_session
     \<Rightarrow> (go_error + bytes) \<times> unary_call \<times> client_session" where
  "unary_recv unmarshal ca c s =
     (if uc_recving c then (Inl uerr_concurrent_recv, c, s)
      else if uc_closed c then (Inl uerr_call_closed, c, s)
      else if uc_initiator c \<and> uc_respSeen c then (Inl err_EOF, c, s)
      else if \<not> uc_initiator c \<and> uc_reqSent c then (Inl err_EOF, c, s)
      else if uc_initiator c then unary_recv_client unmarshal ca c s
      else unary_recv_server c s)"

definition unary_close :: "unary_call \<Rightarrow> client_session \<Rightarrow> unary_call \<times> client_session" where
  "unary_close c s =
     (if uc_closed c then (c, s)
      else
        let terminal = uc_sawTerminal c \<or> uc_finished c;
            c1 = c\<lparr>uc_closed := True, uc_wire := (if uc_localCar c then uc_wire c @ [UAbort] else uc_wire c)\<rparr>;
            s1 = (if uc_initiator c \<and> \<not> terminal then unary_mark_bad c s else s) in
        (c1, if uc_hasClient c then end_flight s1 else s1))"

definition unary_accept :: "rpc_method \<Rightarrow> go_error option" where
  "unary_accept m =
     (if method_is_zero m then Some (status_error InvalidArgument ''httpunary: zero Method'')
      else if m_shape m \<noteq> Unary then
        Some (status_error Unimplemented
          (''httpunary: shape '' @ nat_str (unat (m_shape m)) @ '' unsupported (only Unary)''))
      else None)"

section \<open>Sessions (session.go)\<close>

text \<open>
  What \<open>OpenStream\<close> answers: an error, or a carrier with the interfaces it has (byte stream, send
  closer, response header reader) and its two byte directions. The third component of the result
  tells whether a carrier was aborted on the way.
\<close>

record open_stream =
  os_bytes :: bool
  os_sendCloser :: bool
  os_headerReader :: bool
  os_body :: go_reader
  os_out :: go_writer

definition unary_on_stream ::
    "unary_framing \<Rightarrow> string \<Rightarrow> session_options \<Rightarrow> rpc_method \<Rightarrow> call_md option \<Rightarrow> go_error + open_stream
     \<Rightarrow> client_session \<Rightarrow> (go_error + unary_call) \<times> bool \<times> client_session" where
  "unary_on_stream fr codec cfg m md stream s =
     (case stream of
        Inl e \<Rightarrow>
          let s1 = end_flight s in
          (Inl e, False,
           if \<not> errors_is e ctx_Canceled \<and> \<not> errors_is e ctx_DeadlineExceeded then session_mark_bad s1 else s1)
      | Inr os \<Rightarrow>
          if \<not> os_bytes os then
            (Inl (ErrNew ''httpunary: OpenStream Carrier is not ByteStreamCarrier''), True, end_flight s)
          else if \<not> os_sendCloser os then
            (Inl (ErrNew ''httpunary: OpenStream Carrier missing SendCloser''), True, end_flight s)
          else if \<not> os_headerReader os then
            (Inl (ErrNew ''httpunary: OpenStream Carrier missing ResponseHeaderReader''), True, end_flight s)
          else
            (Inr (fresh_unary True (m_fullName m) md cfg codec fr (os_body os) (os_out os)), False, s))"

definition unary_open_call ::
    "unary_framing \<Rightarrow> string \<Rightarrow> session_options \<Rightarrow> go_error option \<Rightarrow> (http_preface \<Rightarrow> go_error + open_stream)
     \<Rightarrow> rpc_method \<Rightarrow> call_md option \<Rightarrow> client_session
     \<Rightarrow> (go_error + unary_call) \<times> bool \<times> call_md option \<times> client_session" where
  "unary_open_call fr codec cfg ctxErr openStream m md s =
     (if method_is_zero m then (Inl (status_error InvalidArgument ''httpunary: zero Method''), False, md, s)
      else if m_shape m \<noteq> Unary then
        (Inl (status_error Unimplemented
           (''httpunary: shape '' @ nat_str (unat (m_shape m)) @ '' unsupported (only Unary)'')), False, md, s)
      else
        (case ctxErr of
           Some e \<Rightarrow> (Inl e, False, md, s)
         | None \<Rightarrow>
             if gs_closed s \<or> \<not> gs_reusable s then
               (Inl (status_error Unavailable ''httpunary: session not reusable''), False, md, s)
             else
               let s1 = s\<lparr>gs_inFlight := gs_inFlight s + 1\<rparr>;
                   outgoing = (case md of None \<Rightarrow> [] | Some d \<Rightarrow> outgoingHeaders d);
                   md1 = map_option freeze_outgoing_headers md in
               (case unary_build_preface (uf_router fr) m codec outgoing of
                  Inl e \<Rightarrow> (Inl e, False, md1, end_flight s1)
                | Inr preface \<Rightarrow>
                    (case unary_on_stream fr codec cfg m md1 (openStream preface) s1 of
                       (r, aborted, s2) \<Rightarrow> (r, aborted, md1, s2)))))"

text \<open>
  \<open>AcceptCall\<close>. The request is the method, target and headers of the carrier, None when it cannot
  report them; \<open>isBytes\<close> and \<open>isUnary\<close> tell which other interfaces it has.
\<close>

definition unary_accept_call ::
    "unary_framing \<Rightarrow> binding list \<Rightarrow> string \<Rightarrow> session_options \<Rightarrow> go_error option
     \<Rightarrow> (string \<times> string \<times> headers) option \<Rightarrow> bool \<Rightarrow> bool \<Rightarrow> go_reader \<Rightarrow> go_writer \<Rightarrow> call_md option
     \<Rightarrow> server_session \<Rightarrow> unary_call option \<times> go_error option \<times> server_session" where
  "unary_accept_call fr order codec cfg ctxErr req isBytes isUnary body out md s =
     (case ctxErr of
        Some e \<Rightarrow> (None, Some e, s)
      | None \<Rightarrow>
          if ss_closed s then (None, Some err_EOF, s)
          else if ss_accepted s then (None, Some err_EOF, s)
          else
            let s1 = s\<lparr>ss_accepted := True\<rparr> in
            (case req of
               None \<Rightarrow> (None, Some (ErrNew ''httpunary: server Carrier missing RequestHeaderReader''), s1)
             | Some (httpMethod, target, hs) \<Rightarrow>
                 if \<not> isBytes then
                   (None, Some (ErrNew ''httpunary: server Carrier is not ByteStreamCarrier''), s1)
                 else if \<not> isUnary then
                   (None, Some (ErrNew ''httpunary: server Carrier missing UnaryResponseWriter''), s1)
                 else
                   let newServerCall = (\<lambda>name md. fresh_unary False name md cfg codec fr body out) in
                   (case unary_resolve_accept (uf_router fr) order httpMethod target (unary_decode_metadata hs) of
                      (Inl e, _) \<Rightarrow> (Some (newServerCall [] md), Some e, s1)
                    | (Inr fullName, inMD) \<Rightarrow>
                        (case unary_check_meta cfg inMD of
                           Some e \<Rightarrow> (Some (newServerCall fullName md), Some (unary_reject e), s1)
                         | None \<Rightarrow>
                             (Some (newServerCall fullName (map_option (set_incoming_headers (Some inMD)) md)),
                              None, s1)))))"

end
