(* ===== verification/Unary_Props.thy ===== *)
theory Unary_Props
  imports Unary_Route_Props Unary_Call Call_Session
begin

text \<open>
  What the calls of the unary HTTP transport guarantee: one response per call, an exact count of the
  calls on a session, and that the client reads what the server answered.
\<close>

datatype unary_op =
    USend bytes
  | UHalfClose unary_carrier
  | UFinish unary_carrier "go_error option"
  | URecv unary_carrier
  | UClose

fun unary_step ::
    "json_marshal \<Rightarrow> json_unmarshal \<Rightarrow> unary_op \<Rightarrow> unary_call \<times> client_session \<Rightarrow> unary_call \<times> client_session" where
  "unary_step ma un (USend p) (c, s) = (snd (unary_send p c), s)"
| "unary_step ma un (UHalfClose ca) (c, s) = snd (unary_half_close ca c s)"
| "unary_step ma un (UFinish ca e) (c, s) = snd (unary_finish ma ca e c s)"
| "unary_step ma un (URecv ca) (c, s) = snd (unary_recv un ca c s)"
| "unary_step ma un UClose (c, s) = unary_close c s"

section \<open>The session\<close>

definition unary_quiet :: "unary_call \<Rightarrow> client_session \<Rightarrow> unary_call \<times> client_session \<Rightarrow> bool" where
  "unary_quiet c s r \<longleftrightarrow>
     uc_closed (fst r) = uc_closed c \<and> uc_hasClient (fst r) = uc_hasClient c
     \<and> uc_initiator (fst r) = uc_initiator c \<and> session_worse (snd r) s"

lemmas unary_quiet_defs = unary_quiet_def unary_mark_bad_def unary_mark_bad_unless_limit_def

lemma unary_failed_quiet:
  "uc_closed c' = uc_closed c \<Longrightarrow> uc_hasClient c' = uc_hasClient c \<Longrightarrow> uc_initiator c' = uc_initiator c
   \<Longrightarrow> unary_quiet c s (snd (unary_send_failed e c' s))"
  by (auto simp: unary_send_failed_def unary_quiet_defs)

lemma unary_half_close_quiet: "unary_quiet c s (snd (unary_half_close ca c s))"
proof -
  obtain werr w where w: "(if (case uc_reqBuf c of None \<Rightarrow> [] | Some b \<Rightarrow> b) \<noteq> []
      then go_write (uc_writer c) (case uc_reqBuf c of None \<Rightarrow> [] | Some b \<Rightarrow> b) else (None, uc_writer c)) = (werr, w)"
    by fastforce
  have q: "unary_quiet c s (c, s)" "unary_quiet c s (c\<lparr>uc_halfClosed := True, uc_writer := w\<rparr>, s)"
    "unary_quiet c s (c\<lparr>uc_halfClosed := True, uc_writer := w, uc_wire := ev\<rparr>, s)" for ev
    by (simp_all add: unary_quiet_def)
  have f: "unary_quiet c s (snd (unary_send_failed e (c\<lparr>uc_halfClosed := True, uc_writer := w\<rparr>) s))" for e
    by (rule unary_failed_quiet) simp_all
  show ?thesis
    unfolding unary_half_close_def Let_def w by (simp add: q f split: option.split)
qed

lemma unary_finish_quiet: "unary_quiet c s (snd (unary_finish ma ca e c s))"
proof -
  obtain st ct body where r: "unary_response ma e c = (st, ct, body)" by (metis prod.collapse)
  have q: "unary_quiet c s (c, s)"
    "unary_quiet c s (c\<lparr>uc_md := m, uc_finished := True, uc_sawTerminal := True, uc_wire := ev\<rparr>, s)" for m ev
    by (simp_all add: unary_quiet_def)
  have f: "unary_quiet c s (snd (unary_send_failed x (c\<lparr>uc_md := m\<rparr>) s))" for x m
    by (rule unary_failed_quiet) simp_all
  show ?thesis
    unfolding unary_finish_def Let_def r by (simp add: q f split: option.split)
qed

lemma unary_recv_body_quiet: "unary_quiet c s (snd (unary_recv_body un st c s))"
  by (auto simp: unary_recv_body_def unary_quiet_defs Let_def split: sum.splits prod.splits)

lemma unary_recv_quiet: "unary_quiet c s (snd (unary_recv un ca c s))"
proof -
  have "unary_quiet c s (snd (unary_recv_body un st (c\<lparr>uc_md := m\<rparr>) s))" for st m
    using unary_recv_body_quiet [of "c\<lparr>uc_md := m\<rparr>" s un st] by (simp add: unary_quiet_def)
  then have "unary_quiet c s (snd (unary_recv_client un ca c s))"
    by (auto simp: unary_recv_client_def Let_def split: sum.split option.split) (auto simp: unary_quiet_defs)
  moreover have "unary_quiet c s (snd (unary_recv_server c s))"
    by (auto simp: unary_recv_server_def unary_quiet_defs split: sum.splits prod.splits)
  ultimately show ?thesis
    by (auto simp: unary_recv_def) (auto simp: unary_quiet_def)
qed

lemma unary_op_quiet: "op \<noteq> UClose \<Longrightarrow> unary_quiet c s (unary_step ma un op (c, s))"
proof (cases op)
  case (USend p)
  then show ?thesis by (auto simp: unary_send_def unary_quiet_def)
qed (simp_all add: unary_half_close_quiet unary_finish_quiet unary_recv_quiet)

lemma unary_closed_inert:
  "uc_closed c \<Longrightarrow> uc_initiator c \<Longrightarrow> unary_step ma un op (c, s) = (c, s)"
  by (cases op) (auto simp: unary_send_def unary_half_close_def unary_finish_def unary_recv_def unary_close_def)

type_synonym unary_open_args =
  "unary_framing \<times> string \<times> session_options \<times> go_error option
   \<times> (http_preface \<Rightarrow> go_error + open_stream) \<times> rpc_method \<times> call_md option"

fun unary_opens :: "unary_open_args \<Rightarrow> client_session \<Rightarrow> (go_error + unary_call) \<times> client_session" where
  "unary_opens (fr, codec, cfg, ce, os, m, md) s =
     (case unary_open_call fr codec cfg ce os m md s of (r, _, _, s') \<Rightarrow> (r, s'))"

abbreviation unary_owned :: "unary_call \<Rightarrow> bool" where
  "unary_owned c \<equiv> uc_hasClient c \<and> uc_initiator c"

abbreviation unary_ended :: "unary_call \<Rightarrow> bool" where
  "unary_ended c \<equiv> uc_sawTerminal c \<or> uc_finished c"

lemma unary_on_stream_effect:
  "case unary_on_stream fr codec cfg m md r (s\<lparr>gs_inFlight := gs_inFlight s + 1\<rparr>) of
     (x, _, s') \<Rightarrow> opened_well unary_owned uc_closed s (x, s')"
  by (cases r)
    (auto simp: unary_on_stream_def opened_well_def end_flight_def session_mark_bad_def fresh_unary_def Let_def)

lemma unary_opens_well: "opened_well unary_owned uc_closed s (unary_opens a s)"
proof -
  obtain fr codec cfg ce os m md where a: "a = (fr, codec, cfg, ce, os, m, md)" by (metis prod.collapse)
  show ?thesis
  proof (cases "method_is_zero m \<or> m_shape m \<noteq> Unary \<or> ce \<noteq> None \<or> gs_closed s \<or> \<not> gs_reusable s")
    case True
    then show ?thesis by (auto simp: a unary_open_call_def opened_well_def split: option.split)
  next
    case False
    let ?md = "map_option freeze_outgoing_headers md"
    show ?thesis
    proof (cases "unary_build_preface (uf_router fr) m codec (case md of None \<Rightarrow> [] | Some d \<Rightarrow> outgoingHeaders d)")
      case (Inl e)
      with False show ?thesis by (simp add: a unary_open_call_def opened_well_def end_flight_def Let_def)
    next
      case (Inr p)
      obtain x ab s' where on: "unary_on_stream fr codec cfg m ?md (os p) (s\<lparr>gs_inFlight := gs_inFlight s + 1\<rparr>)
          = (x, ab, s')"
        by (metis prod.collapse)
      with unary_on_stream_effect [of s fr codec cfg m ?md "os p"] have "opened_well unary_owned uc_closed s (x, s')"
        by simp
      with False Inr on show ?thesis by (simp add: a unary_open_call_def Let_def)
    qed
  qed
qed

interpretation unary_session: session_calls unary_owned uc_closed unary_ended "unary_step ma un" unary_opens for ma un
proof unfold_locales
  fix c :: unary_call and s op c' s'
  assume o: "unary_owned c" and st: "unary_step ma un op (c, s) = (c', s')"
  have q: "op \<noteq> UClose \<Longrightarrow> unary_quiet c s (c', s')" using unary_op_quiet [of op c s ma un] st by simp
  have cl: "unary_close c s = (c', s')" if "op = UClose" using st that by simp
  show "unary_owned c'"
    using q cl o by (cases "op = UClose") (auto simp: unary_quiet_def unary_close_def Let_def split: if_splits)
  show "session_worse s' s" if "\<not> uc_closed c" "\<not> uc_closed c'"
    using q cl that by (cases "op = UClose") (auto simp: unary_quiet_def unary_close_def Let_def split: if_splits)
  show "s' = end_flight (if unary_ended c' then s else session_mark_bad s)" if "\<not> uc_closed c" "uc_closed c'"
    using q cl o that
    by (cases "op = UClose")
      (auto simp: unary_quiet_def unary_close_def unary_mark_bad_def Let_def split: if_splits)
qed (use unary_closed_inert unary_opens_well in auto)

lemma unary_session_flight_exact:
  "let w = run_steps (sess_step (unary_step ma un) unary_opens) es session_start in
     gs_inFlight (sw_session w) = int (length (filter (\<lambda>c. \<not> uc_closed c) (sw_calls w)))
     \<and> (if list_ex (\<lambda>c. uc_closed c \<and> \<not> (uc_sawTerminal c \<or> uc_finished c)) (sw_calls w)
        then \<not> session_reusable (sw_session w) else True)"
  by (rule unary_session.flight_exact)

section \<open>One response\<close>

definition is_response :: "unary_event \<Rightarrow> bool" where
  "is_response ev \<longleftrightarrow> (case ev of UResponse _ _ _ \<Rightarrow> True | _ \<Rightarrow> False)"

definition unary_resp_inv :: "unary_call \<Rightarrow> bool" where
  "unary_resp_inv c \<longleftrightarrow>
     \<not> uc_initiator c \<and> \<not> uc_localCar c
     \<and> (if uc_finished c then length (uc_wire c) = 1 \<and> list_all is_response (uc_wire c) else uc_wire c = [])"

definition same_reply :: "unary_call \<Rightarrow> unary_call \<Rightarrow> bool" where
  "same_reply c' c \<longleftrightarrow> uc_initiator c' = uc_initiator c \<and> uc_localCar c' = uc_localCar c
     \<and> uc_finished c' = uc_finished c \<and> uc_wire c' = uc_wire c"

lemma unary_recv_same: "\<not> uc_initiator c \<Longrightarrow> same_reply (fst (snd (unary_recv un ca c s))) c"
  by (auto simp: unary_recv_def unary_recv_server_def same_reply_def split: sum.splits prod.splits)

lemma unary_step_resp:
  assumes "unary_resp_inv c"
  shows "unary_resp_inv (fst (unary_step ma un op (c, s)))"
proof (cases op)
  case (UFinish ca e)
  obtain st ct body where r: "unary_response ma e c = (st, ct, body)" by (metis prod.collapse)
  show ?thesis
    using assms unfolding UFinish unary_step.simps unary_finish_def Let_def r
    by (auto simp: unary_resp_inv_def unary_send_failed_def is_response_def split: option.split)
next
  case (URecv ca)
  with assms unary_recv_same [of c un ca s] show ?thesis by (auto simp: unary_resp_inv_def same_reply_def)
qed (use assms in \<open>auto simp: unary_resp_inv_def unary_send_def unary_half_close_def unary_close_def Let_def\<close>)

interpretation unary_responder: invariant_machine "unary_step ma un" "\<lambda>cs. unary_resp_inv (fst cs)" for ma un
proof unfold_locales
  fix cs :: "unary_call \<times> client_session" and op
  assume "unary_resp_inv (fst cs)"
  from unary_step_resp [OF this, of ma un op "snd cs"] show "unary_resp_inv (fst (unary_step ma un op cs))"
    by simp
qed

section \<open>The exchange\<close>

text \<open>What the client's carrier presents of a response.\<close>

fun reply_carrier :: "unary_event \<Rightarrow> unary_carrier" where
  "reply_carrier (UResponse st hs _) =
     \<lparr>ua_unaryWriter = False, ua_writeResponse = (\<lambda>_ _ _. None), ua_sendCloser = True, ua_closeSend = None,
      ua_headerReader = True, ua_status = Inr st, ua_headers = Inr hs\<rparr>"
| "reply_carrier _ =
     \<lparr>ua_unaryWriter = False, ua_writeResponse = (\<lambda>_ _ _. None), ua_sendCloser = True, ua_closeSend = None,
      ua_headerReader = True, ua_status = Inl err_EOF, ua_headers = Inl err_EOF\<rparr>"

fun reply_body :: "unary_event \<Rightarrow> bytes" where
  "reply_body (UResponse _ _ b) = b"
| "reply_body _ = []"

definition read_bound :: "session_options \<Rightarrow> int" where
  "read_bound cfg = (if so_MaxMessageSize cfg \<le> 0 then 4194304 else so_MaxMessageSize cfg)"

definition accepts_response :: "unary_carrier \<Rightarrow> bool" where
  "accepts_response ca \<longleftrightarrow> ua_unaryWriter ca \<and> ua_writeResponse ca = (\<lambda>_ _ _. None)"

lemma read_limited_reader:
  "0 \<le> limit \<Longrightarrow> fst (read_all_limited (reader b) limit)
     = (if int (length b) \<le> limit then Inr b
        else Inl (status_error ResourceExhausted (''httpunary: message exceeds max size '' @ itoa limit)))"
  by (auto simp: read_all_limited_def read_all_def limit_reader_def reader_def Let_def)

lemma finish_written:
  assumes "\<not> uc_initiator c" "\<not> uc_closed c" "\<not> uc_finished c" "uc_wire c = []" "accepts_response ca"
    and "unary_response ma err c = (st, ct, body)"
  shows "\<exists>c2 hs. unary_finish ma ca err c s = (None, c2, s) \<and> uc_wire c2 = [UResponse st hs body]"
  using assms unfolding unary_finish_def Let_def assms(6)
  by (simp add: accepts_response_def)

lemma recv_fresh:
  assumes "so_MaxInboundMetadataSize cfg \<le> 0"
  shows "\<exists>c. unary_recv un (reply_carrier (UResponse st hs b)) (fresh_unary True m md cfg codec fr (reader b) out) s
           = unary_recv_body un st c s \<and> uc_body c = reader b \<and> recv_limit c = read_bound cfg"
  using assms
  by (auto simp: unary_recv_def unary_recv_client_def fresh_unary_def unary_check_meta_def recv_limit_def
      read_bound_def Let_def)

lemma recv_success:
  assumes "uc_body c = reader b"
  shows "\<exists>c'. unary_recv_body un http_ok c s
           = ((if int (length b) \<le> recv_limit c then Inr b
               else Inl (status_error ResourceExhausted (''httpunary: message exceeds max size '' @ itoa (recv_limit c)))),
              c', s)"
proof -
  have "0 \<le> recv_limit c" by (simp add: recv_limit_def)
  from read_limited_reader [OF this, of b]
  show ?thesis
    using assms
    by (auto simp: unary_recv_body_def unary_mark_bad_unless_limit_def Let_def split: prod.splits)
qed

lemma recv_error:
  assumes "uc_body c = reader b" "st \<noteq> http_ok" "length b \<le> max_error_body"
  shows "\<exists>c' x. unary_recv_body un st c s = (Inl x, c', s)
           \<and> (if int (length b) \<le> recv_limit c then x = decode_error_body un b (from_http st)
              else code_of (Some x) = ResourceExhausted)"
proof -
  let ?l = "if int max_error_body < recv_limit c then int max_error_body else recv_limit c"
  have "0 \<le> ?l" by (simp add: recv_limit_def)
  from read_limited_reader [OF this, of b] assms show ?thesis
    by (auto simp: unary_recv_body_def unary_mark_bad_unless_limit_def status_error_def Let_def
        split: prod.splits if_splits)
qed

lemma encode_error_short: "length (encode_error_body ma err) \<le> max_error_body"
  by (auto simp: encode_error_body_def max_error_body_def Let_def split: option.split)


definition demo_json :: json_marshal where
  "demo_json x = (if x = (5, ''gone'') then Some ''j'' else None)"

definition demo_json_read :: json_unmarshal where
  "demo_json_read b = (if b = ''j'' then Some (5, ''gone'') else None)"

definition demo_unary_carrier :: unary_carrier where
  "demo_unary_carrier = \<lparr>ua_unaryWriter = True, ua_writeResponse = (\<lambda>_ _ _. None), ua_sendCloser = True,
     ua_closeSend = None, ua_headerReader = False, ua_status = Inl err_EOF, ua_headers = Inl err_EOF\<rparr>"

definition demo_unary_cfg :: session_options where
  "demo_unary_cfg =
     \<lparr>so_MaxMessageSize = 100, so_MaxFrameSize = 0, so_MaxMetadataSize = 0, so_MaxInboundMetadataSize = 0,
      so_ReadAheadMessages = 0, so_OpenTimeout = 0, so_MaxDrainBytes = 0\<rparr>"


end
