(* ===== verification/Unary_Link.thy ===== *)
theory Unary_Link
  imports Unary_Props Grpc_Link
begin

text \<open>
  The unary HTTP transport behind the transport interfaces (src/transport/httpunary/link.go): its
  construction, and what becomes of a rejected request. The adapters of a session to the pool and to
  the server are the same code as in the gRPC transport and are shared with it.
\<close>

record 'p unary_transport =
  ut_tr :: 'p
  ut_fr :: "unary_framing option"
  ut_codecName :: string
  ut_options :: session_options
  ut_pool :: pool_options
  ut_conn :: "pool option"
  ut_restCfg :: "rest_config option"

datatype unary_option =
    UWithCodecName string
  | UWithLimits transport_limits
  | UWithREST rest_config
  | UWithPool int int int int
  | UWithHandshakeTimeout int

fun apply_unary_option :: "unary_option \<Rightarrow> 'p unary_transport \<Rightarrow> 'p unary_transport" where
  "apply_unary_option (UWithCodecName n) a = (if n \<noteq> [] then a\<lparr>ut_codecName := n\<rparr> else a)"
| "apply_unary_option (UWithLimits l) a = a\<lparr>ut_options := from_limits l\<rparr>"
| "apply_unary_option (UWithREST c) a = a\<lparr>ut_restCfg := Some c\<rparr>"
| "apply_unary_option (UWithPool per idle idleTimeout lifetime) a =
     a\<lparr>ut_pool := (ut_pool a)\<lparr>MaxSessionsPerEndpoint := per, MaxIdleSessions := idle,
                              SessionIdleTimeout := idleTimeout, MaxSessionLifetime := lifetime\<rparr>\<rparr>"
| "apply_unary_option (UWithHandshakeTimeout d) a =
     (if 0 < d then a\<lparr>ut_pool := (ut_pool a)\<lparr>HandshakeTimeout := d\<rparr>\<rparr> else a)"

definition new_unary_transport :: "'p \<Rightarrow> unary_option option list \<Rightarrow> go_error + 'p unary_transport" where
  "new_unary_transport http1 opts =
     (let a = fold (\<lambda>opt a. case opt of None \<Rightarrow> a | Some x \<Rightarrow> apply_unary_option x a) opts
                \<lparr>ut_tr = http1, ut_fr = None, ut_codecName = ''json'', ut_options = default_session_options,
                 ut_pool = default_pool_options, ut_conn = None, ut_restCfg = None\<rparr> in
      case (case ut_restCfg a of Some c \<Rightarrow> new_rest c | None \<Rightarrow> Inr new_rpc) of
        Inl e \<Rightarrow> Inl e
      | Inr fr \<Rightarrow>
          let pool = (ut_pool a)\<lparr>MaxCallsPerConn := -1\<rparr> in
          Inr (a\<lparr>ut_fr := Some fr, ut_pool := pool, ut_conn := Some (new_pool pool)\<rparr>))"

definition unary_limits :: "'p unary_transport \<Rightarrow> transport_limits" where
  "unary_limits a = to_limits (ut_options a)"

definition unary_pool_limits :: "'p unary_transport \<Rightarrow> pool_limits" where
  "unary_pool_limits a = to_pool_limits (case ut_conn a of None \<Rightarrow> ut_pool a | Some p \<Rightarrow> p_cfg p)"

definition unary_transport_close ::
    "go_error option \<Rightarrow> 'p unary_transport \<Rightarrow> go_error option \<times> 'p unary_transport" where
  "unary_transport_close trErr a = (trErr, a\<lparr>ut_conn := map_option pool_close (ut_conn a)\<rparr>)"

section \<open>Rejected requests\<close>

lemma unary_reject_rejection: "unary_reject (status_error c m) = rejection c m"
  by (simp add: unary_reject_def rejection_def)

lemma path_matches_order: "fst (path_matches bs path md) = filter (\<lambda>b. match_pattern (bn_Pattern b) path \<noteq> None) bs"
  by (induction bs arbitrary: md) (auto split: option.split prod.split, metis fst_conv)

text \<open>Why a request is rejected, as a status code.\<close>

definition reject_code :: "unary_router \<Rightarrow> binding list \<Rightarrow> string \<Rightarrow> code" where
  "reject_code rt order target =
     (case rt of
        RPCRouter \<Rightarrow> (case unary_parse_path target of Inl _ \<Rightarrow> InvalidArgument | Inr _ \<Rightarrow> ResourceExhausted)
      | RESTRouter _ \<Rightarrow>
          if filter (\<lambda>b. match_pattern (bn_Pattern b) (path_only target) \<noteq> None) order = [] then NotFound
          else Unimplemented)"

lemma resolve_rejects:
  assumes "unary_resolve_accept rt order hm target md = (Inl e, md')"
  shows "\<exists>m. e = rejection (reject_code rt order target) m"
proof (cases rt)
  case RPCRouter
  with assms show ?thesis
    by (auto simp: unary_resolve_accept_def rpc_resolve_accept_def reject_code_def unary_reject_rejection
        split: sum.splits prod.splits)
next
  case (RESTRouter r)
  obtain ms md1 where pm: "path_matches order (path_only target) md = (ms, md1)" by fastforce
  then have f: "filter (\<lambda>b. match_pattern (bn_Pattern b) (path_only target) \<noteq> None) order = ms"
    using path_matches_order [of order "path_only target" md] by simp
  show ?thesis
  proof (cases ms)
    case Nil
    with assms pm show ?thesis
      unfolding RESTRouter reject_code_def f unary_router.case
      by (auto simp: RESTRouter unary_resolve_accept_def rest_resolve_accept_def unary_reject_rejection Let_def)
  next
    case (Cons b bs)
    with assms pm show ?thesis
      unfolding RESTRouter reject_code_def f unary_router.case
      by (auto simp: RESTRouter unary_resolve_accept_def rest_resolve_accept_def unary_reject_rejection Let_def
          split: option.splits if_splits)
  qed
qed

text \<open>
  A request the unary transport rejects is finished by the server's accept loop with a status that
  says why, and the loop goes on: a path that is no method or no route, a verb no binding has, or
  more metadata than allowed.
\<close>

lemma unary_rejected_answered:
  assumes "unary_accept_call fr order codec cfg None (Some (hm, target, hs)) True True body out md s
             = (Some call, Some e, s')"
  shows "\<exists>m. accept_loop ocfg name conc (AcceptFailed (link_accept_err e) (Some sc) dn aged # as)
           = (CReject [KFinish (Some (status_error
                (case fst (unary_resolve_accept (uf_router fr) order hm target (unary_decode_metadata hs)) of
                   Inl _ \<Rightarrow> reject_code (uf_router fr) order target | Inr _ \<Rightarrow> ResourceExhausted) m)), KClose]
              # fst (accept_loop ocfg name conc as), snd (accept_loop ocfg name conc as))"
proof -
  obtain r md' where r: "unary_resolve_accept (uf_router fr) order hm target (unary_decode_metadata hs) = (r, md')"
    by fastforce
  have "\<exists>m. e = rejection (case r of Inl _ \<Rightarrow> reject_code (uf_router fr) order target
      | Inr _ \<Rightarrow> ResourceExhausted) m"
  proof (cases r)
    case (Inl x)
    with assms r have "e = x" by (auto simp: unary_accept_call_def Let_def split: if_splits)
    with resolve_rejects [of "uf_router fr" order hm target "unary_decode_metadata hs" x md'] r Inl
    show ?thesis by simp
  next
    case (Inr n)
    with assms r show ?thesis
      by (auto simp: unary_accept_call_def unary_check_meta_def unary_reject_rejection Let_def
          split: if_splits option.splits)
  qed
  then obtain m where m: "e = rejection (case r of Inl _ \<Rightarrow> reject_code (uf_router fr) order target
      | Inr _ \<Rightarrow> ResourceExhausted) m" ..
  show ?thesis unfolding m r fst_conv accept_loop_rejects by blast
qed

end
