(* ===== verification/Http_Server.thy ===== *)
theory Http_Server
  imports Unary_Call Grpc_End_To_End
begin

text \<open>
  The server side of the HTTP carriers (src/transport/http2/server.go and
  src/transport/http1/server.go): one inbound request, its control state, and what it does to the
  \<open>http.ResponseWriter\<close>. Every method holds the mutex from its first test to its last effect, except
  the HTTP/2 \<open>Write\<close>, which is two steps: the test, and the write to the response. The return of
  the handler takes no mutex and can fall inside an \<open>Abort\<close>, which is therefore two sections too.
\<close>

section \<open>The response writer of net/http\<close>

text \<open>
  \<open>rw_header\<close> is the header map as the list of \<open>Add\<close> calls; the first \<open>WriteHeader\<close> (explicit, or
  implied by a body write) fixes the status and the headers so far. Once the handler has returned the
  writer is retired. \<open>rw_misuse\<close> counts what net/http does not allow: a second \<open>WriteHeader\<close>, and any
  call on a retired writer, which panics.
\<close>

record resp_writer =
  rw_header :: headers
  rw_sent :: "(int \<times> headers) option"
  rw_body :: bytes
  rw_retired :: bool
  rw_misuse :: nat

definition new_writer :: resp_writer where
  "new_writer = \<lparr>rw_header = [], rw_sent = None, rw_body = [], rw_retired = False, rw_misuse = 0\<rparr>"

definition rw_write_header :: "int \<Rightarrow> resp_writer \<Rightarrow> resp_writer" where
  "rw_write_header st w =
     (if rw_retired w \<or> rw_sent w \<noteq> None then w\<lparr>rw_misuse := rw_misuse w + 1\<rparr>
      else w\<lparr>rw_sent := Some (st, rw_header w)\<rparr>)"

text \<open>A body write that the connection may fail (\<open>fail\<close>, with the bytes that got through).\<close>

definition rw_write :: "(nat \<times> go_error) option \<Rightarrow> bytes \<Rightarrow> resp_writer \<Rightarrow> go_error option \<times> resp_writer" where
  "rw_write fail p w =
     (if rw_retired w then (None, w\<lparr>rw_misuse := rw_misuse w + 1\<rparr>)
      else
        let w1 = (if rw_sent w = None then rw_write_header http_ok w else w) in
        (case fail of
           None \<Rightarrow> (None, w1\<lparr>rw_body := rw_body w1 @ p\<rparr>)
         | Some (k, e) \<Rightarrow> (Some e, w1\<lparr>rw_body := rw_body w1 @ take k p\<rparr>)))"

definition apply_headers :: "headers \<Rightarrow> resp_writer \<Rightarrow> resp_writer" where
  "apply_headers hs w = w\<lparr>rw_header := rw_header w @ hs\<rparr>"

definition trailer_prefix :: string where "trailer_prefix = ''Trailer:''"

text \<open>
  The response the peer receives once the handler has returned: status and headers as they were
  fixed, the body, and as trailers the headers added later under \<open>http.TrailerPrefix\<close>.
\<close>

definition peer_view :: "resp_writer \<Rightarrow> int \<times> headers \<times> bytes \<times> headers" where
  "peer_view w =
     (let (st, hs) = (case rw_sent w of Some x \<Rightarrow> x | None \<Rightarrow> (http_ok, rw_header w)) in
      (st, hs, rw_body w,
       List.map_filter (\<lambda>(n, v). if has_prefix n trailer_prefix then Some (trim_prefix n trailer_prefix, v) else None)
         (drop (length hs) (rw_header w))))"

section \<open>HTTP/2\<close>

record h2_carrier =
  h2_headersWritten :: bool
  h2_finished :: bool
  h2_aborted :: bool
  h2_handlerDone :: bool
  h2_bodyClosed :: bool
  h2_connClosed :: bool
  h2_w :: resp_writer

definition err_h2_aborted :: go_error where "err_h2_aborted = ErrVar ''http2: aborted''"
definition err_h2_headers_written :: go_error where "err_h2_headers_written = ErrVar ''http2: headers already written''"
definition err_h2_finished :: go_error where "err_h2_finished = ErrVar ''http2: already finished''"

definition new_h2_carrier :: h2_carrier where
  "new_h2_carrier = \<lparr>h2_headersWritten = False, h2_finished = False, h2_aborted = False, h2_handlerDone = False,
     h2_bodyClosed = False, h2_connClosed = False, h2_w = new_writer\<rparr>"

text \<open>The first section of \<open>Write\<close>: an error, or leave to write.\<close>

definition h2_write_check :: "h2_carrier \<Rightarrow> go_error option \<times> h2_carrier" where
  "h2_write_check c =
     (if h2_aborted c \<or> h2_finished c then (Some err_h2_aborted, c)
      else (None, c\<lparr>h2_headersWritten := True\<rparr>))"

definition h2_write_body :: "(nat \<times> go_error) option \<Rightarrow> bytes \<Rightarrow> h2_carrier \<Rightarrow> go_error option \<times> h2_carrier" where
  "h2_write_body fail p c = (case rw_write fail p (h2_w c) of (e, w) \<Rightarrow> (e, c\<lparr>h2_w := w\<rparr>))"

definition h2_write :: "(nat \<times> go_error) option \<Rightarrow> bytes \<Rightarrow> h2_carrier \<Rightarrow> go_error option \<times> h2_carrier" where
  "h2_write fail p c =
     (case h2_write_check c of
        (Some e, c1) \<Rightarrow> (Some e, c1)
      | (None, c1) \<Rightarrow> h2_write_body fail p c1)"

definition h2_write_headers :: "int \<Rightarrow> headers \<Rightarrow> h2_carrier \<Rightarrow> go_error option \<times> h2_carrier" where
  "h2_write_headers st hs c =
     (if h2_aborted c then (Some err_h2_aborted, c)
      else if h2_headersWritten c \<or> h2_finished c then (Some err_h2_headers_written, c)
      else (None, c\<lparr>h2_w := rw_write_header st (apply_headers hs (h2_w c)), h2_headersWritten := True\<rparr>))"

definition h2_finish :: "int \<Rightarrow> headers \<Rightarrow> headers \<Rightarrow> h2_carrier \<Rightarrow> go_error option \<times> h2_carrier" where
  "h2_finish st initial trailers c =
     (if h2_aborted c then (Some err_h2_aborted, c)
      else if h2_finished c then (Some err_h2_finished, c)
      else if \<not> h2_headersWritten c then
        (None, c\<lparr>h2_w := rw_write_header st (apply_headers trailers (apply_headers initial (h2_w c))),
                 h2_headersWritten := True, h2_finished := True\<rparr>)
      else
        (None, c\<lparr>h2_w := apply_headers (map (\<lambda>(n, v). (trailer_prefix @ n, v)) trailers) (h2_w c),
                 h2_finished := True\<rparr>))"

text \<open>\<open>Abort\<close>: up to the test of \<open>handlerDone\<close>, which says whether a status is written, and the write.\<close>

definition h2_abort_test :: "h2_carrier \<Rightarrow> bool \<times> h2_carrier" where
  "h2_abort_test c =
     (if h2_aborted c then (False, c)
      else (\<not> h2_headersWritten c \<and> \<not> h2_finished c \<and> \<not> h2_handlerDone c,
            c\<lparr>h2_aborted := True, h2_bodyClosed := True\<rparr>))"

definition h2_abort_write :: "h2_carrier \<Rightarrow> h2_carrier" where
  "h2_abort_write c = c\<lparr>h2_w := rw_write_header 408 (h2_w c), h2_headersWritten := True, h2_finished := True\<rparr>"

definition h2_abort :: "h2_carrier \<Rightarrow> h2_carrier" where
  "h2_abort c = (case h2_abort_test c of (wr, c1) \<Rightarrow> if wr then h2_abort_write c1 else c1)"

definition h2_conn_close :: "h2_carrier \<Rightarrow> bool \<times> h2_carrier" where
  "h2_conn_close c = (if h2_connClosed c then (False, c) else h2_abort_test (c\<lparr>h2_connClosed := True\<rparr>))"

text \<open>The handler returns: the carrier is told, and net/http retires the writer.\<close>

definition h2_handler_done :: "h2_carrier \<Rightarrow> h2_carrier" where
  "h2_handler_done c = c\<lparr>h2_handlerDone := True, h2_w := (h2_w c)\<lparr>rw_retired := True\<rparr>\<rparr>"

section \<open>HTTP/1\<close>

record h1_carrier =
  h1_buf :: bytes
  h1_finished :: bool
  h1_aborted :: bool
  h1_handlerDone :: bool
  h1_w :: resp_writer

definition err_h1_aborted :: go_error where "err_h1_aborted = ErrVar ''http1: aborted''"
definition err_h1_finished :: go_error where "err_h1_finished = ErrVar ''http1: already finished''"

definition h1_write :: "bytes \<Rightarrow> h1_carrier \<Rightarrow> go_error option \<times> h1_carrier" where
  "h1_write p c =
     (if h1_aborted c \<or> h1_finished c then (Some err_h1_aborted, c) else (None, c\<lparr>h1_buf := h1_buf c @ p\<rparr>))"

definition h1_write_response ::
    "(nat \<times> go_error) option \<Rightarrow> int \<Rightarrow> headers \<Rightarrow> bytes \<Rightarrow> h1_carrier \<Rightarrow> go_error option \<times> h1_carrier" where
  "h1_write_response fail st hs body c =
     (if h1_aborted c then (Some err_h1_aborted, c)
      else if h1_finished c then (Some err_h1_finished, c)
      else
        let w = rw_write_header st (apply_headers hs (h1_w c));
            (e, w1) = (if body \<noteq> [] then rw_write fail body w else (None, w)) in
        (e, c\<lparr>h1_w := w1, h1_finished := True, h1_buf := []\<rparr>))"

definition h1_abort_test :: "h1_carrier \<Rightarrow> bool \<times> h1_carrier" where
  "h1_abort_test c =
     (if h1_aborted c then (False, c)
      else (\<not> h1_finished c \<and> \<not> h1_handlerDone c, c\<lparr>h1_aborted := True\<rparr>))"

definition h1_abort_write :: "h1_carrier \<Rightarrow> h1_carrier" where
  "h1_abort_write c = c\<lparr>h1_w := rw_write_header 408 (h1_w c), h1_finished := True\<rparr>"

definition h1_abort :: "h1_carrier \<Rightarrow> h1_carrier" where
  "h1_abort c = (case h1_abort_test c of (wr, c1) \<Rightarrow> if wr then h1_abort_write c1 else c1)"

definition h1_handler_done :: "h1_carrier \<Rightarrow> h1_carrier" where
  "h1_handler_done c = c\<lparr>h1_handlerDone := True, h1_w := (h1_w c)\<lparr>rw_retired := True\<rparr>\<rparr>"

section \<open>Concurrent use of an HTTP/2 carrier\<close>

text \<open>
  The methods of one carrier called by any goroutines in any order. \<open>hw_writing\<close> are the writers
  between the two sections of \<open>Write\<close>; \<open>hw_aborting\<close> says that an \<open>Abort\<close> is between its test and its
  write, with the mutex held, so that no other locked section runs. The handler returns after it
  closed the connection and with no write under way, which is how the server's \<open>onConn\<close> ends.
  \<open>hw_raced\<close> records that it did so while an \<open>Abort\<close> of another goroutine was between its sections.
\<close>

record h2_world =
  hw_c :: h2_carrier
  hw_writing :: "nat list"
  hw_aborting :: bool
  hw_raced :: bool

definition h2_start :: h2_world where
  "h2_start = \<lparr>hw_c = new_h2_carrier, hw_writing = [], hw_aborting = False, hw_raced = False\<rparr>"

datatype h2_event =
    HvWriteCheck nat
  | HvWriteBody nat "(nat \<times> go_error) option" bytes
  | HvWriteHeaders int headers
  | HvFinish int headers headers
  | HvAbort
  | HvConnClose
  | HvAbortWrite
  | HvHandlerDone

fun h2_step :: "h2_event \<Rightarrow> h2_world \<Rightarrow> h2_world" where
  "h2_step (HvWriteCheck t) w =
     (if hw_aborting w then w
      else
        case h2_write_check (hw_c w) of
          (Some _, _) \<Rightarrow> w
        | (None, c) \<Rightarrow> w\<lparr>hw_c := c, hw_writing := t # hw_writing w\<rparr>)"
| "h2_step (HvWriteBody t fail p) w =
     (if t \<in> set (hw_writing w)
      then w\<lparr>hw_c := snd (h2_write_body fail p (hw_c w)), hw_writing := remove1 t (hw_writing w)\<rparr> else w)"
| "h2_step (HvWriteHeaders st hs) w =
     (if hw_aborting w then w else w\<lparr>hw_c := snd (h2_write_headers st hs (hw_c w))\<rparr>)"
| "h2_step (HvFinish st i t) w =
     (if hw_aborting w then w else w\<lparr>hw_c := snd (h2_finish st i t (hw_c w))\<rparr>)"
| "h2_step HvAbort w =
     (if hw_aborting w then w
      else case h2_abort_test (hw_c w) of (wr, c) \<Rightarrow> w\<lparr>hw_c := c, hw_aborting := wr\<rparr>)"
| "h2_step HvConnClose w =
     (if hw_aborting w then w\<lparr>hw_c := (hw_c w)\<lparr>h2_connClosed := True\<rparr>\<rparr>
      else case h2_conn_close (hw_c w) of (wr, c) \<Rightarrow> w\<lparr>hw_c := c, hw_aborting := wr\<rparr>)"
| "h2_step HvAbortWrite w =
     (if hw_aborting w then w\<lparr>hw_c := h2_abort_write (hw_c w), hw_aborting := False\<rparr> else w)"
| "h2_step HvHandlerDone w =
     (if h2_connClosed (hw_c w) \<and> hw_writing w = [] \<and> \<not> h2_handlerDone (hw_c w)
      then w\<lparr>hw_c := h2_handler_done (hw_c w), hw_raced := hw_aborting w\<rparr> else w)"

definition has_sent :: "resp_writer \<Rightarrow> bool" where
  "has_sent w \<longleftrightarrow> rw_sent w \<noteq> None"

definition h2_inv :: "h2_world \<Rightarrow> bool" where
  "h2_inv w \<longleftrightarrow>
     (let c = hw_c w; r = h2_w c in
      rw_retired r = h2_handlerDone c
      \<and> (if h2_connClosed c then h2_aborted c else True)
      \<and> (if hw_aborting w then
           h2_aborted c \<and> \<not> has_sent r \<and> \<not> h2_headersWritten c \<and> \<not> h2_finished c \<and> hw_writing w = []
           \<and> rw_misuse r = 0 \<and> hw_raced w = h2_handlerDone c
         else if hw_raced w then
           h2_aborted c \<and> h2_headersWritten c \<and> hw_writing w = [] \<and> rw_misuse r = 1 \<and> h2_handlerDone c
         else
           rw_misuse r = 0 \<and> h2_headersWritten c = (has_sent r \<or> hw_writing w \<noteq> [])
           \<and> (if h2_aborted c \<or> h2_finished c then h2_headersWritten c else True)
           \<and> (if h2_handlerDone c then h2_aborted c \<and> hw_writing w = [] else True)))"

lemma has_sent_simps [simp]:
  "has_sent (w\<lparr>rw_retired := b\<rparr>) = has_sent w"
  "has_sent (apply_headers hs w) = has_sent w"
  "rw_retired (apply_headers hs w) = rw_retired w"
  "rw_misuse (apply_headers hs w) = rw_misuse w"
  "rw_body (apply_headers hs w) = rw_body w"
  by (simp_all add: has_sent_def apply_headers_def)

lemma write_header_simps [simp]:
  "rw_retired (rw_write_header st w) = rw_retired w"
  "has_sent (rw_write_header st w) \<longleftrightarrow> has_sent w \<or> \<not> rw_retired w"
  "rw_misuse (rw_write_header st w) = (if rw_retired w \<or> has_sent w then rw_misuse w + 1 else rw_misuse w)"
  "rw_body (rw_write_header st w) = rw_body w"
  by (auto simp: has_sent_def rw_write_header_def)

lemma rw_write_live:
  "\<not> rw_retired w \<Longrightarrow> rw_misuse (snd (rw_write fail p w)) = rw_misuse w
     \<and> has_sent (snd (rw_write fail p w)) \<and> rw_retired (snd (rw_write fail p w)) = rw_retired w"
  by (auto simp: rw_write_def rw_write_header_def has_sent_def Let_def split: option.split)

lemma h2_step_inv:
  assumes i: "h2_inv w"
  shows "h2_inv (h2_step e w)"
proof (cases e)
  case (HvWriteBody t fail p)
  show ?thesis
  proof (cases "t \<in> set (hw_writing w)")
    case True
    then have "\<not> rw_retired (h2_w (hw_c w))" using i by (auto simp: h2_inv_def Let_def split: if_splits)
    from rw_write_live [OF this, of fail p] True i show ?thesis
      by (auto simp: HvWriteBody h2_inv_def h2_write_body_def Let_def case_prod_beta split: if_splits)
  qed (use i in \<open>simp add: HvWriteBody\<close>)
next
  case (HvWriteCheck t)
  with i show ?thesis
    by (cases "hw_aborting w"; cases "hw_raced w"; cases "h2_aborted (hw_c w)"; cases "h2_headersWritten (hw_c w)")
      (simp_all add: h2_inv_def h2_write_check_def Let_def split: if_splits)
next
  case (HvWriteHeaders st hs)
  with i show ?thesis
    by (cases "hw_aborting w"; cases "hw_raced w"; cases "h2_aborted (hw_c w)"; cases "h2_headersWritten (hw_c w)")
      (simp_all add: h2_inv_def h2_write_headers_def Let_def split: if_splits)
next
  case (HvFinish st hs ts)
  with i show ?thesis
    by (cases "hw_aborting w"; cases "hw_raced w"; cases "h2_aborted (hw_c w)"; cases "h2_headersWritten (hw_c w)")
      (simp_all add: h2_inv_def h2_finish_def Let_def split: if_splits)
next
  case HvAbort
  with i show ?thesis
    by (cases "hw_aborting w"; cases "hw_raced w"; cases "h2_aborted (hw_c w)"; cases "h2_headersWritten (hw_c w)")
      (simp_all add: h2_inv_def h2_abort_test_def Let_def split: if_splits)
next
  case HvConnClose
  with i show ?thesis
    by (cases "hw_aborting w"; cases "hw_raced w"; cases "h2_aborted (hw_c w)"; cases "h2_headersWritten (hw_c w)")
      (simp_all add: h2_inv_def h2_conn_close_def h2_abort_test_def Let_def split: if_splits)
next
  case HvAbortWrite
  with i show ?thesis
    by (cases "hw_aborting w"; cases "hw_raced w"; cases "h2_aborted (hw_c w)"; cases "h2_headersWritten (hw_c w)")
      (simp_all add: h2_inv_def h2_abort_write_def Let_def split: if_splits)
next
  case HvHandlerDone
  show ?thesis
  proof (cases "h2_connClosed (hw_c w) \<and> hw_writing w = [] \<and> \<not> h2_handlerDone (hw_c w)")
    case True
    then show ?thesis using i
      by (cases "hw_aborting w") (auto simp: HvHandlerDone h2_inv_def h2_handler_done_def Let_def split: if_split_asm)
  qed (use i HvHandlerDone in \<open>simp only: h2_step.simps if_False\<close>)
qed

interpretation h2_machine: invariant_machine h2_step h2_inv
  by unfold_locales (rule h2_step_inv)

lemma h2_run_inv: "h2_inv (run_steps h2_step es h2_start)"
  by (rule h2_machine.run_inv) (simp add: h2_inv_def has_sent_def h2_start_def new_h2_carrier_def new_writer_def)


text \<open>
  The race is reachable. The transport's shutdown closes the connection of a request that has
  written nothing and is about to write 408; the request's handler closes the connection as well,
  which returns at once without the mutex, and returns; \<open>WriteHeader\<close> is then called on the retired
  writer, which panics in the goroutine of the shutdown.
\<close>

lemma h2_abort_after_handler:
  "rw_misuse (h2_w (hw_c (run_steps h2_step [HvConnClose, HvConnClose, HvHandlerDone, HvAbortWrite] h2_start))) = 1"
  by (simp add: h2_start_def new_h2_carrier_def new_writer_def h2_conn_close_def h2_abort_test_def
      h2_handler_done_def h2_abort_write_def rw_write_header_def)

section \<open>A gRPC response over HTTP/2\<close>

fun h2_writes :: "bytes list \<Rightarrow> h2_carrier \<Rightarrow> go_error option \<times> h2_carrier" where
  "h2_writes [] c = (None, c)"
| "h2_writes (p # ps) c =
     (case h2_write None p c of (Some e, c1) \<Rightarrow> (Some e, c1) | (None, c1) \<Rightarrow> h2_writes ps c1)"

text \<open>
  What a gRPC responder makes of its carrier: optionally the headers, then the body in any chunks,
  then the end.
\<close>

fun h2_respond :: "wire_event list \<Rightarrow> bytes list \<Rightarrow> h2_carrier \<Rightarrow> go_error option \<times> h2_carrier" where
  "h2_respond [WHeaders st hs, WFinish st' i t] ps c =
     (case h2_write_headers st hs c of
        (Some e, c1) \<Rightarrow> (Some e, c1)
      | (None, c1) \<Rightarrow>
          (case h2_writes ps c1 of
             (Some e, c2) \<Rightarrow> (Some e, c2)
           | (None, c2) \<Rightarrow> h2_finish st' i t c2))"
| "h2_respond [WFinish st i t] ps c = h2_finish st i t c"
| "h2_respond _ _ c = (Some err_h2_aborted, c)"

lemma h2_writes_ok:
  assumes "\<not> h2_aborted c" "\<not> h2_finished c" "h2_headersWritten c" "\<not> rw_retired (h2_w c)" "rw_sent (h2_w c) \<noteq> None"
  shows "h2_writes ps c = (None, c\<lparr>h2_w := (h2_w c)\<lparr>rw_body := rw_body (h2_w c) @ concat ps\<rparr>\<rparr>)"
  using assms
proof (induction ps arbitrary: c)
  case (Cons p ps)
  let ?c = "c\<lparr>h2_w := (h2_w c)\<lparr>rw_body := rw_body (h2_w c) @ p\<rparr>\<rparr>"
  have e: "c\<lparr>h2_headersWritten := True\<rparr> = c" using Cons.prems(3) by (cases c) simp
  have "h2_write None p c = (None, ?c)"
    using Cons.prems by (auto simp: h2_write_def h2_write_check_def h2_write_body_def rw_write_def e Let_def)
  moreover have "h2_writes ps ?c = (None, ?c\<lparr>h2_w := (h2_w ?c)\<lparr>rw_body := rw_body (h2_w ?c) @ concat ps\<rparr>\<rparr>)"
    by (rule Cons.IH) (use Cons.prems in simp_all)
  ultimately show ?case by simp
qed simp

lemma strip_trailers:
  "List.map_filter (\<lambda>(n, v). if has_prefix n trailer_prefix then Some (trim_prefix n trailer_prefix, v) else None)
     (map (\<lambda>(n, v). (trailer_prefix @ n, v)) ts) = ts"
  by (induction ts) (auto simp: has_prefix_append trim_prefix_append List.map_filter_simps)

lemma h2_delivers_blocks:
  "h2_respond [WHeaders st hs, WFinish st' i t] ps new_h2_carrier
     = (None, snd (h2_respond [WHeaders st hs, WFinish st' i t] ps new_h2_carrier))
   \<and> peer_view (h2_w (snd (h2_respond [WHeaders st hs, WFinish st' i t] ps new_h2_carrier))) = (st, hs, concat ps, t)
   \<and> h2_respond [WFinish st i t] [] new_h2_carrier = (None, snd (h2_respond [WFinish st i t] [] new_h2_carrier))
   \<and> peer_view (h2_w (snd (h2_respond [WFinish st i t] [] new_h2_carrier))) = (st, i @ t, [], [])"
proof -
  let ?w = "\<lparr>rw_header = hs, rw_sent = Some (st, hs), rw_body = [], rw_retired = False, rw_misuse = 0\<rparr>"
  let ?c1 = "new_h2_carrier\<lparr>h2_w := ?w, h2_headersWritten := True\<rparr>"
  have h: "h2_write_headers st hs new_h2_carrier = (None, ?c1)"
    by (simp add: h2_write_headers_def new_h2_carrier_def apply_headers_def rw_write_header_def new_writer_def)
  have b: "h2_writes ps ?c1 = (None, ?c1\<lparr>h2_w := ?w\<lparr>rw_body := concat ps\<rparr>\<rparr>)"
    using h2_writes_ok [of ?c1 ps] by (simp add: new_h2_carrier_def)
  show ?thesis
    by (simp add: h b) (simp add: h2_finish_def new_h2_carrier_def apply_headers_def new_writer_def
        rw_write_header_def peer_view_def strip_trailers List.map_filter_simps)
qed

section \<open>Concurrent use of an HTTP/1 carrier\<close>

record h1_world =
  vw_c :: h1_carrier
  vw_aborting :: bool
  vw_raced :: bool

datatype h1_event =
    H1Write bytes
  | H1Response "(nat \<times> go_error) option" int headers bytes
  | H1Abort
  | H1AbortWrite
  | H1HandlerDone

fun h1_step :: "h1_event \<Rightarrow> h1_world \<Rightarrow> h1_world" where
  "h1_step (H1Write p) w = (if vw_aborting w then w else w\<lparr>vw_c := snd (h1_write p (vw_c w))\<rparr>)"
| "h1_step (H1Response fail st hs b) w =
     (if vw_aborting w then w else w\<lparr>vw_c := snd (h1_write_response fail st hs b (vw_c w))\<rparr>)"
| "h1_step H1Abort w =
     (if vw_aborting w then w
      else case h1_abort_test (vw_c w) of (wr, c) \<Rightarrow> w\<lparr>vw_c := c, vw_aborting := wr\<rparr>)"
| "h1_step H1AbortWrite w =
     (if vw_aborting w then w\<lparr>vw_c := h1_abort_write (vw_c w), vw_aborting := False\<rparr> else w)"
| "h1_step H1HandlerDone w =
     (if h1_aborted (vw_c w) \<and> \<not> h1_handlerDone (vw_c w)
      then w\<lparr>vw_c := h1_handler_done (vw_c w), vw_raced := vw_aborting w\<rparr> else w)"

definition new_h1_carrier :: h1_carrier where
  "new_h1_carrier = \<lparr>h1_buf = [], h1_finished = False, h1_aborted = False, h1_handlerDone = False, h1_w = new_writer\<rparr>"

definition h1_start :: h1_world where
  "h1_start = \<lparr>vw_c = new_h1_carrier, vw_aborting = False, vw_raced = False\<rparr>"

definition h1_inv :: "h1_world \<Rightarrow> bool" where
  "h1_inv w \<longleftrightarrow>
     (let c = vw_c w; r = h1_w c in
      rw_retired r = h1_handlerDone c
      \<and> (if h1_finished c then True else rw_body r = [])
      \<and> (if vw_aborting w then
           h1_aborted c \<and> \<not> has_sent r \<and> \<not> h1_finished c \<and> rw_misuse r = 0 \<and> vw_raced w = h1_handlerDone c
         else if vw_raced w then h1_aborted c \<and> h1_finished c \<and> rw_misuse r = 1 \<and> h1_handlerDone c
         else
           rw_misuse r = 0 \<and> h1_finished c = has_sent r
           \<and> (if h1_aborted c then h1_finished c else \<not> h1_handlerDone c)))"

lemma h1_response_inv:
  assumes "h1_inv w" "\<not> vw_aborting w"
  shows "h1_inv (w\<lparr>vw_c := snd (h1_write_response fail st hs b (vw_c w))\<rparr>)"
proof (cases "h1_aborted (vw_c w) \<or> h1_finished (vw_c w)")
  case True
  then have "snd (h1_write_response fail st hs b (vw_c w)) = vw_c w" by (auto simp: h1_write_response_def)
  with assms show ?thesis by simp
next
  case False
  let ?c = "vw_c w"
  let ?w = "rw_write_header st (apply_headers hs (h1_w ?c))"
  have live: "\<not> rw_retired (h1_w ?c)" "\<not> has_sent (h1_w ?c)" "rw_misuse (h1_w ?c) = 0" "\<not> vw_raced w"
      "\<not> h1_handlerDone ?c"
    using assms False unfolding h1_inv_def Let_def by (metis, metis, metis, metis, metis)
  then have w: "rw_misuse ?w = 0" "has_sent ?w" "\<not> rw_retired ?w" by simp_all
  obtain e1 w1 where w1: "(if b \<noteq> [] then rw_write fail b ?w else (None, ?w)) = (e1, w1)" by fastforce
  then have "rw_misuse w1 = 0 \<and> has_sent w1 \<and> \<not> rw_retired w1"
    using w rw_write_live [OF w(3), of fail b] by (auto split: if_splits)
  moreover have "snd (h1_write_response fail st hs b ?c) = ?c\<lparr>h1_w := w1, h1_finished := True, h1_buf := []\<rparr>"
    using False unfolding h1_write_response_def Let_def w1 by simp
  ultimately show ?thesis using assms False live by (simp add: h1_inv_def Let_def)
qed

lemma h1_step_inv:
  assumes i: "h1_inv w"
  shows "h1_inv (h1_step e w)"
proof (cases e)
  case (H1Response fail st hs b)
  with i show ?thesis by (simp add: h1_response_inv)
qed (use i in \<open>cases "vw_aborting w"; cases "vw_raced w"; auto simp: h1_inv_def h1_write_def h1_abort_test_def h1_abort_write_def h1_handler_done_def
      Let_def split: if_splits\<close>)+

interpretation h1_machine: invariant_machine h1_step h1_inv
  by unfold_locales (rule h1_step_inv)

text \<open>
  The HTTP/1 carrier commits one response: what \<open>Write\<close> buffered never reaches the wire, a status
  is sent at most once and, but for the same race, never after the handler returned.
\<close>

lemma h1_writer_respected:
  "let w = run_steps h1_step es h1_start; c = vw_c w in
     rw_misuse (h1_w c) = (if vw_raced w \<and> \<not> vw_aborting w then 1 else 0)
     \<and> (if vw_raced w then True else h1_finished c = (rw_sent (h1_w c) \<noteq> None))
     \<and> (if h1_finished c then True else rw_body (h1_w c) = [])"
proof -
  have "h1_inv (run_steps h1_step es h1_start)"
    by (rule h1_machine.run_inv) (simp add: h1_inv_def has_sent_def h1_start_def new_h1_carrier_def new_writer_def)
  then show ?thesis unfolding h1_inv_def has_sent_def Let_def by (auto split: if_splits)
qed

end
