(* ===== verification/Http_Client.thy ===== *)
theory Http_Client
  imports Streams
begin

text \<open>
  The client side of the HTTP carriers (src/transport/http2/client.go and its twin in http1, which
  has the same sections, no trailers and errors of its own name: \<open>pkg\<close>): an endpoint handle that
  tracks its streams in a map, and one exchange per stream. The round trip runs on its own goroutine
  and races with \<open>Abort\<close> and with the close of the handle; the steps below are the sections between
  which other goroutines may run. The URL parser and the body pipe are arguments.
\<close>

section \<open>One exchange\<close>

text \<open>
  \<open>cl_ready\<close> says that the channel \<open>ready\<close> is closed, which \<open>finishOnce\<close> does together with recording
  the outcome. A response is known by a number.
\<close>

record cl_carrier =
  cl_hasBody :: bool
  cl_ready :: bool
  cl_resp :: "nat option"
  cl_respErr :: "go_error option"
  cl_aborted :: bool
  cl_tracked :: bool
  cl_sendClosed :: bool
  cl_cancelled :: bool
  cl_bodyClosed :: bool

definition err_aborted :: "string \<Rightarrow> go_error" where "err_aborted pkg = ErrVar (pkg @ '': aborted'')"
definition err_no_request_body :: "string \<Rightarrow> go_error" where
  "err_no_request_body pkg = ErrVar (pkg @ '': request has no body'')"

definition new_cl_carrier :: "string \<Rightarrow> cl_carrier" where
  "new_cl_carrier httpMethod =
     \<lparr>cl_hasBody = (httpMethod \<noteq> ''GET'' \<and> httpMethod \<noteq> ''HEAD''), cl_ready = False, cl_resp = None,
      cl_respErr = None, cl_aborted = False, cl_tracked = False, cl_sendClosed = False,
      cl_cancelled = False, cl_bodyClosed = False\<rparr>"

definition cl_finish :: "nat option \<Rightarrow> go_error option \<Rightarrow> cl_carrier \<Rightarrow> bool \<times> cl_carrier" where
  "cl_finish resp err c =
     (if cl_ready c then (False, c)
      else
        let c1 = c\<lparr>cl_resp := resp, cl_respErr := err, cl_ready := True\<rparr> in
        (True, if err \<noteq> None then c1\<lparr>cl_tracked := False\<rparr> else c1))"

text \<open>None while \<open>waitReady\<close> blocks, otherwise its result.\<close>

definition cl_wait_ready :: "string \<Rightarrow> cl_carrier \<Rightarrow> go_error option option" where
  "cl_wait_ready pkg c =
     (if \<not> cl_ready c then None
      else Some (case cl_respErr c of
                   Some e \<Rightarrow> Some e
                 | None \<Rightarrow> if cl_resp c = None then Some (err_aborted pkg) else None))"

definition cl_send_err :: "go_error option \<Rightarrow> cl_carrier \<Rightarrow> go_error option" where
  "cl_send_err err c =
     (if err = None then None
      else if cl_aborted c then wrap_send_error err False
      else if cl_respErr c \<noteq> None \<and> cl_resp c = None then wrap_send_error err False
      else wrap_send_error err True)"

text \<open>The HTTP/1 carrier asks first whether a response can still come; the verdict is the same.\<close>

definition cl_receive_open :: "cl_carrier \<Rightarrow> bool" where
  "cl_receive_open c = (if cl_aborted c then False else \<not> (cl_respErr c \<noteq> None \<and> cl_resp c = None))"

lemma cl_send_err_open: "cl_send_err err c = wrap_send_error err (cl_receive_open c)"
  by (cases err; cases "cl_resp c"; cases "cl_respErr c")
    (simp_all add: cl_send_err_def cl_receive_open_def wrap_send_error_def cong: if_cong option.case_cong)

definition cl_write :: "string \<Rightarrow> go_error option \<Rightarrow> cl_carrier \<Rightarrow> go_error option" where
  "cl_write pkg pipeErr c =
     (if \<not> cl_hasBody c then cl_send_err (Some (err_no_request_body pkg)) c else cl_send_err pipeErr c)"

definition cl_close_send :: "go_error option \<Rightarrow> cl_carrier \<Rightarrow> go_error option \<times> cl_carrier" where
  "cl_close_send pipeErr c =
     (if cl_sendClosed c then (None, c)
      else if \<not> cl_hasBody c then (None, c\<lparr>cl_sendClosed := True\<rparr>)
      else (cl_send_err pipeErr c, c\<lparr>cl_sendClosed := True\<rparr>))"

text \<open>The end of the body, an error of it, or the read of the trailers: body closed, no longer tracked.\<close>

definition cl_body_end :: "string \<Rightarrow> cl_carrier \<Rightarrow> cl_carrier" where
  "cl_body_end pkg c =
     (if cl_wait_ready pkg c = Some None then c\<lparr>cl_bodyClosed := True, cl_tracked := False\<rparr> else c)"

text \<open>
  \<open>Abort\<close>: the first section marks the carrier and reads the response; the second cancels the
  request, closes the body it saw and records the abort as the outcome if there is none yet.
\<close>

definition cl_abort_begin :: "cl_carrier \<Rightarrow> nat option option \<times> cl_carrier" where
  "cl_abort_begin c = (if cl_aborted c then (None, c) else (Some (cl_resp c), c\<lparr>cl_aborted := True\<rparr>))"

definition cl_abort_end :: "string \<Rightarrow> nat option \<Rightarrow> cl_carrier \<Rightarrow> cl_carrier" where
  "cl_abort_end pkg resp c =
     (let c1 = c\<lparr>cl_cancelled := True, cl_bodyClosed := (cl_bodyClosed c \<or> resp \<noteq> None)\<rparr>;
          c2 = snd (cl_finish None (Some (err_aborted pkg)) c1) in
      c2\<lparr>cl_tracked := False\<rparr>)"

definition dial_base_url :: "string \<Rightarrow> bool \<Rightarrow> string" where
  "dial_base_url endpoint preferHTTPS =
     (if has_prefix endpoint ''http://'' \<or> has_prefix endpoint ''https://''
      then rev (dropWhile (\<lambda>c. c = CHR ''/'') (rev endpoint))
      else (if preferHTTPS then ''https'' else ''http'') @ ''://'' @ endpoint)"

section \<open>The endpoint handle\<close>

text \<open>
  Streams are numbered in the order they are opened. A stream is \<^emph>\<open>opening\<close> between the first closed
  test of \<open>OpenStream\<close> and the section that tracks it; \<open>sw_aborting\<close> are the aborts between their two
  sections, \<open>sw_deleting\<close> the deletions from the map that are still to be made. \<open>sw_map\<close> is None
  once \<open>Close\<close> has taken the map; a write to it then would panic.
\<close>

record stream_world =
  sw_closed :: bool
  sw_map :: "nat list option"
  sw_cars :: "cl_carrier list"
  sw_opening :: "nat list"
  sw_refused :: "nat list"
  sw_collecting :: bool
  sw_todo :: "nat list"
  sw_aborting :: "(nat \<times> nat option) list"
  sw_deleting :: "nat list"
  sw_panicked :: bool

definition stream_start :: stream_world where
  "stream_start = \<lparr>sw_closed = False, sw_map = Some [], sw_cars = [], sw_opening = [], sw_refused = [],
     sw_collecting = False, sw_todo = [], sw_aborting = [], sw_deleting = [], sw_panicked = False\<rparr>"

datatype stream_event =
    SvOpen string
  | SvTrack nat
  | SvRoundTrip nat "nat option" "go_error option"
  | SvBodyEnd nat
  | SvAbortBegin nat
  | SvAbortEnd nat "nat option"
  | SvDelete nat
  | SvCloseSwap
  | SvCloseCollect

text \<open>
  Install a changed carrier; when it stopped being tracked, its deletion from the map is to be made.
\<close>

definition put_carrier :: "nat \<Rightarrow> cl_carrier \<Rightarrow> stream_world \<Rightarrow> stream_world" where
  "put_carrier i c w =
     w\<lparr>sw_cars := (sw_cars w)[i := c],
       sw_deleting := (if cl_tracked (sw_cars w ! i) \<and> \<not> cl_tracked c then i # sw_deleting w else sw_deleting w)\<rparr>"

fun sv_step :: "string \<Rightarrow> stream_event \<Rightarrow> stream_world \<Rightarrow> stream_world" where
  "sv_step pkg (SvOpen m) w =
     (if sw_closed w then w
      else w\<lparr>sw_cars := sw_cars w @ [new_cl_carrier m], sw_opening := length (sw_cars w) # sw_opening w\<rparr>)"
| "sv_step pkg (SvTrack i) w =
     (if i \<notin> set (sw_opening w) then w
      else
        let w1 = w\<lparr>sw_opening := remove1 i (sw_opening w)\<rparr> in
        if sw_closed w then
          w1\<lparr>sw_cars := (sw_cars w)[i := (sw_cars w ! i)\<lparr>cl_cancelled := True\<rparr>], sw_refused := i # sw_refused w\<rparr>
        else
          (case sw_map w of
             None \<Rightarrow> w1\<lparr>sw_panicked := True\<rparr>
           | Some m \<Rightarrow>
               w1\<lparr>sw_map := Some (i # m), sw_cars := (sw_cars w)[i := (sw_cars w ! i)\<lparr>cl_tracked := True\<rparr>]\<rparr>))"
| "sv_step pkg (SvRoundTrip i resp err) w =
     (if i < length (sw_cars w) \<and> i \<notin> set (sw_opening w) \<and> i \<notin> set (sw_refused w)
      then put_carrier i (snd (cl_finish resp err (sw_cars w ! i))) w else w)"
| "sv_step pkg (SvBodyEnd i) w =
     (if i < length (sw_cars w) \<and> i \<notin> set (sw_opening w) \<and> i \<notin> set (sw_refused w)
      then put_carrier i (cl_body_end pkg (sw_cars w ! i)) w else w)"
| "sv_step pkg (SvAbortBegin i) w =
     (if i < length (sw_cars w) \<and> i \<notin> set (sw_opening w) \<and> i \<notin> set (sw_refused w) then
        (let w1 = w\<lparr>sw_todo := remove1 i (sw_todo w)\<rparr> in
         case cl_abort_begin (sw_cars w ! i) of
           (None, _) \<Rightarrow> w1
         | (Some resp, c) \<Rightarrow> w1\<lparr>sw_cars := (sw_cars w)[i := c], sw_aborting := (i, resp) # sw_aborting w\<rparr>)
      else w)"
| "sv_step pkg (SvAbortEnd i resp) w =
     (if (i, resp) \<in> set (sw_aborting w)
      then put_carrier i (cl_abort_end pkg resp (sw_cars w ! i)) (w\<lparr>sw_aborting := remove1 (i, resp) (sw_aborting w)\<rparr>)
      else w)"
| "sv_step pkg (SvDelete i) w =
     (if i \<in> set (sw_deleting w)
      then w\<lparr>sw_deleting := remove1 i (sw_deleting w), sw_map := map_option (remove1 i) (sw_map w)\<rparr> else w)"
| "sv_step pkg SvCloseSwap w = (if sw_closed w then w else w\<lparr>sw_closed := True, sw_collecting := True\<rparr>)"
| "sv_step pkg SvCloseCollect w =
     (if \<not> sw_collecting w then w
      else w\<lparr>sw_collecting := False, sw_map := None, sw_todo := (case sw_map w of None \<Rightarrow> [] | Some m \<Rightarrow> m)\<rparr>)"

section \<open>No stream outlives the handle\<close>

definition map_set :: "stream_world \<Rightarrow> nat set" where
  "map_set w = (case sw_map w of None \<Rightarrow> {} | Some m \<Rightarrow> set m)"

definition sw_index :: "stream_world \<Rightarrow> bool" where
  "sw_index w \<longleftrightarrow>
     set (sw_opening w) \<union> set (sw_refused w) \<union> set (sw_deleting w) \<union> fst ` set (sw_aborting w) \<union> map_set w
       \<subseteq> {..<length (sw_cars w)}
     \<and> distinct (sw_opening w) \<and> distinct (sw_deleting w)
     \<and> (case sw_map w of None \<Rightarrow> True | Some m \<Rightarrow> distinct m)"

definition sw_flags :: "stream_world \<Rightarrow> bool" where
  "sw_flags w \<longleftrightarrow> \<not> sw_panicked w \<and> (sw_collecting w \<longrightarrow> sw_closed w)
     \<and> (sw_map w = None \<longleftrightarrow> sw_closed w \<and> \<not> sw_collecting w)"

text \<open>
  One carrier as the handle sees it: opening, refused, to be deleted from the map, being aborted, on
  the list of \<open>Close\<close>, in the map, and whether the map is gone.
\<close>

definition car_good :: "cl_carrier \<Rightarrow> bool \<Rightarrow> bool \<Rightarrow> bool \<Rightarrow> bool \<Rightarrow> bool \<Rightarrow> bool \<Rightarrow> bool \<Rightarrow> bool" where
  "car_good c opening refused deleting aborting todo inMap gone \<longleftrightarrow>
     (if opening then
        \<not> cl_tracked c \<and> \<not> cl_aborted c \<and> \<not> refused \<and> \<not> deleting \<and> \<not> aborting \<and> \<not> inMap
      else if refused then \<not> cl_tracked c \<and> cl_cancelled c \<and> \<not> deleting \<and> \<not> aborting \<and> \<not> inMap
      else if cl_tracked c then
        \<not> deleting \<and> (if gone then todo \<or> cl_aborted c else inMap) \<and> (cl_aborted c \<longrightarrow> aborting)
      else cl_ready c \<and> (gone \<or> (inMap \<longleftrightarrow> deleting)))"

definition car_ok :: "stream_world \<Rightarrow> nat \<Rightarrow> bool" where
  "car_ok w i \<longleftrightarrow>
     car_good (sw_cars w ! i) (i \<in> set (sw_opening w)) (i \<in> set (sw_refused w)) (i \<in> set (sw_deleting w))
       (i \<in> fst ` set (sw_aborting w)) (i \<in> set (sw_todo w)) (i \<in> map_set w) (sw_map w = None)"

definition sw_inv :: "stream_world \<Rightarrow> bool" where
  "sw_inv w \<longleftrightarrow> sw_flags w \<and> sw_index w \<and> (\<forall>i < length (sw_cars w). car_ok w i)"

lemma car_good_deleted: "car_good c op r True a t mp g \<Longrightarrow> car_good c op r False a t False g"
  by (cases op; cases r; cases "cl_tracked c") (simp_all add: car_good_def)

lemma car_good_aborted:
  "car_good c op r d True t mp g \<Longrightarrow> \<not> cl_tracked c' \<Longrightarrow> cl_ready c'
   \<Longrightarrow> car_good c' op r (if cl_tracked c then True else d) a t mp g"
  by (cases op; cases r; cases "cl_tracked c"; cases g) (simp_all add: car_good_def)

lemma fst_remove1: "j \<noteq> i \<Longrightarrow> j \<in> fst ` set (remove1 (i, r) xs) \<longleftrightarrow> j \<in> fst ` set xs"
  by (induction xs) (auto simp: image_iff)

lemma sw_start_inv: "sw_inv stream_start"
  by (simp add: sw_inv_def sw_flags_def sw_index_def stream_start_def map_set_def)

text \<open>A step that touches one carrier: the others keep their view, so that one is left to show.\<close>

lemma sw_inv_step:
  assumes "sw_inv w" "sw_flags w'" "sw_index w'" "length (sw_cars w') = length (sw_cars w)"
    and "\<And>j. j < length (sw_cars w) \<Longrightarrow> j \<noteq> i \<Longrightarrow> car_ok w' j = car_ok w j"
    and "i < length (sw_cars w) \<Longrightarrow> car_ok w i \<Longrightarrow> car_ok w' i"
  shows "sw_inv w'"
  using assms unfolding sw_inv_def by metis

lemma sv_open_inv: "sw_inv w \<Longrightarrow> sw_inv (sv_step pkg (SvOpen m) w)"
proof (cases "sw_closed w")
  case False
  let ?n = "length (sw_cars w)"
  assume w: "sw_inv w"
  have fresh: "?n \<notin> set (sw_opening w)" "?n \<notin> set (sw_refused w)" "?n \<notin> set (sw_deleting w)"
    "?n \<notin> fst ` set (sw_aborting w)" "?n \<notin> map_set w"
    using w unfolding sw_inv_def sw_index_def by auto
  have "car_ok (sv_step pkg (SvOpen m) w) j" if "j < Suc ?n" for j
    using w that fresh False
    by (cases "j = ?n") (auto simp: sw_inv_def car_ok_def car_good_def nth_append new_cl_carrier_def map_set_def)
  moreover have "sw_flags (sv_step pkg (SvOpen m) w)" using w False by (simp add: sw_inv_def sw_flags_def)
  moreover have "sw_index (sv_step pkg (SvOpen m) w)"
    using w fresh(1) False by (auto simp: sw_inv_def sw_index_def map_set_def subset_iff)
  ultimately show ?thesis using False by (simp add: sw_inv_def)
qed simp

lemma sv_track_inv:
  assumes w: "sw_inv w"
  shows "sw_inv (sv_step pkg (SvTrack i) w)"
proof (cases "i \<in> set (sw_opening w)")
  case True
  have ix: "sw_index w" and fl: "sw_flags w" and i: "i < length (sw_cars w)" and ok: "car_ok w i"
    using w True unfolding sw_inv_def sw_index_def by auto
  show ?thesis
  proof (cases "sw_closed w")
    case closed: True
    show ?thesis
    proof (rule sw_inv_step [where i = i, OF w])
      show "sw_flags (sv_step pkg (SvTrack i) w)" using fl True closed by (simp add: sw_flags_def)
      show "sw_index (sv_step pkg (SvTrack i) w)"
        using ix i True closed set_remove1_subset [of i "sw_opening w"] by (auto simp: sw_index_def map_set_def)
      show "car_ok (sv_step pkg (SvTrack i) w) i" using ok ix i True closed
        by (simp add: car_ok_def car_good_def map_set_def sw_index_def)
    qed (use True closed in \<open>simp_all add: car_ok_def map_set_def\<close>)
  next
    case False
    then obtain m where m: "sw_map w = Some m" using fl by (auto simp: sw_flags_def)
    then have out: "i \<notin> set m" using ok True by (simp add: car_ok_def car_good_def map_set_def)
    show ?thesis
    proof (rule sw_inv_step [where i = i, OF w])
      show "sw_flags (sv_step pkg (SvTrack i) w)" using fl True False m by (simp add: sw_flags_def)
      show "sw_index (sv_step pkg (SvTrack i) w)"
        using ix out i True False m set_remove1_subset [of i "sw_opening w"]
        by (auto simp: sw_index_def map_set_def)
      show "car_ok (sv_step pkg (SvTrack i) w) i" using ok ix i True False m
        by (simp add: car_ok_def car_good_def map_set_def sw_index_def)
    qed (use True False m in \<open>simp_all add: car_ok_def map_set_def\<close>)
  qed
qed (use w in simp)

lemma sv_delete_inv:
  assumes w: "sw_inv w"
  shows "sw_inv (sv_step pkg (SvDelete i) w)"
proof (cases "i \<in> set (sw_deleting w)")
  case True
  have ix: "sw_index w" and fl: "sw_flags w" and i: "i < length (sw_cars w)"
    using w True unfolding sw_inv_def sw_index_def by auto
  show ?thesis
  proof (rule sw_inv_step [where i = i, OF w])
    show "sw_flags (sv_step pkg (SvDelete i) w)" using fl True by (simp add: sw_flags_def)
    show "sw_index (sv_step pkg (SvDelete i) w)"
      using ix True set_remove1_subset [of i "sw_deleting w"] set_remove1_subset [of i "the (sw_map w)"]
      by (cases "sw_map w") (auto simp: sw_index_def map_set_def)
    show "car_ok (sv_step pkg (SvDelete i) w) i" if "car_ok w i"
    proof -
      have "i \<notin> map_set (sv_step pkg (SvDelete i) w)" "i \<notin> set (sw_deleting (sv_step pkg (SvDelete i) w))"
        using ix True by (auto simp: sw_index_def map_set_def split: option.splits)
      then show ?thesis
        using car_good_deleted [OF that [unfolded car_ok_def, unfolded eqTrueI [OF True]]] True by (simp add: car_ok_def)
    qed
    show "car_ok (sv_step pkg (SvDelete i) w) j = car_ok w j" if "j \<noteq> i" for j
      using True that by (cases "sw_map w") (simp_all add: car_ok_def map_set_def)
  qed (use True in simp)
qed (use w in simp)

lemma sv_close_inv: "sw_inv w \<Longrightarrow> sw_inv (sv_step pkg SvCloseSwap w)" "sw_inv w \<Longrightarrow> sw_inv (sv_step pkg SvCloseCollect w)"
proof -
  assume w: "sw_inv w"
  show "sw_inv (sv_step pkg SvCloseSwap w)"
    using w by (auto simp: sw_inv_def sw_flags_def sw_index_def car_ok_def map_set_def)
  show "sw_inv (sv_step pkg SvCloseCollect w)"
  proof (cases "sw_collecting w")
    case True
    then obtain m where m: "sw_map w = Some m" using w by (auto simp: sw_inv_def sw_flags_def)
    have "car_ok (sv_step pkg SvCloseCollect w) j" if "car_ok w j" for j
      using that True m by (simp add: car_ok_def car_good_def map_set_def split: if_splits)
    then show ?thesis using w True m by (simp add: sw_inv_def sw_flags_def sw_index_def map_set_def)
  qed (use w in simp)
qed

text \<open>The steps that change a carrier the handle has given out: the round trip, the body and the aborts.\<close>

lemma put_carrier_index:
  assumes "sw_index w" "i < length (sw_cars w)" "if cl_tracked (sw_cars w ! i) then i \<notin> set (sw_deleting w) else True"
  shows "sw_index (put_carrier i c w)"
  using assms by (simp add: sw_index_def map_set_def put_carrier_def)

lemma put_carrier_inv:
  assumes w: "sw_inv w" and i: "i < length (sw_cars w)" "i \<notin> set (sw_opening w)" "i \<notin> set (sw_refused w)"
    and c: "cl_aborted c = cl_aborted (sw_cars w ! i)"
      "if cl_tracked (sw_cars w ! i) then (if cl_tracked c then True else cl_ready c)
       else \<not> cl_tracked c \<and> (if cl_ready (sw_cars w ! i) then cl_ready c else True)"
  shows "sw_inv (put_carrier i c w)"
proof (rule sw_inv_step [where i = i, OF w])
  have ok: "car_ok w i" and ix: "sw_index w" and fl: "sw_flags w" using w i(1) by (auto simp: sw_inv_def)
  show "sw_flags (put_carrier i c w)" using fl by (simp add: sw_flags_def put_carrier_def)
  show "sw_index (put_carrier i c w)"
    by (rule put_carrier_index [OF ix i(1)]) (use ok i in \<open>simp add: car_ok_def car_good_def\<close>)
  show "car_ok (put_carrier i c w) i"
    using ok i c by (simp add: car_ok_def car_good_def map_set_def put_carrier_def split: if_splits)
qed (auto simp: car_ok_def map_set_def put_carrier_def)

lemma sv_use_inv:
  assumes w: "sw_inv w"
  shows "sw_inv (sv_step pkg (SvRoundTrip i resp err) w)" "sw_inv (sv_step pkg (SvBodyEnd i) w)"
  using w by (auto intro!: put_carrier_inv simp: cl_finish_def cl_body_end_def cl_wait_ready_def Let_def)

lemma sv_abort_begin_inv:
  assumes w: "sw_inv w"
  shows "sw_inv (sv_step pkg (SvAbortBegin i) w)"
proof (cases "i < length (sw_cars w) \<and> i \<notin> set (sw_opening w) \<and> i \<notin> set (sw_refused w)")
  case True
  have ok: "car_ok w i" and ix: "sw_index w" and fl: "sw_flags w" using w True by (auto simp: sw_inv_def)
  show ?thesis
  proof (cases "cl_aborted (sw_cars w ! i)")
    case ab: True
    show ?thesis
    proof (rule sw_inv_step [where i = i, OF w])
      show "car_ok (sv_step pkg (SvAbortBegin i) w) i"
        using ok True ab by (simp add: car_ok_def car_good_def map_set_def cl_abort_begin_def split: if_splits)
    qed (use fl ix True ab in \<open>simp_all add: sw_flags_def sw_index_def map_set_def car_ok_def cl_abort_begin_def\<close>)
  next
    case ab: False
    show ?thesis
    proof (rule sw_inv_step [where i = i, OF w])
      show "car_ok (sv_step pkg (SvAbortBegin i) w) i"
        using ok True ab by (simp add: car_ok_def car_good_def map_set_def cl_abort_begin_def split: if_splits)
    qed (use fl ix True ab in \<open>simp_all add: sw_flags_def sw_index_def map_set_def car_ok_def cl_abort_begin_def\<close>)
  qed
qed (use w in auto)

lemma sv_abort_end_inv:
  assumes w: "sw_inv w"
  shows "sw_inv (sv_step pkg (SvAbortEnd i resp) w)"
proof (cases "(i, resp) \<in> set (sw_aborting w)")
  case True
  let ?w = "w\<lparr>sw_aborting := remove1 (i, resp) (sw_aborting w)\<rparr>"
  let ?c = "cl_abort_end pkg resp (sw_cars w ! i)"
  have ix: "sw_index w" and fl: "sw_flags w" using w by (auto simp: sw_inv_def)
  have mem: "i \<in> fst ` set (sw_aborting w)" using True by force
  then have i: "i < length (sw_cars w)" using ix by (auto simp: sw_index_def)
  then have ok: "car_ok w i" using w by (simp add: sw_inv_def)
  have c: "\<not> cl_tracked ?c" "cl_ready ?c" by (simp_all add: cl_abort_end_def cl_finish_def Let_def)
  have step: "sv_step pkg (SvAbortEnd i resp) w = put_carrier i ?c ?w" using True by simp
  show ?thesis unfolding step
  proof (rule sw_inv_step [where i = i, OF w])
    show "sw_flags (put_carrier i ?c ?w)" using fl by (simp add: sw_flags_def put_carrier_def)
    have "fst ` set (remove1 (i, resp) (sw_aborting w)) \<subseteq> fst ` set (sw_aborting w)"
      by (rule image_mono [OF set_remove1_subset])
    then have "sw_index ?w" using ix by (simp add: sw_index_def map_set_def) (meson order_trans)
    then show "sw_index (put_carrier i ?c ?w)"
      by (rule put_carrier_index) (use ok i mem in \<open>simp_all add: car_ok_def car_good_def split: if_splits\<close>)
    show "car_ok (put_carrier i ?c ?w) i"
      using car_good_aborted [OF ok [unfolded car_ok_def, unfolded eqTrueI [OF mem]] c] c(1) i
      by (cases "cl_tracked (sw_cars w ! i)") (simp_all add: car_ok_def map_set_def put_carrier_def)
  qed (simp_all add: car_ok_def map_set_def put_carrier_def fst_remove1)
qed (use w in simp)

interpretation stream_machine: invariant_machine "sv_step pkg" sw_inv for pkg
proof
  show "sw_inv (sv_step pkg e w)" if "sw_inv w" for w e
    by (cases e) (simp_all only: that sv_open_inv sv_track_inv sv_delete_inv sv_close_inv sv_use_inv
        sv_abort_begin_inv sv_abort_end_inv)
qed

lemma sw_run_inv: "sw_inv (run_steps (sv_step pkg) es stream_start)"
  by (rule stream_machine.run_inv) (rule sw_start_inv)

text \<open>
  The outcome of an exchange is recorded once: once \<open>ready\<close> is closed, no later step changes what
  \<open>waitReady\<close> returns.
\<close>

lemma cl_finish_once: "cl_ready c \<Longrightarrow> cl_finish r e c = (False, c)"
  by (simp add: cl_finish_def)

lemma cl_ops_wait [simp]:
  "cl_ready c \<Longrightarrow> cl_wait_ready pkg (cl_abort_end pkg r c) = cl_wait_ready pkg c"
  "cl_wait_ready pkg (cl_body_end pkg c) = cl_wait_ready pkg c"
  "cl_wait_ready pkg (c\<lparr>cl_aborted := b\<rparr>) = cl_wait_ready pkg c"
  "cl_wait_ready pkg (c\<lparr>cl_tracked := b\<rparr>) = cl_wait_ready pkg c"
  "cl_wait_ready pkg (c\<lparr>cl_cancelled := b\<rparr>) = cl_wait_ready pkg c"
  by (simp_all add: cl_abort_end_def cl_body_end_def cl_finish_def cl_wait_ready_def Let_def cong: if_cong option.case_cong)

lemma put_carrier_wait:
  "i < length (sw_cars w) \<Longrightarrow> cl_wait_ready pkg c = cl_wait_ready pkg (sw_cars w ! j)
   \<Longrightarrow> cl_wait_ready pkg (sw_cars (put_carrier j c w) ! i) = cl_wait_ready pkg (sw_cars w ! i)"
  by (cases "i = j") (simp_all add: put_carrier_def)

lemma sv_outcome_stable:
  assumes "i < length (sw_cars w)" "cl_ready (sw_cars w ! i)"
  shows "cl_wait_ready pkg (sw_cars (sv_step pkg e w) ! i) = cl_wait_ready pkg (sw_cars w ! i)"
proof (cases e)
  case (SvRoundTrip j r er)
  show ?thesis
  proof (cases "j = i")
    case True
    then show ?thesis using assms by (simp add: SvRoundTrip cl_finish_once put_carrier_wait)
  qed (simp add: SvRoundTrip put_carrier_def)
next
  case (SvTrack j)
  show ?thesis
  proof (cases "j = i")
    case True
    then show ?thesis using assms by (simp add: SvTrack Let_def split: option.split)
  qed (simp add: SvTrack Let_def split: option.split)
next
  case (SvAbortEnd j r)
  show ?thesis
  proof (cases "j = i")
    case True
    then show ?thesis using assms by (simp add: SvAbortEnd put_carrier_wait)
  qed (simp add: SvAbortEnd put_carrier_def)
qed (use assms in \<open>simp_all add: nth_append nth_list_update put_carrier_wait cl_abort_begin_def Let_def
       split: option.split\<close>)

text \<open>
  C12: Whatever the interleaving of opens, answers, body reads, aborts and the close of an HTTP endpoint
  handle, no stream is written into the map that \<open>Close\<close> took (which would panic); while the handle
  is open its map holds exactly the streams in flight and those whose deletion is under way, each
  once; and when \<open>Close\<close> and the aborts under way have finished, no stream it gave out is still
  tracked, every one of them has an outcome, so that no reader of it blocks, and the requests of the
  opens it refused are cancelled.
\<close>

theorem stream_handle_releases:
  "let w = run_steps (sv_step pkg) es stream_start;
       given = filter (\<lambda>i. i \<notin> set (sw_opening w) \<and> i \<notin> set (sw_refused w)) [0..<length (sw_cars w)];
       live = filter (\<lambda>i. cl_tracked (sw_cars w ! i)) given in
   \<not> sw_panicked w
   \<and> (case sw_map w of
        Some m \<Rightarrow> distinct m \<and> set m = set live \<union> set (sw_deleting w)
      | None \<Rightarrow>
          if sw_todo w = [] \<and> sw_aborting w = []
          then live = [] \<and> list_all (\<lambda>i. cl_wait_ready pkg (sw_cars w ! i) \<noteq> None) given
               \<and> list_all (\<lambda>i. cl_cancelled (sw_cars w ! i)) (filter (\<lambda>i. i \<notin> set (sw_opening w)) (sw_refused w))
          else True)"
proof -
  let ?w = "run_steps (sv_step pkg) es stream_start"
  have inv: "sw_inv ?w" by (rule sw_run_inv)
  then have fl: "sw_flags ?w" and ix: "sw_index ?w" by (simp_all add: sw_inv_def)
  have ok: "car_ok ?w i" if "i < length (sw_cars ?w)" for i using inv that by (simp add: sw_inv_def)
  show ?thesis
  proof (cases "sw_map ?w")
    case None
    have "\<not> cl_tracked (sw_cars ?w ! i) \<and> cl_ready (sw_cars ?w ! i)"
      if "sw_todo ?w = []" "sw_aborting ?w = []" "i < length (sw_cars ?w)" "i \<notin> set (sw_opening ?w)"
        "i \<notin> set (sw_refused ?w)" for i
      using ok [OF that(3)] that None by (simp add: car_ok_def car_good_def split: if_splits)
    moreover have "cl_cancelled (sw_cars ?w ! i)" if "i \<in> set (sw_refused ?w)" "i \<notin> set (sw_opening ?w)" for i
      using ok [of i] ix that by (auto simp: car_ok_def car_good_def sw_index_def)
    ultimately show ?thesis using fl None
      by (auto simp: Let_def sw_flags_def filter_empty_conv list_all_iff cl_wait_ready_def)
  next
    case (Some m)
    have idx: "set m \<union> set (sw_deleting ?w) \<subseteq> {..<length (sw_cars ?w)}"
      using ix Some by (simp add: sw_index_def map_set_def)
    have "i \<in> set m \<longleftrightarrow> i \<notin> set (sw_opening ?w) \<and> i \<notin> set (sw_refused ?w) \<and> cl_tracked (sw_cars ?w ! i)
        \<or> i \<in> set (sw_deleting ?w)" if "i < length (sw_cars ?w)" for i
      using ok [OF that] Some by (simp add: car_ok_def car_good_def map_set_def split: if_splits)
    with idx have "set m = {i. i < length (sw_cars ?w) \<and> i \<notin> set (sw_opening ?w) \<and> i \<notin> set (sw_refused ?w)
        \<and> cl_tracked (sw_cars ?w ! i)} \<union> set (sw_deleting ?w)" by auto
    then show ?thesis using fl ix Some by (auto simp: Let_def sw_flags_def sw_index_def)
  qed
qed

end
