(* ===== verification/Codegen_Ir.thy ===== *)
theory Codegen_Ir
  imports Grpc_Message Descriptor
begin

text \<open>
  The intermediate representation of the stub generator (src/internal/codegen/ir/ir.go and
  symbols.go): its data, the defaults \<open>Normalize\<close> fills in and the checks of \<open>Validate\<close>. The letter and
  digit classes of package \<open>unicode\<close> are the argument \<open>uni\<close>.
\<close>

section \<open>Runes and names\<close>

record unicode_table =
  u_letter :: "nat \<Rightarrow> bool"
  u_digit :: "nat \<Rightarrow> bool"
  u_lower :: "nat \<Rightarrow> nat"

text \<open>The code points \<open>range\<close> yields over a string; an invalid byte is U+FFFD.\<close>

definition rune_val :: "string \<Rightarrow> nat" where
  "rune_val s =
     (let b = (\<lambda>i. byte (s ! i)) in
      if rune_size s = 1 then b 0
      else if rune_size s = 2 then (b 0 mod 32) * 64 + b 1 mod 64
      else if rune_size s = 3 then (b 0 mod 16) * 4096 + (b 1 mod 64) * 64 + b 2 mod 64
      else if rune_size s = 4 then
        (b 0 mod 8) * 262144 + (b 1 mod 64) * 4096 + (b 2 mod 64) * 64 + b 3 mod 64
      else 65533)"

function go_runes :: "string \<Rightarrow> nat list" where
  "go_runes [] = []"
| "go_runes (a # s) = rune_val (a # s) # go_runes (drop (max 1 (rune_size (a # s))) (a # s))"
  by pat_completeness auto
termination by (relation "measure length") (auto simp del: rune_size.simps simp: max_def)

definition ir_letter :: "unicode_table \<Rightarrow> nat \<Rightarrow> bool" where
  "ir_letter uni r \<longleftrightarrow> r = 95 \<or> u_letter uni r"

definition go_keywords :: "string list" where
  "go_keywords =
     [''break'', ''default'', ''func'', ''interface'', ''select'', ''case'', ''defer'', ''go'', ''map'', ''struct'',
      ''chan'', ''else'', ''goto'', ''package'', ''switch'', ''const'', ''fallthrough'', ''if'', ''range'', ''type'',
      ''continue'', ''for'', ''import'', ''return'', ''var'']"

definition is_go_keyword :: "string \<Rightarrow> bool" where
  "is_go_keyword name \<longleftrightarrow> name \<in> set go_keywords"

definition ident_runes :: "unicode_table \<Rightarrow> string \<Rightarrow> bool" where
  "ident_runes uni name =
     (case go_runes name of
        [] \<Rightarrow> True
      | r # rs \<Rightarrow> ir_letter uni r \<and> list_all (\<lambda>x. ir_letter uni x \<or> u_digit uni x) rs)"

definition is_go_identifier :: "unicode_table \<Rightarrow> string \<Rightarrow> bool" where
  "is_go_identifier uni name \<longleftrightarrow>
     name \<noteq> [] \<and> ident_runes uni name \<and> \<not> is_go_keyword name \<and> name \<noteq> ''_''"

definition path_sep :: "char \<Rightarrow> bool" where
  "path_sep c \<longleftrightarrow> c = CHR ''/'' \<or> c = char_of (92 :: nat)"

definition package_name :: "unicode_table \<Rightarrow> string \<Rightarrow> go_error + string" where
  "package_name uni raw0 =
     (let raw1 = trim_space raw0;
          raw2 = (case index_byte raw1 (CHR '';'') of None \<Rightarrow> raw1 | Some i \<Rightarrow> trim_space (drop (Suc i) raw1));
          raw3 = rev (dropWhile path_sep (rev raw2));
          raw = rev (takeWhile (\<lambda>c. \<not> path_sep c) (rev raw3)) in
      if raw = [] then Inl (ErrNew ''ir: go_package has no package identifier'')
      else if \<not> ident_runes uni raw then Inl (ErrNew (''ir: invalid go package identifier '' @ go_quote raw))
      else if is_go_keyword raw then Inl (ErrNew (''ir: go package identifier '' @ go_quote raw @ '' is a keyword''))
      else Inr raw)"

definition require_identifier :: "unicode_table \<Rightarrow> string \<Rightarrow> string \<Rightarrow> go_error option" where
  "require_identifier uni kind name =
     (if is_go_identifier uni name then None
      else Some (ErrNew (''ir: invalid Go '' @ kind @ '' identifier '' @ go_quote name)))"

definition require_full_name :: "string \<Rightarrow> string \<Rightarrow> go_error option" where
  "require_full_name kind fullName =
     (if fullName = [] then Some (ErrNew (''ir: empty '' @ kind @ '' full name''))
      else if contains fullName ''/'' then
        Some (ErrNew (''ir: '' @ kind @ '' full name '' @ go_quote fullName
                @ '' must be protobuf dotted form, not gRPC path''))
      else if [] \<in> set (split_on dot fullName) then
        Some (ErrNew (''ir: '' @ kind @ '' full name '' @ go_quote fullName @ '' has empty segment''))
      else None)"

section \<open>Data\<close>

record ir_unit =
  un_Name :: string
  un_Source :: bytes
  un_Symbols :: "string list"

record ir_field =
  fd_GoName :: string
  fd_Number :: int
  fd_Kind :: string
  fd_MessageType :: string
  fd_EnumType :: string

record ir_message =
  mg_GoName :: string
  mg_Fields :: "ir_field list"

record ir_method =
  im_GoName :: string
  im_FullName :: string
  im_InputType :: string
  im_OutputType :: string
  im_Shape :: shape
  im_ServerStream :: bool
  im_ClientStream :: bool

record ir_service =
  is_GoName :: string
  is_FullName :: string
  is_Methods :: "ir_method list"

record ir_outputs =
  ou_Messages :: string
  ou_Stub :: string

record ir_file =
  fl_IRVersion :: int
  fl_Source :: string
  fl_MessageModel :: string
  fl_GoPackage :: string
  fl_GoModule :: string
  fl_ProtoPackage :: string
  fl_InputBase :: string
  fl_Outputs :: ir_outputs
  fl_OutputName :: string
  fl_Messages :: "ir_message list"
  fl_MessageFiles :: "ir_unit list"
  fl_Services :: "ir_service list"
  fl_FileDescriptor :: bytes
  fl_FileDescriptorSet :: bytes

definition shape_from_streams :: "bool \<Rightarrow> bool \<Rightarrow> shape" where
  "shape_from_streams clientStream serverStream =
     (if clientStream \<and> serverStream then BidiStreaming
      else if serverStream then ServerStreaming
      else if clientStream then ClientStreaming
      else Unary)"

definition streams_from_shape :: "shape \<Rightarrow> bool \<times> bool" where
  "streams_from_shape s =
     (if s = ServerStreaming then (False, True)
      else if s = ClientStreaming then (True, False)
      else if s = BidiStreaming then (True, True)
      else (False, False))"

definition normalize_shape :: "ir_method \<Rightarrow> ir_method" where
  "normalize_shape m =
     (if im_Shape m \<noteq> 0 then
        (case streams_from_shape (im_Shape m) of
           (cs, ss) \<Rightarrow> m\<lparr>im_ClientStream := cs, im_ServerStream := ss\<rparr>)
      else m\<lparr>im_Shape := shape_from_streams (im_ClientStream m) (im_ServerStream m)\<rparr>)"

definition has_protobuf_payload :: "ir_file \<Rightarrow> bool" where
  "has_protobuf_payload f \<longleftrightarrow> fl_Messages f \<noteq> [] \<or> fl_FileDescriptor f \<noteq> [] \<or> fl_FileDescriptorSet f \<noteq> []"

definition ir_version :: "ir_file \<Rightarrow> int" where
  "ir_version f =
     (if fl_IRVersion f \<noteq> 0 then fl_IRVersion f else if has_protobuf_payload f then 2 else 1)"

definition stub_name :: "ir_file \<Rightarrow> string" where
  "stub_name f =
     (if ou_Stub (fl_Outputs f) \<noteq> [] then ou_Stub (fl_Outputs f)
      else if fl_OutputName f \<noteq> [] then fl_OutputName f
      else if fl_InputBase f \<noteq> [] then fl_InputBase f @ ''.argos.go''
      else [])"

definition messages_name :: "ir_file \<Rightarrow> string" where
  "messages_name f =
     (if ou_Messages (fl_Outputs f) \<noteq> [] then ou_Messages (fl_Outputs f)
      else if fl_InputBase f = [] then []
      else if fl_Source f = ''proto'' then fl_InputBase f @ ''.pb.go''
      else fl_InputBase f @ ''.msg.go'')"

definition effective_model :: "ir_file \<Rightarrow> string" where
  "effective_model f =
     (if fl_MessageModel f \<noteq> [] then fl_MessageModel f
      else if has_protobuf_payload f then ''protobuf''
      else if fl_MessageFiles f \<noteq> [] then ''attached''
      else ''none'')"

definition generate_messages :: "ir_file \<Rightarrow> bool" where
  "generate_messages f =
     (if effective_model f = ''none'' then False
      else if effective_model f = ''protobuf'' then messages_name f \<noteq> [] \<and> has_protobuf_payload f
      else fl_MessageFiles f \<noteq> [])"

section \<open>Validation\<close>

fun check_fields :: "unicode_table \<Rightarrow> bool \<Rightarrow> string \<Rightarrow> string list \<Rightarrow> int list \<Rightarrow> ir_field list \<Rightarrow> go_error option" where
  "check_fields uni pb msg names nums [] = None"
| "check_fields uni pb msg names nums (d # ds) =
     (case require_identifier uni ''field'' (fd_GoName d) of
        Some e \<Rightarrow> Some e
      | None \<Rightarrow>
          if pb \<and> fd_Number d \<le> 0 then
            Some (ErrNew (''ir: field '' @ go_quote (fd_GoName d) @ '' has invalid number '' @ itoa (fd_Number d)))
          else if fd_GoName d \<in> set names then
            Some (ErrNew (''ir: message '' @ go_quote msg @ '' has duplicate field '' @ go_quote (fd_GoName d)))
          else if fd_Number d \<in> set nums then
            Some (ErrNew (''ir: message '' @ go_quote msg @ '' has duplicate field number '' @ itoa (fd_Number d)))
          else check_fields uni pb msg (fd_GoName d # names) (fd_Number d # nums) ds)"

fun check_messages :: "unicode_table \<Rightarrow> bool \<Rightarrow> string list \<Rightarrow> ir_message list \<Rightarrow> go_error option" where
  "check_messages uni pb seen [] = None"
| "check_messages uni pb seen (m # ms) =
     (case require_identifier uni ''message'' (mg_GoName m) of
        Some e \<Rightarrow> Some e
      | None \<Rightarrow>
          if mg_GoName m \<in> set seen then Some (ErrNew (''ir: duplicate message name '' @ go_quote (mg_GoName m)))
          else
            case check_fields uni pb (mg_GoName m) [] [] (mg_Fields m) of
              Some e \<Rightarrow> Some e
            | None \<Rightarrow> check_messages uni pb (mg_GoName m # seen) ms)"

text \<open>The first error of a list of checks, in their order.\<close>

fun first_error :: "go_error option list \<Rightarrow> go_error option" where
  "first_error [] = None"
| "first_error (None # es) = first_error es"
| "first_error (Some e # es) = Some e"

fun check_ir_methods :: "unicode_table \<Rightarrow> string \<Rightarrow> string list \<Rightarrow> ir_method list \<Rightarrow> go_error option" where
  "check_ir_methods uni svc seen [] = None"
| "check_ir_methods uni svc seen (m # ms) =
     (case first_error
             [require_identifier uni ''method'' (im_GoName m),
              require_identifier uni ''input type'' (im_InputType m),
              require_identifier uni ''output type'' (im_OutputType m),
              (if im_FullName m \<noteq> [] then require_full_name ''method'' (im_FullName m) else None)] of
        Some e \<Rightarrow> Some e
      | None \<Rightarrow>
          if im_Shape m > BidiStreaming then
            Some (ErrNew (''ir: method '' @ go_quote (im_GoName m) @ '' has invalid shape '' @ nat_str (unat (im_Shape m))))
          else if im_GoName m \<in> set seen then
            Some (ErrNew (''ir: service '' @ go_quote svc @ '' has duplicate method '' @ go_quote (im_GoName m)))
          else check_ir_methods uni svc (im_GoName m # seen) ms)"

fun check_services :: "unicode_table \<Rightarrow> string list \<Rightarrow> ir_service list \<Rightarrow> go_error option" where
  "check_services uni seen [] = None"
| "check_services uni seen (s # ss) =
     (case require_identifier uni ''service'' (is_GoName s) of
        Some e \<Rightarrow> Some e
      | None \<Rightarrow>
          if is_GoName s \<in> set seen then Some (ErrNew (''ir: duplicate service name '' @ go_quote (is_GoName s)))
          else
            case first_error
                   [(if is_FullName s \<noteq> [] then require_full_name ''service'' (is_FullName s) else None),
                    check_ir_methods uni (is_GoName s) [] (is_Methods s)] of
              Some e \<Rightarrow> Some e
            | None \<Rightarrow> check_services uni (is_GoName s # seen) ss)"

definition validate_names :: "unicode_table \<Rightarrow> ir_file \<Rightarrow> go_error option" where
  "validate_names uni f =
     first_error
       [check_messages uni (effective_model f = ''protobuf'') [] (fl_Messages f),
        check_services uni [] (fl_Services f)]"

definition validate_model_fields :: "ir_file \<Rightarrow> go_error option" where
  "validate_model_fields f =
     (let model = effective_model f in
      if model \<noteq> ''protobuf'' \<and> fl_Messages f \<noteq> [] then
        Some (ErrNew (''ir: messages field is only valid with message_model '' @ go_quote ''protobuf''))
      else if model = ''protobuf'' \<or> model = ''none'' then None
      else if fl_FileDescriptor f \<noteq> [] \<or> fl_FileDescriptorSet f \<noteq> [] then
        Some (ErrNew (''ir: file_descriptor fields require message_model '' @ go_quote ''protobuf''))
      else None)"

fun check_symbols :: "unicode_table \<Rightarrow> nat \<Rightarrow> string list \<Rightarrow> go_error option" where
  "check_symbols uni i [] = None"
| "check_symbols uni i (y # ys) =
     (if \<not> is_go_identifier uni y
      then Some (ErrNew (''ir: message_files['' @ nat_str i @ '']: invalid symbol '' @ go_quote y))
      else check_symbols uni i ys)"

fun check_message_files :: "unicode_table \<Rightarrow> nat \<Rightarrow> ir_unit list \<Rightarrow> go_error option" where
  "check_message_files uni i [] = None"
| "check_message_files uni i (u # us) =
     (if un_Name u = [] then Some (ErrNew (''ir: message_files['' @ nat_str i @ '']: missing name''))
      else if un_Source u = [] then Some (ErrNew (''ir: message_files['' @ nat_str i @ '']: missing source''))
      else if un_Symbols u = [] then Some (ErrNew (''ir: message_files['' @ nat_str i @ '']: missing symbols''))
      else
        case check_symbols uni i (un_Symbols u) of
          Some e \<Rightarrow> Some e
        | None \<Rightarrow> check_message_files uni (Suc i) us)"

definition validate_plugin_payload :: "unicode_table \<Rightarrow> ir_file \<Rightarrow> go_error option" where
  "validate_plugin_payload uni f =
     (if effective_model f = ''none'' then None
      else if effective_model f = ''protobuf'' then
        (if \<not> has_protobuf_payload f then
           Some (ErrNew (''ir: plugin IR v2 with message_model '' @ go_quote ''protobuf''
                   @ '' must include messages, file_descriptor, or file_descriptor_set''))
         else None)
      else if fl_MessageFiles f = [] then
        Some (ErrNew (''ir: plugin IR v2 with message_model '' @ go_quote (fl_MessageModel f)
                @ '' must include message_files''))
      else check_message_files uni 0 (fl_MessageFiles f))"

fun check_refs :: "string list \<Rightarrow> bool \<Rightarrow> ir_method list \<Rightarrow> go_error option" where
  "check_refs known desc [] = None"
| "check_refs known desc (m # ms) =
     (if im_InputType m \<notin> set known \<and> \<not> desc then
        Some (ErrNew (''ir: unknown input type '' @ go_quote (im_InputType m)))
      else if \<not> im_ServerStream m \<and> im_OutputType m \<notin> set known \<and> \<not> desc then
        Some (ErrNew (''ir: unknown output type '' @ go_quote (im_OutputType m)))
      else if im_ServerStream m \<and> im_OutputType m \<notin> set known \<and> \<not> desc then
        Some (ErrNew (''ir: unknown stream output type '' @ go_quote (im_OutputType m)))
      else check_refs known desc ms)"

definition validate_message_refs :: "ir_file \<Rightarrow> go_error option" where
  "validate_message_refs f =
     check_refs (map mg_GoName (fl_Messages f)) (fl_FileDescriptor f \<noteq> [] \<or> fl_FileDescriptorSet f \<noteq> [])
       (concat (map is_Methods (fl_Services f)))"

definition validate :: "unicode_table \<Rightarrow> bool \<Rightarrow> ir_file \<Rightarrow> go_error option" where
  "validate uni fromPlugin f =
     (if fl_GoPackage f = [] then Some (ErrNew ''ir: missing go_package'')
      else
        first_error
          [(case package_name uni (fl_GoPackage f) of Inl e \<Rightarrow> Some e | Inr _ \<Rightarrow> None),
           (if fl_Services f = [] then Some (ErrNew ''ir: no services'') else None),
           (if stub_name f = [] then Some (ErrNew ''ir: missing stub output name'') else None),
           validate_names uni f,
           validate_model_fields f,
           (if fromPlugin \<and> 2 \<le> ir_version f then validate_plugin_payload uni f else None),
           (if effective_model f = ''protobuf'' \<and> generate_messages f then validate_message_refs f else None)])"

section \<open>Normalisation\<close>

definition ir_service_full_name :: "string \<Rightarrow> string \<Rightarrow> string" where
  "ir_service_full_name protoPackage goName =
     (if protoPackage = [] then goName else protoPackage @ [dot] @ goName)"

definition dots_for_slashes :: "string \<Rightarrow> string" where
  "dots_for_slashes s = map (\<lambda>c. if c = CHR ''/'' then dot else c) s"

definition normalize_method :: "string \<Rightarrow> ir_method \<Rightarrow> ir_method" where
  "normalize_method svcFull m0 =
     (let m = normalize_shape m0 in
      if im_FullName m = [] then m\<lparr>im_FullName := svcFull @ [dot] @ im_GoName m\<rparr>
      else if contains (im_FullName m) ''/'' then m\<lparr>im_FullName := dots_for_slashes (im_FullName m)\<rparr>
      else m)"

definition normalize_service :: "string \<Rightarrow> ir_service \<Rightarrow> ir_service" where
  "normalize_service protoPackage s =
     (let full = (if is_FullName s = [] then ir_service_full_name protoPackage (is_GoName s)
                  else if contains (is_FullName s) ''/'' then dots_for_slashes (is_FullName s)
                  else is_FullName s) in
      s\<lparr>is_FullName := full, is_Methods := map (normalize_method full) (is_Methods s)\<rparr>)"

definition normalize_source :: "bool \<Rightarrow> ir_file \<Rightarrow> ir_file" where
  "normalize_source fromPlugin f =
     (if fl_Source f = [] then
        f\<lparr>fl_Source := (if fromPlugin then ''plugin''
                        else if fl_FileDescriptor f \<noteq> [] \<or> fl_FileDescriptorSet f \<noteq> [] then ''proto''
                        else ''ir'')\<rparr>
      else f)"

definition normalize_stub :: "ir_file \<Rightarrow> ir_file" where
  "normalize_stub f0 =
     (let f1 = (if ou_Stub (fl_Outputs f0) = [] \<and> fl_OutputName f0 \<noteq> []
                then f0\<lparr>fl_Outputs := (fl_Outputs f0)\<lparr>ou_Stub := fl_OutputName f0\<rparr>\<rparr> else f0);
          f2 = (if ou_Stub (fl_Outputs f1) = [] \<and> fl_InputBase f1 \<noteq> []
                then f1\<lparr>fl_Outputs := (fl_Outputs f1)\<lparr>ou_Stub := fl_InputBase f1 @ ''.argos.go''\<rparr>\<rparr> else f1) in
      if fl_OutputName f2 = [] then f2\<lparr>fl_OutputName := stub_name f2\<rparr> else f2)"

definition normalize_model :: "ir_file \<Rightarrow> ir_file" where
  "normalize_model f =
     (if fl_MessageModel f = [] \<and> has_protobuf_payload f then f\<lparr>fl_MessageModel := ''protobuf''\<rparr>
      else if fl_MessageModel f = [] \<and> fl_MessageFiles f = [] then f\<lparr>fl_MessageModel := ''none''\<rparr>
      else f)"

definition normalize_messages :: "ir_file \<Rightarrow> ir_file" where
  "normalize_messages f =
     (if effective_model f = ''protobuf'' \<and> generate_messages f \<and> ou_Messages (fl_Outputs f) = [] \<and> fl_InputBase f \<noteq> []
      then f\<lparr>fl_Outputs := (fl_Outputs f)\<lparr>ou_Messages :=
               fl_InputBase f @ (if fl_Source f = ''proto'' then ''.pb.go'' else ''.msg.go'')\<rparr>\<rparr>
      else f)"

definition normalize_version :: "ir_file \<Rightarrow> ir_file" where
  "normalize_version f = (if 2 \<le> ir_version f \<and> fl_IRVersion f = 0 then f\<lparr>fl_IRVersion := 2\<rparr> else f)"

definition ir_normalize :: "bool \<Rightarrow> ir_file \<Rightarrow> ir_file" where
  "ir_normalize fromPlugin f =
     (let g = normalize_version (normalize_messages (normalize_model (normalize_stub (normalize_source fromPlugin f)))) in
      g\<lparr>fl_Services := map (normalize_service (fl_ProtoPackage g)) (fl_Services g)\<rparr>)"

section \<open>Names of two generators\<close>

definition stub_message_collision :: "string list \<Rightarrow> string list \<Rightarrow> go_error option" where
  "stub_message_collision stubSymbols messageSymbols =
     (case find (\<lambda>name. name \<in> set stubSymbols) messageSymbols of
        Some name \<Rightarrow> Some (ErrNew (''codegen: generated message '' @ go_quote name @ '' conflicts with stub''))
      | None \<Rightarrow> None)"

section \<open>What validation accepts\<close>

text \<open>The names of a file, stated without the order in which \<open>ValidateNames\<close> looks at them.\<close>

definition full_name_ok :: "string \<Rightarrow> bool" where
  "full_name_ok n \<longleftrightarrow> n \<noteq> [] \<and> CHR ''/'' \<notin> set n \<and> [] \<notin> set (split_on dot n)"

definition fields_ok :: "unicode_table \<Rightarrow> bool \<Rightarrow> ir_field list \<Rightarrow> bool" where
  "fields_ok uni pb ds \<longleftrightarrow>
     list_all (\<lambda>d. is_go_identifier uni (fd_GoName d) \<and> (if pb then 0 < fd_Number d else True)) ds
     \<and> distinct (map fd_GoName ds) \<and> distinct (map fd_Number ds)"

definition message_names_ok :: "unicode_table \<Rightarrow> bool \<Rightarrow> ir_message \<Rightarrow> bool" where
  "message_names_ok uni pb m \<longleftrightarrow> is_go_identifier uni (mg_GoName m) \<and> fields_ok uni pb (mg_Fields m)"

definition method_names_ok :: "unicode_table \<Rightarrow> ir_method \<Rightarrow> bool" where
  "method_names_ok uni m \<longleftrightarrow>
     is_go_identifier uni (im_GoName m) \<and> is_go_identifier uni (im_InputType m)
     \<and> is_go_identifier uni (im_OutputType m) \<and> (im_FullName m = [] \<or> full_name_ok (im_FullName m))
     \<and> shape_valid (im_Shape m)"

definition service_names_ok :: "unicode_table \<Rightarrow> ir_service \<Rightarrow> bool" where
  "service_names_ok uni s \<longleftrightarrow>
     is_go_identifier uni (is_GoName s) \<and> (is_FullName s = [] \<or> full_name_ok (is_FullName s))
     \<and> list_all (method_names_ok uni) (is_Methods s) \<and> distinct (map im_GoName (is_Methods s))"

definition file_names_ok :: "unicode_table \<Rightarrow> ir_file \<Rightarrow> bool" where
  "file_names_ok uni f \<longleftrightarrow>
     list_all (message_names_ok uni (effective_model f = ''protobuf'')) (fl_Messages f)
     \<and> distinct (map mg_GoName (fl_Messages f))
     \<and> list_all (service_names_ok uni) (fl_Services f) \<and> distinct (map is_GoName (fl_Services f))"

lemma first_error_Cons [simp]:
  "first_error (e # es) = (case e of Some x \<Rightarrow> Some x | None \<Rightarrow> first_error es)"
  by (cases e) simp_all

lemma first_error_None: "first_error es = None \<longleftrightarrow> list_all (\<lambda>e. e = None) es"
  by (induction es) (auto split: option.split)

lemma contains_char: "contains s [c] \<longleftrightarrow> c \<in> set s"
proof -
  have "go_index s [c] = None \<longleftrightarrow> c \<notin> set s" by (induction s) (auto simp: has_prefix_def)
  then show ?thesis by (simp add: contains_def)
qed

lemma require_full_name_None: "require_full_name k n = None \<longleftrightarrow> full_name_ok n"
  by (simp add: require_full_name_def full_name_ok_def contains_char)

lemma require_identifier_None: "require_identifier uni k n = None \<longleftrightarrow> is_go_identifier uni n"
  by (simp add: require_identifier_def)

lemmas require_None = require_full_name_None require_identifier_None

lemma check_fields_None:
  "check_fields uni pb msg names nums ds = None \<longleftrightarrow>
     fields_ok uni pb ds \<and> set (map fd_GoName ds) \<inter> set names = {} \<and> set (map fd_Number ds) \<inter> set nums = {}"
proof (induction ds arbitrary: names nums)
  case (Cons d ds)
  have "check_fields uni pb msg names nums (d # ds) = None \<longleftrightarrow>
      is_go_identifier uni (fd_GoName d) \<and> (if pb then 0 < fd_Number d else True) \<and> fd_GoName d \<notin> set names
      \<and> fd_Number d \<notin> set nums \<and> check_fields uni pb msg (fd_GoName d # names) (fd_Number d # nums) ds = None"
    by (simp add: require_identifier_def not_le)
  then show ?case unfolding Cons.IH fields_ok_def by auto
qed (simp add: fields_ok_def)

lemma check_messages_None:
  "check_messages uni pb seen ms = None \<longleftrightarrow>
     list_all (message_names_ok uni pb) ms \<and> distinct (map mg_GoName ms) \<and> set (map mg_GoName ms) \<inter> set seen = {}"
proof (induction ms arbitrary: seen)
  case (Cons m ms)
  have step: "check_messages uni pb seen (m # ms) = None \<longleftrightarrow>
      message_names_ok uni pb m \<and> mg_GoName m \<notin> set seen \<and> check_messages uni pb (mg_GoName m # seen) ms = None"
  proof (cases "check_fields uni pb (mg_GoName m) [] [] (mg_Fields m)")
    case None
    then show ?thesis using check_fields_None [of uni pb "mg_GoName m" "[]" "[]" "mg_Fields m"]
      by (auto simp: message_names_ok_def require_identifier_def)
  next
    case (Some e)
    then show ?thesis using check_fields_None [of uni pb "mg_GoName m" "[]" "[]" "mg_Fields m"]
      by (auto simp: message_names_ok_def require_identifier_def)
  qed
  then show ?case unfolding Cons.IH by auto
qed simp

lemma check_ir_methods_None:
  "check_ir_methods uni svc seen ms = None \<longleftrightarrow>
     list_all (method_names_ok uni) ms \<and> distinct (map im_GoName ms) \<and> set (map im_GoName ms) \<inter> set seen = {}"
proof (induction ms arbitrary: seen)
  case (Cons m ms)
  let ?es = "[require_identifier uni ''method'' (im_GoName m), require_identifier uni ''input type'' (im_InputType m),
      require_identifier uni ''output type'' (im_OutputType m),
      (if im_FullName m \<noteq> [] then require_full_name ''method'' (im_FullName m) else None)]"
  have es: "first_error ?es = None \<longleftrightarrow> is_go_identifier uni (im_GoName m) \<and> is_go_identifier uni (im_InputType m)
      \<and> is_go_identifier uni (im_OutputType m) \<and> (im_FullName m = [] \<or> full_name_ok (im_FullName m))"
    by (simp only: first_error_None list.pred_inject require_None) (auto simp: require_None)
  have "check_ir_methods uni svc seen (m # ms) = None \<longleftrightarrow>
      method_names_ok uni m \<and> im_GoName m \<notin> set seen \<and> check_ir_methods uni svc (im_GoName m # seen) ms = None"
  proof (cases "first_error ?es")
    case None
    with es show ?thesis
      by (simp only: check_ir_methods.simps option.case) (auto simp: method_names_ok_def shape_valid_def not_less)
  next
    case (Some e)
    with es show ?thesis by (simp only: check_ir_methods.simps option.case) (auto simp: method_names_ok_def)
  qed
  then show ?case unfolding Cons.IH by auto
qed simp

lemma check_services_None:
  "check_services uni seen ss = None \<longleftrightarrow>
     list_all (service_names_ok uni) ss \<and> distinct (map is_GoName ss) \<and> set (map is_GoName ss) \<inter> set seen = {}"
proof (induction ss arbitrary: seen)
  case (Cons s ss)
  let ?es = "[(if is_FullName s \<noteq> [] then require_full_name ''service'' (is_FullName s) else None),
      check_ir_methods uni (is_GoName s) [] (is_Methods s)]"
  have es: "first_error ?es = None \<longleftrightarrow> (is_FullName s = [] \<or> full_name_ok (is_FullName s))
      \<and> list_all (method_names_ok uni) (is_Methods s) \<and> distinct (map im_GoName (is_Methods s))"
    by (simp only: first_error_None list.pred_inject check_ir_methods_None) (auto simp: require_None)
  have "check_services uni seen (s # ss) = None \<longleftrightarrow>
      service_names_ok uni s \<and> is_GoName s \<notin> set seen \<and> check_services uni (is_GoName s # seen) ss = None"
  proof (cases "first_error ?es")
    case None
    with es show ?thesis
      by (simp only: check_services.simps option.case) (auto simp: service_names_ok_def require_identifier_def)
  next
    case (Some e)
    with es show ?thesis
      by (simp only: check_services.simps option.case) (auto simp: service_names_ok_def require_identifier_def)
  qed
  then show ?case unfolding Cons.IH by auto
qed simp

text \<open>
  The name check of the generator is exact. \<open>ValidateNames\<close> accepts a file exactly when every
  message, field, service, method and type name is a Go identifier, every full name that is given is
  dotted and without empty segments, every shape is one of the four, protobuf field numbers are
  positive, and no name or number is used twice in its scope.
\<close>

lemma validate_names_exact: "validate_names uni f = None \<longleftrightarrow> file_names_ok uni f"
  by (simp add: validate_names_def file_names_ok_def first_error_None check_messages_None check_services_None
      del: first_error_Cons)

end
