(* ===== verification/Codegen_Stub.thy ===== *)
theory Codegen_Stub
  imports Codegen_Ir
begin

text \<open>
  The generator of stub files (src/internal/codegen/gen/stubgen/stub.go and symbols.go). The source it
  builds is a list of lines; \<open>go_text\<close> joins them. gofmt and the tables of package \<open>unicode\<close> are
  arguments.
\<close>

section \<open>Text\<close>

abbreviation nl :: char where "nl \<equiv> CHR 0x0A"
abbreviation dq :: string where "dq \<equiv> [CHR 0x22]"

definition tabs :: "nat \<Rightarrow> string \<Rightarrow> string" where
  "tabs n s = replicate n (CHR 0x09) @ s"

definition go_text :: "string list \<Rightarrow> string" where
  "go_text ls = concat (map (\<lambda>l. l @ [nl]) ls)"

text \<open>UTF-8 of one code point; a surrogate or a number out of range is written as U+FFFD.\<close>

definition utf8_encode :: "nat \<Rightarrow> bytes" where
  "utf8_encode r =
     (if r < 128 then [char_of r]
      else if r < 2048 then [char_of (192 + r div 64), char_of (128 + r mod 64)]
      else if 55296 \<le> r \<and> r < 57344 \<or> 1114111 < r then rune_error_bytes
      else if r < 65536 then
        [char_of (224 + r div 4096), char_of (128 + r div 64 mod 64), char_of (128 + r mod 64)]
      else
        [char_of (240 + r div 262144), char_of (128 + r div 4096 mod 64),
         char_of (128 + r div 64 mod 64), char_of (128 + r mod 64)])"

definition lower_first :: "unicode_table \<Rightarrow> string \<Rightarrow> string" where
  "lower_first uni name =
     (if name = [] then []
      else utf8_encode (u_lower uni (rune_val name)) @ to_valid_utf8 (drop (max 1 (rune_size name)) name))"

section \<open>Names\<close>

definition method_ident :: "string \<Rightarrow> string \<Rightarrow> string" where
  "method_ident svc m = svc @ ''_'' @ m"

definition service_desc_ident :: "string \<Rightarrow> string" where
  "service_desc_ident svc = svc @ ''Desc''"

definition client_struct_name :: "unicode_table \<Rightarrow> string \<Rightarrow> string" where
  "client_struct_name uni svc = lower_first uni svc @ ''Client''"

definition service_short_name :: "string \<Rightarrow> string" where
  "service_short_name svc = trim_suffix svc ''Service''"

definition stream_server_type :: "string \<Rightarrow> string \<Rightarrow> string" where
  "stream_server_type svc m = svc @ ''_'' @ m @ ''Server''"

definition stream_client_type :: "string \<Rightarrow> string \<Rightarrow> string" where
  "stream_client_type svc m = svc @ ''_'' @ m @ ''Client''"

definition stream_server_struct :: "unicode_table \<Rightarrow> string \<Rightarrow> string \<Rightarrow> string" where
  "stream_server_struct uni svc m = lower_first uni svc @ m @ ''Server''"

definition stream_client_struct :: "unicode_table \<Rightarrow> string \<Rightarrow> string \<Rightarrow> string" where
  "stream_client_struct uni svc m = lower_first uni svc @ m @ ''Client''"

definition shape_const :: "shape \<Rightarrow> string" where
  "shape_const s =
     (if s = ServerStreaming then ''descriptor.ServerStreaming''
      else if s = ClientStreaming then ''descriptor.ClientStreaming''
      else if s = BidiStreaming then ''descriptor.BidiStreaming''
      else ''descriptor.Unary'')"

abbreviation is_unary :: "ir_method \<Rightarrow> bool" where
  "is_unary m \<equiv> \<not> im_ClientStream m \<and> \<not> im_ServerStream m"

text \<open>\<open>add\<close> keeps the first of equal names, in the order they are added.\<close>

fun dedup :: "string list \<Rightarrow> string list \<Rightarrow> string list" where
  "dedup seen [] = []"
| "dedup seen (x # xs) = (if x = [] \<or> x \<in> set seen then dedup seen xs else x # dedup (x # seen) xs)"

definition method_symbols :: "unicode_table \<Rightarrow> string \<Rightarrow> ir_method \<Rightarrow> string list" where
  "method_symbols uni svc m =
     (svc @ ''_'' @ im_GoName m)
     # (if is_unary m then []
        else [svc @ ''_'' @ im_GoName m @ ''Server'', lower_first uni svc @ im_GoName m @ ''Server'',
              svc @ ''_'' @ im_GoName m @ ''Client'', lower_first uni svc @ im_GoName m @ ''Client''])"

definition service_symbols :: "unicode_table \<Rightarrow> ir_service \<Rightarrow> string list" where
  "service_symbols uni s =
     (let svc = is_GoName s in
      [svc, svc @ ''Desc'', ''Register'' @ svc, svc @ ''Client'', ''New'' @ svc @ ''Client'',
       lower_first uni svc @ ''Client''] @ concat (map (method_symbols uni svc) (is_Methods s)))"

definition stub_symbols :: "unicode_table \<Rightarrow> ir_file \<Rightarrow> string list" where
  "stub_symbols uni f = dedup [] (concat (map (service_symbols uni) (fl_Services f)))"

section \<open>The descriptors and the server side\<close>

definition write_descriptors :: "ir_service \<Rightarrow> string list" where
  "write_descriptors s =
     (let svc = is_GoName s; ids = map (\<lambda>m. method_ident svc (im_GoName m)) (is_Methods s);
          desc = tabs 1 (service_desc_ident svc @ '' = descriptor.MustService('' @ go_quote (is_FullName s)) in
      [''var (''] @
      map (\<lambda>m. tabs 1 (method_ident svc (im_GoName m) @ '' = descriptor.MustMethod('' @ go_quote (im_FullName m)
                  @ '', '' @ shape_const (im_Shape m) @ '')'')) (is_Methods s) @
      (if ids \<noteq> [] then [desc @ '',''] @ map (\<lambda>i. tabs 2 (i @ '','')) ids @ [tabs 1 '')'']
       else [desc @ '')'']) @
      ['')'', ''''])"

definition write_server_method :: "string \<Rightarrow> ir_method \<Rightarrow> string" where
  "write_server_method svc m =
     (if is_unary m then
        tabs 1 (im_GoName m @ ''(context.Context, *'' @ im_InputType m @ '') (*'' @ im_OutputType m @ '', error)'')
      else if \<not> im_ClientStream m then
        tabs 1 (im_GoName m @ ''(context.Context, *'' @ im_InputType m @ '', ''
          @ stream_server_type svc (im_GoName m) @ '') error'')
      else
        tabs 1 (im_GoName m @ ''(context.Context, '' @ stream_server_type svc (im_GoName m) @ '') error''))"

definition write_server_stream_type :: "string \<Rightarrow> ir_method \<Rightarrow> string list" where
  "write_server_stream_type svc m =
     (if is_unary m then []
      else
        let t = stream_server_type svc (im_GoName m) in
        [''// '' @ t @ '' sends and receives messages for a '' @ im_GoName m @ '' call.'',
         ''type '' @ t @ '' interface {''] @
        (if im_ClientStream m then [tabs 1 (''Recv() (*'' @ im_InputType m @ '', error)'')] else []) @
        [tabs 1 (''Send(*'' @ im_OutputType m @ '') error''), ''}'', ''''])"

definition write_server_interface :: "ir_service \<Rightarrow> string list" where
  "write_server_interface s =
     (let svc = is_GoName s in
      [''// '' @ svc @ ''Server implements the '' @ service_short_name svc @ '' service.'',
       ''type '' @ svc @ ''Server interface {''] @
      map (write_server_method svc) (is_Methods s) @ [''}'', ''''] @
      concat (map (write_server_stream_type svc) (is_Methods s)))"

definition write_handler_body :: "unicode_table \<Rightarrow> string \<Rightarrow> ir_method \<Rightarrow> string list" where
  "write_handler_body uni svc m =
     (let recv = [tabs 3 (''in := new('' @ im_InputType m @ '')''),
                  tabs 3 ''if err := st.Recv(in); err != nil {'', tabs 4 ''return err'', tabs 3 ''}''];
          wrapper = stream_server_struct uni svc (im_GoName m) in
      if is_unary m then
        recv @ [tabs 3 (''resp, err := impl.'' @ im_GoName m @ ''(ctx, in)''),
                tabs 3 ''if err != nil {'', tabs 4 ''return err'', tabs 3 ''}'', tabs 3 ''return st.Send(resp)'']
      else if \<not> im_ClientStream m then
        recv @ [tabs 3 (''return impl.'' @ im_GoName m @ ''(ctx, in, &'' @ wrapper @ ''{Stream: st})'')]
      else [tabs 3 (''return impl.'' @ im_GoName m @ ''(ctx, &'' @ wrapper @ ''{Stream: st})'')])"

definition write_handlers :: "unicode_table \<Rightarrow> ir_service \<Rightarrow> string list" where
  "write_handlers uni s =
     (let svc = is_GoName s; h = svc @ ''Handlers'' in
      [''// '' @ h @ '' returns handler map for Register('' @ service_desc_ident svc @ '', ...).'',
       ''func '' @ h @ ''(impl '' @ svc @ ''Server) map[string]filter.Handler {'',
       tabs 1 ''return map[string]filter.Handler{''] @
      concat (map (\<lambda>m.
        [tabs 2 (go_quote (im_GoName m)
           @ '': func(ctx context.Context, _ descriptor.Method, st stream.Stream) error {'')]
        @ write_handler_body uni svc m @ [tabs 2 ''},'']) (is_Methods s)) @
      [tabs 1 ''}'', ''}'', ''''])"

definition write_stream_server :: "unicode_table \<Rightarrow> string \<Rightarrow> ir_method \<Rightarrow> string list" where
  "write_stream_server uni svc m =
     (if is_unary m then []
      else
        let w = stream_server_struct uni svc (im_GoName m) in
        [''type '' @ w @ '' struct {'', tabs 1 ''stream.Stream'', ''}'', ''''] @
        (if im_ClientStream m then
           [''func (s *'' @ w @ '') Recv() (*'' @ im_InputType m @ '', error) {'',
            tabs 1 (''in := new('' @ im_InputType m @ '')''),
            tabs 1 ''if err := s.Stream.Recv(in); err != nil {'', tabs 2 ''return nil, err'', tabs 1 ''}'',
            tabs 1 ''return in, nil'', ''}'', '''']
         else []) @
        [''func (s *'' @ w @ '') Send(msg *'' @ im_OutputType m @ '') error {'',
         tabs 1 ''return s.Stream.Send(msg)'', ''}'', ''''])"

section \<open>The client side\<close>

definition write_client_method :: "string \<Rightarrow> ir_method \<Rightarrow> string" where
  "write_client_method svc m =
     (if is_unary m then
        tabs 1 (im_GoName m @ ''(context.Context, *'' @ im_InputType m @ '') (*'' @ im_OutputType m @ '', error)'')
      else if \<not> im_ClientStream m then
        tabs 1 (im_GoName m @ ''(context.Context, *'' @ im_InputType m @ '') (''
          @ stream_client_type svc (im_GoName m) @ '', error)'')
      else
        tabs 1 (im_GoName m @ ''(context.Context) ('' @ stream_client_type svc (im_GoName m) @ '', error)''))"

definition write_client_stream_type :: "string \<Rightarrow> ir_method \<Rightarrow> string list" where
  "write_client_stream_type svc m =
     (if is_unary m then []
      else
        let t = stream_client_type svc (im_GoName m) in
        [''// '' @ t @ '' sends and receives messages for a '' @ im_GoName m @ '' call.'',
         ''type '' @ t @ '' interface {''] @
        (if im_ClientStream m
         then [tabs 1 (''Send(*'' @ im_InputType m @ '') error''), tabs 1 ''HalfClose() error''] else []) @
        [tabs 1 (''Recv() (*'' @ im_OutputType m @ '', error)''),
         tabs 1 ''Header() (metadata.Metadata, error)'', tabs 1 ''Trailer() metadata.Metadata'',
         tabs 1 ''Close() error'', ''}'', ''''])"

definition write_client_interface :: "ir_service \<Rightarrow> string list" where
  "write_client_interface s =
     (let svc = is_GoName s in
      [''// '' @ svc @ ''Client calls the '' @ service_short_name svc @ '' service.'',
       ''type '' @ svc @ ''Client interface {''] @
      map (write_client_method svc) (is_Methods s) @ [''}'', ''''] @
      concat (map (write_client_stream_type svc) (is_Methods s)))"

definition received :: "string \<Rightarrow> string" where
  "received what =
     ''return nil, fmt.Errorf('' @ dq @ ''%w: expected one response, received '' @ what @ dq @ '', status.ErrCardinality)''"

definition recv_one_response :: "string \<Rightarrow> string \<Rightarrow> string list \<Rightarrow> bool \<Rightarrow> string list" where
  "recv_one_response recv out onEof blank =
     [tabs 1 (''candidate := new('' @ out @ '')''),
      tabs 1 (''if err := '' @ recv @ ''(candidate); err != nil {''), tabs 2 ''if errors.Is(err, io.EOF) {'',
      tabs 3 (received ''zero''), tabs 2 ''}'', tabs 2 ''return nil, err'', tabs 1 ''}''] @
     (if blank then [''''] else []) @
     [tabs 1 (''extra := new('' @ out @ '')''), tabs 1 (''switch err := '' @ recv @ ''(extra); {''),
      tabs 1 ''case errors.Is(err, io.EOF):''] @ onEof @
     [tabs 2 ''return candidate, nil'', tabs 1 ''case err == nil:'', tabs 2 (received ''multiple''),
      tabs 1 ''default:'', tabs 2 ''return nil, err'', tabs 1 ''}'']"

definition write_open :: "string \<Rightarrow> string list" where
  "write_open ident =
     [tabs 1 (''st, err := c.c.Open(ctx, '' @ ident @ '')''), tabs 1 ''if err != nil {'',
      tabs 2 ''return nil, err'', tabs 1 ''}'']"

definition write_unary_client :: "string \<Rightarrow> string \<Rightarrow> ir_method \<Rightarrow> string list" where
  "write_unary_client clientType ident m =
     [''func (c *'' @ clientType @ '') '' @ im_GoName m @ ''(ctx context.Context, req *'' @ im_InputType m
        @ '') (rsp *'' @ im_OutputType m @ '', err error) {''] @
     write_open ident @
     [tabs 1 ''defer func() {'', tabs 2 ''if closeErr := st.Close(); err == nil && closeErr != nil {'',
      tabs 3 ''rsp, err = nil, closeErr'', tabs 2 ''}'', tabs 1 ''}()'', '''',
      tabs 1 ''if err := st.Send(req); err != nil && !errors.Is(err, stream.ErrSendClosed) {'',
      tabs 2 ''return nil, err'', tabs 1 ''}'',
      tabs 1 ''if err := st.HalfClose(); err != nil && !errors.Is(err, stream.ErrSendClosed) {'',
      tabs 2 ''return nil, err'', tabs 1 ''}'', ''''] @
     recv_one_response ''st.Recv'' (im_OutputType m) [] True @ [''}'', '''']"

definition write_server_stream_client :: "unicode_table \<Rightarrow> string \<Rightarrow> string \<Rightarrow> string \<Rightarrow> ir_method \<Rightarrow> string list" where
  "write_server_stream_client uni svc clientType ident m =
     [''func (c *'' @ clientType @ '') '' @ im_GoName m @ ''(ctx context.Context, req *'' @ im_InputType m
        @ '') ('' @ stream_client_type svc (im_GoName m) @ '', error) {''] @
     write_open ident @
     [tabs 1 ''if err := st.Send(req); err != nil && !errors.Is(err, stream.ErrSendClosed) {'',
      tabs 2 ''_ = st.Close()'', tabs 2 ''return nil, err'', tabs 1 ''}'',
      tabs 1 ''if err := st.HalfClose(); err != nil && !errors.Is(err, stream.ErrSendClosed) {'',
      tabs 2 ''_ = st.Close()'', tabs 2 ''return nil, err'', tabs 1 ''}'',
      tabs 1 (''return &'' @ stream_client_struct uni svc (im_GoName m) @ ''{call: st}, nil''), ''}'', '''']"

definition write_client_stream_client :: "unicode_table \<Rightarrow> string \<Rightarrow> string \<Rightarrow> string \<Rightarrow> ir_method \<Rightarrow> string list" where
  "write_client_stream_client uni svc clientType ident m =
     [''func (c *'' @ clientType @ '') '' @ im_GoName m @ ''(ctx context.Context) (''
        @ stream_client_type svc (im_GoName m) @ '', error) {''] @
     write_open ident @
     [tabs 1 (''return &'' @ stream_client_struct uni svc (im_GoName m) @ ''{call: st}, nil''), ''}'', '''']"

definition write_client_method_impl :: "unicode_table \<Rightarrow> string \<Rightarrow> string \<Rightarrow> ir_method \<Rightarrow> string list" where
  "write_client_method_impl uni svc clientType m =
     (let ident = method_ident svc (im_GoName m) in
      if is_unary m then write_unary_client clientType ident m
      else if \<not> im_ClientStream m then write_server_stream_client uni svc clientType ident m
      else write_client_stream_client uni svc clientType ident m)"

definition write_client :: "unicode_table \<Rightarrow> ir_service \<Rightarrow> string list" where
  "write_client uni s =
     (let svc = is_GoName s; clientType = client_struct_name uni svc; constructor = ''New'' @ svc @ ''Client'' in
      [''// '' @ constructor @ '' builds a Client for '' @ is_FullName s @ ''. The service'',
       ''// name is built in; an explicit argos.WithServiceName overrides it because'',
       ''// later options win.'',
       ''func '' @ constructor @ ''(opts ...argos.ClientOption) ('' @ svc @ ''Client, error) {'',
       tabs 1 (''c, err := client.New(append([]argos.ClientOption{argos.WithServiceName(''
         @ go_quote (is_FullName s) @ '')}, opts...)...)''),
       tabs 1 ''if err != nil {'', tabs 2 ''return nil, err'', tabs 1 ''}'',
       tabs 1 (''return &'' @ clientType @ ''{c: c}, nil''), ''}'', '''',
       ''type '' @ clientType @ '' struct {'', tabs 1 ''c *client.Client'', ''}'', ''''] @
      concat (map (write_client_method_impl uni svc clientType) (is_Methods s)))"

definition write_client_stream_recv :: "ir_method \<Rightarrow> string list" where
  "write_client_stream_recv m =
     [tabs 1 ''if c.recvDone {'', tabs 2 ''return nil, io.EOF'', tabs 1 ''}''] @
     recv_one_response ''c.call.Recv'' (im_OutputType m) [tabs 2 ''c.recvDone = true''] False"

definition forward_send :: "string \<Rightarrow> string list" where
  "forward_send call =
     [tabs 1 (''err := c.call.'' @ call),
      tabs 1 ''if err != nil && !errors.Is(err, stream.ErrSendClosed) {'', tabs 2 ''return err'', tabs 1 ''}'',
      tabs 1 ''return nil'', ''}'', '''']"

definition write_stream_client :: "unicode_table \<Rightarrow> string \<Rightarrow> ir_method \<Rightarrow> string list" where
  "write_stream_client uni svc m =
     (if is_unary m then []
      else
        let w = stream_client_struct uni svc (im_GoName m) in
        [''type '' @ w @ '' struct {'', tabs 1 ''call *client.CallStream''] @
        (if im_ClientStream m \<and> \<not> im_ServerStream m then [tabs 1 ''recvDone bool''] else []) @ [''}'', ''''] @
        (if im_ClientStream m then
           [''func (c *'' @ w @ '') Send(msg *'' @ im_InputType m @ '') error {''] @ forward_send ''Send(msg)'' @
           [''func (c *'' @ w @ '') HalfClose() error {''] @ forward_send ''HalfClose()''
         else []) @
        [''func (c *'' @ w @ '') Recv() (*'' @ im_OutputType m @ '', error) {''] @
        (if im_ClientStream m \<and> \<not> im_ServerStream m then write_client_stream_recv m
         else [tabs 1 (''event := new('' @ im_OutputType m @ '')''),
               tabs 1 ''if err := c.call.Recv(event); err != nil {'', tabs 2 ''return nil, err'', tabs 1 ''}'',
               tabs 1 ''return event, nil'']) @
        [''}'', '''',
         ''func (c *'' @ w @ '') Header() (metadata.Metadata, error) {'', tabs 1 ''return c.call.Header()'', ''}'', '''',
         ''func (c *'' @ w @ '') Trailer() metadata.Metadata {'', tabs 1 ''return c.call.Trailer()'', ''}'', '''',
         ''func (c *'' @ w @ '') Close() error {'', tabs 1 ''return c.call.Close()'', ''}'', ''''])"

definition write_service :: "unicode_table \<Rightarrow> ir_service \<Rightarrow> string list" where
  "write_service uni s =
     write_descriptors s @ write_server_interface s @ write_handlers uni s @
     concat (map (write_stream_server uni (is_GoName s)) (is_Methods s)) @
     write_client_interface s @ write_client uni s @
     concat (map (write_stream_client uni (is_GoName s)) (is_Methods s))"

section \<open>Imports\<close>

definition is_ident_byte :: "char \<Rightarrow> bool" where
  "is_ident_byte c \<longleftrightarrow> c = CHR ''_'' \<or> is_lower c \<or> is_upper c \<or> is_digit c"

function ref_loop :: "string \<Rightarrow> string \<Rightarrow> nat \<Rightarrow> bool" where
  "ref_loop body needle from =
     (if length body \<le> from then False
      else
        case go_index (drop from body) needle of
          None \<Rightarrow> False
        | Some j \<Rightarrow>
            if j + from = 0 \<or> \<not> is_ident_byte (body ! (j + from - 1)) then True
            else ref_loop body needle (j + from + 1))"
  by pat_completeness auto
termination by (relation "measure (\<lambda>(body, _, from). length body - from)") auto

definition package_needle :: "string \<Rightarrow> string" where
  "package_needle path =
     (case last_index_byte path (CHR ''/'') of None \<Rightarrow> path | Some i \<Rightarrow> drop (Suc i) path) @ ''.''"

definition references_package :: "string \<Rightarrow> string \<Rightarrow> bool" where
  "references_package body path = ref_loop body (package_needle path) 0"

definition stub_imports :: "string list" where
  "stub_imports =
     [''context'', ''errors'', ''fmt'', ''io'', ''github.com/argos-io/argos'', ''github.com/argos-io/argos/client'',
      ''github.com/argos-io/argos/descriptor'', ''github.com/argos-io/argos/filter'',
      ''github.com/argos-io/argos/metadata'', ''github.com/argos-io/argos/server'',
      ''github.com/argos-io/argos/status'', ''github.com/argos-io/argos/stream'']"

definition write_imports :: "string \<Rightarrow> string list" where
  "write_imports body =
     (let used = filter (references_package body) stub_imports;
          module = filter (\<lambda>p. contains p ''/'') used; std = filter (\<lambda>p. \<not> contains p ''/'') used;
          quoted = map (\<lambda>p. tabs 1 (dq @ p @ dq)) in
      if used = [] then []
      else [''import (''] @ quoted std @ (if std \<noteq> [] \<and> module \<noteq> [] then [''''] else []) @ quoted module
           @ ['')'', ''''])"

section \<open>Generate\<close>

definition validate_method :: "string \<Rightarrow> ir_method \<Rightarrow> go_error option" where
  "validate_method svc m =
     (if im_FullName m = [] then
        Some (ErrNew (''codegen: method '' @ svc @ ''.'' @ im_GoName m @ '' missing FullName''))
      else if contains (im_FullName m) ''/'' then
        Some (ErrNew (''codegen: method FullName '' @ go_quote (im_FullName m) @ '' must be protobuf dotted form''))
      else None)"

definition complete_method :: "string \<Rightarrow> ir_method \<Rightarrow> ir_method" where
  "complete_method svcFull m0 =
     (let m = normalize_shape m0 in
      if im_FullName m = [] then m\<lparr>im_FullName := svcFull @ [dot] @ im_GoName m\<rparr> else m)"

definition complete_service :: "string \<Rightarrow> ir_service \<Rightarrow> ir_service" where
  "complete_service protoPackage s =
     (let full = (if is_FullName s = [] then ir_service_full_name protoPackage (is_GoName s) else is_FullName s) in
      s\<lparr>is_FullName := full, is_Methods := map (complete_method full) (is_Methods s)\<rparr>)"

definition stub_body :: "unicode_table \<Rightarrow> ir_service list \<Rightarrow> string list" where
  "stub_body uni ss = concat (map (write_service uni) ss)"

definition stub_source :: "unicode_table \<Rightarrow> string \<Rightarrow> ir_service list \<Rightarrow> string" where
  "stub_source uni packageName ss =
     (let body = stub_body uni ss;
          text = go_text ([''// Code generated by argos. DO NOT EDIT.'', '''', ''package '' @ packageName, '''']
                   @ write_imports (go_text body) @ body) in
      rev (dropWhile (\<lambda>c. c = nl) (rev text)) @ [nl])"

definition stub_generate ::
    "unicode_table \<Rightarrow> (bytes \<Rightarrow> go_error + bytes) \<Rightarrow> ir_file \<Rightarrow> go_error + bytes" where
  "stub_generate uni gofmt f =
     (case package_name uni (fl_GoPackage f) of
        Inl e \<Rightarrow> Inl (ErrWrap ''codegen: '' [e])
      | Inr packageName \<Rightarrow>
          (case validate_names uni f of
             Some e \<Rightarrow> Inl (ErrWrap ''codegen: '' [e])
           | None \<Rightarrow>
               if stub_name f = [] then Inl (ErrNew ''codegen: stub output name is required'')
               else if fl_Services f = [] then Inl (ErrNew (''codegen: no services in '' @ stub_name f))
               else
                 let ss = map (complete_service (fl_ProtoPackage f)) (fl_Services f) in
                 case first_error (concat (map (\<lambda>s. map (validate_method (is_GoName s)) (is_Methods s)) ss)) of
                   Some e \<Rightarrow> Inl e
                 | None \<Rightarrow>
                     (case gofmt (stub_source uni packageName ss) of
                        Inl e \<Rightarrow> Inl (ErrWrap ''codegen: format stub: '' [e])
                      | Inr out \<Rightarrow> Inr out)))"

end
