(* ===== verification/Go_Path.thy ===== *)
theory Go_Path
  imports Go_Strings "HOL-Library.Sublist"
begin

text \<open>
  What the generator uses of packages \<open>path\<close> and \<open>path/filepath\<close> on Unix, where the two agree: \<open>Clean\<close>,
  \<open>Join\<close>, \<open>Base\<close>, \<open>Ext\<close>, \<open>Dir\<close>, \<open>IsAbs\<close>, \<open>Abs\<close> and \<open>Rel\<close>, by the segments of a path.
\<close>

abbreviation slash_c :: char where "slash_c \<equiv> CHR ''/''"

text \<open>Clean: the segments kept so far, in reverse.\<close>

fun clean_segs :: "bool \<Rightarrow> string list \<Rightarrow> string list \<Rightarrow> string list" where
  "clean_segs rooted acc [] = rev acc"
| "clean_segs rooted acc (w # ws) =
     (if w = [] \<or> w = ''.'' then clean_segs rooted acc ws
      else if w = ''..'' then
        (if acc \<noteq> [] \<and> hd acc \<noteq> ''..'' then clean_segs rooted (tl acc) ws
         else if rooted then clean_segs rooted acc ws
         else clean_segs rooted (w # acc) ws)
      else clean_segs rooted (w # acc) ws)"

definition is_abs :: "string \<Rightarrow> bool" where
  "is_abs p \<longleftrightarrow> p \<noteq> [] \<and> hd p = slash_c"

definition path_segs :: "string \<Rightarrow> string list" where
  "path_segs p = clean_segs (is_abs p) [] (split_on slash_c p)"

definition path_clean :: "string \<Rightarrow> string" where
  "path_clean p =
     (let out = (if is_abs p then [slash_c] else []) @ go_join (path_segs p) [slash_c] in
      if out = [] then ''.'' else out)"

definition path_join :: "string \<Rightarrow> string \<Rightarrow> string" where
  "path_join a b =
     (if a = [] then (if b = [] then [] else path_clean b)
      else if b = [] then path_clean a
      else path_clean (a @ [slash_c] @ b))"

definition path_abs :: "string \<Rightarrow> string \<Rightarrow> string" where
  "path_abs cwd p = (if is_abs p then path_clean p else path_join cwd p)"

definition after_last_slash :: "string \<Rightarrow> string" where
  "after_last_slash p = rev (takeWhile (\<lambda>c. c \<noteq> slash_c) (rev p))"

definition path_base :: "string \<Rightarrow> string" where
  "path_base p =
     (if p = [] then ''.''
      else
        let q = rev (dropWhile (\<lambda>c. c = slash_c) (rev p)); b = after_last_slash q in
        if b = [] then [slash_c] else b)"

definition path_ext :: "string \<Rightarrow> string" where
  "path_ext p =
     (let b = after_last_slash p in
      case last_index_byte b (CHR ''.'') of None \<Rightarrow> [] | Some i \<Rightarrow> drop i b)"

definition path_dir :: "string \<Rightarrow> string" where
  "path_dir p = path_clean (take (length p - length (after_last_slash p)) p)"

text \<open>\<open>Rel\<close> of two rooted paths, the only use the generator makes of it; it does not fail there.\<close>

fun rel_segs :: "string list \<Rightarrow> string list \<Rightarrow> string list" where
  "rel_segs (b # bs) (t # ts) = (if b = t then rel_segs bs ts else map (\<lambda>_. ''..'') (b # bs) @ t # ts)"
| "rel_segs bs ts = map (\<lambda>_. ''..'') bs @ ts"

definition path_rel :: "string \<Rightarrow> string \<Rightarrow> string" where
  "path_rel base target =
     (let r = rel_segs (path_segs base) (path_segs target) in
      if r = [] then ''.'' else go_join r [slash_c])"

section \<open>Segments of a clean path\<close>

definition real_seg :: "string \<Rightarrow> bool" where
  "real_seg w \<longleftrightarrow> w \<noteq> [] \<and> w \<noteq> ''.'' \<and> w \<noteq> ''..'' \<and> slash_c \<notin> set w"

lemma clean_rooted:
  "list_all real_seg acc \<Longrightarrow> list_all (\<lambda>w. slash_c \<notin> set w) ws \<Longrightarrow> list_all real_seg (clean_segs True acc ws)"
proof (induction ws arbitrary: acc)
  case (Cons w ws)
  have tl: "list_all real_seg (tl acc)" using Cons.prems(1) by (cases acc) simp_all
  show ?case
  proof (cases "w = [] \<or> w = ''.'' \<or> w = ''..''")
    case True
    then show ?thesis using Cons tl by auto
  next
    case False
    then have "real_seg w" using Cons.prems(2) by (simp add: real_seg_def)
    then show ?thesis using Cons False by simp
  qed
qed (simp add: list_all_iff)

lemma split_no_slash: "list_all (\<lambda>w. slash_c \<notin> set w) (split_on slash_c p)"
  using split_on_segments [of _ slash_c p] by (auto simp: list_all_iff)

lemma segs_rooted: "is_abs p \<Longrightarrow> list_all real_seg (path_segs p)"
  using clean_rooted [of "[]"] split_no_slash by (simp add: path_segs_def)

lemma clean_real:
  "list_all real_seg ws \<Longrightarrow> clean_segs b acc ws = rev acc @ ws"
  by (induction ws arbitrary: acc) (auto simp: real_seg_def)

lemma segs_join_real:
  assumes "list_all real_seg ws"
  shows "path_segs (slash_c # go_join ws [slash_c]) = ws"
proof -
  have "\<And>w. w \<in> set ws \<Longrightarrow> slash_c \<notin> set w" using assms by (auto simp: list_all_iff real_seg_def)
  then have "clean_segs True [] (split_on slash_c (go_join ws [slash_c])) = clean_segs True [] ws"
    by (cases "ws = []") (simp_all add: split_join_on)
  then show ?thesis using clean_real [OF assms] by (simp add: path_segs_def is_abs_def)
qed

lemma clean_abs [simp]: "is_abs p \<Longrightarrow> is_abs (path_clean p)"
  by (simp add: path_clean_def is_abs_def)

lemma segs_clean: "is_abs p \<Longrightarrow> path_segs (path_clean p) = path_segs p"
  using segs_join_real [OF segs_rooted, of p] by (simp add: path_clean_def)

lemma clean_idem: "is_abs p \<Longrightarrow> path_clean (path_clean p) = path_clean p"
  using segs_clean [of p] clean_abs [of p] by (simp add: path_clean_def [of "path_clean p"]) (simp add: path_clean_def)

lemma clean_by_segs:
  assumes "is_abs p" "is_abs q"
  shows "path_clean p = path_clean q \<longleftrightarrow> path_segs p = path_segs q"
proof
  assume "path_clean p = path_clean q"
  with assms show "path_segs p = path_segs q" using segs_clean [of p] segs_clean [of q] by simp
next
  assume "path_segs p = path_segs q"
  with assms show "path_clean p = path_clean q" by (simp add: path_clean_def)
qed

lemma hd_const_map: "hd (map (\<lambda>_. x) ys) \<noteq> x \<Longrightarrow> ys = []"
  by (cases ys) auto

lemma rel_inside:
  assumes "list_all real_seg ts" "rel_segs bs ts = [] \<or> hd (rel_segs bs ts) \<noteq> ''..''"
  shows "\<exists>r. ts = bs @ r"
  using assms
  by (induction bs ts rule: rel_segs.induct) (auto split: if_splits simp: neq_Nil_conv dest: hd_const_map)

end
