(* ===== verification/Codegen_Run.thy ===== *)
theory Codegen_Run
  imports Codegen_Stub Go_Path
begin

text \<open>
  The run of the stub generator (src/internal/codegen/stub/stub.go, gen/msgmodel and check): from the
  files a frontend parsed to the outputs on disk, or to the comparison with them. The frontends, the
  protobuf message generator, the Go parser and gofmt are arguments; so are the faults of the file
  system, one per operation. Directories are not tracked: an output path names a file.
\<close>

section \<open>Message files\<close>

record gen_env =
  ge_uni :: unicode_table
  ge_gofmt :: "bytes \<Rightarrow> go_error + bytes"
  ge_parse_go :: "bytes \<Rightarrow> go_error option"
  ge_protobuf :: "ir_file \<Rightarrow> go_error + ir_unit list"
  ge_getwd :: "go_error + string"
  ge_plugin :: "string \<Rightarrow> string list \<Rightarrow> go_error + ir_file list"
  ge_proto :: "string list \<Rightarrow> string list \<Rightarrow> go_error + ir_file list"
  ge_irjson :: "string list \<Rightarrow> go_error + ir_file list"

definition generated_mark :: string where "generated_mark = ''// Code generated by''"

definition validate_source :: "gen_env \<Rightarrow> bytes \<Rightarrow> go_error + bytes" where
  "validate_source env source =
     (let trimmed = trim_space source in
      if trimmed = [] then Inl (ErrNew ''empty source'')
      else if \<not> has_prefix (trim_space (hd (split_on nl trimmed))) generated_mark then
        Inl (ErrNew (''source must begin with '' @ go_quote generated_mark))
      else
        case ge_parse_go env trimmed of
          Some e \<Rightarrow> Inl (ErrWrap ''parse: '' [e])
        | None \<Rightarrow>
            (case ge_gofmt env trimmed of
               Inl e \<Rightarrow> Inl (ErrWrap ''format: '' [e])
             | Inr formatted \<Rightarrow> Inr formatted))"

fun pass_through :: "gen_env \<Rightarrow> nat \<Rightarrow> ir_unit list \<Rightarrow> go_error + ir_unit list" where
  "pass_through env i [] = Inr []"
| "pass_through env i (u # us) =
     (case validate_source env (un_Source u) of
        Inl e \<Rightarrow> Inl (ErrWrap (''msgmodel: message_files['' @ nat_str i @ '']: '') [e])
      | Inr formatted \<Rightarrow>
          (case pass_through env (Suc i) us of
             Inl e \<Rightarrow> Inl e
           | Inr out \<Rightarrow> Inr (u\<lparr>un_Source := formatted\<rparr> # out)))"

definition message_units :: "gen_env \<Rightarrow> ir_file \<Rightarrow> go_error + ir_unit list" where
  "message_units env f =
     (if effective_model f = ''none'' then Inr []
      else if effective_model f = ''protobuf'' then ge_protobuf env f
      else pass_through env 0 (fl_MessageFiles f))"

definition message_symbols :: "ir_unit list \<Rightarrow> string list" where
  "message_symbols units = dedup [] (concat (map un_Symbols units))"

section \<open>Output paths\<close>

record run_options =
  ro_From :: string
  ro_Plugin :: string
  ro_ImportPaths :: "string list"
  ro_OutDir :: string
  ro_Check :: string

definition abs_path :: "gen_env \<Rightarrow> string \<Rightarrow> go_error + string" where
  "abs_path env p =
     (if is_abs p then Inr (path_clean p)
      else case ge_getwd env of Inl e \<Rightarrow> Inl e | Inr wd \<Rightarrow> Inr (path_join wd p))"

definition has_windows_volume :: "string \<Rightarrow> bool" where
  "has_windows_volume name \<longleftrightarrow> 2 \<le> length name \<and> name ! 1 = CHR '':''"

definition safe_output_path :: "gen_env \<Rightarrow> string \<Rightarrow> string \<Rightarrow> go_error + string" where
  "safe_output_path env dir name =
     (let normalized = map (\<lambda>c. if c = char_of (92 :: nat) then slash_c else c) name in
      if is_abs name \<or> is_abs normalized \<or> has_windows_volume normalized then
        Inl (ErrNew (''stub: output path '' @ go_quote name @ '' must be relative''))
      else
        case abs_path env dir of
          Inl e \<Rightarrow> Inl (ErrWrap (''stub: resolve output directory '' @ go_quote dir @ '': '') [e])
        | Inr base \<Rightarrow>
            let candidate = path_join base (path_clean normalized); rel = path_rel base candidate in
            if rel = ''..'' \<or> has_prefix rel ''../'' then
              Inl (ErrNew (''stub: output path '' @ go_quote name @ '' escapes output directory '' @ go_quote dir))
            else Inr candidate)"

definition input_stem :: "string \<Rightarrow> string" where
  "input_stem input = trim_suffix (path_base input) (path_ext input)"

definition output_path :: "gen_env \<Rightarrow> run_options \<Rightarrow> string list \<Rightarrow> string \<Rightarrow> go_error + string" where
  "output_path env opts inputs name =
     (if name = [] then Inl (ErrNew ''stub: missing output name'')
      else if ro_OutDir opts \<noteq> [] then safe_output_path env (ro_OutDir opts) name
      else
        case find (\<lambda>input. has_prefix name (input_stem input @ ''.'')) inputs of
          Some input \<Rightarrow> safe_output_path env (path_dir input) name
        | None \<Rightarrow>
            if length inputs = 1 then safe_output_path env (path_dir (hd inputs)) name
            else safe_output_path env ''.'' name)"

type_synonym gen_output = "string \<times> bytes"

fun unit_outputs :: "gen_env \<Rightarrow> run_options \<Rightarrow> string list \<Rightarrow> ir_unit list \<Rightarrow> go_error + gen_output list" where
  "unit_outputs env opts inputs [] = Inr []"
| "unit_outputs env opts inputs (u # us) =
     (case output_path env opts inputs (un_Name u) of
        Inl e \<Rightarrow> Inl e
      | Inr p \<Rightarrow>
          (case unit_outputs env opts inputs us of
             Inl e \<Rightarrow> Inl e
           | Inr out \<Rightarrow> Inr ((p, un_Source u) # out)))"

definition file_outputs :: "gen_env \<Rightarrow> run_options \<Rightarrow> string list \<Rightarrow> ir_file \<Rightarrow> go_error + gen_output list" where
  "file_outputs env opts inputs f =
     (case message_units env f of
        Inl e \<Rightarrow> Inl e
      | Inr units \<Rightarrow>
          (case stub_message_collision (stub_symbols (ge_uni env) f) (message_symbols units) of
             Some e \<Rightarrow> Inl e
           | None \<Rightarrow>
               (case unit_outputs env opts inputs units of
                  Inl e \<Rightarrow> Inl e
                | Inr outputs \<Rightarrow>
                    (case stub_generate (ge_uni env) (ge_gofmt env) f of
                       Inl e \<Rightarrow> Inl e
                     | Inr src \<Rightarrow>
                         (case output_path env opts inputs (stub_name f) of
                            Inl e \<Rightarrow> Inl e
                          | Inr p \<Rightarrow> Inr (outputs @ [(p, src)]))))))"

fun validate_output_paths :: "(string \<times> string) list \<Rightarrow> gen_output list \<Rightarrow> go_error option" where
  "validate_output_paths seen [] = None"
| "validate_output_paths seen ((p, src) # out) =
     (case map_of seen (path_clean p) of
        Some previous \<Rightarrow>
          Some (ErrNew (''stub: output path '' @ go_quote p @ '' is generated more than once (same as ''
                  @ go_quote previous @ '')''))
      | None \<Rightarrow> validate_output_paths ((path_clean p, p) # seen) out)"

section \<open>Writing\<close>

type_synonym disk = "string \<Rightarrow> bytes option"

datatype stage_fault =
    StageOk
  | FailMkdir go_error
  | FailCreate go_error
  | FailWrite go_error
  | ShortWrite
  | FailChmod go_error
  | FailClose go_error

text \<open>\<open>Rename\<close> may fail because the target exists (Windows); then it is removed and renamed again.\<close>

datatype commit_fault =
    CommitOk
  | FailRename go_error
  | TargetExists go_error "go_error option" "go_error option"

text \<open>\<open>we_tmp\<close> is the name \<open>CreateTemp\<close> picks for an output, \<open>we_read\<close> a failure to read a file.\<close>

record write_env =
  we_stage :: "nat \<Rightarrow> stage_fault"
  we_commit :: "nat \<Rightarrow> commit_fault"
  we_tmp :: "nat \<Rightarrow> string"
  we_read :: "string \<Rightarrow> go_error option"

definition staging_error :: "string \<Rightarrow> string \<Rightarrow> go_error \<Rightarrow> go_error" where
  "staging_error what path e = ErrWrap (''stub: '' @ what @ '' temporary output for '' @ path @ '': '') [e]"

definition stage_file :: "stage_fault \<Rightarrow> string \<Rightarrow> string \<Rightarrow> bytes \<Rightarrow> disk \<Rightarrow> (go_error + string \<times> string) \<times> disk" where
  "stage_file fault tmp path source d =
     (case fault of
        StageOk \<Rightarrow> (Inr (path, tmp), d(tmp \<mapsto> source))
      | FailMkdir e \<Rightarrow> (Inl (ErrWrap (''stub: mkdir '' @ path_dir path @ '': '') [e]), d)
      | FailCreate e \<Rightarrow> (Inl (staging_error ''create'' path e), d)
      | FailWrite e \<Rightarrow> (Inl (staging_error ''write'' path e), (d(tmp \<mapsto> []))(tmp := None))
      | ShortWrite \<Rightarrow> (Inl (staging_error ''write'' path (ErrVar ''short write'')), (d(tmp \<mapsto> []))(tmp := None))
      | FailChmod e \<Rightarrow> (Inl (staging_error ''chmod'' path e), (d(tmp \<mapsto> source))(tmp := None))
      | FailClose e \<Rightarrow> (Inl (staging_error ''close'' path e), (d(tmp \<mapsto> source))(tmp := None)))"

definition rename_file :: "string \<Rightarrow> string \<Rightarrow> disk \<Rightarrow> disk" where
  "rename_file tmp path d = (d(path := d tmp))(tmp := None)"

definition commit_file :: "commit_fault \<Rightarrow> string \<times> string \<Rightarrow> disk \<Rightarrow> go_error option \<times> disk" where
  "commit_file fault st d =
     (case st of (path, tmp) \<Rightarrow>
        (case fault of
           CommitOk \<Rightarrow> (None, rename_file tmp path d)
         | FailRename e \<Rightarrow> (Some (ErrWrap (''stub: rename temporary output to '' @ path @ '': '') [e]), d)
         | TargetExists e (Some re) _ \<Rightarrow> (Some (ErrWrap (''stub: replace '' @ path @ '': '') [e]), d)
         | TargetExists e None (Some e2) \<Rightarrow>
             (Some (ErrWrap (''stub: rename temporary output to '' @ path @ '': '') [e2]), d(path := None))
         | TargetExists e None None \<Rightarrow> (None, rename_file tmp path (d(path := None)))))"

fun stage_all :: "write_env \<Rightarrow> nat \<Rightarrow> gen_output list \<Rightarrow> disk \<Rightarrow> go_error option \<times> (string \<times> string) list \<times> disk" where
  "stage_all we i [] d = (None, [], d)"
| "stage_all we i ((path, source) # out) d =
     (case stage_file (we_stage we i) (we_tmp we i) path source d of
        (Inl e, d1) \<Rightarrow> (Some e, [], d1)
      | (Inr st, d1) \<Rightarrow> (case stage_all we (Suc i) out d1 of (r, sts, d2) \<Rightarrow> (r, st # sts, d2)))"

text \<open>The staged files that were not committed are what the deferred clean-up removes.\<close>

fun commit_all :: "write_env \<Rightarrow> nat \<Rightarrow> (string \<times> string) list \<Rightarrow> disk \<Rightarrow> go_error option \<times> (string \<times> string) list \<times> disk" where
  "commit_all we i [] d = (None, [], d)"
| "commit_all we i (st # sts) d =
     (case commit_file (we_commit we i) st d of
        (Some e, d1) \<Rightarrow> (Some e, st # sts, d1)
      | (None, d1) \<Rightarrow> commit_all we (Suc i) sts d1)"

definition remove_staged :: "(string \<times> string) list \<Rightarrow> disk \<Rightarrow> disk" where
  "remove_staged sts d = fold (\<lambda>(_, tmp) d. d(tmp := None)) sts d"

definition write_all :: "write_env \<Rightarrow> gen_output list \<Rightarrow> disk \<Rightarrow> go_error option \<times> disk" where
  "write_all we out d =
     (case stage_all we 0 out d of
        (Some e, sts, d1) \<Rightarrow> (Some e, remove_staged sts d1)
      | (None, sts, d1) \<Rightarrow>
          (case commit_all we 0 sts d1 of (r, rest, d2) \<Rightarrow> (r, remove_staged rest d2)))"

section \<open>Checking\<close>

fun replace_crlf :: "bytes \<Rightarrow> bytes" where
  "replace_crlf (a # b # s) = (if a = CHR 0x0D \<and> b = nl then nl # replace_crlf s else a # replace_crlf (b # s))"
| "replace_crlf s = s"

definition volatile_line :: "bytes \<Rightarrow> bool" where
  "volatile_line l \<longleftrightarrow>
     (let t = trim_space l in
      has_prefix t generated_mark \<or> has_prefix t ''// source:'' \<or> has_prefix t ''// versions:''
      \<or> has_prefix t (''// '' @ tabs 1 ''protoc''))"

definition check_normalize :: "bytes \<Rightarrow> bytes" where
  "check_normalize b =
     go_join (filter (\<lambda>l. \<not> volatile_line l) (split_on nl (trim_space (replace_crlf b)))) [nl]"

definition check_one :: "write_env \<Rightarrow> gen_output \<Rightarrow> disk \<Rightarrow> go_error option" where
  "check_one we out d =
     (case out of (path, got) \<Rightarrow>
        (case (we_read we path, d path) of
           (Some e, _) \<Rightarrow> Some (ErrWrap (''stub: read '' @ path @ '': '') [e])
         | (None, None) \<Rightarrow> Some (ErrWrap (''stub: read '' @ path @ '': '') [ErrVar ''file does not exist''])
         | (None, Some want) \<Rightarrow>
             if check_normalize got = check_normalize want then None
             else Some (ErrNew (''stub: '' @ path
                    @ '' differs from generated output (handwritten fallback or update IR)''))))"

definition match_check_path :: "gen_env \<Rightarrow> string \<Rightarrow> gen_output list \<Rightarrow> go_error option" where
  "match_check_path env checkPath out =
     (case abs_path env checkPath of
        Inl e \<Rightarrow> Some (ErrWrap (''stub: resolve --check path '' @ go_quote checkPath @ '': '') [e])
      | Inr checked \<Rightarrow>
          if list_ex (\<lambda>(p, _). path_clean checked = path_clean p) out then None
          else Some (ErrNew (''stub: --check '' @ checkPath @ '' is not a file this invocation generates; it generates ''
                 @ go_join (map fst out) '', '')))"

definition check_files :: "gen_env \<Rightarrow> write_env \<Rightarrow> string \<Rightarrow> gen_output list \<Rightarrow> disk \<Rightarrow> go_error option" where
  "check_files env we checkPath out d =
     (if out = [] then Some (ErrNew ''stub: --check has nothing to compare: no inputs were given'')
      else first_error (match_check_path env checkPath out # map (\<lambda>o'. check_one we o' d) out))"

section \<open>Run\<close>

definition resolve_frontend :: "gen_env \<Rightarrow> run_options \<Rightarrow> go_error + (string list \<Rightarrow> go_error + ir_file list)" where
  "resolve_frontend env opts =
     (if ro_Plugin opts \<noteq> [] then Inr (ge_plugin env (ro_Plugin opts))
      else if ro_From opts = [] \<or> ro_From opts = ''proto'' then Inr (ge_proto env (ro_ImportPaths opts))
      else if ro_From opts = ''ir'' then Inr (ge_irjson env)
      else Inl (ErrNew (''stub: unknown frontend '' @ go_quote (ro_From opts))))"

fun accept_files :: "gen_env \<Rightarrow> bool \<Rightarrow> ir_file list \<Rightarrow> go_error + ir_file list" where
  "accept_files env fromPlugin [] = Inr []"
| "accept_files env fromPlugin (f # fs) =
     (let g = ir_normalize fromPlugin f in
      case validate (ge_uni env) fromPlugin g of
        Some e \<Rightarrow> Inl e
      | None \<Rightarrow> (case accept_files env fromPlugin fs of Inl e \<Rightarrow> Inl e | Inr gs \<Rightarrow> Inr (g # gs)))"

fun all_outputs :: "gen_env \<Rightarrow> run_options \<Rightarrow> string list \<Rightarrow> ir_file list \<Rightarrow> go_error + gen_output list" where
  "all_outputs env opts inputs [] = Inr []"
| "all_outputs env opts inputs (f # fs) =
     (case file_outputs env opts inputs f of
        Inl e \<Rightarrow> Inl e
      | Inr out \<Rightarrow>
          (case all_outputs env opts inputs fs of Inl e \<Rightarrow> Inl e | Inr rest \<Rightarrow> Inr (out @ rest)))"

definition run_outputs :: "gen_env \<Rightarrow> run_options \<Rightarrow> string list \<Rightarrow> go_error + gen_output list" where
  "run_outputs env opts inputs =
     (if inputs = [] \<and> ro_Check opts = [] then Inl (ErrNew ''stub: no input files'')
      else
        case resolve_frontend env opts of
          Inl e \<Rightarrow> Inl e
        | Inr parse \<Rightarrow>
            (case (if inputs \<noteq> [] then parse inputs else Inr []) of
               Inl e \<Rightarrow> Inl e
             | Inr files \<Rightarrow>
                 (case accept_files env (ro_Plugin opts \<noteq> []) files of
                    Inl e \<Rightarrow> Inl e
                  | Inr fs \<Rightarrow> all_outputs env opts inputs fs)))"

definition gen_run :: "gen_env \<Rightarrow> write_env \<Rightarrow> run_options \<Rightarrow> string list \<Rightarrow> disk \<Rightarrow> go_error option \<times> disk" where
  "gen_run env we opts inputs d =
     (case run_outputs env opts inputs of
        Inl e \<Rightarrow> (Some e, d)
      | Inr out \<Rightarrow>
          if ro_Check opts \<noteq> [] then (check_files env we (ro_Check opts) out d, d)
          else
            case validate_output_paths [] out of
              Some e \<Rightarrow> (Some e, d)
            | None \<Rightarrow> write_all we out d)"

end
