(* ===== verification/Codegen_Stub_Props.thy ===== *)
theory Codegen_Stub_Props
  imports Codegen_Stub
begin

text \<open>
  What the generated stub declares, compared with what the generator reports as declared; and when
  the descriptors of a stub are built without a panic.
\<close>

section \<open>Identifiers hold no separator\<close>

definition ascii_letter :: "nat \<Rightarrow> bool" where
  "ascii_letter r \<longleftrightarrow> 65 \<le> r \<and> r \<le> 90 \<or> 97 \<le> r \<and> r \<le> 122"

definition ascii_digit :: "nat \<Rightarrow> bool" where
  "ascii_digit r \<longleftrightarrow> 48 \<le> r \<and> r \<le> 57"

text \<open>
  What is used of the tables of package \<open>unicode\<close>: below 128 letters and digits are those of ASCII,
  the lower case of a letter is a letter, and that of the underscore is the underscore.
\<close>

definition unicode_ok :: "unicode_table \<Rightarrow> bool" where
  "unicode_ok uni \<longleftrightarrow>
     (\<forall>r. r < 128 \<longrightarrow> u_letter uni r = ascii_letter r \<and> u_digit uni r = ascii_digit r)
     \<and> (\<forall>r. u_letter uni r \<longrightarrow> u_letter uni (u_lower uni r)) \<and> u_lower uni 95 = 95"

definition ascii_table :: unicode_table where
  "ascii_table = \<lparr>u_letter = ascii_letter, u_digit = ascii_digit,
     u_lower = (\<lambda>r. if 65 \<le> r \<and> r \<le> 90 then r + 32 else r)\<rparr>"

lemma ascii_table_ok: "unicode_ok ascii_table"
  by (auto simp: unicode_ok_def ascii_table_def ascii_letter_def)

lemma second_high: "second_ok a b \<Longrightarrow> 128 \<le> byte b"
  by (auto simp: second_ok_def in_range_def split: if_splits)

lemma cont_high: "cont_at s i \<Longrightarrow> i < length s \<and> 128 \<le> byte (s ! i)"
  by (simp add: cont_at_def in_range_def)

lemma rune_tail:
  assumes "\<not> byte a < 128" "rune_size (a # s) = Suc n"
  shows "\<forall>x \<in> set (take n s). 128 \<le> byte x"
proof -
  have h: "n = 1 \<and> s \<noteq> [] \<and> second_ok a (hd s) \<or> n = 2 \<and> s \<noteq> [] \<and> second_ok a (hd s) \<and> cont_at s 1
      \<or> n = 3 \<and> s \<noteq> [] \<and> second_ok a (hd s) \<and> cont_at s 1 \<and> cont_at s 2"
    using assms by (simp split: if_split_asm)
  then obtain x r where s: "s = x # r" by (cases s) auto
  have x: "128 \<le> byte x" using h s second_high by auto
  have r0: "1 < n \<Longrightarrow> r \<noteq> [] \<and> 128 \<le> byte (r ! 0)" using h s cont_high [of s 1] by auto
  have r1: "2 < n \<Longrightarrow> 1 < length r \<and> 128 \<le> byte (r ! 1)" using h s cont_high [of s 2] by auto
  have "take n s = x # take (n - 1) r" using h s by auto
  moreover have "n - 1 = 0 \<or> n - 1 = 1 \<or> n - 1 = 2" using h by auto
  ultimately show ?thesis using x r0 r1
    by (cases r; cases "tl r") (auto simp: numeral_2_eq_2)
qed

lemma rune_high: "128 \<le> byte a \<Longrightarrow> c \<in> set (take (rune_size (a # s)) (a # s)) \<Longrightarrow> 128 \<le> byte c"
proof (cases "rune_size (a # s)")
  case (Suc n)
  assume a: "128 \<le> byte a" and "c \<in> set (take (rune_size (a # s)) (a # s))"
  then have "c = a \<or> c \<in> set (take n s)" using Suc by (simp del: rune_size.simps)
  moreover have "128 \<le> byte c" if "c \<in> set (take n s)"
    using rune_tail [OF _ Suc] a that by auto
  ultimately show ?thesis using a by auto
qed simp

lemma rune_part:
  assumes "c \<in> set (take (max 1 (rune_size (a # s))) (a # s))" "byte c < 128"
  shows "rune_val (a # s) = byte c"
proof (cases "byte a < 128")
  case True
  then show ?thesis using assms by (simp add: rune_val_def)
next
  case False
  have "c \<in> set (a # take (rune_size (a # s)) (a # s))"
    using assms(1) by (cases "rune_size (a # s)") (auto simp: max_def simp del: rune_size.simps)
  then have "128 \<le> byte c" using False rune_high [of a c s] by (auto simp del: rune_size.simps)
  with assms(2) show ?thesis by simp
qed

lemma ascii_in_runes: "c \<in> set s \<Longrightarrow> byte c < 128 \<Longrightarrow> byte c \<in> set (go_runes s)"
proof (induction s rule: go_runes.induct)
  case (2 a s)
  let ?n = "max 1 (rune_size (a # s))"
  have "c \<in> set (take ?n (a # s)) \<or> c \<in> set (drop ?n (a # s))"
    using 2(2) by (metis append_take_drop_id Un_iff set_append)
  then show ?case using 2(1) 2(3) rune_part [of c a s] by (auto simp del: rune_size.simps)
qed simp

definition separator :: "char \<Rightarrow> bool" where
  "separator c \<longleftrightarrow> c = CHR '' '' \<or> c = CHR ''('' \<or> c = CHR '')'' \<or> c = CHR 0x09 \<or> c = dot"

definition plain_name :: "string \<Rightarrow> bool" where
  "plain_name n \<longleftrightarrow> n \<noteq> [] \<and> list_all (\<lambda>c. \<not> separator c) n"

lemma plain_name_append: "plain_name (a @ b) \<longleftrightarrow> a @ b \<noteq> [] \<and> list_all (\<lambda>c. \<not> separator c) a \<and> list_all (\<lambda>c. \<not> separator c) b"
  by (auto simp: plain_name_def)

lemma rune_no_separator: "unicode_ok uni \<Longrightarrow> ir_letter uni r \<or> u_digit uni r \<Longrightarrow> r \<notin> {9, 32, 40, 41, 46}"
  by (auto simp: unicode_ok_def ir_letter_def ascii_letter_def ascii_digit_def)

lemma ident_plain:
  assumes "unicode_ok uni" "is_go_identifier uni n"
  shows "plain_name n"
proof -
  have "\<forall>r \<in> set (go_runes n). ir_letter uni r \<or> u_digit uni r"
    using assms(2) by (auto simp: is_go_identifier_def ident_runes_def list_all_iff split: list.splits)
  then have "\<forall>r \<in> set (go_runes n). r \<notin> {9, 32, 40, 41, 46}" using rune_no_separator [OF assms(1)] by blast
  moreover have "byte c \<in> set (go_runes n) \<and> byte c \<in> {9, 32, 40, 41, 46}" if "c \<in> set n" "separator c" for c
  proof -
    have "byte c \<in> {9, 32, 40, 41, 46}" using that(2) by (auto simp: separator_def byte_def dot_def)
    then show ?thesis using ascii_in_runes [OF that(1)] by auto
  qed
  ultimately show ?thesis using assms(2) by (auto simp: plain_name_def list_all_iff is_go_identifier_def)
qed

lemma separator_byte: "separator c \<Longrightarrow> byte c \<in> {9, 32, 40, 41, 46}"
  by (auto simp: separator_def byte_def dot_def)

lemma high_not_separator: "128 \<le> byte c \<Longrightarrow> \<not> separator c"
  using separator_byte by fastforce

lemma utf8_encode_plain:
  assumes "r \<notin> {9, 32, 40, 41, 46}"
  shows "utf8_encode r \<noteq> [] \<and> list_all (\<lambda>c. \<not> separator c) (utf8_encode r)"
proof (cases "r < 128")
  case True
  then have "\<not> separator (char_of r)" using assms separator_byte [of "char_of r"] by auto
  then show ?thesis using True by (simp add: utf8_encode_def)
next
  case False
  have hi: "\<not> separator (char_of n)" if "128 \<le> n" "n < 256" for n :: nat
    using that by (intro high_not_separator) simp
  have tail: "\<not> separator (char_of (128 + x mod 64))" for x :: nat
    using mod_less_divisor [of 64 x] by (intro hi) auto
  have lead: "r < 2048 \<Longrightarrow> \<not> separator (char_of (192 + r div 64))" "r < 65536 \<Longrightarrow> \<not> separator (char_of (224 + r div 4096))"
    "r \<le> 1114111 \<Longrightarrow> \<not> separator (char_of (240 + r div 262144))"
    by (rule hi; simp)+
  show ?thesis using False
    by (auto simp: utf8_encode_def rune_error_bytes_def tail lead hi)
qed

lemma to_valid_set: "set (to_valid_utf8 s) \<subseteq> set s \<union> set rune_error_bytes"
proof (induction s rule: to_valid_utf8.induct)
  case (2 a s)
  have "set (take n xs) \<subseteq> set xs" "set (drop n xs) \<subseteq> set xs" for n and xs :: string
    by (rule set_take_subset, rule set_drop_subset)
  note this [of "rune_size (a # s)" "a # s"]
  then show ?case using 2 by (auto simp del: rune_size.simps)
qed simp

lemma lower_first_plain:
  assumes "unicode_ok uni" "is_go_identifier uni n"
  shows "plain_name (lower_first uni n)"
proof -
  have n: "n \<noteq> []" "list_all (\<lambda>c. \<not> separator c) n"
    using ident_plain [OF assms] by (simp_all add: plain_name_def)
  obtain a s where as: "n = a # s" using n(1) by (cases n) auto
  then have "ir_letter uni (rune_val n)"
    using assms(2) by (simp add: is_go_identifier_def ident_runes_def del: rune_size.simps)
  then have "ir_letter uni (u_lower uni (rune_val n))"
    using assms(1) by (auto simp: ir_letter_def unicode_ok_def)
  then have "u_lower uni (rune_val n) \<notin> {9, 32, 40, 41, 46}" using rune_no_separator [OF assms(1)] by blast
  note enc = utf8_encode_plain [OF this]
  have "\<not> separator c" if "c \<in> set (to_valid_utf8 (drop (max 1 (rune_size n)) n))" for c
  proof -
    have "c \<in> set n \<or> c \<in> set rune_error_bytes"
      using to_valid_set that set_drop_subset by fastforce
    then show ?thesis using n(2) high_not_separator [of c] by (auto simp: list_all_iff rune_error_bytes_def)
  qed
  then show ?thesis using enc n(1) by (auto simp: lower_first_def plain_name_def list_all_iff)
qed

section \<open>The names a stub declares\<close>

text \<open>
  The package-level names of gofmt-shaped source, read off its lines: a \<open>type\<close> or a function without
  receiver at the start of a line, and the entries of a \<open>var\<close> block, which are indented once.
\<close>

fun declared_in :: "bool \<Rightarrow> string list \<Rightarrow> string list" where
  "declared_in b [] = []"
| "declared_in True (l # ls) =
     (if l = '')'' then declared_in False ls
      else if has_prefix l (tabs 1 []) \<and> \<not> has_prefix l (tabs 2 []) \<and> \<not> has_prefix l (tabs 1 '')'')
      then takeWhile (\<lambda>c. c \<noteq> CHR '' '') (drop 1 l) # declared_in True ls
      else declared_in True ls)"
| "declared_in False (l # ls) =
     (if l = ''var ('' then declared_in True ls
      else if has_prefix l ''type '' then takeWhile (\<lambda>c. c \<noteq> CHR '' '') (drop 5 l) # declared_in False ls
      else if has_prefix l ''func '' \<and> \<not> has_prefix l ''func (''
      then takeWhile (\<lambda>c. c \<noteq> CHR ''('') (drop 5 l) # declared_in False ls
      else declared_in False ls)"

text \<open>The same list, from the service.\<close>

definition stream_methods :: "ir_service \<Rightarrow> string list" where
  "stream_methods s = map im_GoName (filter (\<lambda>m. \<not> is_unary m) (is_Methods s))"

definition service_decls :: "unicode_table \<Rightarrow> ir_service \<Rightarrow> string list" where
  "service_decls uni s =
     (let svc = is_GoName s; ms = stream_methods s in
      map (\<lambda>m. method_ident svc (im_GoName m)) (is_Methods s) @ [service_desc_ident svc, svc @ ''Server''] @
      map (stream_server_type svc) ms @ [svc @ ''Handlers''] @
      map (stream_server_struct uni svc) ms @ [svc @ ''Client''] @ map (stream_client_type svc) ms @
      [''New'' @ svc @ ''Client'', client_struct_name uni svc] @ map (stream_client_struct uni svc) ms)"

lemma declared_append:
  "''var ('' \<notin> set xs \<Longrightarrow> declared_in False (xs @ ys) = declared_in False xs @ declared_in False ys"
  by (induction xs) auto

lemma takeWhile_name: "plain_name n \<Longrightarrow> takeWhile (\<lambda>c. c \<noteq> CHR '' '') (n @ CHR '' '' # r) = n"
  "plain_name n \<Longrightarrow> takeWhile (\<lambda>c. c \<noteq> CHR ''('') (n @ CHR ''('' # r) = n"
  by (simp_all add: plain_name_def list_all_iff separator_def takeWhile_append2)

text \<open>Lines that neither declare a name nor open a \<open>var\<close> block.\<close>

definition quiet_line :: "string \<Rightarrow> bool" where
  "quiet_line l \<longleftrightarrow> l \<noteq> ''var ('' \<and> \<not> has_prefix l ''type '' \<and> (has_prefix l ''func '' \<longrightarrow> has_prefix l ''func ('')"

lemma declared_quiet: "list_all quiet_line ls \<Longrightarrow> declared_in False (ls @ ys) = declared_in False ys"
  by (induction ls) (auto simp: quiet_line_def)

lemma quiet_tabs [simp]: "quiet_line (tabs (Suc n) x)"
  by (simp add: quiet_line_def tabs_def has_prefix_def)

lemma quiet_Nil [simp]: "quiet_line []"
  by (simp add: quiet_line_def has_prefix_def)

lemma quiet_comment [simp]: "quiet_line (CHR ''/'' # x)"
  by (simp add: quiet_line_def has_prefix_def)

lemma quiet_brace [simp]: "quiet_line (CHR ''}'' # x)"
  by (simp add: quiet_line_def has_prefix_def)

lemma quiet_method [simp]: "quiet_line (CHR ''f'' # CHR ''u'' # CHR ''n'' # CHR ''c'' # CHR '' '' # CHR ''('' # x)"
  by (simp add: quiet_line_def has_prefix_def)

lemma tabs_numeral [simp]: "quiet_line (tabs 1 x)" "quiet_line (tabs 2 x)" "quiet_line (tabs 3 x)" "quiet_line (tabs 4 x)"
  using quiet_tabs [of 0 x] quiet_tabs [of 1 x] quiet_tabs [of 2 x] quiet_tabs [of 3 x]
  by (simp_all add: numeral_eq_Suc)

lemma declared_type:
  assumes "plain_name n"
  shows "declared_in False ((CHR ''t'' # CHR ''y'' # CHR ''p'' # CHR ''e'' # CHR '' '' # n @ CHR '' '' # r) # ls) = n # declared_in False ls"
  using takeWhile_name(1) [OF assms, of r] by (simp add: has_prefix_def)

lemma declared_func:
  assumes "plain_name n"
  shows "declared_in False ((CHR ''f'' # CHR ''u'' # CHR ''n'' # CHR ''c'' # CHR '' '' # n @ CHR ''('' # r) # ls) = n # declared_in False ls"
proof -
  obtain a m where n: "n = a # m" "a \<noteq> CHR ''(''" using assms by (cases n) (auto simp: plain_name_def separator_def)
  then show ?thesis using takeWhile_name(2) [OF assms, of r] by (simp add: has_prefix_def)
qed

lemma declared_entry:
  assumes "plain_name n"
  shows "declared_in True (tabs 1 (n @ CHR '' '' # r) # ls) = n # declared_in True ls"
proof -
  obtain a m where n: "n = a # m" "\<not> separator a" using assms by (cases n) (auto simp: plain_name_def)
  then show ?thesis using takeWhile_name(1) [OF assms, of r]
    by (simp add: has_prefix_def tabs_def separator_def numeral_2_eq_2)
qed

lemma tabs_append: "tabs n x @ y = tabs n (x @ y)"
  by (simp add: tabs_def)

lemma declared_close: "declared_in True ('')'' # ls) = declared_in False ls"
  by simp

lemma declared_skip:
  "declared_in True (tabs 2 x # ls) = declared_in True ls" "declared_in True (tabs 1 '')'' # ls) = declared_in True ls"
  by (simp_all add: has_prefix_def tabs_def numeral_2_eq_2)

lemma declared_skips: "declared_in True (map (\<lambda>i. tabs 2 (f i)) is @ ls) = declared_in True ls"
  by (induction "is") (simp_all only: list.map append_Cons append_Nil declared_skip)

lemma declared_entries:
  "list_all (\<lambda>m. plain_name (g m)) ms
   \<Longrightarrow> declared_in True (map (\<lambda>m. tabs 1 (g m @ CHR '' '' # r m)) ms @ ls) = map g ms @ declared_in True ls"
  by (induction ms) (simp_all only: list.map append_Cons append_Nil declared_entry list.pred_inject)

lemma declared_blocks:
  "(\<And>m ys. m \<in> set ms \<Longrightarrow> declared_in False (w m @ ys) = d m @ declared_in False ys)
   \<Longrightarrow> declared_in False (concat (map w ms) @ ys) = concat (map d ms) @ declared_in False ys"
  by (induction ms arbitrary: ys) simp_all

lemma not_separator [simp]:
  "\<not> separator (CHR ''C'')" "\<not> separator (CHR ''D'')" "\<not> separator (CHR ''H'')"
  "\<not> separator (CHR ''N'')" "\<not> separator (CHR ''S'')" "\<not> separator (CHR ''_'')"
  "\<not> separator (CHR ''a'')" "\<not> separator (CHR ''c'')" "\<not> separator (CHR ''d'')"
  "\<not> separator (CHR ''e'')" "\<not> separator (CHR ''i'')" "\<not> separator (CHR ''l'')"
  "\<not> separator (CHR ''n'')" "\<not> separator (CHR ''r'')" "\<not> separator (CHR ''s'')"
  "\<not> separator (CHR ''t'')" "\<not> separator (CHR ''v'')" "\<not> separator (CHR ''w'')"
  by (simp_all add: separator_def dot_def)

definition idents_ok :: "unicode_table \<Rightarrow> ir_service \<Rightarrow> bool" where
  "idents_ok uni s \<longleftrightarrow> is_go_identifier uni (is_GoName s)
     \<and> list_all (\<lambda>m. is_go_identifier uni (im_GoName m)) (is_Methods s)"

lemma plain_parts:
  assumes "unicode_ok uni" "idents_ok uni s"
  shows "plain_name (is_GoName s)" "plain_name (lower_first uni (is_GoName s))"
    "m \<in> set (is_Methods s) \<Longrightarrow> plain_name (im_GoName m)"
  using assms ident_plain lower_first_plain
  by (auto simp: idents_ok_def list_all_iff)

lemma plain_char [simp]: "plain_name n \<Longrightarrow> list_all (\<lambda>c. \<not> separator c) n"
  by (simp add: plain_name_def)

declare declared_in.simps(2) [simp del]

lemma declared_var: "declared_in False (''var ('' # ls) = declared_in True ls"
  by simp

lemma declares_descriptors:
  assumes "unicode_ok uni" "idents_ok uni s"
  shows "declared_in False (write_descriptors s @ ys)
    = map (\<lambda>m. method_ident (is_GoName s) (im_GoName m)) (is_Methods s) @ service_desc_ident (is_GoName s)
      # declared_in False ys"
proof -
  note p = plain_parts [OF assms]
  have ids: "list_all (\<lambda>m. plain_name (method_ident (is_GoName s) (im_GoName m))) (is_Methods s)"
    using p by (simp add: list_all_iff method_ident_def plain_name_append) (simp add: plain_name_def list_all_iff)
  have d: "plain_name (service_desc_ident (is_GoName s))"
    using p(1) by (simp add: service_desc_ident_def plain_name_append)
  have nil: "declared_in False ([] # ls) = declared_in False ls" for ls by (simp add: has_prefix_def)
  show ?thesis
    by (simp only: write_descriptors_def Let_def append_assoc append_Cons append_Nil declared_var tabs_append
        declared_entries [OF ids] declared_entry [OF d] declared_skips declared_skip declared_close nil
        list.map_comp comp_def if_distrib [of "\<lambda>x. declared_in True (x @ _)"] split: if_split) simp
qed

lemma type_line: "plain_name n \<Longrightarrow> declared_in False ((''type '' @ n @ '' '' @ r) # ls) = n # declared_in False ls"
  using declared_type by simp

lemma func_line: "plain_name n \<Longrightarrow> declared_in False ((''func '' @ n @ ''('' @ r) # ls) = n # declared_in False ls"
  using declared_func by simp

lemma quiet_step: "quiet_line l \<Longrightarrow> declared_in False (l # ls) = declared_in False ls"
  using declared_quiet [of "[l]"] by simp

lemma quiet_steps:
  "(\<And>x. x \<in> set xs \<Longrightarrow> quiet_line (f x)) \<Longrightarrow> declared_in False (map f xs @ ls) = declared_in False ls"
  by (rule declared_quiet) (simp add: list_all_iff)

definition if_stream :: "(string \<Rightarrow> string) \<Rightarrow> ir_method \<Rightarrow> string list" where
  "if_stream f m = (if is_unary m then [] else [f (im_GoName m)])"

lemma concat_if_stream: "concat (map (if_stream f) (is_Methods s)) = map f (stream_methods s)"
proof -
  have "concat (map (if_stream f) ms) = map f (map im_GoName (filter (\<lambda>m. \<not> is_unary m) ms))" for ms
    by (induction ms) (simp_all add: if_stream_def)
  then show ?thesis by (simp add: stream_methods_def)
qed

lemma named_plain:
  assumes named: "unicode_ok uni" "idents_ok uni s"
  shows "plain_name (is_GoName s @ ''Server'')" "plain_name (is_GoName s @ ''Client'')"
  "plain_name (is_GoName s @ ''Handlers'')" "plain_name (''New'' @ is_GoName s @ ''Client'')"
  "plain_name (client_struct_name uni (is_GoName s))"
  "m \<in> set (is_Methods s) \<Longrightarrow> plain_name (stream_server_type (is_GoName s) (im_GoName m))"
  "m \<in> set (is_Methods s) \<Longrightarrow> plain_name (stream_client_type (is_GoName s) (im_GoName m))"
  "m \<in> set (is_Methods s) \<Longrightarrow> plain_name (stream_server_struct uni (is_GoName s) (im_GoName m))"
  "m \<in> set (is_Methods s) \<Longrightarrow> plain_name (stream_client_struct uni (is_GoName s) (im_GoName m))"
  using plain_parts [OF named]
  by (simp_all add: plain_name_append client_struct_name_def stream_server_type_def stream_client_type_def
      stream_server_struct_def stream_client_struct_def)
    (simp_all add: plain_name_def)

text \<open>The blocks of a service, in their order. Each line is quiet or declares one name.\<close>

lemma declares_server_method [simp]: "quiet_line (write_server_method svc m)" "quiet_line (write_client_method svc m)"
  by (simp_all add: write_server_method_def write_client_method_def del: One_nat_def)

lemma quiet_strings:
  "quiet_line (''// '' @ x)" "quiet_line (''func (c *'' @ x)" "quiet_line (''func (s *'' @ x)"
  "quiet_line ''}''" "quiet_line []"
  by simp_all

text \<open>Appends of lists of lines, not of the strings they hold.\<close>

lemmas lines_append =
  append_Cons [where 'a = string] append_Nil [where 'a = string] append_assoc [where 'a = string]
  append_Nil2 [where 'a = string]

lemmas walk_lines =
  lines_append quiet_step quiet_strings tabs_numeral declares_server_method quiet_steps list.map concat.simps

lemma type_literal:
  "''type '' @ n @ '' interface {'' = ''type '' @ n @ '' '' @ ''interface {''"
  "''type '' @ n @ '' struct {'' = ''type '' @ n @ '' '' @ ''struct {''"
  "''type '' @ n @ ''Server interface {'' = ''type '' @ (n @ ''Server'') @ '' '' @ ''interface {''"
  "''type '' @ n @ ''Client interface {'' = ''type '' @ (n @ ''Client'') @ '' '' @ ''interface {''"
  by simp_all

lemma declares_server_type:
  assumes "plain_name (stream_server_type svc (im_GoName m))"
  shows "declared_in False (write_server_stream_type svc m @ ys) = if_stream (stream_server_type svc) m @ declared_in False ys"
  by (simp only: write_server_stream_type_def if_stream_def Let_def type_literal walk_lines type_line [OF assms] split: if_split)
    simp

lemma declares_client_type:
  assumes "plain_name (stream_client_type svc (im_GoName m))"
  shows "declared_in False (write_client_stream_type svc m @ ys) = if_stream (stream_client_type svc) m @ declared_in False ys"
  by (simp only: write_client_stream_type_def if_stream_def Let_def type_literal walk_lines type_line [OF assms] split: if_split)
    simp

lemma declares_server_struct:
  assumes "plain_name (stream_server_struct uni svc (im_GoName m))"
  shows "declared_in False (write_stream_server uni svc m @ ys) = if_stream (stream_server_struct uni svc) m @ declared_in False ys"
  by (simp only: write_stream_server_def if_stream_def Let_def type_literal walk_lines type_line [OF assms] split: if_split)
    simp

lemma declares_client_struct:
  assumes "plain_name (stream_client_struct uni svc (im_GoName m))"
  shows "declared_in False (write_stream_client uni svc m @ ys) = if_stream (stream_client_struct uni svc) m @ declared_in False ys"
  by (simp only: write_stream_client_def write_client_stream_recv_def recv_one_response_def forward_send_def
      if_stream_def Let_def type_literal walk_lines type_line [OF assms] split: if_split) simp

lemma declares_method_impl: "declared_in False (write_client_method_impl uni svc t m @ ys) = declared_in False ys"
  by (simp only: write_client_method_impl_def write_unary_client_def write_server_stream_client_def
      write_client_stream_client_def write_open_def recv_one_response_def Let_def walk_lines split: if_split) simp

lemma declares_handler_body: "declared_in False (write_handler_body uni svc m @ ys) = declared_in False ys"
  by (simp only: write_handler_body_def Let_def walk_lines split: if_split) simp

lemma declares_silent:
  "(\<And>m ys. declared_in False (w m @ ys) = declared_in False ys)
   \<Longrightarrow> declared_in False (concat (map w ms) @ ys) = declared_in False ys"
  by (induction ms) simp_all

lemma declares_blocks:
  "(\<And>m ys. m \<in> set (is_Methods s) \<Longrightarrow> declared_in False (w m @ ys) = if_stream f m @ declared_in False ys)
   \<Longrightarrow> declared_in False (concat (map w (is_Methods s)) @ ys) = map f (stream_methods s) @ declared_in False ys"
  using declared_blocks [of "is_Methods s" w "if_stream f"] by (simp add: concat_if_stream)

lemma declares_server_interface:
  assumes "unicode_ok uni" "idents_ok uni s"
  shows "declared_in False (write_server_interface s @ ys)
    = (is_GoName s @ ''Server'') # map (stream_server_type (is_GoName s)) (stream_methods s) @ declared_in False ys"
  by (simp only: write_server_interface_def Let_def type_literal walk_lines type_line [OF named_plain(1) [OF assms]]
      declares_blocks [OF declares_server_type [OF named_plain(6) [OF assms]]])

lemma declares_client_interface:
  assumes "unicode_ok uni" "idents_ok uni s"
  shows "declared_in False (write_client_interface s @ ys)
    = (is_GoName s @ ''Client'') # map (stream_client_type (is_GoName s)) (stream_methods s) @ declared_in False ys"
  by (simp only: write_client_interface_def Let_def type_literal walk_lines type_line [OF named_plain(2) [OF assms]]
      declares_blocks [OF declares_client_type [OF named_plain(7) [OF assms]]])

lemma declares_handlers:
  assumes "unicode_ok uni" "idents_ok uni s"
  shows "declared_in False (write_handlers uni s @ ys) = (is_GoName s @ ''Handlers'') # declared_in False ys"
proof -
  have f: "''func '' @ (is_GoName s @ ''Handlers'') @ ''(impl '' @ r = ''func '' @ (is_GoName s @ ''Handlers'') @ ''('' @ ''impl '' @ r" for r
    by simp
  show ?thesis
    by (simp only: write_handlers_def Let_def f walk_lines func_line [OF named_plain(3) [OF assms]]
        declares_silent declares_handler_body)
qed

lemma declares_client:
  assumes "unicode_ok uni" "idents_ok uni s"
  shows "declared_in False (write_client uni s @ ys)
    = (''New'' @ is_GoName s @ ''Client'') # client_struct_name uni (is_GoName s) # declared_in False ys"
proof -
  have f: "''func '' @ (''New'' @ is_GoName s @ ''Client'') @ ''(opts ...argos.ClientOption) ('' @ r
      = ''func '' @ (''New'' @ is_GoName s @ ''Client'') @ ''('' @ ''opts ...argos.ClientOption) ('' @ r" for r
    by simp
  have q: "quiet_line ''// name is built in; an explicit argos.WithServiceName overrides it because''"
    "quiet_line ''// later options win.''" by simp_all
  show ?thesis
    by (simp only: write_client_def Let_def f q type_literal walk_lines func_line [OF named_plain(4) [OF assms]]
        type_line [OF named_plain(5) [OF assms]] declares_silent declares_method_impl)
qed

lemma declares_service:
  assumes "unicode_ok uni" "idents_ok uni s"
  shows "declared_in False (write_service uni s @ ys) = service_decls uni s @ declared_in False ys"
  by (simp only: write_service_def service_decls_def Let_def append_assoc append_Cons append_Nil
      declares_descriptors [OF assms] declares_server_interface [OF assms] declares_handlers [OF assms]
      declares_client_interface [OF assms] declares_client [OF assms]
      declares_blocks [OF declares_server_struct [OF named_plain(8) [OF assms]]]
      declares_blocks [OF declares_client_struct [OF named_plain(9) [OF assms]]])

lemma stub_declares:
  "unicode_ok uni \<Longrightarrow> list_all (idents_ok uni) ss
   \<Longrightarrow> declared_in False (stub_body uni ss) = concat (map (service_decls uni) ss)"
  by (induction ss) (simp_all add: stub_body_def declares_service)

section \<open>Names the generator reports\<close>

definition completed :: "ir_file \<Rightarrow> ir_service list" where
  "completed f = map (complete_service (fl_ProtoPackage f)) (fl_Services f)"

text \<open>The package-level names of the stub generated for a file.\<close>

definition generated_names :: "unicode_table \<Rightarrow> ir_file \<Rightarrow> string list" where
  "generated_names uni f = declared_in False (stub_body uni (completed f))"

lemma set_dedup: "set (dedup seen xs) = set xs - set seen - {[]}"
  by (induction xs arbitrary: seen) auto

lemma normalize_shape_idem [simp]: "normalize_shape (normalize_shape m) = normalize_shape m"
  by (auto simp: normalize_shape_def shape_from_streams_def streams_from_shape_def)

lemma normalize_shape_keeps [simp]:
  "im_GoName (normalize_shape m) = im_GoName m" "im_FullName (normalize_shape m) = im_FullName m"
  "im_InputType (normalize_shape m) = im_InputType m" "im_OutputType (normalize_shape m) = im_OutputType m"
  by (simp_all add: normalize_shape_def split: prod.split)

lemma complete_method_keeps [simp]:
  "im_GoName (complete_method f m) = im_GoName m"
  "normalize_shape m = m \<Longrightarrow> im_ClientStream (complete_method f m) = im_ClientStream m"
  "normalize_shape m = m \<Longrightarrow> im_ServerStream (complete_method f m) = im_ServerStream m"
  by (simp_all add: complete_method_def Let_def)

lemma complete_service_keeps [simp]:
  "is_GoName (complete_service p s) = is_GoName s"
  "map im_GoName (is_Methods (complete_service p s)) = map im_GoName (is_Methods s)"
  by (simp_all add: complete_service_def Let_def)

definition shaped :: "ir_file \<Rightarrow> bool" where
  "shaped f \<longleftrightarrow> list_all (\<lambda>s. list_all (\<lambda>m. normalize_shape m = m) (is_Methods s)) (fl_Services f)"

lemma normalize_frame [simp]:
  "fl_Services (normalize_version f) = fl_Services f" "fl_ProtoPackage (normalize_version f) = fl_ProtoPackage f"
  "fl_Services (normalize_messages f) = fl_Services f" "fl_ProtoPackage (normalize_messages f) = fl_ProtoPackage f"
  "fl_Services (normalize_model f) = fl_Services f" "fl_ProtoPackage (normalize_model f) = fl_ProtoPackage f"
  "fl_Services (normalize_stub f) = fl_Services f" "fl_ProtoPackage (normalize_stub f) = fl_ProtoPackage f"
  "fl_Services (normalize_source p f) = fl_Services f" "fl_ProtoPackage (normalize_source p f) = fl_ProtoPackage f"
  by (simp_all add: normalize_version_def normalize_messages_def normalize_model_def normalize_source_def)
    (simp_all add: normalize_stub_def Let_def)

lemma normalize_services:
  "fl_Services (ir_normalize p f) = map (normalize_service (fl_ProtoPackage f)) (fl_Services f)"
  "fl_ProtoPackage (ir_normalize p f) = fl_ProtoPackage f"
  by (simp_all add: ir_normalize_def Let_def)

lemma normalize_method_shape: "normalize_shape (normalize_method f m) = normalize_method f m"
proof -
  have "normalize_shape (m'\<lparr>im_FullName := x\<rparr>) = (normalize_shape m')\<lparr>im_FullName := x\<rparr>" for m' x
    by (simp add: normalize_shape_def split: prod.split)
  then show ?thesis by (simp add: normalize_method_def Let_def)
qed

lemma normalize_shaped: "shaped (ir_normalize p f)"
  by (auto simp: shaped_def normalize_services normalize_service_def list_all_iff normalize_method_shape Let_def)

lemma stream_methods_completed:
  "list_all (\<lambda>m. normalize_shape m = m) (is_Methods s) \<Longrightarrow> stream_methods (complete_service p s) = stream_methods s"
proof -
  have "map im_GoName (filter (\<lambda>m. \<not> is_unary m) (map (complete_method f) ms))
      = map im_GoName (filter (\<lambda>m. \<not> is_unary m) ms)" if "list_all (\<lambda>m. normalize_shape m = m) ms" for f ms
    using that by (induction ms) auto
  then show "list_all (\<lambda>m. normalize_shape m = m) (is_Methods s) \<Longrightarrow> ?thesis"
    by (simp add: stream_methods_def complete_service_def Let_def)
qed

lemma stream_methodsD: "x \<in> set (stream_methods s) \<Longrightarrow> \<exists>m \<in> set (is_Methods s). \<not> is_unary m \<and> x = im_GoName m"
  by (auto simp: stream_methods_def)

lemma method_reported:
  "m \<in> set (is_Methods s) \<Longrightarrow> y \<in> set (method_symbols uni (is_GoName s) m) \<Longrightarrow> y \<in> set (service_symbols uni s)"
  by (auto simp: service_symbols_def Let_def)

lemma stream_reported:
  assumes "x \<in> set (stream_methods s)"
  shows "stream_server_type (is_GoName s) x \<in> set (service_symbols uni s)"
    "stream_client_type (is_GoName s) x \<in> set (service_symbols uni s)"
    "stream_server_struct uni (is_GoName s) x \<in> set (service_symbols uni s)"
    "stream_client_struct uni (is_GoName s) x \<in> set (service_symbols uni s)"
proof -
  obtain m where m: "m \<in> set (is_Methods s)" "\<not> is_unary m" "x = im_GoName m" using stream_methodsD [OF assms] by blast
  show "stream_server_type (is_GoName s) x \<in> set (service_symbols uni s)"
    "stream_client_type (is_GoName s) x \<in> set (service_symbols uni s)"
    "stream_server_struct uni (is_GoName s) x \<in> set (service_symbols uni s)"
    "stream_client_struct uni (is_GoName s) x \<in> set (service_symbols uni s)"
    by (rule method_reported [OF m(1)],
        use m(2,3) in \<open>auto simp: method_symbols_def stream_server_type_def
          stream_client_type_def stream_server_struct_def stream_client_struct_def\<close>)+
qed

lemma own_reported:
  "service_desc_ident (is_GoName s) \<in> set (service_symbols uni s)"
  "is_GoName s @ ''Client'' \<in> set (service_symbols uni s)"
  "''New'' @ is_GoName s @ ''Client'' \<in> set (service_symbols uni s)"
  "client_struct_name uni (is_GoName s) \<in> set (service_symbols uni s)"
  by (simp_all add: service_symbols_def Let_def service_desc_ident_def client_struct_name_def)

lemma decls_reported:
  assumes "n \<in> set (service_decls uni s)"
  shows "n \<in> set (service_symbols uni s) \<or> n = is_GoName s @ ''Server'' \<or> n = is_GoName s @ ''Handlers''"
proof -
  have ident: "method_ident (is_GoName s) (im_GoName m) \<in> set (service_symbols uni s)" if "m \<in> set (is_Methods s)" for m
    by (rule method_reported [OF that]) (simp add: method_symbols_def method_ident_def)
  from assms show ?thesis
    unfolding service_decls_def Let_def set_append set_map list.set
    using ident stream_reported [where s = s and uni = uni] own_reported [where s = s and uni = uni] by blast
qed

lemma generated_from_service:
  assumes "unicode_ok uni" "validate_names uni f = None" "shaped f" "n \<in> set (generated_names uni f)"
  shows "\<exists>s \<in> set (fl_Services f). n \<in> set (service_decls uni s)"
proof -
  have ok: "list_all (idents_ok uni) (completed f)"
    using assms(2) by (auto simp: validate_names_def first_error_None check_messages_None check_services_None
        completed_def idents_ok_def service_names_ok_def method_names_ok_def complete_service_def list_all_iff Let_def
        simp del: first_error_Cons)
  obtain s where s: "s \<in> set (fl_Services f)" "n \<in> set (service_decls uni (complete_service (fl_ProtoPackage f) s))"
    using assms(4) stub_declares [OF assms(1) ok] by (auto simp: generated_names_def completed_def)
  have m: "map (\<lambda>m. method_ident v (im_GoName m)) (is_Methods (complete_service p s))
      = map (\<lambda>m. method_ident v (im_GoName m)) (is_Methods s)" for v p
    by (simp add: complete_service_def Let_def)
  have "service_decls uni (complete_service (fl_ProtoPackage f) s) = service_decls uni s"
    using assms(3) s(1) by (simp add: service_decls_def Let_def m stream_methods_completed shaped_def list_all_iff)
  with s show ?thesis by auto
qed

text \<open>
  C30: what the collision check of the generator guarantees. When a file passes the check against the
  names of its message files, no package-level name of the generated stub is also a message name,
  except possibly the server interface \<open>XServer\<close> and the handler map \<open>XHandlers\<close> of a service,
  which the check does not look at.
\<close>

theorem stub_names_collide_rarely:
  assumes uni: "unicode_ok uni" and f: "f = ir_normalize p f0" and gen: "stub_generate uni gofmt f = Inr out"
    and pass: "stub_message_collision (stub_symbols uni f) msgs = None"
    and n: "n \<in> set (generated_names uni f)" "n \<in> set msgs" "n \<noteq> []"
  shows "list_ex (\<lambda>s. n = is_GoName s @ ''Server'' \<or> n = is_GoName s @ ''Handlers'') (fl_Services f)"
proof -
  have "validate_names uni f = None"
    using gen by (auto simp: stub_generate_def split: sum.splits option.splits)
  moreover have "shaped f" using f normalize_shaped by simp
  ultimately obtain s where s: "s \<in> set (fl_Services f)" "n \<in> set (service_decls uni s)"
    using generated_from_service [OF uni] n(1) by blast
  have "n \<notin> set (stub_symbols uni f)"
    using pass n(2) by (auto simp: stub_message_collision_def find_None_iff split: option.splits)
  then have "n \<notin> set (service_symbols uni s)" using s(1) n(3) by (auto simp: stub_symbols_def set_dedup)
  then show ?thesis using decls_reported [OF s(2)] s(1) by (auto simp: list_ex_iff)
qed

definition demo_ir_method :: "string \<Rightarrow> string \<Rightarrow> shape \<Rightarrow> ir_method" where
  "demo_ir_method name full s = \<lparr>im_GoName = name, im_FullName = full, im_InputType = ''Req'', im_OutputType = ''Rsp'',
     im_Shape = s, im_ServerStream = False, im_ClientStream = False\<rparr>"

definition demo_ir_file :: "string \<Rightarrow> ir_method list \<Rightarrow> ir_file" where
  "demo_ir_file protoPackage ms =
     \<lparr>fl_IRVersion = 0, fl_Source = [], fl_MessageModel = [], fl_GoPackage = ''x/echo'', fl_GoModule = [],
      fl_ProtoPackage = protoPackage, fl_InputBase = ''echo'', fl_Outputs = \<lparr>ou_Messages = [], ou_Stub = []\<rparr>,
      fl_OutputName = [], fl_Messages = [], fl_MessageFiles = [],
      fl_Services = [\<lparr>is_GoName = ''Echo'', is_FullName = [], is_Methods = ms\<rparr>],
      fl_FileDescriptor = [], fl_FileDescriptorSet = []\<rparr>"

definition demo_normal :: ir_file where
  "demo_normal = ir_normalize False (demo_ir_file ''demo'' [demo_ir_method ''Say'' [] ServerStreaming])"

lemma demo_generates: "stub_generate ascii_table Inr demo_normal = Inr (stub_source ascii_table ''echo'' (completed demo_normal))"
proof -
  have p: "package_name ascii_table (fl_GoPackage demo_normal) = Inr ''echo''" by code_simp
  have v: "validate_names ascii_table demo_normal = None" by code_simp
  have n: "stub_name demo_normal \<noteq> [] \<and> fl_Services demo_normal \<noteq> []" by code_simp
  have m: "first_error (concat (map (\<lambda>s. map (validate_method (is_GoName s)) (is_Methods s)) (completed demo_normal))) = None"
    by code_simp
  show ?thesis using n m by (simp add: stub_generate_def p v completed_def Let_def)
qed

lemma demo_declares: "''EchoServer'' \<in> set (generated_names ascii_table demo_normal)"
proof -
  have "list_all (idents_ok ascii_table) (completed demo_normal)" by code_simp
  moreover have "completed demo_normal \<noteq> [] \<and> is_GoName (hd (completed demo_normal)) = ''Echo''" by code_simp
  ultimately show ?thesis using stub_declares [OF ascii_table_ok]
    by (cases "completed demo_normal") (simp_all add: generated_names_def service_decls_def Let_def)
qed

lemma stub_names_collide_rarely_witness:
  "list_ex (\<lambda>s. ''EchoServer'' = is_GoName s @ ''Server'' \<or> ''EchoServer'' = is_GoName s @ ''Handlers'')
     (fl_Services demo_normal)"
proof (rule stub_names_collide_rarely [OF ascii_table_ok demo_normal_def demo_generates _ demo_declares])
  show "stub_message_collision (stub_symbols ascii_table demo_normal) [''EchoServer''] = None" by code_simp
qed simp_all

text \<open>
  And it can. The stub of a service \<open>Echo\<close> declares \<open>EchoServer\<close>, the collision check lets a
  message of that name pass, and rejects a message \<open>RegisterEcho\<close>, a name the stub does not declare.
\<close>

lemma stub_symbols_differ:
  "''EchoServer'' \<in> set (generated_names ascii_table demo_normal)
   \<and> stub_message_collision (stub_symbols ascii_table demo_normal) [''EchoServer''] = None
   \<and> ''RegisterEcho'' \<notin> set (generated_names ascii_table demo_normal)
   \<and> stub_message_collision (stub_symbols ascii_table demo_normal) [''RegisterEcho''] \<noteq> None"
proof (intro conjI)
  have "list_all (idents_ok ascii_table) (completed demo_normal)" by code_simp
  then have g: "generated_names ascii_table demo_normal = concat (map (service_decls ascii_table) (completed demo_normal))"
    by (simp add: generated_names_def stub_declares [OF ascii_table_ok])
  show "''RegisterEcho'' \<notin> set (generated_names ascii_table demo_normal)" unfolding g by code_simp
  show "''EchoServer'' \<in> set (generated_names ascii_table demo_normal)" unfolding g by code_simp
  show "stub_message_collision (stub_symbols ascii_table demo_normal) [''EchoServer''] = None"
    "stub_message_collision (stub_symbols ascii_table demo_normal) [''RegisterEcho''] \<noteq> None" by code_simp+
qed

section \<open>The descriptors of a stub\<close>

text \<open>
  What the \<open>var\<close> block of a stub does when its package is initialised: \<open>MustMethod\<close> for each
  method, then \<open>MustService\<close>. None is a panic.
\<close>

fun must_methods :: "ir_method list \<Rightarrow> rpc_method list option" where
  "must_methods [] = Some []"
| "must_methods (m # ms) =
     (case must_method (im_FullName m) (im_Shape m) of
        None \<Rightarrow> None
      | Some x \<Rightarrow> map_option (Cons x) (must_methods ms))"

definition stub_init :: "ir_service \<Rightarrow> service option" where
  "stub_init s =
     (case must_methods (is_Methods s) of None \<Rightarrow> None | Some ms \<Rightarrow> must_service (is_FullName s) ms)"

definition method_of :: "string \<Rightarrow> ir_method \<Rightarrow> rpc_method" where
  "method_of svc m = \<lparr>m_fullName = im_FullName m, m_service = svc, m_name = im_GoName m, m_shape = im_Shape m\<rparr>"

lemma must_methods_ok:
  "list_all (\<lambda>m. method_ok (method_of svc m)) ms \<Longrightarrow> must_methods ms = Some (map (method_of svc) ms)"
proof (induction ms)
  case (Cons m ms)
  then have "new_method (im_FullName m) (im_Shape m) = Inr (method_of svc m)"
    using new_method_complete [of "method_of svc m"] by (simp add: method_of_def)
  with Cons show ?case by (simp add: must_method_def)
qed simp

lemma stub_init_ok:
  assumes "is_FullName s \<noteq> []" "list_all (\<lambda>m. method_ok (method_of (is_FullName s) m)) (is_Methods s)"
    "distinct (map im_GoName (is_Methods s))"
  shows "stub_init s = Some \<lparr>s_fullName = is_FullName s, s_methods = map (method_of (is_FullName s)) (is_Methods s)\<rparr>"
proof -
  have "new_service (is_FullName s) (map (method_of (is_FullName s)) (is_Methods s))
      = Inr \<lparr>s_fullName = is_FullName s, s_methods = map (method_of (is_FullName s)) (is_Methods s)\<rparr>"
    using assms(1,3) by (simp add: new_service_iff method_of_def comp_def)
  then show ?thesis by (simp add: stub_init_def must_methods_ok [OF assms(2)] must_service_def)
qed

lemma ident_no_dot: "unicode_ok uni \<Longrightarrow> is_go_identifier uni n \<Longrightarrow> dot \<notin> set n \<and> n \<noteq> []"
  using ident_plain [of uni n] by (auto simp: plain_name_def list_all_iff separator_def)

lemma normalize_shape_range: "shape_valid (im_Shape m) \<Longrightarrow> shape_valid (im_Shape (normalize_shape m))"
  by (simp add: normalize_shape_def shape_from_streams_def shape_valid_def split: prod.split)

text \<open>
  A stub whose method names are left to the generator initialises. When a file gives no method
  a full name and its normal form passes \<open>Validate\<close>, the descriptors of every service of the stub
  are built without a panic, with the service's full name and the methods in their order.
\<close>

lemma default_names_initialise:
  assumes uni: "unicode_ok uni"
    and none: "list_all (\<lambda>s. list_all (\<lambda>m. im_FullName m = []) (is_Methods s)) (fl_Services f)"
    and valid: "validate uni p (ir_normalize p f) = None" and s: "s \<in> set (completed (ir_normalize p f))"
  shows "\<exists>d. stub_init s = Some d \<and> s_fullName d = is_FullName s
     \<and> map m_name (s_methods d) = map im_GoName (is_Methods s)"
proof -
  have names: "file_names_ok uni (ir_normalize p f)"
    using valid by (auto simp: validate_def validate_names_def first_error_None check_messages_None check_services_None
        file_names_ok_def simp del: first_error_Cons split: if_splits)
  obtain s0 where s0: "s0 \<in> set (fl_Services f)"
      and s': "s = complete_service (fl_ProtoPackage f) (normalize_service (fl_ProtoPackage f) s0)"
    using s by (auto simp: completed_def normalize_services)
  let ?n = "normalize_service (fl_ProtoPackage f) s0"
  have ok: "service_names_ok uni ?n"
    using names s0 by (auto simp: file_names_ok_def normalize_services list_all_iff)
  have ms: "is_Methods ?n = map (normalize_method (is_FullName ?n)) (is_Methods s0)"
    by (simp add: normalize_service_def Let_def)
  have full: "is_FullName ?n \<noteq> []"
    using ok ident_no_dot [OF uni] by (auto simp: service_names_ok_def normalize_service_def ir_service_full_name_def
        dots_for_slashes_def Let_def split: if_splits)
  then have sFull: "is_FullName s = is_FullName ?n" by (simp add: s' complete_service_def Let_def)
  have given: "im_FullName m = is_FullName ?n @ [dot] @ im_GoName m \<and> normalize_shape m = m"
    if "m \<in> set (is_Methods ?n)" for m
    using that none s0 by (auto simp: ms normalize_method_shape list_all_iff) (auto simp: normalize_method_def Let_def)
  then have comp: "complete_method (is_FullName ?n) m = m" if "m \<in> set (is_Methods ?n)" for m
    using that by (simp add: complete_method_def Let_def)
  then have meths: "is_Methods s = is_Methods ?n"
    using full by (simp add: s' complete_service_def Let_def map_idI)
  have "method_ok (method_of (is_FullName s) m)" if "m \<in> set (is_Methods s)" for m
    using that given [of m] ok full ident_no_dot [OF uni, of "im_GoName m"]
    by (auto simp: meths sFull method_ok_def method_of_def service_names_ok_def method_names_ok_def full_name_ok_def
        list_all_iff)
  then show ?thesis
    using stub_init_ok [of s] full ok
    by (auto simp: sFull meths list_all_iff service_names_ok_def method_of_def comp_def)
qed

lemma default_names_initialise_witness:
  "\<exists>d. stub_init (hd (completed demo_normal)) = Some d \<and> s_fullName d = is_FullName (hd (completed demo_normal))
     \<and> map m_name (s_methods d) = map im_GoName (is_Methods (hd (completed demo_normal)))"
  unfolding demo_normal_def
  by (rule default_names_initialise [OF ascii_table_ok, where p = False
        and f = "demo_ir_file ''demo'' [demo_ir_method ''Say'' [] ServerStreaming]"]) code_simp+

text \<open>
  Full names that are given are not held against each other. A file whose method \<open>Say\<close> of the
  service \<open>demo.Echo\<close> is named \<open>other.Svc.Say\<close> passes \<open>Validate\<close>, and so does the name \<open>Say\<close>
  alone; the generated package panics in \<open>MustService\<close>, or in \<open>MustMethod\<close>, when it is initialised.
\<close>

lemma given_names_panic:
  "list_all (\<lambda>full.
     let f = ir_normalize False (demo_ir_file ''demo'' [demo_ir_method ''Say'' full ServerStreaming]) in
     validate ascii_table False f = None \<and> stub_init (hd (completed f)) = None)
   [''other.Svc.Say'', ''Say'']"
  by code_simp

section \<open>The imports of a stub\<close>

text \<open>
  The reference: read the body once, remembering whether the byte before is part of an identifier,
  and look for the package name with its dot.
\<close>

fun mentions :: "bool \<Rightarrow> string \<Rightarrow> string \<Rightarrow> bool" where
  "mentions inIdent needle [] = False"
| "mentions inIdent needle (c # cs) =
     (\<not> inIdent \<and> has_prefix (c # cs) needle \<or> mentions (is_ident_byte c) needle cs)"

definition occurs_at :: "string \<Rightarrow> string \<Rightarrow> nat \<Rightarrow> bool" where
  "occurs_at body needle i \<longleftrightarrow> i < length body \<and> has_prefix (drop i body) needle"

lemma go_index_spec:
  "p \<noteq> [] \<Longrightarrow> case go_index s p of
     None \<Rightarrow> \<forall>i. \<not> occurs_at s p i
   | Some i \<Rightarrow> occurs_at s p i \<and> (\<forall>j < i. \<not> occurs_at s p j)"
proof (induction s)
  case Nil
  then show ?case by (simp add: occurs_at_def)
next
  case (Cons x xs)
  have at: "occurs_at (x # xs) p i \<longleftrightarrow> (case i of 0 \<Rightarrow> has_prefix (x # xs) p | Suc k \<Rightarrow> occurs_at xs p k)" for i
    by (cases i) (simp_all add: occurs_at_def)
  show ?case
  proof (cases "has_prefix (x # xs) p")
    case True
    then show ?thesis by (simp add: at)
  next
    case False
    then show ?thesis using Cons
      by (cases "go_index xs p") (auto simp: at split: nat.split)
  qed
qed

lemma occurs_drop: "occurs_at (drop n s) p i \<longleftrightarrow> occurs_at s p (i + n)"
  by (auto simp: occurs_at_def add.commute)

lemma ref_loop_exact:
  "needle \<noteq> [] \<Longrightarrow> ref_loop body needle from \<longleftrightarrow>
     (\<exists>i \<ge> from. occurs_at body needle i \<and> (i = 0 \<or> \<not> is_ident_byte (body ! (i - 1))))"
proof (induction body needle "from" rule: ref_loop.induct)
  case (1 body needle "from")
  show ?case
  proof (cases "length body \<le> from")
    case True
    then show ?thesis by (subst ref_loop.simps) (auto simp: occurs_at_def)
  next
    case False
    note spec = go_index_spec [OF 1(2), of "drop from body", unfolded occurs_drop]
    show ?thesis
    proof (cases "go_index (drop from body) needle")
      case None
      then have "\<not> occurs_at body needle i" if "from \<le> i" for i
        using spec that by (metis le_add_diff_inverse2 option.case(1))
      then show ?thesis using False None by (subst ref_loop.simps) auto
    next
      case (Some j)
      let ?i = "j + from"
      have at: "occurs_at body needle ?i" using spec Some by simp
      have before: "\<not> occurs_at body needle i" if "from \<le> i" "i < ?i" for i
      proof -
        have "i - from < j" using that by linarith
        then show ?thesis using spec Some that by fastforce
      qed
      show ?thesis
      proof (cases "?i = 0 \<or> \<not> is_ident_byte (body ! (?i - 1))")
        case True
        then have "\<exists>i \<ge> from. occurs_at body needle i \<and> (i = 0 \<or> \<not> is_ident_byte (body ! (i - 1)))"
          using at by (intro exI [of _ ?i]) auto
        moreover have "ref_loop body needle from"
          using False Some True by (subst ref_loop.simps) auto
        ultimately show ?thesis by simp
      next
        case no: False
        have "ref_loop body needle from = ref_loop body needle (?i + 1)"
          using False Some no by (subst ref_loop.simps) auto
        also have "\<dots> \<longleftrightarrow> (\<exists>i \<ge> ?i + 1. occurs_at body needle i \<and> (i = 0 \<or> \<not> is_ident_byte (body ! (i - 1))))"
          by (rule 1(1) [OF False Some no 1(2)])
        also have "\<dots> \<longleftrightarrow> (\<exists>i \<ge> from. occurs_at body needle i \<and> (i = 0 \<or> \<not> is_ident_byte (body ! (i - 1))))"
        proof (intro iffI; elim exE conjE)
          show "\<exists>k \<ge> from. occurs_at body needle k \<and> (k = 0 \<or> \<not> is_ident_byte (body ! (k - 1)))"
            if "?i + 1 \<le> k" "occurs_at body needle k" "k = 0 \<or> \<not> is_ident_byte (body ! (k - 1))" for k
            using that by (intro exI [of _ k]) auto
          show "\<exists>k \<ge> ?i + 1. occurs_at body needle k \<and> (k = 0 \<or> \<not> is_ident_byte (body ! (k - 1)))"
            if k: "from \<le> k" "occurs_at body needle k" "k = 0 \<or> \<not> is_ident_byte (body ! (k - 1))" for k
          proof -
            have "\<not> k < ?i" using before [of k] k by blast
            moreover have "k \<noteq> ?i" using no k(3) by blast
            ultimately show ?thesis using k by (intro exI [of _ k]) auto
          qed
        qed
        finally show ?thesis .
      qed
    qed
  qed
qed

lemma ex_nat: "(\<exists>i. P i) \<longleftrightarrow> P 0 \<or> (\<exists>k. P (Suc k))"
  by (metis not0_implies_Suc)

lemma mentions_occurs:
  "mentions b needle s \<longleftrightarrow>
     (\<exists>i. occurs_at s needle i \<and> (case i of 0 \<Rightarrow> \<not> b | Suc k \<Rightarrow> \<not> is_ident_byte (s ! k)))"
proof (induction s arbitrary: b)
  case (Cons c cs)
  have at: "occurs_at (c # cs) needle 0 = has_prefix (c # cs) needle"
    "occurs_at (c # cs) needle (Suc k) = occurs_at cs needle k" for k by (simp_all add: occurs_at_def)
  have nth: "(case k of 0 \<Rightarrow> \<not> is_ident_byte c | Suc j \<Rightarrow> \<not> is_ident_byte (cs ! j)) \<longleftrightarrow> \<not> is_ident_byte ((c # cs) ! k)" for k
    by (cases k) simp_all
  show ?case unfolding mentions.simps Cons.IH nth
    by (subst (2) ex_nat) (simp add: at conj_commute)
qed (simp add: occurs_at_def)

text \<open>
  C35: the search for package references, which jumps from match to match, finds a reference exactly
  when one pass over the body does.
\<close>

theorem references_package_exact:
  "references_package body path = mentions False (package_needle path) body"
proof -
  have "package_needle path \<noteq> []" by (simp add: package_needle_def)
  moreover have "(i = 0 \<or> \<not> is_ident_byte (body ! (i - 1)))
      \<longleftrightarrow> (case i of 0 \<Rightarrow> \<not> False | Suc k \<Rightarrow> \<not> is_ident_byte (body ! k))" for i
    by (cases i) simp_all
  ultimately show ?thesis
    using ref_loop_exact [of "package_needle path" body 0] by (simp add: references_package_def mentions_occurs)
qed

text \<open>A line of Go without its comment and without what its string literals hold.\<close>

fun code_part :: "bool \<Rightarrow> string \<Rightarrow> string" where
  "code_part inString [] = []"
| "code_part True (c # cs) = (if [c] = dq then code_part False cs else code_part True cs)"
| "code_part False (c # cs) =
     (if has_prefix (c # cs) ''//'' then []
      else if [c] = dq then code_part True cs
      else c # code_part False cs)"

text \<open>
  The search looks into string literals and comments. The stub of a service in the protobuf
  package \<open>server\<close> imports the package \<open>server\<close>, found in the quoted full names, although no code of
  the stub uses it; Go rejects the file for an unused import.
\<close>

lemma quoted_name_imported:
  "let body = stub_body ascii_table (completed (ir_normalize False (demo_ir_file ''server'' [])));
       path = ''github.com/argos-io/argos/server'' in
   references_package (go_text body) path
   \<and> \<not> references_package (go_text (map (code_part False) body)) path"
  unfolding references_package_exact Let_def by code_simp

end
