(* ===== verification/Codegen_Run_Props.thy ===== *)
theory Codegen_Run_Props
  imports Codegen_Run Codegen_Stub_Props
begin

text \<open>
  What a run of the generator does to the disk: which paths it writes, what is there when it fails,
  and what a check that passes says.
\<close>

section \<open>Staging and committing\<close>

definition replace_all :: "gen_output list \<Rightarrow> disk \<Rightarrow> disk" where
  "replace_all out d = fold (\<lambda>(p, s) d. d(p \<mapsto> s)) out d"

lemma replace_all_simps [simp]:
  "replace_all [] d = d" "replace_all ((p, s) # out) d = replace_all out (d(p \<mapsto> s))"
  by (simp_all add: replace_all_def)

lemma remove_staged_simps [simp]:
  "remove_staged [] d = d" "remove_staged ((p, t) # sts) d = remove_staged sts (d(t := None))"
  by (simp_all add: remove_staged_def)

lemma remove_staged_other: "q \<notin> snd ` set sts \<Longrightarrow> remove_staged sts (d(q := x)) = (remove_staged sts d)(q := x)"
proof (induction sts arbitrary: d)
  case (Cons st sts)
  obtain p t where st: "st = (p, t)" by fastforce
  have ne: "q \<noteq> t" "q \<notin> snd ` set sts" using Cons.prems by (auto simp: st)
  show ?case
    by (simp only: st remove_staged_simps fun_upd_twist [OF ne(1), of d] Cons.IH [OF ne(2)])
qed simp

lemma remove_staged_in: "q \<in> snd ` set sts \<Longrightarrow> remove_staged sts (d(q := x)) = remove_staged sts d"
proof (induction sts arbitrary: d)
  case (Cons st sts)
  obtain p t where st: "st = (p, t)" by fastforce
  show ?case
  proof (cases "q = t")
    case False
    then have "q \<in> snd ` set sts" using Cons.prems by (auto simp: st)
    then show ?thesis
      by (simp only: st remove_staged_simps fun_upd_twist [OF False, of d] Cons.IH)
  qed (simp only: st remove_staged_simps fun_upd_upd)
qed simp

text \<open>The names \<open>CreateTemp\<close> picks: different from each other and from every file that matters.\<close>

definition temps_fresh :: "write_env \<Rightarrow> gen_output list \<Rightarrow> disk \<Rightarrow> bool" where
  "temps_fresh we out d \<longleftrightarrow>
     inj (we_tmp we) \<and> (\<forall>j. d (we_tmp we j) = None \<and> we_tmp we j \<notin> fst ` set out)"

lemma stage_file_removed:
  "d tmp = None \<Longrightarrow> stage_file fault tmp path source d = (Inl e, d1) \<Longrightarrow> d1 = d"
  by (cases fault) (auto simp: stage_file_def fun_upd_idem)

lemma stage_file_ok:
  "stage_file fault tmp path source d = (Inr st, d1) \<Longrightarrow> st = (path, tmp) \<and> d1 = d(tmp \<mapsto> source) \<and> fault = StageOk"
  by (cases fault) (auto simp: stage_file_def)

definition holds :: "disk \<Rightarrow> string \<times> string \<Rightarrow> gen_output \<Rightarrow> bool" where
  "holds d st out \<longleftrightarrow> fst st = fst out \<and> d (snd st) = Some (snd out)"

lemma stage_all_effect:
  assumes "inj (we_tmp we)" "\<And>j. i \<le> j \<Longrightarrow> d (we_tmp we j) = None" "stage_all we i out d = (r, sts, d1)"
  shows "remove_staged sts d1 = d \<and> snd ` set sts \<subseteq> we_tmp we ` {i..} \<and> distinct (map snd sts)
    \<and> (\<forall>q. q \<notin> snd ` set sts \<longrightarrow> d1 q = d q)
    \<and> (r = None \<longrightarrow> list_all2 (holds d1) sts out)
    \<and> (r = None \<longleftrightarrow> (\<forall>k < length out. we_stage we (i + k) = StageOk))"
  using assms(2,3)
proof (induction out arbitrary: i d sts r)
  case (Cons ps out)
  obtain path source where ps: "ps = (path, source)" by fastforce
  obtain x d' where sf: "stage_file (we_stage we i) (we_tmp we i) path source d = (x, d')" by fastforce
  show ?case
  proof (cases x)
    case (Inl e)
    then have "d' = d" using sf stage_file_removed Cons.prems(1) [of i] by auto
    moreover have "we_stage we i \<noteq> StageOk" using sf Inl by (auto simp: stage_file_def)
    then have "\<exists>k < length (ps # out). we_stage we (i + k) \<noteq> StageOk" by (intro exI [of _ 0]) simp
    ultimately show ?thesis using Cons.prems(2) sf Inl by (auto simp: ps)
  next
    case (Inr st)
    then have st: "st = (path, we_tmp we i)" "d' = d(we_tmp we i \<mapsto> source)" "we_stage we i = StageOk"
      using stage_file_ok sf by auto
    obtain r' sts' where rest: "stage_all we (Suc i) out d' = (r', sts', d1)" "r = r'" "sts = st # sts'"
      using Cons.prems(2) sf Inr by (auto simp: ps split: prod.splits)
    have fresh: "d' (we_tmp we j) = None" if "Suc i \<le> j" for j
      using Cons.prems(1) [of j] that injD [OF assms(1), of i j] by (auto simp: st)
    note ih = Cons.IH [OF fresh rest(1)]
    have out: "we_tmp we i \<notin> snd ` set sts'"
    proof
      assume "we_tmp we i \<in> snd ` set sts'"
      then obtain j where "we_tmp we i = we_tmp we j" "Suc i \<le> j" using ih by blast
      then show False using injD [OF assms(1)] by fastforce
    qed
    have "remove_staged sts d1 = (remove_staged sts' d1)(we_tmp we i := None)"
      using out by (simp add: rest(3) st remove_staged_other)
    also have "\<dots> = d'(we_tmp we i := None)" using ih by metis
    also have "\<dots> = d" using Cons.prems(1) [of i] by (simp only: st fun_upd_upd fun_upd_idem order_refl)
    finally have a: "remove_staged sts d1 = d" .
    have b: "snd ` set sts \<subseteq> we_tmp we ` {i..} \<and> distinct (map snd sts)"
      using ih out by (auto simp: rest(3) st image_subset_iff)
    have c: "\<forall>q. q \<notin> snd ` set sts \<longrightarrow> d1 q = d q" using ih by (auto simp: rest(3) st)
    have h: "r = None \<longrightarrow> list_all2 (holds d1) sts (ps # out)"
      using ih out by (auto simp: rest st ps holds_def [of _ "(path, we_tmp we i)"])
    have "(\<forall>k < length (ps # out). we_stage we (i + k) = StageOk) \<longleftrightarrow> (\<forall>k < length out. we_stage we (Suc i + k) = StageOk)"
      using st(3) by (auto simp: less_Suc_eq_0_disj)
    then show ?thesis using a b c h ih rest(2) by blast
  qed
qed simp

text \<open>A commit that the existing target made fail half way leaves the target removed.\<close>

fun half_replaced :: "commit_fault \<Rightarrow> bool" where
  "half_replaced (TargetExists e None (Some e2)) = True"
| "half_replaced f = False"

fun commits :: "commit_fault \<Rightarrow> bool" where
  "commits CommitOk = True"
| "commits (TargetExists e None None) = True"
| "commits f = False"

lemma commit_file_ok:
  "commits f \<Longrightarrow> commit_file f (path, tmp) d = (None, rename_file tmp path d)"
  by (cases f rule: commits.cases) (simp_all add: commit_file_def rename_file_def fun_upd_twist)

lemma commit_file_fails:
  "\<not> commits f \<Longrightarrow> \<exists>e. commit_file f (path, tmp) d = (Some e, if half_replaced f then d(path := None) else d)"
  by (cases f rule: commits.cases) (simp_all add: commit_file_def split: option.split)

lemma commit_all_effect:
  assumes "list_all2 (holds d) sts out" "distinct (map snd sts)" "fst ` set out \<inter> snd ` set sts = {}"
    "commit_all we i sts d = (r, rest, d2)"
  shows "\<exists>k \<le> length out. (\<forall>j < k. commits (we_commit we (i + j)))
     \<and> (if r = None then k = length out else k < length out \<and> \<not> commits (we_commit we (i + k)))
     \<and> remove_staged rest d2 =
         (let d' = replace_all (take k out) (remove_staged sts d) in
          if r \<noteq> None \<and> half_replaced (we_commit we (i + k)) then d'(fst (out ! k) := None) else d')"
  using assms
proof (induction sts arbitrary: i d out)
  case (Cons st sts)
  obtain path tmp where st: "st = (path, tmp)" by fastforce
  obtain source out' where out: "out = (path, source) # out'" and src: "d tmp = Some source"
      and tl: "list_all2 (holds d) sts out'"
    using Cons.prems(1) by (auto simp: list_all2_Cons1 st holds_def [of _ "(path, tmp)"])
  have tmp: "tmp \<notin> snd ` set sts" "path \<noteq> tmp" "path \<notin> snd ` set sts" "tmp \<notin> fst ` set out'"
    using Cons.prems(2,3) by (auto simp: st out)
  show ?case
  proof (cases "commits (we_commit we i)")
    case True
    let ?d = "rename_file tmp path d"
    have d': "?d = (d(path \<mapsto> source))(tmp := None)" by (simp add: rename_file_def src)
    have "?d (snd s) = d (snd s)" if "s \<in> set sts" for s
      using that tmp by (auto simp: d')
    then have "list_all2 (holds ?d) sts out'"
      using tl by (auto simp: list_all2_conv_all_nth holds_def)
    moreover have "commit_all we (Suc i) sts ?d = (r, rest, d2)"
      using Cons.prems(4) commit_file_ok [OF True, of path tmp d] by (simp add: st)
    moreover have "fst ` set out' \<inter> snd ` set sts = {}" using Cons.prems(3) by (auto simp: st out)
    ultimately obtain k where k: "k \<le> length out'" "\<forall>j < k. commits (we_commit we (Suc i + j))"
       "if r = None then k = length out' else k < length out' \<and> \<not> commits (we_commit we (Suc i + k))"
       "remove_staged rest d2 =
         (let d' = replace_all (take k out') (remove_staged sts ?d) in
          if r \<noteq> None \<and> half_replaced (we_commit we (Suc i + k)) then d'(fst (out' ! k) := None) else d')"
      using Cons.IH [of ?d out' "Suc i"] Cons.prems(2) by auto
    have "remove_staged sts ?d = (remove_staged (st # sts) d)(path \<mapsto> source)"
      using tmp by (simp add: st d' remove_staged_other fun_upd_twist)
    then have "remove_staged rest d2 =
        (let d' = replace_all (take (Suc k) out) (remove_staged (st # sts) d) in
         if r \<noteq> None \<and> half_replaced (we_commit we (i + Suc k)) then d'(fst (out ! Suc k) := None) else d')"
      using k(4) by (simp only: out take_Suc_Cons replace_all_simps nth_Cons_Suc add_Suc_right add_Suc)
    moreover have "\<forall>j < Suc k. commits (we_commit we (i + j))" using k(2) True by (auto simp: less_Suc_eq_0_disj)
    ultimately show ?thesis using k(1,3)
      by (intro exI [of _ "Suc k"]) (simp only: out list.size add_Suc_right add_Suc Suc_le_mono Suc_less_eq
          simp_thms plus_nat.add_0 split: if_split_asm if_split, auto)
  next
    case False
    then obtain e where e: "commit_file (we_commit we i) (path, tmp) d
        = (Some e, if half_replaced (we_commit we i) then d(path := None) else d)"
      using commit_file_fails by blast
    have "remove_staged (st # sts) (d(path := None)) = (remove_staged (st # sts) d)(path := None)"
      using tmp by (intro remove_staged_other) (auto simp: st)
    then show ?thesis using Cons.prems(4) e False
      by (intro exI [of _ 0]) (auto simp: st out Let_def)
  qed
qed auto

lemma leading_upt:
  "k \<le> n \<Longrightarrow> \<forall>j < k. P j \<Longrightarrow> k = n \<or> \<not> P k \<Longrightarrow> length (takeWhile P [0..<n]) = k"
proof -
  assume k: "k \<le> n" "\<forall>j < k. P j" "k = n \<or> \<not> P k"
  then have "[0..<n] = [0..<k] @ [k..<n]" by (metis le0 upt_add_eq_append le_add_diff_inverse)
  moreover have "takeWhile P ([0..<k] @ [k..<n]) = [0..<k] @ takeWhile P [k..<n]"
    using k(2) by (intro takeWhile_append2) auto
  moreover have "takeWhile P [k..<n] = []" using k(1,3) by (cases "k = n") (simp_all add: upt_rec)
  ultimately show ?thesis by simp
qed

lemma write_all_effect_raw:
  assumes "temps_fresh we out d" and "write_all we out d = (r, d')"
  shows "if \<not> list_all (\<lambda>i. we_stage we i = StageOk) [0..<length out] then r \<noteq> None \<and> d' = d
    else
      let k = length (takeWhile (\<lambda>i. commits (we_commit we i)) [0..<length out]);
          n = replace_all (take k out) d in
      (r = None \<longleftrightarrow> k = length out)
      \<and> d' = (if k < length out \<and> half_replaced (we_commit we k) then n(fst (out ! k) := None) else n)"
proof -
  have tmp: "inj (we_tmp we)" "\<And>j. d (we_tmp we j) = None" "\<And>j. we_tmp we j \<notin> fst ` set out"
    using assms(1) by (auto simp: temps_fresh_def)
  obtain r1 sts d1 where st: "stage_all we 0 out d = (r1, sts, d1)" by (metis prod_cases3)
  note stage = stage_all_effect [OF tmp(1,2) st]
  note undone = stage [THEN conjunct1] and tmps = stage [THEN conjunct2, THEN conjunct1]
    and dist = stage [THEN conjunct2, THEN conjunct2, THEN conjunct1]
    and held = stage [THEN conjunct2, THEN conjunct2, THEN conjunct2, THEN conjunct2, THEN conjunct1]
  have ok: "r1 = None \<longleftrightarrow> list_all (\<lambda>i. we_stage we i = StageOk) [0..<length out]"
  proof -
    have "list_all (\<lambda>i. we_stage we i = StageOk) [0..<length out] \<longleftrightarrow> (\<forall>k < length out. we_stage we (0 + k) = StageOk)"
      by (auto simp: list_all_iff)
    then show ?thesis using stage by (simp only:)
  qed
  show ?thesis
  proof (cases r1)
    case (Some e)
    then show ?thesis using assms(2) st undone ok by (auto simp: write_all_def)
  next
    case None
    obtain r2 rest d2 where ct: "commit_all we 0 sts d1 = (r2, rest, d2)" by (metis prod_cases3)
    have "x \<notin> fst ` set out" if x: "x \<in> snd ` set sts" for x
    proof -
      obtain j where "x = we_tmp we j" using subsetD [OF tmps x] by (elim imageE)
      then show ?thesis using tmp(3) by simp
    qed
    then have disj: "fst ` set out \<inter> snd ` set sts = {}" by (meson disjoint_iff)
    have all: "list_all2 (holds d1) sts out" using held None by simp
    obtain k where k: "k \<le> length out" "\<forall>j < k. commits (we_commit we j)"
        "if r2 = None then k = length out else k < length out \<and> \<not> commits (we_commit we k)"
        "remove_staged rest d2 =
          (let d' = replace_all (take k out) (remove_staged sts d1) in
           if r2 \<noteq> None \<and> half_replaced (we_commit we k) then d'(fst (out ! k) := None) else d')"
      using commit_all_effect [OF all dist disj ct, unfolded add_0] by blast
    have "r = r2" "d' = remove_staged rest d2" using assms(2) st ct None by (simp_all add: write_all_def)
    moreover note undone
    moreover have "length (takeWhile (\<lambda>i. commits (we_commit we i)) [0..<length out]) = k"
      using k by (intro leading_upt) (auto split: if_splits)
    ultimately show ?thesis using k ok None by (auto simp: Let_def split: if_splits)
  qed
qed

text \<open>
  C29: what a run leaves on the disk. When an output cannot be staged, whatever the operation that
  fails, nothing is changed. Otherwise the outputs are replaced in their order up to the first whose
  rename fails, which is all of them when the run reports success; the output whose rename failed
  keeps its content, unless it was removed first to make room. No temporary file is left behind in
  any case.
\<close>

theorem write_all_effect:
  assumes "temps_fresh we out d" and "write_all we out d = (r, d')"
  shows "if \<not> list_all (\<lambda>i. we_stage we i = StageOk) [0..<length out] then r \<noteq> None \<and> d' = d
    else
      let k = length (takeWhile (\<lambda>i. commits (we_commit we i)) [0..<length out]);
          n = replace_all (take k out) d in
      (r = None \<longleftrightarrow> k = length out)
      \<and> d' = (if k < length out \<and> half_replaced (we_commit we k) then n(fst (out ! k) := None) else n)"
  by (rule write_all_effect_raw [OF assms])

definition demo_we :: "(nat \<Rightarrow> commit_fault) \<Rightarrow> write_env" where
  "demo_we cf = \<lparr>we_stage = (\<lambda>_. StageOk), we_commit = cf, we_tmp = (\<lambda>i. ''/o/.argos-'' @ nat_str i), we_read = (\<lambda>_. None)\<rparr>"

definition demo_outputs :: "gen_output list" where
  "demo_outputs = [(''/o/a.pb.go'', ''new a''), (''/o/a.argos.go'', ''new b'')]"

definition demo_disk :: disk where
  "demo_disk = [''/o/a.pb.go'' \<mapsto> ''old a'', ''/o/a.argos.go'' \<mapsto> ''old b'']"

definition second_fails :: "nat \<Rightarrow> commit_fault" where
  "second_fails i = (if i = 1 then FailRename (ErrVar ''permission denied'') else CommitOk)"

lemma demo_temps_fresh: "temps_fresh (demo_we cf) demo_outputs demo_disk"
  by (auto simp: temps_fresh_def demo_we_def demo_outputs_def demo_disk_def inj_def nat_str_inj)

lemma write_all_effect_witness:
  "snd (write_all (demo_we second_fails) demo_outputs demo_disk) = replace_all (take 1 demo_outputs) demo_disk"
proof -
  obtain r d' where w: "write_all (demo_we second_fails) demo_outputs demo_disk = (r, d')" by fastforce
  have "length (takeWhile (\<lambda>i. commits (we_commit (demo_we second_fails) i)) [0..<length demo_outputs]) = 1"
    "list_all (\<lambda>i. we_stage (demo_we second_fails) i = StageOk) [0..<length demo_outputs]"
    "\<not> half_replaced (we_commit (demo_we second_fails) 1)" by code_simp+
  then show ?thesis using write_all_effect [OF demo_temps_fresh w] by (simp add: w Let_def)
qed

text \<open>
  A failed run can leave a mixed set of outputs. When the rename of the second output fails, the
  first is already replaced; the comment of \<open>writeAll\<close> says that every output is replaced or none.
\<close>

lemma failed_run_replaces_some:
  "case write_all (demo_we second_fails) demo_outputs demo_disk of
     (r, d') \<Rightarrow> r \<noteq> None \<and> d' ''/o/a.pb.go'' = Some ''new a'' \<and> d' ''/o/a.argos.go'' = Some ''old b''"
  by code_simp

section \<open>Where a run writes\<close>

definition inside :: "gen_env \<Rightarrow> string \<Rightarrow> string \<Rightarrow> bool" where
  "inside env dir p \<longleftrightarrow>
     (case abs_path env dir of Inl _ \<Rightarrow> False | Inr base \<Rightarrow> prefix (path_segs base) (path_segs p))"

definition getwd_ok :: "gen_env \<Rightarrow> bool" where
  "getwd_ok env \<longleftrightarrow> (case ge_getwd env of Inl _ \<Rightarrow> True | Inr wd \<Rightarrow> is_abs wd)"

lemma join_abs: "is_abs a \<Longrightarrow> is_abs (path_join a b)"
  by (cases "b = []") (auto simp: path_join_def is_abs_def path_clean_def)

lemma abs_path_abs: "getwd_ok env \<Longrightarrow> abs_path env p = Inr q \<Longrightarrow> is_abs q"
  by (auto simp: abs_path_def getwd_ok_def join_abs split: if_splits sum.splits)

lemma rel_string_inside:
  assumes "rel \<noteq> ''..''" "\<not> has_prefix rel ''../''" "rel = (if r = [] then ''.'' else go_join r [slash_c])"
  shows "r = [] \<or> hd r \<noteq> ''..''"
proof (cases r)
  case (Cons w ws)
  show ?thesis
  proof (cases "w = ''..''")
    case True
    then show ?thesis using assms Cons by (cases ws) (auto simp: has_prefix_def)
  qed (simp add: Cons)
qed simp

lemma safe_output_inside:
  assumes "getwd_ok env" "safe_output_path env dir name = Inr p"
  shows "inside env dir p \<and> is_abs p"
proof -
  let ?n = "map (\<lambda>c. if c = char_of (92 :: nat) then slash_c else c) name"
  obtain base where base: "abs_path env dir = Inr base" and p: "p = path_join base (path_clean ?n)"
      and rel: "path_rel base p \<noteq> ''..''" "\<not> has_prefix (path_rel base p) ''../''"
    using assms(2) by (auto simp: safe_output_path_def Let_def split: if_splits sum.splits)
  have abs: "is_abs base" "is_abs p" using abs_path_abs [OF assms(1) base] p join_abs by auto
  have "rel_segs (path_segs base) (path_segs p) = [] \<or> hd (rel_segs (path_segs base) (path_segs p)) \<noteq> ''..''"
    using rel_string_inside [OF rel] by (simp add: path_rel_def Let_def)
  then obtain r where "path_segs p = path_segs base @ r" using rel_inside [OF segs_rooted [OF abs(2)]] by blast
  then show ?thesis using base abs by (simp add: inside_def)
qed

lemma output_path_inside:
  assumes "getwd_ok env" "ro_OutDir opts \<noteq> []" "output_path env opts inputs name = Inr p"
  shows "inside env (ro_OutDir opts) p"
  using assms(2,3) safe_output_inside [OF assms(1), of "ro_OutDir opts" name p]
  by (simp add: output_path_def split: if_splits)

lemma unit_outputs_inside:
  assumes "getwd_ok env" "ro_OutDir opts \<noteq> []"
  shows "unit_outputs env opts inputs us = Inr out \<Longrightarrow> list_all (\<lambda>o'. inside env (ro_OutDir opts) (fst o')) out"
proof (induction us arbitrary: out)
  case (Cons u us)
  then show ?case using output_path_inside [OF assms] by (auto split: sum.splits)
qed simp

lemma file_outputs_inside:
  assumes "getwd_ok env" "ro_OutDir opts \<noteq> []" "file_outputs env opts inputs f = Inr out"
  shows "list_all (\<lambda>o'. inside env (ro_OutDir opts) (fst o')) out"
  using assms(3) unit_outputs_inside [OF assms(1,2)] output_path_inside [OF assms(1,2)]
  by (auto simp: file_outputs_def split: sum.splits option.splits)

lemma all_outputs_inside:
  assumes "getwd_ok env" "ro_OutDir opts \<noteq> []"
  shows "all_outputs env opts inputs fs = Inr out \<Longrightarrow> list_all (\<lambda>o'. inside env (ro_OutDir opts) (fst o')) out"
proof (induction fs arbitrary: out)
  case (Cons f fs)
  then show ?case using file_outputs_inside [OF assms] by (auto split: sum.splits)
qed simp

lemma run_outputs_inside:
  assumes "getwd_ok env" "ro_OutDir opts \<noteq> []" "run_outputs env opts inputs = Inr out"
  shows "list_all (\<lambda>o'. inside env (ro_OutDir opts) (fst o')) out"
proof -
  obtain fs where "all_outputs env opts inputs fs = Inr out"
  proof (cases "inputs = []")
    case True
    then have "out = []" using assms(3) by (auto simp: run_outputs_def split: if_splits sum.splits)
    then show thesis by (intro that [of "[]"]) simp
  next
    case False
    then show thesis using assms(3) that by (auto simp: run_outputs_def split: sum.splits)
  qed
  then show ?thesis using all_outputs_inside [OF assms(1,2)] by blast
qed

lemma replace_all_other: "q \<notin> fst ` set out \<Longrightarrow> replace_all out d q = d q"
proof (induction out arbitrary: d)
  case (Cons ps out)
  then show ?case by (cases ps) simp
qed simp

lemma write_all_other:
  assumes "temps_fresh we out d" "write_all we out d = (r, d')" "q \<notin> fst ` set out"
  shows "d' q = d q"
proof -
  have "q \<notin> fst ` set (take k out)" for k using assms(3) set_take_subset [of k out] by blast
  moreover have "k < length out \<Longrightarrow> q \<noteq> fst (out ! k)" for k using assms(3) by auto
  ultimately show ?thesis using write_all_effect_raw [OF assms(1,2)] replace_all_other
    by (auto simp: Let_def split: if_splits)
qed

text \<open>
  C28: a run with an output directory writes nothing outside it. Whatever names the parsed files ask for,
  absolute, with parent segments or with backslashes, every path whose content a run changes lies in
  the directory given by \<open>--out\<close>, and a run in check mode changes nothing at all.
\<close>

theorem run_writes_inside:
  assumes "getwd_ok env" and dir: "ro_OutDir opts \<noteq> []"
    and fresh: "\<And>out. run_outputs env opts inputs = Inr out \<Longrightarrow> temps_fresh we out d"
    and run: "gen_run env we opts inputs d = (r, d')" and changed: "d' q \<noteq> d q"
  shows "inside env (ro_OutDir opts) q \<and> ro_Check opts = []"
proof -
  obtain out where out: "run_outputs env opts inputs = Inr out" "ro_Check opts = []" "write_all we out d = (r, d')"
    using run changed by (auto simp: gen_run_def split: sum.splits if_splits option.splits)
  have "q \<in> fst ` set out" using write_all_other [OF fresh [OF out(1)] out(3)] changed by blast
  then show ?thesis using run_outputs_inside [OF assms(1) dir out(1)] out(2) by (auto simp: list_all_iff)
qed

definition demo_env :: gen_env where
  "demo_env = \<lparr>ge_uni = ascii_table, ge_gofmt = Inr, ge_parse_go = (\<lambda>_. None), ge_protobuf = (\<lambda>_. Inr []),
     ge_getwd = Inr ''/home'', ge_plugin = (\<lambda>_ _. Inr []), ge_proto = (\<lambda>_ _. Inr []),
     ge_irjson = (\<lambda>_. Inr [demo_ir_file ''demo'' [demo_ir_method ''Say'' [] ServerStreaming]])\<rparr>"

definition demo_opts :: run_options where
  "demo_opts = \<lparr>ro_From = ''ir'', ro_Plugin = [], ro_ImportPaths = [], ro_OutDir = ''out'', ro_Check = []\<rparr>"

abbreviation demo_stub :: bytes where
  "demo_stub \<equiv> stub_source ascii_table ''echo'' (completed demo_normal)"

lemma demo_run_outputs: "run_outputs demo_env demo_opts [''echo.json''] = Inr [(''/home/out/echo.argos.go'', demo_stub)]"
proof -
  have v: "validate ascii_table False demo_normal = None" by code_simp
  have m: "message_units demo_env demo_normal = Inr []" by code_simp
  have p: "output_path demo_env demo_opts [''echo.json''] (stub_name demo_normal) = Inr ''/home/out/echo.argos.go''"
    by code_simp
  have env: "ge_uni demo_env = ascii_table" "ge_gofmt demo_env = Inr"
    "ge_irjson demo_env is = Inr [demo_ir_file ''demo'' [demo_ir_method ''Say'' [] ServerStreaming]]" for "is"
    by (simp_all add: demo_env_def)
  have opts: "ro_From demo_opts = ''ir''" "ro_Plugin demo_opts = []" by (simp_all add: demo_opts_def)
  have f: "file_outputs demo_env demo_opts [''echo.json''] demo_normal = Inr [(''/home/out/echo.argos.go'', demo_stub)]"
    by (simp add: file_outputs_def m p env demo_generates message_symbols_def stub_message_collision_def)
  show ?thesis
    by (simp add: run_outputs_def resolve_frontend_def opts env v f flip: demo_normal_def)
qed

lemma run_writes_inside_witness: "inside demo_env ''out'' ''/home/out/echo.argos.go''"
proof -
  let ?we = "demo_we (\<lambda>_. CommitOk)"
  let ?out = "[(''/home/out/echo.argos.go'', demo_stub)]"
  have fresh: "temps_fresh ?we ?out (\<lambda>_. None)"
    by (auto simp: temps_fresh_def demo_we_def inj_def nat_str_inj)
  obtain r d' where run: "gen_run demo_env ?we demo_opts [''echo.json''] (\<lambda>_. None) = (r, d')" by fastforce
  have c: "ro_Check demo_opts = []" "ro_OutDir demo_opts = ''out''" by (simp_all add: demo_opts_def)
  have w: "write_all ?we ?out (\<lambda>_. None) = (r, d')"
    using run by (simp add: gen_run_def demo_run_outputs c)
  have "length (takeWhile (\<lambda>i. commits (we_commit ?we i)) [0..<length ?out]) = 1"
    "list_all (\<lambda>i. we_stage ?we i = StageOk) [0..<length ?out]" by (simp_all add: demo_we_def)
  then have "d' = replace_all ?out (\<lambda>_. None)"
    using write_all_effect_raw [OF fresh w] by (simp add: Let_def)
  then have ch: "d' ''/home/out/echo.argos.go'' \<noteq> None" by simp
  have "getwd_ok demo_env" by code_simp
  from run_writes_inside [OF this _ _ run, of "''/home/out/echo.argos.go''"] show ?thesis
    using fresh ch by (simp add: demo_run_outputs c)
qed

text \<open>
  A check that passes says that the outputs are up to date: the path given is one the run generates,
  and every output is on the disk with the generated content, the volatile header lines aside.
\<close>

lemma check_means_current:
  "(gen_run env we opts inputs d = (None, d') \<and> ro_Check opts \<noteq> []) =
     (ro_Check opts \<noteq> [] \<and> d' = d \<and>
      (case run_outputs env opts inputs of
         Inl _ \<Rightarrow> False
       | Inr out \<Rightarrow> out \<noteq> [] \<and> match_check_path env (ro_Check opts) out = None \<and>
           list_all (\<lambda>(p, src). we_read we p = None
             \<and> (case d p of None \<Rightarrow> False | Some want \<Rightarrow> check_normalize src = check_normalize want)) out))"
proof -
  have one: "check_one we o' d = None \<longleftrightarrow> (case o' of (p, src) \<Rightarrow> we_read we p = None
      \<and> (case d p of None \<Rightarrow> False | Some want \<Rightarrow> check_normalize src = check_normalize want))" for o'
    by (auto simp: check_one_def split: prod.split option.split)
  have "check_files env we c out d = None \<longleftrightarrow> out \<noteq> [] \<and> match_check_path env c out = None \<and>
      list_all (\<lambda>o'. check_one we o' d = None) out" for c out
    by (simp add: check_files_def first_error_None list.pred_map comp_def del: first_error_Cons)
  then show ?thesis by (auto simp: gen_run_def one split: sum.splits)
qed

end
