(* ===== verification/Codegen_Message.thy ===== *)
theory Codegen_Message
  imports Codegen_Stub "HOL-Library.List_Lexorder"
begin

text \<open>
  The protobuf message generator (src/internal/codegen/gen/message): from a file descriptor to the Go
  names, the checks, the flattened tables and the text of the message file (descriptors.go and
  generate.go). The descriptors of the protobuf library are data here: a message or an enum of the
  file is known by its path of indices, which is what the library's pointers stand for. \<open>up\<close> is the
  upper case mapping of package \<open>unicode\<close>.
\<close>

section \<open>Descriptors\<close>

datatype field_kind =
    KBool | KEnum | KInt32 | KSint32 | KUint32 | KInt64 | KSint64 | KUint64 | KSfixed32 | KFixed32 | KFloat
  | KSfixed64 | KFixed64 | KDouble | KString | KBytes | KMessage | KGroup

text \<open>
  A type of the file, or one of another file: its full name and, for an enum, the names of its values,
  for a message, its name behind those of the messages around it.
\<close>

datatype type_ref = InFile "nat list" | Elsewhere string "string list"

record field_desc =
  pf_name :: string
  pf_fullName :: string
  pf_number :: int
  pf_kind :: field_kind
  pf_jsonName :: string
  pf_list :: bool
  pf_map :: bool
  pf_packed :: bool
  pf_optional :: bool
  pf_oneof :: bool
  pf_ref :: type_ref

record enum_desc =
  pe_name :: string
  pe_fullName :: string
  pe_values :: "(string \<times> int) list"

datatype msg_desc =
  MsgDesc (ms_name: string) (ms_fullName: string) (ms_mapEntry: bool) (ms_fields: "field_desc list")
    (ms_enums: "enum_desc list") (ms_messages: "msg_desc list")

record rpc_desc =
  pm_name :: string
  pm_fullName :: string
  pm_input :: type_ref
  pm_output :: type_ref
  pm_clientStream :: bool
  pm_serverStream :: bool

record service_desc =
  pv_name :: string
  pv_fullName :: string
  pv_methods :: "rpc_desc list"

record proto_file =
  pr_path :: string
  pr_package :: string
  pr_goPackage :: "string option"
  pr_syntax :: string
  pr_enums :: "enum_desc list"
  pr_messages :: "msg_desc list"
  pr_services :: "service_desc list"

definition file_rpcs :: "proto_file \<Rightarrow> rpc_desc list" where
  "file_rpcs fd = concat (map pv_methods (pr_services fd))"

fun msg_at :: "msg_desc list \<Rightarrow> nat list \<Rightarrow> msg_desc option" where
  "msg_at ms [] = None"
| "msg_at ms [i] = (if i < length ms then Some (ms ! i) else None)"
| "msg_at ms (i # j # p) = (if i < length ms then msg_at (ms_messages (ms ! i)) (j # p) else None)"

definition enums_of :: "proto_file \<Rightarrow> nat list \<Rightarrow> enum_desc list" where
  "enums_of fd p =
     (if p = [] then pr_enums fd
      else case msg_at (pr_messages fd) p of None \<Rightarrow> [] | Some m \<Rightarrow> ms_enums m)"

definition enum_at :: "proto_file \<Rightarrow> nat list \<Rightarrow> enum_desc option" where
  "enum_at fd p =
     (if p = [] then None
      else let es = enums_of fd (butlast p) in if last p < length es then Some (es ! last p) else None)"

section \<open>The flattened order\<close>

text \<open>
  \<open>walkNested\<close>: a message records all its direct enums and messages before any of them is visited. A
  map entry is not descended into.
\<close>

fun walk_messages :: "nat list \<Rightarrow> msg_desc \<Rightarrow> nat list list"
  and walk_messages_list :: "nat list \<Rightarrow> nat \<Rightarrow> msg_desc list \<Rightarrow> nat list list" where
  "walk_messages p (MsgDesc n f me fs es ms) =
     (if me then [] else map (\<lambda>i. p @ [i]) [0..<length ms] @ walk_messages_list p 0 ms)"
| "walk_messages_list p i [] = []"
| "walk_messages_list p i (m # ms) = walk_messages (p @ [i]) m @ walk_messages_list p (Suc i) ms"

fun walk_enums :: "nat list \<Rightarrow> msg_desc \<Rightarrow> nat list list"
  and walk_enums_list :: "nat list \<Rightarrow> nat \<Rightarrow> msg_desc list \<Rightarrow> nat list list" where
  "walk_enums p (MsgDesc n f me fs es ms) =
     (if me then [] else map (\<lambda>i. p @ [i]) [0..<length es] @ walk_enums_list p 0 ms)"
| "walk_enums_list p i [] = []"
| "walk_enums_list p i (m # ms) = walk_enums (p @ [i]) m @ walk_enums_list p (Suc i) ms"

definition flat_messages :: "proto_file \<Rightarrow> nat list list" where
  "flat_messages fd =
     map (\<lambda>i. [i]) [0..<length (pr_messages fd)] @ walk_messages_list [] 0 (pr_messages fd)"

definition flat_enums :: "proto_file \<Rightarrow> nat list list" where
  "flat_enums fd = map (\<lambda>i. [i]) [0..<length (pr_enums fd)] @ walk_enums_list [] 0 (pr_messages fd)"

fun position :: "'a \<Rightarrow> 'a list \<Rightarrow> nat option" where
  "position x [] = None"
| "position x (y # ys) = (if x = y then Some 0 else map_option Suc (position x ys))"

definition is_map_entry :: "proto_file \<Rightarrow> nat list \<Rightarrow> bool" where
  "is_map_entry fd p = (case msg_at (pr_messages fd) p of None \<Rightarrow> False | Some m \<Rightarrow> ms_mapEntry m)"

definition generated_messages :: "proto_file \<Rightarrow> nat list list" where
  "generated_messages fd = filter (\<lambda>p. \<not> is_map_entry fd p) (flat_messages fd)"

definition fields_of :: "proto_file \<Rightarrow> nat list \<Rightarrow> field_desc list" where
  "fields_of fd p = (case msg_at (pr_messages fd) p of None \<Rightarrow> [] | Some m \<Rightarrow> ms_fields m)"

definition message_full_name :: "proto_file \<Rightarrow> nat list \<Rightarrow> string" where
  "message_full_name fd p = (case msg_at (pr_messages fd) p of None \<Rightarrow> [] | Some m \<Rightarrow> ms_fullName m)"

definition enum_full_name :: "proto_file \<Rightarrow> nat list \<Rightarrow> string" where
  "enum_full_name fd p = (case enum_at fd p of None \<Rightarrow> [] | Some e \<Rightarrow> pe_fullName e)"

section \<open>Go names\<close>

fun export_runes :: "(nat \<Rightarrow> nat) \<Rightarrow> bool \<Rightarrow> nat list \<Rightarrow> nat list" where
  "export_runes up upperNext [] = []"
| "export_runes up upperNext (r # rs) =
     (if r = 95 then export_runes up True rs
      else (if upperNext then up r else r) # export_runes up False rs)"

definition export_go_name :: "(nat \<Rightarrow> nat) \<Rightarrow> string \<Rightarrow> string" where
  "export_go_name up name =
     (let b = concat (map utf8_encode (export_runes up True (go_runes name))) in if b = [] then ''_'' else b)"

definition nested_name :: "string \<Rightarrow> string \<Rightarrow> string" where
  "nested_name parent name = (if parent \<noteq> [] then parent @ ''_'' @ name else name)"

fun go_name_from :: "(nat \<Rightarrow> nat) \<Rightarrow> string \<Rightarrow> msg_desc list \<Rightarrow> nat list \<Rightarrow> string" where
  "go_name_from up parent ms [] = parent"
| "go_name_from up parent ms (i # p) =
     (if i < length ms
      then go_name_from up (nested_name parent (export_go_name up (ms_name (ms ! i)))) (ms_messages (ms ! i)) p
      else [])"

text \<open>The maps \<open>messageGoName\<close> and \<open>enumGoName\<close>; what is not recorded has the empty name.\<close>

definition message_go_name :: "(nat \<Rightarrow> nat) \<Rightarrow> proto_file \<Rightarrow> nat list \<Rightarrow> string" where
  "message_go_name up fd p = (if p \<in> set (flat_messages fd) then go_name_from up [] (pr_messages fd) p else [])"

definition enum_go_name :: "(nat \<Rightarrow> nat) \<Rightarrow> proto_file \<Rightarrow> nat list \<Rightarrow> string" where
  "enum_go_name up fd p =
     (if p \<in> set (flat_enums fd) then
        (case enum_at fd p of
           None \<Rightarrow> []
         | Some e \<Rightarrow> nested_name (go_name_from up [] (pr_messages fd) (butlast p)) (export_go_name up (pe_name e)))
      else [])"

definition msg_error :: "string \<Rightarrow> go_error" where
  "msg_error t = ErrNew (''message: '' @ t)"

definition local_message_type :: "(nat \<Rightarrow> nat) \<Rightarrow> proto_file \<Rightarrow> type_ref \<Rightarrow> go_error + string" where
  "local_message_type up fd r =
     (case r of
        InFile p \<Rightarrow>
          if p \<in> set (flat_messages fd) then Inr (message_go_name up fd p)
          else Inl (msg_error (''field references message '' @ go_quote (message_full_name fd p)
                 @ '' outside the generated file; generate imported message packages separately''))
      | Elsewhere n vs \<Rightarrow>
          Inl (msg_error (''field references message '' @ go_quote n
                 @ '' outside the generated file; generate imported message packages separately'')))"

definition local_enum_type :: "(nat \<Rightarrow> nat) \<Rightarrow> proto_file \<Rightarrow> type_ref \<Rightarrow> go_error + string" where
  "local_enum_type up fd r =
     (case r of
        InFile p \<Rightarrow>
          if p \<in> set (flat_enums fd) then Inr (enum_go_name up fd p)
          else Inl (msg_error (''field references enum '' @ go_quote (enum_full_name fd p)
                 @ '' outside the generated file; generate imported enum packages separately''))
      | Elsewhere n vs \<Rightarrow>
          Inl (msg_error (''field references enum '' @ go_quote n
                 @ '' outside the generated file; generate imported enum packages separately'')))"

definition message_type_index :: "proto_file \<Rightarrow> type_ref \<Rightarrow> nat option" where
  "message_type_index fd r =
     (case r of
        InFile p \<Rightarrow> map_option (\<lambda>i. length (flat_enums fd) + i) (position p (flat_messages fd))
      | Elsewhere n vs \<Rightarrow> None)"

definition enum_type_index :: "proto_file \<Rightarrow> type_ref \<Rightarrow> nat option" where
  "enum_type_index fd r = (case r of InFile p \<Rightarrow> position p (flat_enums fd) | Elsewhere n vs \<Rightarrow> None)"

text \<open>Of an enum of a message the prefix is the name of the message.\<close>

definition enum_constant_prefix :: "(nat \<Rightarrow> nat) \<Rightarrow> proto_file \<Rightarrow> nat list \<Rightarrow> string" where
  "enum_constant_prefix up fd p =
     (if 1 < length p then message_go_name up fd (butlast p) else enum_go_name up fd p)"

definition enum_constant_name :: "(nat \<Rightarrow> nat) \<Rightarrow> proto_file \<Rightarrow> nat list \<Rightarrow> string \<Rightarrow> string" where
  "enum_constant_name up fd p v = enum_constant_prefix up fd p @ ''_'' @ v"

section \<open>Types\<close>

definition scalar_go_type :: "field_kind \<Rightarrow> string option" where
  "scalar_go_type k =
     (case k of
        KBool \<Rightarrow> Some ''bool''
      | KInt32 \<Rightarrow> Some ''int32'' | KSint32 \<Rightarrow> Some ''int32'' | KSfixed32 \<Rightarrow> Some ''int32''
      | KInt64 \<Rightarrow> Some ''int64'' | KSint64 \<Rightarrow> Some ''int64'' | KSfixed64 \<Rightarrow> Some ''int64''
      | KUint32 \<Rightarrow> Some ''uint32'' | KFixed32 \<Rightarrow> Some ''uint32''
      | KUint64 \<Rightarrow> Some ''uint64'' | KFixed64 \<Rightarrow> Some ''uint64''
      | KFloat \<Rightarrow> Some ''float32'' | KDouble \<Rightarrow> Some ''float64''
      | KString \<Rightarrow> Some ''string'' | KBytes \<Rightarrow> Some ''[]byte''
      | KEnum \<Rightarrow> None | KMessage \<Rightarrow> None | KGroup \<Rightarrow> None)"

definition is_message_kind :: "field_kind \<Rightarrow> bool" where
  "is_message_kind k \<longleftrightarrow> k = KMessage \<or> k = KGroup"

definition go_single_field_type :: "(nat \<Rightarrow> nat) \<Rightarrow> proto_file \<Rightarrow> field_desc \<Rightarrow> go_error + string" where
  "go_single_field_type up fd f =
     (case scalar_go_type (pf_kind f) of
        Some t \<Rightarrow> Inr t
      | None \<Rightarrow>
          if pf_kind f = KEnum then local_enum_type up fd (pf_ref f)
          else (case local_message_type up fd (pf_ref f) of Inl e \<Rightarrow> Inl e | Inr n \<Rightarrow> Inr (''*'' @ n)))"

definition go_map_field_type :: "(nat \<Rightarrow> nat) \<Rightarrow> proto_file \<Rightarrow> field_desc \<Rightarrow> go_error + string" where
  "go_map_field_type up fd f =
     (if pf_list f \<or> pf_map f \<or> pf_optional f then
        Inl (msg_error (''invalid map entry field '' @ go_quote (pf_fullName f)))
      else go_single_field_type up fd f)"

definition field_by_name :: "string \<Rightarrow> field_desc list \<Rightarrow> field_desc option" where
  "field_by_name n fs = find (\<lambda>f. pf_name f = n) fs"

definition ref_fields :: "proto_file \<Rightarrow> type_ref \<Rightarrow> field_desc list" where
  "ref_fields fd r = (case r of InFile p \<Rightarrow> fields_of fd p | Elsewhere n vs \<Rightarrow> [])"

definition go_field_type :: "(nat \<Rightarrow> nat) \<Rightarrow> proto_file \<Rightarrow> field_desc \<Rightarrow> go_error + string" where
  "go_field_type up fd f =
     (if pf_map f then
        (let entry = ref_fields fd (pf_ref f) in
         case (field_by_name ''key'' entry, field_by_name ''value'' entry) of
           (Some key, Some val) \<Rightarrow>
             (case go_map_field_type up fd key of
                Inl e \<Rightarrow> Inl e
              | Inr kt \<Rightarrow>
                  (case go_map_field_type up fd val of
                     Inl e \<Rightarrow> Inl e
                   | Inr vt \<Rightarrow> Inr (''map['' @ kt @ '']'' @ vt)))
         | _ \<Rightarrow> Inl (msg_error (''malformed map field '' @ go_quote (pf_fullName f))))
      else
        case go_single_field_type up fd f of
          Inl e \<Rightarrow> Inl e
        | Inr t \<Rightarrow>
            if pf_list f then Inr (''[]'' @ t)
            else if pf_optional f \<and> pf_kind f \<noteq> KMessage then Inr (''*'' @ t)
            else Inr t)"

definition is_optional_scalar :: "field_desc \<Rightarrow> bool" where
  "is_optional_scalar f \<longleftrightarrow> pf_optional f \<and> pf_kind f \<noteq> KMessage \<and> pf_kind f \<noteq> KGroup"

definition go_getter_type :: "(nat \<Rightarrow> nat) \<Rightarrow> proto_file \<Rightarrow> field_desc \<Rightarrow> go_error + string" where
  "go_getter_type up fd f = (if is_optional_scalar f then go_single_field_type up fd f else go_field_type up fd f)"

section \<open>The checks\<close>

fun hex_str :: "nat \<Rightarrow> string" where
  "hex_str n = (if n < 16 then [hex_digit n] else hex_str (n div 16) @ [hex_digit (n mod 16)])"

declare hex_str.simps [simp del]

definition ident_rune :: "unicode_table \<Rightarrow> nat \<Rightarrow> string" where
  "ident_rune uni r = (if u_letter uni r \<or> u_digit uni r then utf8_encode r else ''_'' @ hex_str r @ ''_'')"

definition file_ident :: "unicode_table \<Rightarrow> string \<Rightarrow> string" where
  "file_ident uni path =
     (let b = concat (map (ident_rune uni) (go_runes path)) in if b = [] then ''argos_proto'' else b)"

definition file_symbols :: "string \<Rightarrow> (string \<times> string) list" where
  "file_symbols ident =
     [(''File_'' @ ident, ''file descriptor variable''),
      (''file_'' @ ident @ ''_rawDesc'', ''raw descriptor variable''),
      (''file_'' @ ident @ ''_rawDescOnce'', ''raw descriptor guard''),
      (''file_'' @ ident @ ''_rawDescData'', ''compressed descriptor variable''),
      (''file_'' @ ident @ ''_rawDescGZIP'', ''descriptor helper''),
      (''file_'' @ ident @ ''_enumTypes'', ''enum info variable''),
      (''file_'' @ ident @ ''_msgTypes'', ''message info variable''),
      (''file_'' @ ident @ ''_goTypes'', ''Go types variable''),
      (''file_'' @ ident @ ''_depIdxs'', ''dependency index variable''),
      (''file_'' @ ident @ ''_init'', ''file initializer'')]"

text \<open>What the file declares, in the order the check goes through it.\<close>

definition enum_declarations :: "(nat \<Rightarrow> nat) \<Rightarrow> proto_file \<Rightarrow> nat list \<Rightarrow> (string \<times> string) list" where
  "enum_declarations up fd p =
     (let n = enum_go_name up fd p; vs = (case enum_at fd p of None \<Rightarrow> [] | Some e \<Rightarrow> pe_values e) in
      [(n, ''enum type''), (n @ ''_name'', ''enum name map''), (n @ ''_value'', ''enum value map'')]
      @ map (\<lambda>v. (enum_constant_name up fd p (fst v), ''enum constant'')) vs)"

definition declarations :: "unicode_table \<Rightarrow> (nat \<Rightarrow> nat) \<Rightarrow> proto_file \<Rightarrow> (string \<times> string) list" where
  "declarations uni up fd =
     file_symbols (file_ident uni (pr_path fd))
     @ concat (map (enum_declarations up fd) (flat_enums fd))
     @ map (\<lambda>p. (message_go_name up fd p, ''message type'')) (generated_messages fd)"

fun declare_all :: "unicode_table \<Rightarrow> (string \<times> string) list \<Rightarrow> (string \<times> string) list
    \<Rightarrow> go_error + (string \<times> string) list" where
  "declare_all uni seen [] = Inr seen"
| "declare_all uni seen ((name, kind) # ds) =
     (if \<not> is_go_identifier uni name then
        Inl (msg_error (''generated '' @ kind @ '' name '' @ go_quote name @ '' is not a valid Go identifier''))
      else
        case map_of seen name of
          Some previous \<Rightarrow>
            Inl (msg_error (''generated '' @ kind @ '' '' @ go_quote name @ '' conflicts with '' @ previous))
        | None \<Rightarrow> declare_all uni (seen @ [(name, kind)]) ds)"

definition reserved_methods :: "string list" where
  "reserved_methods = [''String'', ''Reset'', ''ProtoMessage'', ''ProtoReflect'', ''Descriptor'']"

text \<open>
  The fields of one message, with the field names and the getter names seen so far; None when there is
  no objection.
\<close>

fun check_msg_fields :: "unicode_table \<Rightarrow> (nat \<Rightarrow> nat) \<Rightarrow> proto_file \<Rightarrow> string \<Rightarrow> string list \<Rightarrow> string list
    \<Rightarrow> field_desc list \<Rightarrow> go_error option" where
  "check_msg_fields uni up fd full names getters [] = None"
| "check_msg_fields uni up fd full names getters (f # fs) =
     (let fieldName = export_go_name up (pf_name f); getterName = ''Get'' @ fieldName in
      if pf_oneof f then Some (msg_error (''oneof field '' @ go_quote (pf_fullName f) @ '' is not supported''))
      else if \<not> is_go_identifier uni fieldName then
        Some (msg_error (''field '' @ go_quote (pf_fullName f) @ '' generates invalid Go identifier '' @ go_quote fieldName))
      else if fieldName \<in> set names then
        Some (msg_error (''fields in '' @ go_quote full @ '' generate duplicate Go name '' @ go_quote fieldName))
      else if getterName \<in> set getters then
        Some (msg_error (''fields in '' @ go_quote full @ '' generate duplicate getter '' @ go_quote getterName))
      else if fieldName \<in> set reserved_methods then
        Some (msg_error (''field '' @ go_quote (pf_fullName f) @ '' conflicts with generated method '' @ fieldName))
      else
        case go_field_type up fd f of
          Inl e \<Rightarrow> Some e
        | Inr t \<Rightarrow> check_msg_fields uni up fd full (names @ [fieldName]) (getters @ [getterName]) fs)"

definition check_message :: "unicode_table \<Rightarrow> (nat \<Rightarrow> nat) \<Rightarrow> proto_file \<Rightarrow> nat list \<Rightarrow> go_error option" where
  "check_message uni up fd p =
     (if is_map_entry fd p then None
      else check_msg_fields uni up fd (message_full_name fd p) [] [] (fields_of fd p))"

definition check_rpc :: "(nat \<Rightarrow> nat) \<Rightarrow> proto_file \<Rightarrow> rpc_desc \<Rightarrow> go_error option" where
  "check_rpc up fd m =
     (case local_message_type up fd (pm_input m) of
        Inl e \<Rightarrow> Some (ErrWrap (''message: RPC '' @ go_quote (pm_fullName m) @ '' input: '') [e])
      | Inr _ \<Rightarrow>
          (case local_message_type up fd (pm_output m) of
             Inl e \<Rightarrow> Some (ErrWrap (''message: RPC '' @ go_quote (pm_fullName m) @ '' output: '') [e])
           | Inr _ \<Rightarrow> None))"

definition validate_descriptor :: "unicode_table \<Rightarrow> (nat \<Rightarrow> nat) \<Rightarrow> proto_file \<Rightarrow> go_error + string list" where
  "validate_descriptor uni up fd =
     (case declare_all uni [] (declarations uni up fd) of
        Inl e \<Rightarrow> Inl e
      | Inr ds \<Rightarrow>
          (case first_error (map (check_message uni up fd) (flat_messages fd)) of
             Some e \<Rightarrow> Inl e
           | None \<Rightarrow>
               (case first_error (map (check_rpc up fd) (file_rpcs fd)) of
                  Some e \<Rightarrow> Inl e
                | None \<Rightarrow> Inr (sort (map fst ds)))))"

section \<open>Dependencies\<close>

text \<open>The rows of \<open>depIdxs\<close>: an index that is not found is left out.\<close>

definition field_dep :: "proto_file \<Rightarrow> field_desc \<Rightarrow> nat option" where
  "field_dep fd f =
     (if is_message_kind (pf_kind f) then message_type_index fd (pf_ref f)
      else if pf_kind f = KEnum then enum_type_index fd (pf_ref f)
      else None)"

definition field_deps :: "proto_file \<Rightarrow> nat list" where
  "field_deps fd = concat (map (\<lambda>p. List.map_filter (field_dep fd) (fields_of fd p)) (flat_messages fd))"

definition input_deps :: "proto_file \<Rightarrow> nat list" where
  "input_deps fd = List.map_filter (\<lambda>m. message_type_index fd (pm_input m)) (file_rpcs fd)"

definition output_deps :: "proto_file \<Rightarrow> nat list" where
  "output_deps fd = List.map_filter (\<lambda>m. message_type_index fd (pm_output m)) (file_rpcs fd)"

definition dep_offsets :: "proto_file \<Rightarrow> nat list" where
  "dep_offsets fd =
     (let nField = length (field_deps fd); nIn = length (input_deps fd); nOut = length (output_deps fd) in
      [nField + nIn, nField, nField + nIn + nOut, nField + nIn + nOut, 0])"

definition dep_idxs :: "proto_file \<Rightarrow> nat list" where
  "dep_idxs fd = field_deps fd @ input_deps fd @ output_deps fd @ dep_offsets fd"

text \<open>The entries of \<open>goTypes\<close>: a zero value of every enum, a nil pointer to every message.\<close>

definition go_types :: "(nat \<Rightarrow> nat) \<Rightarrow> proto_file \<Rightarrow> string list" where
  "go_types up fd =
     map (\<lambda>p. ''('' @ enum_go_name up fd p @ '')(0)'') (flat_enums fd)
     @ map (\<lambda>p. if is_map_entry fd p then ''nil'' else ''(*'' @ message_go_name up fd p @ '')(nil)'') (flat_messages fd)"

section \<open>Tags\<close>

definition wire_type :: "field_kind \<Rightarrow> string" where
  "wire_type k =
     (case k of
        KString \<Rightarrow> ''bytes'' | KBytes \<Rightarrow> ''bytes'' | KMessage \<Rightarrow> ''bytes'' | KGroup \<Rightarrow> ''bytes''
      | KFloat \<Rightarrow> ''fixed32'' | KFixed32 \<Rightarrow> ''fixed32'' | KSfixed32 \<Rightarrow> ''fixed32''
      | KDouble \<Rightarrow> ''fixed64'' | KFixed64 \<Rightarrow> ''fixed64'' | KSfixed64 \<Rightarrow> ''fixed64''
      | _ \<Rightarrow> ''varint'')"

definition ref_full_name :: "proto_file \<Rightarrow> type_ref \<Rightarrow> string" where
  "ref_full_name fd r = (case r of InFile p \<Rightarrow> enum_full_name fd p | Elsewhere n vs \<Rightarrow> n)"

definition protobuf_tag_parts :: "(nat \<Rightarrow> nat) \<Rightarrow> proto_file \<Rightarrow> field_desc \<Rightarrow> string list" where
  "protobuf_tag_parts up fd f =
     [wire_type (pf_kind f), itoa (pf_number f), if pf_list f \<or> pf_map f then ''rep'' else ''opt'']
     @ (if pf_packed f then [''packed''] else [])
     @ [''name='' @ pf_name f]
     @ (if pf_jsonName f \<noteq> pf_name f then [''json='' @ pf_jsonName f] else [])
     @ [''proto3'']
     @ (if pf_kind f = KEnum then
          (case local_enum_type up fd (pf_ref f) of
             Inr _ \<Rightarrow> [''enum='' @ ref_full_name fd (pf_ref f)]
           | Inl _ \<Rightarrow> [])
        else [])
     @ (if pf_optional f then [''oneof''] else [])"

definition map_entry_tag :: "(nat \<Rightarrow> nat) \<Rightarrow> proto_file \<Rightarrow> field_desc option \<Rightarrow> string" where
  "map_entry_tag up fd f = (case f of None \<Rightarrow> [] | Some x \<Rightarrow> go_join (protobuf_tag_parts up fd x) '','')"

definition protobuf_tag :: "(nat \<Rightarrow> nat) \<Rightarrow> proto_file \<Rightarrow> field_desc \<Rightarrow> string" where
  "protobuf_tag up fd f =
     ''protobuf:'' @ dq @ go_join (protobuf_tag_parts up fd f) '','' @ dq
     @ '' json:'' @ dq @ pf_name f @ '',omitempty'' @ dq
     @ (if pf_map f then
          (let entry = ref_fields fd (pf_ref f) in
           '' protobuf_key:'' @ dq @ map_entry_tag up fd (field_by_name ''key'' entry) @ dq
           @ '' protobuf_val:'' @ dq @ map_entry_tag up fd (field_by_name ''value'' entry) @ dq)
        else [])"

definition zero_value :: "(nat \<Rightarrow> nat) \<Rightarrow> proto_file \<Rightarrow> field_desc \<Rightarrow> string" where
  "zero_value up fd f =
     (if pf_list f \<or> pf_map f \<or> is_message_kind (pf_kind f) then ''nil''
      else if pf_kind f = KString then dq @ dq
      else if pf_kind f = KBytes then ''nil''
      else if pf_kind f = KBool then ''false''
      else if pf_kind f = KEnum then
        (case pf_ref f of
           InFile p \<Rightarrow>
             (case enum_at fd p of
                None \<Rightarrow> ''0''
              | Some e \<Rightarrow> (case pe_values e of [] \<Rightarrow> ''0'' | v # _ \<Rightarrow> enum_constant_name up fd p (fst v)))
         | Elsewhere n vs \<Rightarrow> (case vs of [] \<Rightarrow> ''0'' | v # _ \<Rightarrow> ''_'' @ v))
      else ''0'')"

end
