(* ===== verification/Codegen_Message_Text.thy ===== *)
theory Codegen_Message_Text
  imports Codegen_Message
begin

text \<open>
  The text of a message file (src/internal/codegen/gen/message/generate.go), as the list of its lines,
  and the generator around it with the descriptor built from the intermediate representation (fdp.go).
  The path of indices of a message or enum is the one \<open>messagePath\<close> and \<open>enumPath\<close> find. gofmt and the
  protobuf library are arguments.
\<close>

section \<open>Enums\<close>

definition nat_list_text :: "nat list \<Rightarrow> string" where
  "nat_list_text p = go_join (map nat_str p) '', ''"

definition write_enum :: "unicode_table \<Rightarrow> (nat \<Rightarrow> nat) \<Rightarrow> proto_file \<Rightarrow> nat list \<Rightarrow> string list" where
  "write_enum uni up fd p =
     (let n = enum_go_name up fd p; ident = file_ident uni (pr_path fd);
          vs = (case enum_at fd p of None \<Rightarrow> [] | Some e \<Rightarrow> pe_values e);
          i = (case position p (flat_enums fd) of None \<Rightarrow> 0 | Some i \<Rightarrow> i) in
      [''type '' @ n @ '' int32'', '''', ''const (''] @
      map (\<lambda>v. tabs 1 (enum_constant_name up fd p (fst v) @ '' '' @ n @ '' = '' @ itoa (snd v))) vs @
      ['')'', '''', ''var ('', tabs 1 (n @ ''_name = map[int32]string{'')] @
      map (\<lambda>v. tabs 2 (itoa (snd v) @ '': '' @ go_quote (fst v) @ '','')) vs @
      [tabs 1 ''}'', tabs 1 (n @ ''_value = map[string]int32{'')] @
      map (\<lambda>v. tabs 2 (go_quote (fst v) @ '': '' @ itoa (snd v) @ '','')) vs @
      [tabs 1 ''}'', '')'', '''',
       ''func (x '' @ n @ '') Enum() *'' @ n @ '' {'', tabs 1 (''p := new('' @ n @ '')''), tabs 1 ''*p = x'',
       tabs 1 ''return p'', ''}'', '''',
       ''func (x '' @ n @ '') String() string {'',
       tabs 1 ''return protoimpl.X.EnumStringOf(x.Descriptor(), protoreflect.EnumNumber(x))'', ''}'', '''',
       ''func ('' @ n @ '') Descriptor() protoreflect.EnumDescriptor {'',
       tabs 1 (''return file_'' @ ident @ ''_enumTypes['' @ nat_str i @ ''].Descriptor()''), ''}'', '''',
       ''func ('' @ n @ '') Type() protoreflect.EnumType {'',
       tabs 1 (''return &file_'' @ ident @ ''_enumTypes['' @ nat_str i @ '']''), ''}'', '''',
       ''func (x '' @ n @ '') Number() protoreflect.EnumNumber {'',
       tabs 1 ''return protoreflect.EnumNumber(x)'', ''}'', '''',
       ''// Deprecated: Use '' @ n @ ''.Descriptor instead.'',
       ''func ('' @ n @ '') EnumDescriptor() ([]byte, []int) {'',
       tabs 1 (''return file_'' @ ident @ ''_rawDescGZIP(), []int{'' @ nat_list_text p @ ''}''), ''}'', ''''])"

section \<open>Messages\<close>

definition type_text :: "go_error + string \<Rightarrow> string" where
  "type_text r = (case r of Inl e \<Rightarrow> [] | Inr t \<Rightarrow> t)"

definition write_field :: "(nat \<Rightarrow> nat) \<Rightarrow> proto_file \<Rightarrow> field_desc \<Rightarrow> string" where
  "write_field up fd f =
     tabs 1 (export_go_name up (pf_name f) @ tabs 2 (type_text (go_field_type up fd f))
       @ tabs 1 ([CHR 0x60] @ protobuf_tag up fd f @ [CHR 0x60]))"

definition write_getter :: "(nat \<Rightarrow> nat) \<Rightarrow> proto_file \<Rightarrow> string \<Rightarrow> field_desc \<Rightarrow> string list" where
  "write_getter up fd n f =
     (let g = export_go_name up (pf_name f) in
      [''func (x *'' @ n @ '') Get'' @ g @ ''() '' @ type_text (go_getter_type up fd f) @ '' {'',
       tabs 1 (''if x != nil'' @ (if is_optional_scalar f then '' && x.'' @ g @ '' != nil'' else []) @ '' {''),
       tabs 2 (''return '' @ (if is_optional_scalar f then ''*x.'' else ''x.'') @ g),
       tabs 1 ''}'', tabs 1 (''return '' @ zero_value up fd f), ''}'', ''''])"

definition message_slot :: "proto_file \<Rightarrow> nat list \<Rightarrow> string" where
  "message_slot fd p = nat_str (case position p (flat_messages fd) of None \<Rightarrow> 0 | Some i \<Rightarrow> i)"

definition write_message :: "unicode_table \<Rightarrow> (nat \<Rightarrow> nat) \<Rightarrow> proto_file \<Rightarrow> nat list \<Rightarrow> string list" where
  "write_message uni up fd p =
     (let n = message_go_name up fd p; ident = file_ident uni (pr_path fd); fs = fields_of fd p;
          mi = tabs 1 (''mi := &file_'' @ ident @ ''_msgTypes['' @ message_slot fd p @ '']'') in
      [''type '' @ n @ '' struct {'',
       tabs 1 (''state         protoimpl.MessageState '' @ [CHR 0x60] @ ''protogen:'' @ dq @ ''open.v1'' @ dq @ [CHR 0x60])] @
      map (write_field up fd) fs @
      [tabs 1 ''unknownFields protoimpl.UnknownFields'', tabs 1 ''sizeCache     protoimpl.SizeCache'', ''}'', '''',
       ''func (x *'' @ n @ '') Reset() {'', tabs 1 (''*x = '' @ n @ ''{}''), mi,
       tabs 1 ''ms := protoimpl.X.MessageStateOf(protoimpl.Pointer(x))'', tabs 1 ''ms.StoreMessageInfo(mi)'', ''}'', '''',
       ''func (x *'' @ n @ '') String() string {'', tabs 1 ''return protoimpl.X.MessageStringOf(x)'', ''}'', '''',
       ''func (*'' @ n @ '') ProtoMessage() {}'', '''',
       ''func (x *'' @ n @ '') ProtoReflect() protoreflect.Message {'', mi,
       tabs 1 ''if protoimpl.UnsafeEnabled && x != nil {'',
       tabs 2 ''ms := protoimpl.X.MessageStateOf(protoimpl.Pointer(x))'',
       tabs 2 ''if ms.LoadMessageInfo() == nil {'', tabs 3 ''ms.StoreMessageInfo(mi)'', tabs 2 ''}'',
       tabs 2 ''return ms'', tabs 1 ''}'', tabs 1 ''return mi.MessageOf(x)'', ''}'', '''',
       ''// Deprecated: Use '' @ n @ ''.ProtoReflect.Descriptor instead.'',
       ''func (*'' @ n @ '') Descriptor() ([]byte, []int) {'',
       tabs 1 (''return file_'' @ ident @ ''_rawDescGZIP(), []int{'' @ nat_list_text p @ ''}''), ''}'', ''''] @
      concat (map (write_getter up fd n) fs))"

section \<open>The descriptor and the tables\<close>

definition hex_byte :: "char \<Rightarrow> string" where
  "hex_byte c = ''0x'' @ [hex_digit (byte c div 16), hex_digit (byte c mod 16)]"

text \<open>Sixteen bytes to a line; every byte but the last of all has a comma and a space behind it.\<close>

function raw_lines :: "bytes \<Rightarrow> string list" where
  "raw_lines raw =
     (if length raw \<le> 16 then (if raw = [] then [] else [tabs 1 (go_join (map hex_byte raw) '', '' @ '','')])
      else tabs 1 (go_join (map hex_byte (take 16 raw)) '', '' @ '', '') # raw_lines (drop 16 raw))"
  by pat_completeness auto
termination by (relation "measure length") auto

definition write_raw_desc :: "string \<Rightarrow> bytes \<Rightarrow> string list" where
  "write_raw_desc ident raw =
     (if raw = [] then [''var file_'' @ ident @ ''_rawDesc = string([]byte{,'']
      else [''var file_'' @ ident @ ''_rawDesc = string([]byte{''] @ raw_lines raw) @
     [''})'', '''', ''var ('', tabs 1 (''file_'' @ ident @ ''_rawDescOnce sync.Once''),
      tabs 1 (''file_'' @ ident @ ''_rawDescData []byte''), '')'', '''',
      ''func file_'' @ ident @ ''_rawDescGZIP() []byte {'',
      tabs 1 (''file_'' @ ident @ ''_rawDescOnce.Do(func() {''),
      tabs 2 (''file_'' @ ident @ ''_rawDescData = protoimpl.X.CompressGZIP(unsafe.Slice(unsafe.StringData(file_'' @ ident
        @ ''_rawDesc), len(file_'' @ ident @ ''_rawDesc)))''),
      tabs 1 ''})'', tabs 1 (''return file_'' @ ident @ ''_rawDescData''), ''}'', '''']"

definition write_msg_types :: "string \<Rightarrow> proto_file \<Rightarrow> string list" where
  "write_msg_types ident fd =
     [''var file_'' @ ident @ ''_enumTypes = make([]protoimpl.EnumInfo, '' @ nat_str (length (flat_enums fd)) @ '')'',
      ''var file_'' @ ident @ ''_msgTypes = make([]protoimpl.MessageInfo, '' @ nat_str (length (flat_messages fd)) @ '')'']"

definition write_go_types :: "(nat \<Rightarrow> nat) \<Rightarrow> string \<Rightarrow> proto_file \<Rightarrow> string list" where
  "write_go_types up ident fd =
     [''var file_'' @ ident @ ''_goTypes = []any{''] @
     map (\<lambda>((i, t), full). tabs 1 (t @ '', // '' @ nat_str i @ '': '' @ full))
       (zip (zip [0..<length (go_types up fd)] (go_types up fd))
          (map (enum_full_name fd) (flat_enums fd) @ map (message_full_name fd) (flat_messages fd))) @
     [''}'']"

definition sub_list :: "nat \<Rightarrow> nat \<Rightarrow> nat \<Rightarrow> string \<Rightarrow> string" where
  "sub_list v a b what = tabs 1 (nat_str v @ '', // ['' @ nat_str a @ '':'' @ nat_str b @ ''] is the sub-list for '' @ what)"

definition write_dep_idxs :: "string \<Rightarrow> proto_file \<Rightarrow> string list" where
  "write_dep_idxs ident fd =
     (let rows = field_deps fd @ input_deps fd @ output_deps fd;
          nField = length (field_deps fd); nIn = length (input_deps fd); nOut = length (output_deps fd);
          total = nField + nIn + nOut in
      [''var file_'' @ ident @ ''_depIdxs = []int32{''] @
      map (\<lambda>(i, v). tabs 1 (nat_str v @ '', // '' @ nat_str i)) (zip [0..<length rows] rows) @
      [sub_list (nField + nIn) (nField + nIn) total ''method output_type'',
       sub_list nField nField (nField + nIn) ''method input_type'',
       sub_list total total total ''extension type_name'',
       sub_list total total total ''extension extendee'',
       sub_list 0 0 nField ''field type_name'',
       ''}'', ''''])"

definition write_exporter :: "(nat \<Rightarrow> nat) \<Rightarrow> string \<Rightarrow> proto_file \<Rightarrow> nat list \<Rightarrow> string list" where
  "write_exporter up ident fd p =
     [tabs 2 ''//lint:ignore SA1019 required for safe-mode protobuf reflection'',
      tabs 2 (''file_'' @ ident @ ''_msgTypes['' @ message_slot fd p @ ''].Exporter = func(v any, i int) any {''),
      tabs 3 (''switch v := v.(*'' @ message_go_name up fd p @ ''); i {''),
      tabs 3 ''case 0:'', tabs 4 ''return &v.state'', tabs 3 ''case 1:'', tabs 4 ''return &v.sizeCache'',
      tabs 3 ''case 2:'', tabs 4 ''return &v.unknownFields'', tabs 3 ''default:'', tabs 4 ''return nil'',
      tabs 3 ''}'', tabs 2 ''}'']"

definition write_init :: "(nat \<Rightarrow> nat) \<Rightarrow> string \<Rightarrow> proto_file \<Rightarrow> string list" where
  "write_init up ident fd =
     [''func init() { file_'' @ ident @ ''_init() }'', ''func file_'' @ ident @ ''_init() {'',
      tabs 1 (''if File_'' @ ident @ '' != nil {''), tabs 2 ''return'', tabs 1 ''}''] @
     (if generated_messages fd \<noteq> [] then
        [tabs 1 ''if !protoimpl.UnsafeEnabled {''] @
        concat (map (write_exporter up ident fd) (generated_messages fd)) @ [tabs 1 ''}'']
      else []) @
     [tabs 1 ''type x struct{}'', tabs 1 ''out := protoimpl.TypeBuilder{'', tabs 2 ''File: protoimpl.DescBuilder{'',
      tabs 3 ''GoPackagePath: reflect.TypeOf(x{}).PkgPath(),'',
      tabs 3 (''RawDescriptor: unsafe.Slice(unsafe.StringData(file_'' @ ident @ ''_rawDesc), len(file_'' @ ident @ ''_rawDesc)),''),
      tabs 3 (''NumEnums:      '' @ nat_str (length (flat_enums fd)) @ '',''),
      tabs 3 (''NumMessages:   '' @ nat_str (length (flat_messages fd)) @ '',''),
      tabs 3 ''NumExtensions: 0,'',
      tabs 3 (''NumServices:   '' @ nat_str (length (pr_services fd)) @ '',''),
      tabs 2 ''},'',
      tabs 2 (''GoTypes:           file_'' @ ident @ ''_goTypes,''),
      tabs 2 (''DependencyIndexes: file_'' @ ident @ ''_depIdxs,''),
      tabs 2 (''EnumInfos:         file_'' @ ident @ ''_enumTypes,''),
      tabs 2 (''MessageInfos:      file_'' @ ident @ ''_msgTypes,''),
      tabs 1 ''}.Build()'',
      tabs 1 (''File_'' @ ident @ '' = out.File''), tabs 1 (''file_'' @ ident @ ''_goTypes = nil''),
      tabs 1 (''file_'' @ ident @ ''_depIdxs = nil''), ''}'']"

section \<open>The file\<close>

text \<open>\<open>strings.Map\<close> over the path: a line break is a space, another control character is dropped.\<close>

definition comment_rune :: "nat \<Rightarrow> string" where
  "comment_rune r =
     (if r = 10 \<or> r = 13 then '' '' else if r < 32 \<or> r = 127 then [] else utf8_encode r)"

definition comment_safe :: "string \<Rightarrow> string" where
  "comment_safe s = concat (map comment_rune (go_runes s))"

definition message_lines :: "unicode_table \<Rightarrow> (nat \<Rightarrow> nat) \<Rightarrow> proto_file \<Rightarrow> string \<Rightarrow> bytes \<Rightarrow> string list" where
  "message_lines uni up fd packageName raw =
     (let ident = file_ident uni (pr_path fd); src = comment_safe (pr_path fd) in
      [''// Code generated by argos. DO NOT EDIT.''] @
      (if src \<noteq> [] then [''// source: '' @ src] else []) @
      ['''', ''package '' @ packageName, '''', ''import ('',
       tabs 1 (''protoreflect '' @ dq @ ''google.golang.org/protobuf/reflect/protoreflect'' @ dq),
       tabs 1 (''protoimpl '' @ dq @ ''google.golang.org/protobuf/runtime/protoimpl'' @ dq),
       tabs 1 (''reflect '' @ dq @ ''reflect'' @ dq), tabs 1 (''sync '' @ dq @ ''sync'' @ dq),
       tabs 1 (''unsafe '' @ dq @ ''unsafe'' @ dq), '')'', ''''] @
      concat (map (write_enum uni up fd) (flat_enums fd)) @
      concat (map (write_message uni up fd) (generated_messages fd)) @
      [''var File_'' @ ident @ '' protoreflect.FileDescriptor'', ''''] @
      write_raw_desc ident raw @ write_msg_types ident fd @ write_go_types up ident fd @
      write_dep_idxs ident fd @ write_init up ident fd)"

definition message_source :: "unicode_table \<Rightarrow> (nat \<Rightarrow> nat) \<Rightarrow> proto_file \<Rightarrow> string \<Rightarrow> bytes \<Rightarrow> string" where
  "message_source uni up fd packageName raw =
     rev (dropWhile (\<lambda>c. c = nl) (rev (go_text (message_lines uni up fd packageName raw)))) @ [nl]"

text \<open>\<open>marshal\<close> gives the bytes of the descriptor.\<close>

definition render :: "unicode_table \<Rightarrow> (nat \<Rightarrow> nat) \<Rightarrow> (proto_file \<Rightarrow> go_error + bytes) \<Rightarrow> proto_file \<Rightarrow> ir_file
    \<Rightarrow> go_error + bytes" where
  "render uni up marshal fd f =
     (case package_name uni (fl_GoPackage f) of
        Inl e \<Rightarrow> Inl (ErrWrap ''message: '' [e])
      | Inr packageName \<Rightarrow>
          (case marshal fd of
             Inl e \<Rightarrow> Inl (ErrWrap ''message: marshal descriptor: '' [e])
           | Inr raw \<Rightarrow> Inr (message_source uni up fd packageName raw)))"

definition generate_units :: "unicode_table \<Rightarrow> (nat \<Rightarrow> nat) \<Rightarrow> (bytes \<Rightarrow> go_error + bytes)
    \<Rightarrow> (proto_file \<Rightarrow> go_error + bytes) \<Rightarrow> (ir_file \<Rightarrow> go_error + proto_file) \<Rightarrow> ir_file
    \<Rightarrow> go_error + ir_unit list" where
  "generate_units uni up gofmt marshal fileDescriptor f =
     (if effective_model f \<noteq> ''protobuf'' \<or> \<not> generate_messages f then
        Inl (msg_error (''nothing to generate for '' @ stub_name f))
      else if messages_name f = [] then Inl (msg_error ''missing output name'')
      else
        case fileDescriptor f of
          Inl e \<Rightarrow> Inl e
        | Inr fd \<Rightarrow>
            if pr_syntax fd \<noteq> ''proto3'' then
              Inl (msg_error (''syntax '' @ pr_syntax fd @ '' is not supported; use proto3''))
            else
              case validate_descriptor uni up fd of
                Inl e \<Rightarrow> Inl e
              | Inr symbols \<Rightarrow>
                  (case render uni up marshal fd f of
                     Inl e \<Rightarrow> Inl e
                   | Inr source \<Rightarrow>
                       (case gofmt source of
                          Inl e \<Rightarrow> Inl (ErrWrap ''message: format generated source: '' [e])
                        | Inr formatted \<Rightarrow>
                            Inr [\<lparr>un_Name = messages_name f, un_Source = formatted, un_Symbols = symbols\<rparr>])))"

end
