(* ===== verification/Codegen_Frontend.thy ===== *)
theory Codegen_Frontend
  imports Codegen_Message_Text Codegen_Run Status
begin

text \<open>
  Where the intermediate representation comes from and how it becomes a descriptor again: the
  descriptor of a file for the message generator (src/internal/codegen/gen/message/fdp.go) and the three
  frontends (src/internal/codegen/frontend): proto, ir and plugin. The protobuf library, the protobuf
  compiler, the JSON decoder, the file system and the plugin process are arguments.
\<close>

section \<open>Descriptors from the intermediate representation\<close>

text \<open>The protobuf forms of a file, as far as the generator fills them in; an unset flag is False.\<close>

record field_proto =
  fp_Name :: string
  fp_Number :: int
  fp_Type :: field_kind
  fp_TypeName :: "string option"
  fp_Repeated :: bool

record message_proto =
  mp_Name :: string
  mp_Fields :: "field_proto list"

record method_proto =
  tp_Name :: string
  tp_Input :: string
  tp_Output :: string
  tp_ServerStreaming :: bool
  tp_ClientStreaming :: bool

record service_proto =
  sp_Name :: string
  sp_Methods :: "method_proto list"

record file_proto =
  dp_Name :: string
  dp_Package :: string
  dp_Syntax :: string
  dp_Messages :: "message_proto list"
  dp_Services :: "service_proto list"

definition qualified_proto_name :: "string \<Rightarrow> string \<Rightarrow> string" where
  "qualified_proto_name pkg name =
     (if has_prefix name [dot] then name
      else if pkg = [] then [dot] @ name
      else [dot] @ pkg @ [dot] @ name)"

definition protobuf_field_name :: "unicode_table \<Rightarrow> string \<Rightarrow> string" where
  "protobuf_field_name uni goName =
     (case go_runes goName of
        [] \<Rightarrow> []
      | r # rs \<Rightarrow> concat (map utf8_encode (u_lower uni r # rs)))"

definition kind_names :: "(string \<times> field_kind) list" where
  "kind_names =
     [(''string'', KString), (''bytes'', KBytes), (''bool'', KBool), (''int32'', KInt32), (''sint32'', KSint32),
      (''sfixed32'', KSfixed32), (''int64'', KInt64), (''sint64'', KSint64), (''sfixed64'', KSfixed64),
      (''uint32'', KUint32), (''fixed32'', KFixed32), (''uint64'', KUint64), (''fixed64'', KFixed64),
      (''float'', KFloat), (''double'', KDouble), (''message'', KMessage), (''enum'', KEnum)]"

definition plain_field :: "unicode_table \<Rightarrow> string \<Rightarrow> string \<Rightarrow> ir_field \<Rightarrow> go_error + field_proto" where
  "plain_field uni protoPackage kind f =
     (case map_of kind_names kind of
        None \<Rightarrow> Inl (msg_error (''unsupported field kind '' @ go_quote kind))
      | Some k \<Rightarrow>
          Inr \<lparr>fp_Name = protobuf_field_name uni (fd_GoName f), fp_Number = fd_Number f, fp_Type = k,
            fp_TypeName =
              (if k = KMessage then Some (qualified_proto_name protoPackage (fd_MessageType f))
               else if k = KEnum then Some (qualified_proto_name protoPackage (fd_EnumType f))
               else None),
            fp_Repeated = False\<rparr>)"

text \<open>Each \<open>repeated\<close> in front of the kind is taken off in a call of its own.\<close>

function repeated_field :: "unicode_table \<Rightarrow> string \<Rightarrow> string \<Rightarrow> ir_field \<Rightarrow> go_error + field_proto" where
  "repeated_field uni protoPackage kind f =
     (if has_prefix kind ''repeated '' then
        (case repeated_field uni protoPackage (trim_prefix kind ''repeated '') f of
           Inl e \<Rightarrow> Inl e
         | Inr fd \<Rightarrow> Inr (fd\<lparr>fp_Repeated := True\<rparr>))
      else plain_field uni protoPackage kind f)"
  by pat_completeness auto
termination
  by (relation "measure (\<lambda>(uni, pkg, kind, f). length kind)")
    (auto simp: has_prefix_def trim_prefix_def dest: arg_cong [of _ _ length])

declare repeated_field.simps [simp del]

definition field_to_descriptor :: "unicode_table \<Rightarrow> string \<Rightarrow> ir_field \<Rightarrow> go_error + field_proto" where
  "field_to_descriptor uni protoPackage f = repeated_field uni protoPackage (fd_Kind f) f"

fun fields_to_descriptors :: "unicode_table \<Rightarrow> string \<Rightarrow> ir_field list \<Rightarrow> go_error + field_proto list" where
  "fields_to_descriptors uni pkg [] = Inr []"
| "fields_to_descriptors uni pkg (f # fs) =
     (case field_to_descriptor uni pkg f of
        Inl e \<Rightarrow> Inl e
      | Inr p \<Rightarrow> (case fields_to_descriptors uni pkg fs of Inl e \<Rightarrow> Inl e | Inr ps \<Rightarrow> Inr (p # ps)))"

fun messages_to_descriptors :: "unicode_table \<Rightarrow> string \<Rightarrow> ir_message list \<Rightarrow> go_error + message_proto list" where
  "messages_to_descriptors uni pkg [] = Inr []"
| "messages_to_descriptors uni pkg (m # ms) =
     (case fields_to_descriptors uni pkg (mg_Fields m) of
        Inl e \<Rightarrow> Inl e
      | Inr fs \<Rightarrow>
          (case messages_to_descriptors uni pkg ms of
             Inl e \<Rightarrow> Inl e
           | Inr ps \<Rightarrow> Inr (\<lparr>mp_Name = mg_GoName m, mp_Fields = fs\<rparr> # ps)))"

definition method_to_descriptor :: "string \<Rightarrow> ir_method \<Rightarrow> method_proto" where
  "method_to_descriptor pkg m =
     \<lparr>tp_Name = im_GoName m, tp_Input = qualified_proto_name pkg (im_InputType m),
      tp_Output = qualified_proto_name pkg (im_OutputType m),
      tp_ServerStreaming = im_ServerStream m, tp_ClientStreaming = im_ClientStream m\<rparr>"

definition build_fdp :: "unicode_table \<Rightarrow> ir_file \<Rightarrow> go_error + file_proto" where
  "build_fdp uni f =
     (case messages_to_descriptors uni (fl_ProtoPackage f) (fl_Messages f) of
        Inl e \<Rightarrow> Inl e
      | Inr ms \<Rightarrow>
          Inr \<lparr>dp_Name = fl_InputBase f @ (if fl_Source f = ''proto'' then ''.proto'' else ''.msg''),
            dp_Package = fl_ProtoPackage f, dp_Syntax = ''proto3'', dp_Messages = ms,
            dp_Services = map (\<lambda>s. \<lparr>sp_Name = is_GoName s,
              sp_Methods = map (method_to_descriptor (fl_ProtoPackage f)) (is_Methods s)\<rparr>) (fl_Services f)\<rparr>)"

text \<open>
  What is used of the protobuf library: decoding, the names in a decoded set, linking a set or a file
  into descriptors (against the global registry, or alone).
\<close>

record ('s, 'f) proto_lib =
  pl_decode_set :: "bytes \<Rightarrow> go_error + 's"
  pl_decode_file :: "bytes \<Rightarrow> go_error + 'f"
  pl_set_names :: "'s \<Rightarrow> string list"
  pl_link_set :: "'s \<Rightarrow> go_error + (string \<Rightarrow> go_error + proto_file)"
  pl_file_name :: "'f \<Rightarrow> string"
  pl_link_file :: "'f \<Rightarrow> go_error + proto_file"
  pl_link_built :: "file_proto \<Rightarrow> go_error + proto_file"

fun match_base :: "(string \<Rightarrow> go_error + proto_file) \<Rightarrow> string \<Rightarrow> proto_file option \<Rightarrow> string list
    \<Rightarrow> go_error + proto_file option" where
  "match_base files name found [] = Inr found"
| "match_base files name found (c # cs) =
     (if path_base c \<noteq> path_base name then match_base files name found cs
      else
        case files c of
          Inl e \<Rightarrow> match_base files name found cs
        | Inr d \<Rightarrow>
            if found \<noteq> None then
              Inl (msg_error (''file_descriptor_set basename '' @ go_quote (path_base name) @ '' is ambiguous''))
            else match_base files name (Some d) cs)"

definition descriptor_in_set :: "('s, 'f) proto_lib \<Rightarrow> ir_file \<Rightarrow> 's \<Rightarrow> go_error + proto_file" where
  "descriptor_in_set lib f fdset =
     (case pl_link_set lib fdset of
        Inl e \<Rightarrow> Inl (ErrWrap ''message: link file_descriptor_set: '' [e])
      | Inr files \<Rightarrow>
          let name0 = fl_InputBase f @ ''.proto'' in
          case (if fl_FileDescriptor f = [] then Inr name0
                else
                  case pl_decode_file lib (fl_FileDescriptor f) of
                    Inl e \<Rightarrow> Inl (ErrWrap ''message: decode file_descriptor: '' [e])
                  | Inr fdp \<Rightarrow> Inr (if pl_file_name lib fdp \<noteq> [] then pl_file_name lib fdp else name0)) of
            Inl e \<Rightarrow> Inl e
          | Inr name \<Rightarrow>
              (case files name of
                 Inr fd \<Rightarrow> Inr fd
               | Inl err \<Rightarrow>
                   (case match_base files name None (pl_set_names lib fdset) of
                      Inl e \<Rightarrow> Inl e
                    | Inr None \<Rightarrow>
                        Inl (ErrWrap (''message: find '' @ go_quote name @ '' in file_descriptor_set: '') [err])
                    | Inr (Some fd) \<Rightarrow> Inr fd)))"

definition file_descriptor :: "unicode_table \<Rightarrow> ('s, 'f) proto_lib \<Rightarrow> ir_file \<Rightarrow> go_error + proto_file" where
  "file_descriptor uni lib f =
     (if fl_FileDescriptorSet f \<noteq> [] then
        (case pl_decode_set lib (fl_FileDescriptorSet f) of
           Inl e \<Rightarrow> Inl (ErrWrap ''message: decode file_descriptor_set: '' [e])
         | Inr fdset \<Rightarrow> descriptor_in_set lib f fdset)
      else if fl_FileDescriptor f \<noteq> [] then
        (case pl_decode_file lib (fl_FileDescriptor f) of
           Inl e \<Rightarrow> Inl (ErrWrap ''message: decode file_descriptor: '' [e])
         | Inr fdp \<Rightarrow> pl_link_file lib fdp)
      else if fl_Messages f = [] then Inl (msg_error ''no messages or file_descriptor'')
      else
        case build_fdp uni f of
          Inl e \<Rightarrow> Inl e
        | Inr fdp \<Rightarrow> pl_link_built lib fdp)"

section \<open>The proto frontend\<close>

definition proto_error :: "string \<Rightarrow> go_error" where
  "proto_error t = ErrNew (''proto frontend: '' @ t)"

definition inside_root :: "string \<Rightarrow> bool" where
  "inside_root rel \<longleftrightarrow> rel \<noteq> ''..'' \<and> \<not> has_prefix rel ''../''"

text \<open>\<open>absp\<close> is \<open>filepath.Abs\<close>; \<open>Rel\<close> does not fail on its results.\<close>

fun name_under :: "(string \<Rightarrow> go_error + string) \<Rightarrow> string \<Rightarrow> string list \<Rightarrow> string option" where
  "name_under absp absInput [] = None"
| "name_under absp absInput (p # ps) =
     (case absp p of
        Inl e \<Rightarrow> name_under absp absInput ps
      | Inr absImport \<Rightarrow>
          let rel = path_rel absImport absInput in
          if inside_root rel then Some rel else name_under absp absInput ps)"

definition compile_name :: "(string \<Rightarrow> go_error + string) \<Rightarrow> string list \<Rightarrow> string \<Rightarrow> go_error + string" where
  "compile_name absp importPaths input =
     (case absp input of
        Inl e \<Rightarrow> Inl e
      | Inr absInput \<Rightarrow>
          (case name_under absp absInput importPaths of Some rel \<Rightarrow> Inr rel | None \<Rightarrow> Inr (path_base input)))"

fun compile_names :: "(string \<Rightarrow> go_error + string) \<Rightarrow> string list \<Rightarrow> (string \<times> string) list \<Rightarrow> string list
    \<Rightarrow> go_error + string list" where
  "compile_names absp paths claimed [] = Inr []"
| "compile_names absp paths claimed (input # inputs) =
     (case compile_name absp paths input of
        Inl e \<Rightarrow> Inl e
      | Inr name \<Rightarrow>
          (case map_of claimed name of
             Some prev \<Rightarrow>
               Inl (proto_error (go_quote prev @ '' and '' @ go_quote input @ '' both compile as '' @ go_quote name
                 @ ''; put them under a --proto-path so their paths stay distinct''))
           | None \<Rightarrow>
               (case compile_names absp paths ((name, input) # claimed) inputs of
                  Inl e \<Rightarrow> Inl e
                | Inr names \<Rightarrow> Inr (name # names))))"

fun scan_files :: "string \<Rightarrow> proto_file list \<Rightarrow> proto_file list \<Rightarrow> proto_file + proto_file list" where
  "scan_files want byBase [] = Inr byBase"
| "scan_files want byBase (file # files) =
     (let filePath = path_clean (pr_path file) in
      if filePath = want then Inl file
      else if path_base filePath = path_base want then scan_files want (byBase @ [file]) files
      else scan_files want byBase files)"

definition find_file :: "proto_file list \<Rightarrow> string \<Rightarrow> go_error + proto_file" where
  "find_file files name =
     (case scan_files (path_clean name) [] files of
        Inl file \<Rightarrow> Inr file
      | Inr byBase \<Rightarrow>
          (case byBase of
             [file] \<Rightarrow> Inr file
           | [] \<Rightarrow> Inl (proto_error (''compiled file '' @ go_quote name @ '' not found''))
           | _ \<Rightarrow> Inl (proto_error (''compiled file '' @ go_quote name @ '' is ambiguous''))))"

definition export_name :: "(nat \<Rightarrow> nat) \<Rightarrow> string \<Rightarrow> string" where
  "export_name up name = concat (map utf8_encode (export_runes up True (go_runes name)))"

definition parse_go_package :: "unicode_table \<Rightarrow> proto_file \<Rightarrow> go_error + string" where
  "parse_go_package uni fd =
     (case pr_goPackage fd of
        None \<Rightarrow> Inl (proto_error (pr_path fd @ '' missing go_package option''))
      | Some raw \<Rightarrow>
          if raw = [] then Inl (proto_error (pr_path fd @ '' empty go_package''))
          else
            case package_name uni raw of
              Inl e \<Rightarrow> Inl (ErrWrap (''proto frontend: '' @ pr_path fd @ '': '') [e])
            | Inr name \<Rightarrow> Inr name)"

text \<open>The names from the outermost message to the one at a path.\<close>

fun msg_names :: "msg_desc list \<Rightarrow> nat list \<Rightarrow> string list" where
  "msg_names ms [] = []"
| "msg_names ms (i # p) =
     (if i < length ms then ms_name (ms ! i) # msg_names (ms_messages (ms ! i)) p else [])"

definition ref_names :: "proto_file \<Rightarrow> type_ref \<Rightarrow> string list" where
  "ref_names fd r = (case r of InFile p \<Rightarrow> msg_names (pr_messages fd) p | Elsewhere n ns \<Rightarrow> ns)"

definition rpc_go_name :: "(nat \<Rightarrow> nat) \<Rightarrow> proto_file \<Rightarrow> type_ref \<Rightarrow> string" where
  "rpc_go_name up fd r = go_join (map (export_name up) (ref_names fd r)) ''_''"

definition scalar_kind :: "field_kind \<Rightarrow> string" where
  "scalar_kind k =
     (case k of
        KString \<Rightarrow> ''string'' | KBytes \<Rightarrow> ''bytes'' | KBool \<Rightarrow> ''bool'' | KInt32 \<Rightarrow> ''int32'' | KSint32 \<Rightarrow> ''sint32''
      | KSfixed32 \<Rightarrow> ''sfixed32'' | KInt64 \<Rightarrow> ''int64'' | KSint64 \<Rightarrow> ''sint64'' | KSfixed64 \<Rightarrow> ''sfixed64''
      | KUint32 \<Rightarrow> ''uint32'' | KFixed32 \<Rightarrow> ''fixed32'' | KUint64 \<Rightarrow> ''uint64'' | KFixed64 \<Rightarrow> ''fixed64''
      | KFloat \<Rightarrow> ''float'' | KDouble \<Rightarrow> ''double'' | KEnum \<Rightarrow> ''enum'' | KMessage \<Rightarrow> ''message'' | KGroup \<Rightarrow> ''string'')"

definition short_name :: "string \<Rightarrow> string" where
  "short_name full = rev (takeWhile (\<lambda>c. c \<noteq> dot) (rev full))"

definition message_short_name :: "proto_file \<Rightarrow> type_ref \<Rightarrow> string" where
  "message_short_name fd r =
     (case r of
        InFile p \<Rightarrow> (case msg_at (pr_messages fd) p of None \<Rightarrow> [] | Some m \<Rightarrow> ms_name m)
      | Elsewhere n ns \<Rightarrow> short_name n)"

definition enum_short_name :: "proto_file \<Rightarrow> type_ref \<Rightarrow> string" where
  "enum_short_name fd r =
     (case r of
        InFile p \<Rightarrow> (case enum_at fd p of None \<Rightarrow> [] | Some e \<Rightarrow> pe_name e)
      | Elsewhere n vs \<Rightarrow> short_name n)"

definition ir_field_of :: "(nat \<Rightarrow> nat) \<Rightarrow> proto_file \<Rightarrow> field_desc \<Rightarrow> ir_field" where
  "ir_field_of up fd f =
     \<lparr>fd_GoName = export_name up (pf_name f), fd_Number = pf_number f,
      fd_Kind = (if pf_list f then ''repeated '' @ scalar_kind (pf_kind f) else scalar_kind (pf_kind f)),
      fd_MessageType = (if is_message_kind (pf_kind f) then message_short_name fd (pf_ref f) else []),
      fd_EnumType = (if pf_kind f = KEnum then enum_short_name fd (pf_ref f) else [])\<rparr>"

definition messages_from_file :: "(nat \<Rightarrow> nat) \<Rightarrow> proto_file \<Rightarrow> ir_message list" where
  "messages_from_file up fd =
     map (\<lambda>m. \<lparr>mg_GoName = export_name up (ms_name m), mg_Fields = map (ir_field_of up fd) (ms_fields m)\<rparr>) (pr_messages fd)"

definition ir_method_of :: "(nat \<Rightarrow> nat) \<Rightarrow> proto_file \<Rightarrow> rpc_desc \<Rightarrow> ir_method" where
  "ir_method_of up fd m =
     (let shape = shape_from_streams (pm_clientStream m) (pm_serverStream m); streams = streams_from_shape shape in
      \<lparr>im_GoName = export_name up (pm_name m), im_FullName = pm_fullName m,
       im_InputType = rpc_go_name up fd (pm_input m), im_OutputType = rpc_go_name up fd (pm_output m),
       im_Shape = shape, im_ServerStream = snd streams, im_ClientStream = fst streams\<rparr>)"

text \<open>\<open>marshal\<close> gives the bytes of a descriptor.\<close>

definition file_to_ir :: "unicode_table \<Rightarrow> (nat \<Rightarrow> nat) \<Rightarrow> (proto_file \<Rightarrow> go_error + bytes) \<Rightarrow> proto_file \<Rightarrow> string \<Rightarrow> bytes
    \<Rightarrow> go_error + ir_file" where
  "file_to_ir uni up marshal fd inputBase descriptorSet =
     (case parse_go_package uni fd of
        Inl e \<Rightarrow> Inl e
      | Inr goPackage \<Rightarrow>
          (case marshal fd of
             Inl e \<Rightarrow> Inl (ErrWrap ''proto frontend: marshal descriptor: '' [e])
           | Inr desc \<Rightarrow>
               Inr \<lparr>fl_IRVersion = 2, fl_Source = ''proto'', fl_MessageModel = ''protobuf'', fl_GoPackage = goPackage,
                 fl_GoModule = [], fl_ProtoPackage = pr_package fd, fl_InputBase = inputBase,
                 fl_Outputs = \<lparr>ou_Messages = inputBase @ ''.pb.go'', ou_Stub = inputBase @ ''.argos.go''\<rparr>,
                 fl_OutputName = inputBase @ ''.argos.go'', fl_Messages = messages_from_file up fd, fl_MessageFiles = [],
                 fl_Services = map (\<lambda>s. \<lparr>is_GoName = export_name up (pv_name s), is_FullName = pv_fullName s,
                   is_Methods = map (ir_method_of up fd) (pv_methods s)\<rparr>) (pr_services fd),
                 fl_FileDescriptor = desc, fl_FileDescriptorSet = descriptorSet\<rparr>))"

fun service_files :: "proto_file list \<Rightarrow> string list \<Rightarrow> go_error + (string \<times> proto_file) list" where
  "service_files linked [] = Inr []"
| "service_files linked (name # names) =
     (case find_file linked name of
        Inl e \<Rightarrow> Inl e
      | Inr file \<Rightarrow>
          (case service_files linked names of
             Inl e \<Rightarrow> Inl e
           | Inr rest \<Rightarrow> Inr (if pr_services file \<noteq> [] then (name, file) # rest else rest)))"

definition name_stem :: "string \<Rightarrow> string" where
  "name_stem name = trim_suffix (path_base name) (path_ext (path_base name))"

fun files_to_ir :: "unicode_table \<Rightarrow> (nat \<Rightarrow> nat) \<Rightarrow> (proto_file \<Rightarrow> go_error + bytes) \<Rightarrow> bytes
    \<Rightarrow> (string \<times> proto_file) list \<Rightarrow> go_error + ir_file list" where
  "files_to_ir uni up marshal dset [] = Inr []"
| "files_to_ir uni up marshal dset ((name, file) # rest) =
     (case file_to_ir uni up marshal file (name_stem name) dset of
        Inl e \<Rightarrow> Inl e
      | Inr f \<Rightarrow>
          (case files_to_ir uni up marshal dset rest of
             Inl e \<Rightarrow> Inl e
           | Inr fs \<Rightarrow> Inr (f # fs)))"

definition proto_parse :: "unicode_table \<Rightarrow> (nat \<Rightarrow> nat) \<Rightarrow> (string \<Rightarrow> go_error + string)
    \<Rightarrow> (string list \<Rightarrow> string list \<Rightarrow> go_error + proto_file list) \<Rightarrow> (proto_file \<Rightarrow> go_error + bytes)
    \<Rightarrow> (proto_file list \<Rightarrow> go_error + bytes) \<Rightarrow> bool \<Rightarrow> string list \<Rightarrow> string list \<Rightarrow> go_error + ir_file list" where
  "proto_parse uni up absp compile marshal marshalSet nilCtx importPaths inputs =
     (if nilCtx then Inl (proto_error ''nil context'')
      else if inputs = [] then Inl (proto_error ''no input files'')
      else
        let paths = (if importPaths = [] then [''.''] else importPaths) in
        case compile_names absp paths [] inputs of
          Inl e \<Rightarrow> Inl e
        | Inr names \<Rightarrow>
            (case compile paths names of
               Inl e \<Rightarrow> Inl (ErrWrap ''proto frontend: compile: '' [e])
             | Inr linked \<Rightarrow>
                 (case service_files linked names of
                    Inl e \<Rightarrow> Inl e
                  | Inr files \<Rightarrow>
                      if files = [] then Inl (proto_error ''no services found in inputs'')
                      else
                        case marshalSet linked of
                          Inl e \<Rightarrow> Inl (ErrWrap ''proto frontend: marshal descriptor set: '' [e])
                        | Inr dset \<Rightarrow> files_to_ir uni up marshal dset files)))"

section \<open>The ir frontend\<close>

text \<open>\<open>many\<close> and \<open>one\<close> are \<open>json.Unmarshal\<close> into a list of files and into one.\<close>

definition decode_files :: "(bytes \<Rightarrow> go_error + ir_file list) \<Rightarrow> (bytes \<Rightarrow> go_error + ir_file) \<Rightarrow> bytes
    \<Rightarrow> go_error + ir_file list" where
  "decode_files many one blob =
     (case many blob of
        Inr fs \<Rightarrow> if fs = [] then Inl (ErrNew ''no files'') else Inr fs
      | Inl _ \<Rightarrow>
          (case one blob of
             Inl e \<Rightarrow> Inl e
           | Inr f \<Rightarrow> if fl_GoPackage f = [] then Inl (ErrNew ''invalid IR JSON'') else Inr [f]))"

fun irjson_files :: "(string \<Rightarrow> go_error + bytes) \<Rightarrow> (bytes \<Rightarrow> go_error + ir_file list) \<Rightarrow> (bytes \<Rightarrow> go_error + ir_file)
    \<Rightarrow> string list \<Rightarrow> go_error + ir_file list" where
  "irjson_files read many one [] = Inr []"
| "irjson_files read many one (p # ps) =
     (case read p of
        Inl e \<Rightarrow> Inl (ErrWrap (''ir frontend: read '' @ p @ '': '') [e])
      | Inr blob \<Rightarrow>
          (case decode_files many one blob of
             Inl e \<Rightarrow> Inl (ErrWrap (''ir frontend: decode '' @ p @ '': '') [e])
           | Inr files \<Rightarrow>
               (case irjson_files read many one ps of
                  Inl e \<Rightarrow> Inl e
                | Inr rest \<Rightarrow> Inr (map (ir_normalize False) files @ rest))))"

definition irjson_parse :: "(string \<Rightarrow> go_error + bytes) \<Rightarrow> (bytes \<Rightarrow> go_error + ir_file list) \<Rightarrow> (bytes \<Rightarrow> go_error + ir_file)
    \<Rightarrow> bool \<Rightarrow> string list \<Rightarrow> go_error + ir_file list" where
  "irjson_parse read many one nilCtx inputs =
     (if nilCtx then Inl (ErrNew ''ir frontend: nil context'')
      else if inputs = [] then Inl (ErrNew ''ir frontend: no input files'')
      else irjson_files read many one inputs)"

section \<open>The plugin frontend\<close>

record capped_buffer =
  cb_limit :: int
  cb_what :: string
  cb_buf :: bytes
  cb_overflow :: "go_error option"

definition new_capped :: "int \<Rightarrow> string \<Rightarrow> capped_buffer" where
  "new_capped limit what = \<lparr>cb_limit = limit, cb_what = what, cb_buf = [], cb_overflow = None\<rparr>"

text \<open>\<open>Write\<close>; it always reports all of \<open>p\<close> as written.\<close>

definition capped_write :: "capped_buffer \<Rightarrow> bytes \<Rightarrow> capped_buffer \<times> nat" where
  "capped_write c p =
     (if cb_overflow c \<noteq> None then (c, length p)
      else
        let room = cb_limit c - int (length (cb_buf c)) in
        if int (length p) > room then
          (c\<lparr>cb_buf := (if room > 0 then cb_buf c @ take (nat room) p else cb_buf c),
             cb_overflow := Some (ErrNew (''plugin '' @ cb_what c @ '' exceeded '' @ itoa (cb_limit c) @ '' bytes''))\<rparr>,
           length p)
        else (c\<lparr>cb_buf := cb_buf c @ p\<rparr>, length p))"

definition capped_writes :: "capped_buffer \<Rightarrow> bytes list \<Rightarrow> capped_buffer" where
  "capped_writes c ps = fold (\<lambda>p b. fst (capped_write b p)) ps c"

definition max_plugin_stdout :: int where "max_plugin_stdout = 67108864"

definition max_plugin_stderr :: int where "max_plugin_stderr = 1048576"

definition decode_ir :: "(bytes \<Rightarrow> go_error + ir_file list) \<Rightarrow> (bytes \<Rightarrow> go_error + ir_file) \<Rightarrow> bytes
    \<Rightarrow> go_error + ir_file list" where
  "decode_ir many one blob =
     (case many blob of
        Inr fs \<Rightarrow> if fs = [] then Inl (ErrNew ''decode IR: no files'') else Inr fs
      | Inl _ \<Rightarrow>
          (case one blob of
             Inl e \<Rightarrow> Inl (ErrWrap ''decode IR: '' [e])
           | Inr f \<Rightarrow> if fl_GoPackage f = [] then Inl (ErrNew ''decode IR: missing go_package'') else Inr [f]))"

fun plugin_validate :: "unicode_table \<Rightarrow> ir_file list \<Rightarrow> go_error + ir_file list" where
  "plugin_validate uni [] = Inr []"
| "plugin_validate uni (f # fs) =
     (let n = ir_normalize True f in
      case validate uni True n of
        Some e \<Rightarrow> Inl e
      | None \<Rightarrow> (case plugin_validate uni fs of Inl e \<Rightarrow> Inl e | Inr ns \<Rightarrow> Inr (n # ns)))"

text \<open>
  A run of the plugin: what it writes to its two outputs, piece by piece, and how it ends.
\<close>

record plugin_run =
  gr_stdout :: "bytes list"
  gr_stderr :: "bytes list"
  gr_error :: "go_error option"

definition plugin_args :: "string list \<Rightarrow> string list" where
  "plugin_args inputs = [''emit-ir'', ''--''] @ inputs"

definition plugin_parse :: "unicode_table \<Rightarrow> (string \<Rightarrow> string list \<Rightarrow> plugin_run)
    \<Rightarrow> (bytes \<Rightarrow> go_error + ir_file list) \<Rightarrow> (bytes \<Rightarrow> go_error + ir_file) \<Rightarrow> bool \<Rightarrow> string \<Rightarrow> string list
    \<Rightarrow> go_error + ir_file list" where
  "plugin_parse uni exec many one nilCtx command inputs =
     (if nilCtx then Inl (ErrNew ''exec plugin: nil context'')
      else if command = [] then Inl (ErrNew ''exec plugin: empty command'')
      else if inputs = [] then Inl (ErrNew ''exec plugin: no input files'')
      else
        let r = exec command (plugin_args inputs);
            stdout = capped_writes (new_capped max_plugin_stdout ''stdout'') (gr_stdout r);
            stderr = capped_writes (new_capped max_plugin_stderr ''stderr'') (gr_stderr r);
            pre = ''exec plugin '' @ command @ '': '' in
        case cb_overflow stdout of
          Some e \<Rightarrow> Inl (ErrWrap pre [e])
        | None \<Rightarrow>
            (case gr_error r of
               Some e \<Rightarrow>
                 let msg = trim_space (cb_buf stderr) in
                 Inl (ErrNew (pre @ (if msg = [] then err_text e else msg)))
             | None \<Rightarrow>
                 (case decode_ir many one (cb_buf stdout) of
                    Inl e \<Rightarrow> Inl e
                  | Inr files \<Rightarrow> plugin_validate uni files)))"

end
