(* ===== verification/Codegen_Message_Props.thy ===== *)
theory Codegen_Message_Props
  imports Codegen_Message_Text Codegen_Stub_Props
begin

text \<open>
  What the message generator guarantees: the flattened table holds every message once, the symbols it
  reports are the names it declares, and each row of the dependency table leads to the Go type of what
  it stands for.
\<close>

section \<open>The flattened order\<close>

text \<open>The paths that lead to a message without passing through a map entry.\<close>

fun reach :: "msg_desc list \<Rightarrow> nat list \<Rightarrow> bool" where
  "reach ms [] = False"
| "reach ms [i] = (i < length ms)"
| "reach ms (i # j # p) = (i < length ms \<and> \<not> ms_mapEntry (ms ! i) \<and> reach (ms_messages (ms ! i)) (j # p))"

lemma reach_iff:
  "reach ms p \<longleftrightarrow> (\<exists>i < length ms. p = [i])
    \<or> (\<exists>k q. p = k # q \<and> k < length ms \<and> \<not> ms_mapEntry (ms ! k) \<and> reach (ms_messages (ms ! k)) q)"
  by (cases p; cases "tl p") auto

lemma reach_not_Nil: "reach ms p \<Longrightarrow> p \<noteq> []"
  by auto

lemma reach_msg_at: "reach ms p \<Longrightarrow> msg_at ms p \<noteq> None"
  by (induction ms p rule: reach.induct) simp_all

lemma walk_messages_set:
  "set (walk_messages p m) = {p @ q | q. \<not> ms_mapEntry m \<and> reach (ms_messages m) q}"
  "set (walk_messages_list p i ms) =
     {p @ (i + k) # q | k q. k < length ms \<and> \<not> ms_mapEntry (ms ! k) \<and> reach (ms_messages (ms ! k)) q}"
proof (induction p m and p i ms rule: walk_messages_walk_messages_list.induct)
  case (1 p n f me fs es ms)
  have "set (walk_messages p (MsgDesc n f me fs es ms)) = {p @ q | q. \<not> me \<and> ((\<exists>i < length ms. q = [i])
      \<or> (\<exists>k r. q = k # r \<and> k < length ms \<and> \<not> ms_mapEntry (ms ! k) \<and> reach (ms_messages (ms ! k)) r))}"
    using 1 by auto
  then show ?case by (simp add: reach_iff [of ms])
next
  case (3 p i m ms)
  have "{p @ (i + k) # q | k q. k < Suc (length ms) \<and> \<not> ms_mapEntry ((m # ms) ! k) \<and> reach (ms_messages ((m # ms) ! k)) q}
      = {p @ i # q | q. \<not> ms_mapEntry m \<and> reach (ms_messages m) q}
        \<union> {p @ (Suc i + k) # q | k q. k < length ms \<and> \<not> ms_mapEntry (ms ! k) \<and> reach (ms_messages (ms ! k)) q}"
    (is "?A = ?B \<union> ?C")
  proof
    show "?A \<subseteq> ?B \<union> ?C" by (auto simp: less_Suc_eq_0_disj)
    have "?B \<subseteq> ?A" by (auto intro: exI [of _ 0])
    moreover have "?C \<subseteq> ?A" by clarsimp
    ultimately show "?B \<union> ?C \<subseteq> ?A" by simp
  qed
  with 3 show ?case by simp
qed simp_all

lemma walk_messages_distinct:
  "distinct (walk_messages p m)" "distinct (walk_messages_list p i ms)"
proof (induction p m and p i ms rule: walk_messages_walk_messages_list.induct)
  case (1 p n f me fs es ms)
  then show ?case by (auto simp: distinct_map inj_on_def walk_messages_set dest: reach_not_Nil)
next
  case (3 p i m ms)
  then show ?case by (auto simp: walk_messages_set)
qed simp_all

lemma flat_messages_reach: "set (flat_messages fd) = {p. reach (pr_messages fd) p}"
proof -
  have "reach ms p \<longleftrightarrow> (\<exists>i < length ms. p = [i]) \<or> p \<in> set (walk_messages_list [] 0 ms)" for ms p
    unfolding reach_iff [of ms p] by (simp add: walk_messages_set)
  then show ?thesis by (auto simp: flat_messages_def)
qed

lemma flat_messages_distinct: "distinct (flat_messages fd)"
  by (auto simp: flat_messages_def distinct_map inj_on_def walk_messages_distinct walk_messages_set dest: reach_not_Nil)

lemma position_nth: "x \<in> set xs \<Longrightarrow> \<exists>i. position x xs = Some i \<and> i < length xs \<and> xs ! i = x"
  by (induction xs) auto

section \<open>Declarations\<close>

lemma declare_all_iff:
  "distinct (map fst seen) \<Longrightarrow>
    declare_all uni seen ds = Inr out \<longleftrightarrow>
      out = seen @ ds \<and> distinct (map fst (seen @ ds)) \<and> list_all (is_go_identifier uni) (map fst ds)"
proof (induction ds arbitrary: seen)
  case (Cons d ds)
  obtain n k where d: "d = (n, k)" by fastforce
  show ?case
  proof (cases "map_of seen n")
    case None
    then have "n \<notin> fst ` set seen" by (simp add: map_of_eq_None_iff)
    then have "distinct (map fst (seen @ [(n, k)]))" using Cons.prems by simp
    from Cons.IH [OF this] None show ?thesis by (auto simp: d)
  next
    case (Some p)
    then have "n \<in> fst ` set seen" by (force dest: map_of_SomeD)
    with Some show ?thesis by (auto simp: d)
  qed
qed auto

lemma validate_parts:
  assumes "validate_descriptor uni up fd = Inr syms"
  shows "declare_all uni [] (declarations uni up fd) = Inr (declarations uni up fd)
      \<and> syms = sort (map fst (declarations uni up fd))"
    "first_error (map (check_message uni up fd) (flat_messages fd)) = None"
    "first_error (map (check_rpc up fd) (file_rpcs fd)) = None"
proof -
  obtain out where out: "declare_all uni [] (declarations uni up fd) = Inr out" "syms = sort (map fst out)"
    and rest: "first_error (map (check_message uni up fd) (flat_messages fd)) = None"
      "first_error (map (check_rpc up fd) (file_rpcs fd)) = None"
    using assms by (auto simp: validate_descriptor_def split: sum.splits option.splits)
  have "out = declarations uni up fd" using out(1) declare_all_iff [of "[]"] by simp
  with out rest show "declare_all uni [] (declarations uni up fd) = Inr (declarations uni up fd)
      \<and> syms = sort (map fst (declarations uni up fd))"
    "first_error (map (check_message uni up fd) (flat_messages fd)) = None"
    "first_error (map (check_rpc up fd) (file_rpcs fd)) = None" by simp_all
qed

text \<open>The symbols reported are the declared names: valid, each once, in order.\<close>

lemma message_symbols_exact:
  assumes "validate_descriptor uni up fd = Inr syms"
  shows "sorted syms \<and> distinct syms \<and> set syms = fst ` set (declarations uni up fd) \<and> list_all (is_go_identifier uni) syms"
  using validate_parts(1) [OF assms] by (simp add: declare_all_iff list_all_iff)

section \<open>Dependencies\<close>

text \<open>
  What the protobuf library promises of map fields: the field is a message field whose type is an
  entry of the file, an entry has the two fields \<open>key\<close> and \<open>value\<close>, and it is the entry of a map field.
\<close>

definition entry_of_map :: "proto_file \<Rightarrow> nat list \<Rightarrow> nat list \<Rightarrow> bool" where
  "entry_of_map fd p q \<longleftrightarrow>
     \<not> is_map_entry fd q \<and> list_ex (\<lambda>f. pf_map f \<and> pf_ref f = InFile p) (fields_of fd q)"

definition map_field_ok :: "proto_file \<Rightarrow> field_desc \<Rightarrow> bool" where
  "map_field_ok fd f \<longleftrightarrow>
     (if pf_map f then
        pf_kind f = KMessage
        \<and> (case pf_ref f of InFile q \<Rightarrow> q \<in> set (flat_messages fd) | Elsewhere n vs \<Rightarrow> False)
      else True)"

definition wf_proto :: "proto_file \<Rightarrow> bool" where
  "wf_proto fd \<longleftrightarrow>
     list_all (\<lambda>p. if is_map_entry fd p
                  then map pf_name (fields_of fd p) = [''key'', ''value'']
                    \<and> list_ex (entry_of_map fd p) (flat_messages fd)
                  else list_all (map_field_ok fd) (fields_of fd p)) (flat_messages fd)"

definition references :: "field_desc \<Rightarrow> bool" where
  "references f \<longleftrightarrow> is_message_kind (pf_kind f) \<or> pf_kind f = KEnum"

definition message_entry :: "(nat \<Rightarrow> nat) \<Rightarrow> proto_file \<Rightarrow> type_ref \<Rightarrow> string" where
  "message_entry up fd r =
     (case r of
        InFile p \<Rightarrow> if is_map_entry fd p then ''nil'' else ''(*'' @ message_go_name up fd p @ '')(nil)''
      | Elsewhere n vs \<Rightarrow> [])"

text \<open>The entry of \<open>goTypes\<close> a field stands for.\<close>

definition field_entry :: "(nat \<Rightarrow> nat) \<Rightarrow> proto_file \<Rightarrow> field_desc \<Rightarrow> string" where
  "field_entry up fd f =
     (if is_message_kind (pf_kind f) then message_entry up fd (pf_ref f)
      else case pf_ref f of InFile p \<Rightarrow> ''('' @ enum_go_name up fd p @ '')(0)'' | Elsewhere n vs \<Rightarrow> [])"

lemma check_fields_types:
  "check_msg_fields uni up fd full ns gs fs = None \<Longrightarrow> f \<in> set fs \<Longrightarrow> \<exists>t. go_field_type up fd f = Inr t"
  by (induction fs arbitrary: ns gs) (auto simp: Let_def split: if_splits sum.splits)

lemma accepted_field:
  assumes "validate_descriptor uni up fd = Inr syms" "p \<in> set (flat_messages fd)" "\<not> is_map_entry fd p" "f \<in> set (fields_of fd p)"
  shows "\<exists>t. go_field_type up fd f = Inr t"
proof -
  have "check_message uni up fd p = None"
    using validate_parts(2) [OF assms(1)] assms(2) by (simp add: first_error_None list_all_iff)
  then show ?thesis using assms(3,4) check_fields_types by (fastforce simp: check_message_def)
qed

definition local_ref :: "proto_file \<Rightarrow> field_desc \<Rightarrow> bool" where
  "local_ref fd f \<longleftrightarrow>
     (\<exists>q. pf_ref f = InFile q \<and> q \<in> set (if is_message_kind (pf_kind f) then flat_messages fd else flat_enums fd))"

lemma single_type_local:
  "go_single_field_type up fd f = Inr t \<Longrightarrow> references f \<Longrightarrow> local_ref fd f"
  by (auto simp: go_single_field_type_def references_def local_ref_def is_message_kind_def scalar_go_type_def
      local_message_type_def local_enum_type_def split: sum.splits type_ref.splits if_splits)

lemma field_type_local:
  assumes "go_field_type up fd f = Inr t" "references f" "map_field_ok fd f"
  shows "local_ref fd f"
proof (cases "pf_map f")
  case True
  then show ?thesis using assms by (auto simp: map_field_ok_def local_ref_def is_message_kind_def split: type_ref.splits)
next
  case False
  then show ?thesis using assms single_type_local by (auto simp: go_field_type_def Let_def split: sum.splits)
qed

lemma entry_local:
  assumes "go_field_type up fd g = Inr t" "pf_map g" "pf_ref g = InFile p"
    "map pf_name (fields_of fd p) = [''key'', ''value'']" "f \<in> set (fields_of fd p)" "references f"
  shows "local_ref fd f"
proof -
  obtain k v where fs: "fields_of fd p = [k, v]" "pf_name k = ''key''" "pf_name v = ''value''"
    using assms(4) by (auto simp: map_eq_Cons_conv)
  then have names: "field_by_name ''key'' (fields_of fd p) = Some k" "field_by_name ''value'' (fields_of fd p) = Some v"
    by (simp_all add: field_by_name_def)
  have "\<exists>u. go_map_field_type up fd x = Inr u" if "x = k \<or> x = v" for x
    using assms(1-3) that by (auto simp: go_field_type_def ref_fields_def names Let_def split: sum.splits)
  then obtain u where "go_map_field_type up fd f = Inr u" using assms(5) fs by auto
  then have "go_single_field_type up fd f = Inr u" by (simp add: go_map_field_type_def split: if_splits)
  then show ?thesis using single_type_local assms(6) by simp
qed

lemma accepted_local:
  assumes v: "validate_descriptor uni up fd = Inr syms" and wf: "wf_proto fd"
    and p: "p \<in> set (flat_messages fd)" and f: "f \<in> set (fields_of fd p)" and r: "references f"
  shows "local_ref fd f"
proof (cases "is_map_entry fd p")
  case True
  then have "map pf_name (fields_of fd p) = [''key'', ''value''] \<and> list_ex (entry_of_map fd p) (flat_messages fd)"
    using wf p unfolding wf_proto_def list_all_iff by fastforce
  then obtain q g where q: "q \<in> set (flat_messages fd)" "\<not> is_map_entry fd q" "g \<in> set (fields_of fd q)" "pf_map g"
      "pf_ref g = InFile p" and n: "map pf_name (fields_of fd p) = [''key'', ''value'']"
    by (auto simp: list_ex_iff entry_of_map_def)
  obtain t where "go_field_type up fd g = Inr t" using accepted_field [OF v q(1-3)] by auto
  then show ?thesis using entry_local [OF _ q(4,5) n f r] by simp
next
  case False
  then have "map_field_ok fd f" using wf p f by (auto simp: wf_proto_def list_all_iff)
  then show ?thesis using accepted_field [OF v p False f] field_type_local r by auto
qed

lemma message_index_entry:
  assumes "q \<in> set (flat_messages fd)"
  shows "\<exists>i. message_type_index fd (InFile q) = Some i \<and> i < length (go_types up fd) \<and> go_types up fd ! i = message_entry up fd (InFile q)"
  using position_nth [OF assms]
  by (auto simp: message_type_index_def go_types_def nth_append message_entry_def)

lemma enum_index_entry:
  assumes "q \<in> set (flat_enums fd)"
  shows "\<exists>i. enum_type_index fd (InFile q) = Some i \<and> i < length (go_types up fd)
    \<and> go_types up fd ! i = ''('' @ enum_go_name up fd q @ '')(0)''"
  using position_nth [OF assms] by (auto simp: enum_type_index_def go_types_def nth_append)

lemma field_dep_entry:
  assumes "references f \<longrightarrow> local_ref fd f"
  shows "if references f
         then (\<exists>i. field_dep fd f = Some i \<and> i < length (go_types up fd) \<and> go_types up fd ! i = field_entry up fd f)
         else field_dep fd f = None"
proof (cases "references f")
  case True
  then obtain q where q: "pf_ref f = InFile q"
      "q \<in> set (if is_message_kind (pf_kind f) then flat_messages fd else flat_enums fd)"
    using assms by (auto simp: local_ref_def)
  show ?thesis
  proof (cases "is_message_kind (pf_kind f)")
    case k: True
    then show ?thesis using True q message_index_entry [of q fd up] by (simp add: field_dep_def field_entry_def)
  next
    case False
    then show ?thesis using True q enum_index_entry [of q fd up]
      by (simp add: field_dep_def field_entry_def references_def)
  qed
qed (simp add: references_def field_dep_def)

lemma map_filter_entries:
  assumes "\<And>x. x \<in> set xs \<Longrightarrow> if P x then (\<exists>i. d x = Some i \<and> i < n \<and> ts ! i = e x) else d x = None"
  shows "map (\<lambda>i. ts ! i) (List.map_filter d xs) = map e (filter P xs) \<and> list_all (\<lambda>i. i < n) (List.map_filter d xs)"
  using assms
proof (induction xs)
  case (Cons x xs)
  then have "map (\<lambda>i. ts ! i) (List.map_filter d xs) = map e (filter P xs) \<and> list_all (\<lambda>i. i < n) (List.map_filter d xs)"
    by simp
  then show ?case using Cons.prems [of x] by (auto simp: List.map_filter_simps split: if_splits)
qed (simp add: List.map_filter_simps)

lemma concat_entries:
  assumes "\<And>p x. p \<in> set ps \<Longrightarrow> x \<in> set (fs p) \<Longrightarrow>
    if P x then (\<exists>i. d x = Some i \<and> i < n \<and> ts ! i = e x) else d x = None"
  shows "map (\<lambda>i. ts ! i) (concat (map (\<lambda>p. List.map_filter d (fs p)) ps)) = map e (concat (map (\<lambda>p. filter P (fs p)) ps))
    \<and> list_all (\<lambda>i. i < n) (concat (map (\<lambda>p. List.map_filter d (fs p)) ps))"
  using assms
proof (induction ps)
  case (Cons p ps)
  have "map (\<lambda>i. ts ! i) (List.map_filter d (fs p)) = map e (filter P (fs p)) \<and> list_all (\<lambda>i. i < n) (List.map_filter d (fs p))"
    by (rule map_filter_entries, rule Cons.prems [of p]) simp_all
  moreover have "map (\<lambda>i. ts ! i) (concat (map (\<lambda>p. List.map_filter d (fs p)) ps)) = map e (concat (map (\<lambda>p. filter P (fs p)) ps))
    \<and> list_all (\<lambda>i. i < n) (concat (map (\<lambda>p. List.map_filter d (fs p)) ps))"
    by (rule Cons.IH, rule Cons.prems) simp_all
  ultimately show ?case by simp
qed simp

lemma rpc_refs:
  assumes "validate_descriptor uni up fd = Inr syms" "m \<in> set (file_rpcs fd)"
  shows "\<exists>p q. pm_input m = InFile p \<and> p \<in> set (flat_messages fd) \<and> pm_output m = InFile q \<and> q \<in> set (flat_messages fd)"
proof -
  have "check_rpc up fd m = None"
    using validate_parts(3) [OF assms(1)] assms(2) by (simp only: first_error_None list_all_iff) auto
  then show ?thesis
    by (auto simp: check_rpc_def local_message_type_def split: sum.splits type_ref.splits if_splits)
qed

definition field_refs :: "proto_file \<Rightarrow> field_desc list" where
  "field_refs fd = concat (map (\<lambda>p. filter references (fields_of fd p)) (flat_messages fd))"

text \<open>
  C33: the dependency table of an accepted file is in step with what it describes. Its rows are the
  fields with a message or enum type of all messages in flattened order, map entries included, then
  the inputs and the outputs of the methods; none is missing and each is the index of the entry of
  \<open>goTypes\<close> that is the Go type of what it refers to. The offsets behind the rows cut it into these
  three parts.
\<close>

theorem message_deps_resolve:
  assumes "validate_descriptor uni up fd = Inr syms" "wf_proto fd"
  shows "map (\<lambda>i. go_types up fd ! i) (field_deps fd) = map (field_entry up fd) (field_refs fd)
    \<and> map (\<lambda>i. go_types up fd ! i) (input_deps fd) = map (\<lambda>m. message_entry up fd (pm_input m)) (file_rpcs fd)
    \<and> map (\<lambda>i. go_types up fd ! i) (output_deps fd) = map (\<lambda>m. message_entry up fd (pm_output m)) (file_rpcs fd)
    \<and> list_all (\<lambda>i. i < length (go_types up fd)) (field_deps fd @ input_deps fd @ output_deps fd)
    \<and> (let d = dep_idxs fd; n = length d; cut = (\<lambda>a b. take (b - a) (drop a d)) in
       cut (d ! (n - 1)) (d ! (n - 4)) = field_deps fd
       \<and> cut (d ! (n - 4)) (d ! (n - 5)) = input_deps fd
       \<and> cut (d ! (n - 5)) (d ! (n - 3)) = output_deps fd)"
proof -
  let ?n = "length (go_types up fd)"
  have F: "map (\<lambda>i. go_types up fd ! i) (field_deps fd) = map (field_entry up fd) (field_refs fd)
      \<and> list_all (\<lambda>i. i < ?n) (field_deps fd)"
    unfolding field_deps_def field_refs_def
    by (rule concat_entries, rule field_dep_entry) (use accepted_local [OF assms] in blast)
  have R: "map (\<lambda>i. go_types up fd ! i) (List.map_filter (\<lambda>m. message_type_index fd (r m)) ms)
      = map (\<lambda>m. message_entry up fd (r m)) (filter (\<lambda>_. True) ms)
      \<and> list_all (\<lambda>i. i < ?n) (List.map_filter (\<lambda>m. message_type_index fd (r m)) ms)"
    if "\<And>m. m \<in> set ms \<Longrightarrow> \<exists>p. r m = InFile p \<and> p \<in> set (flat_messages fd)" for r :: "rpc_desc \<Rightarrow> type_ref" and ms
    by (rule map_filter_entries) (use that message_index_entry in fastforce)
  have I: "map (\<lambda>i. go_types up fd ! i) (input_deps fd) = map (\<lambda>m. message_entry up fd (pm_input m)) (file_rpcs fd)
      \<and> list_all (\<lambda>i. i < ?n) (input_deps fd)"
    and O: "map (\<lambda>i. go_types up fd ! i) (output_deps fd) = map (\<lambda>m. message_entry up fd (pm_output m)) (file_rpcs fd)
      \<and> list_all (\<lambda>i. i < ?n) (output_deps fd)"
    using R [of "file_rpcs fd" pm_input] R [of "file_rpcs fd" pm_output] rpc_refs [OF assms(1)]
    by (fastforce simp: input_deps_def output_deps_def)+
  show ?thesis using F I O by (simp add: dep_idxs_def dep_offsets_def Let_def nth_append)
qed

text \<open>A file with an enum, a nested message, a map of it and a method.\<close>

definition ascii_upper :: "nat \<Rightarrow> nat" where
  "ascii_upper r = (if 97 \<le> r \<and> r \<le> 122 then r - 32 else r)"

definition example_field :: "string \<Rightarrow> field_kind \<Rightarrow> type_ref \<Rightarrow> field_desc" where
  "example_field n k r = \<lparr>pf_name = n, pf_fullName = n, pf_number = 1, pf_kind = k, pf_jsonName = n, pf_list = False,
     pf_map = False, pf_packed = False, pf_optional = False, pf_oneof = False, pf_ref = r\<rparr>"

definition example_file :: proto_file where
  "example_file =
     \<lparr>pr_path = ''a.proto'', pr_package = ''p'', pr_goPackage = Some ''p'', pr_syntax = ''proto3'',
      pr_enums = [\<lparr>pe_name = ''kind'', pe_fullName = ''p.kind'', pe_values = [(''ZERO'', 0), (''ONE'', 1)]\<rparr>],
      pr_messages =
        [MsgDesc ''alpha'' ''p.alpha'' False
           [(example_field ''betas'' KMessage (InFile [0, 1]))\<lparr>pf_map := True\<rparr>, example_field ''kind'' KEnum (InFile [0])]
           []
           [MsgDesc ''beta'' ''p.alpha.beta'' False [] [] [],
            MsgDesc ''BetasEntry'' ''p.alpha.BetasEntry'' True
              [example_field ''key'' KString (Elsewhere [] []), example_field ''value'' KMessage (InFile [0, 0])] [] []]],
      pr_services =
        [\<lparr>pv_name = ''S'', pv_fullName = ''p.S'',
          pv_methods = [\<lparr>pm_name = ''M'', pm_fullName = ''p.S.M'', pm_input = InFile [0], pm_output = InFile [0, 0],
            pm_clientStream = False, pm_serverStream = True\<rparr>]\<rparr>]\<rparr>"

lemma example_tables:
  "flat_messages example_file = [[0], [0, 0], [0, 1]] \<and> flat_enums example_file = [[0]]
   \<and> dep_idxs example_file = [3, 0, 2, 1, 2, 4, 3, 5, 5, 0]"
  by code_simp

lemma go_runes_ascii: "list_all (\<lambda>c. byte c < 128) s \<Longrightarrow> go_runes s = map byte s"
proof (induction s)
  case (Cons a s)
  then have r: "rune_size (a # s) = 1" by simp
  then have "go_runes (a # s) = rune_val (a # s) # go_runes s" by (simp del: rune_size.simps)
  moreover have "rune_val (a # s) = byte a" using r by (simp add: rune_val_def del: rune_size.simps)
  ultimately show ?case using Cons by simp
qed simp

text \<open>A quick test of an ASCII name: an upper case letter first or an underscore behind it is in no keyword.\<close>

definition ascii_ident_char :: "char \<Rightarrow> bool" where
  "ascii_ident_char c \<longleftrightarrow> c = CHR ''_'' \<or> is_lower c \<or> is_upper c"

definition ascii_ident :: "string \<Rightarrow> bool" where
  "ascii_ident s =
     (case s of
        [] \<Rightarrow> False
      | c # cs \<Rightarrow> ascii_ident_char c \<and> list_all (\<lambda>x. ascii_ident_char x \<or> is_digit x) cs
          \<and> (is_upper c \<or> CHR ''_'' \<in> set cs))"

lemma ascii_ident_sound:
  assumes "ascii_ident s"
  shows "is_go_identifier ascii_table s"
proof -
  obtain c cs where s: "s = c # cs" using assms by (cases s) (auto simp: ascii_ident_def)
  have ch: "byte x < 128 \<and> ir_letter ascii_table (byte x)" if "ascii_ident_char x" for x
    using that by (auto simp: ascii_ident_char_def is_lower_def is_upper_def ir_letter_def ascii_table_def ascii_letter_def byte_def)
  have dg: "byte x < 128 \<and> u_digit ascii_table (byte x)" if "is_digit x" for x
    using that by (auto simp: is_digit_def ascii_table_def ascii_digit_def)
  have "list_all (\<lambda>c. byte c < 128) s" using assms ch dg by (auto simp: s ascii_ident_def list_all_iff)
  then have "go_runes s = byte c # map byte cs" using go_runes_ascii [of s] s by simp
  then have "ident_runes ascii_table s"
    using assms ch dg by (auto simp: ident_runes_def s ascii_ident_def list_all_iff simp del: go_runes.simps)
  moreover have "\<not> is_go_keyword s"
  proof
    assume "is_go_keyword s"
    then have "\<not> ascii_ident s"
      by (auto simp: is_go_keyword_def go_keywords_def ascii_ident_def is_upper_def byte_def)
    then show False using assms by simp
  qed
  moreover have "s \<noteq> ''_''" using assms by (auto simp: ascii_ident_def is_upper_def byte_def)
  ultimately show ?thesis using s by (simp add: is_go_identifier_def del: go_runes.simps)
qed

lemma example_declared:
  "map fst (declarations ascii_table ascii_upper example_file) =
    [''File_a_2e_proto'', ''file_a_2e_proto_rawDesc'', ''file_a_2e_proto_rawDescOnce'', ''file_a_2e_proto_rawDescData'',
     ''file_a_2e_proto_rawDescGZIP'', ''file_a_2e_proto_enumTypes'', ''file_a_2e_proto_msgTypes'',
     ''file_a_2e_proto_goTypes'', ''file_a_2e_proto_depIdxs'', ''file_a_2e_proto_init'',
     ''Kind'', ''Kind_name'', ''Kind_value'', ''Kind_ZERO'', ''Kind_ONE'', ''Alpha'', ''Alpha_Beta'']"
  by code_simp

lemma example_accepted: "\<exists>syms. validate_descriptor ascii_table ascii_upper example_file = Inr syms"
proof -
  let ?ds = "declarations ascii_table ascii_upper example_file"
  have "list_all ascii_ident (map fst ?ds)" unfolding example_declared by code_simp
  then have i: "list_all (is_go_identifier ascii_table) (map fst ?ds)" by (auto simp: list_all_iff ascii_ident_sound)
  have d: "distinct (map fst ?ds)" unfolding example_declared by simp
  have "first_error (map (check_message ascii_table ascii_upper example_file) (flat_messages example_file)) = None" by code_simp
  moreover have "first_error (map (check_rpc ascii_upper example_file) (file_rpcs example_file)) = None" by code_simp
  moreover have "declare_all ascii_table [] ?ds = Inr ?ds" using declare_all_iff [of "[]"] i d by simp
  ultimately show ?thesis by (simp add: validate_descriptor_def)
qed

theorem message_deps_resolve_witness:
  "map (\<lambda>i. go_types ascii_upper example_file ! i) (field_deps example_file)
     = [''nil'', ''(Kind)(0)'', ''(*Alpha_Beta)(nil)'']"
proof -
  obtain syms where v: "validate_descriptor ascii_table ascii_upper example_file = Inr syms" using example_accepted by blast
  have w: "wf_proto example_file" by code_simp
  have "map (field_entry ascii_upper example_file) (field_refs example_file)
      = [''nil'', ''(Kind)(0)'', ''(*Alpha_Beta)(nil)'']" by code_simp
  with message_deps_resolve [OF v w] show ?thesis by simp
qed

end
