(* ===== verification/Codegen_Ident.thy ===== *)
theory Codegen_Ident
  imports Codegen_Message_Props
begin

text \<open>
  The identifiers the message generator makes of the path of a file (\<open>fileIdent\<close> in
  src/internal/codegen/gen/message/generate.go): how much they tell of the path, and why the symbols of
  two files of one package are distinct. The proofs decode UTF-8.
\<close>

section \<open>UTF-8 of one rune\<close>

definition valid_rune :: "nat \<Rightarrow> bool" where
  "valid_rune r \<longleftrightarrow> r < 55296 \<or> 57344 \<le> r \<and> r \<le> 1114111"

lemma byte_char [simp]: "n < 256 \<Longrightarrow> byte (char_of n) = n"
  by (simp add: byte_def)

lemma lead_bits:
  fixes q m :: nat
  shows "q < 32 \<Longrightarrow> (192 + q) mod 32 = q" "q < 16 \<Longrightarrow> (224 + q) mod 16 = q" "q < 8 \<Longrightarrow> (240 + q) mod 8 = q"
    "(128 + m mod 64) mod 64 = m mod 64"
  by (subst mod_add_eq [symmetric], simp)+

lemma split64: "(r :: nat) = r div 64 * 64 + r mod 64"
  by simp

lemma utf8_one: "r < 128 \<Longrightarrow> rune_size (utf8_encode r @ x) = 1 \<and> rune_val (utf8_encode r @ x) = r"
  by (simp add: utf8_encode_def rune_val_def)

lemma utf8_two:
  assumes "128 \<le> r" "r < 2048"
  shows "rune_size (utf8_encode r @ x) = 2 \<and> rune_val (utf8_encode r @ x) = r"
proof -
  have q: "2 \<le> r div 64" "r div 64 < 32" using assms by auto
  have s: "rune_size (utf8_encode r @ x) = 2"
    using assms q by (simp add: utf8_encode_def in_range_def second_ok_def)
  then have "rune_val (utf8_encode r @ x) = r"
    using assms q by (simp add: rune_val_def utf8_encode_def lead_bits del: rune_size.simps)
  with s show ?thesis by simp
qed

lemma rune_val_three:
  "rune_size s = 3 \<Longrightarrow> rune_val s = (byte (s ! 0) mod 16) * 4096 + (byte (s ! 1) mod 64) * 64 + byte (s ! 2) mod 64"
  by (simp add: rune_val_def del: rune_size.simps)

lemma rune_val_four:
  "rune_size s = 4 \<Longrightarrow>
    rune_val s = (byte (s ! 0) mod 8) * 262144 + (byte (s ! 1) mod 64) * 4096 + (byte (s ! 2) mod 64) * 64 + byte (s ! 3) mod 64"
  by (simp add: rune_val_def del: rune_size.simps)

lemma utf8_three:
  assumes "2048 \<le> r" "r < 65536" "valid_rune r"
  shows "rune_size (utf8_encode r @ x) = 3 \<and> rune_val (utf8_encode r @ x) = r"
proof -
  let ?q = "r div 4096" and ?m = "r div 64 mod 64"
  have q: "?q < 16" using assms by auto
  have m: "?m < 64" by simp
  have dm: "r div 64 = ?q * 64 + ?m" using div_mult2_eq [of r 64 64] by simp
  have lo: "32 \<le> ?m" if "?q = 0" using that dm assms(1) by simp
  have hi: "?m < 32" if "?q = 13"
  proof -
    have "r < 55296" using that assms(3) by (auto simp: valid_rune_def)
    then have "r div 64 < 864" by auto
    then show ?thesis using dm that by simp
  qed
  have ns: "\<not> (55296 \<le> r \<and> r < 57344)" using assms by (auto simp: valid_rune_def)
  have e: "utf8_encode r = [char_of (224 + ?q), char_of (128 + ?m), char_of (128 + r mod 64)]"
    using assms ns unfolding utf8_encode_def by auto
  have b: "byte (char_of (224 + ?q)) = 224 + ?q" "byte (char_of (128 + ?m)) = 128 + ?m"
    "byte (char_of (128 + r mod 64)) = 128 + r mod 64" using q m by simp_all
  have s: "rune_size (utf8_encode r @ x) = 3"
    using q m lo hi by (auto simp: e b in_range_def second_ok_def cont_at_def)
  have "rune_val (utf8_encode r @ x) = ?q * 4096 + ?m * 64 + r mod 64"
    unfolding rune_val_three [OF s] unfolding e using q by (simp add: b lead_bits)
  moreover have "\<dots> = r" using dm split64 [of r] by linarith
  ultimately show ?thesis using s by simp
qed

lemma utf8_four:
  assumes "65536 \<le> r" "valid_rune r"
  shows "rune_size (utf8_encode r @ x) = 4 \<and> rune_val (utf8_encode r @ x) = r"
proof -
  let ?q = "r div 262144" and ?m = "r div 4096 mod 64" and ?l = "r div 64 mod 64"
  have r: "r \<le> 1114111" using assms by (auto simp: valid_rune_def)
  then have q: "?q < 5" by auto
  have m: "?m < 64" "?l < 64" by simp_all
  have dl: "r div 64 = r div 4096 * 64 + ?l" using div_mult2_eq [of r 64 64] by simp
  have dm: "r div 4096 = ?q * 64 + ?m" using div_mult2_eq [of r 4096 64] by simp
  have lo: "16 \<le> ?m" if "?q = 0" using that dm assms(1) by simp
  have hi: "?m < 16" if "?q = 4"
  proof -
    have "r div 4096 < 272" using r by auto
    then show ?thesis using dm that by simp
  qed
  have e: "utf8_encode r = [char_of (240 + ?q), char_of (128 + ?m), char_of (128 + ?l), char_of (128 + r mod 64)]"
    using assms r by (simp add: utf8_encode_def)
  have b: "byte (char_of (240 + ?q)) = 240 + ?q" "byte (char_of (128 + ?m)) = 128 + ?m"
    "byte (char_of (128 + ?l)) = 128 + ?l" "byte (char_of (128 + r mod 64)) = 128 + r mod 64" using q m by simp_all
  have s: "rune_size (utf8_encode r @ x) = 4"
    using q m lo hi by (auto simp: e b in_range_def second_ok_def cont_at_def)
  have "rune_val (utf8_encode r @ x) = ?q * 262144 + ?m * 4096 + ?l * 64 + r mod 64"
    unfolding rune_val_four [OF s] unfolding e using q by (simp add: b lead_bits)
  moreover have "\<dots> = r" using dm dl split64 [of r] by linarith
  ultimately show ?thesis using s by simp
qed

lemma utf8_decode:
  assumes "valid_rune r"
  shows "rune_val (utf8_encode r @ x) = r"
proof -
  consider "r < 128" | "128 \<le> r" "r < 2048" | "2048 \<le> r" "r < 65536" | "65536 \<le> r" by linarith
  then show ?thesis using assms by cases (simp_all only: utf8_one utf8_two utf8_three utf8_four)
qed

lemma utf8_encode_inj:
  assumes "valid_rune r" "valid_rune r'" "utf8_encode r @ x = utf8_encode r' @ y"
  shows "r = r' \<and> x = y"
proof -
  have "r = r'" using utf8_decode [OF assms(1), of x] utf8_decode [OF assms(2), of y] assms(3) by simp
  with assms(3) show ?thesis by simp
qed

lemma cont_bits: "128 \<le> n \<Longrightarrow> n \<le> 191 \<Longrightarrow> n mod 64 = n - (128 :: nat)"
  by (simp add: le_mod_geq)

text \<open>What \<open>range\<close> yields is always a valid rune.\<close>

lemma go_runes_valid: "r \<in> set (go_runes s) \<Longrightarrow> valid_rune r"
proof (induction s rule: go_runes.induct)
  case (2 a s)
  have "valid_rune (rune_val (a # s))"
  proof -
    have "rune_size (a # s) \<in> {0, 1, 2, 3, 4}" by simp
    then consider "rune_size (a # s) = 1" | "rune_size (a # s) = 2" | "rune_size (a # s) = 3" | "rune_size (a # s) = 4"
      | "rune_size (a # s) = 0" by (auto simp del: rune_size.simps)
    then show ?thesis
    proof cases
      case 1
      then have "byte a < 128" by (auto split: if_splits)
      with 1 show ?thesis by (simp add: rune_val_def valid_rune_def del: rune_size.simps)
    next
      case 2
      have "(x mod 32) * 64 + y mod 64 < 2048" for x y :: nat
        using mod_less_divisor [of 32 x] mod_less_divisor [of 64 y] by linarith
      with 2 show ?thesis by (simp add: rune_val_def valid_rune_def less_trans [of _ 2048] del: rune_size.simps)
    next
      case 3
      then obtain b c t where s: "s = b # c # t" and a: "224 \<le> byte a" "byte a \<le> 239" and ok: "second_ok a b"
        by (cases s; cases "tl s") (auto simp: in_range_def cont_at_def split: if_splits)
      have v: "rune_val (a # s) = (byte a mod 16) * 4096 + (byte b mod 64) * 64 + byte c mod 64"
        using rune_val_three [OF 3] by (simp add: s numeral_2_eq_2)
      have m: "byte c mod 64 < 64" "byte b mod 64 < 64" by simp_all
      have am: "byte a mod 16 = byte a - 224" using lead_bits(2) [of "byte a - 224"] a by simp
      show ?thesis
      proof (cases "byte a = 237")
        case True
        then have "128 \<le> byte b" "byte b \<le> 159" using ok by (auto simp: second_ok_def in_range_def)
        then have "byte b mod 64 < 32" using cont_bits [of "byte b"] by simp
        moreover have "byte a - 224 = 13" using True by simp
        ultimately show ?thesis unfolding valid_rune_def v am using m by linarith
      next
        case False
        then have "byte a - 224 \<le> 12 \<or> 14 \<le> byte a - 224 \<and> byte a - 224 \<le> 15" using a by linarith
        then show ?thesis unfolding valid_rune_def v am using m by linarith
      qed
    next
      case 4
      then obtain b c d t where s: "s = b # c # d # t" and a: "240 \<le> byte a" "byte a \<le> 244" and ok: "second_ok a b"
        by (cases s; cases "tl s"; cases "tl (tl s)") (auto simp: in_range_def cont_at_def split: if_splits)
      have v: "rune_val (a # s) = (byte a mod 8) * 262144 + (byte b mod 64) * 4096 + (byte c mod 64) * 64 + byte d mod 64"
        using rune_val_four [OF 4] by (simp add: s numeral_2_eq_2 numeral_3_eq_3)
      have m: "byte c mod 64 < 64" "byte b mod 64 < 64" "byte d mod 64 < 64" by simp_all
      have am: "byte a mod 8 = byte a - 240" using lead_bits(3) [of "byte a - 240"] a by simp
      have lo: "16 \<le> byte b mod 64" if "byte a = 240"
      proof -
        have "144 \<le> byte b" "byte b \<le> 191" using ok that by (auto simp: second_ok_def in_range_def)
        then show ?thesis using cont_bits [of "byte b"] by simp
      qed
      have hi: "byte b mod 64 < 16" if "byte a = 244"
      proof -
        have "128 \<le> byte b" "byte b \<le> 143" using ok that by (auto simp: second_ok_def in_range_def)
        then show ?thesis using cont_bits [of "byte b"] by simp
      qed
      have "byte a - 240 = 0 \<or> 1 \<le> byte a - 240 \<and> byte a - 240 \<le> 3 \<or> byte a - 240 = 4" using a by linarith
      then show ?thesis unfolding valid_rune_def v am using m lo hi a by (elim disjE) linarith+
    next
      case 5
      then show ?thesis by (simp add: rune_val_def valid_rune_def del: rune_size.simps)
    qed
  qed
  with 2 show ?case by (auto simp del: rune_size.simps)
qed simp

section \<open>The identifier of a path\<close>

definition ident_text :: "unicode_table \<Rightarrow> nat list \<Rightarrow> string" where
  "ident_text uni rs = concat (map (ident_rune uni) rs)"

abbreviation underscores :: "string \<Rightarrow> nat" where
  "underscores s \<equiv> length (filter (\<lambda>c. c = CHR ''_'') s)"

lemma hex_digit_byte: "n < 16 \<Longrightarrow> byte (hex_digit n) = (if n < 10 then 48 + n else 87 + n)"
  by (simp add: hex_digit_def)

lemma hex_digit_plain: "n < 16 \<Longrightarrow> hex_digit n \<noteq> CHR ''_''"
proof
  assume n: "n < 16" and e: "hex_digit n = CHR ''_''"
  have "byte (hex_digit n) = 95" unfolding e by (simp add: byte_def)
  with n show False by (simp add: hex_digit_byte split: if_splits)
qed

lemma hex_digit_inj: "m < 16 \<Longrightarrow> n < 16 \<Longrightarrow> hex_digit m = hex_digit n \<Longrightarrow> m = n"
  by (drule arg_cong [of _ _ byte]) (simp add: hex_digit_byte split: if_splits)

lemma hex_str_plain: "CHR ''_'' \<notin> set (hex_str n)"
proof (induction n rule: hex_str.induct)
  case (1 n)
  have "hex_digit (n mod 16) \<noteq> CHR ''_''" by (rule hex_digit_plain) simp
  then show ?case using 1 hex_digit_plain [of n] hex_str.simps [of n] by auto
qed

lemma hex_str_not_Nil: "hex_str n \<noteq> []"
  using hex_str.simps [of n] by auto

lemma hex_str_snoc: "\<exists>p. hex_str n = p @ [hex_digit (n mod 16)] \<and> (p = [] \<longleftrightarrow> n < 16) \<and> (16 \<le> n \<longrightarrow> p = hex_str (n div 16))"
proof (cases "n < 16")
  case True
  then show ?thesis using hex_str.simps [of n] by auto
next
  case False
  then show ?thesis using hex_str.simps [of n] hex_str_not_Nil [of "n div 16"] by auto
qed

lemma hex_str_inj: "hex_str m = hex_str n \<Longrightarrow> m = n"
proof (induction m arbitrary: n rule: less_induct)
  case (less m)
  obtain p where p: "hex_str m = p @ [hex_digit (m mod 16)]" "p = [] \<longleftrightarrow> m < 16" "16 \<le> m \<longrightarrow> p = hex_str (m div 16)"
    using hex_str_snoc by blast
  obtain q where q: "hex_str n = q @ [hex_digit (n mod 16)]" "q = [] \<longleftrightarrow> n < 16" "16 \<le> n \<longrightarrow> q = hex_str (n div 16)"
    using hex_str_snoc by blast
  have "p = q" "hex_digit (m mod 16) = hex_digit (n mod 16)" using less.prems p(1) q(1) by simp_all
  then have low: "m mod 16 = n mod 16" by (intro hex_digit_inj) simp_all
  show ?case
  proof (cases "m < 16")
    case True
    then show ?thesis using low p q \<open>p = q\<close> by simp
  next
    case False
    then have "hex_str (m div 16) = hex_str (n div 16)" using p q \<open>p = q\<close> by auto
    then have "m div 16 = n div 16" using False by (intro less.IH) simp_all
    then show ?thesis using low by (metis div_mult_mod_eq)
  qed
qed

text \<open>
  What is used of the tables of package \<open>unicode\<close>: the underscore is no letter and no digit. Then it
  occurs in the text of a rune only as the frame of an escape.
\<close>

definition no_underscore :: "unicode_table \<Rightarrow> bool" where
  "no_underscore uni \<longleftrightarrow> \<not> u_letter uni 95 \<and> \<not> u_digit uni 95"

abbreviation kept :: "unicode_table \<Rightarrow> nat \<Rightarrow> bool" where
  "kept uni r \<equiv> u_letter uni r \<or> u_digit uni r"

lemma utf8_not_Nil: "utf8_encode r \<noteq> []"
  by (simp add: utf8_encode_def rune_error_bytes_def)

lemma utf8_plain:
  assumes "valid_rune r" "r \<noteq> 95"
  shows "CHR ''_'' \<notin> set (utf8_encode r)"
proof
  assume u: "CHR ''_'' \<in> set (utf8_encode r)"
  have b: "byte (CHR ''_'') = 95" by (simp add: byte_def)
  have "\<forall>c \<in> set (utf8_encode r). byte c = r \<or> 128 \<le> byte c"
    using assms(1) by (auto simp: utf8_encode_def rune_error_bytes_def valid_rune_def split: if_splits)
  with u b assms(2) show False by fastforce
qed

lemma kept_plain: "no_underscore uni \<Longrightarrow> valid_rune r \<Longrightarrow> kept uni r \<Longrightarrow> CHR ''_'' \<notin> set (utf8_encode r)"
  by (rule utf8_plain) (auto simp: no_underscore_def)

lemma underscores_zero: "CHR ''_'' \<notin> set s \<Longrightarrow> underscores s = 0"
  by (auto simp: filter_empty_conv)

lemma ident_rune_underscores:
  assumes "no_underscore uni" "valid_rune r"
  shows "underscores (ident_rune uni r) = (if kept uni r then 0 else 2)"
  using underscores_zero [OF kept_plain [OF assms]] underscores_zero [OF hex_str_plain [of r]]
  by (auto simp: ident_rune_def)

lemma underscores_even:
  assumes "no_underscore uni" "\<And>r. r \<in> set rs \<Longrightarrow> valid_rune r"
  shows "even (underscores (ident_text uni rs))"
  using assms(2)
proof (induction rs)
  case (Cons r rs)
  then show ?case using ident_rune_underscores [OF assms(1), of r] by (simp add: ident_text_def)
qed (simp add: ident_text_def)

text \<open>What may follow the text of a path: nothing, or a suffix with one underscore, at its start.\<close>

definition plain_tail :: "string \<Rightarrow> bool" where
  "plain_tail s \<longleftrightarrow> s = [] \<or> underscores s = 1 \<and> hd s = CHR ''_''"

lemma tail_not_rune:
  assumes "no_underscore uni" "valid_rune r" "plain_tail s"
  shows "s \<noteq> ident_rune uni r @ t"
proof
  assume e: "s = ident_rune uni r @ t"
  have ne: "ident_rune uni r \<noteq> []" by (simp add: ident_rune_def utf8_not_Nil)
  then have u: "underscores s = 1" "hd (ident_rune uni r) = CHR ''_''" using e assms(3) by (auto simp: plain_tail_def)
  show False
  proof (cases "kept uni r")
    case True
    then have "hd (ident_rune uni r) \<in> set (utf8_encode r)" using ne by (simp add: ident_rune_def)
    then show False using kept_plain [OF assms(1,2) True] u by simp
  next
    case False
    then show False using ident_rune_underscores [OF assms(1,2)] e u by simp
  qed
qed

lemma until_underscore:
  "CHR ''_'' \<notin> set a \<Longrightarrow> CHR ''_'' \<notin> set b \<Longrightarrow> a @ CHR ''_'' # x = b @ CHR ''_'' # y \<Longrightarrow> a = b \<and> x = y"
  by (induction a arbitrary: b; case_tac b) auto

lemma ident_rune_inj:
  assumes u: "no_underscore uni" and v: "valid_rune r" "valid_rune q"
    and e: "ident_rune uni r @ x = ident_rune uni q @ y"
  shows "r = q \<and> x = y"
proof -
  have no: "ident_rune uni a @ z \<noteq> ident_rune uni b @ w"
    if "valid_rune a" "kept uni a" "\<not> kept uni b" for a b z w
  proof
    assume "ident_rune uni a @ z = ident_rune uni b @ w"
    then have "hd (utf8_encode a) = CHR ''_''"
      using that utf8_not_Nil [of a] by (cases "utf8_encode a") (simp_all add: ident_rune_def)
    moreover have "hd (utf8_encode a) \<in> set (utf8_encode a)" using utf8_not_Nil by simp
    ultimately show False using kept_plain [OF u that(1,2)] by simp
  qed
  show ?thesis
  proof (cases "kept uni r"; cases "kept uni q")
    assume "kept uni r" "kept uni q"
    then show ?thesis using utf8_encode_inj [OF v] e by (simp add: ident_rune_def)
  next
    assume "\<not> kept uni r" "\<not> kept uni q"
    then have "hex_str r @ CHR ''_'' # x = hex_str q @ CHR ''_'' # y" using e by (simp add: ident_rune_def)
    then show ?thesis using until_underscore [OF hex_str_plain hex_str_plain] hex_str_inj by blast
  qed (use no v e in metis)+
qed

lemma ident_text_inj:
  assumes u: "no_underscore uni" and s: "plain_tail s" "plain_tail t"
  shows "(\<And>r. r \<in> set rs \<union> set qs \<Longrightarrow> valid_rune r) \<Longrightarrow> ident_text uni rs @ s = ident_text uni qs @ t \<Longrightarrow> rs = qs \<and> s = t"
proof (induction rs arbitrary: qs)
  case Nil
  then show ?case using tail_not_rune [OF u _ s(1)] by (cases qs) (auto simp: ident_text_def)
next
  case (Cons r rs)
  show ?case
  proof (cases qs)
    case Nil
    then have "ident_rune uni r @ (ident_text uni rs @ s) = t" using Cons.prems(2) by (simp add: ident_text_def)
    then show ?thesis using tail_not_rune [OF u _ s(2), of r] Cons.prems(1) by auto
  next
    case (Cons q ps)
    then have "ident_rune uni r @ (ident_text uni rs @ s) = ident_rune uni q @ (ident_text uni ps @ t)"
      using Cons.prems(2) by (simp add: ident_text_def)
    then have "r = q \<and> ident_text uni rs @ s = ident_text uni ps @ t"
      using Cons.prems(1) Cons by (intro ident_rune_inj [OF u]) auto
    moreover from this have "rs = ps \<and> s = t" using Cons.prems(1) Cons by (intro Cons.IH) auto
    ultimately show ?thesis using Cons by simp
  qed
qed

section \<open>The symbols of a file\<close>

definition file_suffixes :: "string list" where
  "file_suffixes =
     [''_rawDesc'', ''_rawDescOnce'', ''_rawDescData'', ''_rawDescGZIP'', ''_enumTypes'', ''_msgTypes'', ''_goTypes'',
      ''_depIdxs'', ''_init'']"

lemma file_symbol_names:
  "map fst (file_symbols ident) = (''File_'' @ ident) # map (\<lambda>t. ''file_'' @ ident @ t) file_suffixes"
  by (simp add: file_symbols_def file_suffixes_def)

lemma suffix_plain: "t \<in> set file_suffixes \<Longrightarrow> plain_tail t"
  by (auto simp: file_suffixes_def plain_tail_def)

lemma file_ident_cases:
  "file_ident uni p = (if ident_text uni (go_runes p) = [] then ''argos_proto'' else ident_text uni (go_runes p))"
  by (simp add: file_ident_def ident_text_def)

lemma ident_text_Nil: "ident_text uni rs = [] \<longleftrightarrow> rs = []"
  by (cases rs) (simp_all add: ident_text_def ident_rune_def utf8_not_Nil)

lemma tail_parity: "plain_tail s \<Longrightarrow> plain_tail t \<Longrightarrow> s = [] \<longleftrightarrow> t = [] \<Longrightarrow> underscores s = underscores t"
  by (auto simp: plain_tail_def)

text \<open>The identifiers of two paths, each with a tail, agree only when the paths have the same runes.\<close>

lemma file_ident_inj:
  assumes u: "no_underscore uni" and t: "plain_tail s" "plain_tail t" "s = [] \<longleftrightarrow> t = []"
    and e: "file_ident uni p @ s = file_ident uni q @ t"
  shows "go_runes p = go_runes q"
proof -
  have even: "even (underscores (ident_text uni (go_runes x)))" for x
    by (rule underscores_even [OF u]) (rule go_runes_valid)
  have odd: "odd (underscores ''argos_proto'')" by simp
  have cnt: "underscores (file_ident uni p) = underscores (file_ident uni q)"
    using arg_cong [OF e, of underscores] tail_parity [OF t] by simp
  have empty: "file_ident uni x = ''argos_proto'' \<and> go_runes x = [] \<or> even (underscores (file_ident uni x))
      \<and> file_ident uni x = ident_text uni (go_runes x)" for x
    using even [of x] by (auto simp: file_ident_cases ident_text_Nil)
  show ?thesis
  proof (cases "even (underscores (file_ident uni p))")
    case True
    then have "file_ident uni p = ident_text uni (go_runes p)" "file_ident uni q = ident_text uni (go_runes q)"
      using empty [of p] empty [of q] cnt odd by metis+
    then have "ident_text uni (go_runes p) @ s = ident_text uni (go_runes q) @ t" using e by simp
    then show ?thesis using ident_text_inj [OF u t(1,2)] go_runes_valid by blast
  next
    case False
    then show ?thesis using empty [of p] empty [of q] cnt by metis
  qed
qed

text \<open>
  C34: the package-level symbols a message file declares for itself keep apart the files of a package.
  When two files share one of them, under whatever suffix, their paths are the same sequence of
  characters: the escapes of \<open>fileIdent\<close> lose nothing and cannot be mistaken for a suffix or for the
  name of an empty path. Of the tables of package unicode it is only used that the underscore is
  neither a letter nor a digit.
\<close>

theorem file_symbols_disjoint:
  assumes "no_underscore uni"
    and "name \<in> fst ` set (file_symbols (file_ident uni p))" "name \<in> fst ` set (file_symbols (file_ident uni q))"
  shows "go_runes p = go_runes q"
proof -
  have names: "fst ` set (file_symbols i) = insert (''File_'' @ i) ((\<lambda>t. ''file_'' @ i @ t) ` set file_suffixes)" for i
    using arg_cong [OF file_symbol_names [of i], of set] by simp
  have ne: "t \<noteq> []" if "t \<in> set file_suffixes" for t using that by (auto simp: file_suffixes_def)
  consider "file_ident uni p @ [] = file_ident uni q @ []"
    | s t where "s \<in> set file_suffixes" "t \<in> set file_suffixes" "file_ident uni p @ s = file_ident uni q @ t"
    using assms(2,3) unfolding names by auto
  then show ?thesis
  proof cases
    case 1
    then show ?thesis using file_ident_inj [OF assms(1), of "[]" "[]" p q] by (simp add: plain_tail_def)
  next
    case 2
    then show ?thesis using file_ident_inj [OF assms(1), of s t p q] suffix_plain ne by blast
  qed
qed

theorem file_symbols_disjoint_witness:
  "fst ` set (file_symbols (file_ident ascii_table ''a-b.proto''))
     \<inter> fst ` set (file_symbols (file_ident ascii_table ''a_b.proto'')) = {}"
proof -
  have "no_underscore ascii_table" by (simp add: no_underscore_def ascii_table_def ascii_letter_def ascii_digit_def)
  moreover have "go_runes ''a-b.proto'' \<noteq> go_runes ''a_b.proto''"
    by (simp add: go_runes_ascii byte_def del: go_runes.simps)
  ultimately show ?thesis using file_symbols_disjoint [of ascii_table _ "''a-b.proto''" "''a_b.proto''"] by blast
qed

text \<open>
  The check compares the names of the getters only with one another, so a field \<open>get_x\<close> beside a field
  \<open>x\<close> is accepted: the struct then has a field and a method called GetX, which Go rejects.
\<close>

definition getter_file :: proto_file where
  "getter_file =
     \<lparr>pr_path = ''a.proto'', pr_package = ''p'', pr_goPackage = Some ''p'', pr_syntax = ''proto3'', pr_enums = [],
      pr_messages =
        [MsgDesc ''alpha'' ''p.alpha'' False
           [example_field ''x'' KString (Elsewhere [] []), example_field ''get_x'' KString (Elsewhere [] [])] [] []],
      pr_services = []\<rparr>"

lemma getter_named_field:
  "(\<exists>syms. validate_descriptor ascii_table ascii_upper getter_file = Inr syms)
   \<and> hd (write_getter ascii_upper getter_file ''Alpha'' (example_field ''x'' KString (Elsewhere [] [])))
       = ''func (x *Alpha) GetX() string {''
   \<and> export_go_name ascii_upper ''get_x'' = ''GetX''"
proof (intro conjI)
  let ?ds = "declarations ascii_table ascii_upper getter_file"
  have ds: "map fst ?ds = map fst (file_symbols ''a_2e_proto'') @ [''Alpha'']" by code_simp
  have "list_all ascii_ident (map fst ?ds)" unfolding ds by code_simp
  then have i: "list_all (is_go_identifier ascii_table) (map fst ?ds)" by (auto simp: list_all_iff ascii_ident_sound)
  have d: "distinct (map fst ?ds)" unfolding ds by (simp add: file_symbols_def)
  have "first_error (map (check_message ascii_table ascii_upper getter_file) (flat_messages getter_file)) = None" by code_simp
  moreover have "first_error (map (check_rpc ascii_upper getter_file) (file_rpcs getter_file)) = None" by code_simp
  moreover have "declare_all ascii_table [] ?ds = Inr ?ds" using declare_all_iff [of "[]"] i d by simp
  ultimately show "\<exists>syms. validate_descriptor ascii_table ascii_upper getter_file = Inr syms"
    by (simp add: validate_descriptor_def)
  show "hd (write_getter ascii_upper getter_file ''Alpha'' (example_field ''x'' KString (Elsewhere [] [])))
       = ''func (x *Alpha) GetX() string {''" by code_simp
  show "export_go_name ascii_upper ''get_x'' = ''GetX''" by code_simp
qed

end
