(* ===== verification/Codegen_Frontend_Props.thy ===== *)
theory Codegen_Frontend_Props
  imports Codegen_Frontend Codegen_Ident
begin

text \<open>
  What the frontends and the message generator agree on: the type names of the methods, the kinds of
  the fields, the choice of a descriptor; and what bounds the output of a plugin.
\<close>

section \<open>Type names\<close>

lemma export_go_name_named: "export_name up n \<noteq> [] \<Longrightarrow> export_go_name up n = export_name up n"
  by (simp add: export_go_name_def export_name_def Let_def del: concat_eq_Nil_conv)

lemma join_cons: "ws \<noteq> [] \<Longrightarrow> go_join (w # ws) s = w @ s @ go_join ws s"
  by (cases ws) simp_all

lemma msg_names_Nil: "reach ms p \<Longrightarrow> msg_names ms p \<noteq> []"
  by (cases p) (auto simp: reach_iff [of ms])

lemma go_name_names:
  "reach ms p \<Longrightarrow> list_all (\<lambda>n. export_name up n \<noteq> []) (msg_names ms p) \<Longrightarrow>
    go_name_from up parent ms p = nested_name parent (go_join (map (export_name up) (msg_names ms p)) ''_'')"
proof (induction p arbitrary: parent ms)
  case (Cons i p)
  then have i: "i < length ms" and n: "export_name up (ms_name (ms ! i)) \<noteq> []" by (auto simp: reach_iff [of ms])
  show ?case
  proof (cases "p = []")
    case True
    then show ?thesis using i n by (simp add: export_go_name_named)
  next
    case False
    then have r: "reach (ms_messages (ms ! i)) p" using Cons.prems(1) by (cases p) simp_all
    then have "go_name_from up (nested_name parent (export_name up (ms_name (ms ! i)))) (ms_messages (ms ! i)) p
        = nested_name (nested_name parent (export_name up (ms_name (ms ! i))))
            (go_join (map (export_name up) (msg_names (ms_messages (ms ! i)) p)) ''_'')"
      using Cons.prems(2) i by (intro Cons.IH) simp_all
    then show ?thesis using i n msg_names_Nil [OF r]
      by (simp add: export_go_name_named nested_name_def join_cons)
  qed
qed simp

text \<open>Some letter or digit is in the name of every message.\<close>

definition named_messages :: "(nat \<Rightarrow> nat) \<Rightarrow> proto_file \<Rightarrow> bool" where
  "named_messages up fd \<longleftrightarrow>
     list_all (\<lambda>p. list_all (\<lambda>n. export_name up n \<noteq> []) (msg_names (pr_messages fd) p)) (flat_messages fd)"

lemma rpc_name_go_name:
  assumes "named_messages up fd" "p \<in> set (flat_messages fd)"
  shows "rpc_go_name up fd (InFile p) = message_go_name up fd p"
proof -
  have "reach (pr_messages fd) p" using assms(2) by (simp add: flat_messages_reach)
  moreover have "list_all (\<lambda>n. export_name up n \<noteq> []) (msg_names (pr_messages fd) p)"
    using assms by (simp add: named_messages_def list_all_iff)
  ultimately show ?thesis using assms(2) go_name_names [of "pr_messages fd" p up "[]"]
    by (simp add: rpc_go_name_def ref_names_def message_go_name_def nested_name_def)
qed

definition not_entry :: "proto_file \<Rightarrow> type_ref \<Rightarrow> bool" where
  "not_entry fd r \<longleftrightarrow> (case r of InFile p \<Rightarrow> \<not> is_map_entry fd p | Elsewhere n ns \<Rightarrow> True)"

lemma rpc_type_declared:
  assumes v: "validate_descriptor uni up fd = Inr syms" and n: "named_messages up fd"
    and p: "r = InFile p" "p \<in> set (flat_messages fd)" and e: "not_entry fd r"
  shows "rpc_go_name up fd r = message_go_name up fd p \<and> rpc_go_name up fd r \<in> set syms"
proof -
  have "(message_go_name up fd p, ''message type'') \<in> set (declarations uni up fd)"
    using p e by (simp add: declarations_def generated_messages_def not_entry_def)
  then have "message_go_name up fd p \<in> set syms"
    using message_symbols_exact [OF v] by (metis fst_conv image_eqI)
  then show ?thesis using rpc_name_go_name [OF n p(2)] p(1) by simp
qed

definition go_type_of :: "(nat \<Rightarrow> nat) \<Rightarrow> proto_file \<Rightarrow> type_ref \<Rightarrow> string" where
  "go_type_of up fd r = (case r of InFile p \<Rightarrow> message_go_name up fd p | Elsewhere n ns \<Rightarrow> [])"

lemma file_to_ir_methods:
  "file_to_ir uni up marshal fd base dset = Inr f \<Longrightarrow>
    concat (map is_Methods (fl_Services f)) = map (ir_method_of up fd) (file_rpcs fd)"
  by (auto simp: file_to_ir_def file_rpcs_def map_concat comp_def split: sum.splits)

text \<open>
  C32: the stub and the message file of one proto file fit together. When the message generator accepts
  the descriptor, the type names the proto frontend writes into the methods, which the stub uses as they
  are, are the Go names the generator gives to the messages of those methods, in order, and each is a
  symbol the message file declares. Two things are asked of the file: no message name consists of
  underscores only, and no method takes or returns a map entry, which the protobuf compiler forbids.
\<close>

theorem rpc_types_declared:
  assumes "validate_descriptor uni up fd = Inr syms" "file_to_ir uni up marshal fd base dset = Inr f"
    and "named_messages up fd" "list_all (\<lambda>m. not_entry fd (pm_input m) \<and> not_entry fd (pm_output m)) (file_rpcs fd)"
  shows "map (\<lambda>m. (im_InputType m, im_OutputType m)) (concat (map is_Methods (fl_Services f)))
      = map (\<lambda>m. (go_type_of up fd (pm_input m), go_type_of up fd (pm_output m))) (file_rpcs fd)
    \<and> list_all (\<lambda>m. im_InputType m \<in> set syms \<and> im_OutputType m \<in> set syms) (concat (map is_Methods (fl_Services f)))"
proof -
  have "im_InputType (ir_method_of up fd m) = go_type_of up fd (pm_input m)
      \<and> im_OutputType (ir_method_of up fd m) = go_type_of up fd (pm_output m)
      \<and> go_type_of up fd (pm_input m) \<in> set syms \<and> go_type_of up fd (pm_output m) \<in> set syms"
    if m: "m \<in> set (file_rpcs fd)" for m
  proof -
    obtain p q where pq: "pm_input m = InFile p" "p \<in> set (flat_messages fd)" "pm_output m = InFile q" "q \<in> set (flat_messages fd)"
      using rpc_refs [OF assms(1) m] by blast
    moreover have "not_entry fd (pm_input m)" "not_entry fd (pm_output m)" using assms(4) m by (auto simp: list_all_iff)
    ultimately show ?thesis
      using rpc_type_declared [OF assms(1,3) pq(1,2)] rpc_type_declared [OF assms(1,3) pq(3,4)]
      by (auto simp: ir_method_of_def Let_def go_type_of_def)
  qed
  then show ?thesis by (simp add: file_to_ir_methods [OF assms(2)] list_all_iff)
qed

theorem rpc_types_declared_witness:
  "\<exists>f. file_to_ir ascii_table ascii_upper (\<lambda>_. Inr []) example_file ''a'' [] = Inr f
    \<and> map (\<lambda>m. (im_InputType m, im_OutputType m)) (concat (map is_Methods (fl_Services f))) = [(''Alpha'', ''Alpha_Beta'')]"
proof -
  obtain syms where v: "validate_descriptor ascii_table ascii_upper example_file = Inr syms" using example_accepted by blast
  have g: "parse_go_package ascii_table example_file = Inr ''p''" by code_simp
  then obtain f where f: "file_to_ir ascii_table ascii_upper (\<lambda>_. Inr []) example_file ''a'' [] = Inr f"
    by (simp add: file_to_ir_def)
  have "named_messages ascii_upper example_file" by code_simp
  moreover have "list_all (\<lambda>m. not_entry example_file (pm_input m) \<and> not_entry example_file (pm_output m)) (file_rpcs example_file)"
    by code_simp
  moreover have "map (\<lambda>m. (go_type_of ascii_upper example_file (pm_input m), go_type_of ascii_upper example_file (pm_output m)))
      (file_rpcs example_file) = [(''Alpha'', ''Alpha_Beta'')]" by code_simp
  ultimately show ?thesis using rpc_types_declared [OF v f] f by auto
qed

text \<open>
  The first condition is needed: the message generator calls a message of underscores \<open>_\<close>, the frontend
  leaves its name empty.
\<close>

lemma underscore_message_differs:
  "let fd = example_file\<lparr>pr_messages := [MsgDesc ''a'' ''p.a'' False [] [] [MsgDesc ''_'' ''p.a._'' False [] [] []]]\<rparr> in
   message_go_name ascii_upper fd [0, 0] = ''A__'' \<and> rpc_go_name ascii_upper fd (InFile [0, 0]) = ''A_''"
  by code_simp

text \<open>
  A file that comes as JSON brings the Go names along. They are taken as they are by the stub, while the
  message generator exports them once more: of a valid name with an underscore or a lower case letter at
  its start it declares another one.
\<close>

lemma json_name_exported_again:
  "is_go_identifier ascii_table ''Foo_Bar'' \<and> export_go_name ascii_upper ''Foo_Bar'' = ''FooBar''"
proof
  show "is_go_identifier ascii_table ''Foo_Bar''" by (rule ascii_ident_sound) code_simp
  show "export_go_name ascii_upper ''Foo_Bar'' = ''FooBar''" by code_simp
qed

section \<open>Fields\<close>

lemma kind_round_trip: "k \<noteq> KGroup \<Longrightarrow> map_of kind_names (scalar_kind k) = Some k"
  by (cases k) (simp_all add: scalar_kind_def kind_names_def)

lemma scalar_kind_plain: "\<not> has_prefix (scalar_kind k) ''repeated ''"
  by (cases k) (simp_all add: scalar_kind_def has_prefix_def)

text \<open>A field of a proto file that is put into the representation and taken out again keeps its number, kind and cardinality.\<close>

lemma field_round_trip:
  assumes "pf_kind f \<noteq> KGroup"
  shows "\<exists>p. field_to_descriptor uni pkg (ir_field_of up fd f) = Inr p
    \<and> fp_Number p = pf_number f \<and> fp_Type p = pf_kind f \<and> fp_Repeated p = pf_list f"
proof -
  have plain: "\<exists>p. repeated_field uni pkg (scalar_kind (pf_kind f)) g = Inr p
      \<and> fp_Number p = fd_Number g \<and> fp_Type p = pf_kind f \<and> \<not> fp_Repeated p" for g
    using scalar_kind_plain [of "pf_kind f"] kind_round_trip [OF assms]
    by (subst repeated_field.simps) (simp add: plain_field_def)
  show ?thesis
  proof (cases "pf_list f")
    case True
    have "trim_prefix (''repeated '' @ scalar_kind (pf_kind f)) ''repeated '' = scalar_kind (pf_kind f)"
      "has_prefix (''repeated '' @ scalar_kind (pf_kind f)) ''repeated ''"
      by (simp_all add: trim_prefix_def has_prefix_def)
    then show ?thesis using True plain [of "ir_field_of up fd f"]
      unfolding field_to_descriptor_def by (subst repeated_field.simps) (auto simp: ir_field_of_def)
  next
    case False
    then show ?thesis using plain [of "ir_field_of up fd f"] unfolding field_to_descriptor_def by (auto simp: ir_field_of_def)
  qed
qed

section \<open>The choice of a descriptor\<close>

definition linked_matches :: "(string \<Rightarrow> go_error + proto_file) \<Rightarrow> string \<Rightarrow> string list \<Rightarrow> proto_file list" where
  "linked_matches files name cs =
     List.map_filter (\<lambda>c. if path_base c = path_base name then (case files c of Inl e \<Rightarrow> None | Inr d \<Rightarrow> Some d) else None) cs"

lemma linked_matches_simps [simp]:
  "linked_matches files name [] = []"
  "linked_matches files name (c # cs) =
     (if path_base c \<noteq> path_base name then linked_matches files name cs
      else case files c of Inl e \<Rightarrow> linked_matches files name cs | Inr d \<Rightarrow> d # linked_matches files name cs)"
  by (auto simp: linked_matches_def List.map_filter_simps split: sum.splits)

text \<open>By base name a file is chosen only when it is the only one.\<close>

lemma match_base_found:
  "match_base files name (Some d) cs = Inr r \<longleftrightarrow> linked_matches files name cs = [] \<and> r = Some d"
  by (induction cs) (auto split: sum.splits)

lemma match_base_unique:
  "match_base files name None cs = Inr r \<longleftrightarrow>
     (case linked_matches files name cs of [] \<Rightarrow> r = None | [d] \<Rightarrow> r = Some d | _ \<Rightarrow> False)"
proof (induction cs)
  case (Cons c cs)
  show ?case
  proof (cases "path_base c = path_base name")
    case True
    then show ?thesis using Cons match_base_found [of files name _ cs r] by (auto split: sum.splits list.splits)
  qed (use Cons in simp)
qed auto

section \<open>Compile names\<close>

lemma compile_names_distinct:
  "compile_names absp paths claimed inputs = Inr names \<Longrightarrow>
    distinct names \<and> set names \<inter> fst ` set claimed = {} \<and> list_all2 (\<lambda>i n. compile_name absp paths i = Inr n) inputs names"
proof (induction inputs arbitrary: claimed names)
  case (Cons input inputs)
  from Cons.prems obtain name ns where n: "compile_name absp paths input = Inr name" "map_of claimed name = None"
      "compile_names absp paths ((name, input) # claimed) inputs = Inr ns" "names = name # ns"
    by (auto split: sum.splits option.splits)
  with Cons.IH [OF n(3)] show ?case by (auto simp: map_of_eq_None_iff)
qed simp

section \<open>Plugins\<close>

lemma capped_overflow: "cb_overflow c = Some e \<Longrightarrow> capped_writes c ps = c"
  unfolding capped_writes_def by (induction ps) (simp_all add: capped_write_def)

text \<open>The buffer holds what was written up to its limit; an overflow is recorded exactly when there was more.\<close>

lemma capped_exact:
  assumes "0 \<le> cb_limit c" "int (length (cb_buf c)) \<le> cb_limit c" "cb_overflow c = None"
  shows "cb_buf (capped_writes c ps) = take (nat (cb_limit c)) (cb_buf c @ concat ps)
    \<and> (cb_overflow (capped_writes c ps) = None \<longleftrightarrow> int (length (cb_buf c @ concat ps)) \<le> cb_limit c)"
  using assms
proof (induction ps arbitrary: c)
  case Nil
  then show ?case by (simp add: capped_writes_def)
next
  case (Cons p ps)
  let ?room = "cb_limit c - int (length (cb_buf c))"
  have step: "capped_writes c (p # ps) = capped_writes (fst (capped_write c p)) ps" by (simp add: capped_writes_def)
  show ?case
  proof (cases "int (length p) > ?room")
    case True
    let ?d = "fst (capped_write c p)"
    have d: "cb_buf ?d = cb_buf c @ take (nat ?room) p" "\<exists>e. cb_overflow ?d = Some e"
      using True Cons.prems by (auto simp: capped_write_def)
    have r: "nat ?room = nat (cb_limit c) - length (cb_buf c)" using Cons.prems by linarith
    have "capped_writes c (p # ps) = ?d" using d(2) capped_overflow step by metis
    moreover have "take (nat (cb_limit c)) (cb_buf c @ p @ concat ps) = cb_buf c @ take (nat ?room) p"
      using True Cons.prems r by simp
    ultimately show ?thesis using d True by auto
  next
    case False
    then have d: "fst (capped_write c p) = c\<lparr>cb_buf := cb_buf c @ p\<rparr>" using Cons.prems(3) by (simp add: capped_write_def)
    show ?thesis unfolding step d using Cons.IH [of "c\<lparr>cb_buf := cb_buf c @ p\<rparr>"] False Cons.prems by simp
  qed
qed

lemma plugin_validate_valid: "plugin_validate uni fs = Inr ns \<Longrightarrow> n \<in> set ns \<Longrightarrow> validate uni True n = None"
  by (induction fs arbitrary: ns) (auto simp: Let_def split: option.splits sum.splits)

text \<open>A plugin that succeeds wrote at most the limit, ended without an error, and each of its files is valid.\<close>

lemma plugin_files_valid:
  assumes "plugin_parse uni exec many one nilCtx command inputs = Inr files"
  shows "(let r = exec command ([''emit-ir'', ''--''] @ inputs) in
      gr_error r = None \<and> int (length (concat (gr_stdout r))) \<le> 67108864)
    \<and> list_all (\<lambda>f. validate uni True f = None) files"
proof -
  let ?r = "exec command (plugin_args inputs)"
  let ?c = "new_capped max_plugin_stdout ''stdout''"
  obtain raw where r: "cb_overflow (capped_writes ?c (gr_stdout ?r)) = None" "gr_error ?r = None"
      "plugin_validate uni raw = Inr files"
    using assms by (auto simp: plugin_parse_def Let_def split: if_splits option.splits sum.splits)
  then have "int (length (concat (gr_stdout ?r))) \<le> 67108864"
    using capped_exact [of ?c "gr_stdout ?r"] by (simp add: new_capped_def max_plugin_stdout_def)
  then show ?thesis using r(2) plugin_validate_valid [OF r(3)] by (simp add: plugin_args_def Let_def list_all_iff)
qed

end
