(* ===== verification/Resp_Wire.thy ===== *)
theory Resp_Wire
  imports Status
begin

text \<open>
  The RESP2 wire format of the example transport (src/example/resp/wire.go): values, their
  encoders, and the parser that either returns one value with the number of bytes it took, asks for
  more bytes, fails, or panics. Go panics on an index out of range and on a \<open>make\<close> whose capacity no
  allocation can have; both can be reached from here, so a panic is a result of its own. A
  \<open>make\<close> below that capacity is taken to succeed, and the stack to be deep enough for the nesting.
\<close>

section \<open>Values and encoders\<close>

datatype rvalue =
  RValue (v_type: char) (v_str: string) (v_int: int) (v_array: "rvalue list") (v_null: bool)

definition cr_c :: char where "cr_c = char_of (13 :: nat)"
definition lf_c :: char where "lf_c = char_of (10 :: nat)"
definition crlf :: bytes where "crlf = [cr_c, lf_c]"

definition encode_simple :: "string \<Rightarrow> bytes" where
  "encode_simple s = CHR ''+'' # s @ crlf"

definition encode_error :: "string \<Rightarrow> bytes" where
  "encode_error msg = CHR ''-'' # msg @ crlf"

definition encode_bulk :: "string \<Rightarrow> bytes" where
  "encode_bulk s = CHR ''$'' # itoa (int (length s)) @ crlf @ s @ crlf"

definition encode_bulk_null :: bytes where
  "encode_bulk_null = ''$-1'' @ crlf"

definition encode_array :: "string list \<Rightarrow> bytes" where
  "encode_array elems =
     CHR ''*'' # itoa (int (length elems)) @ crlf @ concat (map encode_bulk elems)"

definition encode_args :: "string list \<Rightarrow> bytes" where
  "encode_args args = encode_array args"

definition encode_subscribe_ack :: "string \<Rightarrow> int \<Rightarrow> bytes" where
  "encode_subscribe_ack channel n =
     ''*3'' @ crlf @ encode_bulk ''subscribe'' @ encode_bulk channel @ CHR '':'' # itoa n @ crlf"

definition encode_push_message :: "string \<Rightarrow> string \<Rightarrow> bytes" where
  "encode_push_message channel payload =
     ''*3'' @ crlf @ encode_bulk ''message'' @ encode_bulk channel @ encode_bulk payload"

fun marshal_value :: "rvalue \<Rightarrow> bytes" where
  "marshal_value (RValue t s i xs nul) =
     (if t = CHR ''+'' then encode_simple s
      else if t = CHR ''-'' then encode_error s
      else if t = CHR '':'' then CHR '':'' # itoa i @ crlf
      else if t = CHR ''$'' then if nul then encode_bulk_null else encode_bulk s
      else if t = CHR ''*'' then
        if nul then ''*-1'' @ crlf
        else CHR ''*'' # itoa (int (length xs)) @ crlf @ concat (map marshal_value xs)
      else encode_error ''unknown value type'')"

section \<open>The parser\<close>

datatype 'a parsed = Got 'a nat | NeedMore | Bad go_error | Panic

definition err_need_more :: go_error where "err_need_more = ErrVar ''resp: need more data''"

definition read_line :: "bytes \<Rightarrow> (bytes \<times> nat) option" where
  "read_line b = (case go_index b crlf of None \<Rightarrow> None | Some i \<Rightarrow> Some (take i b, i + 2))"

text \<open>
  The error of \<open>strconv.Atoi\<close> for a text it refuses: the digits are scanned from the left, and the
  first that is no digit or that leaves 64 bits decides between the two causes.
\<close>

fun uint_fault :: "nat \<Rightarrow> string \<Rightarrow> string" where
  "uint_fault acc [] = ''value out of range''"
| "uint_fault acc (c # cs) =
     (case digit_val 10 c of
        None \<Rightarrow> ''invalid syntax''
      | Some v \<Rightarrow>
          if 2 ^ 64 \<le> int (acc * 10 + v) then ''value out of range''
          else uint_fault (acc * 10 + v) cs)"

definition atoi_error :: "string \<Rightarrow> go_error" where
  "atoi_error s =
     (let body = (if s \<noteq> [] \<and> (hd s = CHR ''-'' \<or> hd s = CHR ''+'') then tl s else s);
          cause = (if body = [] then ''invalid syntax'' else uint_fault 0 body)
      in ErrWrap (''strconv.Atoi: parsing '' @ go_quote s @ '': '' @ cause) [ErrVar cause])"

definition wrapped :: "string \<Rightarrow> go_error \<Rightarrow> go_error" where
  "wrapped msg e = ErrWrap (msg @ err_text e) [e]"

text \<open>\<open>b[i]\<close>, None where Go panics.\<close>

definition go_at :: "bytes \<Rightarrow> int \<Rightarrow> char option" where
  "go_at b i = (if 0 \<le> i \<and> i < int (length b) then Some (b ! nat i) else None)"

text \<open>
  The largest capacity \<open>make([]Value, 0, n)\<close> accepts: 2^48 bytes of address space on a 64-bit
  machine, 64 bytes for one value.
\<close>

definition max_values :: int where "max_values = 2 ^ 48 div 64"

definition scalar :: "char \<Rightarrow> string \<Rightarrow> int \<Rightarrow> rvalue" where
  "scalar t s i = RValue t s i [] False"

definition null_value :: "char \<Rightarrow> rvalue" where
  "null_value t = RValue t [] 0 [] True"

definition parse_bulk :: "bytes \<Rightarrow> bytes \<Rightarrow> nat \<Rightarrow> rvalue parsed" where
  "parse_bulk b line n =
     (case parse_int (tl line) of
        None \<Rightarrow> Bad (wrapped ''resp: bad bulk length: '' (atoi_error (tl line)))
      | Some sz \<Rightarrow>
          if sz < 0 then Got (null_value (CHR ''$'')) n
          else if int (length b) < wrap64 (int n + sz + 2) then NeedMore
          else
            case go_at b (wrap64 (int n + sz)) of
              None \<Rightarrow> Panic
            | Some c \<Rightarrow>
                if c \<noteq> cr_c then Bad (ErrNew ''resp: bulk missing CRLF'')
                else
                  case go_at b (wrap64 (int n + sz + 1)) of
                    None \<Rightarrow> Panic
                  | Some d \<Rightarrow>
                      if d \<noteq> lf_c then Bad (ErrNew ''resp: bulk missing CRLF'')
                      else Got (scalar (CHR ''$'') (take (nat sz) (drop n b)) 0) (n + nat sz + 2))"

lemma read_line_pos: "read_line b = Some (l, n) \<Longrightarrow> 2 \<le> n"
  by (auto simp: read_line_def split: option.splits)

function parse_value :: "bytes \<Rightarrow> rvalue parsed"
  and parse_elems :: "nat \<Rightarrow> bytes \<Rightarrow> rvalue list parsed" where
  "parse_value [] = NeedMore"
| "parse_value (t # r) =
     (if t = CHR ''+'' \<or> t = CHR ''-'' \<or> t = CHR '':'' then
        case read_line (t # r) of
          None \<Rightarrow> NeedMore
        | Some (line, n) \<Rightarrow>
            if t = CHR '':'' then
              case parse_int (tl line) of
                None \<Rightarrow> Bad (ErrNew (''resp: bad integer '' @ go_quote (tl line)))
              | Some i \<Rightarrow> Got (scalar t [] i) n
            else Got (scalar t (tl line) 0) n
      else if t = CHR ''$'' then
        case read_line (t # r) of
          None \<Rightarrow> NeedMore
        | Some (line, n) \<Rightarrow> parse_bulk (t # r) line n
      else if t = CHR ''*'' then
        case read_line (t # r) of
          None \<Rightarrow> NeedMore
        | Some (line, n) \<Rightarrow>
            case parse_int (tl line) of
              None \<Rightarrow> Bad (wrapped ''resp: bad array length: '' (atoi_error (tl line)))
            | Some count \<Rightarrow>
                if count < 0 then Got (null_value t) n
                else if max_values < count then Panic
                else
                  case parse_elems (nat count) (drop n (t # r)) of
                    Got elems m \<Rightarrow> Got (RValue t [] 0 elems False) (n + m)
                  | NeedMore \<Rightarrow> NeedMore
                  | Bad e \<Rightarrow> Bad e
                  | Panic \<Rightarrow> Panic
      else Bad (ErrNew (''resp: unknown type byte '' @ go_quote [t])))"
| "parse_elems 0 b = Got [] 0"
| "parse_elems (Suc k) b =
     (case parse_value b of
        Got el m \<Rightarrow>
          (case parse_elems k (drop m b) of
             Got els n \<Rightarrow> Got (el # els) (m + n)
           | NeedMore \<Rightarrow> NeedMore
           | Bad e \<Rightarrow> Bad e
           | Panic \<Rightarrow> Panic)
      | NeedMore \<Rightarrow> NeedMore
      | Bad e \<Rightarrow> Bad e
      | Panic \<Rightarrow> Panic)"
  by pat_completeness auto

termination
proof (relation "inv_image (less_than <*lex*> less_than)
    (case_sum (\<lambda>b. (length b, 0)) (\<lambda>(k, b). (length b, Suc k)))", goal_cases)
  case 1
  show ?case by (simp add: wf_lex_prod)
next
  case 2
  then show ?case using read_line_pos by fastforce
next
  case 3
  then show ?case by simp
next
  case 4
  then show ?case by (simp add: less_le)
qed

section \<open>Arguments and commands\<close>

text \<open>None is a panic of the parser.\<close>

fun bulk_args :: "nat \<Rightarrow> rvalue list \<Rightarrow> go_error + string list" where
  "bulk_args i [] = Inr []"
| "bulk_args i (el # els) =
     (if v_type el \<noteq> CHR ''$'' \<or> v_null el then
        Inl (ErrNew (''resp: arg '' @ nat_str i @ '' must be a bulk string''))
      else case bulk_args (Suc i) els of Inl e \<Rightarrow> Inl e | Inr ss \<Rightarrow> Inr (v_str el # ss))"

definition decode_args :: "bytes \<Rightarrow> (go_error + string list) option" where
  "decode_args b =
     (case parse_value b of
        Panic \<Rightarrow> None
      | NeedMore \<Rightarrow> Some (Inl err_need_more)
      | Bad e \<Rightarrow> Some (Inl e)
      | Got v n \<Rightarrow>
          if n \<noteq> length b then Some (Inl (ErrNew ''resp: trailing bytes after args array''))
          else if v_type v \<noteq> CHR ''*'' \<or> v_null v then
            Some (Inl (ErrNew ''resp: args must be a RESP array''))
          else Some (bulk_args 0 (v_array v)))"

fun command_args :: "rvalue list \<Rightarrow> go_error + string list" where
  "command_args [] = Inr []"
| "command_args (el # els) =
     (if v_type el \<noteq> CHR ''$'' \<or> v_null el then
        Inl (ErrNew ''resp: command arg must be a bulk string'')
      else case command_args els of Inl e \<Rightarrow> Inl e | Inr ss \<Rightarrow> Inr (v_str el # ss))"

definition command_from_value :: "rvalue \<Rightarrow> go_error + (string \<times> string list)" where
  "command_from_value v =
     (if v_type v \<noteq> CHR ''*'' \<or> v_null v then
        Inl (ErrNew ''resp: command must be a non-empty array'')
      else case v_array v of
        [] \<Rightarrow> Inl (ErrNew ''resp: command must be a non-empty array'')
      | c # els \<Rightarrow>
          if v_type c \<noteq> CHR ''$'' \<or> v_null c then
            Inl (ErrNew ''resp: command name must be a bulk string'')
          else case command_args els of Inl e \<Rightarrow> Inl e | Inr args \<Rightarrow> Inr (v_str c, args))"

end
