(* ===== verification/Resp_Wire_Props.thy ===== *)
theory Resp_Wire_Props
  imports Resp_Wire
begin

text \<open>
  What the RESP parser guarantees a reader that fills its buffer piecewise: an encoded value is read
  back whatever follows it, a proper prefix of it asks for more, and a decision once taken (a value
  or an error) does not change when more bytes arrive.
\<close>

section \<open>Lines\<close>

definition no_crlf :: "string \<Rightarrow> bool" where
  "no_crlf w \<longleftrightarrow> go_index w crlf = None"

lemma crlf_chars: "cr_c \<noteq> lf_c"
  by (simp add: cr_c_def lf_c_def)

lemma cr_differs [simp]:
  "CHR ''-'' \<noteq> cr_c" "CHR ''+'' \<noteq> cr_c" "CHR '':'' \<noteq> cr_c" "CHR ''$'' \<noteq> cr_c" "CHR ''*'' \<noteq> cr_c"
  by (simp_all add: cr_c_def char_of_def)

lemma no_crlf_Nil [simp]: "no_crlf []"
  by (simp add: no_crlf_def crlf_def)

lemma no_crlf_Cons: "no_crlf (x # w) \<longleftrightarrow> \<not> (x = cr_c \<and> w \<noteq> [] \<and> hd w = lf_c) \<and> no_crlf w"
  by (cases w) (auto simp: no_crlf_def crlf_def has_prefix_def)

lemma go_index_line: "no_crlf w \<Longrightarrow> go_index (w @ crlf @ r) crlf = Some (length w)"
proof (induction w)
  case Nil
  show ?case by (simp add: crlf_def has_prefix_def)
next
  case (Cons x w)
  then have w: "no_crlf w" and x: "x = cr_c \<Longrightarrow> w \<noteq> [] \<Longrightarrow> hd w \<noteq> lf_c"
    by (simp_all add: no_crlf_Cons)
  have "\<not> has_prefix (x # w @ crlf @ r) crlf"
    using x crlf_chars by (cases w) (auto simp: crlf_def has_prefix_def)
  with Cons.IH [OF w] show ?case by simp
qed

lemma read_line_line: "no_crlf w \<Longrightarrow> read_line (w @ crlf @ r) = Some (w, length w + 2)"
  by (simp add: read_line_def go_index_line)

lemma go_index_split: "go_index b crlf = Some i \<Longrightarrow> \<exists>r. b = take i b @ crlf @ r \<and> no_crlf (take i b) \<and> i \<le> length b"
proof (induction b arbitrary: i)
  case Nil
  then show ?case by (simp add: crlf_def)
next
  case (Cons x b)
  show ?case
  proof (cases "has_prefix (x # b) crlf")
    case True
    with Cons.prems show ?thesis by (auto simp: has_prefix_iff)
  next
    case False
    with Cons.prems obtain j where j: "go_index b crlf = Some j" "i = Suc j" by auto
    from Cons.IH [OF j(1)] obtain r where r: "b = take j b @ crlf @ r" "no_crlf (take j b)" "j \<le> length b" by blast
    have "\<not> (x = cr_c \<and> take j b \<noteq> [] \<and> hd (take j b) = lf_c)"
      using False by (cases b; cases j) (auto simp: crlf_def has_prefix_def)
    with r j(2) show ?thesis by (auto simp: no_crlf_Cons)
  qed
qed

lemma read_line_split:
  assumes "read_line b = Some (l, n)"
  shows "\<exists>r. b = l @ crlf @ r \<and> no_crlf l \<and> n = length l + 2"
proof -
  from assms obtain i where i: "go_index b crlf = Some i" "l = take i b" "n = i + 2"
    by (auto simp: read_line_def split: option.splits)
  from go_index_split [OF i(1)] i show ?thesis by auto
qed

lemma read_line_more: "read_line b = Some (l, n) \<Longrightarrow> read_line (b @ c) = Some (l, n)"
  by (drule read_line_split) (auto simp: read_line_line)

lemma length_crlf [simp]: "length crlf = 2"
  by (simp add: crlf_def)

lemma read_line_len: "read_line b = Some (l, n) \<Longrightarrow> n \<le> length b"
  by (drule read_line_split) auto

lemma nat_str_no_crlf: "no_crlf (nat_str n)"
proof -
  have "cr_c \<notin> set w \<Longrightarrow> no_crlf w" for w by (induction w) (auto simp: no_crlf_Cons)
  moreover have "cr_c \<notin> set (nat_str n)"
    using nat_str_digits [of cr_c n] by (auto simp: is_digit_def cr_c_def byte_def)
  ultimately show ?thesis by blast
qed

lemma no_crlf_head: "x \<noteq> cr_c \<Longrightarrow> no_crlf (x # w) = no_crlf w"
  by (auto simp: no_crlf_Cons)

lemma itoa_no_crlf: "no_crlf (itoa i)"
  by (simp add: itoa_def nat_str_no_crlf no_crlf_head)

lemma read_number_line:
  "t \<noteq> cr_c \<Longrightarrow> read_line (t # itoa i @ crlf @ r) = Some (t # itoa i, length (itoa i) + 3)"
  using read_line_line [of "t # itoa i" r] by (simp add: no_crlf_head itoa_no_crlf)

section \<open>A decision stands\<close>

text \<open>A buffer is shorter than 2^62 bytes, so a sum of two positions does not leave 64 bits.\<close>

definition in_memory :: "bytes \<Rightarrow> bool" where
  "in_memory b \<longleftrightarrow> int (length b) < 2 ^ 62"

lemma go_at_append: "go_at b i = Some c \<Longrightarrow> go_at (b @ r) i = Some c"
  by (auto simp: go_at_def nth_append nat_less_iff split: if_splits)

lemma go_at_beyond: "int (length b) \<le> i \<Longrightarrow> go_at b i = None"
  by (simp add: go_at_def)

lemma wrap64_over:
  assumes "2 ^ 63 \<le> i" "i < 2 ^ 64"
  shows "wrap64 i = i - 2 ^ 64"
proof -
  have "i + 2 ^ 63 = (i - 2 ^ 63) + 2 ^ 64" by simp
  then have "(i + 2 ^ 63) mod 2 ^ 64 = (i - 2 ^ 63) mod 2 ^ 64" by (metis mod_add_self2)
  with assms show ?thesis by (simp add: wrap64_def)
qed

lemma bulk_end_in:
  "0 \<le> sz \<Longrightarrow> int n + sz + 2 < 2 ^ 63 \<Longrightarrow>
    wrap64 (int n + sz + 2) = int n + sz + 2 \<and> wrap64 (int n + sz + 1) = int n + sz + 1
    \<and> wrap64 (int n + sz) = int n + sz"
  by (simp add: wrap64_id in_int64_def)

lemma bulk_end_out:
  assumes "in_int64 sz" "0 \<le> sz" "in_memory b" "n \<le> length b" "\<not> int n + sz + 2 < 2 ^ 63"
  shows "wrap64 (int n + sz + 2) < 0 \<and> go_at b (wrap64 (int n + sz)) = None"
proof -
  have n: "int n < 2 ^ 62" using assms(3,4) by (simp add: in_memory_def)
  with assms(1,2,5) have "wrap64 (int n + sz + 2) < 0"
    by (simp add: wrap64_over in_int64_def)
  moreover have "wrap64 (int n + sz) < 0 \<or> int (length b) \<le> wrap64 (int n + sz)"
  proof (cases "int n + sz < 2 ^ 63")
    case True
    with assms show ?thesis by (simp add: wrap64_id in_int64_def in_memory_def)
  next
    case False
    with assms(1,2) n show ?thesis by (simp add: wrap64_over in_int64_def)
  qed
  ultimately show ?thesis by (auto simp: go_at_def)
qed

lemma parse_int_range: "parse_int s = Some i \<Longrightarrow> in_int64 i"
  by (auto simp: parse_int_def Let_def in_int64_def split: option.splits if_splits)

lemma parse_bulk_more:
  assumes "parse_bulk b l n \<noteq> NeedMore" "n \<le> length b" "in_memory (b @ r)"
  shows "parse_bulk (b @ r) l n = parse_bulk b l n"
proof (cases "parse_int (tl l)")
  case None
  then show ?thesis by (simp add: parse_bulk_def)
next
  case (Some sz)
  note range = parse_int_range [OF Some]
  consider "sz < 0" | "0 \<le> sz" "\<not> int n + sz + 2 < 2 ^ 63" | "0 \<le> sz" "int n + sz + 2 < 2 ^ 63" by linarith
  then show ?thesis
  proof cases
    case 1
    with Some show ?thesis by (simp add: parse_bulk_def)
  next
    case 2
    have "in_memory b" "n \<le> length (b @ r)" using assms(2,3) by (simp_all add: in_memory_def)
    with 2 range assms(2,3) bulk_end_out [of sz b n] bulk_end_out [of sz "b @ r" n] Some
    show ?thesis by (simp add: parse_bulk_def)
  next
    case 3
    note w = bulk_end_in [OF 3]
    from assms(1) Some 3(1) w have len: "int n + sz + 2 \<le> int (length b)"
      by (auto simp: parse_bulk_def split: if_splits)
    have at: "go_at (b @ r) (int n + sz) = go_at b (int n + sz)"
      "go_at (b @ r) (int n + sz + 1) = go_at b (int n + sz + 1)"
      using len 3(1) by (auto simp: go_at_def nth_append nat_less_iff)
    have tk: "take (nat sz) (drop n (b @ r)) = take (nat sz) (drop n b)" using len 3(1) by simp
    show ?thesis using Some 3(1) len
      by (simp add: parse_bulk_def w at tk del: take_append drop_append split: option.split)
  qed
qed

lemma in_memory_drop [simp]: "in_memory b \<Longrightarrow> in_memory (drop n b)"
  by (simp add: in_memory_def)

lemma in_memory_part: "in_memory (b @ r) \<Longrightarrow> in_memory b"
  by (simp add: in_memory_def)

lemma parse_bulk_len:
  assumes "parse_bulk b l m = Got v n" "m \<le> length b" "in_memory b"
  shows "m \<le> n \<and> n \<le> length b"
proof (cases "parse_int (tl l)")
  case None
  with assms(1) show ?thesis by (simp add: parse_bulk_def)
next
  case (Some sz)
  note range = parse_int_range [OF Some]
  consider "sz < 0" | "0 \<le> sz" "\<not> int m + sz + 2 < 2 ^ 63" | "0 \<le> sz" "int m + sz + 2 < 2 ^ 63" by linarith
  then show ?thesis
  proof cases
    case 1
    with Some assms(1,2) show ?thesis by (simp add: parse_bulk_def)
  next
    case 2
    with range assms Some bulk_end_out [of sz b m] show ?thesis by (simp add: parse_bulk_def)
  next
    case 3
    with bulk_end_in [OF 3] assms(1) Some show ?thesis
      by (auto simp: parse_bulk_def split: if_splits option.splits)
  qed
qed

text \<open>
  The shapes of a call of the parser: an array header that leads to the elements, or an outcome
  decided by the first line and the bytes of a bulk string.
\<close>

lemma parse_star:
  "read_line (CHR ''*'' # r) = Some (l, n) \<Longrightarrow> parse_int (tl l) = Some count \<Longrightarrow>
    0 \<le> count \<Longrightarrow> count \<le> max_values \<Longrightarrow>
    parse_value (CHR ''*'' # r) =
      (case parse_elems (nat count) (drop n (CHR ''*'' # r)) of
         Got elems m \<Rightarrow> Got (RValue (CHR ''*'') [] 0 elems False) (n + m)
       | NeedMore \<Rightarrow> NeedMore | Bad e \<Rightarrow> Bad e | Panic \<Rightarrow> Panic)"
  by simp

definition parse_head :: "bytes \<Rightarrow> rvalue parsed" where
  "parse_head b =
     (case b of
        [] \<Rightarrow> NeedMore
      | t # _ \<Rightarrow>
        if t \<notin> {CHR ''+'', CHR ''-'', CHR '':'', CHR ''$'', CHR ''*''} then
          Bad (ErrNew (''resp: unknown type byte '' @ go_quote [t]))
        else case read_line b of
          None \<Rightarrow> NeedMore
        | Some (line, n) \<Rightarrow>
            if t = CHR '':'' then
              (case parse_int (tl line) of
                 None \<Rightarrow> Bad (ErrNew (''resp: bad integer '' @ go_quote (tl line)))
               | Some i \<Rightarrow> Got (scalar t [] i) n)
            else if t = CHR ''$'' then parse_bulk b line n
            else if t = CHR ''*'' then
              (case parse_int (tl line) of
                 None \<Rightarrow> Bad (wrapped ''resp: bad array length: '' (atoi_error (tl line)))
               | Some count \<Rightarrow> if count < 0 then Got (null_value t) n else Panic)
            else Got (scalar t (tl line) 0) n)"

lemma parse_cases [case_names star head]:
  fixes t r
  obtains l n count where "t = CHR ''*''" "read_line (t # r) = Some (l, n)"
      "parse_int (tl l) = Some count" "0 \<le> count" "count \<le> max_values"
  | "parse_value (t # r) = parse_head (t # r)"
     "\<And>l n count. t = CHR ''*'' \<Longrightarrow> read_line (t # r) = Some (l, n) \<Longrightarrow>
        parse_int (tl l) = Some count \<Longrightarrow> 0 \<le> count \<Longrightarrow> max_values < count"
proof (cases "\<exists>l n count. t = CHR ''*'' \<and> read_line (t # r) = Some (l, n) \<and>
    parse_int (tl l) = Some count \<and> 0 \<le> count \<and> count \<le> max_values")
  case True
  with that(1) show ?thesis by blast
next
  case False
  have "parse_value (t # r) = parse_head (t # r)"
  proof (cases "read_line (t # r)")
    case None
    then show ?thesis by (auto simp: parse_head_def)
  next
    case (Some p)
    then obtain l n where p: "read_line (t # r) = Some (l, n)" by (cases p) auto
    show ?thesis
    proof (cases "parse_int (tl l)")
      case None
      with p show ?thesis by (auto simp: parse_head_def)
    next
      case (Some count)
      with p False have "t = CHR ''*'' \<Longrightarrow> \<not> count < 0 \<Longrightarrow> max_values < count" by auto
      with p Some show ?thesis by (auto simp: parse_head_def)
    qed
  qed
  with False that(2) show ?thesis by (meson not_le)
qed

lemma parse_head_len:
  assumes "parse_head b = Got v n" "in_memory b"
  shows "0 < n \<and> n \<le> length b"
proof (cases "read_line b")
  case None
  with assms(1) show ?thesis by (auto simp: parse_head_def split: list.splits if_splits)
next
  case (Some p)
  then obtain l k where p: "read_line b = Some (l, k)" by (cases p) auto
  have "k \<le> n \<and> n \<le> length b"
    using assms p read_line_len [OF p] parse_bulk_len [of b l k v n]
    by (auto simp: parse_head_def split: list.splits if_splits option.splits)
  with read_line_pos [OF p] show ?thesis by linarith
qed

lemma parse_head_more:
  assumes "parse_head b \<noteq> NeedMore" "in_memory (b @ c)"
  shows "parse_head (b @ c) = parse_head b"
proof (cases b)
  case Nil
  with assms(1) show ?thesis by (simp add: parse_head_def)
next
  case (Cons t r)
  show ?thesis
  proof (cases "read_line b")
    case None
    with assms(1) Cons show ?thesis by (auto simp: parse_head_def split: if_splits)
  next
    case (Some p)
    then obtain l n where p: "read_line b = Some (l, n)" by (cases p) auto
    have "parse_bulk b l n \<noteq> NeedMore \<Longrightarrow> parse_bulk (b @ c) l n = parse_bulk b l n"
      by (rule parse_bulk_more [OF _ read_line_len [OF p] assms(2)])
    with assms(1) p read_line_more [OF p, of c] Cons show ?thesis
      by (auto simp: parse_head_def split: if_splits)
  qed
qed

lemma parse_len_more:
  "in_memory b \<Longrightarrow>
    (\<forall>v n. parse_value b = Got v n \<longrightarrow> 0 < n \<and> n \<le> length b)
    \<and> (\<forall>c. parse_value b \<noteq> NeedMore \<longrightarrow> in_memory (b @ c) \<longrightarrow> parse_value (b @ c) = parse_value b)"
  "in_memory b \<Longrightarrow>
    (\<forall>vs n. parse_elems k b = Got vs n \<longrightarrow> n \<le> length b \<and> length vs = k)
    \<and> (\<forall>c. parse_elems k b \<noteq> NeedMore \<longrightarrow> in_memory (b @ c) \<longrightarrow> parse_elems k (b @ c) = parse_elems k b)"
proof (induction b and k b rule: parse_value_parse_elems.induct)
  case (2 t r)
  show ?case
  proof (cases t r rule: parse_cases)
    case (star l n count)
    let ?d = "drop n (t # r)"
    have n: "2 \<le> n" "n \<le> length (t # r)"
      using read_line_pos [OF star(2)] read_line_len [OF star(2)] by auto
    have IH: "(\<forall>vs n. parse_elems (nat count) ?d = Got vs n \<longrightarrow> n \<le> length ?d \<and> length vs = nat count)
      \<and> (\<forall>c. parse_elems (nat count) ?d \<noteq> NeedMore \<longrightarrow> in_memory (?d @ c) \<longrightarrow>
             parse_elems (nat count) (?d @ c) = parse_elems (nat count) ?d)"
      by (rule 2(1) [OF _ _ _ star(2) refl star(3)]) (use star 2(2) in auto)
    have rl: "read_line (CHR ''*'' # r @ c) = Some (l, n)" for c
      using read_line_more [OF star(2), of c] star(1) by simp
    have d: "drop n (CHR ''*'' # r @ c) = drop n (CHR ''*'' # r) @ c" for c
      using n(2) by (cases n) auto
    have m: "in_memory (?d @ c)" if "in_memory ((t # r) @ c)" for c
      using that n by (simp add: in_memory_def)
    note eq = parse_star [OF star(2) [unfolded star(1)] star(3-5)]
    note eq' = parse_star [OF rl star(3-5), unfolded d]
    show ?thesis
    proof (cases "parse_elems (nat count) ?d")
      case (Got els k)
      with IH m n show ?thesis using star(1) eq eq' by (auto simp: le_diff_conv2)
    qed (use IH m star(1) eq eq' in auto)
  next
    case head
    have h: "parse_value (t # r @ c) = parse_head (t # r @ c)" if "parse_head (t # r) \<noteq> NeedMore" for c
    proof (cases t "r @ c" rule: parse_cases)
      case (star l n count)
      from that star(1) obtain l' n' where "read_line (t # r) = Some (l', n')"
        by (auto simp: parse_head_def split: option.splits)
      with read_line_more [OF this, of c] star head(2) show ?thesis by fastforce
    next
      case head
      then show ?thesis by simp
    qed
    show ?thesis
      using head(1) h parse_head_len [OF _ 2(2)] parse_head_more [of "t # r"] by simp
  qed
next
  case (4 k b)
  show ?case
  proof (cases "parse_value b")
    case (Got v m)
    have m: "m \<le> length b" using 4(1) [OF 4(3)] Got by simp
    note IH = 4(2) [OF Got in_memory_drop [OF 4(3)]]
    have c: "drop m (b @ c) = drop m b @ c" for c using m by simp
    have mem: "in_memory (drop m b @ c)" if "in_memory (b @ c)" for c
      using that m by (simp add: in_memory_def)
    have v: "parse_value (b @ c) = Got v m" if "in_memory (b @ c)" for c
      using 4(1) [OF 4(3)] Got that by simp
    show ?thesis
    proof (cases "parse_elems k (drop m b)")
      case (Got els j)
      with IH m mem c v show ?thesis using \<open>parse_value b = Got v m\<close> by (auto simp del: drop_append)
    qed (use IH mem c v \<open>parse_value b = Got v m\<close> in \<open>auto simp del: drop_append\<close>)
  qed (use 4(1) [OF 4(3)] in auto)
qed (auto simp: in_memory_def)

section \<open>Round trips\<close>

fun wf_value :: "rvalue \<Rightarrow> bool" where
  "wf_value (RValue t s i xs nul) =
     (if t = CHR ''+'' \<or> t = CHR ''-'' then no_crlf s \<and> i = 0 \<and> xs = [] \<and> \<not> nul
      else if t = CHR '':'' then s = [] \<and> in_int64 i \<and> xs = [] \<and> \<not> nul
      else if t = CHR ''$'' then i = 0 \<and> xs = [] \<and> (nul \<longrightarrow> s = []) \<and> int (length s) < 2 ^ 62
      else t = CHR ''*'' \<and> s = [] \<and> i = 0 \<and> (nul \<longrightarrow> xs = [])
           \<and> int (length xs) \<le> max_values \<and> list_all wf_value xs)"

lemma itoa_len: "0 \<le> i \<Longrightarrow> i < 2 ^ 62 \<Longrightarrow> length (itoa i) \<le> 19"
  using nat_str_len [of "nat i" 19] by (simp add: itoa_def nat_less_iff)

lemma go_at_here: "i = int (length xs) \<Longrightarrow> go_at (xs @ c # ys) i = Some c"
  by (simp add: go_at_def)

lemma parse_minus_one: "parse_int ''-1'' = Some (-1)"
  by code_simp

lemma parse_line:
  "t = CHR ''+'' \<or> t = CHR ''-'' \<Longrightarrow> no_crlf s \<Longrightarrow>
    parse_value (t # s @ crlf @ r) = Got (scalar t s 0) (length s + 3)"
  using read_line_line [of "t # s" r] by (auto simp: no_crlf_head)

lemma parse_number:
  "in_int64 i \<Longrightarrow> parse_value (CHR '':'' # itoa i @ crlf @ r) = Got (scalar (CHR '':'') [] i) (length (itoa i) + 3)"
  by (simp add: read_number_line parse_int_itoa)

lemma parse_null:
  "parse_value (CHR ''$'' # ''-1'' @ crlf @ r) = Got (null_value (CHR ''$'')) 5"
  "parse_value (CHR ''*'' # ''-1'' @ crlf @ r) = Got (null_value (CHR ''*'')) 5"
proof -
  have "no_crlf ''-1''" by code_simp
  then have "read_line (t # ''-1'' @ crlf @ r) = Some (t # ''-1'', 5)" if "t \<noteq> cr_c" for t
    using read_line_line [of "t # ''-1''" r] that by (simp add: no_crlf_head)
  then show "parse_value (CHR ''$'' # ''-1'' @ crlf @ r) = Got (null_value (CHR ''$'')) 5"
    "parse_value (CHR ''*'' # ''-1'' @ crlf @ r) = Got (null_value (CHR ''*'')) 5"
    by (simp_all add: parse_bulk_def parse_minus_one)
qed

lemma parse_bulk_body:
  assumes "parse_int (tl l) = Some (int (length s))" "int (length h) + int (length s) + 2 < 2 ^ 63"
  shows "parse_bulk (h @ s @ crlf @ r) l (length h) = Got (scalar (CHR ''$'') s 0) (length h + length s + 2)"
proof -
  have "go_at (h @ s @ crlf @ r) (int (length h) + int (length s)) = Some cr_c"
    "go_at (h @ s @ crlf @ r) (int (length h) + int (length s) + 1) = Some lf_c"
    using go_at_here [of _ "h @ s" cr_c "lf_c # r"] go_at_here [of _ "h @ s @ [cr_c]" lf_c r]
    by (simp_all add: crlf_def add.commute add.left_commute)
  with assms bulk_end_in [of "int (length s)" "length h"] show ?thesis by (simp add: parse_bulk_def)
qed

lemma parse_encode_bulk:
  assumes "int (length s) < 2 ^ 62"
  shows "parse_value (encode_bulk s @ r) = Got (scalar (CHR ''$'') s 0) (length (encode_bulk s))"
proof -
  let ?n = "int (length s)"
  let ?h = "CHR ''$'' # itoa ?n @ crlf"
  have "length (itoa ?n) \<le> 19" by (rule itoa_len) (use assms in auto)
  moreover have "parse_int (itoa ?n) = Some ?n" using assms by (simp add: parse_int_itoa in_int64_def)
  ultimately have "parse_bulk (?h @ s @ crlf @ r) (CHR ''$'' # itoa ?n) (length ?h)
      = Got (scalar (CHR ''$'') s 0) (length ?h + length s + 2)"
    using assms by (intro parse_bulk_body) auto
  moreover have "read_line (?h @ s @ crlf @ r) = Some (CHR ''$'' # itoa ?n, length ?h)"
    using read_number_line [of "CHR ''$''" ?n "s @ crlf @ r"] by simp
  ultimately show ?thesis by (simp add: encode_bulk_def)
qed

lemma parse_elems_marshal:
  assumes "\<And>x r. x \<in> set xs \<Longrightarrow> parse_value (marshal_value x @ r) = Got x (length (marshal_value x))"
  shows "parse_elems (length xs) (concat (map marshal_value xs) @ r)
       = Got xs (length (concat (map marshal_value xs)))"
  using assms by (induction xs) simp_all

lemma wf_type:
  "wf_value (RValue t s i xs nul) \<Longrightarrow>
    t = CHR ''+'' \<or> t = CHR ''-'' \<or> t = CHR '':'' \<or> t = CHR ''$'' \<or> t = CHR ''*''"
  by (simp split: if_split_asm) blast+

lemma parse_marshal: "wf_value v \<Longrightarrow> parse_value (marshal_value v @ r) = Got v (length (marshal_value v))"
proof (induction v arbitrary: r)
  case (RValue t s i xs nul)
  consider "t = CHR ''+'' \<or> t = CHR ''-''" | "t = CHR '':''" | "t = CHR ''$''" | "t = CHR ''*''" nul
    | "t = CHR ''*''" "\<not> nul"
    using wf_type [OF RValue.prems] by blast
  then show ?case
  proof cases
    case 1
    with RValue.prems parse_line [OF 1, of s r] show ?thesis
      by (auto simp: encode_simple_def encode_error_def scalar_def simp del: parse_value.simps)
  next
    case 2
    with RValue.prems parse_number [of i r] show ?thesis by (simp add: scalar_def del: parse_value.simps)
  next
    case 3
    with RValue.prems parse_encode_bulk [of s r] parse_null(1) [of r] show ?thesis
      by (auto simp: scalar_def null_value_def encode_bulk_null_def simp del: parse_value.simps)
  next
    case 4
    with RValue.prems parse_null(2) [of r] show ?thesis by (simp add: null_value_def del: parse_value.simps)
  next
    case 5
    let ?c = "concat (map marshal_value xs)"
    have len: "int (length xs) \<le> max_values" "list_all wf_value xs" "s = []" "i = 0"
      using RValue.prems 5 by auto
    have "parse_int (itoa (int (length xs))) = Some (int (length xs))"
      using len(1) by (simp add: parse_int_itoa in_int64_def max_values_def)
    moreover have "drop (length (itoa (int (length xs))) + 3)
        (CHR ''*'' # itoa (int (length xs)) @ crlf @ ?c @ r) = ?c @ r"
      using drop_append_length [of "CHR ''*'' # itoa (int (length xs)) @ crlf" "?c @ r"]
      by (simp add: numeral_3_eq_3 del: drop_append_length drop_append)
    moreover have "parse_elems (length xs) (?c @ r) = Got xs (length ?c)"
      using RValue.IH len(2) by (intro parse_elems_marshal) (auto simp: list_all_iff)
    ultimately show ?thesis
      using 5 len parse_star [OF read_number_line [of "CHR ''*''" "int (length xs)" "?c @ r"]]
      by (simp del: parse_value.simps)
  qed
qed

definition dec_value :: "bytes \<Rightarrow> (rvalue \<times> bytes) option" where
  "dec_value b = (case parse_value b of Got v n \<Rightarrow> Some (v, drop n b) | _ \<Rightarrow> None)"

interpretation resp_value: wire_format marshal_value dec_value wf_value
  by unfold_locales (simp add: dec_value_def parse_marshal)

lemma encode_array_value:
  "encode_array ws = marshal_value (RValue (CHR ''*'') [] 0 (map (\<lambda>w. scalar (CHR ''$'') w 0) ws) False)"
  by (simp add: encode_array_def scalar_def comp_def)

definition args_ok :: "string list \<Rightarrow> bool" where
  "args_ok ws \<longleftrightarrow> int (length ws) \<le> max_values \<and> list_all (\<lambda>w. int (length w) < 2 ^ 62) ws"

lemma args_wf: "args_ok ws \<Longrightarrow> wf_value (RValue (CHR ''*'') [] 0 (map (\<lambda>w. scalar (CHR ''$'') w 0) ws) False)"
  by (simp add: args_ok_def scalar_def list_all_iff)

lemma parse_encode_array:
  "args_ok ws \<Longrightarrow> parse_value (encode_array ws @ r)
     = Got (RValue (CHR ''*'') [] 0 (map (\<lambda>w. scalar (CHR ''$'') w 0) ws) False) (length (encode_array ws))"
  unfolding encode_array_value by (rule parse_marshal [OF args_wf])

lemma bulk_args_scalars: "bulk_args i (map (\<lambda>w. scalar (CHR ''$'') w 0) ws) = Inr ws"
  by (induction ws arbitrary: i) (simp_all add: scalar_def)

lemma command_args_scalars: "command_args (map (\<lambda>w. scalar (CHR ''$'') w 0) ws) = Inr ws"
  by (induction ws) (simp_all add: scalar_def)

lemma decode_encode_args: "args_ok ws \<Longrightarrow> decode_args (encode_args ws) = Some (Inr ws)"
  using parse_encode_array [of ws "[]"] by (simp add: decode_args_def encode_args_def bulk_args_scalars)

lemma command_of_array:
  "command_from_value (RValue (CHR ''*'') [] 0 (map (\<lambda>w. scalar (CHR ''$'') w 0) (c # ws)) False) = Inr (c, ws)"
  by (simp add: command_from_value_def command_args_scalars) (simp add: scalar_def)

section \<open>Reading in pieces\<close>

lemma prefix_cut: "buf @ net = m @ rest \<Longrightarrow> length m \<le> length buf \<Longrightarrow> \<exists>w. buf = m @ w"
  by (metis append_eq_append_conv_if append_take_drop_id)

lemma next_value:
  assumes "wf_value v" "in_memory (marshal_value v)" "buf @ net = marshal_value v @ rest"
  shows "parse_value buf =
    (if length buf < length (marshal_value v) then NeedMore else Got v (length (marshal_value v)))"
proof (cases "length buf < length (marshal_value v)")
  case True
  then obtain w where w: "marshal_value v = buf @ w" "w \<noteq> []"
    using assms(3) by (auto simp: append_eq_append_conv2) (metis append_Nil2 less_irrefl)
  have m: "in_memory buf" "in_memory (buf @ w)" using assms(2) w by (simp_all add: in_memory_def)
  have "parse_value (buf @ w) = Got v (length (marshal_value v))"
    using parse_marshal [OF assms(1), of "[]"] w(1) by simp
  with parse_len_more(1) [OF m(1)] m(2) True have "parse_value buf = NeedMore" by fastforce
  with True show ?thesis by simp
next
  case False
  with prefix_cut [OF assms(3)] obtain w where "buf = marshal_value v @ w" by auto
  with False show ?thesis by (simp add: parse_marshal [OF assms(1)])
qed

text \<open>
  C38: the parser cuts a byte stream at the values the sender encoded, however the bytes arrive. When
  a buffer holds the beginning of a well-formed value's encoding followed by anything, the parser
  asks for more bytes exactly as long as the encoding is incomplete, and then returns that value and
  its length.
\<close>

theorem resp_reads_in_pieces:
  assumes "wf_value v" "in_memory (marshal_value v)" "buf @ net = marshal_value v @ rest"
  shows "parse_value buf =
    (if length buf < length (marshal_value v) then NeedMore else Got v (length (marshal_value v)))"
  by (rule next_value [OF assms])

lemma resp_reads_in_pieces_witness:
  "parse_value (take 9 (encode_array [''GET'', ''k''])) = NeedMore"
proof -
  let ?v = "RValue (CHR ''*'') [] 0 (map (\<lambda>w. scalar (CHR ''$'') w 0) [''GET'', ''k'']) False"
  have "wf_value ?v" "in_memory (marshal_value ?v)" "9 < length (marshal_value ?v)"
    by (intro args_wf, code_simp) code_simp+
  then show ?thesis
    using resp_reads_in_pieces [of ?v "take 9 (encode_array [''GET'', ''k''])"
        "drop 9 (encode_array [''GET'', ''k''])" "[]"]
    by (simp add: encode_array_value del: marshal_value.simps list.map)
qed

section \<open>Lengths the parser does not survive\<close>

lemma bulk_panics:
  assumes "in_int64 sz" "max_int64 - 2 - int (length (itoa sz) + 3) < sz" "in_memory (CHR ''$'' # itoa sz @ crlf @ r)"
    "0 \<le> sz"
  shows "parse_value (CHR ''$'' # itoa sz @ crlf @ r) = Panic"
proof -
  let ?b = "CHR ''$'' # itoa sz @ crlf @ r"
  have "length (itoa sz) + 3 \<le> length ?b" by simp
  moreover have "\<not> int (length (itoa sz) + 3) + sz + 2 < 2 ^ 63" using assms(2) by (simp add: max_int64_def)
  ultimately have "parse_bulk ?b (CHR ''$'' # itoa sz) (length (itoa sz) + 3) = Panic"
    using bulk_end_out [of sz ?b "length (itoa sz) + 3"] assms by (simp add: parse_bulk_def parse_int_itoa)
  then show ?thesis by (simp add: read_number_line)
qed

lemma array_panics:
  "in_int64 n \<Longrightarrow> max_values < n \<Longrightarrow> parse_value (CHR ''*'' # itoa n @ crlf @ r) = Panic"
  by (simp add: read_number_line parse_int_itoa max_values_def)

text \<open>
  A header of a few bytes is enough to panic the reader, on either side of a connection and
  before any authentication: a bulk length within a few bytes of the largest \<open>int\<close> makes the length
  check wrap around and the next index fail, and an array length above 2^42 exceeds what \<open>make\<close>
  accepts.
\<close>

lemma resp_huge_length_panics:
  assumes "int (length r) < 2 ^ 61" "max_values < n" "in_int64 n"
  shows "parse_value (CHR ''$'' # itoa max_int64 @ crlf @ r) = Panic
    \<and> parse_value (CHR ''*'' # itoa n @ crlf @ r) = Panic"
proof
  have "length (itoa max_int64) \<le> 19"
    using nat_str_len [of "nat max_int64" 19] by (simp add: itoa_def max_int64_def)
  with assms(1) show "parse_value (CHR ''$'' # itoa max_int64 @ crlf @ r) = Panic"
    by (intro bulk_panics) (simp_all add: in_memory_def in_int64_def max_int64_def)
  show "parse_value (CHR ''*'' # itoa n @ crlf @ r) = Panic"
    by (rule array_panics [OF assms(3,2)])
qed

lemma resp_huge_length_panics_witness:
  "parse_value (CHR ''$'' # itoa max_int64 @ crlf @ []) = Panic
    \<and> parse_value (CHR ''*'' # itoa (2 ^ 60) @ crlf @ []) = Panic"
  by (rule resp_huge_length_panics) (simp_all add: max_values_def in_int64_def)

text \<open>An error text with a line break in it leaves its tail in the stream, as the start of the next reply.\<close>

lemma encode_error_splits:
  "no_crlf a \<Longrightarrow> parse_value (encode_error (a @ crlf @ b) @ r) = Got (scalar (CHR ''-'') a 0) (length a + 3)
     \<and> drop (length a + 3) (encode_error (a @ crlf @ b) @ r) = b @ crlf @ r"
  using parse_line [of "CHR ''-''" a "b @ crlf @ r"] drop_append_length [of "CHR ''-'' # a @ crlf" "b @ crlf @ r"]
  by (simp add: encode_error_def numeral_3_eq_3 del: parse_value.simps drop_append_length drop_append)

end
