(* ===== verification/Resp_Store.thy ===== *)
theory Resp_Store
  imports Resp_Wire_Props Descriptor "HOL-Library.Sublist"
begin

text \<open>
  The store behind the RESP example's server and its command handlers
  (src/example/resp/handlers.go): string keys, and registrations of subscribers on channels. A
  registration is known by the number of the \<open>Subscribe\<close> that made it; its Go channel is the queue
  of that number. \<open>Publish\<close> takes a snapshot of the subscribers under the lock and delivers to each
  of them outside it, so a delivery is a step of its own.
\<close>

section \<open>The store\<close>

record registration =
  rg_queue :: "(string \<times> string) list"
  rg_done :: bool

record store =
  st_data :: "(string, string) gomap"
  st_subs :: "(string, nat list) gomap"
  st_byCh :: "nat list"
  st_regs :: "registration list"

definition new_store :: store where
  "new_store = \<lparr>st_data = [], st_subs = [], st_byCh = [], st_regs = []\<rparr>"

definition store_get :: "string \<Rightarrow> store \<Rightarrow> string option" where
  "store_get key s = map_of (st_data s) key"

definition store_set :: "string \<Rightarrow> string \<Rightarrow> store \<Rightarrow> store" where
  "store_set key v s = s\<lparr>st_data := alist_put key v (st_data s)\<rparr>"

definition push_capacity :: nat where "push_capacity = 16"

definition join_channel :: "nat \<Rightarrow> string \<Rightarrow> (string, nat list) gomap \<Rightarrow> (string, nat list) gomap" where
  "join_channel i c subs =
     alist_upd c (\<lambda>m. case m of None \<Rightarrow> [i] | Some is \<Rightarrow> if i \<in> set is then is else is @ [i]) subs"

definition store_subscribe :: "string list \<Rightarrow> store \<Rightarrow> nat \<times> store" where
  "store_subscribe channels s =
     (let i = length (st_regs s) in
      (i, s\<lparr>st_regs := st_regs s @ [\<lparr>rg_queue = [], rg_done = False\<rparr>],
             st_byCh := st_byCh s @ [i],
             st_subs := foldl (\<lambda>m c. join_channel i c m) (st_subs s) channels\<rparr>))"

text \<open>The loop over the subscriber sets; a set that becomes empty is deleted from the map.\<close>

definition leave_channels :: "nat \<Rightarrow> string list \<Rightarrow> (string, nat list) gomap \<Rightarrow> (string, nat list) gomap" where
  "leave_channels i channels subs =
     concat (map (\<lambda>(c, m).
       if i \<in> set m \<and> (channels = [] \<or> c \<in> set channels) then
         if remove1 i m = [] then [] else [(c, remove1 i m)]
       else [(c, m)]) subs)"

definition still_member :: "nat \<Rightarrow> (string, nat list) gomap \<Rightarrow> bool" where
  "still_member i subs = list_ex (\<lambda>(c, m). i \<in> set m) subs"

definition store_unsubscribe :: "nat \<Rightarrow> string list \<Rightarrow> store \<Rightarrow> store" where
  "store_unsubscribe i channels s =
     (if i \<notin> set (st_byCh s) then s
      else
        let s1 = s\<lparr>st_subs := leave_channels i channels (st_subs s)\<rparr> in
        if still_member i (st_subs s1) then s1
        else s1\<lparr>st_byCh := remove1 i (st_byCh s1),
                st_regs := (st_regs s1)[i := (st_regs s1 ! i)\<lparr>rg_done := True\<rparr>]\<rparr>)"

definition publish_targets :: "string \<Rightarrow> store \<Rightarrow> nat list" where
  "publish_targets channel s = (case map_of (st_subs s) channel of None \<Rightarrow> [] | Some m \<Rightarrow> m)"

text \<open>One delivery: skipped for a retired registration and for a full queue; it counts otherwise.\<close>

definition deliver :: "string \<times> string \<Rightarrow> nat \<Rightarrow> store \<Rightarrow> nat \<times> store" where
  "deliver msg i s =
     (if rg_done (st_regs s ! i) then (0, s)
      else if length (rg_queue (st_regs s ! i)) < push_capacity then
        (1, s\<lparr>st_regs := (st_regs s)[i := (st_regs s ! i)\<lparr>rg_queue := rg_queue (st_regs s ! i) @ [msg]\<rparr>]\<rparr>)
      else (0, s))"

text \<open>\<open>Publish\<close> with nothing between its sections.\<close>

fun deliver_all :: "string \<times> string \<Rightarrow> nat list \<Rightarrow> store \<Rightarrow> nat \<times> store" where
  "deliver_all msg [] s = (0, s)"
| "deliver_all msg (i # is) s =
     (let (n, s1) = deliver msg i s; (k, s2) = deliver_all msg is s1 in (n + k, s2))"

definition store_publish :: "string \<Rightarrow> string \<Rightarrow> store \<Rightarrow> nat \<times> store" where
  "store_publish channel payload s = deliver_all (channel, payload) (publish_targets channel s) s"

definition take_push :: "nat \<Rightarrow> store \<Rightarrow> (string \<times> string) option \<times> store" where
  "take_push i s =
     (case rg_queue (st_regs s ! i) of
        [] \<Rightarrow> (None, s)
      | msg # q \<Rightarrow> (Some msg, s\<lparr>st_regs := (st_regs s)[i := (st_regs s ! i)\<lparr>rg_queue := q\<rparr>]\<rparr>))"

section \<open>Handlers\<close>

text \<open>
  A unary handler receives the request payload, and either fails or ends with \<open>return st.Send(...)\<close>;
  a panic of the argument parser is a third outcome.
\<close>

datatype handler_out = HSend bytes | HFail go_error | HPanic

definition with_args :: "bytes \<Rightarrow> (string list \<Rightarrow> handler_out \<times> store) \<Rightarrow> store \<Rightarrow> handler_out \<times> store" where
  "with_args raw k s =
     (case decode_args raw of
        None \<Rightarrow> (HPanic, s)
      | Some (Inl e) \<Rightarrow> (HFail (status_error InvalidArgument (err_text e)), s)
      | Some (Inr args) \<Rightarrow> k args)"

definition handle_ping :: "bytes \<Rightarrow> store \<Rightarrow> handler_out \<times> store" where
  "handle_ping raw s = (HSend (encode_simple ''PONG''), s)"

definition handle_get :: "bytes \<Rightarrow> store \<Rightarrow> handler_out \<times> store" where
  "handle_get raw s =
     with_args raw
       (\<lambda>args. case args of
          [key] \<Rightarrow>
            (case store_get key s of
               Some v \<Rightarrow> (HSend (encode_bulk v), s)
             | None \<Rightarrow> (HSend encode_bulk_null, s))
        | _ \<Rightarrow> (HFail (status_error InvalidArgument ''GET requires 1 arg''), s)) s"

definition handle_set :: "bytes \<Rightarrow> store \<Rightarrow> handler_out \<times> store" where
  "handle_set raw s =
     with_args raw
       (\<lambda>args. case args of
          [key, v] \<Rightarrow> (HSend (encode_simple ''OK''), store_set key v s)
        | _ \<Rightarrow> (HFail (status_error InvalidArgument ''SET requires 2 args''), s)) s"

definition handle_publish :: "bytes \<Rightarrow> store \<Rightarrow> handler_out \<times> store" where
  "handle_publish raw s =
     with_args raw
       (\<lambda>args. case args of
          [channel, payload] \<Rightarrow>
            (let (n, s1) = store_publish channel payload s in
             (HSend (CHR '':'' # itoa (int n) @ crlf), s1))
        | _ \<Rightarrow> (HFail (status_error InvalidArgument ''PUBLISH requires channel and message''), s)) s"

text \<open>
  The start of \<open>handleSUBSCRIBE\<close>: the registration and the confirmations it sends; then one push per
  message of the queue, until the call or the peer is gone and the deferred \<open>Unsubscribe\<close> runs.
\<close>

definition handle_subscribe :: "bytes \<Rightarrow> store \<Rightarrow> (go_error + nat \<times> bytes list) option \<times> store" where
  "handle_subscribe raw s =
     (case decode_args raw of
        None \<Rightarrow> (None, s)
      | Some (Inl e) \<Rightarrow> (Some (Inl (status_error InvalidArgument (err_text e))), s)
      | Some (Inr []) \<Rightarrow>
          (Some (Inl (status_error InvalidArgument ''SUBSCRIBE requires at least 1 channel'')), s)
      | Some (Inr args) \<Rightarrow>
          (let (i, s1) = store_subscribe args s in
           (Some (Inr (i, map (\<lambda>(j, c). encode_subscribe_ack c (int (Suc j))) (enumerate 0 args))), s1)))"

definition subscribe_push :: "nat \<Rightarrow> store \<Rightarrow> bytes option \<times> store" where
  "subscribe_push i s =
     (case take_push i s of
        (None, s1) \<Rightarrow> (None, s1)
      | (Some (channel, payload), s1) \<Rightarrow> (Some (encode_push_message channel payload), s1))"

definition subscribe_end :: "nat \<Rightarrow> store \<Rightarrow> store" where
  "subscribe_end i s = store_unsubscribe i [] s"

text \<open>The service the handlers are registered under.\<close>

definition resp_service :: string where "resp_service = ''redis.Redis''"

definition service_descriptor :: "service option" where
  "service_descriptor =
     (case (must_method (resp_service @ ''.PING'') Unary, must_method (resp_service @ ''.GET'') Unary,
            must_method (resp_service @ ''.SET'') Unary, must_method (resp_service @ ''.PUBLISH'') Unary,
            must_method (resp_service @ ''.SUBSCRIBE'') ServerStreaming) of
        (Some a, Some b, Some c, Some d, Some e) \<Rightarrow> must_service resp_service [a, b, c, d, e]
      | _ \<Rightarrow> None)"

definition resp_handler :: "string \<Rightarrow> (bytes \<Rightarrow> store \<Rightarrow> handler_out \<times> store) option" where
  "resp_handler name =
     (if name = ''PING'' then Some handle_ping
      else if name = ''GET'' then Some handle_get
      else if name = ''SET'' then Some handle_set
      else if name = ''PUBLISH'' then Some handle_publish
      else None)"

section \<open>Registrations stay consistent\<close>

text \<open>
  The live registrations are exactly those not retired, no channel lists a retired one, and no queue
  exceeds its buffer.
\<close>

datatype store_step =
    SSet string string
  | SSubscribe "string list"
  | SUnsubscribe nat "string list"
  | SDeliver "string \<times> string" nat
  | STake nat

text \<open>A delivery or a receive concerns a registration the store has handed out.\<close>

definition store_do :: "store_step \<Rightarrow> store \<Rightarrow> store" where
  "store_do e s =
     (case e of
        SSet k v \<Rightarrow> store_set k v s
      | SSubscribe cs \<Rightarrow> snd (store_subscribe cs s)
      | SUnsubscribe i cs \<Rightarrow> store_unsubscribe i cs s
      | SDeliver msg i \<Rightarrow> if i < length (st_regs s) then snd (deliver msg i s) else s
      | STake i \<Rightarrow> if i < length (st_regs s) then snd (take_push i s) else s)"

definition members_ok :: "nat list \<Rightarrow> nat list \<Rightarrow> bool" where
  "members_ok live m \<longleftrightarrow> m \<noteq> [] \<and> distinct m \<and> set m \<subseteq> set live"

definition subs_ok :: "nat list \<Rightarrow> (string, nat list) gomap \<Rightarrow> bool" where
  "subs_ok live subs \<longleftrightarrow> distinct (map fst subs) \<and> list_all (members_ok live) (map snd subs)"

lemma alist_upd_all:
  "list_all P (map snd xs) \<Longrightarrow> P (f None) \<Longrightarrow> (\<And>v. P v \<Longrightarrow> P (f (Some v))) \<Longrightarrow>
    list_all P (map snd (alist_upd k f xs))"
  by (induction k f xs rule: alist_upd.induct) auto

lemma join_ok: "subs_ok live subs \<Longrightarrow> i \<in> set live \<Longrightarrow> subs_ok live (join_channel i c subs)"
  unfolding subs_ok_def join_channel_def
  by (auto simp: alist_upd_distinct members_ok_def intro!: alist_upd_all)

lemma joins_ok:
  "subs_ok live subs \<Longrightarrow> i \<in> set live \<Longrightarrow> subs_ok live (foldl (\<lambda>m c. join_channel i c m) subs cs)"
  by (induction cs arbitrary: subs) (simp_all add: join_ok)

lemma subs_ok_more: "subs_ok live subs \<Longrightarrow> set live \<subseteq> set live' \<Longrightarrow> subs_ok live' subs"
  by (auto simp: subs_ok_def list_all_iff members_ok_def dest: subsetD)

lemma leave_Cons:
  "leave_channels i cs ((c, m) # subs) =
     (if i \<in> set m \<and> (cs = [] \<or> c \<in> set cs) then
        (if remove1 i m = [] then [] else [(c, remove1 i m)]) @ leave_channels i cs subs
      else (c, m) # leave_channels i cs subs)"
  by (auto simp: leave_channels_def)

lemma leave_keys: "fst ` set (leave_channels i cs subs) \<subseteq> fst ` set subs"
proof (induction subs)
  case Nil
  then show ?case by (simp add: leave_channels_def)
next
  case (Cons p subs)
  obtain c m where "p = (c, m)" by (cases p)
  with Cons show ?case by (auto simp: leave_Cons)
qed

lemma members_leave: "members_ok live m \<Longrightarrow> remove1 i m \<noteq> [] \<Longrightarrow> members_ok live (remove1 i m)"
  by (auto simp: members_ok_def)

lemma leave_ok: "subs_ok live subs \<Longrightarrow> subs_ok live (leave_channels i cs subs)"
proof (induction subs)
  case Nil
  then show ?case by (simp add: leave_channels_def)
next
  case (Cons p subs)
  obtain c m where p: "p = (c, m)" by (cases p)
  from Cons have "subs_ok live (leave_channels i cs subs)" by (simp add: subs_ok_def)
  moreover from Cons.prems p have "c \<notin> fst ` set (leave_channels i cs subs)"
    using leave_keys [of i cs subs] by (auto simp: subs_ok_def)
  moreover have "members_ok live m" using Cons.prems p by (simp add: subs_ok_def)
  ultimately show ?case by (simp add: p leave_Cons subs_ok_def members_leave)
qed

lemma leave_members:
  "subs_ok live subs \<Longrightarrow> \<not> still_member i subs \<Longrightarrow> distinct live \<Longrightarrow> subs_ok (remove1 i live) subs"
  by (auto simp: subs_ok_def members_ok_def still_member_def list_all_iff list_ex_iff)

definition live_ok :: "nat list \<Rightarrow> registration list \<Rightarrow> bool" where
  "live_ok live regs \<longleftrightarrow>
     distinct live \<and> list_all (\<lambda>i. i < length regs) live
     \<and> list_all (\<lambda>i. i \<in> set live \<longleftrightarrow> \<not> rg_done (regs ! i)) [0..<length regs]
     \<and> list_all (\<lambda>r. length (rg_queue r) \<le> push_capacity) regs"

definition store_ok :: "store \<Rightarrow> bool" where
  "store_ok s \<longleftrightarrow> subs_ok (st_byCh s) (st_subs s) \<and> live_ok (st_byCh s) (st_regs s)"

lemma store_ok_new: "store_ok new_store"
  by (simp add: store_ok_def new_store_def subs_ok_def live_ok_def)

lemma live_ok_iff:
  "live_ok live regs \<longleftrightarrow>
     distinct live \<and> (\<forall>i. i \<in> set live \<longleftrightarrow> i < length regs \<and> \<not> rg_done (regs ! i))
     \<and> (\<forall>r \<in> set regs. length (rg_queue r) \<le> push_capacity)"
  by (auto simp: live_ok_def list_all_iff)

lemma live_ok_distinct: "live_ok live regs \<Longrightarrow> distinct live"
  by (simp add: live_ok_def)

lemma live_ok_add: "live_ok live regs \<Longrightarrow>
    live_ok (live @ [length regs]) (regs @ [\<lparr>rg_queue = [], rg_done = False\<rparr>])"
  by (auto simp: live_ok_iff nth_append less_Suc_eq)

lemma live_ok_queue: "live_ok live regs \<Longrightarrow> i < length regs \<Longrightarrow> length q \<le> push_capacity \<Longrightarrow>
    live_ok live (regs[i := (regs ! i)\<lparr>rg_queue := q\<rparr>])"
  by (auto simp: live_ok_iff nth_list_update dest!: set_update_subset_insert [THEN subsetD])

lemma live_ok_retire: "live_ok live regs \<Longrightarrow> i \<in> set live \<Longrightarrow>
    live_ok (remove1 i live) (regs[i := (regs ! i)\<lparr>rg_done := True\<rparr>])"
  by (auto simp: live_ok_iff nth_list_update dest!: set_update_subset_insert [THEN subsetD])

lemma live_ok_bound: "live_ok live regs \<Longrightarrow> i < length regs \<Longrightarrow> length (rg_queue (regs ! i)) \<le> push_capacity"
  by (simp add: live_ok_iff)

lemma store_do_ok: "store_ok s \<Longrightarrow> store_ok (store_do e s)"
proof (cases e)
  case (SSet k v)
  assume "store_ok s"
  with SSet show ?thesis by (simp add: store_do_def store_ok_def store_set_def)
next
  case (SSubscribe cs)
  assume "store_ok s"
  with SSubscribe show ?thesis
    by (auto simp: store_do_def store_ok_def store_subscribe_def Let_def live_ok_add
        intro!: joins_ok elim!: subs_ok_more)
next
  case (SUnsubscribe i cs)
  assume "store_ok s"
  with SUnsubscribe leave_ok [of "st_byCh s" "st_subs s" i cs] show ?thesis
    by (auto simp: store_do_def store_ok_def store_unsubscribe_def Let_def live_ok_retire
        intro!: leave_members dest: live_ok_distinct)
next
  case (SDeliver msg i)
  assume "store_ok s"
  with SDeliver show ?thesis
    by (auto simp: store_do_def store_ok_def deliver_def intro!: live_ok_queue)
next
  case (STake i)
  assume "store_ok s"
  with STake show ?thesis
    using live_ok_bound [of "st_byCh s" "st_regs s" i]
    by (auto simp: store_do_def store_ok_def take_push_def split: list.splits intro!: live_ok_queue)
qed

interpretation store_runs: invariant_machine store_do store_ok
  by unfold_locales (rule store_do_ok)

text \<open>
  A retired registration is final: from then on its queue only loses what its reader takes, even for
  a publisher that holds a snapshot from before.
\<close>

definition retired :: "nat \<Rightarrow> (string \<times> string) list \<Rightarrow> store \<Rightarrow> bool" where
  "retired i q s \<longleftrightarrow>
     store_ok s \<and> i < length (st_regs s) \<and> rg_done (st_regs s ! i)
     \<and> suffix (rg_queue (st_regs s ! i)) q"

lemma retired_step: "retired i q s \<Longrightarrow> retired i q (store_do e s)"
proof -
  assume r: "retired i q s"
  then have out: "i \<notin> set (st_byCh s)" by (simp add: retired_def store_ok_def live_ok_iff)
  from r have ok: "store_ok (store_do e s)" by (simp add: retired_def store_do_ok)
  show ?thesis
  proof (cases e)
    case (STake j)
    with r ok show ?thesis
      by (cases "rg_queue (st_regs s ! j)")
        (auto simp: retired_def store_do_def take_push_def nth_list_update dest: suffix_ConsD)
  next
    case (SUnsubscribe j cs)
    with r ok out show ?thesis
      by (cases "i = j") (auto simp: retired_def store_do_def store_unsubscribe_def Let_def nth_list_update)
  next
    case (SDeliver msg j)
    with r ok show ?thesis
      by (cases "i = j") (auto simp: retired_def store_do_def deliver_def nth_list_update)
  qed (use r ok in \<open>auto simp: retired_def store_do_def store_set_def store_subscribe_def Let_def nth_append\<close>)
qed

interpretation retired_runs: invariant_machine store_do "retired i q" for i q
  by unfold_locales (rule retired_step)

lemma leave_all: "list_all distinct (map snd subs) \<Longrightarrow> \<not> still_member i (leave_channels i [] subs)"
proof (induction subs)
  case Nil
  then show ?case by (simp add: leave_channels_def still_member_def)
next
  case (Cons p subs)
  obtain c m where "p = (c, m)" by (cases p)
  with Cons show ?case by (simp add: leave_Cons still_member_def)
qed

lemma unsubscribe_retires:
  assumes "store_ok s" "i < length (st_regs s)"
  shows "retired i (rg_queue (st_regs s ! i)) (subscribe_end i s)"
proof -
  have d: "list_all distinct (map snd (st_subs s))"
    using assms(1) by (auto simp: store_ok_def subs_ok_def members_ok_def list_all_iff)
  have "store_ok (subscribe_end i s)"
    using store_do_ok [OF assms(1), of "SUnsubscribe i []"] by (simp add: store_do_def subscribe_end_def)
  with assms leave_all [OF d, of i] show ?thesis
    by (auto simp: retired_def subscribe_end_def store_unsubscribe_def Let_def store_ok_def live_ok_iff)
qed

text \<open>
  Once a subscriber has left, no publisher reaches it. From any store that runs of subscribe,
  unsubscribe, deliver and receive steps can build, after \<open>Unsubscribe\<close> of a registration every
  further run leaves it retired, no channel lists it, and its queue only shrinks from the front:
  a delivery from a snapshot taken earlier is dropped.
\<close>

lemma unsubscribed_gets_nothing:
  assumes "i < length (st_regs (run_steps store_do es new_store))"
  shows "let s = run_steps store_do es new_store; s' = run_steps store_do es' (subscribe_end i s) in
    rg_done (st_regs s' ! i) \<and> list_all (\<lambda>m. i \<notin> set m) (map snd (st_subs s'))
    \<and> suffix (rg_queue (st_regs s' ! i)) (rg_queue (st_regs s ! i))"
proof -
  let ?s = "run_steps store_do es new_store"
  let ?s' = "run_steps store_do es' (subscribe_end i ?s)"
  have "retired i (rg_queue (st_regs ?s ! i)) ?s'"
    by (intro retired_runs.run_inv unsubscribe_retires assms store_runs.run_inv store_ok_new)
  moreover from this have "i \<notin> set (st_byCh ?s')" by (simp add: retired_def store_ok_def live_ok_iff)
  ultimately show ?thesis
    by (auto simp: retired_def store_ok_def subs_ok_def members_ok_def list_all_iff Let_def)
qed

lemma unsubscribed_gets_nothing_witness:
  "let s = run_steps store_do [SSubscribe [''a'']] new_store;
       s' = run_steps store_do [SDeliver (''a'', ''x'') 0] (subscribe_end 0 s) in
    rg_done (st_regs s' ! 0) \<and> list_all (\<lambda>m. 0 \<notin> set m) (map snd (st_subs s'))
    \<and> suffix (rg_queue (st_regs s' ! 0)) (rg_queue (st_regs s ! 0))"
  by (rule unsubscribed_gets_nothing) code_simp

end
