(* ===== verification/Resp_Session.thy ===== *)
theory Resp_Session
  imports Resp_Store
begin

text \<open>
  The session the two ends of a RESP connection share (src/example/resp/session.go): the read loop
  that fills a buffer, the blocking reads over it, the handshakes, and the slot for the one call in
  flight. Each function below is one critical section of the session's lock, or the loop of such
  sections a blocking read is. While a read is parked other goroutines act: bytes or an error arrive,
  the context ends, or the session is closed; the events handed to a read are what happens meanwhile.
\<close>

record rsession =
  rs_service :: string
  rs_password :: string
  rs_openTimeout :: int
  rs_hellos :: int
  rs_closed :: bool
  rs_reusable :: bool
  rs_exclusive :: bool
  rs_busy :: bool
  rs_readBuf :: bytes
  rs_readErr :: "go_error option"
  rs_peerGone :: bool
  rs_connClosed :: bool
  rs_out :: bytes
  rs_writeErr :: "go_error option"

definition new_session :: "string \<Rightarrow> string \<Rightarrow> int \<Rightarrow> rsession" where
  "new_session service password openTimeout =
     \<lparr>rs_service = service, rs_password = password, rs_openTimeout = openTimeout, rs_hellos = 0,
      rs_closed = False, rs_reusable = True, rs_exclusive = False, rs_busy = False, rs_readBuf = [],
      rs_readErr = None, rs_peerGone = False, rs_connClosed = False, rs_out = [], rs_writeErr = None\<rparr>"

text \<open>
  One turn of \<open>readLoop\<close>: what one read of the carrier returned. After an error the loop has ended.
\<close>

definition read_loop_step :: "bytes \<Rightarrow> go_error option \<Rightarrow> rsession \<Rightarrow> rsession" where
  "read_loop_step p err s =
     (if rs_readErr s \<noteq> None then s
      else
        let s1 = s\<lparr>rs_readBuf := rs_readBuf s @ p\<rparr> in
        case err of
          None \<Rightarrow> s1
        | Some e \<Rightarrow> s1\<lparr>rs_readErr := Some e, rs_reusable := False, rs_peerGone := True\<rparr>)"

definition resp_reusable :: "rsession \<Rightarrow> bool" where
  "resp_reusable s \<longleftrightarrow> rs_reusable s \<and> \<not> rs_closed s \<and> \<not> rs_exclusive s"

definition resp_mark_bad :: "rsession \<Rightarrow> rsession" where
  "resp_mark_bad s = s\<lparr>rs_reusable := False\<rparr>"

definition mark_exclusive :: "rsession \<Rightarrow> rsession" where
  "mark_exclusive s = s\<lparr>rs_exclusive := True, rs_reusable := False\<rparr>"

text \<open>
  \<open>closeSession\<close> with the result of closing the connection, and the error the read loop ends with,
  which the call waits for.
\<close>

definition close_session :: "go_error option \<Rightarrow> go_error \<Rightarrow> rsession \<Rightarrow> go_error option \<times> rsession" where
  "close_session closeErr readErr s =
     (if rs_closed s then (None, s)
      else
        (closeErr,
         read_loop_step [] (Some readErr)
           (s\<lparr>rs_closed := True, rs_reusable := False, rs_peerGone := True, rs_connClosed := True\<rparr>)))"

definition write_raw :: "bytes \<Rightarrow> rsession \<Rightarrow> go_error option \<times> rsession" where
  "write_raw p s =
     (case rs_writeErr s of
        Some e \<Rightarrow> (Some e, resp_mark_bad s)
      | None \<Rightarrow> (None, s\<lparr>rs_out := rs_out s @ p\<rparr>))"

definition write_command :: "string list \<Rightarrow> rsession \<Rightarrow> go_error option \<times> rsession" where
  "write_command args s = write_raw (encode_array args) s"

section \<open>Blocking reads\<close>

datatype 'a attempt = Ready 'a | Waits | Crash

definition read_value_try :: "rsession \<Rightarrow> (go_error + rvalue) attempt \<times> rsession" where
  "read_value_try s =
     (if rs_closed s \<and> rs_readBuf s = [] then
        (Ready (Inl (case rs_readErr s of Some e \<Rightarrow> e | None \<Rightarrow> err_EOF)), s)
      else if rs_readBuf s \<noteq> [] then
        case parse_value (rs_readBuf s) of
          Got v n \<Rightarrow> (Ready (Inr v), s\<lparr>rs_readBuf := drop n (rs_readBuf s)\<rparr>)
        | Bad e \<Rightarrow> (Ready (Inl e), s\<lparr>rs_reusable := False\<rparr>)
        | Panic \<Rightarrow> (Crash, s)
        | NeedMore \<Rightarrow>
            (case rs_readErr s of
               Some e \<Rightarrow> (Ready (Inl e), s)
             | None \<Rightarrow> if rs_closed s then (Ready (Inl err_EOF), s) else (Waits, s))
      else
        case rs_readErr s of
          Some e \<Rightarrow> (Ready (Inl e), s)
        | None \<Rightarrow> (Waits, s))"

definition wait_first_byte_try :: "rsession \<Rightarrow> go_error option attempt" where
  "wait_first_byte_try s =
     (if rs_readBuf s \<noteq> [] then Ready None
      else case rs_readErr s of
        Some e \<Rightarrow> Ready (Some e)
      | None \<Rightarrow> if rs_closed s then Ready (Some err_EOF) else Waits)"

datatype sess_event =
    Arrive bytes "go_error option"
  | CtxDone go_error
  | Closing go_error

text \<open>A read that is parked when the events run out is still parked: \<open>Waits\<close>.\<close>

fun read_value ::
  "sess_event list \<Rightarrow> rsession \<Rightarrow> (go_error + rvalue) attempt \<times> sess_event list \<times> rsession" where
  "read_value evs s =
     (case read_value_try s of
        (Waits, s1) \<Rightarrow>
          (case evs of
             [] \<Rightarrow> (Waits, [], s1)
           | Arrive p err # es \<Rightarrow> read_value es (read_loop_step p err s1)
           | CtxDone e # es \<Rightarrow> (Ready (Inl e), es, s1)
           | Closing e # es \<Rightarrow> read_value es (snd (close_session None e s1)))
      | (r, s1) \<Rightarrow> (r, evs, s1))"

declare read_value.simps [simp del]

fun wait_first_byte ::
  "sess_event list \<Rightarrow> rsession \<Rightarrow> go_error option attempt \<times> sess_event list \<times> rsession" where
  "wait_first_byte evs s =
     (case wait_first_byte_try s of
        Waits \<Rightarrow>
          (case evs of
             [] \<Rightarrow> (Waits, [], s)
           | Arrive p err # es \<Rightarrow> wait_first_byte es (read_loop_step p err s)
           | CtxDone e # es \<Rightarrow> (Ready (Some e), es, s)
           | Closing e # es \<Rightarrow> wait_first_byte es (snd (close_session None e s)))
      | r \<Rightarrow> (r, evs, s))"

declare wait_first_byte.simps [simp del]

section \<open>Handshakes\<close>

type_synonym 'r session_op = "sess_event list \<Rightarrow> rsession \<Rightarrow> 'r attempt \<times> sess_event list \<times> rsession"

text \<open>
  A read whose result the caller goes on with: parked and crashed reads end the caller too.
\<close>

definition reading :: "sess_event list \<Rightarrow> rsession
    \<Rightarrow> (go_error + rvalue \<Rightarrow> sess_event list \<Rightarrow> rsession \<Rightarrow> 'r attempt \<times> sess_event list \<times> rsession)
    \<Rightarrow> 'r attempt \<times> sess_event list \<times> rsession" where
  "reading evs s k =
     (case read_value evs s of
        (Ready r, es, s1) \<Rightarrow> k r es s1
      | (Waits, es, s1) \<Rightarrow> (Waits, es, s1)
      | (Crash, es, s1) \<Rightarrow> (Crash, es, s1))"

definition client_handshake :: "go_error option session_op" where
  "client_handshake evs s =
     (case write_command [''HELLO'', ''2''] s of
        (Some e, s1) \<Rightarrow> (Ready (Some e), evs, s1)
      | (None, s1) \<Rightarrow>
          reading evs (s1\<lparr>rs_hellos := rs_hellos s1 + 1\<rparr>)
            (\<lambda>r es s2. case r of
               Inl e \<Rightarrow> (Ready (Some (wrapped ''resp: HELLO: '' e)), es, s2)
             | Inr _ \<Rightarrow>
                 if rs_password s2 = [] then (Ready None, es, s2)
                 else
                   case write_command [''AUTH'', rs_password s2] s2 of
                     (Some e, s3) \<Rightarrow> (Ready (Some e), es, s3)
                   | (None, s3) \<Rightarrow>
                       reading es s3
                         (\<lambda>r es s4. case r of
                            Inl e \<Rightarrow> (Ready (Some (wrapped ''resp: AUTH: '' e)), es, s4)
                          | Inr v \<Rightarrow>
                              (Ready
                                (if v_type v = CHR ''-'' then Some (status_error Unauthenticated (v_str v))
                                 else if v_type v \<noteq> CHR ''+'' \<or> \<not> equal_fold (v_str v) ''OK'' then
                                   Some (ErrNew (''resp: AUTH unexpected reply type '' @ go_quote [v_type v]))
                                 else None), es, s4))))"

definition server_handshake :: "go_error option session_op" where
  "server_handshake evs s =
     reading evs s
       (\<lambda>r es s1. case r of
          Inl e \<Rightarrow> (Ready (Some (wrapped ''resp: handshake read: '' e)), es, s1)
        | Inr v \<Rightarrow>
            (case command_from_value v of
               Inl e \<Rightarrow> (Ready (Some e), es, s1)
             | Inr (cmd, args) \<Rightarrow>
                 if \<not> equal_fold cmd ''HELLO'' then
                   (Ready (Some (ErrNew (''resp: expected HELLO, got '' @ go_quote cmd))), es, s1)
                 else
                   case write_raw (encode_simple ''OK'') s1 of
                     (Some e, s2) \<Rightarrow> (Ready (Some e), es, s2)
                   | (None, s2) \<Rightarrow>
                       if rs_password s2 = [] then (Ready None, es, s2)
                       else
                         reading es s2
                           (\<lambda>r es s3. case r of
                              Inl e \<Rightarrow> (Ready (Some (wrapped ''resp: AUTH read: '' e)), es, s3)
                            | Inr v \<Rightarrow>
                                (case command_from_value v of
                                   Inl e \<Rightarrow> (Ready (Some e), es, s3)
                                 | Inr (cmd, args) \<Rightarrow>
                                     if \<not> equal_fold cmd ''AUTH'' then
                                       (Ready (Some (ErrNew (''resp: expected AUTH, got '' @ go_quote cmd))), es, s3)
                                     else if args = [] \<or> hd args \<noteq> rs_password s3 then
                                       (Ready (Some (status_error Unauthenticated ''resp: AUTH failed'')), es,
                                        snd (write_raw (encode_error ''ERR invalid password'') s3))
                                     else
                                       case write_raw (encode_simple ''OK'') s3 of
                                         (e, s4) \<Rightarrow> (Ready e, es, s4)))))"

section \<open>The slot for one call\<close>

definition end_call :: "bool \<Rightarrow> rsession \<Rightarrow> rsession" where
  "end_call poison s =
     (let s1 = s\<lparr>rs_busy := False\<rparr> in
      if poison \<or> rs_exclusive s1 then s1\<lparr>rs_reusable := False\<rparr> else s1)"

end
