(* ===== verification/Resp_Call.thy ===== *)
theory Resp_Call
  imports Resp_Session Pool_Props Server_Conn
begin

text \<open>
  One RESP call and the operations of both ends (src/example/resp/call.go), with \<open>OpenCall\<close> and
  \<open>AcceptCall\<close> (src/example/resp/session.go), which create it. The call's own lock and the session's
  are different, and an operation that needs both takes them in turn: its sections are separate
  definitions, and the composed operation runs them with nothing in between.
\<close>

record rcall =
  rc_method :: string
  rc_cmd :: string
  rc_initiator :: bool
  rc_streaming :: bool
  rc_deadline :: "int option"
  rc_args :: "string list"
  rc_argsSent :: bool
  rc_reqSent :: bool
  rc_halfClosed :: bool
  rc_replySent :: bool
  rc_finished :: bool
  rc_closed :: bool
  rc_terminal :: bool
  rc_cancelled :: bool
  rc_sending :: bool
  rc_recving :: bool

definition resp_call_closed :: go_error where "resp_call_closed = ErrVar ''resp: call closed''"
definition resp_send_finished :: go_error where "resp_send_finished = ErrVar ''resp: send already finished''"

definition new_call :: "string \<Rightarrow> string \<Rightarrow> bool \<Rightarrow> int option \<Rightarrow> rcall" where
  "new_call fullMethod cmd initiator parentDeadline =
     \<lparr>rc_method = fullMethod, rc_cmd = cmd, rc_initiator = initiator,
      rc_streaming = equal_fold cmd ''SUBSCRIBE'', rc_deadline = parentDeadline, rc_args = [],
      rc_argsSent = False, rc_reqSent = False, rc_halfClosed = False, rc_replySent = False,
      rc_finished = False, rc_closed = False, rc_terminal = False, rc_cancelled = False,
      rc_sending = False, rc_recving = False\<rparr>"

definition resp_send_headers :: "rcall \<Rightarrow> go_error option" where
  "resp_send_headers c =
     Some (status_error Unimplemented ''resp: SendHeaders unsupported (no metadata channel)'')"

section \<open>Receiving\<close>

text \<open>The entry of \<open>Recv\<close> and, for a client, of \<open>recvClient\<close>.\<close>

definition recv_start :: "rcall \<Rightarrow> go_error option \<times> rcall" where
  "recv_start c =
     (if rc_recving c then (Some (ErrNew ''resp: concurrent Recv''), c)
      else if rc_closed c then (Some resp_call_closed, c)
      else if rc_initiator c \<and> rc_terminal c then (Some err_EOF, c)
      else (None, c\<lparr>rc_recving := True\<rparr>))"

definition recv_server :: "rcall \<Rightarrow> (go_error + bytes) \<times> rcall" where
  "recv_server c =
     (if rc_argsSent c then (Inl err_EOF, c\<lparr>rc_recving := False\<rparr>)
      else (Inr (encode_args (rc_args c)), c\<lparr>rc_argsSent := True, rc_recving := False\<rparr>))"

text \<open>
  A client's read that failed: the call becomes terminal in one section, and only then, unless it was
  closed meanwhile, the session is marked bad, before the deferred end of \<open>Recv\<close>.
\<close>

definition recv_failed :: "go_error \<Rightarrow> rcall \<Rightarrow> (go_error \<times> bool) \<times> rcall" where
  "recv_failed e c =
     ((if rc_closed c then (resp_call_closed, False) else (e, True)),
      c\<lparr>rc_terminal := True\<rparr>)"

definition recv_end :: "rcall \<Rightarrow> rcall" where
  "recv_end c = c\<lparr>rc_recving := False\<rparr>"

definition recv_got :: "rvalue \<Rightarrow> rcall \<Rightarrow> (go_error + bytes) \<times> rcall" where
  "recv_got v c =
     (let c1 = recv_end (if rc_streaming c then c else c\<lparr>rc_terminal := True\<rparr>) in
      (if v_type v = CHR ''-'' then Inl (status_error Unknown (v_str v)) else Inr (marshal_value v), c1))"

definition resp_recv ::
  "sess_event list \<Rightarrow> rcall \<Rightarrow> rsession \<Rightarrow> (go_error + bytes) attempt \<times> rcall \<times> rsession" where
  "resp_recv evs c s =
     (case recv_start c of
        (Some e, c1) \<Rightarrow> (Ready (Inl e), c1, s)
      | (None, c1) \<Rightarrow>
          if rc_initiator c1 then
            case read_value evs s of
              (Waits, _, s1) \<Rightarrow> (Waits, c1, s1)
            | (Crash, _, s1) \<Rightarrow> (Crash, c1, s1)
            | (Ready (Inl e), _, s1) \<Rightarrow>
                (let ((err, bad), c2) = recv_failed e c1 in
                 (Ready (Inl err), recv_end c2, if bad then resp_mark_bad s1 else s1))
            | (Ready (Inr v), _, s1) \<Rightarrow> (let (r, c2) = recv_got v c1 in (Ready r, c2, s1))
          else (let (r, c2) = recv_server c1 in (Ready r, c2, s)))"

section \<open>Sending\<close>

definition send_start :: "rcall \<Rightarrow> go_error option \<times> rcall" where
  "send_start c =
     (if rc_sending c then (Some (ErrNew ''resp: concurrent Send''), c)
      else if rc_closed c then (Some resp_call_closed, c)
      else if rc_initiator c \<and> (rc_reqSent c \<or> rc_halfClosed c) then (Some resp_send_finished, c)
      else if \<not> rc_initiator c \<and> \<not> rc_streaming c \<and> (rc_replySent c \<or> rc_finished c) then
        (Some resp_send_finished, c)
      else if \<not> rc_initiator c \<and> rc_streaming c \<and> rc_finished c then (Some resp_send_finished, c)
      else (None, c\<lparr>rc_sending := True\<rparr>))"

text \<open>
  The bytes a client's \<open>Send\<close> writes, or the error of a payload that is no argument list; None is a
  panic of the parser.
\<close>

definition request_bytes :: "string \<Rightarrow> bytes \<Rightarrow> (go_error + bytes) option" where
  "request_bytes cmd payload =
     (case (if payload = [] then Some (Inr []) else decode_args payload) of
        None \<Rightarrow> None
      | Some (Inl e) \<Rightarrow> Some (Inl e)
      | Some (Inr args) \<Rightarrow> Some (Inr (encode_array (cmd # args))))"

definition send_mark :: "go_error option \<Rightarrow> rcall \<Rightarrow> rcall" where
  "send_mark err c =
     (let c1 = c\<lparr>rc_sending := False\<rparr> in
      if err \<noteq> None then c1
      else if rc_initiator c1 then c1\<lparr>rc_reqSent := True\<rparr>
      else c1\<lparr>rc_replySent := True\<rparr>)"

definition resp_send :: "bytes \<Rightarrow> rcall \<Rightarrow> rsession \<Rightarrow> go_error option attempt \<times> rcall \<times> rsession" where
  "resp_send payload c s =
     (case send_start c of
        (Some e, c1) \<Rightarrow> (Ready (Some e), c1, s)
      | (None, c1) \<Rightarrow>
          (case (if rc_initiator c1 then request_bytes (rc_cmd c1) payload else Some (Inr payload)) of
             None \<Rightarrow> (Crash, c1, s)
           | Some (Inl e) \<Rightarrow> (Ready (Some e), send_mark (Some e) c1, s)
           | Some (Inr b) \<Rightarrow>
               (let (err, s1) = write_raw b s in (Ready err, send_mark err c1, s1))))"

section \<open>Ending a call\<close>

definition resp_half_close :: "rcall \<Rightarrow> go_error option \<times> rcall" where
  "resp_half_close c =
     (if \<not> rc_initiator c then
        (Some (status_error Unimplemented ''resp: HalfClose unsupported for responder''), c)
      else if rc_closed c then (Some resp_call_closed, c)
      else (None, c\<lparr>rc_halfClosed := True\<rparr>))"

definition finish_text :: "go_error \<Rightarrow> string" where
  "finish_text err =
     (case errors_as_status err of
        Some (_, msg, _, _) \<Rightarrow> if msg \<noteq> [] then msg else err_text err
      | None \<Rightarrow> err_text err)"

definition resp_finish :: "go_error option \<Rightarrow> rcall \<Rightarrow> rsession \<Rightarrow> go_error option \<times> rcall \<times> rsession" where
  "resp_finish err c s =
     (if rc_initiator c then
        (Some (status_error Unimplemented ''resp: Finish unsupported for initiator''), c, s)
      else if rc_closed c then (Some resp_call_closed, c, s)
      else if rc_finished c then (Some resp_send_finished, c, s)
      else
        let sent = rc_replySent c; c1 = c\<lparr>rc_finished := True\<rparr> in
        if sent then (None, c1, s)
        else case err of
          None \<Rightarrow> (None, c1, s)
        | Some e \<Rightarrow>
            (case write_raw (encode_error (''ERR '' @ finish_text e)) s of
               (Some we, s1) \<Rightarrow> (Some we, c1, s1)
             | (None, s1) \<Rightarrow> (None, c1\<lparr>rc_replySent := True\<rparr>, s1)))"

text \<open>The section of \<open>Close\<close> under the call's lock; the session's slot is released after it.\<close>

definition close_mark :: "rcall \<Rightarrow> bool option \<times> rcall" where
  "close_mark c =
     (if rc_closed c then (None, c)
      else
        let c1 = c\<lparr>rc_closed := True\<rparr> in
        if rc_initiator c1 then
          if rc_streaming c1 then (Some True, c1\<lparr>rc_terminal := True, rc_cancelled := True\<rparr>)
          else (Some (\<not> rc_terminal c1), c1\<lparr>rc_cancelled := True\<rparr>)
        else (Some (rc_streaming c1 \<or> \<not> rc_replySent c1 \<and> \<not> rc_finished c1), c1\<lparr>rc_cancelled := True\<rparr>))"

definition resp_close :: "rcall \<Rightarrow> rsession \<Rightarrow> rcall \<times> rsession" where
  "resp_close c s =
     (case close_mark c of
        (None, c1) \<Rightarrow> (c1, s)
      | (Some poison, c1) \<Rightarrow> (c1, end_call poison s))"

definition shape_name :: "shape \<Rightarrow> string" where
  "shape_name s =
     (if s = Unary then ''Unary''
      else if s = ServerStreaming then ''ServerStreaming''
      else if s = ClientStreaming then ''ClientStreaming''
      else if s = BidiStreaming then ''BidiStreaming''
      else ''unknown'')"

definition resp_accept :: "rpc_method \<Rightarrow> rcall \<Rightarrow> go_error option" where
  "resp_accept m c =
     (let want = (if rc_streaming c then ServerStreaming else Unary) in
      if m_shape m \<noteq> want then
        Some (status_error Unimplemented
          (''resp: shape '' @ shape_name (m_shape m) @ '' unsupported (axis=resp); need '' @ shape_name want))
      else if m_fullName m \<noteq> rc_method c then Some (status_error Internal ''resp: Accept method mismatch'')
      else None)"

section \<open>Opening and accepting\<close>

text \<open>\<open>ctxErr\<close> is the error of a context that has already ended.\<close>

definition client_open_call :: "go_error option \<Rightarrow> int option \<Rightarrow> rpc_method \<Rightarrow> rsession
    \<Rightarrow> (go_error + rcall) \<times> rsession" where
  "client_open_call ctxErr deadline m s =
     (if method_is_zero m then (Inl (status_error InvalidArgument ''resp: zero Method''), s)
      else case ctxErr of
        Some e \<Rightarrow> (Inl e, s)
      | None \<Rightarrow>
          if rs_closed s \<or> \<not> rs_reusable s \<or> rs_exclusive s then
            (Inl (status_error Unavailable ''resp: session not reusable''), s)
          else if rs_busy s then (Inl err_conn_busy, s)
          else
            let s1 = s\<lparr>rs_busy := True\<rparr>;
                c = new_call (m_fullName m) (m_name m) True deadline
            in (Inr c, if rc_streaming c then mark_exclusive s1 else s1))"

definition known_command :: "string \<Rightarrow> bool" where
  "known_command cmd \<longleftrightarrow> cmd \<in> {''PING'', ''GET'', ''SET'', ''PUBLISH'', ''SUBSCRIBE''}"

definition method_full_name :: "string \<Rightarrow> string \<Rightarrow> string" where
  "method_full_name service cmd = service @ ''.'' @ cmd"

text \<open>What \<open>AcceptCall\<close> makes of a command: the call, and the error that comes with a rejected one.\<close>

definition accept_command :: "string \<Rightarrow> string \<Rightarrow> string list \<Rightarrow> rcall \<times> go_error option" where
  "accept_command service cmd args =
     (let cmdUp = to_upper cmd; full = method_full_name service cmdUp in
      if known_command cmdUp then ((new_call full cmdUp False None)\<lparr>rc_args := args\<rparr>, None)
      else
        let e = status_error Unimplemented (''unknown command '' @ [CHR 0x27] @ cmd @ [CHR 0x27]) in
        (new_call full cmdUp False None,
         Some (ErrWrap (err_text err_call_rejected @ '': '' @ err_text e) [err_call_rejected, e])))"

definition release_busy :: "rsession \<Rightarrow> rsession" where
  "release_busy s = s\<lparr>rs_busy := False\<rparr>"

definition resp_accept_call :: "sess_event list \<Rightarrow> rsession
    \<Rightarrow> (go_error + rcall \<times> go_error option) attempt \<times> rsession" where
  "resp_accept_call evs s =
     (if rs_closed s then (Ready (Inl err_EOF), s)
      else if rs_busy s then (Ready (Inl err_conn_busy), s)
      else
        case wait_first_byte evs (s\<lparr>rs_busy := True\<rparr>) of
          (Waits, _, s1) \<Rightarrow> (Waits, s1)
        | (Crash, _, s1) \<Rightarrow> (Crash, s1)
        | (Ready (Some e), _, s1) \<Rightarrow>
            (Ready (Inl (if errors_is e err_EOF then err_EOF else e)), release_busy s1)
        | (Ready None, es, s1) \<Rightarrow>
            (case read_value es s1 of
               (Waits, _, s2) \<Rightarrow> (Waits, s2)
             | (Crash, _, s2) \<Rightarrow> (Crash, s2)
             | (Ready (Inl e), _, s2) \<Rightarrow>
                 if errors_is e ctx_DeadlineExceeded then
                   (Ready (Inl (ErrNew ''resp: OpenTimeout exceeded'')), release_busy (resp_mark_bad s2))
                 else (Ready (Inl e), release_busy s2)
             | (Ready (Inr v), _, s2) \<Rightarrow>
                 (case command_from_value v of
                    Inl e \<Rightarrow> (Ready (Inl e), release_busy (resp_mark_bad s2))
                  | Inr (cmd, args) \<Rightarrow>
                      (let (c, err) = accept_command (rs_service s2) cmd args in
                       (Ready (Inr (c, err)),
                        if err = None \<and> rc_streaming c then mark_exclusive s2 else s2)))))"

end
