(* ===== verification/Resp_World.thy ===== *)
theory Resp_World
  imports Resp_Call
begin

text \<open>
  A RESP client connection and the server at its other end, with the bytes in flight between them.
  The client's calls run on several goroutines: every critical section of \<open>Send\<close>, \<open>Recv\<close> and
  \<open>Close\<close> is a step, in any order, and bytes arrive in pieces of any size. The server answers one
  command at a time.
\<close>

section \<open>The server answers a command\<close>

text \<open>
  \<open>AcceptCall\<close>, the handler and the end of the call, as the accept loop of the server runs them for
  a sequential connection. A parked accept leaves the connection as it was. A subscription is a long
  stream with a connection of its own and is not answered here.
\<close>

definition serve_handler :: "rcall \<Rightarrow> rsession \<Rightarrow> store \<Rightarrow> go_error option attempt \<times> rcall \<times> rsession \<times> store" where
  "serve_handler c s st =
     (case resp_handler (rc_cmd c) of
        None \<Rightarrow> (Waits, c, s, st)
      | Some h \<Rightarrow>
          (case resp_recv [] c s of
             (Ready (Inl e), c1, s1) \<Rightarrow> (Ready (Some e), c1, s1, st)
           | (Ready (Inr raw), c1, s1) \<Rightarrow>
               (let c2 = fst (snd (resp_recv [] c1 s1)) in
                case h raw st of
                  (HSend b, st1) \<Rightarrow>
                    (let (r, c3, s3) = resp_send b c2 s1 in (r, c3, s3, st1))
                | (HFail e, st1) \<Rightarrow> (Ready (Some e), c2, s1, st1)
                | (HPanic, st1) \<Rightarrow> (Crash, c2, s1, st1))
           | (Waits, c1, s1) \<Rightarrow> (Waits, c1, s1, st)
           | (Crash, c1, s1) \<Rightarrow> (Crash, c1, s1, st)))"

definition serve_one :: "rsession \<times> store \<Rightarrow> (rsession \<times> store) option" where
  "serve_one p =
     (let (s, st) = p in
      case resp_accept_call [] s of
        (Ready (Inr (c, Some e)), s1) \<Rightarrow>
          (let (_, c1, s2) = resp_finish (Some e) c s1 in Some (snd (resp_close c1 s2), st))
      | (Ready (Inr (c, None)), s1) \<Rightarrow>
          (case serve_handler c s1 st of
             (Ready err, c1, s2, st1) \<Rightarrow>
               (let (_, c2, s3) = resp_finish err c1 s2 in Some (snd (resp_close c2 s3), st1))
           | _ \<Rightarrow> None)
      | _ \<Rightarrow> None)"

text \<open>What the answer is meant to be: the reply to a command, and the store after it.\<close>

definition err_reply :: "string \<Rightarrow> rvalue" where
  "err_reply msg = scalar (CHR ''-'') (''ERR '' @ msg) 0"

definition command_reply :: "string list \<Rightarrow> store \<Rightarrow> rvalue \<times> store" where
  "command_reply ws st =
     (let cmd = to_upper (hd ws); args = tl ws in
      if cmd = ''PING'' then (scalar (CHR ''+'') ''PONG'' 0, st)
      else if cmd = ''GET'' then
        (case args of
           [key] \<Rightarrow>
             ((case store_get key st of
                 Some v \<Rightarrow> scalar (CHR ''$'') v 0
               | None \<Rightarrow> null_value (CHR ''$'')), st)
         | _ \<Rightarrow> (err_reply ''GET requires 1 arg'', st))
      else if cmd = ''SET'' then
        (case args of
           [key, v] \<Rightarrow> (scalar (CHR ''+'') ''OK'' 0, store_set key v st)
         | _ \<Rightarrow> (err_reply ''SET requires 2 args'', st))
      else if cmd = ''PUBLISH'' then
        (case args of
           [channel, payload] \<Rightarrow>
             (scalar (CHR '':'') [] (int (fst (store_publish channel payload st))),
              snd (store_publish channel payload st))
         | _ \<Rightarrow> (err_reply ''PUBLISH requires channel and message'', st))
      else (err_reply (''unknown command '' @ [CHR 0x27] @ hd ws @ [CHR 0x27]), st))"

fun run_commands :: "string list list \<Rightarrow> store \<Rightarrow> rvalue list \<times> store" where
  "run_commands [] st = ([], st)"
| "run_commands (ws # wss) st =
     (let (v, st1) = command_reply ws st; (vs, st2) = run_commands wss st1 in (v # vs, st2))"

section \<open>The steps of the client's goroutines\<close>

datatype recv_phase = RIdle | RReading | RHas rvalue | RError go_error | RMark
datatype send_phase = SIdle | SReady "string list" bytes | SWrote "go_error option"

record rslot =
  sl_call :: rcall
  sl_recv :: recv_phase
  sl_send :: send_phase
  sl_end :: "bool option"

text \<open>
  \<open>w_reqs\<close>, \<open>w_served\<close> and \<open>w_recv\<close> record the history: the requests written with the call that wrote
  them, how many of them were answered, and the replies with the call that took them.
\<close>

record rworld =
  w_client :: rsession
  w_slots :: "rslot list"
  w_server :: rsession
  w_store :: store
  w_reqs :: "(nat \<times> string list) list"
  w_served :: nat
  w_recv :: "(nat \<times> rvalue) list"

datatype world_step =
    EOpen "go_error option" rpc_method
  | ESend nat bytes
  | EWrite nat
  | ESent nat
  | ERecv nat
  | ERead nat
  | ECtx nat go_error
  | EGot nat
  | EFail nat
  | EMark nat
  | EClose nat
  | EEnd nat
  | EUp nat
  | EDown nat
  | EServe
  | EReadErr go_error
  | EWriteErr go_error

definition set_slot :: "nat \<Rightarrow> rslot \<Rightarrow> rworld \<Rightarrow> rworld" where
  "set_slot i sl w = w\<lparr>w_slots := (w_slots w)[i := sl]\<rparr>"

definition request_words :: "string \<Rightarrow> bytes \<Rightarrow> string list option" where
  "request_words cmd payload =
     (case (if payload = [] then Some (Inr []) else decode_args payload) of
        Some (Inr args) \<Rightarrow> Some (cmd # args)
      | _ \<Rightarrow> None)"

definition step_send :: "nat \<Rightarrow> bytes \<Rightarrow> rslot \<Rightarrow> rworld \<Rightarrow> rworld" where
  "step_send i payload sl w =
     (case send_start (sl_call sl) of
        (Some e, c) \<Rightarrow> w
      | (None, c) \<Rightarrow>
          (case request_words (rc_cmd c) payload of
             None \<Rightarrow> set_slot i (sl\<lparr>sl_call := c, sl_send := SWrote (Some err_need_more)\<rparr>) w
           | Some ws \<Rightarrow> set_slot i (sl\<lparr>sl_call := c, sl_send := SReady ws (encode_array ws)\<rparr>) w))"

definition step_write :: "nat \<Rightarrow> rslot \<Rightarrow> rworld \<Rightarrow> rworld" where
  "step_write i sl w =
     (case sl_send sl of
        SReady ws b \<Rightarrow>
          (let (err, s) = write_raw b (w_client w);
               w1 = set_slot i (sl\<lparr>sl_send := SWrote err\<rparr>) (w\<lparr>w_client := s\<rparr>)
           in if err = None then w1\<lparr>w_reqs := w_reqs w1 @ [(i, ws)]\<rparr> else w1)
      | _ \<Rightarrow> w)"

definition step_sent :: "nat \<Rightarrow> rslot \<Rightarrow> rworld \<Rightarrow> rworld" where
  "step_sent i sl w =
     (case sl_send sl of
        SWrote err \<Rightarrow> set_slot i (sl\<lparr>sl_call := send_mark err (sl_call sl), sl_send := SIdle\<rparr>) w
      | _ \<Rightarrow> w)"

definition step_recv :: "nat \<Rightarrow> rslot \<Rightarrow> rworld \<Rightarrow> rworld" where
  "step_recv i sl w =
     (case recv_start (sl_call sl) of
        (Some e, c) \<Rightarrow> w
      | (None, c) \<Rightarrow> set_slot i (sl\<lparr>sl_call := c, sl_recv := RReading\<rparr>) w)"

definition step_read :: "nat \<Rightarrow> rslot \<Rightarrow> rworld \<Rightarrow> rworld" where
  "step_read i sl w =
     (if sl_recv sl = RReading then
        case read_value_try (w_client w) of
          (Ready (Inr v), s) \<Rightarrow>
            (set_slot i (sl\<lparr>sl_recv := RHas v\<rparr>) (w\<lparr>w_client := s\<rparr>))\<lparr>w_recv := w_recv w @ [(i, v)]\<rparr>
        | (Ready (Inl e), s) \<Rightarrow> set_slot i (sl\<lparr>sl_recv := RError e\<rparr>) (w\<lparr>w_client := s\<rparr>)
        | _ \<Rightarrow> w
      else w)"

definition step_ctx :: "nat \<Rightarrow> go_error \<Rightarrow> rslot \<Rightarrow> rworld \<Rightarrow> rworld" where
  "step_ctx i e sl w =
     (if sl_recv sl = RReading \<and> fst (read_value_try (w_client w)) = Waits
      then set_slot i (sl\<lparr>sl_recv := RError e\<rparr>) w else w)"

definition step_got :: "nat \<Rightarrow> rslot \<Rightarrow> rworld \<Rightarrow> rworld" where
  "step_got i sl w =
     (case sl_recv sl of
        RHas v \<Rightarrow> set_slot i (sl\<lparr>sl_call := snd (recv_got v (sl_call sl)), sl_recv := RIdle\<rparr>) w
      | _ \<Rightarrow> w)"

definition step_fail :: "nat \<Rightarrow> rslot \<Rightarrow> rworld \<Rightarrow> rworld" where
  "step_fail i sl w =
     (case sl_recv sl of
        RError e \<Rightarrow>
          (let ((_, bad), c) = recv_failed e (sl_call sl) in
           if bad then set_slot i (sl\<lparr>sl_call := c, sl_recv := RMark\<rparr>) w
           else set_slot i (sl\<lparr>sl_call := recv_end c, sl_recv := RIdle\<rparr>) w)
      | _ \<Rightarrow> w)"

definition step_mark :: "nat \<Rightarrow> rslot \<Rightarrow> rworld \<Rightarrow> rworld" where
  "step_mark i sl w =
     (if sl_recv sl = RMark
      then set_slot i (sl\<lparr>sl_call := recv_end (sl_call sl), sl_recv := RIdle\<rparr>)
             (w\<lparr>w_client := resp_mark_bad (w_client w)\<rparr>)
      else w)"

definition step_close :: "nat \<Rightarrow> rslot \<Rightarrow> rworld \<Rightarrow> rworld" where
  "step_close i sl w =
     (case close_mark (sl_call sl) of
        (None, c) \<Rightarrow> w
      | (Some poison, c) \<Rightarrow> set_slot i (sl\<lparr>sl_call := c, sl_end := Some poison\<rparr>) w)"

definition step_end :: "nat \<Rightarrow> rslot \<Rightarrow> rworld \<Rightarrow> rworld" where
  "step_end i sl w =
     (case sl_end sl of
        None \<Rightarrow> w
      | Some poison \<Rightarrow> set_slot i (sl\<lparr>sl_end := None\<rparr>) (w\<lparr>w_client := end_call poison (w_client w)\<rparr>))"

definition step_open :: "go_error option \<Rightarrow> rpc_method \<Rightarrow> rworld \<Rightarrow> rworld" where
  "step_open ctxErr m w =
     (case client_open_call ctxErr None m (w_client w) of
        (Inl e, s) \<Rightarrow> w
      | (Inr c, s) \<Rightarrow>
          w\<lparr>w_client := s,
            w_slots := w_slots w @ [\<lparr>sl_call = c, sl_recv = RIdle, sl_send = SIdle, sl_end = None\<rparr>]\<rparr>)"

definition step_up :: "nat \<Rightarrow> rworld \<Rightarrow> rworld" where
  "step_up k w =
     w\<lparr>w_server := read_loop_step (take k (rs_out (w_client w))) None (w_server w),
       w_client := (w_client w)\<lparr>rs_out := drop k (rs_out (w_client w))\<rparr>\<rparr>"

text \<open>Nothing is read after the read loop has ended.\<close>

definition step_down :: "nat \<Rightarrow> rworld \<Rightarrow> rworld" where
  "step_down k w =
     (if rs_readErr (w_client w) \<noteq> None then w
      else
        w\<lparr>w_client := read_loop_step (take k (rs_out (w_server w))) None (w_client w),
          w_server := (w_server w)\<lparr>rs_out := drop k (rs_out (w_server w))\<rparr>\<rparr>)"

definition step_serve :: "rworld \<Rightarrow> rworld" where
  "step_serve w =
     (case serve_one (w_server w, w_store w) of
        None \<Rightarrow> w
      | Some (s, st) \<Rightarrow> w\<lparr>w_server := s, w_store := st, w_served := Suc (w_served w)\<rparr>)"

definition with_slot :: "(nat \<Rightarrow> rslot \<Rightarrow> rworld \<Rightarrow> rworld) \<Rightarrow> nat \<Rightarrow> rworld \<Rightarrow> rworld" where
  "with_slot f i w = (if i < length (w_slots w) then f i (w_slots w ! i) w else w)"

definition world_do :: "world_step \<Rightarrow> rworld \<Rightarrow> rworld" where
  "world_do e w =
     (case e of
        EOpen ctxErr m \<Rightarrow> step_open ctxErr m w
      | ESend i p \<Rightarrow> with_slot (\<lambda>i. step_send i p) i w
      | EWrite i \<Rightarrow> with_slot step_write i w
      | ESent i \<Rightarrow> with_slot step_sent i w
      | ERecv i \<Rightarrow> with_slot step_recv i w
      | ERead i \<Rightarrow> with_slot step_read i w
      | ECtx i e \<Rightarrow> with_slot (\<lambda>i. step_ctx i e) i w
      | EGot i \<Rightarrow> with_slot step_got i w
      | EFail i \<Rightarrow> with_slot step_fail i w
      | EMark i \<Rightarrow> with_slot step_mark i w
      | EClose i \<Rightarrow> with_slot step_close i w
      | EEnd i \<Rightarrow> with_slot step_end i w
      | EUp k \<Rightarrow> step_up k w
      | EDown k \<Rightarrow> step_down k w
      | EServe \<Rightarrow> step_serve w
      | EReadErr e \<Rightarrow> w\<lparr>w_client := read_loop_step [] (Some e) (w_client w)\<rparr>
      | EWriteErr e \<Rightarrow> w\<lparr>w_client := (w_client w)\<lparr>rs_writeErr := Some e\<rparr>\<rparr>)"

definition new_world :: rworld where
  "new_world =
     \<lparr>w_client = new_session resp_service [] 10000000000, w_slots = [],
      w_server = new_session resp_service [] 10000000000, w_store = new_store,
      w_reqs = [], w_served = 0, w_recv = []\<rparr>"

end
