(* ===== verification/Resp_Pairing.thy ===== *)
theory Resp_Pairing
  imports Resp_World
begin

text \<open>
  Every reply reaches the call that asked for it. First the server's composed answer to one command is
  shown to be what \<open>command_reply\<close> says; then the invariant of the world, in two parts: the bytes
  between the two ends are the encodings of what is outstanding, and only the latest call can have
  anything outstanding.
\<close>

section \<open>One answer\<close>

text \<open>A request of up to 2^40 bytes: the sums of lengths stay far from the end of an \<open>int\<close>.\<close>

definition request_cap :: int where "request_cap = 2 ^ 40"

definition req_ok :: "string list \<Rightarrow> bool" where
  "req_ok ws \<longleftrightarrow> ws \<noteq> [] \<and> no_crlf (hd ws) \<and> \<not> equal_fold (hd ws) ''SUBSCRIBE''
     \<and> int (length (encode_array ws)) \<le> request_cap"

definition store_small :: "store \<Rightarrow> bool" where
  "store_small st \<longleftrightarrow> st_subs st = [] \<and> list_all (\<lambda>v. int (length v) \<le> request_cap) (map snd (st_data st))"

lemma bulk_le_array: "w \<in> set ws \<Longrightarrow> length w \<le> length (concat (map encode_bulk ws))"
  by (induction ws) (auto simp: encode_bulk_def)

lemma words_le_array: "length ws \<le> length (concat (map encode_bulk ws))"
  by (induction ws) (auto simp: encode_bulk_def)

lemma array_bounds:
  "w \<in> set ws \<Longrightarrow> length w \<le> length (encode_array ws)" "length ws \<le> length (encode_array ws)"
  using bulk_le_array [of w ws] words_le_array [of ws] by (auto simp: encode_array_def)

lemma req_args_ok: "req_ok ws \<Longrightarrow> args_ok ws"
  using array_bounds(2) [of ws]
  by (auto simp: req_ok_def args_ok_def request_cap_def max_values_def list_all_iff dest: array_bounds(1))

lemma args_ok_tl: "args_ok ws \<Longrightarrow> args_ok (tl ws)"
  by (cases ws) (auto simp: args_ok_def)

lemma no_crlf_snoc: "no_crlf a \<Longrightarrow> x \<noteq> lf_c \<Longrightarrow> no_crlf (x # b) \<Longrightarrow> no_crlf (a @ x # b)"
proof (induction a)
  case (Cons y a)
  then show ?case by (cases a) (auto simp: no_crlf_Cons)
qed simp

lemma no_crlf_prefix: "cr_c \<notin> set a \<Longrightarrow> no_crlf (a @ b) = no_crlf b"
  by (induction a) (auto simp: no_crlf_Cons)

lemma unknown_no_crlf:
  assumes "no_crlf cmd"
  shows "no_crlf (''ERR unknown command '' @ [CHR 0x27] @ cmd @ [CHR 0x27])"
proof -
  have "no_crlf (cmd @ [CHR 0x27])"
    using assms by (intro no_crlf_snoc) (simp_all add: no_crlf_Cons lf_c_def char_of_def)
  moreover have "cr_c \<notin> set (''ERR unknown command '' @ [CHR 0x27])" by (simp add: cr_c_def char_of_def)
  ultimately show ?thesis using no_crlf_prefix [of "''ERR unknown command '' @ [CHR 0x27]" "cmd @ [CHR 0x27]"] by simp
qed

lemma store_get_small: "store_small st \<Longrightarrow> store_get k st = Some v \<Longrightarrow> int (length v) \<le> request_cap"
  by (auto simp: store_small_def store_get_def list_all_iff dest!: map_of_SomeD)

lemma alist_put_small:
  "list_all P (map snd xs) \<Longrightarrow> P v \<Longrightarrow> list_all P (map snd (alist_put k v xs))"
  unfolding alist_put_def by (intro alist_upd_all) auto

definition reply_ok :: "rvalue \<Rightarrow> bool" where
  "reply_ok v \<longleftrightarrow> wf_value v \<and> in_memory (marshal_value v)"

lemma error_reply_ok:
  "no_crlf (''ERR '' @ msg) \<Longrightarrow> int (length msg) \<le> 100 + request_cap \<Longrightarrow> reply_ok (err_reply msg)"
  by (simp add: reply_ok_def err_reply_def scalar_def encode_error_def in_memory_def request_cap_def)

lemma bulk_reply_ok: "int (length v) \<le> request_cap \<Longrightarrow> reply_ok (scalar (CHR ''$'') v 0)"
  using itoa_len [of "int (length v)"]
  by (simp add: reply_ok_def scalar_def encode_bulk_def in_memory_def request_cap_def)

lemma fixed_replies_ok:
  "reply_ok (scalar (CHR ''+'') ''PONG'' 0)" "reply_ok (scalar (CHR ''+'') ''OK'' 0)"
  "reply_ok (null_value (CHR ''$''))" "reply_ok (scalar (CHR '':'') [] 0)"
  "reply_ok (err_reply ''GET requires 1 arg'')" "reply_ok (err_reply ''SET requires 2 args'')"
  "reply_ok (err_reply ''PUBLISH requires channel and message'')"
  by code_simp+

lemma publish_nobody: "st_subs st = [] \<Longrightarrow> store_publish c p st = (0, st)"
  by (simp add: store_publish_def publish_targets_def)

lemma command_reply_ok:
  assumes "req_ok ws" "store_small st"
  shows "reply_ok (fst (command_reply ws st)) \<and> store_small (snd (command_reply ws st))"
proof -
  have small: "int (length w) \<le> request_cap" if "w \<in> set ws" for w
    using assms(1) array_bounds(1) [OF that] by (simp add: req_ok_def)
  have v: "v \<in> set ws" if "tl ws = [k, v]" for k v using that by (cases ws) auto
  have "hd ws \<in> set ws" using assms(1) by (simp add: req_ok_def)
  with small have "int (length (hd ws)) \<le> request_cap" by blast
  then have unk: "reply_ok (err_reply (''unknown command '' @ [CHR 0x27] @ hd ws @ [CHR 0x27]))"
    using assms(1) unknown_no_crlf [of "hd ws"] by (intro error_reply_ok) (simp_all add: req_ok_def)
  have get: "reply_ok (case store_get k st of None \<Rightarrow> null_value (CHR ''$'') | Some v \<Rightarrow> scalar (CHR ''$'') v 0)" for k
    using store_get_small [OF assms(2)] by (auto simp: fixed_replies_ok intro: bulk_reply_ok split: option.split)
  have set: "store_small (store_set k v' st)" if "tl ws = [k, v']" for k v'
    using assms(2) small [OF v [OF that]] by (simp add: store_small_def store_set_def alist_put_small)
  have pub: "store_publish c p st = (0, st)" for c p
    using assms(2) by (simp add: publish_nobody store_small_def)
  show ?thesis
    unfolding command_reply_def Let_def
    by (simp add: fixed_replies_ok pub unk get set assms(2) del: append_Cons split: list.split)
qed

lemma lower_upper: "to_lower (to_upper w) = to_lower w"
  by (induction w) (auto simp: to_lower_def to_upper_def lower_char_def upper_char_def is_lower_def is_upper_def)

lemma fold_upper: "equal_fold (to_upper w) x = equal_fold w x"
  by (simp add: equal_fold_def lower_upper)

lemma upper_subscribe: "to_upper w = ''SUBSCRIBE'' \<Longrightarrow> equal_fold w ''SUBSCRIBE''"
  by (metis fold_upper equal_fold_def)

definition idle_server :: "rsession \<Rightarrow> bool" where
  "idle_server s \<longleftrightarrow>
     \<not> rs_closed s \<and> \<not> rs_busy s \<and> rs_reusable s \<and> \<not> rs_exclusive s
     \<and> rs_readErr s = None \<and> rs_writeErr s = None"

lemma read_value_got:
  "rs_readBuf s \<noteq> [] \<Longrightarrow> parse_value (rs_readBuf s) = Got v n \<Longrightarrow>
    read_value evs s = (Ready (Inr v), evs, s\<lparr>rs_readBuf := drop n (rs_readBuf s)\<rparr>)"
  by (simp add: read_value.simps read_value_try_def)

lemma read_value_wait:
  "\<not> rs_closed s \<Longrightarrow> rs_readErr s = None \<Longrightarrow> parse_value (rs_readBuf s) = NeedMore \<Longrightarrow>
    read_value_try s = (Waits, s)"
  by (simp add: read_value_try_def)

lemma encode_array_Cons: "encode_array ws = CHR ''*'' # tl (encode_array ws)"
  by (simp add: encode_array_def)

lemma accept_call_got:
  assumes "idle_server s" "args_ok (cmd # args)" "rs_readBuf s = encode_array (cmd # args) @ r"
    "\<not> equal_fold cmd ''SUBSCRIBE''"
  shows "resp_accept_call [] s =
    (Ready (Inr (accept_command (rs_service s) cmd args)), s\<lparr>rs_busy := True, rs_readBuf := r\<rparr>)"
proof -
  let ?s = "s\<lparr>rs_busy := True\<rparr>"
  have ne: "rs_readBuf s \<noteq> []" using assms(3) by (simp add: encode_array_def)
  have w: "wait_first_byte [] ?s = (Ready None, [], ?s)"
    using ne by (simp add: wait_first_byte.simps wait_first_byte_try_def)
  have r: "read_value [] ?s = (Ready (Inr (RValue (CHR ''*'') [] 0
      (map (\<lambda>w. scalar (CHR ''$'') w 0) (cmd # args)) False)), [], ?s\<lparr>rs_readBuf := r\<rparr>)"
    using ne parse_encode_array [OF assms(2), of r] by (simp add: read_value_got assms(3))
  obtain c e where c: "accept_command (rs_service s) cmd args = (c, e)" by (cases "accept_command (rs_service s) cmd args")
  have "rc_streaming c = equal_fold (to_upper cmd) ''SUBSCRIBE''"
    using c by (auto simp: accept_command_def Let_def new_call_def split: if_splits)
  then have "\<not> rc_streaming c" using assms(4) by (simp add: fold_upper)
  with assms(1) w r c show ?thesis
    by (simp add: resp_accept_call_def idle_server_def command_of_array del: list.map)
qed

lemma accept_call_wait:
  assumes "idle_server s" "parse_value (rs_readBuf s) = NeedMore"
  shows "fst (resp_accept_call [] s) = Waits"
  using assms
  by (auto simp: resp_accept_call_def idle_server_def wait_first_byte.simps wait_first_byte_try_def
      read_value.simps read_value_wait)

definition answered :: "bytes \<Rightarrow> bytes \<Rightarrow> rsession \<Rightarrow> rsession" where
  "answered r reply s = s\<lparr>rs_readBuf := r, rs_out := rs_out s @ reply\<rparr>"

text \<open>A handler's success, or its failure, turned into the bytes of the reply.\<close>

definition handler_reply :: "handler_out \<Rightarrow> bytes option" where
  "handler_reply h =
     (case h of
        HSend b \<Rightarrow> Some b
      | HFail e \<Rightarrow> Some (encode_error (''ERR '' @ finish_text e))
      | HPanic \<Rightarrow> None)"

lemma serve_known:
  assumes "idle_server s" "args_ok (cmd # args)" "rs_readBuf s = encode_array (cmd # args) @ r"
    "\<not> equal_fold cmd ''SUBSCRIBE''" "resp_handler (to_upper cmd) = Some h"
    "h (encode_args args) st = (out, st')" "handler_reply out = Some reply"
  shows "serve_one (s, st) = Some (answered r reply s, st')"
proof -
  have k: "known_command (to_upper cmd)"
    using assms(5) by (auto simp: known_command_def resp_handler_def split: if_splits)
  have st: "\<not> equal_fold (to_upper cmd) ''SUBSCRIBE''" using assms(4) by (simp add: fold_upper)
  show ?thesis
  proof (cases out)
    case (HSend b)
    with assms k st show ?thesis
      by (simp add: serve_one_def accept_call_got accept_command_def Let_def serve_handler_def new_call_def
          resp_recv_def recv_start_def recv_server_def resp_send_def send_start_def write_raw_def send_mark_def
          resp_finish_def resp_close_def close_mark_def end_call_def idle_server_def handler_reply_def answered_def)
  next
    case (HFail e)
    with assms k st show ?thesis
      by (simp add: serve_one_def accept_call_got accept_command_def Let_def serve_handler_def new_call_def
          resp_recv_def recv_start_def recv_server_def write_raw_def
          resp_finish_def resp_close_def close_mark_def end_call_def idle_server_def handler_reply_def answered_def)
  next
    case HPanic
    with assms(7) show ?thesis by (simp add: handler_reply_def)
  qed
qed

lemma finish_text_status: "msg \<noteq> [] \<Longrightarrow> finish_text (status_error c msg) = msg"
  by (simp add: finish_text_def status_error_def)

lemma finish_text_rejected:
  "msg \<noteq> [] \<Longrightarrow> finish_text (ErrWrap t [err_call_rejected, status_error c msg]) = msg"
  by (simp add: finish_text_def status_error_def err_call_rejected_def errors_as_status_def first_some_append)

lemma serve_unknown:
  assumes "idle_server s" "args_ok (cmd # args)" "rs_readBuf s = encode_array (cmd # args) @ r"
    "\<not> equal_fold cmd ''SUBSCRIBE''" "\<not> known_command (to_upper cmd)"
  shows "serve_one (s, st) =
    Some (answered r (encode_error (''ERR unknown command '' @ [CHR 0x27] @ cmd @ [CHR 0x27])) s, st)"
proof -
  have st: "\<not> equal_fold (to_upper cmd) ''SUBSCRIBE''" using assms(4) by (simp add: fold_upper)
  show ?thesis
    using assms st
    by (simp add: serve_one_def accept_call_got accept_command_def Let_def new_call_def write_raw_def
        resp_finish_def resp_close_def close_mark_def end_call_def idle_server_def answered_def
        finish_text_rejected)
qed

lemma marshal_err_reply: "marshal_value (err_reply msg) = encode_error (''ERR '' @ msg)"
  by (simp add: err_reply_def scalar_def)

lemma marshal_scalars:
  "marshal_value (scalar (CHR ''+'') w 0) = encode_simple w"
  "marshal_value (scalar (CHR ''$'') w 0) = encode_bulk w"
  "marshal_value (null_value (CHR ''$'')) = encode_bulk_null"
  "marshal_value (scalar (CHR '':'') [] i) = CHR '':'' # itoa i @ crlf"
  by (simp_all add: scalar_def null_value_def)

lemma serve_answers:
  assumes "idle_server s" "req_ok ws" "rs_readBuf s = encode_array ws @ r"
  shows "serve_one (s, st) = Some (answered r (marshal_value (fst (command_reply ws st))) s, snd (command_reply ws st))"
proof -
  obtain cmd args where ws: "ws = cmd # args" using assms(2) by (cases ws) (auto simp: req_ok_def)
  have ok: "args_ok (cmd # args)" "args_ok args" "\<not> equal_fold cmd ''SUBSCRIBE''"
    using req_args_ok [OF assms(2)] args_ok_tl [of ws] assms(2) by (simp_all add: ws req_ok_def)
  note dec = decode_encode_args [OF ok(2)]
  note buf = assms(3) [unfolded ws]
  note go = serve_known [OF assms(1) ok(1) buf ok(3)]
  consider "to_upper cmd = ''PING''" | "to_upper cmd = ''GET''" | "to_upper cmd = ''SET''"
    | "to_upper cmd = ''PUBLISH''" | "to_upper cmd \<notin> {''PING'', ''GET'', ''SET'', ''PUBLISH''}" by blast
  then show ?thesis
  proof cases
    case 1
    have "serve_one (s, st) = Some (answered r (encode_simple ''PONG'') s, st)"
      by (rule go [where h = handle_ping and out = "HSend (encode_simple ''PONG'')"])
        (simp_all add: 1 resp_handler_def handle_ping_def handler_reply_def)
    with 1 show ?thesis by (simp add: ws command_reply_def marshal_scalars)
  next
    case 2
    have "serve_one (s, st) = Some (answered r (marshal_value (fst (command_reply ws st))) s, snd (command_reply ws st))"
      by (rule go [of handle_get _ "fst (handle_get (encode_args args) st)"])
        (auto simp: 2 resp_handler_def handle_get_def handler_reply_def with_args_def dec ws command_reply_def
          marshal_scalars marshal_err_reply finish_text_status split: list.split option.split)
    then show ?thesis .
  next
    case 3
    have "serve_one (s, st) = Some (answered r (marshal_value (fst (command_reply ws st))) s, snd (command_reply ws st))"
      by (rule go [of handle_set _ "fst (handle_set (encode_args args) st)"])
        (auto simp: 3 resp_handler_def handle_set_def handler_reply_def with_args_def dec ws command_reply_def
          marshal_scalars marshal_err_reply finish_text_status split: list.split option.split)
    then show ?thesis .
  next
    case 4
    have "serve_one (s, st) = Some (answered r (marshal_value (fst (command_reply ws st))) s, snd (command_reply ws st))"
      by (rule go [of handle_publish _ "fst (handle_publish (encode_args args) st)"])
        (auto simp: 4 resp_handler_def handle_publish_def handler_reply_def with_args_def dec ws command_reply_def
          marshal_scalars marshal_err_reply finish_text_status Let_def split: list.split option.split prod.split)
    then show ?thesis .
  next
    case 5
    then have "\<not> known_command (to_upper cmd)" using ok(3) upper_subscribe [of cmd] by (auto simp: known_command_def)
    from serve_unknown [OF assms(1) ok(1) buf ok(3) this] 5 show ?thesis
      by (simp add: ws command_reply_def marshal_err_reply)
  qed
qed

lemma serve_waits:
  assumes "idle_server s" "parse_value (rs_readBuf s) = NeedMore"
  shows "serve_one (s, st) = None"
  using accept_call_wait [OF assms] by (simp add: serve_one_def split: prod.split) (cases "resp_accept_call [] s"; simp)

section \<open>The bytes in flight\<close>

text \<open>
  Of the requests \<open>reqs\<close> written so far the first \<open>k\<close> were answered and the first \<open>length got\<close>
  answers were taken: the bytes towards the server encode the other requests, the bytes towards the
  client the other answers.
\<close>

definition bytes_ok :: "bytes \<Rightarrow> bytes \<Rightarrow> store \<Rightarrow> string list list \<Rightarrow> nat \<Rightarrow> rvalue list \<Rightarrow> bool" where
  "bytes_ok up down st reqs k got \<longleftrightarrow>
     list_all req_ok reqs \<and> length got \<le> k \<and> k \<le> length reqs
     \<and> up = concat (map encode_array (drop k reqs))
     \<and> down = concat (map marshal_value (drop (length got) (fst (run_commands (take k reqs) new_store))))
     \<and> st = snd (run_commands (take k reqs) new_store)
     \<and> got = take (length got) (fst (run_commands (take k reqs) new_store))"

definition bytes_inv :: "rworld \<Rightarrow> bool" where
  "bytes_inv w \<longleftrightarrow>
     idle_server (w_server w)
     \<and> bytes_ok (rs_readBuf (w_server w) @ rs_out (w_client w))
                (rs_readBuf (w_client w) @ rs_out (w_server w))
                (w_store w) (map snd (w_reqs w)) (w_served w) (map snd (w_recv w))"

lemma run_commands_Cons:
  "run_commands (ws # wss) st =
     (fst (command_reply ws st) # fst (run_commands wss (snd (command_reply ws st))),
      snd (run_commands wss (snd (command_reply ws st))))"
  by (simp add: Let_def split: prod.split)

declare run_commands.simps(2) [simp del]

lemma run_commands_append:
  "run_commands (xs @ ys) st =
     (fst (run_commands xs st) @ fst (run_commands ys (snd (run_commands xs st))),
      snd (run_commands ys (snd (run_commands xs st))))"
  by (induction xs arbitrary: st) (simp_all add: run_commands_Cons)

lemma run_commands_length [simp]: "length (fst (run_commands wss st)) = length wss"
  by (induction wss arbitrary: st) (simp_all add: run_commands_Cons)

lemma store_small_new: "store_small new_store"
  by (simp add: store_small_def new_store_def)

lemma run_commands_ok:
  "list_all req_ok wss \<Longrightarrow> store_small st \<Longrightarrow>
    list_all reply_ok (fst (run_commands wss st)) \<and> store_small (snd (run_commands wss st))"
proof (induction wss arbitrary: st)
  case (Cons ws wss)
  then show ?case using command_reply_ok [of ws st] by (simp add: run_commands_Cons)
qed simp

lemma bytes_write:
  "bytes_ok up down st reqs k got \<Longrightarrow> req_ok ws \<Longrightarrow>
    bytes_ok (up @ encode_array ws) down st (reqs @ [ws]) k got"
  by (auto simp: bytes_ok_def)

lemma encode_req_wf:
  assumes "req_ok ws"
  shows "wf_value (RValue (CHR ''*'') [] 0 (map (\<lambda>w. scalar (CHR ''$'') w 0) ws) False)"
    and "in_memory (marshal_value (RValue (CHR ''*'') [] 0 (map (\<lambda>w. scalar (CHR ''$'') w 0) ws) False))"
proof -
  show "wf_value (RValue (CHR ''*'') [] 0 (map (\<lambda>w. scalar (CHR ''$'') w 0) ws) False)"
    by (rule args_wf [OF req_args_ok [OF assms]])
  show "in_memory (marshal_value (RValue (CHR ''*'') [] 0 (map (\<lambda>w. scalar (CHR ''$'') w 0) ws) False))"
    using assms by (simp add: encode_array_value [symmetric] in_memory_def req_ok_def request_cap_def
        del: marshal_value.simps)
qed

lemma server_sees:
  assumes "bytes_ok (buf @ out) down st reqs k got"
  shows "parse_value buf = NeedMore
    \<or> (k < length reqs \<and> (\<exists>r. buf = encode_array (reqs ! k) @ r))"
proof (cases "k < length reqs")
  case True
  then have e: "buf @ out = encode_array (reqs ! k) @ concat (map encode_array (drop (Suc k) reqs))"
    using assms by (simp add: bytes_ok_def Cons_nth_drop_Suc [symmetric])
  have ok: "req_ok (reqs ! k)" using assms True by (auto simp: bytes_ok_def list_all_length)
  show ?thesis
  proof (cases "length buf < length (encode_array (reqs ! k))")
    case less: True
    with next_value [OF encode_req_wf [OF ok], of buf out] e show ?thesis
      by (simp add: encode_array_value [symmetric] del: marshal_value.simps)
  next
    case False
    with prefix_cut [OF e] True show ?thesis by auto
  qed
next
  case False
  with assms show ?thesis by (simp add: bytes_ok_def)
qed

lemma bytes_serve:
  assumes "bytes_ok (encode_array (reqs ! k) @ up) down st reqs k got" "k < length reqs"
  shows "bytes_ok up (down @ marshal_value (fst (command_reply (reqs ! k) st)))
    (snd (command_reply (reqs ! k) st)) reqs (Suc k) got"
proof -
  let ?v = "command_reply (reqs ! k) st"
  have t: "take (Suc k) reqs = take k reqs @ [reqs ! k]" by (rule take_Suc_conv_app_nth [OF assms(2)])
  have st: "st = snd (run_commands (take k reqs) new_store)" using assms(1) by (simp add: bytes_ok_def)
  have r: "run_commands (take (Suc k) reqs) new_store = (fst (run_commands (take k reqs) new_store) @ [fst ?v], snd ?v)"
    unfolding t run_commands_append st [symmetric] by (simp add: run_commands_Cons)
  have "up = concat (map encode_array (drop (Suc k) reqs))"
    using assms by (simp add: bytes_ok_def Cons_nth_drop_Suc [symmetric])
  with assms r show ?thesis by (simp add: bytes_ok_def)
qed

lemma client_sees:
  assumes "bytes_ok up (buf @ out) st reqs k got" "buf \<noteq> []"
  shows "parse_value buf = NeedMore
    \<or> (length got < k \<and> parse_value buf = Got (fst (run_commands (take k reqs) new_store) ! length got)
          (length (marshal_value (fst (run_commands (take k reqs) new_store) ! length got)))
       \<and> length (marshal_value (fst (run_commands (take k reqs) new_store) ! length got)) \<le> length buf)"
proof -
  let ?vs = "fst (run_commands (take k reqs) new_store)"
  have len: "length ?vs = k" using assms(1) by (simp add: bytes_ok_def)
  have "length got < k" using assms len by (auto simp: bytes_ok_def le_less)
  then have e: "buf @ out = marshal_value (?vs ! length got) @ concat (map marshal_value (drop (Suc (length got)) ?vs))"
    using assms(1) len by (simp add: bytes_ok_def Cons_nth_drop_Suc [symmetric])
  have "list_all reply_ok ?vs"
    using assms(1) run_commands_ok [of "take k reqs" new_store] store_small_new
    by (auto simp: bytes_ok_def list_all_iff dest: in_set_takeD)
  then have "reply_ok (?vs ! length got)" using \<open>length got < k\<close> len by (simp add: list_all_length)
  with next_value [OF _ _ e] \<open>length got < k\<close> show ?thesis by (auto simp: reply_ok_def)
qed

lemma bytes_read:
  assumes "bytes_ok up down st reqs k got" "length got < k"
  shows "bytes_ok up (drop (length (marshal_value (fst (run_commands (take k reqs) new_store) ! length got))) down)
    st reqs k (got @ [fst (run_commands (take k reqs) new_store) ! length got])"
proof -
  let ?vs = "fst (run_commands (take k reqs) new_store)"
  have len: "length got < length ?vs" using assms by (simp add: bytes_ok_def)
  have "down = marshal_value (?vs ! length got) @ concat (map marshal_value (drop (Suc (length got)) ?vs))"
    using assms(1) len by (simp add: bytes_ok_def Cons_nth_drop_Suc [symmetric])
  then have "drop (length (marshal_value (?vs ! length got))) down
      = concat (map marshal_value (drop (Suc (length got)) ?vs))"
    by simp
  moreover have "got @ [?vs ! length got] = take (Suc (length got)) ?vs"
    using assms(1) take_Suc_conv_app_nth [OF len] by (simp add: bytes_ok_def)
  ultimately show ?thesis using assms by (auto simp: bytes_ok_def)
qed

end
