(* ===== verification/Resp_Match.thy ===== *)
theory Resp_Match
  imports Resp_Pairing
begin

text \<open>
  Which call can take a reply. The one schedule that breaks the match is a \<open>Close\<close> that falls
  between the two sections a failed \<open>Recv\<close> ends with, when the call is already terminal and the session not
  yet marked bad; every other schedule keeps the invariant below.
\<close>

section \<open>Schedules\<close>

definition allowed :: "world_step \<Rightarrow> rworld \<Rightarrow> bool" where
  "allowed e w =
     (case e of
        EOpen ctxErr m \<Rightarrow> no_crlf (m_name m) \<and> \<not> equal_fold (m_name m) ''SUBSCRIBE''
      | ESend i p \<Rightarrow>
          i < length (w_slots w) \<longrightarrow>
            (case request_words (rc_cmd (sl_call (w_slots w ! i))) p of
               None \<Rightarrow> True
             | Some ws \<Rightarrow> int (length (encode_array ws)) \<le> request_cap)
      | EClose i \<Rightarrow> i < length (w_slots w) \<longrightarrow> sl_recv (w_slots w ! i) \<noteq> RMark
      | _ \<Rightarrow> True)"

fun calm :: "world_step list \<Rightarrow> rworld \<Rightarrow> bool" where
  "calm [] w = True"
| "calm (e # es) w = (allowed e w \<and> calm es (world_do e w))"

section \<open>Only the latest call has anything outstanding\<close>

definition call_ok :: "rcall \<Rightarrow> bool" where
  "call_ok c \<longleftrightarrow> rc_initiator c \<and> \<not> rc_streaming c \<and> no_crlf (rc_cmd c)
     \<and> \<not> equal_fold (rc_cmd c) ''SUBSCRIBE''"

fun is_ready :: "send_phase \<Rightarrow> bool" where
  "is_ready (SReady ws b) = True"
| "is_ready _ = False"

definition send_pending :: "rslot \<Rightarrow> bool" where
  "send_pending sl \<longleftrightarrow> is_ready (sl_send sl)"

fun pending_ok :: "send_phase \<Rightarrow> bool" where
  "pending_ok (SReady ws b) = (b = encode_array ws \<and> req_ok ws)"
| "pending_ok _ = True"

definition old_ok :: "rslot \<Rightarrow> bool" where
  "old_ok sl \<longleftrightarrow> rc_closed (sl_call sl) \<and> sl_recv sl = RIdle \<and> \<not> send_pending sl \<and> sl_end sl = None"

definition send_ok :: "bool \<Rightarrow> rslot \<Rightarrow> bool" where
  "send_ok wr sl \<longleftrightarrow>
     (sl_send sl \<noteq> SIdle \<longrightarrow> rc_sending (sl_call sl))
     \<and> (wr \<longrightarrow> \<not> send_pending sl \<and> (rc_reqSent (sl_call sl) \<or> sl_send sl = SWrote None))
     \<and> pending_ok (sl_send sl)"

fun phase_ok :: "bool \<Rightarrow> bool \<Rightarrow> recv_phase \<Rightarrow> bool" where
  "phase_ok t gt RIdle = (gt \<longrightarrow> t)"
| "phase_ok t gt RReading = (\<not> t \<and> \<not> gt)"
| "phase_ok t gt (RHas v) = (\<not> t \<and> gt)"
| "phase_ok t gt (RError e) = (\<not> t \<and> \<not> gt)"
| "phase_ok t gt RMark = (t \<and> \<not> gt)"

definition recv_ok :: "bool \<Rightarrow> rslot \<Rightarrow> bool" where
  "recv_ok gt sl \<longleftrightarrow>
     (sl_recv sl \<noteq> RIdle \<longrightarrow> rc_recving (sl_call sl))
     \<and> phase_ok (rc_terminal (sl_call sl)) gt (sl_recv sl)"

text \<open>
  \<open>r\<close> and \<open>b\<close> are the session's flags \<open>reusable\<close> and \<open>busy\<close>; \<open>wr\<close> and \<open>gt\<close> say that the call has
  written its request and taken its reply.
\<close>

definition cur_ok :: "bool \<Rightarrow> bool \<Rightarrow> bool \<Rightarrow> bool \<Rightarrow> rslot \<Rightarrow> bool" where
  "cur_ok r b wr gt sl \<longleftrightarrow>
     (gt \<longrightarrow> wr) \<and> send_ok wr sl \<and> recv_ok gt sl
     \<and> (rc_terminal (sl_call sl) \<and> \<not> gt \<and> r \<longrightarrow>
          (sl_recv sl = RMark \<and> \<not> rc_closed (sl_call sl)) \<or> (rc_closed (sl_call sl) \<and> sl_end sl = Some True))
     \<and> (\<not> rc_closed (sl_call sl) \<longrightarrow> sl_end sl = None)
     \<and> (\<not> rc_closed (sl_call sl) \<or> sl_end sl \<noteq> None \<longrightarrow> b)
     \<and> (rc_closed (sl_call sl) \<and> r \<and> sl_end sl \<noteq> Some True \<longrightarrow> gt \<and> sl_recv sl = RIdle)"

definition wrote :: "rworld \<Rightarrow> nat \<Rightarrow> bool" where
  "wrote w i = (i \<in> set (map fst (w_reqs w)))"

definition took :: "rworld \<Rightarrow> nat \<Rightarrow> bool" where
  "took w i = (i \<in> set (map fst (w_recv w)))"

definition ids_inv :: "rworld \<Rightarrow> bool" where
  "ids_inv w \<longleftrightarrow>
     length (w_recv w) \<le> length (w_reqs w)
     \<and> map fst (w_recv w) = take (length (w_recv w)) (map fst (w_reqs w))
     \<and> distinct (map fst (w_reqs w))
     \<and> (\<forall>i \<in> set (map fst (w_reqs w)). i < length (w_slots w))
     \<and> (\<forall>i \<in> set (drop (length (w_recv w)) (map fst (w_reqs w))). Suc i = length (w_slots w))"

definition slots_inv :: "rworld \<Rightarrow> bool" where
  "slots_inv w \<longleftrightarrow>
     \<not> rs_exclusive (w_client w)
     \<and> (\<forall>i < length (w_slots w). call_ok (sl_call (w_slots w ! i)))
     \<and> (\<forall>i < length (w_slots w). Suc i < length (w_slots w) \<longrightarrow> old_ok (w_slots w ! i))
     \<and> (\<forall>i < length (w_slots w). Suc i = length (w_slots w) \<longrightarrow>
          cur_ok (rs_reusable (w_client w)) (rs_busy (w_client w)) (wrote w i) (took w i) (w_slots w ! i))"

definition world_inv :: "rworld \<Rightarrow> bool" where
  "world_inv w \<longleftrightarrow> bytes_inv w \<and> ids_inv w \<and> slots_inv w"

text \<open>A step of one slot that leaves the histories alone, and makes the session at most less reusable.\<close>

lemma slot_step:
  assumes "world_inv w" "i < length (w_slots w)"
    and "w' = set_slot i sl (w\<lparr>w_client := c\<rparr>)"
    and "rs_readBuf c = rs_readBuf (w_client w)" "rs_out c = rs_out (w_client w)"
      "\<not> rs_exclusive c"
    and "call_ok (sl_call sl)"
    and "Suc i < length (w_slots w) \<Longrightarrow> old_ok (w_slots w ! i) \<Longrightarrow>
      old_ok sl \<and> rs_reusable c = rs_reusable (w_client w) \<and> rs_busy c = rs_busy (w_client w)"
    and "Suc i = length (w_slots w) \<Longrightarrow>
      cur_ok (rs_reusable (w_client w)) (rs_busy (w_client w)) (wrote w i) (took w i) (w_slots w ! i) \<Longrightarrow>
      cur_ok (rs_reusable c) (rs_busy c) (wrote w i) (took w i) sl"
  shows "world_inv w'"
proof -
  have h: "w_reqs w' = w_reqs w" "w_recv w' = w_recv w" "length (w_slots w') = length (w_slots w)"
    "wrote w' = wrote w" "took w' = took w" "w_client w' = c"
    by (simp_all add: assms(3) set_slot_def wrote_def took_def fun_eq_iff)
  have "bytes_inv w'" using assms(1,3-5) by (simp add: world_inv_def bytes_inv_def set_slot_def)
  moreover have "ids_inv w'" using assms(1) h by (simp add: world_inv_def ids_inv_def)
  moreover have "slots_inv w'"
  proof -
    have s: "w_slots w' = (w_slots w)[i := sl]" by (simp add: assms(3) set_slot_def)
    from assms(1) have "slots_inv w" by (simp add: world_inv_def)
    then show ?thesis
      using assms(2,6-9) unfolding slots_inv_def h s by (auto simp: nth_list_update)
  qed
  ultimately show ?thesis by (simp add: world_inv_def)
qed

section \<open>Each step keeps the invariant\<close>

lemmas slot_defs = cur_ok_def send_ok_def recv_ok_def old_ok_def call_ok_def send_pending_def

lemma slot_facts:
  assumes "world_inv w" "i < length (w_slots w)"
  shows "call_ok (sl_call (w_slots w ! i))" "\<not> rs_exclusive (w_client w)"
  using assms by (simp_all add: world_inv_def slots_inv_def)

lemma cur_send_start:
  assumes "cur_ok r b wr gt sl" "\<not> rc_sending (sl_call sl)" "\<not> rc_closed (sl_call sl)" "\<not> rc_reqSent (sl_call sl)"
    and "pending_ok x"
  shows "cur_ok r b wr gt (sl\<lparr>sl_call := (sl_call sl)\<lparr>rc_sending := True\<rparr>, sl_send := x\<rparr>)"
proof -
  from assms(1,2) have idle: "sl_send sl = SIdle" by (auto simp: cur_ok_def send_ok_def)
  with assms(1,4) have "\<not> wr" by (auto simp: cur_ok_def send_ok_def)
  with assms(1,3,5) show ?thesis by (auto simp: cur_ok_def send_ok_def recv_ok_def)
qed

lemma inv_send:
  assumes "world_inv w" "i < length (w_slots w)" "allowed (ESend i p) w"
  shows "world_inv (step_send i p (w_slots w ! i) w)"
proof (cases "send_start (sl_call (w_slots w ! i))")
  case (Pair err c)
  let ?sl = "w_slots w ! i"
  note ok = slot_facts [OF assms(1,2)]
  show ?thesis
  proof (cases err)
    case (Some e)
    with Pair assms(1) show ?thesis by (simp add: step_send_def)
  next
    case None
    then have c: "c = (sl_call ?sl)\<lparr>rc_sending := True\<rparr>" "\<not> rc_sending (sl_call ?sl)" "\<not> rc_closed (sl_call ?sl)"
      "\<not> rc_reqSent (sl_call ?sl)"
      using Pair ok(1) by (auto simp: send_start_def call_ok_def split: if_splits)
    note start = cur_send_start [OF _ c(2,3,4)]
    show ?thesis
    proof (cases "request_words (rc_cmd c) p")
      case None
      have e: "step_send i p ?sl w = set_slot i (?sl\<lparr>sl_call := c, sl_send := SWrote (Some err_need_more)\<rparr>)
          (w\<lparr>w_client := w_client w\<rparr>)"
        using Pair \<open>err = None\<close> None by (simp add: step_send_def)
      show ?thesis
        by (rule slot_step [OF assms(1,2) e])
          (use ok c start [of _ _ _ _ "SWrote (Some err_need_more)"] in \<open>simp_all add: call_ok_def old_ok_def\<close>)
    next
      case (Some ws)
      then have "ws \<noteq> [] \<and> hd ws = rc_cmd c"
        by (auto simp: request_words_def split: option.splits sum.splits if_splits)
      with Some assms(2,3) ok(1) c(1) have r: "req_ok ws" by (simp add: allowed_def req_ok_def call_ok_def)
      have e: "step_send i p ?sl w = set_slot i (?sl\<lparr>sl_call := c, sl_send := SReady ws (encode_array ws)\<rparr>)
          (w\<lparr>w_client := w_client w\<rparr>)"
        using Pair \<open>err = None\<close> Some by (simp add: step_send_def)
      show ?thesis by (rule slot_step [OF assms(1,2) e]) (use ok c r in \<open>auto simp: slot_defs\<close>)
    qed
  qed
qed

lemma inv_sent:
  assumes "world_inv w" "i < length (w_slots w)"
  shows "world_inv (step_sent i (w_slots w ! i) w)"
proof (cases "sl_send (w_slots w ! i)")
  case (SWrote err)
  let ?sl = "w_slots w ! i"
  note ok = slot_facts [OF assms]
  have e: "step_sent i ?sl w = set_slot i (?sl\<lparr>sl_call := send_mark err (sl_call ?sl), sl_send := SIdle\<rparr>)
      (w\<lparr>w_client := w_client w\<rparr>)"
    by (simp add: step_sent_def SWrote)
  show ?thesis
    by (rule slot_step [OF assms e])
      (use ok SWrote in \<open>auto simp: slot_defs send_mark_def Let_def\<close>)
qed (use assms in \<open>simp_all add: step_sent_def\<close>)

lemma inv_recv:
  assumes "world_inv w" "i < length (w_slots w)"
  shows "world_inv (step_recv i (w_slots w ! i) w)"
proof (cases "recv_start (sl_call (w_slots w ! i))")
  case (Pair err c)
  let ?sl = "w_slots w ! i"
  note ok = slot_facts [OF assms]
  show ?thesis
  proof (cases err)
    case (Some e)
    with Pair assms(1) show ?thesis by (simp add: step_recv_def)
  next
    case None
    then have c: "c = (sl_call ?sl)\<lparr>rc_recving := True\<rparr>" "\<not> rc_recving (sl_call ?sl)" "\<not> rc_closed (sl_call ?sl)"
      "\<not> rc_terminal (sl_call ?sl)"
      using Pair ok(1) by (auto simp: recv_start_def call_ok_def split: if_splits)
    have e: "step_recv i ?sl w = set_slot i (?sl\<lparr>sl_call := c, sl_recv := RReading\<rparr>) (w\<lparr>w_client := w_client w\<rparr>)"
      using Pair None by (simp add: step_recv_def)
    show ?thesis
      by (rule slot_step [OF assms e]) (use ok c in \<open>auto simp: slot_defs\<close>)
  qed
qed

lemma inv_got:
  assumes "world_inv w" "i < length (w_slots w)"
  shows "world_inv (step_got i (w_slots w ! i) w)"
proof (cases "sl_recv (w_slots w ! i)")
  case (RHas v)
  let ?sl = "w_slots w ! i"
  note ok = slot_facts [OF assms]
  have e: "step_got i ?sl w = set_slot i (?sl\<lparr>sl_call := snd (recv_got v (sl_call ?sl)), sl_recv := RIdle\<rparr>)
      (w\<lparr>w_client := w_client w\<rparr>)"
    by (simp add: step_got_def RHas)
  show ?thesis
    by (rule slot_step [OF assms e])
      (use ok RHas in \<open>auto simp: slot_defs recv_got_def recv_end_def Let_def\<close>)
qed (use assms in \<open>simp_all add: step_got_def\<close>)

lemma inv_fail:
  assumes "world_inv w" "i < length (w_slots w)"
  shows "world_inv (step_fail i (w_slots w ! i) w)"
proof (cases "sl_recv (w_slots w ! i)")
  case (RError err)
  let ?sl = "w_slots w ! i"
  let ?c = "(sl_call ?sl)\<lparr>rc_terminal := True\<rparr>"
  note ok = slot_facts [OF assms]
  have e: "step_fail i ?sl w = set_slot i
      (if rc_closed (sl_call ?sl) then ?sl\<lparr>sl_call := recv_end ?c, sl_recv := RIdle\<rparr>
       else ?sl\<lparr>sl_call := ?c, sl_recv := RMark\<rparr>) (w\<lparr>w_client := w_client w\<rparr>)"
    by (simp add: step_fail_def RError recv_failed_def)
  show ?thesis
    by (rule slot_step [OF assms e])
      (use ok RError in \<open>auto simp: slot_defs recv_end_def\<close>)
qed (use assms in \<open>simp_all add: step_fail_def\<close>)

lemma inv_mark:
  assumes "world_inv w" "i < length (w_slots w)"
  shows "world_inv (step_mark i (w_slots w ! i) w)"
proof (cases "sl_recv (w_slots w ! i) = RMark")
  case True
  let ?sl = "w_slots w ! i"
  note ok = slot_facts [OF assms]
  have e: "step_mark i ?sl w = set_slot i (?sl\<lparr>sl_call := recv_end (sl_call ?sl), sl_recv := RIdle\<rparr>)
      (w\<lparr>w_client := resp_mark_bad (w_client w)\<rparr>)"
    by (simp add: step_mark_def True)
  show ?thesis
    by (rule slot_step [OF assms e])
      (use ok True in \<open>auto simp: slot_defs recv_end_def resp_mark_bad_def\<close>)
qed (use assms in \<open>simp add: step_mark_def\<close>)

lemma inv_close:
  assumes "world_inv w" "i < length (w_slots w)" "allowed (EClose i) w"
  shows "world_inv (step_close i (w_slots w ! i) w)"
proof (cases "rc_closed (sl_call (w_slots w ! i))")
  case False
  let ?sl = "w_slots w ! i"
  let ?c = "(sl_call ?sl)\<lparr>rc_closed := True, rc_cancelled := True\<rparr>"
  note ok = slot_facts [OF assms(1,2)]
  have m: "sl_recv ?sl \<noteq> RMark" using assms(2,3) by (simp add: allowed_def)
  have e: "step_close i ?sl w = set_slot i
      (?sl\<lparr>sl_call := ?c, sl_end := Some (\<not> rc_terminal (sl_call ?sl))\<rparr>) (w\<lparr>w_client := w_client w\<rparr>)"
    using False ok(1) by (simp add: step_close_def close_mark_def call_ok_def)
  show ?thesis
    by (rule slot_step [OF assms(1,2) e])
      (cases "sl_recv ?sl"; use ok False m in \<open>auto simp: slot_defs\<close>)+
qed (use assms in \<open>simp add: step_close_def close_mark_def\<close>)

lemma inv_end:
  assumes "world_inv w" "i < length (w_slots w)"
  shows "world_inv (step_end i (w_slots w ! i) w)"
proof (cases "sl_end (w_slots w ! i)")
  case (Some poison)
  let ?sl = "w_slots w ! i"
  note ok = slot_facts [OF assms]
  have e: "step_end i ?sl w = set_slot i (?sl\<lparr>sl_end := None\<rparr>) (w\<lparr>w_client := end_call poison (w_client w)\<rparr>)"
    by (simp add: step_end_def Some)
  show ?thesis
    by (rule slot_step [OF assms e])
      (use ok Some in \<open>auto simp: slot_defs end_call_def Let_def\<close>)
qed (use assms in \<open>simp add: step_end_def\<close>)

lemma inv_ctx:
  assumes "world_inv w" "i < length (w_slots w)"
  shows "world_inv (step_ctx i err (w_slots w ! i) w)"
proof (cases "sl_recv (w_slots w ! i) = RReading \<and> fst (read_value_try (w_client w)) = Waits")
  case True
  let ?sl = "w_slots w ! i"
  note ok = slot_facts [OF assms]
  have e: "step_ctx i err ?sl w = set_slot i (?sl\<lparr>sl_recv := RError err\<rparr>) (w\<lparr>w_client := w_client w\<rparr>)"
    by (simp add: step_ctx_def True)
  show ?thesis
    by (rule slot_step [OF assms e]) (use ok True in \<open>auto simp: slot_defs\<close>)
qed (use assms in \<open>auto simp: step_ctx_def\<close>)

lemma slots_inv_last:
  assumes "slots_inv w" "Suc i = length (w_slots w)" "w_slots w' = (w_slots w)[i := sl]"
    "call_ok (sl_call sl)" "\<not> rs_exclusive (w_client w')"
    "cur_ok (rs_reusable (w_client w')) (rs_busy (w_client w')) (wrote w' i) (took w' i) sl"
  shows "slots_inv w'"
  unfolding slots_inv_def
proof (intro conjI allI impI)
  have len: "length (w_slots w') = length (w_slots w)" by (simp add: assms(3))
  have nth: "w_slots w' ! j = (if j = i then sl else w_slots w ! j)" if "j < length (w_slots w')" for j
    using that assms(3) by (simp add: nth_list_update)
  show "\<not> rs_exclusive (w_client w')" by (rule assms(5))
  show "call_ok (sl_call (w_slots w' ! j))" if "j < length (w_slots w')" for j
    using nth [OF that] that assms(1,4) len by (simp add: slots_inv_def)
  show "old_ok (w_slots w' ! j)" if "j < length (w_slots w')" "Suc j < length (w_slots w')" for j
    using nth [OF that(1)] that assms(1,2) len by (simp add: slots_inv_def)
  show "cur_ok (rs_reusable (w_client w')) (rs_busy (w_client w')) (wrote w' j) (took w' j) (w_slots w' ! j)"
    if "j < length (w_slots w')" "Suc j = length (w_slots w')" for j
  proof -
    have "j = i" using that(2) assms(2) len by simp
    with nth [OF that(1)] assms(6) show ?thesis by simp
  qed
qed

lemma inv_write:
  assumes "world_inv w" "i < length (w_slots w)"
  shows "world_inv (step_write i (w_slots w ! i) w)"
proof (cases "sl_send (w_slots w ! i)")
  case (SReady ws b)
  let ?sl = "w_slots w ! i"
  note ok = slot_facts [OF assms]
  have last: "Suc i = length (w_slots w)"
    using assms SReady by (auto simp: world_inv_def slots_inv_def old_ok_def send_pending_def)
  with assms SReady have cur: "cur_ok (rs_reusable (w_client w)) (rs_busy (w_client w)) (wrote w i) (took w i) ?sl"
    by (simp add: world_inv_def slots_inv_def)
  with SReady have b: "b = encode_array ws" "req_ok ws" "\<not> wrote w i" "\<not> took w i"
    by (auto simp: cur_ok_def send_ok_def send_pending_def)
  show ?thesis
  proof (cases "rs_writeErr (w_client w)")
    case (Some e)
    have eq: "step_write i ?sl w = set_slot i (?sl\<lparr>sl_send := SWrote (Some e)\<rparr>) (w\<lparr>w_client := resp_mark_bad (w_client w)\<rparr>)"
      by (simp add: step_write_def SReady write_raw_def Some Let_def)
    show ?thesis
      by (rule slot_step [OF assms eq])
        (use ok last cur b SReady in \<open>auto simp: slot_defs resp_mark_bad_def\<close>)
  next
    case None
    let ?w = "step_write i ?sl w"
    have w': "w_slots ?w = (w_slots w)[i := ?sl\<lparr>sl_send := SWrote None\<rparr>]" "w_reqs ?w = w_reqs w @ [(i, ws)]"
      "w_recv ?w = w_recv w" "w_served ?w = w_served w" "w_server ?w = w_server w" "w_store ?w = w_store w"
      "w_client ?w = (w_client w)\<lparr>rs_out := rs_out (w_client w) @ b\<rparr>"
      by (simp_all add: step_write_def SReady write_raw_def None Let_def set_slot_def)
    have "bytes_inv ?w"
      using assms(1) bytes_write [OF _ b(2)] b(1) unfolding bytes_inv_def w' world_inv_def
      by (simp add: append_assoc [symmetric] del: append_assoc)
    moreover have "ids_inv ?w"
      using assms(1) last b(3) unfolding ids_inv_def w' world_inv_def wrote_def by auto
    moreover have "slots_inv ?w"
    proof -
      have "wrote ?w i" "took ?w i = took w i" by (simp_all add: wrote_def took_def w')
      with cur b SReady have "cur_ok (rs_reusable (w_client w)) (rs_busy (w_client w)) (wrote ?w i) (took ?w i)
          (?sl\<lparr>sl_send := SWrote None\<rparr>)"
        by (auto simp: cur_ok_def send_ok_def recv_ok_def send_pending_def)
      then show ?thesis
        using assms last ok by (intro slots_inv_last [OF _ last w'(1)]) (simp_all add: world_inv_def w')
    qed
    ultimately show ?thesis by (simp add: world_inv_def)
  qed
qed (use assms in \<open>simp_all add: step_write_def\<close>)

lemma try_cases:
  assumes "bytes_inv w"
  shows "(\<exists>e c. read_value_try (w_client w) = (Ready (Inl e), c) \<and> (c = w_client w))
    \<or> read_value_try (w_client w) = (Waits, w_client w)
    \<or> (length (w_recv w) < w_served w
       \<and> (let v = fst (run_commands (take (w_served w) (map snd (w_reqs w))) new_store) ! length (w_recv w) in
          read_value_try (w_client w) =
            (Ready (Inr v), (w_client w)\<lparr>rs_readBuf := drop (length (marshal_value v)) (rs_readBuf (w_client w))\<rparr>)
          \<and> length (marshal_value v) \<le> length (rs_readBuf (w_client w))))"
proof (cases "rs_readBuf (w_client w) = []")
  case True
  then show ?thesis by (cases "rs_readErr (w_client w)") (auto simp: read_value_try_def)
next
  case False
  from assms have "bytes_ok (rs_readBuf (w_server w) @ rs_out (w_client w))
      (rs_readBuf (w_client w) @ rs_out (w_server w)) (w_store w) (map snd (w_reqs w)) (w_served w) (map snd (w_recv w))"
    by (simp add: bytes_inv_def)
  from client_sees [OF this False] show ?thesis
  proof
    assume "parse_value (rs_readBuf (w_client w)) = NeedMore"
    with False show ?thesis by (cases "rs_readErr (w_client w)") (auto simp: read_value_try_def)
  qed (use False in \<open>simp add: read_value_try_def Let_def\<close>)
qed

lemma inv_read:
  assumes "world_inv w" "i < length (w_slots w)"
  shows "world_inv (step_read i (w_slots w ! i) w)"
proof (cases "sl_recv (w_slots w ! i) = RReading")
  case True
  let ?sl = "w_slots w ! i"
  note ok = slot_facts [OF assms]
  have last: "Suc i = length (w_slots w)"
  proof (rule ccontr)
    assume "Suc i \<noteq> length (w_slots w)"
    with assms have "old_ok ?sl" by (simp add: world_inv_def slots_inv_def)
    with True show False by (simp add: old_ok_def)
  qed
  with assms have cur: "cur_ok (rs_reusable (w_client w)) (rs_busy (w_client w)) (wrote w i) (took w i) ?sl"
    by (simp add: world_inv_def slots_inv_def)
  with True have t: "\<not> took w i" "\<not> rc_terminal (sl_call ?sl)" by (auto simp: cur_ok_def recv_ok_def)
  have bi: "bytes_inv w" and ids: "ids_inv w" using assms(1) by (simp_all add: world_inv_def)
  from try_cases [OF bi] consider
    (err) e where "read_value_try (w_client w) = (Ready (Inl e), w_client w)"
  | (wait) "read_value_try (w_client w) = (Waits, w_client w)"
  | (got) v where "length (w_recv w) < w_served w"
      "v = fst (run_commands (take (w_served w) (map snd (w_reqs w))) new_store) ! length (w_recv w)"
      "read_value_try (w_client w) =
         (Ready (Inr v), (w_client w)\<lparr>rs_readBuf := drop (length (marshal_value v)) (rs_readBuf (w_client w))\<rparr>)"
      "length (marshal_value v) \<le> length (rs_readBuf (w_client w))"
    by (auto simp: Let_def)
  then show ?thesis
  proof cases
    case err
    have eq: "step_read i ?sl w = set_slot i (?sl\<lparr>sl_recv := RError e\<rparr>) (w\<lparr>w_client := w_client w\<rparr>)"
      by (simp add: step_read_def True err)
    show ?thesis by (rule slot_step [OF assms eq]) (use ok last cur t True in \<open>auto simp: slot_defs\<close>)
  next
    case wait
    with assms(1) True show ?thesis by (simp add: step_read_def)
  next
    case got
    let ?w = "step_read i ?sl w"
    have w': "w_slots ?w = (w_slots w)[i := ?sl\<lparr>sl_recv := RHas v\<rparr>]" "w_reqs ?w = w_reqs w"
      "w_recv ?w = w_recv w @ [(i, v)]" "w_served ?w = w_served w" "w_server ?w = w_server w" "w_store ?w = w_store w"
      "w_client ?w = (w_client w)\<lparr>rs_readBuf := drop (length (marshal_value v)) (rs_readBuf (w_client w))\<rparr>"
      by (simp_all add: step_read_def True got(3) set_slot_def)
    have len: "length (w_recv w) < length (w_reqs w)" using got(1) bi by (simp add: bytes_inv_def bytes_ok_def)
    have "map fst (w_reqs w) ! length (w_recv w) \<in> set (drop (length (w_recv w)) (map fst (w_reqs w)))"
      using len by (metis Cons_nth_drop_Suc length_map list.set_intros(1))
    with ids last have who: "map fst (w_reqs w) ! length (w_recv w) = i" by (auto simp: ids_inv_def)
    have cut: "drop (length (marshal_value v)) (rs_readBuf (w_client w) @ rs_out (w_server w))
        = drop (length (marshal_value v)) (rs_readBuf (w_client w)) @ rs_out (w_server w)"
      using got(4) by simp
    from bi have "bytes_ok (rs_readBuf (w_server w) @ rs_out (w_client w))
      (rs_readBuf (w_client w) @ rs_out (w_server w)) (w_store w) (map snd (w_reqs w)) (w_served w) (map snd (w_recv w))"
      by (simp add: bytes_inv_def)
    from bytes_read [OF this] got(1) have "bytes_ok (rs_readBuf (w_server w) @ rs_out (w_client w))
        (drop (length (marshal_value v)) (rs_readBuf (w_client w)) @ rs_out (w_server w))
        (w_store w) (map snd (w_reqs w)) (w_served w) (map snd (w_recv w) @ [v])"
      by (simp only: length_map got(2) [symmetric] cut)
    with bi have "bytes_inv ?w" unfolding bytes_inv_def w' by simp
    moreover have "ids_inv ?w"
    proof -
      have "take (Suc (length (w_recv w))) (map fst (w_reqs w)) = map fst (w_recv w) @ [i]"
        using len who ids take_Suc_conv_app_nth [of "length (w_recv w)" "map fst (w_reqs w)"]
        by (simp add: ids_inv_def)
      moreover have "set (drop (Suc (length (w_recv w))) (map fst (w_reqs w)))
          \<subseteq> set (drop (length (w_recv w)) (map fst (w_reqs w)))"
        by (rule set_drop_subset_set_drop) simp
      ultimately show ?thesis using ids len unfolding ids_inv_def w' by auto
    qed
    moreover have "slots_inv ?w"
    proof -
      have "wrote w i" using who len unfolding wrote_def by (metis length_map nth_mem)
      moreover have "took ?w i" "wrote ?w i = wrote w i" by (simp_all add: wrote_def took_def w')
      ultimately have "cur_ok (rs_reusable (w_client w)) (rs_busy (w_client w)) (wrote ?w i) (took ?w i)
          (?sl\<lparr>sl_recv := RHas v\<rparr>)"
        using cur t True by (auto simp: cur_ok_def send_ok_def recv_ok_def send_pending_def)
      then show ?thesis
        using assms last ok by (intro slots_inv_last [OF _ last w'(1)]) (simp_all add: world_inv_def w')
    qed
    ultimately show ?thesis by (simp add: world_inv_def)
  qed
qed (use assms in \<open>simp add: step_read_def\<close>)

text \<open>Steps that touch no slot.\<close>

lemma cur_ok_less: "cur_ok r b wr gt sl \<Longrightarrow> (r' \<longrightarrow> r) \<Longrightarrow> cur_ok r' b wr gt sl"
  by (auto simp: cur_ok_def)

lemma no_slot_step:
  assumes "world_inv w" "w_slots w' = w_slots w" "w_reqs w' = w_reqs w" "w_recv w' = w_recv w"
    "rs_exclusive (w_client w') = rs_exclusive (w_client w)" "rs_busy (w_client w') = rs_busy (w_client w)"
    "rs_reusable (w_client w') \<longrightarrow> rs_reusable (w_client w)" "bytes_inv w'"
  shows "world_inv w'"
proof -
  have h: "wrote w' = wrote w" "took w' = took w" by (simp_all add: wrote_def took_def fun_eq_iff assms(3,4))
  have "ids_inv w'" using assms(1-4) by (simp add: world_inv_def ids_inv_def)
  moreover have "slots_inv w'"
    using assms(1) cur_ok_less [OF _ assms(7)] unfolding world_inv_def slots_inv_def h assms(2,5,6) by blast
  ultimately show ?thesis using assms(8) by (simp add: world_inv_def)
qed

lemma inv_up: "world_inv w \<Longrightarrow> world_inv (step_up k w)"
proof -
  assume inv: "world_inv w"
  then have "bytes_inv (step_up k w)"
    by (simp add: world_inv_def bytes_inv_def step_up_def read_loop_step_def idle_server_def Let_def)
  then show ?thesis by (rule no_slot_step [OF inv, rotated -1]) (simp_all add: step_up_def)
qed

lemma inv_down: "world_inv w \<Longrightarrow> world_inv (step_down k w)"
proof -
  assume inv: "world_inv w"
  then have "bytes_inv (step_down k w)"
    by (simp add: world_inv_def bytes_inv_def step_down_def read_loop_step_def idle_server_def Let_def)
  then show ?thesis
    by (rule no_slot_step [OF inv, rotated -1]) (simp_all add: step_down_def read_loop_step_def Let_def)
qed

lemma inv_serve: "world_inv w \<Longrightarrow> world_inv (step_serve w)"
proof -
  assume inv: "world_inv w"
  then have bi: "idle_server (w_server w)" "bytes_ok (rs_readBuf (w_server w) @ rs_out (w_client w))
      (rs_readBuf (w_client w) @ rs_out (w_server w)) (w_store w) (map snd (w_reqs w)) (w_served w) (map snd (w_recv w))"
    by (simp_all add: world_inv_def bytes_inv_def)
  from server_sees [OF bi(2)] show ?thesis
  proof
    assume "parse_value (rs_readBuf (w_server w)) = NeedMore"
    with serve_waits [OF bi(1)] inv show ?thesis by (simp add: step_serve_def)
  next
    let ?ws = "map snd (w_reqs w) ! w_served w"
    assume "w_served w < length (map snd (w_reqs w)) \<and>
      (\<exists>r. rs_readBuf (w_server w) = encode_array ?ws @ r)"
    then obtain r where r: "w_served w < length (map snd (w_reqs w))" "rs_readBuf (w_server w) = encode_array ?ws @ r"
      by blast
    have ok: "req_ok ?ws" using bi(2) r(1) by (simp only: bytes_ok_def list_all_length)
    have step: "step_serve w = w\<lparr>w_server := answered r (marshal_value (fst (command_reply ?ws (w_store w)))) (w_server w),
        w_store := snd (command_reply ?ws (w_store w)), w_served := Suc (w_served w)\<rparr>"
      by (simp only: step_serve_def serve_answers [OF bi(1) ok r(2)] option.case prod.case)
    have "bytes_inv (step_serve w)"
      using bi(1) bytes_serve [OF bi(2) [unfolded r(2) append_assoc] r(1)]
      unfolding step bytes_inv_def by (simp add: answered_def idle_server_def)
    then show ?thesis by (rule no_slot_step [OF inv, rotated -1]) (simp_all add: step)
  qed
qed

lemma inv_errors:
  assumes "world_inv w"
  shows "world_inv (w\<lparr>w_client := read_loop_step [] (Some e) (w_client w)\<rparr>)"
    and "world_inv (w\<lparr>w_client := (w_client w)\<lparr>rs_writeErr := Some e\<rparr>\<rparr>)"
  by (rule no_slot_step [OF assms];
      use assms in \<open>simp add: read_loop_step_def Let_def world_inv_def bytes_inv_def\<close>)+

lemma inv_open:
  assumes "world_inv w" "allowed (EOpen ctxErr m) w"
  shows "world_inv (step_open ctxErr m w)"
proof (cases "fst (client_open_call ctxErr None m (w_client w))")
  case (Inl e)
  then have "step_open ctxErr m w = w"
    by (cases "client_open_call ctxErr None m (w_client w)") (simp add: step_open_def)
  with assms(1) show ?thesis by simp
next
  case (Inr c)
  let ?c = "new_call (m_fullName m) (m_name m) True None"
  let ?n = "length (w_slots w)"
  have fold: "\<not> rc_streaming ?c" "call_ok ?c"
    using assms(2) by (simp_all add: allowed_def new_call_def call_ok_def)
  from Inr have s: "rs_reusable (w_client w)" "\<not> rs_busy (w_client w)"
    and r: "client_open_call ctxErr None m (w_client w) = (Inr ?c, (w_client w)\<lparr>rs_busy := True\<rparr>)"
    using fold(1) by (auto simp: client_open_call_def Let_def split: if_splits option.splits)
  let ?sl = "\<lparr>sl_call = ?c, sl_recv = RIdle, sl_send = SIdle, sl_end = None\<rparr>"
  let ?w = "step_open ctxErr m w"
  have w': "w_slots ?w = w_slots w @ [?sl]" "w_client ?w = (w_client w)\<lparr>rs_busy := True\<rparr>" "w_reqs ?w = w_reqs w"
    "w_recv ?w = w_recv w" "w_server ?w = w_server w" "w_store ?w = w_store w" "w_served ?w = w_served w"
    by (simp_all add: step_open_def r)
  have ids: "ids_inv w" and sl: "slots_inv w" using assms(1) by (simp_all add: world_inv_def)
  have last: "old_ok (w_slots w ! i) \<and> took w i" if "Suc i = ?n" for i
  proof -
    have "cur_ok True False (wrote w i) (took w i) (w_slots w ! i)"
      using sl s that by (auto simp: slots_inv_def)
    then show ?thesis by (auto simp: cur_ok_def send_ok_def old_ok_def)
  qed
  have none: "drop (length (w_recv w)) (map fst (w_reqs w)) = []"
  proof (rule ccontr)
    let ?ids = "map fst (w_reqs w)"
    assume "drop (length (w_recv w)) ?ids \<noteq> []"
    then obtain i where i: "i \<in> set (drop (length (w_recv w)) ?ids)" by (metis list.set_intros(1) neq_Nil_conv)
    with ids have "Suc i = ?n" by (simp add: ids_inv_def)
    with last have "i \<in> set (map fst (w_recv w))" by (simp only: took_def)
    moreover have "map fst (w_recv w) = take (length (w_recv w)) ?ids" using ids by (simp only: ids_inv_def)
    ultimately have "i \<in> set (take (length (w_recv w)) ?ids)" by (simp only:)
    moreover have "distinct ?ids" using ids by (simp add: ids_inv_def)
    ultimately show False
      using i set_take_disj_set_drop_if_distinct [of ?ids "length (w_recv w)" "length (w_recv w)"] by blast
  qed
  have "bytes_inv ?w" using assms(1) by (simp add: world_inv_def bytes_inv_def w')
  moreover have "ids_inv ?w" using ids none by (auto simp: ids_inv_def w')
  moreover have "slots_inv ?w"
  proof -
    have "\<not> wrote w ?n" using ids by (auto simp: wrote_def ids_inv_def)
    moreover have "wrote w ?n" if "took w ?n"
    proof -
      have "map fst (w_recv w) = take (length (w_recv w)) (map fst (w_reqs w))" using ids by (simp only: ids_inv_def)
      with that show ?thesis unfolding wrote_def took_def by (metis in_set_takeD)
    qed
    ultimately have new: "\<not> wrote ?w ?n" "\<not> took ?w ?n" by (auto simp: wrote_def took_def w')
    have cur: "cur_ok True True False False ?sl"
      by (simp add: cur_ok_def send_ok_def recv_ok_def send_pending_def new_call_def)
    have old: "old_ok (w_slots w ! i)" if "i < ?n" for i
      using last [of i] sl that by (cases "Suc i = ?n") (auto simp: slots_inv_def)
    have n: "length (w_slots ?w) = Suc ?n" by (simp add: w')
    have before: "w_slots ?w ! i = w_slots w ! i" if "i < ?n" for i using that by (simp add: w' nth_append)
    have after: "w_slots ?w ! ?n = ?sl" by (simp add: w')
    show ?thesis
      unfolding slots_inv_def
    proof (intro conjI allI impI)
      show "\<not> rs_exclusive (w_client ?w)" using sl by (simp add: w' slots_inv_def)
      show "call_ok (sl_call (w_slots ?w ! i))" if "i < length (w_slots ?w)" for i
        using that sl before after fold(2) by (cases "i = ?n") (auto simp: n slots_inv_def)
      show "old_ok (w_slots ?w ! i)" if "i < length (w_slots ?w)" "Suc i < length (w_slots ?w)" for i
        using that before old by (simp add: n)
      show "cur_ok (rs_reusable (w_client ?w)) (rs_busy (w_client ?w)) (wrote ?w i) (took ?w i) (w_slots ?w ! i)"
        if "i < length (w_slots ?w)" "Suc i = length (w_slots ?w)" for i
      proof -
        have "i = ?n" using that(2) n by simp
        with cur new s after show ?thesis by (simp add: w'(2))
      qed
    qed
  qed
  ultimately show ?thesis by (simp add: world_inv_def)
qed

lemma world_do_inv: "world_inv w \<Longrightarrow> allowed e w \<Longrightarrow> world_inv (world_do e w)"
  by (cases e)
    (simp_all add: world_do_def with_slot_def inv_open inv_send inv_write inv_sent inv_recv inv_read inv_ctx
      inv_got inv_fail inv_mark inv_close inv_end inv_up inv_down inv_serve inv_errors)

lemma calm_inv: "world_inv w \<Longrightarrow> calm es w \<Longrightarrow> world_inv (run_steps world_do es w)"
  by (induction es arbitrary: w) (simp_all add: world_do_inv)

lemma new_world_inv: "world_inv new_world"
  by (simp add: world_inv_def bytes_inv_def bytes_ok_def ids_inv_def slots_inv_def new_world_def new_session_def
      idle_server_def)

section \<open>Replies meet their requests\<close>

lemma match_of_inv:
  assumes "world_inv w"
  shows "w_recv w = take (length (w_recv w))
      (zip (map fst (w_reqs w)) (fst (run_commands (map snd (w_reqs w)) new_store)))
    \<and> distinct (map fst (w_reqs w))"
proof -
  let ?n = "length (w_recv w)"
  let ?rs = "fst (run_commands (map snd (w_reqs w)) new_store)"
  let ?k = "w_served w"
  from assms have bo: "bytes_ok (rs_readBuf (w_server w) @ rs_out (w_client w))
      (rs_readBuf (w_client w) @ rs_out (w_server w)) (w_store w) (map snd (w_reqs w)) ?k (map snd (w_recv w))"
    and ids: "map fst (w_recv w) = take ?n (map fst (w_reqs w))" "distinct (map fst (w_reqs w))"
    by (simp_all add: world_inv_def bytes_inv_def ids_inv_def)
  have "?rs = fst (run_commands (take ?k (map snd (w_reqs w))) new_store)
      @ fst (run_commands (drop ?k (map snd (w_reqs w))) (snd (run_commands (take ?k (map snd (w_reqs w))) new_store)))"
    using run_commands_append [of "take ?k (map snd (w_reqs w))" "drop ?k (map snd (w_reqs w))" new_store] by simp
  then have "take ?n ?rs = map snd (w_recv w)"
    using bo by (simp add: bytes_ok_def)
  then have "take ?n (zip (map fst (w_reqs w)) ?rs) = zip (map fst (w_recv w)) (map snd (w_recv w))"
    by (simp only: take_zip ids(1))
  with ids(2) show ?thesis by (simp add: zip_map_fst_snd)
qed


definition set_method :: rpc_method where
  "set_method = \<lparr>m_fullName = ''redis.Redis.SET'', m_service = ''redis.Redis'', m_name = ''SET'', m_shape = Unary\<rparr>"

definition get_method :: rpc_method where
  "get_method = \<lparr>m_fullName = ''redis.Redis.GET'', m_service = ''redis.Redis'', m_name = ''GET'', m_shape = Unary\<rparr>"

definition demo_steps :: "world_step list" where
  "demo_steps =
     [EOpen None set_method, ESend 0 (encode_args [''k'', ''v'']), EWrite 0, ESent 0, EUp 20, EUp 40, EServe,
      ERecv 0, ERead 0, EDown 3, ERead 0, EDown 2, ERead 0, EGot 0, EClose 0, EEnd 0,
      EOpen None get_method, ESend 1 (encode_args [''k'']), EWrite 1, EUp 99, EServe, EDown 99, ERecv 1, ERead 1]"


end
