(* ===== verification/Resp_Session_Props.thy ===== *)
theory Resp_Session_Props
  imports Resp_Match
begin

text \<open>
  Three facts about RESP sessions beside the matching of replies: a parked read always ends when the
  carrier does, the two handshakes agree, and the one schedule the matching excludes does break it.
\<close>

section \<open>No read is parked for good\<close>

lemma try_settles: "rs_closed s \<or> rs_readErr s \<noteq> None \<Longrightarrow> fst (read_value_try s) \<noteq> Waits"
  by (auto simp: read_value_try_def split: parsed.split option.split)

lemma read_settles:
  "rs_closed s \<or> rs_readErr s \<noteq> None \<Longrightarrow> fst (read_value evs s) \<noteq> Waits"
  using try_settles [of s]
  by (cases "read_value_try s"; cases "fst (read_value_try s)") (auto simp: read_value.simps)

lemma ended_settles: "fst (read_value (evs @ [Arrive p (Some e)]) s) \<noteq> Waits"
proof (induction evs arbitrary: s)
  case Nil
  have "rs_readErr (read_loop_step p (Some e) s1) \<noteq> None" for s1
    by (auto simp: read_loop_step_def Let_def)
  then have "fst (read_value [] (read_loop_step p (Some e) s1)) \<noteq> Waits" for s1
    by (intro read_settles) simp
  then show ?case
    by (cases "read_value_try s"; cases "fst (read_value_try s)")
      (simp_all add: read_value.simps [of "[Arrive p (Some e)]"])
next
  case (Cons ev evs)
  then show ?case
    by (cases "read_value_try s"; cases "fst (read_value_try s)"; cases ev)
      (simp_all add: read_value.simps [of "ev # evs @ [Arrive p (Some e)]" for ev])
qed

text \<open>
  A blocked read ends with the carrier. Whatever happens before, a read that is still parked when
  the read loop reports an error returns, with a value already complete in the buffer or with an
  error; so does every read that starts after the session was closed or the read loop has ended.
\<close>

lemma resp_read_settles:
  "fst (read_value (evs @ [Arrive p (Some e)]) s) \<noteq> Waits
    \<and> (if \<not> rs_closed s' \<and> rs_readErr s' = None then True else fst (read_value evs' s') \<noteq> Waits)"
  using ended_settles read_settles [of s' evs'] by simp

section \<open>The handshakes agree\<close>

lemma parse_simple: "no_crlf s \<Longrightarrow> parse_value (encode_simple s @ r) = Got (scalar (CHR ''+'') s 0) (length (encode_simple s))"
  using parse_line [of "CHR ''+''" s r] by (simp add: encode_simple_def del: parse_value.simps)

lemma parse_error_line: "no_crlf s \<Longrightarrow> parse_value (encode_error s @ r) = Got (scalar (CHR ''-'') s 0) (length (encode_error s))"
  using parse_line [of "CHR ''-''" s r] by (simp add: encode_error_def del: parse_value.simps)

lemma read_arrives:
  assumes "rs_readBuf s = []" "\<not> rs_closed s" "rs_readErr s = None" "p \<noteq> []" "parse_value p = Got v (length p)"
  shows "read_value (Arrive p None # es) s = (Ready (Inr v), es, s)"
  using assms
  by (simp add: read_value.simps [of "Arrive p None # es"] read_value_wait read_loop_step_def read_value_got)

lemma encode_not_Nil: "encode_simple w \<noteq> []" "encode_error w \<noteq> []" "encode_array ws \<noteq> []"
  by (simp_all add: encode_simple_def encode_error_def encode_array_def)

lemma reading_arrives:
  assumes "rs_readBuf s = []" "\<not> rs_closed s" "rs_readErr s = None" "p \<noteq> []" "parse_value p = Got v (length p)"
  shows "reading (Arrive p None # es) s k = k (Inr v) es s"
  by (simp add: reading_def read_arrives [OF assms])

lemma reading_line:
  assumes "rs_readBuf s = []" "\<not> rs_closed s" "rs_readErr s = None" "no_crlf w"
  shows "reading (Arrive (encode_simple w) None # es) s k = k (Inr (scalar (CHR ''+'') w 0)) es s"
    and "reading (Arrive (encode_error w) None # es) s k = k (Inr (scalar (CHR ''-'') w 0)) es s"
  using assms parse_simple [OF assms(4), of "[]"] parse_error_line [OF assms(4), of "[]"]
  by (simp_all add: reading_arrives encode_not_Nil)

lemma reading_command:
  assumes "rs_readBuf s = []" "\<not> rs_closed s" "rs_readErr s = None" "args_ok ws"
  shows "reading (Arrive (encode_array ws) None # es) s k
    = k (Inr (RValue (CHR ''*'') [] 0 (map (\<lambda>w. scalar (CHR ''$'') w 0) ws) False)) es s"
  using assms parse_encode_array [OF assms(4), of "[]"] by (simp add: reading_arrives encode_not_Nil)

lemma handshake_words: "no_crlf ''OK''" "no_crlf ''ERR invalid password''"
  "equal_fold ''HELLO'' ''HELLO''" "equal_fold ''AUTH'' ''AUTH''" "equal_fold ''OK'' ''OK''"
  by code_simp+

lemma server_side:
  assumes "spw \<noteq> []" "int (length cpw) < 2 ^ 62"
  shows "server_handshake [Arrive (encode_array [''HELLO'', ''2'']) None, Arrive (encode_array [''AUTH'', cpw]) None]
      (new_session svc spw t)
    = (if cpw = spw then
         (Ready None, [], (new_session svc spw t)\<lparr>rs_out := encode_simple ''OK'' @ encode_simple ''OK''\<rparr>)
       else
         (Ready (Some (status_error Unauthenticated ''resp: AUTH failed'')), [],
          (new_session svc spw t)\<lparr>rs_out := encode_simple ''OK'' @ encode_error ''ERR invalid password''\<rparr>))"
proof -
  have ok: "args_ok [''HELLO'', ''2'']" "args_ok [''AUTH'', cpw]"
    using assms(2) by (simp_all add: args_ok_def max_values_def)
  show ?thesis
    using assms(1)
    by (simp add: server_handshake_def reading_command [OF _ _ _ ok(1)] reading_command [OF _ _ _ ok(2)]
        new_session_def command_of_array handshake_words write_raw_def del: list.map)
qed

lemma client_side:
  assumes "cpw \<noteq> []" "reply2 = (if good then encode_simple ''OK'' else encode_error ''ERR invalid password'')"
  shows "client_handshake [Arrive (encode_simple ''OK'') None, Arrive reply2 None] (new_session svc cpw t)
    = (Ready (if good then None else Some (status_error Unauthenticated ''ERR invalid password'')), [],
       (new_session svc cpw t)\<lparr>rs_hellos := 1,
         rs_out := encode_array [''HELLO'', ''2''] @ encode_array [''AUTH'', cpw]\<rparr>)"
  using assms
  by (simp add: client_handshake_def reading_line handshake_words new_session_def write_command_def write_raw_def)
    (simp add: scalar_def handshake_words)

text \<open>
  C40: the two handshakes agree about the password. When both sides have one, the server that reads
  the client's HELLO and AUTH commands accepts exactly if the passwords are equal, the client that
  reads the server's two replies comes to the same verdict, an \<open>Unauthenticated\<close> status on both sides
  otherwise, and the client has written one HELLO and one AUTH and counted one HELLO.
\<close>

theorem resp_handshakes_agree:
  assumes "cpw \<noteq> []" "spw \<noteq> []" "int (length cpw) < 2 ^ 62"
  shows "let (sr, ses, s) = server_handshake [Arrive (encode_array [''HELLO'', ''2'']) None,
             Arrive (encode_array [''AUTH'', cpw]) None] (new_session svc spw t);
           reply2 = (if cpw = spw then encode_simple ''OK'' else encode_error ''ERR invalid password'');
           (cr, ces, c) = client_handshake [Arrive (encode_simple ''OK'') None, Arrive reply2 None]
             (new_session svc cpw t)
         in rs_out s = encode_simple ''OK'' @ reply2
          \<and> rs_out c = encode_array [''HELLO'', ''2''] @ encode_array [''AUTH'', cpw] \<and> rs_hellos c = 1
          \<and> (if cpw = spw then sr = Ready None \<and> cr = Ready None
             else sr = Ready (Some (status_error Unauthenticated ''resp: AUTH failed''))
               \<and> cr = Ready (Some (status_error Unauthenticated ''ERR invalid password'')))"
  using assms client_side [OF assms(1) refl, of "cpw = spw" svc t] server_side [OF assms(2,3), of svc t]
  by (simp add: Let_def new_session_def)

lemma resp_handshakes_agree_witness:
  "let (sr, ses, s) = server_handshake [Arrive (encode_array [''HELLO'', ''2'']) None,
             Arrive (encode_array [''AUTH'', ''x'']) None] (new_session ''s'' ''y'' 1);
           reply2 = (if ''x'' = ''y'' then encode_simple ''OK'' else encode_error ''ERR invalid password'');
           (cr, ces, c) = client_handshake [Arrive (encode_simple ''OK'') None, Arrive reply2 None]
             (new_session ''s'' ''x'' 1)
         in rs_out s = encode_simple ''OK'' @ reply2
          \<and> rs_out c = encode_array [''HELLO'', ''2''] @ encode_array [''AUTH'', ''x''] \<and> rs_hellos c = 1
          \<and> (if ''x'' = ''y'' then sr = Ready None \<and> cr = Ready None
             else sr = Ready (Some (status_error Unauthenticated ''resp: AUTH failed''))
               \<and> cr = Ready (Some (status_error Unauthenticated ''ERR invalid password'')))"
  by (rule resp_handshakes_agree) simp_all

section \<open>The window in which a reply goes astray\<close>

definition ping_method :: rpc_method where
  "ping_method = \<lparr>m_fullName = ''redis.Redis.PING'', m_service = ''redis.Redis'', m_name = ''PING'', m_shape = Unary\<rparr>"

text \<open>
  Call 0 sends a GET and gives up waiting: its \<open>Recv\<close> has made it terminal but has not yet marked the
  session bad. A \<open>Close\<close> in this window takes the call for a finished one and releases the session as
  reusable; the next call sends a PING and takes the reply to the GET.
\<close>

definition astray_steps :: "world_step list" where
  "astray_steps =
     [EOpen None get_method, ESend 0 (encode_args [''k'']), EWrite 0, ESent 0, EUp 99, EServe,
      ERecv 0, ECtx 0 ctx_Canceled, EFail 0, EClose 0, EEnd 0,
      EOpen None ping_method, ESend 1 (encode_args []), EWrite 1, EDown 99, ERecv 1, ERead 1, EMark 0]"

lemma reply_goes_astray:
  "let w = run_steps world_do astray_steps new_world in
    map snd (w_reqs w) = [[''GET'', ''k''], [''PING'']] \<and> w_recv w = [(1, null_value (CHR ''$''))]"
  by code_simp

end
