(* ===== verification/Resp_Link.thy ===== *)
theory Resp_Link
  imports Resp_Session_Props Registry
begin

text \<open>
  The RESP transport around its sessions (src/example/resp/link.go): options, the dial the pool uses,
  the handshake of an accepted connection, and the end of the transport. The TCP listener and dialler
  (src/transport/tcp) are arguments, as what they answer. Then the pass-through codec
  (src/example/resp/codec.go) and the table through which a SUBSCRIBE handler learns that its peer is
  gone (src/example/resp/session.go).
\<close>

section \<open>Options\<close>

record resp_transport =
  rt_service :: string
  rt_password :: string
  rt_openTimeout :: int
  rt_pool :: pool_options
  rt_conn :: "pool option"
  rt_trClosed :: bool
  rt_hellos :: int
  rt_dials :: int

datatype resp_option =
    RWithService string
  | RWithPassword string
  | RWithOpenTimeout int
  | RWithPool int int int int
  | RWithHandshakeTimeout int

fun apply_resp_option :: "resp_option \<Rightarrow> resp_transport \<Rightarrow> resp_transport" where
  "apply_resp_option (RWithService name) a = (if name \<noteq> [] then a\<lparr>rt_service := name\<rparr> else a)"
| "apply_resp_option (RWithPassword pw) a = a\<lparr>rt_password := pw\<rparr>"
| "apply_resp_option (RWithOpenTimeout d) a = (if 0 < d then a\<lparr>rt_openTimeout := d\<rparr> else a)"
| "apply_resp_option (RWithPool per idle idleTimeout lifetime) a =
     a\<lparr>rt_pool := (rt_pool a)\<lparr>MaxSessionsPerEndpoint := per, MaxIdleSessions := idle,
                              SessionIdleTimeout := idleTimeout, MaxSessionLifetime := lifetime\<rparr>\<rparr>"
| "apply_resp_option (RWithHandshakeTimeout d) a =
     (if 0 < d then a\<lparr>rt_pool := (rt_pool a)\<lparr>HandshakeTimeout := d\<rparr>\<rparr> else a)"

definition default_open_timeout :: int where "default_open_timeout = 10000000000"

definition resp_new :: "resp_option option list \<Rightarrow> resp_transport" where
  "resp_new opts =
     (let a = fold (\<lambda>opt a. case opt of None \<Rightarrow> a | Some x \<Rightarrow> apply_resp_option x a) opts
                \<lparr>rt_service = resp_service, rt_password = [], rt_openTimeout = default_open_timeout,
                 rt_pool = default_pool_options, rt_conn = None, rt_trClosed = False, rt_hellos = 0, rt_dials = 0\<rparr>;
          pool = (rt_pool a)\<lparr>MaxCallsPerConn := 1\<rparr>
      in a\<lparr>rt_pool := pool, rt_conn := Some (new_pool pool)\<rparr>)"

definition resp_limits :: "resp_transport \<Rightarrow> transport_limits" where
  "resp_limits a =
     \<lparr>MaxMessageSize = 0, MaxFrameSize = 0, MaxMetadataSize = 0, MaxInboundMetadataSize = 0,
      ReadAheadMessages = 0, OpenTimeout = rt_openTimeout a, MaxDrainBytes = 0\<rparr>"

definition resp_pool_limits :: "resp_transport \<Rightarrow> pool_limits" where
  "resp_pool_limits a = to_pool_limits (case rt_conn a of Some p \<Rightarrow> p_cfg p | None \<Rightarrow> rt_pool a)"

section \<open>Connections\<close>

text \<open>
  \<open>assertByteStream\<close> of a connection that may not be a \<open>CarrierConn\<close>, or whose carrier may not be a byte
  stream; the texts name its Go types.
\<close>

record resp_conn =
  cn_isCarrier :: bool
  cn_isByteStream :: bool
  cn_type :: string
  cn_carrierType :: string

definition assert_byte_stream :: "resp_conn \<Rightarrow> go_error option" where
  "assert_byte_stream c =
     (if \<not> cn_isCarrier c then
        Some (ErrNew (''resp: Conn '' @ cn_type c @ '' is not transport.CarrierConn''))
      else if \<not> cn_isByteStream c then
        Some (ErrNew (''resp: Carrier '' @ cn_carrierType c @ '' is not ByteStreamCarrier''))
      else None)"

definition transport_session :: "resp_transport \<Rightarrow> rsession" where
  "transport_session a = new_session (rt_service a) (rt_password a) (rt_openTimeout a)"

text \<open>
  \<open>dial\<close>: what the TCP dial answered, and what happens on the connection during the handshake. The
  boolean says that the connection was closed on the way out; a handshake still parked has no
  result. \<open>closeErr\<close> is the error the read loop ends with when the session is closed.
\<close>

definition resp_dial :: "go_error + resp_conn \<Rightarrow> sess_event list \<Rightarrow> go_error \<Rightarrow> resp_transport
    \<Rightarrow> (go_error + rsession) attempt \<times> bool \<times> resp_transport" where
  "resp_dial dialed evs closeErr a =
     (case dialed of
        Inl e \<Rightarrow> (Ready (Inl e), False, a)
      | Inr conn \<Rightarrow>
          let a1 = a\<lparr>rt_dials := rt_dials a + 1\<rparr> in
          case assert_byte_stream conn of
            Some e \<Rightarrow> (Ready (Inl e), True, a1)
          | None \<Rightarrow>
              case client_handshake evs (transport_session a1) of
                (r, _, s) \<Rightarrow>
                  let a2 = a1\<lparr>rt_hellos := rt_hellos a1 + rs_hellos s\<rparr> in
                  (case r of
                     Waits \<Rightarrow> (Waits, False, a2)
                   | Crash \<Rightarrow> (Crash, False, a2)
                   | Ready (Some e) \<Rightarrow> (Ready (Inl e), rs_connClosed (snd (close_session None closeErr s)), a2)
                   | Ready None \<Rightarrow> (Ready (Inr s), False, a2)))"

text \<open>\<open>serverConn.Handshake\<close>: the session is kept only when the handshake succeeded.\<close>

definition server_conn_handshake :: "resp_conn \<Rightarrow> sess_event list \<Rightarrow> go_error \<Rightarrow> resp_transport
    \<Rightarrow> go_error option attempt \<times> bool \<times> rsession option" where
  "server_conn_handshake conn evs closeErr a =
     (case assert_byte_stream conn of
        Some e \<Rightarrow> (Ready (Some e), False, None)
      | None \<Rightarrow>
          case server_handshake evs (transport_session a) of
            (Ready None, _, s) \<Rightarrow> (Ready None, False, Some s)
          | (Ready (Some e), _, s) \<Rightarrow> (Ready (Some e), rs_connClosed (snd (close_session None closeErr s)), None)
          | (Waits, _, s) \<Rightarrow> (Waits, False, None)
          | (Crash, _, s) \<Rightarrow> (Crash, False, None))"

text \<open>\<open>Close\<close>: the pool, then the listener; the pool's own \<open>Close\<close> has no error to report.\<close>

definition resp_transport_close :: "go_error option \<Rightarrow> resp_transport \<Rightarrow> go_error option \<times> resp_transport" where
  "resp_transport_close trErr a =
     (trErr, a\<lparr>rt_conn := map_option pool_close (rt_conn a), rt_trClosed := True\<rparr>)"

section \<open>The pass-through codec\<close>

text \<open>The Go values a message can be: bytes, a string, a pointer to either (None is nil), or another type.\<close>

datatype raw_value = RawBytes bytes | RawString string | RawBytesPtr "bytes option" | RawStringPtr "string option"
  | RawOther string

fun raw_marshal :: "raw_value \<Rightarrow> go_error + bytes" where
  "raw_marshal (RawBytes x) = Inr x"
| "raw_marshal (RawString x) = Inr x"
| "raw_marshal (RawBytesPtr None) = Inl (ErrNew ''resp: Marshal nil *[]byte'')"
| "raw_marshal (RawBytesPtr (Some x)) = Inr x"
| "raw_marshal (RawStringPtr None) = Inl (ErrNew ''resp: Marshal nil *string'')"
| "raw_marshal (RawStringPtr (Some x)) = Inr x"
| "raw_marshal (RawOther t) = Inl (ErrNew (''resp: BytesCodec unsupported type '' @ t))"

text \<open>Decoding into a nil pointer panics: None.\<close>

fun raw_unmarshal :: "bytes \<Rightarrow> raw_value \<Rightarrow> (go_error + raw_value) option" where
  "raw_unmarshal b (RawBytesPtr (Some _)) = Some (Inr (RawBytesPtr (Some b)))"
| "raw_unmarshal b (RawStringPtr (Some _)) = Some (Inr (RawStringPtr (Some b)))"
| "raw_unmarshal b (RawBytesPtr None) = None"
| "raw_unmarshal b (RawStringPtr None) = None"
| "raw_unmarshal b (RawBytes _) = Some (Inl (ErrNew ''resp: BytesCodec unsupported type []uint8''))"
| "raw_unmarshal b (RawString _) = Some (Inl (ErrNew ''resp: BytesCodec unsupported type string''))"
| "raw_unmarshal b (RawOther t) = Some (Inl (ErrNew (''resp: BytesCodec unsupported type '' @ t)))"

lemma raw_round_trip:
  "raw_marshal v = Inr b \<Longrightarrow> raw_unmarshal b (RawBytesPtr (Some x)) = Some (Inr (RawBytesPtr (Some b)))
    \<and> raw_marshal (RawBytesPtr (Some b)) = raw_marshal v"
  by (cases v) auto

section \<open>The hand-off to a SUBSCRIBE handler\<close>

text \<open>The table from goroutine numbers to the session whose end a handler may wait for.\<close>

definition bind_peer_gone :: "nat \<Rightarrow> nat \<Rightarrow> (nat, nat) gomap \<Rightarrow> (nat, nat) gomap" where
  "bind_peer_gone goid sess t = alist_put goid sess t"

definition clear_peer_gone :: "nat \<Rightarrow> (nat, nat) gomap \<Rightarrow> (nat, nat) gomap" where
  "clear_peer_gone goid t = filter (\<lambda>(g, _). g \<noteq> goid) t"

definition peer_gone :: "nat \<Rightarrow> (nat, nat) gomap \<Rightarrow> nat option" where
  "peer_gone goid t = map_of t goid"

lemma peer_gone_table:
  "peer_gone g (bind_peer_gone g s t) = Some s" "peer_gone g (clear_peer_gone g t) = None"
  "h \<noteq> g \<Longrightarrow> peer_gone h (bind_peer_gone g s t) = peer_gone h t"
  by (simp_all add: peer_gone_def bind_peer_gone_def clear_peer_gone_def) (induction t; auto)

section \<open>What a dial leaves behind\<close>

definition close_synced :: "rsession \<Rightarrow> bool" where
  "close_synced s \<longleftrightarrow> (rs_closed s \<longrightarrow> rs_connClosed s)"

lemma synced_steps:
  "close_synced s \<Longrightarrow> close_synced (read_loop_step p err s)"
  "close_synced s \<Longrightarrow> close_synced (snd (close_session ce re s))"
  "close_synced s \<Longrightarrow> close_synced (snd (write_raw b s))"
  "close_synced s \<Longrightarrow> close_synced (snd (read_value_try s))"
  by (auto simp: close_synced_def read_loop_step_def close_session_def write_raw_def resp_mark_bad_def
      read_value_try_def Let_def split: option.split parsed.split)

lemma closing_closes: "close_synced s \<Longrightarrow> rs_connClosed (snd (close_session ce re s))"
  by (auto simp: close_synced_def close_session_def read_loop_step_def Let_def split: option.split)

lemma synced_read: "close_synced s \<Longrightarrow> close_synced (snd (snd (read_value evs s)))"
proof (induction evs arbitrary: s)
  case Nil
  then show ?case using synced_steps(4) [OF Nil]
    by (cases "read_value_try s"; cases "fst (read_value_try s)") (simp_all add: read_value.simps)
next
  case (Cons ev evs)
  then show ?case using synced_steps(4) [OF Cons.prems]
    by (cases "read_value_try s"; cases "fst (read_value_try s)"; cases ev)
      (simp_all add: read_value.simps [of "ev # evs" for ev] synced_steps)
qed

lemma synced_reading:
  assumes "close_synced s" "\<And>r es s1. close_synced s1 \<Longrightarrow> close_synced (snd (snd (k r es s1)))"
  shows "close_synced (snd (snd (reading evs s k)))"
  using synced_read [OF assms(1), of evs] assms(2)
  by (cases "read_value evs s"; cases "fst (read_value evs s)") (auto simp: reading_def)

lemma synced_writing:
  assumes "close_synced s" "\<And>s1. close_synced s1 \<Longrightarrow> close_synced (snd (snd (f s1)))"
    "\<And>e s1. close_synced s1 \<Longrightarrow> close_synced (snd (snd (g e s1)))"
  shows "close_synced (snd (snd (case write_raw b s of (None, s1) \<Rightarrow> f s1 | (Some e, s1) \<Rightarrow> g e s1)))"
  using synced_steps(3) [OF assms(1), of b] assms(2,3)
  by (cases "write_raw b s"; cases "fst (write_raw b s)") auto

lemma synced_last:
  "close_synced s \<Longrightarrow> close_synced (snd (snd (case write_raw b s of (e, s1) \<Rightarrow> (Ready e, es, s1))))"
  using synced_steps(3) [of s b] by (cases "write_raw b s") simp

lemma synced_hellos: "close_synced (s\<lparr>rs_hellos := n\<rparr>) = close_synced s"
  by (simp add: close_synced_def)

lemma synced_client: "close_synced s \<Longrightarrow> close_synced (snd (snd (client_handshake evs s)))"
  unfolding client_handshake_def write_command_def
  by (intro synced_writing) (auto intro!: synced_writing synced_reading simp: synced_hellos split: sum.split)

lemma synced_server: "close_synced s \<Longrightarrow> close_synced (snd (snd (server_handshake evs s)))"
  unfolding server_handshake_def
  by (intro synced_reading) (auto intro!: synced_writing synced_reading synced_last synced_steps(3) split: sum.split)

text \<open>
  No failed set-up leaves a connection behind: when a dial fails after TCP connected, or the
  handshake of an accepted connection fails after its session was made, the connection is closed.
\<close>

lemma failed_dial_closes:
  "resp_dial (Inr conn) evs closeErr a = (Ready (Inl e), closed, a') \<Longrightarrow> closed"
proof -
  assume d: "resp_dial (Inr conn) evs closeErr a = (Ready (Inl e), closed, a')"
  let ?s = "transport_session (a\<lparr>rt_dials := rt_dials a + 1\<rparr>)"
  obtain r es s where h: "client_handshake evs ?s = (r, es, s)" by (cases "client_handshake evs ?s")
  have "close_synced ?s" by (simp add: close_synced_def transport_session_def new_session_def)
  from synced_client [OF this, of evs] h have "close_synced s" by simp
  with d h show ?thesis
    by (auto simp: resp_dial_def Let_def closing_closes split: option.splits attempt.splits)
qed

lemma failed_handshake_closes:
  assumes "assert_byte_stream conn = None"
    "server_conn_handshake conn evs closeErr a = (Ready (Some e), closed, s')"
  shows "closed \<and> s' = None"
proof -
  let ?s = "transport_session a"
  obtain r es s where h: "server_handshake evs ?s = (r, es, s)" by (cases "server_handshake evs ?s")
  have "close_synced ?s" by (simp add: close_synced_def transport_session_def new_session_def)
  from synced_server [OF this, of evs] h have "close_synced s" by simp
  with assms h show ?thesis
    by (auto simp: server_conn_handshake_def closing_closes split: option.splits attempt.splits)
qed

end
