(* ===== verification/Grpc_Health.thy ===== *)
theory Grpc_Health
  imports Descriptor Status
begin

text \<open>
  The gRPC health service (src/transport/grpc/health/health.go) and the retry helper
  (src/transport/grpc/retry/retry.go). A health server keeps a status per service and, for every
  \<open>Watch\<close> in progress, a channel with room for one status; each operation below is one section of
  its lock, and the steps of several watchers and of the owner interleave freely. Statuses are those
  of the health protocol's generated code.
\<close>

section \<open>The health server\<close>

datatype serving_status = Hs_UNKNOWN | Hs_SERVING | Hs_NOT_SERVING | Hs_SERVICE_UNKNOWN

text \<open>
  A watcher is known by the number its \<open>Watch\<close> took. \<open>wt_last\<close> is \<open>lastSent\<close> (None for -1) and
  \<open>wt_sent\<close> what the stream was given so far.
\<close>

record watcher =
  wt_service :: string
  wt_chan :: "serving_status option"
  wt_last :: "serving_status option"
  wt_sent :: "serving_status list"
  wt_done :: bool

record health_server =
  hl_shutdown :: bool
  hl_status :: "(string, serving_status) gomap"
  hl_updates :: "(string, nat list) gomap"
  hl_watchers :: "watcher list"

definition new_health :: health_server where
  "new_health = \<lparr>hl_shutdown = False, hl_status = [([], Hs_SERVING)], hl_updates = [], hl_watchers = []\<rparr>"

definition offer_status :: "serving_status \<Rightarrow> watcher \<Rightarrow> watcher" where
  "offer_status st w = (if wt_chan w = None then w\<lparr>wt_chan := Some st\<rparr> else w)"

fun offer_all :: "serving_status \<Rightarrow> nat list \<Rightarrow> watcher list \<Rightarrow> watcher list" where
  "offer_all st [] ws = ws"
| "offer_all st (i # is) ws = offer_all st is (ws[i := offer_status st (ws ! i)])"

definition watchers_of :: "string \<Rightarrow> health_server \<Rightarrow> nat list" where
  "watchers_of service h = (case map_of (hl_updates h) service of None \<Rightarrow> [] | Some is \<Rightarrow> is)"

definition set_serving_locked :: "string \<Rightarrow> serving_status \<Rightarrow> health_server \<Rightarrow> health_server" where
  "set_serving_locked service st h =
     h\<lparr>hl_status := alist_put service st (hl_status h),
       hl_watchers := offer_all st (watchers_of service h) (hl_watchers h)\<rparr>"

definition set_serving_status :: "string \<Rightarrow> serving_status \<Rightarrow> health_server \<Rightarrow> health_server" where
  "set_serving_status service st h = (if hl_shutdown h then h else set_serving_locked service st h)"

definition health_shutdown :: "health_server \<Rightarrow> health_server" where
  "health_shutdown h =
     foldl (\<lambda>h service. set_serving_locked service Hs_NOT_SERVING h) (h\<lparr>hl_shutdown := True\<rparr>)
       (map fst (hl_status h))"

section \<open>Handlers\<close>

text \<open>
  \<open>recvErr\<close> is the error of receiving the request; \<open>io.EOF\<close> counts as an empty request for the unary
  methods. The result is what is sent, or the error the handler returns.
\<close>

definition health_check :: "go_error option \<Rightarrow> string \<Rightarrow> health_server \<Rightarrow> go_error + serving_status" where
  "health_check recvErr service h =
     (case recvErr of
        Some e \<Rightarrow> if e \<noteq> err_EOF then Inl e else
          (case map_of (hl_status h) [] of
             Some st \<Rightarrow> Inr st
           | None \<Rightarrow> Inl (status_error NotFound ''unknown service''))
      | None \<Rightarrow>
          (case map_of (hl_status h) service of
             Some st \<Rightarrow> Inr st
           | None \<Rightarrow> Inl (status_error NotFound ''unknown service'')))"

definition max_allowed_services :: nat where "max_allowed_services = 100"

definition health_list ::
    "go_error option \<Rightarrow> health_server \<Rightarrow> go_error + (string, serving_status) gomap" where
  "health_list recvErr h =
     (if recvErr \<noteq> None \<and> recvErr \<noteq> Some err_EOF then Inl (the recvErr)
      else if max_allowed_services < length (hl_status h) then
        Inl (status_error ResourceExhausted ''server health list exceeds maximum capacity: 100'')
      else Inr (hl_status h))"

text \<open>A \<open>Watch\<close> that starts; \<open>health_watch\<close> is the handler up to its loop.\<close>

definition watch_start :: "string \<Rightarrow> health_server \<Rightarrow> nat \<times> health_server" where
  "watch_start service h =
     (let i = length (hl_watchers h);
          st = (case map_of (hl_status h) service of Some st \<Rightarrow> st | None \<Rightarrow> Hs_SERVICE_UNKNOWN) in
      (i, h\<lparr>hl_watchers := hl_watchers h @
              [\<lparr>wt_service = service, wt_chan = Some st, wt_last = None, wt_sent = [], wt_done = False\<rparr>],
            hl_updates := alist_upd service (\<lambda>m. case m of None \<Rightarrow> [i] | Some is \<Rightarrow> is @ [i]) (hl_updates h)\<rparr>))"

definition health_watch ::
    "go_error option \<Rightarrow> string \<Rightarrow> health_server \<Rightarrow> (go_error + nat) \<times> health_server" where
  "health_watch recvErr service h =
     (case recvErr of
        Some e \<Rightarrow> (Inl e, h)
      | None \<Rightarrow> (let (i, h') = watch_start service h in (Inr i, h')))"

text \<open>One turn of the loop of \<open>Watch\<close>; \<open>sendErr\<close> is the error of the send, which ends the watch.\<close>

definition watch_end :: "nat \<Rightarrow> health_server \<Rightarrow> health_server" where
  "watch_end i h =
     h\<lparr>hl_updates := map (\<lambda>(s, is). if s = wt_service (hl_watchers h ! i) then (s, remove1 i is) else (s, is))
                         (hl_updates h),
       hl_watchers := (hl_watchers h)[i := (hl_watchers h ! i)\<lparr>wt_done := True\<rparr>]\<rparr>"

definition watch_turn :: "bool \<Rightarrow> nat \<Rightarrow> health_server \<Rightarrow> health_server" where
  "watch_turn sendFails i h =
     (let w = hl_watchers h ! i in
      case wt_chan w of
        None \<Rightarrow> h
      | Some st \<Rightarrow>
          if wt_last w = Some st then h\<lparr>hl_watchers := (hl_watchers h)[i := w\<lparr>wt_chan := None\<rparr>]\<rparr>
          else if sendFails then
            watch_end i (h\<lparr>hl_watchers := (hl_watchers h)[i := w\<lparr>wt_chan := None, wt_last := Some st\<rparr>]\<rparr>)
          else
            h\<lparr>hl_watchers := (hl_watchers h)[i :=
                w\<lparr>wt_chan := None, wt_last := Some st, wt_sent := wt_sent w @ [st]\<rparr>]\<rparr>)"

section \<open>Runs\<close>

datatype health_step =
    HSet string serving_status
  | HShutdown
  | HWatch "go_error option" string
  | HTurn bool nat
  | HEnd nat

definition health_do :: "health_step \<Rightarrow> health_server \<Rightarrow> health_server" where
  "health_do e h =
     (case e of
        HSet s st \<Rightarrow> set_serving_status s st h
      | HShutdown \<Rightarrow> health_shutdown h
      | HWatch re s \<Rightarrow> snd (health_watch re s h)
      | HTurn f i \<Rightarrow>
          if i < length (hl_watchers h) \<and> \<not> wt_done (hl_watchers h ! i) then watch_turn f i h else h
      | HEnd i \<Rightarrow>
          if i < length (hl_watchers h) \<and> \<not> wt_done (hl_watchers h ! i) then watch_end i h else h)"

subsection \<open>After a shutdown\<close>

definition all_down :: "health_server \<Rightarrow> bool" where
  "all_down h \<longleftrightarrow> hl_shutdown h \<and> list_all (\<lambda>st. st = Hs_NOT_SERVING) (map snd (hl_status h))"

lemma put_down:
  "map_of (hl_status (foldl (\<lambda>h s. set_serving_locked s Hs_NOT_SERVING h) h ss)) k =
     (if k \<in> set ss then Some Hs_NOT_SERVING else map_of (hl_status h) k)"
  by (induction ss arbitrary: h) (auto simp: set_serving_locked_def)

lemma put_keys:
  "distinct (map fst (hl_status h)) \<Longrightarrow>
    distinct (map fst (hl_status (foldl (\<lambda>h s. set_serving_locked s Hs_NOT_SERVING h) h ss)))"
  by (induction ss arbitrary: h) (simp_all add: set_serving_locked_def)

lemma put_flag: "hl_shutdown (foldl (\<lambda>h s. set_serving_locked s Hs_NOT_SERVING h) h ss) = hl_shutdown h"
  by (induction ss arbitrary: h) (simp_all add: set_serving_locked_def)

definition keys_ok :: "health_server \<Rightarrow> bool" where
  "keys_ok h \<longleftrightarrow> distinct (map fst (hl_status h))"

lemma watch_status [simp]:
  "hl_status (watch_end i h) = hl_status h" "hl_status (watch_turn f i h) = hl_status h"
  "hl_shutdown (watch_end i h) = hl_shutdown h" "hl_shutdown (watch_turn f i h) = hl_shutdown h"
  by (simp_all add: watch_end_def watch_turn_def Let_def split: option.split)

lemma keys_set: "keys_ok h \<Longrightarrow> keys_ok (set_serving_locked s st h)"
  by (simp add: keys_ok_def set_serving_locked_def)

lemma keys_shutdown: "keys_ok h \<Longrightarrow> keys_ok (health_shutdown h)"
  by (simp add: keys_ok_def health_shutdown_def put_keys)

lemma keys_watch: "keys_ok (snd (health_watch re s h)) = keys_ok h"
  by (simp add: keys_ok_def health_watch_def watch_start_def Let_def split: option.split)

lemma keys_turns: "keys_ok (watch_turn f i h) = keys_ok h" "keys_ok (watch_end i h) = keys_ok h"
  by (simp_all add: keys_ok_def)

lemma keys_step: "keys_ok h \<Longrightarrow> keys_ok (health_do e h)"
  by (cases e)
    (simp_all add: health_do_def set_serving_status_def keys_set keys_shutdown keys_watch keys_turns)

interpretation health_keys: invariant_machine health_do keys_ok
  by unfold_locales (rule keys_step)

lemma down_by_lookup:
  "distinct (map fst xs) \<Longrightarrow> list_all (\<lambda>st. st = c) (map snd xs) \<longleftrightarrow> (\<forall>k st. map_of xs k = Some st \<longrightarrow> st = c)"
  by (auto simp: list_all_iff)

lemma shutdown_down: "keys_ok h \<Longrightarrow> all_down (health_shutdown h)"
proof -
  assume k: "keys_ok h"
  let ?h = "health_shutdown h"
  have d: "distinct (map fst (hl_status ?h))" using k by (simp add: keys_ok_def health_shutdown_def put_keys)
  have "st = Hs_NOT_SERVING" if "map_of (hl_status ?h) s = Some st" for s st
  proof (cases "s \<in> fst ` set (hl_status h)")
    case True
    with that show ?thesis by (auto simp: health_shutdown_def put_down split: if_splits)
  next
    case False
    then have "map_of (hl_status h) s = None" by (simp add: map_of_eq_None_iff)
    with that show ?thesis by (auto simp: health_shutdown_def put_down split: if_splits)
  qed
  with d have "list_all (\<lambda>st. st = Hs_NOT_SERVING) (map snd (hl_status ?h))" by (simp add: down_by_lookup)
  moreover have "hl_shutdown ?h" by (simp add: health_shutdown_def put_flag)
  ultimately show ?thesis by (simp add: all_down_def)
qed

lemma down_step: "keys_ok h \<and> all_down h \<Longrightarrow> keys_ok (health_do e h) \<and> all_down (health_do e h)"
  using keys_step [of h e] shutdown_down [of h]
  by (cases e) (auto simp: all_down_def health_do_def set_serving_status_def health_watch_def watch_start_def Let_def split: option.splits)

lemma check_down:
  "list_all (\<lambda>st. st = Hs_NOT_SERVING) (map snd (hl_status h)) \<Longrightarrow>
    health_check None s h = Inr Hs_NOT_SERVING
    \<or> health_check None s h = Inl (status_error NotFound ''unknown service'')"
  by (cases "map_of (hl_status h) s") (force simp: health_check_def list_all_iff dest: map_of_SomeD)+

interpretation health_down: invariant_machine health_do "\<lambda>h. keys_ok h \<and> all_down h"
  by unfold_locales (rule down_step)

text \<open>
  C31: a shutdown of the health server is final. After any run, once \<open>Shutdown\<close> has been called, no
  later run of status changes and watches brings a service back: every \<open>Check\<close> answers
  \<open>NOT_SERVING\<close> or \<open>NotFound\<close>, for every service, and \<open>List\<close> reports nothing else.
\<close>

theorem health_shutdown_final:
  "let h = run_steps health_do es' (health_shutdown (run_steps health_do es new_health)) in
    health_check None service h \<in> {Inr Hs_NOT_SERVING, Inl (status_error NotFound ''unknown service'')}
    \<and> list_all (\<lambda>st. st = Hs_NOT_SERVING) (map snd (hl_status h))"
proof -
  have "keys_ok (run_steps health_do es new_health)"
    by (rule health_keys.run_inv) (simp add: keys_ok_def new_health_def)
  then have "keys_ok (health_shutdown (run_steps health_do es new_health))
      \<and> all_down (health_shutdown (run_steps health_do es new_health))"
    using keys_step [of "run_steps health_do es new_health" HShutdown] shutdown_down by (simp add: health_do_def)
  from health_down.run_inv [OF this, of es']
  have "all_down (run_steps health_do es' (health_shutdown (run_steps health_do es new_health)))" by blast
  then show ?thesis by (auto simp: Let_def all_down_def dest: check_down)
qed

subsection \<open>What a watcher sees\<close>

fun no_repeats :: "'a list \<Rightarrow> bool" where
  "no_repeats (x # y # xs) = (x \<noteq> y \<and> no_repeats (y # xs))"
| "no_repeats _ = True"

lemma no_repeats_snoc: "no_repeats (xs @ [x]) = (no_repeats xs \<and> (xs \<noteq> [] \<longrightarrow> last xs \<noteq> x))"
  by (induction xs rule: no_repeats.induct) auto

definition watcher_ok :: "watcher \<Rightarrow> bool" where
  "watcher_ok w \<longleftrightarrow> no_repeats (wt_sent w)
     \<and> (wt_done w \<or> wt_last w = (if wt_sent w = [] then None else Some (last (wt_sent w))))"

definition watchers_ok :: "health_server \<Rightarrow> bool" where
  "watchers_ok h \<longleftrightarrow> list_all watcher_ok (hl_watchers h)"

lemma in_set_upd: "y \<in> set (xs[i := x]) \<Longrightarrow> y = x \<or> y \<in> set xs"
  using set_update_subset_insert [of xs i x] by auto

lemma list_all_upd: "list_all P xs \<Longrightarrow> (i < length xs \<Longrightarrow> P x) \<Longrightarrow> list_all P (xs[i := x])"
  by (cases "i < length xs") (auto simp: list_all_iff not_less list_update_beyond dest: in_set_upd)

lemma offer_ok: "watcher_ok (offer_status st w) = watcher_ok w"
  by (simp add: watcher_ok_def offer_status_def)

lemma offer_all_ok: "list_all watcher_ok ws \<Longrightarrow> list_all watcher_ok (offer_all st is ws)"
proof (induction "is" arbitrary: ws)
  case (Cons i "is")
  have "list_all watcher_ok (ws[i := offer_status st (ws ! i)])"
    using Cons.prems by (intro list_all_upd) (simp_all add: offer_ok list_all_length)
  then show ?case by (simp add: Cons.IH)
qed simp

lemma set_serving_watchers: "watchers_ok h \<Longrightarrow> watchers_ok (set_serving_locked s st h)"
  by (simp add: watchers_ok_def set_serving_locked_def offer_all_ok)

lemma shutdown_watchers: "watchers_ok h \<Longrightarrow> watchers_ok (health_shutdown h)"
proof -
  have "watchers_ok h \<Longrightarrow> watchers_ok (foldl (\<lambda>h s. set_serving_locked s Hs_NOT_SERVING h) h ss)" for h ss
    by (induction ss arbitrary: h) (simp_all add: set_serving_watchers)
  then show "watchers_ok h \<Longrightarrow> watchers_ok (health_shutdown h)"
    by (simp add: health_shutdown_def watchers_ok_def)
qed

lemma start_watchers: "watchers_ok h \<Longrightarrow> watchers_ok (snd (health_watch re s h))"
  by (simp add: watchers_ok_def health_watch_def watch_start_def Let_def watcher_ok_def split: option.split)

lemma end_watchers: "watchers_ok h \<Longrightarrow> watchers_ok (watch_end i h)"
proof -
  assume l: "watchers_ok h"
  have "list_all watcher_ok ((hl_watchers h)[i := (hl_watchers h ! i)\<lparr>wt_done := True\<rparr>])"
    using l by (intro list_all_upd) (simp_all add: watchers_ok_def watcher_ok_def list_all_length)
  then show ?thesis by (simp add: watchers_ok_def watch_end_def)
qed

lemma turn_watchers:
  assumes ok: "watchers_ok h" and i: "i < length (hl_watchers h)" "\<not> wt_done (hl_watchers h ! i)"
  shows "watchers_ok (watch_turn f i h)"
proof -
  define w where "w = hl_watchers h ! i"
  have w: "watcher_ok w" "\<not> wt_done w" using ok i by (auto simp: w_def watchers_ok_def list_all_length)
  have sent: "watcher_ok (w\<lparr>wt_chan := None, wt_last := Some st, wt_sent := wt_sent w @ [st]\<rparr>)" if "wt_last w \<noteq> Some st" for st
    using w that by (auto simp: watcher_ok_def no_repeats_snoc split: if_splits)
  show ?thesis
  proof (cases "wt_chan w")
    case None
    then show ?thesis using ok by (simp add: watch_turn_def Let_def w_def)
  next
    case (Some st)
    have l: "list_all watcher_ok (hl_watchers h)" using ok by (simp add: watchers_ok_def)
    show ?thesis
      using Some w l sent [of st]
      by (auto simp: watch_turn_def Let_def w_def [symmetric] watchers_ok_def watch_end_def i
          intro!: list_all_upd) (auto simp: watcher_ok_def)
  qed
qed

text \<open>No watcher is ever sent the same status twice in a row.\<close>

lemma watchers_step: "watchers_ok h \<Longrightarrow> watchers_ok (health_do e h)"
  by (cases e)
    (simp_all add: health_do_def set_serving_status_def set_serving_watchers shutdown_watchers start_watchers
      end_watchers turn_watchers)

interpretation health_watchers: invariant_machine health_do watchers_ok
  by unfold_locales (rule watchers_step)

lemma watch_no_repeats:
  "list_all (\<lambda>w. no_repeats (wt_sent w)) (hl_watchers (run_steps health_do es new_health))"
proof -
  have "watchers_ok (run_steps health_do es new_health)"
    by (rule health_watchers.run_inv) (simp add: watchers_ok_def new_health_def)
  then show ?thesis by (auto simp: watchers_ok_def watcher_ok_def list_all_iff)
qed

text \<open>
  The initial status waits in the channel when the server shuts down; the change is dropped, and the
  watcher is left with \<open>SERVING\<close> and an empty channel, though the service never serves again.
\<close>

lemma watcher_misses_shutdown:
  "let h = run_steps health_do [HWatch None [], HShutdown, HTurn False 0] new_health in
    wt_sent (hl_watchers h ! 0) = [Hs_SERVING] \<and> wt_chan (hl_watchers h ! 0) = None
    \<and> health_check None [] h = Inr Hs_NOT_SERVING"
  by code_simp

section \<open>Retrying an open\<close>

text \<open>
  \<open>Attempts\<close>: \<open>open k\<close> is the outcome of the \<open>k\<close>-th attempt, counted from 0. The result comes with
  the number of attempts made.
\<close>

definition default_retriable :: "code \<Rightarrow> bool" where
  "default_retriable c \<longleftrightarrow> c = Unavailable \<or> c = DeadlineExceeded"

fun attempts_loop :: "(code \<Rightarrow> bool) \<Rightarrow> (nat \<Rightarrow> go_error + 'a) \<Rightarrow> nat \<Rightarrow> nat \<Rightarrow> go_error option
    \<Rightarrow> (go_error option + 'a) \<times> nat" where
  "attempts_loop retriable opn 0 k lastErr = (Inl lastErr, k)"
| "attempts_loop retriable opn (Suc left) k lastErr =
     (case opn k of
        Inr st \<Rightarrow> (Inr st, Suc k)
      | Inl e \<Rightarrow>
          if \<not> retriable (code_of (Some e)) then (Inl (Some e), Suc k)
          else attempts_loop retriable opn left (Suc k) (Some e))"

definition retry_attempts :: "int \<Rightarrow> (code \<Rightarrow> bool) option \<Rightarrow> (nat \<Rightarrow> go_error + 'a)
    \<Rightarrow> (go_error option + 'a) \<times> nat" where
  "retry_attempts maxAttempts retriable opn =
     attempts_loop (case retriable of None \<Rightarrow> default_retriable | Some f \<Rightarrow> f) opn
       (nat (if maxAttempts < 1 then 1 else maxAttempts)) 0 None"

definition retry_on :: "(code \<Rightarrow> bool) \<Rightarrow> go_error + 'a \<Rightarrow> bool" where
  "retry_on f r = (case r of Inl e \<Rightarrow> f (code_of (Some e)) | Inr _ \<Rightarrow> False)"

definition as_result :: "go_error + 'a \<Rightarrow> go_error option + 'a" where
  "as_result r = (case r of Inl e \<Rightarrow> Inl (Some e) | Inr x \<Rightarrow> Inr x)"

lemma attempts_loop_spec:
  assumes "attempts_loop f opn (Suc left) k e = (r, n)"
  shows "k < n \<and> n \<le> k + Suc left \<and> list_all (\<lambda>j. retry_on f (opn j)) [k..<n - 1]
    \<and> r = as_result (opn (n - 1)) \<and> (if n < k + Suc left then \<not> retry_on f (opn (n - 1)) else True)"
  using assms
proof (induction left arbitrary: k e)
  case 0
  then show ?case by (auto simp: retry_on_def as_result_def split: sum.splits if_splits)
next
  case (Suc left)
  show ?case
  proof (cases "retry_on f (opn k)")
    case True
    then obtain x where x: "opn k = Inl x" "f (code_of (Some x))" by (auto simp: retry_on_def split: sum.splits)
    have "attempts_loop f opn (Suc (Suc left)) k e = attempts_loop f opn (Suc left) (Suc k) (Some x)"
      using x by (subst attempts_loop.simps(2)) (simp del: attempts_loop.simps)
    with Suc.prems have "attempts_loop f opn (Suc left) (Suc k) (Some x) = (r, n)" by metis
    from Suc.IH [OF this] True show ?thesis by (auto simp: upt_conv_Cons)
  next
    case False
    with Suc.prems have "n = Suc k" "r = as_result (opn k)"
      by (auto simp: retry_on_def as_result_def attempts_loop.simps(2) [of f opn "Suc left"] split: sum.splits
          simp del: attempts_loop.simps(2))
    with False show ?thesis by simp
  qed
qed

text \<open>
  \<open>Attempts\<close> makes at least one attempt and at most \<open>MaxAttempts\<close> (one, if that is less), every
  attempt but the last failed with a retriable code, the result is that of the last attempt, and
  it stops early only on a success or an error that is not retriable.
\<close>

lemma retry_attempts_exact:
  "let f = (case retriable of None \<Rightarrow> default_retriable | Some g \<Rightarrow> g);
       (r, n) = retry_attempts maxAttempts retriable opn
   in 0 < n \<and> int n \<le> max 1 maxAttempts
    \<and> list_all (\<lambda>j. retry_on f (opn j)) [0..<n - 1] \<and> r = as_result (opn (n - 1))
    \<and> (if int n < max 1 maxAttempts then \<not> retry_on f (opn (n - 1)) else True)"
proof -
  define f where "f = (case retriable of None \<Rightarrow> default_retriable | Some g \<Rightarrow> g)"
  define m where "m = nat (if maxAttempts < 1 then 1 else maxAttempts)"
  obtain left where left: "m = Suc left" unfolding m_def by (cases m) (auto simp: m_def split: if_splits)
  have m: "int (Suc left) = max 1 maxAttempts" unfolding left [symmetric] m_def by auto
  obtain r n where rn: "attempts_loop f opn (Suc left) 0 None = (r, n)" by (metis surj_pair)
  then have "retry_attempts maxAttempts retriable opn = (r, n)"
    by (simp only: retry_attempts_def f_def m_def [symmetric] left)
  with attempts_loop_spec [OF rn] m show ?thesis by (auto simp: f_def [symmetric] Let_def)
qed

end
