(* ===== verification/Carrier_Life.thy ===== *)
theory Carrier_Life
  imports Streams
begin

text \<open>
  The life of a carrier transport (src/transport/tcp/tcp.go): the listener \<open>Serve\<close> binds, the map of
  tracked connections, the count of running callbacks, and the goroutines of \<open>Serve\<close>, \<open>Dial\<close>,
  \<open>Shutdown\<close> and \<open>Close\<close>. Each operation below is one section of the mutex of the transport (or one
  atomic operation of a connection), and the sections of all goroutines interleave freely. The
  records are open, because the UDP transport has the same life with more state (theory
  \<open>Udp_Carrier\<close>).
\<close>

section \<open>State\<close>

text \<open>
  \<open>cn_dialed\<close>: the connection has a \<open>detach\<close>, which \<open>Dial\<close> gives it. \<open>cn_running\<close>: its callback has not
  returned; \<open>cn_counted\<close>: it has not been taken off \<open>onConnWG\<close>.
\<close>

record carrier_conn =
  cn_dialed :: bool
  cn_closed :: bool
  cn_running :: bool
  cn_counted :: bool

datatype serve_phase = Accepting | Leaving "go_error option" | Unlistening "go_error option" | Served "go_error option"

text \<open>A successful \<open>Serve\<close> has a number, which stands for its listener and its channel \<open>serveDone\<close>.\<close>

record serve_run =
  sr_listening :: bool
  sr_done :: bool
  sr_phase :: serve_phase

record 'c carrier_life =
  lf_listener :: "nat option"
  lf_serveDone :: "nat option"
  lf_conns :: "nat list"
  lf_serving :: bool
  lf_shutdown :: bool
  lf_closed :: bool
  lf_wg :: nat
  lf_serves :: "serve_run list"
  lf_objs :: "'c carrier_conn_scheme list"

definition life_new :: "'c carrier_life" where
  "life_new = \<lparr>lf_listener = None, lf_serveDone = None, lf_conns = [], lf_serving = False, lf_shutdown = False,
     lf_closed = False, lf_wg = 0, lf_serves = [], lf_objs = []\<rparr>"

definition put_serve :: "nat \<Rightarrow> (serve_run \<Rightarrow> serve_run) \<Rightarrow> ('c, 'm) carrier_life_scheme \<Rightarrow> ('c, 'm) carrier_life_scheme" where
  "put_serve k f s = s\<lparr>lf_serves := (lf_serves s)[k := f (lf_serves s ! k)]\<rparr>"

section \<open>Serve\<close>

text \<open>\<open>pkg\<close> is the prefix of the error texts; \<open>listenErr\<close> the error of \<open>net.Listen\<close>.\<close>

definition pkg_error :: "string \<Rightarrow> string \<Rightarrow> go_error" where
  "pkg_error pkg msg = ErrNew (pkg @ '': '' @ msg)"

definition pkg_wrap :: "string \<Rightarrow> string \<Rightarrow> go_error \<Rightarrow> go_error" where
  "pkg_wrap pkg msg e = ErrWrap (pkg @ '': '' @ msg @ '': '' @ err_text e) [e]"

definition life_serve ::
    "string \<Rightarrow> string \<Rightarrow> go_error option \<Rightarrow> ('c, 'm) carrier_life_scheme \<Rightarrow> go_error option \<times> ('c, 'm) carrier_life_scheme" where
  "life_serve pkg addr listenErr s =
     (if addr = [] then (Some (pkg_error pkg ''listen address required (use transport.WithListenAddress)''), s)
      else
        case listenErr of
          Some e \<Rightarrow> (Some (pkg_wrap pkg (''listen '' @ addr) e), s)
        | None \<Rightarrow>
            if lf_closed s then (Some (pkg_error pkg ''transport closed''), s)
            else if lf_serving s then (Some (pkg_error pkg ''already serving''), s)
            else
              let k = length (lf_serves s) in
              (None, s\<lparr>lf_listener := Some k, lf_serving := True, lf_shutdown := False, lf_serveDone := Some k,
                       lf_serves := lf_serves s @ [\<lparr>sr_listening = True, sr_done = False, sr_phase = Accepting\<rparr>]\<rparr>))"

text \<open>The section of an accepted connection \<open>c\<close>; None when it is closed at once.\<close>

definition life_accept ::
    "'c carrier_conn_scheme \<Rightarrow> ('c, 'm) carrier_life_scheme \<Rightarrow> nat option \<times> ('c, 'm) carrier_life_scheme" where
  "life_accept c s =
     (if lf_shutdown s \<or> lf_closed s then (None, s)
      else
        let i = length (lf_objs s) in
        (Some i, s\<lparr>lf_objs := lf_objs s @ [c\<lparr>cn_dialed := False, cn_closed := False, cn_running := True, cn_counted := True\<rparr>],
                   lf_conns := lf_conns s @ [i], lf_wg := Suc (lf_wg s)\<rparr>))"

definition accept_result ::
    "string \<Rightarrow> string \<Rightarrow> go_error option \<Rightarrow> go_error \<Rightarrow> ('c, 'm) carrier_life_scheme \<Rightarrow> go_error option" where
  "accept_result pkg what ctxErr err s =
     (let shuttingDown = lf_shutdown s \<or> lf_closed s in
      if shuttingDown \<or> ctxErr \<noteq> None then
        if ctxErr \<noteq> None \<and> \<not> shuttingDown then ctxErr else None
      else Some (pkg_wrap pkg what err))"

definition life_accept_failed ::
    "string \<Rightarrow> string \<Rightarrow> go_error option \<Rightarrow> go_error \<Rightarrow> nat \<Rightarrow> ('c, 'm) carrier_life_scheme \<Rightarrow> ('c, 'm) carrier_life_scheme" where
  "life_accept_failed pkg what ctxErr err k s =
     put_serve k (\<lambda>r. r\<lparr>sr_phase := Leaving (accept_result pkg what ctxErr err s)\<rparr>) s"

text \<open>The deferred clean-up: its section, and the close of the listener after it.\<close>

definition life_leave :: "nat \<Rightarrow> go_error option \<Rightarrow> ('c, 'm) carrier_life_scheme \<Rightarrow> ('c, 'm) carrier_life_scheme" where
  "life_leave k res s =
     put_serve k (\<lambda>r. r\<lparr>sr_done := True, sr_phase := Unlistening res\<rparr>)
       (s\<lparr>lf_serving := False, lf_listener := (if lf_listener s = Some k then None else lf_listener s)\<rparr>)"

definition close_listener :: "nat option \<Rightarrow> ('c, 'm) carrier_life_scheme \<Rightarrow> ('c, 'm) carrier_life_scheme" where
  "close_listener ln s = (case ln of None \<Rightarrow> s | Some k \<Rightarrow> put_serve k (\<lambda>r. r\<lparr>sr_listening := False\<rparr>) s)"

definition life_unlisten :: "nat \<Rightarrow> go_error option \<Rightarrow> ('c, 'm) carrier_life_scheme \<Rightarrow> ('c, 'm) carrier_life_scheme" where
  "life_unlisten k res s = put_serve k (\<lambda>r. r\<lparr>sr_phase := Served res\<rparr>) (close_listener (Some k) s)"

section \<open>Connections\<close>

definition put_conn :: "nat \<Rightarrow> ('c carrier_conn_scheme \<Rightarrow> 'c carrier_conn_scheme) \<Rightarrow> ('c, 'm) carrier_life_scheme
    \<Rightarrow> ('c, 'm) carrier_life_scheme" where
  "put_conn i f s = s\<lparr>lf_objs := (lf_objs s)[i := f (lf_objs s ! i)]\<rparr>"

definition life_untrack :: "nat \<Rightarrow> ('c, 'm) carrier_life_scheme \<Rightarrow> ('c, 'm) carrier_life_scheme" where
  "life_untrack i s = s\<lparr>lf_conns := remove1 i (lf_conns s)\<rparr>"

text \<open>The end of the goroutine of a callback: untracked, then taken off the wait group.\<close>

definition life_returned :: "nat \<Rightarrow> ('c, 'm) carrier_life_scheme \<Rightarrow> ('c, 'm) carrier_life_scheme" where
  "life_returned i s = put_conn i (\<lambda>c. c\<lparr>cn_running := False\<rparr>) (life_untrack i s)"

definition life_wg_done :: "nat \<Rightarrow> ('c, 'm) carrier_life_scheme \<Rightarrow> ('c, 'm) carrier_life_scheme" where
  "life_wg_done i s = put_conn i (\<lambda>c. c\<lparr>cn_counted := False\<rparr>) (s\<lparr>lf_wg := lf_wg s - 1\<rparr>)"

text \<open>
  \<open>Close\<close> of connections, one after the other: the swap of \<open>closed\<close> with the close of the socket, and
  for the goroutine that made the swap the detach. An application that closes one connection is a
  \<open>Closing [i]\<close>.
\<close>

datatype closing = Closing "nat list" | Detaching nat "nat list"

fun closing_step :: "closing \<Rightarrow> ('c, 'm) carrier_life_scheme \<Rightarrow> closing \<times> ('c, 'm) carrier_life_scheme" where
  "closing_step (Closing []) s = (Closing [], s)"
| "closing_step (Closing (i # is)) s =
     (if cn_closed (lf_objs s ! i) then (Closing is, s)
      else (if cn_dialed (lf_objs s ! i) then Detaching i is else Closing is,
            put_conn i (\<lambda>c. c\<lparr>cn_closed := True\<rparr>) s))"
| "closing_step (Detaching i is) s = (Closing is, life_untrack i s)"

definition dial_check :: "string \<Rightarrow> string \<Rightarrow> ('c, 'm) carrier_life_scheme \<Rightarrow> go_error option" where
  "dial_check pkg endpoint s =
     (if endpoint = [] then Some (pkg_error pkg ''empty DialSpec.Endpoint'')
      else if lf_closed s then Some (pkg_error pkg ''transport closed'') else None)"

text \<open>
  The rest of \<open>Dial\<close> after the check: \<open>dialErr\<close> is the error of the dialer. A connection that finds the
  transport closed is closed and not handed out.
\<close>

definition dial_commit :: "string \<Rightarrow> string \<Rightarrow> go_error option \<Rightarrow> 'c carrier_conn_scheme
    \<Rightarrow> ('c, 'm) carrier_life_scheme \<Rightarrow> (go_error + nat) \<times> ('c, 'm) carrier_life_scheme" where
  "dial_commit pkg endpoint dialErr c s =
     (case dialErr of
        Some e \<Rightarrow> (Inl (pkg_wrap pkg (''dial '' @ endpoint) e), s)
      | None \<Rightarrow>
          if lf_closed s then (Inl (pkg_error pkg ''transport closed''), s)
          else
            let i = length (lf_objs s) in
            (Inr i, s\<lparr>lf_objs := lf_objs s @ [c\<lparr>cn_dialed := True, cn_closed := False, cn_running := False, cn_counted := False\<rparr>],
                      lf_conns := lf_conns s @ [i]\<rparr>))"

section \<open>Shutdown and Close\<close>

text \<open>
  A \<open>Shutdown\<close>: \<open>sh_waited\<close> says that its channel \<open>done\<close> is closed. The phases follow the code: the
  close of the listener, the first select, the wait for \<open>serveDone\<close>, the snapshot and the closes of
  the expired branch, and the last select.
\<close>

datatype shut_phase =
    ShutListener "nat option"
  | ShutSelect
  | ShutServe nat
  | ShutSnapshot go_error
  | ShutConns go_error closing
  | ShutLast go_error
  | ShutReturned "go_error option"

record shutter =
  sh_phase :: shut_phase
  sh_waited :: bool
  sh_serve :: "nat option"

datatype closer = CloseListener "nat option" | CloseSnapshot | CloseConns closing

definition shutdown_begin_life ::
    "('c, 'm) carrier_life_scheme \<Rightarrow> shutter \<times> ('c, 'm) carrier_life_scheme" where
  "shutdown_begin_life s =
     (if lf_closed s then (\<lparr>sh_phase = ShutReturned None, sh_waited = False, sh_serve = None\<rparr>, s)
      else (\<lparr>sh_phase = ShutListener (lf_listener s), sh_waited = False, sh_serve = lf_serveDone s\<rparr>,
            s\<lparr>lf_shutdown := True\<rparr>))"

text \<open>None: the transport was closed before, and \<open>Close\<close> returns at once.\<close>

definition close_begin_life :: "('c, 'm) carrier_life_scheme \<Rightarrow> closer option \<times> ('c, 'm) carrier_life_scheme" where
  "close_begin_life s =
     (if lf_closed s then (None, s)
      else (Some (CloseListener (lf_listener s)), s\<lparr>lf_closed := True, lf_shutdown := True\<rparr>))"

fun closer_step :: "closer \<Rightarrow> ('c, 'm) carrier_life_scheme \<Rightarrow> closer \<times> ('c, 'm) carrier_life_scheme" where
  "closer_step (CloseListener ln) s = (CloseSnapshot, close_listener ln s)"
| "closer_step CloseSnapshot s = (CloseConns (Closing (lf_conns s)), s)"
| "closer_step (CloseConns c) s = (let (c', s') = closing_step c s in (CloseConns c', s'))"

text \<open>The steps a \<open>Shutdown\<close> takes by itself; the selects are the events after it.\<close>

fun shut_step :: "shut_phase \<Rightarrow> ('c, 'm) carrier_life_scheme \<Rightarrow> shut_phase \<times> ('c, 'm) carrier_life_scheme" where
  "shut_step (ShutListener ln) s = (ShutSelect, close_listener ln s)"
| "shut_step (ShutSnapshot e) s = (ShutConns e (Closing (lf_conns s)), s)"
| "shut_step (ShutConns e (Closing [])) s = (ShutLast e, s)"
| "shut_step (ShutConns e c) s = (let (c', s') = closing_step c s in (ShutConns e c', s'))"
| "shut_step p s = (p, s)"

definition shut_done :: "shutter \<Rightarrow> shut_phase" where
  "shut_done sh =
     (if \<not> sh_waited sh then sh_phase sh
      else case sh_phase sh of
             ShutSelect \<Rightarrow> (case sh_serve sh of None \<Rightarrow> ShutReturned None | Some k \<Rightarrow> ShutServe k)
           | ShutLast e \<Rightarrow> ShutReturned (Some e)
           | p \<Rightarrow> p)"

fun shut_served :: "shut_phase \<Rightarrow> ('c, 'm) carrier_life_scheme \<Rightarrow> shut_phase" where
  "shut_served (ShutServe k) s = (if sr_done (lf_serves s ! k) then ShutReturned None else ShutServe k)"
| "shut_served p s = p"

fun shut_expired :: "go_error \<Rightarrow> shut_phase \<Rightarrow> shut_phase" where
  "shut_expired e ShutSelect = ShutSnapshot e"
| "shut_expired e (ShutServe k) = ShutReturned None"
| "shut_expired e (ShutLast e') = ShutReturned (Some e')"
| "shut_expired e p = p"

end
