(* ===== verification/Carrier_World.thy ===== *)
theory Carrier_World
  imports Carrier_Life
begin

text \<open>
  The goroutines of a carrier transport and their runs (src/transport/tcp/tcp.go). A world is the
  transport with the calls of \<open>Close\<close> and \<open>Shutdown\<close> that are under way and the closes of single
  connections by applications. The invariants are about any number of goroutines of each kind.
\<close>

record 'c carrier_world = "'c carrier_life" +
  gr_closers :: "closer list"
  gr_shutters :: "shutter list"
  gr_users :: "closing list"

datatype life_event =
    LServe string "go_error option"
  | LCancelled nat
  | LAcceptFailed "go_error option" go_error nat
  | LLeave nat
  | LUnlisten nat
  | LDial string "go_error option"
  | LWgDone nat
  | LUserClose nat
  | LUserStep nat
  | LShutdown
  | LShutStep nat
  | LShutWaited nat
  | LShutDone nat
  | LShutServed nat
  | LShutExpired nat go_error
  | LClose
  | LCloserStep nat

definition set_phase :: "nat \<Rightarrow> shut_phase \<Rightarrow> ('c, 'm) carrier_world_scheme \<Rightarrow> ('c, 'm) carrier_world_scheme" where
  "set_phase j p w = w\<lparr>gr_shutters := (gr_shutters w)[j := (gr_shutters w ! j)\<lparr>sh_phase := p\<rparr>]\<rparr>"

definition past_listener :: "shut_phase \<Rightarrow> bool" where
  "past_listener p = (case p of ShutListener _ \<Rightarrow> False | _ \<Rightarrow> True)"

definition serve_do ::
    "string \<Rightarrow> string \<Rightarrow> life_event \<Rightarrow> ('c, 'm) carrier_world_scheme \<Rightarrow> ('c, 'm) carrier_world_scheme" where
  "serve_do pkg what e w =
     (case e of
        LServe addr le \<Rightarrow> snd (life_serve pkg addr le w)
      | LCancelled k \<Rightarrow> if k < length (lf_serves w) then close_listener (Some k) w else w
      | LAcceptFailed ce er k \<Rightarrow>
          if k < length (lf_serves w) \<and> sr_phase (lf_serves w ! k) = Accepting
          then life_accept_failed pkg what ce er k w else w
      | LLeave k \<Rightarrow>
          if k < length (lf_serves w) then
            (case sr_phase (lf_serves w ! k) of Leaving res \<Rightarrow> life_leave k res w | _ \<Rightarrow> w) else w
      | LUnlisten k \<Rightarrow>
          if k < length (lf_serves w) then
            (case sr_phase (lf_serves w ! k) of Unlistening res \<Rightarrow> life_unlisten k res w | _ \<Rightarrow> w) else w
      | _ \<Rightarrow> w)"

definition shutter_do ::
    "life_event \<Rightarrow> ('c, 'm) carrier_world_scheme \<Rightarrow> ('c, 'm) carrier_world_scheme" where
  "shutter_do e w =
     (case e of
        LShutdown \<Rightarrow> (let (sh, w1) = shutdown_begin_life w in w1\<lparr>gr_shutters := gr_shutters w1 @ [sh]\<rparr>)
      | LShutStep j \<Rightarrow>
          if j < length (gr_shutters w)
          then (let (p, w1) = shut_step (sh_phase (gr_shutters w ! j)) w in set_phase j p w1) else w
      | LShutWaited j \<Rightarrow>
          if j < length (gr_shutters w) \<and> past_listener (sh_phase (gr_shutters w ! j)) \<and> lf_wg w = 0
          then w\<lparr>gr_shutters := (gr_shutters w)[j := (gr_shutters w ! j)\<lparr>sh_waited := True\<rparr>]\<rparr> else w
      | LShutDone j \<Rightarrow> if j < length (gr_shutters w) then set_phase j (shut_done (gr_shutters w ! j)) w else w
      | LShutServed j \<Rightarrow>
          if j < length (gr_shutters w) then set_phase j (shut_served (sh_phase (gr_shutters w ! j)) w) w else w
      | LShutExpired j er \<Rightarrow>
          if j < length (gr_shutters w) then set_phase j (shut_expired er (sh_phase (gr_shutters w ! j))) w else w
      | _ \<Rightarrow> w)"

definition life_do ::
    "string \<Rightarrow> string \<Rightarrow> 'c carrier_conn_scheme \<Rightarrow> life_event \<Rightarrow> ('c, 'm) carrier_world_scheme
      \<Rightarrow> ('c, 'm) carrier_world_scheme" where
  "life_do pkg what c e w =
     (case e of
        LDial endpoint de \<Rightarrow> snd (dial_commit pkg endpoint de c w)
      | LWgDone i \<Rightarrow>
          if i < length (lf_objs w) \<and> cn_counted (lf_objs w ! i) \<and> \<not> cn_running (lf_objs w ! i)
          then life_wg_done i w else w
      | LUserClose i \<Rightarrow>
          if i < length (lf_objs w) then w\<lparr>gr_users := gr_users w @ [Closing [i]]\<rparr> else w
      | LUserStep j \<Rightarrow>
          if j < length (gr_users w)
          then (let (c', w1) = closing_step (gr_users w ! j) w in w1\<lparr>gr_users := (gr_users w1)[j := c']\<rparr>) else w
      | LClose \<Rightarrow>
          (case close_begin_life w of
             (None, w1) \<Rightarrow> w1
           | (Some cl, w1) \<Rightarrow> w1\<lparr>gr_closers := gr_closers w1 @ [cl]\<rparr>)
      | LCloserStep j \<Rightarrow>
          if j < length (gr_closers w)
          then (let (cl, w1) = closer_step (gr_closers w ! j) w in w1\<lparr>gr_closers := (gr_closers w1)[j := cl]\<rparr>) else w
      | _ \<Rightarrow> shutter_do e (serve_do pkg what e w))"

definition carrier_start :: "'c carrier_world" where
  "carrier_start = carrier_life.extend life_new \<lparr>gr_closers = [], gr_shutters = [], gr_users = []\<rparr>"

section \<open>What holds of the transport\<close>

text \<open>
  A dialed connection is tracked until it is closed, an accepted one until it is closed or its
  callback has returned; the wait group counts the callbacks.
\<close>

definition conn_ok :: "nat list \<Rightarrow> nat \<Rightarrow> 'c carrier_conn_scheme \<Rightarrow> bool" where
  "conn_ok conns i c \<longleftrightarrow>
     (if cn_dialed c then \<not> cn_running c \<and> \<not> cn_counted c \<and> (cn_closed c \<or> i \<in> set conns)
      else cn_running c \<longrightarrow> cn_counted c \<and> (cn_closed c \<or> i \<in> set conns))"

text \<open>A connection nobody has to close any more.\<close>

definition conn_over :: "'c carrier_conn_scheme \<Rightarrow> bool" where
  "conn_over c \<longleftrightarrow> cn_closed c \<or> \<not> cn_dialed c \<and> \<not> cn_running c"

definition listener_down :: "('c, 'm) carrier_life_scheme \<Rightarrow> bool" where
  "listener_down s = (case lf_listener s of None \<Rightarrow> True | Some k \<Rightarrow> \<not> sr_listening (lf_serves s ! k))"

definition life_inv :: "('c, 'm) carrier_life_scheme \<Rightarrow> bool" where
  "life_inv s \<longleftrightarrow>
     distinct (lf_conns s) \<and> (\<forall>i \<in> set (lf_conns s). i < length (lf_objs s))
     \<and> (\<forall>i < length (lf_objs s). conn_ok (lf_conns s) i (lf_objs s ! i))
     \<and> lf_wg s = length (filter cn_counted (lf_objs s))
     \<and> (case lf_listener s of None \<Rightarrow> True | Some k \<Rightarrow> k < length (lf_serves s))"

text \<open>What no section takes back, and what holds of a closed transport for ever.\<close>

definition grows :: "('c, 'm) carrier_life_scheme \<Rightarrow> ('c, 'm) carrier_life_scheme \<Rightarrow> bool" where
  "grows s s' \<longleftrightarrow>
     length (lf_objs s) \<le> length (lf_objs s') \<and> length (lf_serves s) \<le> length (lf_serves s')
     \<and> (\<forall>i < length (lf_objs s).
          (cn_closed (lf_objs s ! i) \<longrightarrow> cn_closed (lf_objs s' ! i))
          \<and> cn_dialed (lf_objs s' ! i) = cn_dialed (lf_objs s ! i)
          \<and> (cn_running (lf_objs s' ! i) \<longrightarrow> cn_running (lf_objs s ! i)))
     \<and> (\<forall>k < length (lf_serves s). sr_listening (lf_serves s' ! k) \<longrightarrow> sr_listening (lf_serves s ! k))
     \<and> (lf_closed s \<longrightarrow> lf_closed s' \<and> set (lf_conns s') \<subseteq> set (lf_conns s)
          \<and> length (lf_objs s') = length (lf_objs s)
          \<and> (lf_listener s' = lf_listener s \<or> lf_listener s' = None))"

lemma grows_refl [simp]: "grows s s"
  by (simp add: grows_def)

lemma grows_trans: "grows a b \<Longrightarrow> grows b c \<Longrightarrow> grows a c"
  unfolding grows_def by (elim conjE, intro conjI allI impI) (auto dest: less_le_trans)

lemma grows_same:
  "lf_objs s' = lf_objs s \<Longrightarrow> lf_serves s' = lf_serves s \<Longrightarrow> lf_conns s' = lf_conns s \<Longrightarrow>
    lf_closed s' = lf_closed s \<Longrightarrow> lf_listener s' = lf_listener s \<Longrightarrow> grows s s'"
  by (simp add: grows_def)

lemma life_inv_same:
  "lf_objs s' = lf_objs s \<Longrightarrow> lf_serves s' = lf_serves s \<Longrightarrow> lf_conns s' = lf_conns s \<Longrightarrow>
    lf_wg s' = lf_wg s \<Longrightarrow> lf_listener s' = lf_listener s \<Longrightarrow> life_inv s' = life_inv s"
  by (simp add: life_inv_def cong: option.case_cong)

lemma conn_ok_keep: "conn_ok xs i c \<Longrightarrow> set xs \<subseteq> set ys \<Longrightarrow> conn_ok ys i c"
  by (auto simp: conn_ok_def split: if_splits)

section \<open>The operations\<close>

lemma nth_upd: "xs[i := y] ! j = (if i = j \<and> i < length xs then y else xs ! j)"
  by (cases "i < length xs") (auto simp: nth_list_update list_update_beyond not_less)

lemma life_invI:
  assumes "distinct (lf_conns s)" "\<And>i. i \<in> set (lf_conns s) \<Longrightarrow> i < length (lf_objs s)"
    "\<And>i. i < length (lf_objs s) \<Longrightarrow> conn_ok (lf_conns s) i (lf_objs s ! i)"
    "lf_wg s = length (filter cn_counted (lf_objs s))"
    "\<And>k. lf_listener s = Some k \<Longrightarrow> k < length (lf_serves s)"
  shows "life_inv s"
  using assms by (simp add: life_inv_def split: option.split)

lemma life_invD:
  assumes "life_inv s"
  shows "distinct (lf_conns s)" "\<And>i. i \<in> set (lf_conns s) \<Longrightarrow> i < length (lf_objs s)"
    "\<And>i. i < length (lf_objs s) \<Longrightarrow> conn_ok (lf_conns s) i (lf_objs s ! i)"
    "lf_wg s = length (filter cn_counted (lf_objs s))"
    "\<And>k. lf_listener s = Some k \<Longrightarrow> k < length (lf_serves s)"
  using assms by (simp_all add: life_inv_def)

lemma put_serve_same [simp]:
  "lf_objs (put_serve k f s) = lf_objs s" "lf_conns (put_serve k f s) = lf_conns s"
  "lf_closed (put_serve k f s) = lf_closed s" "lf_listener (put_serve k f s) = lf_listener s"
  "lf_wg (put_serve k f s) = lf_wg s" "length (lf_serves (put_serve k f s)) = length (lf_serves s)"
  "lf_shutdown (put_serve k f s) = lf_shutdown s"
  by (simp_all add: put_serve_def)

lemma put_serve_inv [simp]: "life_inv (put_serve k f s) = life_inv s"
  by (simp add: life_inv_def cong: option.case_cong)

lemma put_serve_grows:
  "(\<And>r. sr_listening (f r) \<Longrightarrow> sr_listening r) \<Longrightarrow> grows s (put_serve k f s)"
  by (auto simp: grows_def put_serve_def nth_upd split: if_splits)

lemma put_conn_same [simp]:
  "lf_serves (put_conn i f s) = lf_serves s" "lf_conns (put_conn i f s) = lf_conns s"
  "lf_closed (put_conn i f s) = lf_closed s" "lf_listener (put_conn i f s) = lf_listener s"
  "lf_wg (put_conn i f s) = lf_wg s" "length (lf_objs (put_conn i f s)) = length (lf_objs s)"
  "lf_shutdown (put_conn i f s) = lf_shutdown s"
  by (simp_all add: put_conn_def)

lemma put_conn_at: "lf_objs (put_conn i f s) = (lf_objs s)[i := f (lf_objs s ! i)]"
  by (simp add: put_conn_def)

lemma put_conn_grows:
  assumes "\<And>c. cn_closed c \<Longrightarrow> cn_closed (f c)" "\<And>c. cn_dialed (f c) = cn_dialed c"
    "\<And>c. cn_running (f c) \<Longrightarrow> cn_running c"
  shows "grows s (put_conn i f s)"
  using assms by (auto simp: grows_def put_conn_def nth_upd)

lemma put_conn_inv:
  assumes "life_inv s" "i < length (lf_objs s)" "cn_counted (f (lf_objs s ! i)) = cn_counted (lf_objs s ! i)"
    "conn_ok (lf_conns s) i (f (lf_objs s ! i))"
  shows "life_inv (put_conn i f s)"
  using assms
  by (auto simp: life_inv_def put_conn_at nth_list_update filter_update_same split: option.splits)

lemma serve_inv: "life_inv s \<Longrightarrow> life_inv (snd (life_serve pkg addr le s))"
  by (auto simp: life_serve_def life_inv_def Let_def split: option.splits)

lemma serve_grows: "grows s (snd (life_serve pkg addr le s))"
  by (auto simp: life_serve_def grows_def Let_def nth_append split: option.splits)

lemma leave_inv: "life_inv s \<Longrightarrow> life_inv (life_leave k res s)"
  by (auto simp: life_leave_def life_inv_def split: option.splits)

lemma leave_grows: "grows s (life_leave k res s)"
  unfolding life_leave_def
  by (rule grows_trans [OF _ put_serve_grows]) (simp_all add: grows_def)

lemma accept_failed_ok:
  "life_inv (life_accept_failed pkg what ce er k s) = life_inv s" "grows s (life_accept_failed pkg what ce er k s)"
  unfolding life_accept_failed_def by (simp, rule put_serve_grows, simp)

lemma close_listener_ok [simp]:
  "life_inv (close_listener ln s) = life_inv s" "grows s (close_listener ln s)"
  by (auto simp: close_listener_def intro!: put_serve_grows split: option.split)

lemma unlisten_ok: "life_inv (life_unlisten k res s) = life_inv s" "grows s (life_unlisten k res s)"
  unfolding life_unlisten_def
  by (simp, rule grows_trans [OF close_listener_ok(2)], rule put_serve_grows, simp)

lemma accept_inv: "life_inv s \<Longrightarrow> life_inv (snd (life_accept c s))"
  by (auto simp: life_accept_def life_inv_def Let_def nth_append less_Suc_eq conn_ok_def split: option.splits)

lemma accept_grows: "grows s (snd (life_accept c s))"
  by (auto simp: life_accept_def grows_def Let_def nth_append)

lemma dial_inv: "life_inv s \<Longrightarrow> life_inv (snd (dial_commit pkg ep de c s))"
  by (auto simp: dial_commit_def life_inv_def Let_def nth_append less_Suc_eq conn_ok_def split: option.splits)

lemma dial_grows: "grows s (snd (dial_commit pkg ep de c s))"
  by (auto simp: dial_commit_def grows_def Let_def nth_append split: option.splits)

lemma untrack_same [simp]:
  "lf_objs (life_untrack i s) = lf_objs s" "lf_serves (life_untrack i s) = lf_serves s"
  "lf_closed (life_untrack i s) = lf_closed s" "lf_listener (life_untrack i s) = lf_listener s"
  "lf_wg (life_untrack i s) = lf_wg s" "lf_shutdown (life_untrack i s) = lf_shutdown s"
  by (simp_all add: life_untrack_def)

lemma untrack_grows: "life_inv s \<Longrightarrow> grows s (life_untrack i s)"
  by (auto simp: grows_def life_untrack_def life_inv_def)

lemma untrack_inv:
  "life_inv s \<Longrightarrow> i < length (lf_objs s) \<Longrightarrow> conn_over (lf_objs s ! i) \<Longrightarrow> life_inv (life_untrack i s)"
  by (auto simp: life_inv_def life_untrack_def conn_ok_def conn_over_def split: option.splits)

lemma wg_done_inv:
  assumes "life_inv s" "i < length (lf_objs s)" "cn_counted (lf_objs s ! i)" "\<not> cn_running (lf_objs s ! i)"
  shows "life_inv (life_wg_done i s)"
proof -
  have d: "\<not> cn_dialed (lf_objs s ! i)" using assms by (auto simp: life_inv_def conn_ok_def)
  have "int (length (filter cn_counted ((lf_objs s)[i := (lf_objs s ! i)\<lparr>cn_counted := False\<rparr>])))
      = int (length (filter cn_counted (lf_objs s))) - 1"
    by (rule filter_update_len) (use assms in simp_all)
  then have n: "lf_wg (life_wg_done i s) = length (filter cn_counted (lf_objs (life_wg_done i s)))"
    using life_invD(4) [OF assms(1)] by (simp add: life_wg_done_def put_conn_at)
  show ?thesis
  proof (rule life_invI)
    fix j assume "j < length (lf_objs (life_wg_done i s))"
    then show "conn_ok (lf_conns (life_wg_done i s)) j (lf_objs (life_wg_done i s) ! j)"
      using life_invD(3) [OF assms(1), of j] assms(2-4) d
      by (auto simp: life_wg_done_def put_conn_at nth_upd conn_ok_def)
  qed (use n life_invD(1,2,5) [OF assms(1)] in \<open>simp_all add: life_wg_done_def\<close>)
qed

lemma wg_done_grows: "grows s (life_wg_done i s)"
  unfolding life_wg_done_def
  by (rule grows_trans [OF _ put_conn_grows]) (simp_all add: grows_same)

lemma returned_inv:
  assumes "life_inv s" "i < length (lf_objs s)" "cn_running (lf_objs s ! i)"
  shows "life_inv (life_returned i s)"
proof -
  have c: "\<not> cn_dialed (lf_objs s ! i)" using assms by (auto simp: life_inv_def conn_ok_def)
  have d: "distinct (lf_conns s)" by (rule life_invD(1) [OF assms(1)])
  have n: "length (filter cn_counted (lf_objs (life_returned i s))) = length (filter cn_counted (lf_objs s))"
    using assms(2) by (simp add: life_returned_def put_conn_at filter_update_same)
  show ?thesis
  proof (rule life_invI)
    fix j assume "j < length (lf_objs (life_returned i s))"
    then show "conn_ok (lf_conns (life_returned i s)) j (lf_objs (life_returned i s) ! j)"
      using life_invD(3) [OF assms(1), of j] assms(2,3) c d
      by (auto simp: life_returned_def put_conn_at nth_upd conn_ok_def life_untrack_def)
  next
    show "lf_wg (life_returned i s) = length (filter cn_counted (lf_objs (life_returned i s)))"
      using n life_invD(4) [OF assms(1)] by (simp add: life_returned_def)
  next
    fix j assume "j \<in> set (lf_conns (life_returned i s))"
    then show "j < length (lf_objs (life_returned i s))"
      using life_invD(2) [OF assms(1), of j] d by (simp add: life_returned_def life_untrack_def)
  qed (use d life_invD(5) [OF assms(1)] in \<open>simp_all add: life_returned_def life_untrack_def\<close>)
qed

lemma returned_grows: "life_inv s \<Longrightarrow> grows s (life_returned i s)"
  unfolding life_returned_def
  by (rule grows_trans [OF untrack_grows put_conn_grows]) simp_all

section \<open>The closes of connections\<close>

text \<open>A connection about to be detached is a closed one that was dialed.\<close>

fun closing_ok :: "closing \<Rightarrow> ('c, 'm) carrier_life_scheme \<Rightarrow> bool" where
  "closing_ok (Closing is) s = list_all (\<lambda>i. i < length (lf_objs s)) is"
| "closing_ok (Detaching i is) s =
     (list_all (\<lambda>i. i < length (lf_objs s)) (i # is) \<and> cn_closed (lf_objs s ! i) \<and> cn_dialed (lf_objs s ! i))"

fun pending :: "closing \<Rightarrow> nat list" where
  "pending (Closing is) = is"
| "pending (Detaching i is) = is"

lemma closing_ok_grows: "closing_ok c s \<Longrightarrow> grows s s' \<Longrightarrow> closing_ok c s'"
  by (cases c) (auto simp: grows_def list_all_iff)

lemma closing_inv:
  assumes "life_inv s" "closing_ok c s"
  shows "life_inv (snd (closing_step c s)) \<and> grows s (snd (closing_step c s))"
proof (cases "(c, s)" rule: closing_step.cases)
  case (2 i "is" t)
  then have t: "t = s" "c = Closing (i # is)" by simp_all
  have "conn_ok (lf_conns s) i ((lf_objs s ! i)\<lparr>cn_closed := True\<rparr>)" if "i < length (lf_objs s)"
    using life_invD(3) [OF assms(1) that] by (auto simp: conn_ok_def)
  with assms t show ?thesis by (auto intro!: put_conn_inv put_conn_grows)
next
  case (3 i "is" t)
  then have t: "t = s" "c = Detaching i is" by simp_all
  with assms have "conn_over (lf_objs s ! i)" by (simp add: conn_over_def)
  with assms t show ?thesis by (auto intro!: untrack_inv untrack_grows)
qed (use assms in simp)

lemma closing_next:
  "closing_ok c s \<Longrightarrow> closing_ok (fst (closing_step c s)) (snd (closing_step c s))"
  by (cases "(c, s)" rule: closing_step.cases) (auto simp: list_all_iff put_conn_at nth_upd)

text \<open>Everything tracked is closed or about to be.\<close>

definition covered :: "closing \<Rightarrow> ('c, 'm) carrier_life_scheme \<Rightarrow> bool" where
  "covered c s \<longleftrightarrow> (\<forall>i \<in> set (lf_conns s). cn_closed (lf_objs s ! i) \<or> i \<in> set (pending c))"

lemma covered_next:
  "life_inv s \<Longrightarrow> covered c s \<Longrightarrow> covered (fst (closing_step c s)) (snd (closing_step c s))"
  by (cases "(c, s)" rule: closing_step.cases)
    (auto simp: covered_def put_conn_at nth_upd life_untrack_def dest: life_invD(1,2))

lemma covered_grows:
  assumes "covered c s" "grows s s'" "lf_closed s" "life_inv s"
  shows "covered c s'"
  using assms life_invD(2) [OF assms(4)] by (fastforce simp: covered_def grows_def)

section \<open>The goroutines\<close>

fun shut_closing :: "shut_phase \<Rightarrow> closing option" where
  "shut_closing (ShutConns e c) = Some c"
| "shut_closing p = None"

definition shutter_ok :: "shut_phase \<Rightarrow> ('c, 'm) carrier_life_scheme \<Rightarrow> bool" where
  "shutter_ok p s = (case shut_closing p of None \<Rightarrow> True | Some c \<Rightarrow> closing_ok c s)"

definition only_listener :: "nat option \<Rightarrow> ('c, 'm) carrier_life_scheme \<Rightarrow> bool" where
  "only_listener ln s \<longleftrightarrow> lf_listener s = ln \<or> lf_listener s = None"

definition closer_ok :: "closer \<Rightarrow> ('c, 'm) carrier_life_scheme \<Rightarrow> bool" where
  "closer_ok c s \<longleftrightarrow> lf_closed s \<and>
     (case c of
        CloseListener ln \<Rightarrow> only_listener ln s
      | CloseSnapshot \<Rightarrow> listener_down s
      | CloseConns cl \<Rightarrow> listener_down s \<and> closing_ok cl s \<and> covered cl s)"

definition world_inv :: "('c, 'm) carrier_world_scheme \<Rightarrow> bool" where
  "world_inv w \<longleftrightarrow> life_inv w \<and> list_all (\<lambda>c. closing_ok c w) (gr_users w)
     \<and> list_all (\<lambda>sh. shutter_ok (sh_phase sh) w) (gr_shutters w)
     \<and> list_all (\<lambda>c. closer_ok c w) (gr_closers w)"

lemma shutter_ok_grows: "shutter_ok p s \<Longrightarrow> grows s s' \<Longrightarrow> shutter_ok p s'"
  by (auto simp: shutter_ok_def closing_ok_grows split: option.splits)

lemma listener_down_grows:
  "listener_down s \<Longrightarrow> grows s s' \<Longrightarrow> lf_closed s \<Longrightarrow> life_inv s \<Longrightarrow> listener_down s'"
  by (auto simp: listener_down_def grows_def dest: life_invD(5) split: option.splits)

lemma only_listener_grows: "only_listener ln s \<Longrightarrow> grows s s' \<Longrightarrow> lf_closed s \<Longrightarrow> only_listener ln s'"
  by (auto simp: only_listener_def grows_def)

lemma closer_ok_grows:
  assumes "closer_ok c s" "grows s s'" "life_inv s"
  shows "closer_ok c s'"
proof -
  have "lf_closed s" "lf_closed s'" using assms by (auto simp: closer_ok_def grows_def)
  with assms show ?thesis
    by (cases c)
      (auto simp: closer_ok_def intro: listener_down_grows only_listener_grows closing_ok_grows covered_grows)
qed

text \<open>A step keeps the invariant when it does so for the transport and for the goroutines it changes.\<close>

lemma world_invI:
  assumes w: "world_inv w" and l: "life_inv w'" and g: "grows w w'"
    and us: "\<And>c. c \<in> set (gr_users w') \<Longrightarrow> c \<in> set (gr_users w) \<or> closing_ok c w'"
    and sh: "\<And>sh. sh \<in> set (gr_shutters w') \<Longrightarrow>
      sh_phase sh \<in> sh_phase ` set (gr_shutters w) \<or> shutter_ok (sh_phase sh) w'"
    and cl: "\<And>c. c \<in> set (gr_closers w') \<Longrightarrow> c \<in> set (gr_closers w) \<or> closer_ok c w'"
  shows "world_inv w'"
  unfolding world_inv_def list_all_iff
proof (intro conjI ballI)
  show "closing_ok c w'" if "c \<in> set (gr_users w')" for c
    using us [OF that] w g by (auto simp: world_inv_def list_all_iff intro: closing_ok_grows)
  show "shutter_ok (sh_phase sh) w'" if "sh \<in> set (gr_shutters w')" for sh
    using assms(5) [OF that] w g by (force simp: world_inv_def list_all_iff intro: shutter_ok_grows)
  show "closer_ok c w'" if "c \<in> set (gr_closers w')" for c
    using cl [OF that] w g by (auto simp: world_inv_def list_all_iff intro: closer_ok_grows)
qed (rule l)

section \<open>Every step keeps the invariant\<close>

lemma gr_keep [simp]:
  "gr_users (put_conn i f w) = gr_users w" "gr_shutters (put_conn i f w) = gr_shutters w"
  "gr_closers (put_conn i f w) = gr_closers w"
  "gr_users (put_serve k g w) = gr_users w" "gr_shutters (put_serve k g w) = gr_shutters w"
  "gr_closers (put_serve k g w) = gr_closers w"
  "gr_users (life_untrack i w) = gr_users w" "gr_shutters (life_untrack i w) = gr_shutters w"
  "gr_closers (life_untrack i w) = gr_closers w"
  "gr_users (close_listener ln w) = gr_users w" "gr_shutters (close_listener ln w) = gr_shutters w"
  "gr_closers (close_listener ln w) = gr_closers w"
  by (simp_all add: put_conn_def put_serve_def life_untrack_def close_listener_def split: option.split)

lemma gr_closing [simp]:
  "gr_users (snd (closing_step c w)) = gr_users w" "gr_shutters (snd (closing_step c w)) = gr_shutters w"
  "gr_closers (snd (closing_step c w)) = gr_closers w"
  by (cases "(c, w)" rule: closing_step.cases; simp)+

lemma gr_closer [simp]:
  "gr_users (snd (closer_step c w)) = gr_users w" "gr_shutters (snd (closer_step c w)) = gr_shutters w"
  "gr_closers (snd (closer_step c w)) = gr_closers w"
  by (cases c; simp add: case_prod_beta)+

lemma gr_shut [simp]:
  "gr_users (snd (shut_step p w)) = gr_users w" "gr_shutters (snd (shut_step p w)) = gr_shutters w"
  "gr_closers (snd (shut_step p w)) = gr_closers w"
  by (cases "(p, w)" rule: shut_step.cases; simp add: case_prod_beta del: closing_step.simps)+

lemma gr_serve [simp]:
  "gr_users (serve_do pkg what e w) = gr_users w" "gr_shutters (serve_do pkg what e w) = gr_shutters w"
  "gr_closers (serve_do pkg what e w) = gr_closers w"
  by (auto simp: serve_do_def life_serve_def life_accept_failed_def life_leave_def life_unlisten_def Let_def
      split: life_event.split option.split serve_phase.split)

lemma serve_do_ok: "life_inv w \<Longrightarrow> life_inv (serve_do pkg what e w) \<and> grows w (serve_do pkg what e w)"
  by (auto simp: serve_do_def serve_inv serve_grows accept_failed_ok leave_inv leave_grows unlisten_ok
      split: life_event.split serve_phase.split)

lemma serve_do_inv: "world_inv w \<Longrightarrow> world_inv (serve_do pkg what e w)"
  by (rule world_invI) (auto simp: world_inv_def serve_do_ok)

lemma closer_step_ok:
  assumes "life_inv s" "closer_ok c s"
  shows "life_inv (snd (closer_step c s)) \<and> grows s (snd (closer_step c s))
    \<and> closer_ok (fst (closer_step c s)) (snd (closer_step c s))"
proof (cases c)
  case (CloseListener ln)
  have "listener_down (close_listener ln s)"
    using assms CloseListener life_invD(5) [OF assms(1)]
    by (auto simp: closer_ok_def only_listener_def listener_down_def close_listener_def put_serve_def split: option.splits)
  moreover have "lf_closed (close_listener ln s)"
    using assms CloseListener by (simp add: closer_ok_def close_listener_def split: option.split)
  ultimately show ?thesis using assms(1) CloseListener by (simp add: closer_ok_def)
next
  case CloseSnapshot
  with assms show ?thesis
    by (auto simp: closer_ok_def list_all_iff covered_def dest: life_invD(2))
next
  case (CloseConns cl)
  let ?s = "snd (closing_step cl s)"
  have cl: "closing_ok cl s" "covered cl s" "listener_down s" "lf_closed s"
    using assms(2) CloseConns by (simp_all add: closer_ok_def)
  have i: "life_inv ?s" "grows s ?s" using closing_inv [OF assms(1) cl(1)] by simp_all
  have "lf_closed ?s" using i(2) cl(4) by (simp add: grows_def)
  with i cl show ?thesis
    by (auto simp: CloseConns closer_ok_def case_prod_beta
        intro: closing_next covered_next [OF assms(1)] listener_down_grows [OF _ _ _ assms(1)])
qed

lemma shut_step_ok:
  assumes "life_inv s" "shutter_ok p s"
  shows "life_inv (snd (shut_step p s)) \<and> grows s (snd (shut_step p s))
    \<and> shutter_ok (fst (shut_step p s)) (snd (shut_step p s))"
proof (cases "\<exists>e c. p = ShutConns e c \<and> c \<noteq> Closing []")
  case True
  then obtain e c where p: "p = ShutConns e c" "c \<noteq> Closing []" by blast
  then have c: "closing_ok c s" using assms by (simp add: shutter_ok_def)
  have "shut_step p s = (ShutConns e (fst (closing_step c s)), snd (closing_step c s))"
    using p by (cases "(p, s)" rule: shut_step.cases) (auto simp: case_prod_beta simp del: closing_step.simps)
  with closing_inv [OF assms(1) c] closing_next [OF c] show ?thesis by (simp add: shutter_ok_def)
next
  case False
  then show ?thesis
    using assms by (cases "(p, s)" rule: shut_step.cases) (auto simp: shutter_ok_def list_all_iff dest: life_invD(2))
qed

lemma in_upd: "y \<in> set (xs[i := x]) \<Longrightarrow> y \<in> set xs \<or> y = x"
  using set_update_subset_insert [of xs i x] by auto

lemma set_phase_inv:
  assumes "world_inv w" "life_inv w'" "grows w w'" "shutter_ok p w'"
    "gr_users w' = gr_users w" "gr_shutters w' = gr_shutters w" "gr_closers w' = gr_closers w"
  shows "world_inv (set_phase j p w')"
proof (rule world_invI [OF assms(1)])
  let ?w = "set_phase j p w'"
  show "life_inv ?w" using assms(2) by (simp add: set_phase_def cong: life_inv_same)
  show "grows w ?w" using assms(3) by (simp add: set_phase_def grows_def)
  fix sh assume "sh \<in> set (gr_shutters ?w)"
  then have "sh \<in> set (gr_shutters w) \<or> sh_phase sh = p"
    using assms(6) by (auto simp: set_phase_def dest: in_upd)
  moreover have "shutter_ok p ?w"
    by (rule shutter_ok_grows [OF assms(4)]) (simp add: set_phase_def grows_same)
  ultimately show "sh_phase sh \<in> sh_phase ` set (gr_shutters w) \<or> shutter_ok (sh_phase sh) ?w" by auto
qed (use assms in \<open>auto simp: set_phase_def\<close>)

lemma shut_moves_ok:
  "shutter_ok (sh_phase sh) s \<Longrightarrow> shutter_ok (shut_done sh) s"
  "shutter_ok p s \<Longrightarrow> shutter_ok (shut_served p s) s"
  "shutter_ok p s \<Longrightarrow> shutter_ok (shut_expired e p) s"
    apply (auto simp: shut_done_def shutter_ok_def split: shut_phase.split option.split)[1]
   apply (cases p; simp add: shutter_ok_def)
  apply (cases p; simp add: shutter_ok_def)
  done

lemma shutter_at: "world_inv w \<Longrightarrow> j < length (gr_shutters w) \<Longrightarrow> shutter_ok (sh_phase (gr_shutters w ! j)) w"
  by (simp add: world_inv_def list_all_length)

lemma shutter_do_inv: "world_inv w \<Longrightarrow> world_inv (shutter_do e w)"
proof -
  assume w: "world_inv w"
  then have l: "life_inv w" by (simp add: world_inv_def)
  show ?thesis
  proof (cases e)
    case LShutdown
    let ?s = "snd (shutdown_begin_life w)"
    have "life_inv ?s" "grows w ?s"
      using l by (auto simp: shutdown_begin_life_def grows_def cong: life_inv_same)
    then show ?thesis
      using w by (intro world_invI [OF w])
        (auto simp: LShutdown shutter_do_def case_prod_beta grows_def shutdown_begin_life_def shutter_ok_def
          cong: life_inv_same split: if_splits)
  next
    case (LShutStep j)
    show ?thesis
    proof (cases "j < length (gr_shutters w)")
      case True
      with shut_step_ok [OF l shutter_at [OF w True]] w show ?thesis
        by (simp add: LShutStep shutter_do_def case_prod_beta set_phase_inv)
    qed (use w in \<open>simp add: LShutStep shutter_do_def\<close>)
  next
    case (LShutWaited j)
    show ?thesis
      using w l by (intro world_invI [OF w])
        (auto simp: LShutWaited shutter_do_def grows_def cong: life_inv_same dest!: in_upd)
  qed (use w l shutter_at [OF w] in \<open>auto simp: shutter_do_def intro!: set_phase_inv shut_moves_ok\<close>)
qed

lemma accept_keeps [simp]:
  "gr_users (snd (life_accept c w)) = gr_users w" "gr_shutters (snd (life_accept c w)) = gr_shutters w"
  "gr_closers (snd (life_accept c w)) = gr_closers w"
  "gr_users (life_returned i w) = gr_users w" "gr_shutters (life_returned i w) = gr_shutters w"
  "gr_closers (life_returned i w) = gr_closers w"
  by (simp_all add: life_accept_def Let_def life_returned_def)

lemma dial_keeps [simp]:
  "gr_users (snd (dial_commit pkg ep de c w)) = gr_users w" "gr_shutters (snd (dial_commit pkg ep de c w)) = gr_shutters w"
  "gr_closers (snd (dial_commit pkg ep de c w)) = gr_closers w"
  by (simp_all add: dial_commit_def Let_def split: option.split)

lemma life_do_inv:
  assumes w: "world_inv w"
  shows "world_inv (life_do pkg what c e w)"
proof -
  have l: "life_inv w" using w by (simp add: world_inv_def)
  show ?thesis
  proof (cases e)
    case (LDial ep de)
    show ?thesis
      using l by (intro world_invI [OF w]) (simp_all add: LDial life_do_def dial_inv dial_grows)
  next
    case (LWgDone i)
    show ?thesis
      using w l by (auto simp: LWgDone life_do_def wg_done_inv wg_done_grows intro!: world_invI [OF w])
        (simp_all add: life_wg_done_def)
  next
    case (LUserClose i)
    show ?thesis
      using w l by (auto simp: LUserClose life_do_def grows_def cong: life_inv_same intro!: world_invI [OF w])
  next
    case (LUserStep j)
    show ?thesis
    proof (cases "j < length (gr_users w)")
      case True
      let ?s = "snd (closing_step (gr_users w ! j) w)" and ?c = "fst (closing_step (gr_users w ! j) w)"
      have ok: "closing_ok (gr_users w ! j) w" using w True by (simp add: world_inv_def list_all_length)
      have s: "life_inv ?s" "grows w ?s" "closing_ok ?c ?s"
        using closing_inv [OF l ok] closing_next [OF ok] by simp_all
      let ?w = "?s\<lparr>gr_users := (gr_users w)[j := ?c]\<rparr>"
      have g: "grows ?s ?w" by (simp add: grows_same)
      have "world_inv ?w"
        using s grows_trans [OF s(2) g] closing_ok_grows [OF s(3) g]
        by (intro world_invI [OF w]) (auto cong: life_inv_same dest!: in_upd)
      then show ?thesis using True by (simp add: LUserStep life_do_def case_prod_beta)
    qed (use w in \<open>simp add: LUserStep life_do_def\<close>)
  next
    case LClose
    let ?s = "snd (close_begin_life w)"
    have s: "life_inv ?s" "grows w ?s"
      using l by (auto simp: close_begin_life_def grows_def cong: life_inv_same)
    show ?thesis
      using w s l by (auto simp: LClose life_do_def close_begin_life_def grows_def closer_ok_def only_listener_def
          cong: life_inv_same intro!: world_invI [OF w])
  next
    case (LCloserStep j)
    show ?thesis
    proof (cases "j < length (gr_closers w)")
      case True
      let ?s = "snd (closer_step (gr_closers w ! j) w)" and ?c = "fst (closer_step (gr_closers w ! j) w)"
      have ok: "closer_ok (gr_closers w ! j) w" using w True by (simp add: world_inv_def list_all_length)
      have s: "life_inv ?s" "grows w ?s" "closer_ok ?c ?s" using closer_step_ok [OF l ok] by simp_all
      let ?w = "?s\<lparr>gr_closers := (gr_closers w)[j := ?c]\<rparr>"
      have g: "grows ?s ?w" by (simp add: grows_same)
      have "world_inv ?w"
        using s grows_trans [OF s(2) g] closer_ok_grows [OF s(3) g s(1)]
        by (intro world_invI [OF w]) (auto cong: life_inv_same dest!: in_upd)
      then show ?thesis using True by (simp add: LCloserStep life_do_def case_prod_beta)
    qed (use w in \<open>simp add: LCloserStep life_do_def\<close>)
  qed (use shutter_do_inv [OF serve_do_inv [OF w]] in \<open>simp_all add: life_do_def\<close>)
qed

lemma carrier_start_inv: "world_inv carrier_start"
  by (simp add: carrier_start_def world_inv_def life_inv_def life_new_def carrier_life.defs)

section \<open>After Close, and after Shutdown\<close>

definition close_returned :: "('c, 'm) carrier_world_scheme \<Rightarrow> bool" where
  "close_returned w \<longleftrightarrow> list_ex (\<lambda>c. c = CloseConns (Closing [])) (gr_closers w)"

lemma close_over:
  assumes "world_inv w" "close_returned w"
  shows "list_all conn_over (lf_objs w)" "listener_down w" "lf_closed w"
proof -
  have ok: "closer_ok (CloseConns (Closing [])) w" and l: "life_inv w"
    using assms by (auto simp: world_inv_def close_returned_def list_all_iff list_ex_iff)
  then show "listener_down w" "lf_closed w" by (simp_all add: closer_ok_def)
  show "list_all conn_over (lf_objs w)"
    unfolding list_all_length
  proof (intro allI impI)
    fix i assume "i < length (lf_objs w)"
    then show "conn_over (lf_objs w ! i)"
      using life_invD(3) [OF l, of i] ok by (auto simp: conn_over_def conn_ok_def closer_ok_def covered_def split: if_splits)
  qed
qed

text \<open>
  A \<open>Shutdown\<close> that is waiting: while nothing starts to serve again, the count of callbacks only falls,
  and a returned nil means that it was zero.
\<close>

fun settled :: "shut_phase \<Rightarrow> bool" where
  "settled (ShutServe k) = True"
| "settled (ShutReturned r) = (r = None)"
| "settled p = False"

definition shut_waits :: "nat \<Rightarrow> ('c, 'm) carrier_world_scheme \<Rightarrow> bool" where
  "shut_waits j w \<longleftrightarrow> lf_shutdown w \<and> j < length (gr_shutters w)
     \<and> (sh_waited (gr_shutters w ! j) \<or> settled (sh_phase (gr_shutters w ! j)) \<longrightarrow> lf_wg w = 0)"

fun serves_again :: "life_event \<Rightarrow> bool" where
  "serves_again (LServe addr le) = True"
| "serves_again _ = False"

lemma shut_waits_lift:
  assumes "shut_waits j w" "lf_wg w' \<le> lf_wg w" "lf_shutdown w'" "j < length (gr_shutters w')"
    "gr_shutters w' ! j = gr_shutters w ! j"
  shows "shut_waits j w'"
  using assms by (auto simp: shut_waits_def)

lemma closing_calm [simp]:
  "lf_wg (snd (closing_step c s)) = lf_wg s" "lf_shutdown (snd (closing_step c s)) = lf_shutdown s"
  by (cases "(c, s)" rule: closing_step.cases; simp)+

lemma close_listener_calm [simp]:
  "lf_wg (close_listener ln s) = lf_wg s" "lf_shutdown (close_listener ln s) = lf_shutdown s"
  by (simp_all add: close_listener_def split: option.split)

lemma closer_calm [simp]:
  "lf_wg (snd (closer_step c s)) = lf_wg s" "lf_shutdown (snd (closer_step c s)) = lf_shutdown s"
  by (cases c; simp add: case_prod_beta)+

lemma shut_calm [simp]:
  "lf_wg (snd (shut_step p s)) = lf_wg s" "lf_shutdown (snd (shut_step p s)) = lf_shutdown s"
  by (cases "(p, s)" rule: shut_step.cases; simp add: case_prod_beta del: closing_step.simps)+

lemma dial_calm [simp]:
  "lf_wg (snd (dial_commit pkg ep de c s)) = lf_wg s" "lf_shutdown (snd (dial_commit pkg ep de c s)) = lf_shutdown s"
  by (simp_all add: dial_commit_def Let_def split: option.split)

lemma serve_do_calm:
  "\<not> serves_again e \<Longrightarrow> lf_wg (serve_do pkg what e w) = lf_wg w \<and> lf_shutdown (serve_do pkg what e w) = lf_shutdown w"
  by (cases e) (auto simp: serve_do_def life_accept_failed_def life_leave_def life_unlisten_def split: serve_phase.split)

lemma shut_step_settled: "settled (fst (shut_step p s)) \<Longrightarrow> settled p"
  by (cases "(p, s)" rule: shut_step.cases) (auto simp: case_prod_beta)

lemma shut_done_settled: "settled (shut_done sh) \<Longrightarrow> sh_waited sh \<or> settled (sh_phase sh)"
  by (auto simp: shut_done_def split: if_splits)

lemma shut_moves_settled:
  "settled (shut_served p s) \<Longrightarrow> settled p" "settled (shut_expired e p) \<Longrightarrow> settled p"
  by (cases p; simp)+

lemma set_phase_waits:
  assumes "shut_waits j w" "lf_wg w' = lf_wg w" "lf_shutdown w'" "gr_shutters w' = gr_shutters w"
    "settled p \<Longrightarrow> sh_waited (gr_shutters w ! i) \<or> settled (sh_phase (gr_shutters w ! i))"
  shows "shut_waits j (set_phase i p w')"
  using assms by (auto simp: shut_waits_def set_phase_def nth_upd)

lemma shutter_do_waits: "shut_waits j w \<Longrightarrow> shut_waits j (shutter_do e w)"
proof -
  assume w: "shut_waits j w"
  then have sd: "lf_shutdown w" by (simp add: shut_waits_def)
  show ?thesis
  proof (cases e)
    case LShutdown
    show ?thesis
      by (rule shut_waits_lift [OF w])
        (use w in \<open>auto simp: LShutdown shutter_do_def shutdown_begin_life_def shut_waits_def nth_append\<close>)
  next
    case (LShutStep i)
    then show ?thesis
      using w sd by (auto simp: shutter_do_def case_prod_beta intro!: set_phase_waits dest: shut_step_settled)
  next
    case (LShutWaited i)
    then show ?thesis using w by (auto simp: shutter_do_def shut_waits_def nth_upd)
  next
    case (LShutDone i)
    then show ?thesis
      using w sd by (auto simp: shutter_do_def intro!: set_phase_waits dest: shut_done_settled)
  next
    case (LShutServed i)
    then show ?thesis
      using w sd by (auto simp: shutter_do_def intro!: set_phase_waits dest: shut_moves_settled)
  next
    case (LShutExpired i er)
    then show ?thesis
      using w sd by (auto simp: shutter_do_def intro!: set_phase_waits dest: shut_moves_settled)
  qed (use w in \<open>simp_all add: shutter_do_def\<close>)
qed

lemma life_do_waits:
  assumes w: "shut_waits j w" and e: "\<not> serves_again e"
  shows "shut_waits j (life_do pkg what c e w)"
proof (cases "e \<in> range (\<lambda>(ep, de). LDial ep de) \<union> range LWgDone \<union> range LUserClose \<union> range LUserStep
    \<union> {LClose} \<union> range LCloserStep")
  case True
  show ?thesis
    by (rule shut_waits_lift [OF w])
      (use True w in \<open>auto simp: life_do_def shut_waits_def case_prod_beta life_wg_done_def close_begin_life_def\<close>)
next
  case False
  have "shut_waits j (serve_do pkg what e w)"
    by (rule shut_waits_lift [OF w]) (use w serve_do_calm [OF e, of pkg what w] in \<open>auto simp: shut_waits_def\<close>)
  then have "shut_waits j (shutter_do e (serve_do pkg what e w))" by (rule shutter_do_waits)
  moreover have "life_do pkg what c e w = shutter_do e (serve_do pkg what e w)"
    using False by (cases e) (auto simp: life_do_def)
  ultimately show ?thesis by simp
qed

lemma idle_callbacks:
  assumes "world_inv w" "lf_wg w = 0"
  shows "list_all (\<lambda>c. \<not> cn_running c) (lf_objs w)"
proof -
  have l: "life_inv w" using assms by (simp add: world_inv_def)
  have "filter cn_counted (lf_objs w) = []" using life_invD(4) [OF l] assms(2) by simp
  then have n: "\<not> cn_counted (lf_objs w ! i)" if "i < length (lf_objs w)" for i
    using that by (auto simp: filter_empty_conv)
  show ?thesis
    unfolding list_all_length
  proof (intro allI impI)
    fix i assume i: "i < length (lf_objs w)"
    then show "\<not> cn_running (lf_objs w ! i)"
      using n [OF i] life_invD(3) [OF l i] by (auto simp: conn_ok_def split: if_splits)
  qed
qed

text \<open>Nothing opens a connection of a closed transport, and a \<open>Close\<close> that has returned stays so.\<close>

definition no_more :: "('c, 'm) carrier_world_scheme \<Rightarrow> ('c, 'm) carrier_world_scheme \<Rightarrow> bool" where
  "no_more w w' \<longleftrightarrow> lf_closed w' \<and> length (lf_objs w') = length (lf_objs w) \<and> (close_returned w \<longrightarrow> close_returned w')"

lemma no_more_same:
  "lf_closed w' \<Longrightarrow> length (lf_objs w') = length (lf_objs w) \<Longrightarrow> gr_closers w' = gr_closers w \<Longrightarrow> no_more w w'"
  by (simp add: no_more_def close_returned_def)

lemma closing_keep [simp]:
  "lf_closed (snd (closing_step c s)) = lf_closed s" "length (lf_objs (snd (closing_step c s))) = length (lf_objs s)"
  by (cases "(c, s)" rule: closing_step.cases; simp)+

lemma close_listener_keep [simp]:
  "lf_closed (close_listener ln s) = lf_closed s" "lf_objs (close_listener ln s) = lf_objs s"
  by (simp_all add: close_listener_def split: option.split)

lemma closer_keep [simp]:
  "lf_closed (snd (closer_step cl s)) = lf_closed s" "length (lf_objs (snd (closer_step cl s))) = length (lf_objs s)"
  by (cases cl; simp add: case_prod_beta)+

lemma shut_keep [simp]:
  "lf_closed (snd (shut_step p s)) = lf_closed s" "length (lf_objs (snd (shut_step p s))) = length (lf_objs s)"
  by (cases "(p, s)" rule: shut_step.cases; simp add: case_prod_beta del: closing_step.simps)+

lemma serve_do_closed:
  "lf_closed w \<Longrightarrow> lf_closed (serve_do pkg what e w) \<and> lf_objs (serve_do pkg what e w) = lf_objs w"
  by (auto simp: serve_do_def life_serve_def life_accept_failed_def life_leave_def life_unlisten_def
      split: life_event.split option.split serve_phase.split)

lemma shutter_do_closed:
  "lf_closed w \<Longrightarrow> lf_closed (shutter_do e w) \<and> length (lf_objs (shutter_do e w)) = length (lf_objs w)
    \<and> gr_closers (shutter_do e w) = gr_closers w"
  by (auto simp: shutter_do_def shutdown_begin_life_def case_prod_beta set_phase_def split: life_event.split)

lemma returned_stays:
  "list_ex P xs \<Longrightarrow> \<not> P (xs ! j) \<or> P y \<Longrightarrow> list_ex P (xs[j := y])"
  by (auto simp: list_ex_length nth_upd)

lemma life_do_no_more:
  assumes "lf_closed w"
  shows "no_more w (life_do pkg what c e w)"
proof -
  have s: "no_more w (shutter_do e (serve_do pkg what e w))"
    using serve_do_closed [OF assms, of pkg what e] shutter_do_closed [of "serve_do pkg what e w" e]
    by (intro no_more_same) simp_all
  show ?thesis
  proof (cases e)
    case (LCloserStep j)
    have "close_returned w \<Longrightarrow> close_returned (life_do pkg what c e w)"
      by (auto simp: LCloserStep life_do_def case_prod_beta close_returned_def intro!: returned_stays)
    then show ?thesis using assms by (auto simp: LCloserStep life_do_def case_prod_beta no_more_def)
  qed (use s assms in \<open>auto simp: life_do_def case_prod_beta dial_commit_def close_begin_life_def life_wg_done_def
      intro!: no_more_same split: option.split\<close>)
qed

end
