(* ===== verification/Tcp_Carrier.thy ===== *)
theory Tcp_Carrier
  imports Carrier_World
begin

text \<open>
  The TCP transport (src/transport/tcp/tcp.go): the life of theory \<open>Carrier_World\<close> with accepted
  connections, and the send operations of a connection.
\<close>

section \<open>Runs\<close>

definition tcp_conn :: carrier_conn where
  "tcp_conn = \<lparr>cn_dialed = False, cn_closed = False, cn_running = False, cn_counted = False\<rparr>"

datatype tcp_event =
    TcpAccept
  | TcpReturned nat
  | TcpLife life_event

definition tcp_do :: "tcp_event \<Rightarrow> unit carrier_world \<Rightarrow> unit carrier_world" where
  "tcp_do e w =
     (case e of
        TcpAccept \<Rightarrow>
          if list_ex (\<lambda>r. sr_phase r = Accepting) (lf_serves w) then snd (life_accept tcp_conn w) else w
      | TcpReturned i \<Rightarrow>
          if i < length (lf_objs w) \<and> cn_running (lf_objs w ! i) then life_returned i w else w
      | TcpLife le \<Rightarrow> life_do ''tcp'' ''accept'' tcp_conn le w)"

abbreviation tcp_run :: "tcp_event list \<Rightarrow> unit carrier_world" where
  "tcp_run es \<equiv> run_steps tcp_do es carrier_start"

lemma tcp_do_inv: "world_inv w \<Longrightarrow> world_inv (tcp_do e w)"
proof -
  assume w: "world_inv w"
  then have l: "life_inv w" by (simp add: world_inv_def)
  show ?thesis
  proof (cases e)
    case TcpAccept
    have "world_inv (snd (life_accept tcp_conn w))"
      using accept_inv [OF l] accept_grows by (intro world_invI [OF w]) simp_all
    with w TcpAccept show ?thesis by (simp add: tcp_do_def)
  next
    case (TcpReturned i)
    have "world_inv (life_returned i w)" if "i < length (lf_objs w)" "cn_running (lf_objs w ! i)"
      using returned_inv [OF l that] returned_grows [OF l] by (intro world_invI [OF w]) simp_all
    with w TcpReturned show ?thesis by (simp add: tcp_do_def)
  next
    case (TcpLife le)
    with life_do_inv [OF w] show ?thesis by (simp add: tcp_do_def)
  qed
qed

interpretation tcp_world: invariant_machine tcp_do world_inv
  by unfold_locales (rule tcp_do_inv)

lemma tcp_run_inv: "world_inv (tcp_run es)"
  by (rule tcp_world.run_inv) (rule carrier_start_inv)

section \<open>Close is final\<close>

lemma tcp_no_more: "lf_closed w \<Longrightarrow> no_more w (tcp_do e w)"
  by (cases e) (auto simp: tcp_do_def life_do_no_more life_accept_def life_returned_def intro!: no_more_same)

lemma tcp_closed_run:
  "world_inv w \<Longrightarrow> close_returned w \<Longrightarrow>
    world_inv (run_steps tcp_do es w) \<and> close_returned (run_steps tcp_do es w)
    \<and> length (lf_objs (run_steps tcp_do es w)) = length (lf_objs w)"
proof (induction es arbitrary: w)
  case (Cons e es)
  have "no_more w (tcp_do e w)" by (rule tcp_no_more [OF close_over(3) [OF Cons.prems]])
  then have "close_returned (tcp_do e w)" "length (lf_objs (tcp_do e w)) = length (lf_objs w)"
    using Cons.prems by (simp_all add: no_more_def)
  with Cons.IH [OF tcp_do_inv [OF Cons.prems(1)], of e] show ?case by simp
qed simp

text \<open>
  \<open>Close\<close> of a TCP transport is final, whatever other goroutines are between their sections: once
  the call that did it has returned, the listener of every \<open>Serve\<close> still running is closed, every
  connection the transport ever handed out is closed or, if it was accepted, its callback has
  returned, and neither an accept nor a dial that was already under way adds another.
\<close>

lemma tcp_close_final:
  "if close_returned (tcp_run es) then
     (let w = run_steps tcp_do es' (tcp_run es) in
        list_all conn_over (lf_objs w) \<and> listener_down w \<and> length (lf_objs w) = length (lf_objs (tcp_run es))
        \<and> fst (life_accept c w) = None \<and> dial_check pkg ep w \<noteq> None)
   else True"
proof (cases "close_returned (tcp_run es)")
  case True
  from tcp_closed_run [OF tcp_run_inv True, of es'] close_over [of "run_steps tcp_do es' (tcp_run es)"] True show ?thesis
    by (simp add: Let_def life_accept_def dial_check_def)
qed simp

text \<open>The run of the example: one accepted and one dialed connection, both closed by \<open>Close\<close>.\<close>

lemma tcp_close_example:
  "let w = tcp_run [TcpLife (LServe ''a:1'' None), TcpAccept, TcpLife (LDial ''b:2'' None), TcpLife LClose,
                    TcpLife (LDial ''b:2'' None), TcpAccept,
                    TcpLife (LCloserStep 0), TcpLife (LCloserStep 0), TcpLife (LCloserStep 0), TcpLife (LCloserStep 0),
                    TcpLife (LCloserStep 0)]
   in close_returned w \<and> map cn_closed (lf_objs w) = [True, True] \<and> lf_conns w = [0]"
  by code_simp

section \<open>Shutdown waits\<close>

fun tcp_serves :: "tcp_event \<Rightarrow> bool" where
  "tcp_serves (TcpLife le) = serves_again le"
| "tcp_serves _ = False"

lemma tcp_do_waits: "shut_waits j w \<Longrightarrow> \<not> tcp_serves e \<Longrightarrow> shut_waits j (tcp_do e w)"
proof (cases e)
  case TcpAccept
  then show "shut_waits j w \<Longrightarrow> \<not> tcp_serves e \<Longrightarrow> shut_waits j (tcp_do e w)"
    by (auto simp: tcp_do_def life_accept_def shut_waits_def)
next
  case (TcpReturned i)
  then show "shut_waits j w \<Longrightarrow> \<not> tcp_serves e \<Longrightarrow> shut_waits j (tcp_do e w)"
    by (auto simp: tcp_do_def life_returned_def shut_waits_def)
next
  case (TcpLife le)
  then show "shut_waits j w \<Longrightarrow> \<not> tcp_serves e \<Longrightarrow> shut_waits j (tcp_do e w)"
    by (simp add: tcp_do_def life_do_waits)
qed

lemma tcp_run_waits:
  "shut_waits j w \<Longrightarrow> shut_waits j (run_steps tcp_do (filter (\<lambda>e. \<not> tcp_serves e) es) w)"
  by (induction es arbitrary: w) (simp_all add: tcp_do_waits)

text \<open>
  C25: \<open>Shutdown\<close> of a transport that was not closed before returns nil only when no callback is in
  flight any more, in whatever order the other goroutines act, as long as \<open>Serve\<close> is not called again.
\<close>

theorem tcp_shutdown_waits:
  "let w = tcp_run es; j = length (gr_shutters w);
       w' = run_steps tcp_do (filter (\<lambda>e. \<not> tcp_serves e) es') (tcp_do (TcpLife LShutdown) w) in
   if \<not> lf_closed w \<and> sh_phase (gr_shutters w' ! j) = ShutReturned None
   then list_all (\<lambda>c. \<not> cn_running c) (lf_objs w') \<and> fst (life_accept c w') = None else True"
proof -
  define w where "w = tcp_run es"
  define j where "j = length (gr_shutters w)"
  define w' where "w' = run_steps tcp_do (filter (\<lambda>e. \<not> tcp_serves e) es') (tcp_do (TcpLife LShutdown) w)"
  have "list_all (\<lambda>c. \<not> cn_running c) (lf_objs w') \<and> fst (life_accept c w') = None"
    if a: "\<not> lf_closed w" "sh_phase (gr_shutters w' ! j) = ShutReturned None"
  proof -
    have "shut_waits j (tcp_do (TcpLife LShutdown) w)"
      using a(1) by (simp add: tcp_do_def life_do_def serve_do_def shutter_do_def shutdown_begin_life_def shut_waits_def j_def)
    then have "shut_waits j w'" unfolding w'_def by (rule tcp_run_waits)
    moreover have "world_inv w'"
      unfolding w'_def w_def by (intro tcp_world.run_inv tcp_do_inv tcp_run_inv)
    ultimately show ?thesis using a(2) idle_callbacks [of w'] by (simp add: shut_waits_def life_accept_def)
  qed
  then show ?thesis by (simp add: Let_def w_def [symmetric] j_def [symmetric] w'_def [symmetric])
qed

section \<open>Operations of a connection\<close>

text \<open>
  \<open>n\<close> bytes and the error of the socket. A socket that is not a TCP connection and has no \<open>CloseWrite\<close>
  is \<open>NoHalfClose\<close>.
\<close>

definition tcp_write :: "nat \<Rightarrow> go_error option \<Rightarrow> 'c carrier_conn_scheme \<Rightarrow> nat \<times> go_error option" where
  "tcp_write n err c = (if err \<noteq> None then (n, wrap_send_error err (\<not> cn_closed c)) else (n, None))"

datatype half_close = HalfClose "go_error option" | NoHalfClose

definition tcp_close_send :: "half_close \<Rightarrow> 'c carrier_conn_scheme \<Rightarrow> go_error option" where
  "tcp_close_send h c =
     (case h of
        HalfClose err \<Rightarrow> wrap_send_error err (\<not> cn_closed c)
      | NoHalfClose \<Rightarrow> Some (ErrNew ''tcp: CloseWrite not supported''))"

text \<open>
  A failed write ends the send direction only, as the stream sees it, unless the connection is closed
  or the error of the socket says otherwise.
\<close>

lemma tcp_write_direction:
  "errors_as_send e = None \<Longrightarrow>
    map_send_err (snd (tcp_write n (Some e) c)) = (if cn_closed c then Some (ErrSend e False) else Some ErrSendClosed)"
  by (simp add: tcp_write_def wrap_send_error_def map_send_err_def errors_as_send_def)

end
