(* ===== verification/Udp_Carrier.thy ===== *)
theory Udp_Carrier
  imports Carrier_World "HOL-Library.Sublist"
begin

text \<open>
  The UDP transport (src/transport/udp/udp.go): one socket whose datagrams are sorted by remote address
  into associations, each with an inbox of 32. Serving, dialing, shutting down and closing are those of
  theory \<open>Carrier_World\<close>, the listener being the socket.
\<close>

section \<open>Associations\<close>

text \<open>
  A server association has the remote address \<open>uc_key\<close> and the socket of the \<open>Serve\<close> number \<open>uc_pc\<close>.
  \<open>uc_taken\<close> records what \<open>RecvDatagram\<close> returned so far.
\<close>

record udp_conn = carrier_conn +
  uc_key :: string
  uc_pc :: nat
  uc_inbox :: "bytes list"
  uc_taken :: "bytes list"

definition max_datagram_size :: int where "max_datagram_size = 65507"
definition inbox_size :: int where "inbox_size = 32"

text \<open>What a read into a buffer of \<open>MaxDatagramSize\<close> bytes gets of a datagram.\<close>

definition one_datagram :: "bytes \<Rightarrow> bytes" where
  "one_datagram b = (if int (length b) \<le> max_datagram_size then b else take (nat max_datagram_size) b)"

definition err_net_closed :: go_error where "err_net_closed = ErrVar ''use of closed network connection''"

definition new_server_conn :: "nat \<Rightarrow> string \<Rightarrow> udp_conn" where
  "new_server_conn pc key =
     \<lparr>cn_dialed = False, cn_closed = False, cn_running = False, cn_counted = False,
      uc_key = key, uc_pc = pc, uc_inbox = [], uc_taken = []\<rparr>"

definition new_client_conn :: udp_conn where
  "new_client_conn =
     \<lparr>cn_dialed = True, cn_closed = False, cn_running = False, cn_counted = False,
      uc_key = [], uc_pc = 0, uc_inbox = [], uc_taken = []\<rparr>"

text \<open>
  A select picks any of its ready cases: \<open>pickDone\<close> says that it picks \<open>done\<close> when that is closed.
\<close>

definition udp_deliver :: "bool \<Rightarrow> bytes \<Rightarrow> udp_conn \<Rightarrow> udp_conn" where
  "udp_deliver pickDone p c =
     (if cn_closed c \<and> pickDone then c
      else if int (length (uc_inbox c)) < inbox_size then c\<lparr>uc_inbox := uc_inbox c @ [p]\<rparr>
      else c)"

text \<open>None while the call blocks.\<close>

definition udp_recv :: "bool \<Rightarrow> udp_conn \<Rightarrow> (go_error + bytes) option \<times> udp_conn" where
  "udp_recv pickDone c =
     (if cn_closed c \<and> pickDone then (Some (Inl err_net_closed), c)
      else case uc_inbox c of
             p # ps \<Rightarrow> (Some (Inr p), c\<lparr>uc_inbox := ps, uc_taken := uc_taken c @ [p]\<rparr>)
           | [] \<Rightarrow> (if cn_closed c then Some (Inl err_net_closed) else None, c))"

definition udp_recv_client :: "go_error + bytes \<Rightarrow> udp_conn \<Rightarrow> go_error + bytes" where
  "udp_recv_client readRes c =
     (case readRes of
        Inl e \<Rightarrow> Inl (if cn_closed c then err_net_closed else e)
      | Inr b \<Rightarrow> Inr (one_datagram b))"

text \<open>\<open>io\<close> is what the socket does with the datagram: an error, or the number of bytes written.\<close>

definition udp_send :: "go_error + nat \<Rightarrow> bytes \<Rightarrow> udp_conn \<Rightarrow> go_error option" where
  "udp_send io p c =
     (if cn_closed c then wrap_send_error (Some err_net_closed) False
      else if max_datagram_size < int (length p) then
        wrap_send_error (Some (ErrNew (''udp: datagram is '' @ nat_str (length p) @ '' bytes; maximum is ''
          @ itoa max_datagram_size))) False
      else case io of
             Inl e \<Rightarrow> wrap_send_error (Some e) False
           | Inr n \<Rightarrow> if n < length p then wrap_send_error (Some (ErrVar ''short write'')) False else None)"

section \<open>The serving transport\<close>

text \<open>
  \<open>uw_delivering\<close> is the datagram the reading goroutine has routed and not yet delivered; \<open>uw_log\<close> all
  datagrams it read, with their remote addresses.
\<close>

record udp_world = "unit udp_conn_ext carrier_world" +
  uw_assocs :: "(string, nat) gomap"
  uw_delivering :: "(nat \<times> bytes) option"
  uw_log :: "(string \<times> bytes) list"

definition udp_start :: udp_world where
  "udp_start = carrier_world.extend carrier_start \<lparr>uw_assocs = [], uw_delivering = None, uw_log = []\<rparr>"

definition drop_key :: "'k \<Rightarrow> ('k, 'v) gomap \<Rightarrow> ('k, 'v) gomap" where
  "drop_key key xs = filter (\<lambda>(k, _). k \<noteq> key) xs"

lemma drop_key_lookup [simp]: "map_of (drop_key key xs) = (map_of xs)(key := None)"
  by (induction xs) (auto simp: drop_key_def)

text \<open>The section of a new association, and the routing of a datagram that was read.\<close>

definition udp_associate :: "nat \<Rightarrow> string \<Rightarrow> bytes \<Rightarrow> udp_world \<Rightarrow> udp_world" where
  "udp_associate pc key p w =
     (case life_accept (new_server_conn pc key) w of
        (None, w1) \<Rightarrow> w1
      | (Some i, w1) \<Rightarrow> w1\<lparr>uw_assocs := alist_put key i (uw_assocs w1), uw_delivering := Some (i, p)\<rparr>)"

definition udp_route :: "nat \<Rightarrow> string \<Rightarrow> bytes \<Rightarrow> udp_world \<Rightarrow> udp_world" where
  "udp_route pc key p w =
     (if lf_shutdown w \<or> lf_closed w then w
      else case map_of (uw_assocs w) key of
             None \<Rightarrow> udp_associate pc key p w
           | Some i \<Rightarrow>
               if \<not> cn_closed (lf_objs w ! i) then w\<lparr>uw_delivering := Some (i, p)\<rparr>
               else udp_associate pc key p (life_untrack i (w\<lparr>uw_assocs := drop_key key (uw_assocs w)\<rparr>)))"

definition udp_read :: "nat \<Rightarrow> string \<Rightarrow> bytes \<Rightarrow> udp_world \<Rightarrow> udp_world" where
  "udp_read pc key b w =
     (let p = one_datagram b in
      udp_route pc key p (w\<lparr>uw_log := uw_log w @ [(key, p)]\<rparr>))"

text \<open>The section of \<open>untrackAssoc\<close>, after its \<open>Close\<close>.\<close>

definition untrack_assoc :: "nat \<Rightarrow> udp_world \<Rightarrow> udp_world" where
  "untrack_assoc i w =
     (let key = uc_key (lf_objs w ! i);
          w1 = life_returned i w in
      if map_of (uw_assocs w1) key = Some i then w1\<lparr>uw_assocs := drop_key key (uw_assocs w1)\<rparr> else w1)"

datatype udp_event =
    UdpRead nat string bytes
  | UdpDeliver bool
  | UdpRecv bool nat
  | UdpUntrack nat
  | UdpLife life_event

definition udp_do :: "udp_event \<Rightarrow> udp_world \<Rightarrow> udp_world" where
  "udp_do e w =
     (case e of
        UdpRead pc key b \<Rightarrow>
          if pc < length (lf_serves w) \<and> sr_phase (lf_serves w ! pc) = Accepting \<and> uw_delivering w = None
          then udp_read pc key b w else w
      | UdpDeliver pickDone \<Rightarrow>
          (case uw_delivering w of
             None \<Rightarrow> w
           | Some (i, p) \<Rightarrow> (put_conn i (udp_deliver pickDone p) w)\<lparr>uw_delivering := None\<rparr>)
      | UdpRecv pickDone i \<Rightarrow>
          if i < length (lf_objs w) \<and> \<not> cn_dialed (lf_objs w ! i)
          then put_conn i (\<lambda>c. snd (udp_recv pickDone c)) w else w
      | UdpUntrack i \<Rightarrow>
          if i < length (lf_objs w) \<and> cn_running (lf_objs w ! i) \<and> cn_closed (lf_objs w ! i)
          then untrack_assoc i w else w
      | UdpLife le \<Rightarrow> life_do ''udp'' ''read'' new_client_conn le w)"

abbreviation udp_run :: "udp_event list \<Rightarrow> udp_world" where
  "udp_run es \<equiv> run_steps udp_do es udp_start"

text \<open>A send on an association, whose socket may be closed.\<close>

definition udp_send_on :: "string \<Rightarrow> nat \<Rightarrow> bytes \<Rightarrow> udp_world \<Rightarrow> go_error option" where
  "udp_send_on op i p w =
     (let c = lf_objs w ! i in
      udp_send (if sr_listening (lf_serves w ! uc_pc c) then Inr (length p)
                else Inl (ErrWrap (op @ '': '' @ err_text err_net_closed) [err_net_closed])) p c)"

section \<open>Shutdown takes the socket away\<close>

text \<open>
  \<open>Shutdown\<close> closes the socket before it waits for the callbacks, so a callback that is still running
  can no longer answer, although its association is open and nothing has expired.
\<close>

lemma shutdown_mutes_callbacks:
  "let w = udp_run [UdpLife (LServe ''a:1'' None), UdpRead 0 ''c:9'' ''ask'', UdpDeliver False, UdpRecv False 0,
                    UdpLife LShutdown, UdpLife (LShutStep 0)]
   in cn_running (lf_objs w ! 0) \<and> \<not> cn_closed (lf_objs w ! 0) \<and> sh_phase (gr_shutters w ! 0) = ShutSelect
    \<and> udp_send_on ''write udp'' 0 ''answer'' w
        = Some (ErrSend (ErrWrap ''write udp: use of closed network connection'' [err_net_closed]) False)"
  by code_simp

text \<open>
  An association that outlives its \<open>Serve\<close> keeps its closed socket: the next \<open>Serve\<close> goes on routing the
  datagrams of that remote address to it, and their answers fail.
\<close>

lemma association_outlives_socket:
  "let w = udp_run [UdpLife (LServe ''a:1'' None), UdpRead 0 ''c:9'' ''ask'', UdpDeliver False,
                    UdpLife (LAcceptFailed (Some ctx_Canceled) err_net_closed 0), UdpLife (LLeave 0),
                    UdpLife (LUnlisten 0), UdpLife (LServe ''a:1'' None), UdpRead 1 ''c:9'' ''again'', UdpDeliver False]
   in uc_inbox (lf_objs w ! 0) = [''ask'', ''again''] \<and> length (lf_objs w) = 1
    \<and> udp_send_on ''write udp'' 0 ''answer'' w \<noteq> None"
  by code_simp

end
