(* ===== verification/Udp_Carrier_Props.thy ===== *)
theory Udp_Carrier_Props
  imports Udp_Carrier
begin

text \<open>
  What the UDP transport keeps under every interleaving: the invariants of \<open>Carrier_World\<close>, one open
  association per remote address, and the order of the datagrams of a remote address.
\<close>

section \<open>What the steps of the life leave alone\<close>

definition udp_data :: "udp_conn \<Rightarrow> bool \<times> string \<times> bytes list" where
  "udp_data c = (cn_dialed c, uc_key c, uc_taken c @ uc_inbox c)"

text \<open>Old connections keep their data, and new ones are dialed.\<close>

definition frame :: "udp_conn list \<Rightarrow> udp_conn list \<Rightarrow> bool" where
  "frame xs ys \<longleftrightarrow> length xs \<le> length ys
     \<and> (\<forall>i < length xs. udp_data (ys ! i) = udp_data (xs ! i) \<and> uc_inbox (ys ! i) = uc_inbox (xs ! i)
          \<and> (cn_closed (xs ! i) \<longrightarrow> cn_closed (ys ! i)))
     \<and> (\<forall>i < length ys. length xs \<le> i \<longrightarrow> cn_dialed (ys ! i) \<and> uc_inbox (ys ! i) = [])"

lemma frame_refl [simp]: "frame xs xs"
  by (simp add: frame_def)

lemma frame_update:
  assumes "\<And>c. udp_data (f c) = udp_data c" "\<And>c. uc_inbox (f c) = uc_inbox c" "\<And>c. cn_closed c \<Longrightarrow> cn_closed (f c)"
  shows "frame xs (xs[i := f (xs ! i)])"
  using assms by (auto simp: frame_def nth_upd)

lemma frame_closing: "frame (lf_objs s) (lf_objs (snd (closing_step c s)))"
  by (cases "(c, s)" rule: closing_step.cases)
    (auto simp: put_conn_at udp_data_def intro!: frame_update)

lemma frame_closer: "frame (lf_objs s) (lf_objs (snd (closer_step c s)))"
  by (cases c) (simp_all add: case_prod_beta frame_closing)

lemma frame_shut: "frame (lf_objs s) (lf_objs (snd (shut_step p s)))"
  by (cases "(p, s)" rule: shut_step.cases) (simp_all add: case_prod_beta frame_closing del: closing_step.simps)

lemma objs_serve [simp]: "lf_objs (serve_do pkg what e w) = lf_objs w"
  by (auto simp: serve_do_def life_serve_def life_accept_failed_def life_leave_def life_unlisten_def Let_def
      split: life_event.split option.split serve_phase.split)

lemma frame_shutter: "frame (lf_objs w) (lf_objs (shutter_do e w))"
  by (auto simp: shutter_do_def shutdown_begin_life_def case_prod_beta set_phase_def frame_shut split: life_event.split)

lemma frame_life: "frame (lf_objs w) (lf_objs (life_do pkg what new_client_conn e w))"
proof (cases e)
  case (LDial ep de)
  then show ?thesis
    by (auto simp: life_do_def dial_commit_def Let_def frame_def nth_append less_Suc_eq new_client_conn_def
        split: option.split)
next
  case (LWgDone i)
  then show ?thesis
    by (auto simp: life_do_def life_wg_done_def put_conn_at udp_data_def intro!: frame_update)
qed (use frame_shutter [of "serve_do pkg what e w" e] in
    \<open>auto simp: life_do_def case_prod_beta frame_closing frame_closer close_begin_life_def\<close>)

lemma assocs_life [simp]:
  "uw_assocs (snd (closing_step c w)) = uw_assocs w" "uw_delivering (snd (closing_step c w)) = uw_delivering w"
  "uw_log (snd (closing_step c w)) = uw_log w"
  by (cases "(c, w)" rule: closing_step.cases; simp add: put_conn_def life_untrack_def)+

lemma assocs_listener [simp]:
  "uw_assocs (close_listener ln w) = uw_assocs w" "uw_delivering (close_listener ln w) = uw_delivering w"
  "uw_log (close_listener ln w) = uw_log w"
  by (simp_all add: close_listener_def put_serve_def split: option.split)

lemma assocs_closer [simp]:
  "uw_assocs (snd (closer_step c w)) = uw_assocs w" "uw_delivering (snd (closer_step c w)) = uw_delivering w"
  "uw_log (snd (closer_step c w)) = uw_log w"
  by (cases c; simp add: case_prod_beta)+

lemma assocs_shut [simp]:
  "uw_assocs (snd (shut_step p w)) = uw_assocs w" "uw_delivering (snd (shut_step p w)) = uw_delivering w"
  "uw_log (snd (shut_step p w)) = uw_log w"
  by (cases "(p, w)" rule: shut_step.cases; simp add: case_prod_beta del: closing_step.simps)+

lemma assocs_serve [simp]:
  "uw_assocs (serve_do pkg what e w) = uw_assocs w" "uw_delivering (serve_do pkg what e w) = uw_delivering w"
  "uw_log (serve_do pkg what e w) = uw_log w"
  by (auto simp: serve_do_def life_serve_def life_accept_failed_def life_leave_def life_unlisten_def Let_def put_serve_def
      split: life_event.split option.split serve_phase.split)

lemma assocs_shutter [simp]:
  "uw_assocs (shutter_do e w) = uw_assocs w" "uw_delivering (shutter_do e w) = uw_delivering w"
  "uw_log (shutter_do e w) = uw_log w"
  by (auto simp: shutter_do_def shutdown_begin_life_def case_prod_beta set_phase_def split: life_event.split)

lemma assocs_do [simp]:
  "uw_assocs (life_do pkg what c e w) = uw_assocs w" "uw_delivering (life_do pkg what c e w) = uw_delivering w"
  "uw_log (life_do pkg what c e w) = uw_log w"
  by (auto simp: life_do_def dial_commit_def life_wg_done_def put_conn_def close_begin_life_def Let_def case_prod_beta
      split: life_event.split option.split)

section \<open>The datagrams of a remote address\<close>

definition from_key :: "string \<Rightarrow> udp_conn \<Rightarrow> bool" where
  "from_key k c \<longleftrightarrow> \<not> cn_dialed c \<and> uc_key c = k"

text \<open>All datagrams of \<open>k\<close> that reached an association, in the order of the associations.\<close>

definition chan :: "string \<Rightarrow> udp_conn list \<Rightarrow> bytes list" where
  "chan k xs = concat (map (\<lambda>c. uc_taken c @ uc_inbox c) (filter (from_key k) xs))"

definition chan_data :: "string \<Rightarrow> (bool \<times> string \<times> bytes list) list \<Rightarrow> bytes list" where
  "chan_data k ds = concat (map (snd \<circ> snd) (filter (\<lambda>(d, k', _). \<not> d \<and> k' = k) ds))"

lemma chan_of_data: "chan k xs = chan_data k (map udp_data xs)"
  by (induction xs) (auto simp: chan_def chan_data_def from_key_def udp_data_def)

lemma chan_append: "chan k (xs @ ys) = chan k xs @ chan k ys"
  by (simp add: chan_def)

lemma chan_none: "list_all (\<lambda>c. \<not> from_key k c) xs \<Longrightarrow> chan k xs = []"
  by (induction xs) (simp_all add: chan_def)

lemma chan_frame:
  assumes "frame xs ys"
  shows "chan k ys = chan k xs"
proof -
  let ?n = "length xs"
  have "map udp_data (take ?n ys) = map udp_data xs"
    using assms by (intro nth_equalityI) (auto simp: frame_def)
  then have "chan k (take ?n ys) = chan k xs" by (simp add: chan_of_data)
  moreover have "chan k (drop ?n ys) = []"
    using assms by (intro chan_none) (auto simp: frame_def list_all_length from_key_def)
  ultimately show ?thesis using chan_append [of k "take ?n ys" "drop ?n ys"] by simp
qed

definition last_of :: "string \<Rightarrow> udp_conn list \<Rightarrow> nat \<Rightarrow> bool" where
  "last_of k xs i \<longleftrightarrow> i < length xs \<and> from_key k (xs ! i) \<and> list_all (\<lambda>c. \<not> from_key k c) (drop (Suc i) xs)"

lemma chan_last: "last_of k xs i \<Longrightarrow> chan k xs = chan k (take i xs) @ uc_taken (xs ! i) @ uc_inbox (xs ! i)"
proof -
  assume l: "last_of k xs i"
  then have "xs = take i xs @ [xs ! i] @ drop (Suc i) xs" by (simp add: last_of_def id_take_nth_drop [symmetric])
  then have "chan k xs = chan k (take i xs) @ chan k [xs ! i] @ chan k (drop (Suc i) xs)"
    by (metis chan_append)
  with l show ?thesis by (simp add: last_of_def chan_none) (simp add: chan_def)
qed

lemma chan_put_last:
  assumes "last_of k xs i" "from_key k c"
  shows "chan k (xs[i := c]) = chan k (take i xs) @ uc_taken c @ uc_inbox c"
proof -
  have "last_of k (xs[i := c]) i" using assms by (simp add: last_of_def)
  from chan_last [OF this] assms show ?thesis by (simp add: last_of_def)
qed

lemma chan_put_other:
  assumes "\<not> from_key k (xs ! i)" "\<not> from_key k c"
  shows "chan k (xs[i := c]) = chan k xs"
proof (cases "i < length xs")
  case True
  have "chan k (take i xs @ xs ! i # drop (Suc i) xs) = chan k (take i xs @ c # drop (Suc i) xs)"
    using assms by (simp add: chan_def)
  with True show ?thesis by (simp add: id_take_nth_drop [symmetric] upd_conv_take_nth_drop)
qed (simp add: list_update_beyond not_less)

lemma last_of_update:
  "last_of k xs i \<Longrightarrow> from_key k c = from_key k (xs ! j) \<Longrightarrow> last_of k (xs[j := c]) i"
  by (auto simp: last_of_def list_all_length nth_upd)

lemma frame_key:
  "frame xs ys \<Longrightarrow> i < length xs \<Longrightarrow> uc_key (ys ! i) = uc_key (xs ! i) \<and> cn_dialed (ys ! i) = cn_dialed (xs ! i)"
  by (simp add: frame_def udp_data_def)

lemma last_of_frame:
  assumes "last_of k xs i" "frame xs ys"
  shows "last_of k ys i"
proof -
  have le: "length xs \<le> length ys" using assms(2) by (simp add: frame_def)
  have same: "from_key k (ys ! j) = from_key k (xs ! j)" if "j < length xs" for j
    using frame_key [OF assms(2) that] by (simp add: from_key_def)
  have new: "\<not> from_key k (ys ! j)" if "j < length ys" "length xs \<le> j" for j
    using assms(2) that by (simp add: frame_def from_key_def)
  have "\<not> from_key k (ys ! j)" if "j < length ys" "i < j" for j
  proof (cases "j < length xs")
    case True
    have "xs ! j = drop (Suc i) xs ! (j - Suc i)" "j - Suc i < length (drop (Suc i) xs)"
      using True that by simp_all
    moreover have "\<forall>n < length (drop (Suc i) xs). \<not> from_key k (drop (Suc i) xs ! n)"
      using assms(1) unfolding last_of_def list_all_length by blast
    ultimately have "\<not> from_key k (xs ! j)" by metis
    with True same show ?thesis by simp
  qed (use new that in simp)
  then have "list_all (\<lambda>c. \<not> from_key k c) (drop (Suc i) ys)" by (simp add: list_all_length)
  with assms(1) le same show ?thesis by (simp add: last_of_def)
qed

lemma last_of_snoc: "last_of k xs i \<Longrightarrow> \<not> from_key k c \<Longrightarrow> last_of k (xs @ [c]) i"
  by (simp add: last_of_def nth_append)

lemma last_of_new: "from_key k c \<Longrightarrow> last_of k (xs @ [c]) (length xs)"
  by (simp add: last_of_def)

lemma last_of_facts: "last_of k xs i \<Longrightarrow> i < length xs \<and> \<not> cn_dialed (xs ! i) \<and> uc_key (xs ! i) = k"
  by (simp add: last_of_def from_key_def)

section \<open>The invariant\<close>

definition arriving :: "string \<Rightarrow> udp_world \<Rightarrow> bytes list" where
  "arriving k w = (case uw_delivering w of
     Some (i, p) \<Rightarrow> if uc_key (lf_objs w ! i) = k then [p] else [] | None \<Rightarrow> [])"

definition logged :: "string \<Rightarrow> (string \<times> bytes) list \<Rightarrow> bytes list" where
  "logged k l = map snd (filter (\<lambda>(a, _). a = k) l)"

definition assocs_last :: "udp_world \<Rightarrow> bool" where
  "assocs_last w \<longleftrightarrow> (\<forall>k i. map_of (uw_assocs w) k = Some i \<longrightarrow> last_of k (lf_objs w) i)"

definition open_found :: "udp_world \<Rightarrow> bool" where
  "open_found w \<longleftrightarrow> (\<forall>i < length (lf_objs w). \<not> cn_dialed (lf_objs w ! i) \<and> \<not> cn_closed (lf_objs w ! i) \<longrightarrow>
      map_of (uw_assocs w) (uc_key (lf_objs w ! i)) = Some i)"

definition delivers_last :: "udp_world \<Rightarrow> bool" where
  "delivers_last w \<longleftrightarrow> (case uw_delivering w of None \<Rightarrow> True
     | Some (i, p) \<Rightarrow> last_of (uc_key (lf_objs w ! i)) (lf_objs w) i)"

definition inboxes_fit :: "udp_world \<Rightarrow> bool" where
  "inboxes_fit w \<longleftrightarrow> list_all (\<lambda>c. int (length (uc_inbox c)) \<le> inbox_size) (lf_objs w)"

definition in_order :: "udp_world \<Rightarrow> bool" where
  "in_order w \<longleftrightarrow> (\<forall>k. subseq (chan k (lf_objs w) @ arriving k w) (logged k (uw_log w)))"

definition udp_inv :: "udp_world \<Rightarrow> bool" where
  "udp_inv w \<longleftrightarrow> world_inv w \<and> assocs_last w \<and> open_found w \<and> delivers_last w \<and> inboxes_fit w \<and> in_order w"

lemma udp_start_inv: "udp_inv udp_start"
proof -
  have "world_inv udp_start"
    using carrier_start_inv
    by (simp add: udp_start_def carrier_start_def world_inv_def life_inv_def life_new_def
        carrier_life.defs carrier_world.defs)
  then show ?thesis
    by (simp add: udp_inv_def udp_start_def carrier_start_def life_new_def carrier_life.defs carrier_world.defs
        assocs_last_def open_found_def delivers_last_def inboxes_fit_def in_order_def arriving_def chan_def logged_def)
qed

text \<open>A step that frames the connections and leaves the rest alone.\<close>

lemma udp_frame_inv:
  assumes inv: "udp_inv w" and w: "world_inv w'" and f: "frame (lf_objs w) (lf_objs w')"
    and same: "uw_assocs w' = uw_assocs w" "uw_delivering w' = uw_delivering w" "uw_log w' = uw_log w"
  shows "udp_inv w'"
proof -
  have a: "assocs_last w" "open_found w" "delivers_last w" "inboxes_fit w" "in_order w"
    using inv by (simp_all add: udp_inv_def)
  have key: "uc_key (lf_objs w' ! i) = uc_key (lf_objs w ! i)" if "i < length (lf_objs w)" for i
    using frame_key [OF f that] by simp
  have d: "delivers_last w'"
  proof (cases "uw_delivering w")
    case (Some q)
    obtain i p where q: "q = (i, p)" by (cases q)
    with Some a(3) have l: "last_of (uc_key (lf_objs w ! i)) (lf_objs w) i" by (simp add: delivers_last_def)
    with key [of i] last_of_frame [OF l f] last_of_facts [OF l] Some q same(2) show ?thesis
      by (simp add: delivers_last_def)
  qed (use same(2) in \<open>simp add: delivers_last_def\<close>)
  have "arriving k w' = arriving k w" for k
    using a(3) key same(2) by (auto simp: arriving_def delivers_last_def dest: last_of_facts split: option.splits)
  with a(5) same(3) have o: "in_order w'" by (simp add: in_order_def chan_frame [OF f])
  have "assocs_last w'" using a(1) same(1) f by (auto simp: assocs_last_def intro: last_of_frame)
  moreover have "open_found w'"
    unfolding open_found_def
  proof (intro allI impI)
    fix i assume i: "i < length (lf_objs w')" "\<not> cn_dialed (lf_objs w' ! i) \<and> \<not> cn_closed (lf_objs w' ! i)"
    then have "i < length (lf_objs w)" using f by (auto simp: frame_def not_less)
    with i f a(2) same(1) frame_key [OF f, of i] show "map_of (uw_assocs w') (uc_key (lf_objs w' ! i)) = Some i"
      by (auto simp: open_found_def frame_def)
  qed
  moreover have "inboxes_fit w'"
    unfolding inboxes_fit_def list_all_length
  proof (intro allI impI)
    fix i assume i: "i < length (lf_objs w')"
    show "int (length (uc_inbox (lf_objs w' ! i))) \<le> inbox_size"
      using a(4) f i by (cases "i < length (lf_objs w)") (auto simp: inboxes_fit_def frame_def list_all_length inbox_size_def)
  qed
  ultimately show ?thesis using w d o by (simp add: udp_inv_def)
qed

section \<open>The steps\<close>

lemma logged_snoc: "logged k (l @ [(a, p)]) = logged k l @ (if a = k then [p] else [])"
  by (simp add: logged_def)

lemma subseq_longer: "subseq xs ys \<Longrightarrow> subseq xs (ys @ zs)"
  by (metis append_Nil2 list_emb_Nil list_emb_append_mono)

lemma subseq_shorter: "subseq (xs @ zs) ys \<Longrightarrow> subseq xs ys"
  by (meson subseq_order.trans subseq_longer subseq_order.refl)

lemma world_inv_data:
  fixes w w' :: udp_world
  assumes w: "world_inv w" and same: "lf_objs w' = lf_objs w" "lf_serves w' = lf_serves w" "lf_conns w' = lf_conns w"
    "lf_wg w' = lf_wg w" "lf_listener w' = lf_listener w" "lf_closed w' = lf_closed w"
    "gr_users w' = gr_users w" "gr_shutters w' = gr_shutters w" "gr_closers w' = gr_closers w"
  shows "world_inv w'"
proof (rule world_invI [OF w])
  show "life_inv w'" using w life_inv_same [OF same(1-5)] by (simp add: world_inv_def)
  show "grows w w'" by (rule grows_same [OF same(1-3) same(6) same(5)])
qed (simp_all add: same)

text \<open>Only the log grows.\<close>

lemma read_dropped:
  assumes "udp_inv w"
  shows "udp_inv (w\<lparr>uw_log := uw_log w @ [(key, p)]\<rparr>)"
proof -
  let ?w = "w\<lparr>uw_log := uw_log w @ [(key, p)]\<rparr>"
  have a: "arriving k ?w = arriving k w" for k by (simp add: arriving_def cong: option.case_cong prod.case_cong)
  have "in_order ?w" using assms by (simp add: in_order_def a logged_snoc udp_inv_def subseq_longer)
  moreover have "world_inv ?w"
    using assms by - (rule world_inv_data [of w], simp_all add: udp_inv_def)
  ultimately show ?thesis
    using assms
    by (simp add: udp_inv_def assocs_last_def open_found_def delivers_last_def inboxes_fit_def
        cong: option.case_cong prod.case_cong)
qed

lemma read_known:
  assumes inv: "udp_inv w" and n: "uw_delivering w = None" and a: "map_of (uw_assocs w) key = Some i"
  shows "udp_inv (w\<lparr>uw_log := uw_log w @ [(key, p)], uw_delivering := Some (i, p)\<rparr>)"
proof -
  let ?w = "w\<lparr>uw_log := uw_log w @ [(key, p)], uw_delivering := Some (i, p)\<rparr>"
  have l: "last_of key (lf_objs w) i" using inv a by (simp add: udp_inv_def assocs_last_def)
  have arr: "arriving k w = []" "arriving k ?w = (if key = k then [p] else [])" for k
    using n last_of_facts [OF l] by (auto simp: arriving_def)
  have "in_order ?w"
    using inv by (auto simp: in_order_def arr logged_snoc udp_inv_def intro: list_emb_append_mono)
  moreover have "world_inv ?w"
    using inv by - (rule world_inv_data [of w], simp_all add: udp_inv_def)
  ultimately show ?thesis
    using inv l last_of_facts [OF l]
    by (simp add: udp_inv_def assocs_last_def open_found_def delivers_last_def inboxes_fit_def)
qed

text \<open>\<open>v\<close> is the world without a closed association of \<open>key\<close>, in which no open one is left.\<close>

lemma associate_inv:
  assumes v: "world_inv v" "inboxes_fit v" "in_order w" "uw_delivering w = None"
    and same: "lf_objs v = lf_objs w" "uw_log v = uw_log w @ [(key, p)]"
    and gone: "list_all (\<lambda>c. \<not> from_key key c \<or> cn_closed c) (lf_objs v)"
    and assocs: "\<And>k i. map_of (uw_assocs v) k = Some i \<Longrightarrow> k \<noteq> key \<Longrightarrow> last_of k (lf_objs v) i"
    and "open": "\<And>i. i < length (lf_objs v) \<Longrightarrow> \<not> cn_dialed (lf_objs v ! i) \<Longrightarrow> \<not> cn_closed (lf_objs v ! i) \<Longrightarrow>
      uc_key (lf_objs v ! i) \<noteq> key \<Longrightarrow> map_of (uw_assocs v) (uc_key (lf_objs v ! i)) = Some i"
    and run: "\<not> lf_shutdown v" "\<not> lf_closed v"
  shows "udp_inv (udp_associate pc key p v)"
proof -
  define n where "n = length (lf_objs v)"
  define c where "c = (new_server_conn pc key)\<lparr>cn_dialed := False, cn_closed := False, cn_running := True, cn_counted := True\<rparr>"
  let ?w = "udp_associate pc key p v"
  have c: "from_key k c = (k = key)" "uc_key c = key" "\<not> cn_dialed c" "uc_inbox c = []" "uc_taken c = []" for k
    by (auto simp: c_def new_server_conn_def from_key_def)
  have w: "lf_objs ?w = lf_objs v @ [c]" "uw_assocs ?w = alist_put key n (uw_assocs v)"
    "uw_delivering ?w = Some (n, p)" "uw_log ?w = uw_log v"
    using run by (simp_all add: udp_associate_def life_accept_def Let_def n_def c_def)
  have l: "life_inv v" using v by (simp add: world_inv_def)
  let ?a = "snd (life_accept (new_server_conn pc key) v)"
  have "world_inv ?a"
    using accept_inv [OF l, of "new_server_conn pc key"] accept_grows [of v "new_server_conn pc key"]
    by (intro world_invI [OF v(1)]) simp_all
  then have "world_inv ?w"
    by (rule world_inv_data) (use run in \<open>simp_all add: udp_associate_def life_accept_def Let_def\<close>)
  moreover have "assocs_last ?w"
    unfolding assocs_last_def
  proof (intro allI impI)
    fix k i assume k: "map_of (uw_assocs ?w) k = Some i"
    show "last_of k (lf_objs ?w) i"
    proof (cases "k = key")
      case True
      with k c last_of_new [of key c "lf_objs v"] show ?thesis by (auto simp: w n_def)
    next
      case False
      with k c assocs [of k i] show ?thesis by (simp add: w last_of_snoc)
    qed
  qed
  moreover have "open_found ?w"
    unfolding open_found_def
  proof (intro allI impI)
    fix i assume i: "i < length (lf_objs ?w)" "\<not> cn_dialed (lf_objs ?w ! i) \<and> \<not> cn_closed (lf_objs ?w ! i)"
    show "map_of (uw_assocs ?w) (uc_key (lf_objs ?w ! i)) = Some i"
    proof (cases "i = n")
      case True
      then show ?thesis by (simp add: w n_def c)
    next
      case False
      then have lt: "i < length (lf_objs v)" using i(1) by (simp add: w n_def)
      with i have o: "\<not> cn_dialed (lf_objs v ! i)" "\<not> cn_closed (lf_objs v ! i)" by (simp_all add: w nth_append)
      then have "uc_key (lf_objs v ! i) \<noteq> key"
        using gone lt by (auto simp: list_all_length from_key_def)
      with "open" [OF lt o] lt show ?thesis by (simp add: w nth_append)
    qed
  qed
  moreover have "delivers_last ?w"
    using c last_of_new [of key c "lf_objs v"] by (simp add: delivers_last_def w n_def)
  moreover have "inboxes_fit ?w"
    using v(2) c by (simp add: inboxes_fit_def w inbox_size_def)
  moreover have "in_order ?w"
  proof -
    have "chan k (lf_objs ?w) = chan k (lf_objs w)" for k
      using c by (simp add: w chan_append same) (simp add: chan_def)
    moreover have "arriving k ?w = (if key = k then [p] else [])" "arriving k w = []" for k
      using c v(4) by (simp_all add: arriving_def w n_def)
    ultimately show ?thesis
      using v(3) by (auto simp: in_order_def w same logged_snoc intro: list_emb_append_mono)
  qed
  ultimately show ?thesis by (simp add: udp_inv_def)
qed

lemma read_inv:
  assumes inv: "udp_inv w" and n: "uw_delivering w = None"
  shows "udp_inv (udp_read pc key b w)"
proof -
  define p where "p = one_datagram b"
  define u where "u = w\<lparr>uw_log := uw_log w @ [(key, p)]\<rparr>"
  have r: "udp_read pc key b w = udp_route pc key p u" by (simp add: udp_read_def p_def u_def Let_def)
  have u: "world_inv u" "assocs_last u" "open_found u" "inboxes_fit u" "lf_objs u = lf_objs w"
    "uw_assocs u = uw_assocs w" "uw_log u = uw_log w @ [(key, p)]"
    using read_dropped [OF inv, of key p] by (simp_all add: u_def udp_inv_def)
  show ?thesis
  proof (cases "lf_shutdown u \<or> lf_closed u")
    case True
    then show ?thesis using read_dropped [OF inv, of key p] by (simp add: r udp_route_def u_def)
  next
    case False
    show ?thesis
    proof (cases "map_of (uw_assocs u) key")
      case None
      have "udp_inv (udp_associate pc key p u)"
        by (rule associate_inv [where w = w])
          (use u inv n None False in \<open>auto simp: udp_inv_def assocs_last_def open_found_def list_all_length from_key_def\<close>)
      with None False show ?thesis by (simp add: r udp_route_def)
    next
      case (Some i)
      show ?thesis
      proof (cases "cn_closed (lf_objs u ! i)")
        case True
        have l: "last_of key (lf_objs u) i" using Some u(2) by (simp add: assocs_last_def)
        let ?u = "u\<lparr>uw_assocs := drop_key key (uw_assocs u)\<rparr>"
        let ?v = "life_untrack i ?u"
        have v: "lf_objs ?v = lf_objs u" "uw_assocs ?v = drop_key key (uw_assocs u)" "uw_log ?v = uw_log u"
          "lf_shutdown ?v = lf_shutdown u" "lf_closed ?v = lf_closed u"
          by (simp_all add: life_untrack_def)
        have wu: "world_inv ?u" by (rule world_inv_data [OF u(1)]) simp_all
        then have "life_inv ?u" by (simp add: world_inv_def)
        with wu True last_of_facts [OF l] have wv: "world_inv ?v"
          by (intro world_invI [OF wu]) (auto intro: untrack_inv untrack_grows simp: conn_over_def)
        have "list_all (\<lambda>c. \<not> from_key key c \<or> cn_closed c) (lf_objs u)"
          unfolding list_all_length
        proof (intro allI impI)
          fix j assume "j < length (lf_objs u)"
          with u(3) Some True show "\<not> from_key key (lf_objs u ! j) \<or> cn_closed (lf_objs u ! j)"
            by (auto simp: open_found_def from_key_def)
        qed
        then have "udp_inv (udp_associate pc key p ?v)"
          by (intro associate_inv [where w = w])
            (use u v wv inv n False in \<open>auto simp: udp_inv_def assocs_last_def open_found_def inboxes_fit_def\<close>)
        with Some True False show ?thesis by (simp add: r udp_route_def)
      next
        case False
        with Some \<open>\<not> (lf_shutdown u \<or> lf_closed u)\<close> read_known [OF inv n, of key i p] u(6) show ?thesis
          by (simp add: r udp_route_def u_def)
      qed
    qed
  qed
qed

lemma put_world:
  assumes "world_inv w" "\<And>c. cn_closed (f c) = cn_closed c" "\<And>c. cn_dialed (f c) = cn_dialed c"
    "\<And>c. cn_running (f c) = cn_running c" "\<And>c. cn_counted (f c) = cn_counted c"
  shows "world_inv (put_conn i f (w::udp_world))"
proof (cases "i < length (lf_objs w)")
  case True
  have l: "life_inv w" using assms(1) by (simp add: world_inv_def)
  have "conn_ok (lf_conns w) i (f (lf_objs w ! i))"
    using life_invD(3) [OF l True] assms(2-5) by (simp add: conn_ok_def)
  with True l assms(2-5) show ?thesis
    by (intro world_invI [OF assms(1)]) (auto intro!: put_conn_inv put_conn_grows)
qed (use assms(1) in \<open>simp add: put_conn_def list_update_beyond not_less\<close>)

lemma udp_deliver_same:
  "cn_closed (udp_deliver d p c) = cn_closed c" "cn_dialed (udp_deliver d p c) = cn_dialed c"
  "cn_running (udp_deliver d p c) = cn_running c" "cn_counted (udp_deliver d p c) = cn_counted c"
  "uc_key (udp_deliver d p c) = uc_key c" "uc_taken (udp_deliver d p c) = uc_taken c"
  by (simp_all add: udp_deliver_def)

lemma udp_deliver_inbox:
  "uc_inbox (udp_deliver d p c) = uc_inbox c @ [p] \<and> int (length (uc_inbox c)) < inbox_size
    \<or> uc_inbox (udp_deliver d p c) = uc_inbox c"
  by (simp add: udp_deliver_def)

lemma udp_recv_same:
  "cn_closed (snd (udp_recv d c)) = cn_closed c" "cn_dialed (snd (udp_recv d c)) = cn_dialed c"
  "cn_running (snd (udp_recv d c)) = cn_running c" "cn_counted (snd (udp_recv d c)) = cn_counted c"
  "udp_data (snd (udp_recv d c)) = udp_data c" "length (uc_inbox (snd (udp_recv d c))) \<le> length (uc_inbox c)"
  by (simp_all add: udp_recv_def udp_data_def split: list.split)

lemma deliver_inv:
  assumes inv: "udp_inv w" and d: "uw_delivering w = Some (i, p)"
  shows "udp_inv ((put_conn i (udp_deliver pickDone p) w)\<lparr>uw_delivering := None\<rparr>)"
proof -
  define c where "c = lf_objs w ! i"
  define c' where "c' = udp_deliver pickDone p c"
  let ?w = "(put_conn i (udp_deliver pickDone p) w)\<lparr>uw_delivering := None\<rparr>"
  have l: "last_of (uc_key c) (lf_objs w) i" using inv d by (simp add: udp_inv_def delivers_last_def c_def)
  have same: "cn_dialed c' = cn_dialed c" "uc_key c' = uc_key c" "cn_closed c' = cn_closed c" "uc_taken c' = uc_taken c"
    by (simp_all add: c'_def udp_deliver_same)
  have fk: "from_key k c' = from_key k c" for k by (simp add: from_key_def same)
  have w: "lf_objs ?w = (lf_objs w)[i := c']" "uw_assocs ?w = uw_assocs w" "uw_delivering ?w = None" "uw_log ?w = uw_log w"
    by (simp_all add: put_conn_def c_def c'_def)
  have "world_inv ?w"
    by (rule world_inv_data [OF put_world [of w "udp_deliver pickDone p" i]])
      (use inv in \<open>simp_all add: udp_inv_def udp_deliver_same\<close>)
  moreover have "assocs_last ?w"
    using inv fk by (auto simp: udp_inv_def assocs_last_def w c_def intro: last_of_update)
  moreover have "open_found ?w"
    using inv same by (auto simp: udp_inv_def open_found_def w nth_upd c_def)
  moreover have "inboxes_fit ?w"
    using inv udp_deliver_inbox [of pickDone p c] last_of_facts [OF l]
    unfolding udp_inv_def inboxes_fit_def w list_all_length
    by (auto simp: nth_upd c'_def c_def)
  moreover have "in_order ?w"
    unfolding in_order_def
  proof
    fix k
    have sub: "subseq (chan k (lf_objs w) @ arriving k w) (logged k (uw_log w))" using inv by (simp add: udp_inv_def in_order_def)
    show "subseq (chan k (lf_objs ?w) @ arriving k ?w) (logged k (uw_log ?w))"
    proof (cases "k = uc_key c")
      case True
      with l have lk: "last_of k (lf_objs w) i" by simp
      then have fc: "from_key k c'" using fk by (simp add: last_of_def c_def)
      have "arriving k w = [p]" using True d by (simp add: arriving_def c_def)
      then have "subseq (chan k (lf_objs w) @ [p]) (logged k (uw_log w))" using sub by simp
      moreover have "chan k (lf_objs ?w) = chan k (lf_objs w) @ [p] \<or> chan k (lf_objs ?w) = chan k (lf_objs w)"
        using chan_put_last [OF lk fc] chan_last [OF lk] udp_deliver_inbox [of pickDone p c]
        by (auto simp: w same c_def [symmetric] c'_def [symmetric])
      ultimately show ?thesis using subseq_shorter by (auto simp: arriving_def w)
    next
      case False
      then have "chan k (lf_objs ?w) = chan k (lf_objs w)"
        using fk unfolding w by (intro chan_put_other) (auto simp: from_key_def c_def)
      with sub show ?thesis using subseq_shorter by (auto simp: arriving_def w)
    qed
  qed
  moreover have "delivers_last ?w" by (simp add: delivers_last_def)
  ultimately show ?thesis by (simp add: udp_inv_def)
qed

lemma recv_inv:
  assumes inv: "udp_inv w"
  shows "udp_inv (put_conn i (\<lambda>c. snd (udp_recv d c)) w)"
proof -
  define c' where "c' = snd (udp_recv d (lf_objs w ! i))"
  let ?w = "put_conn i (\<lambda>c. snd (udp_recv d c)) w"
  have same: "udp_data c' = udp_data (lf_objs w ! i)" "cn_closed c' = cn_closed (lf_objs w ! i)"
    "length (uc_inbox c') \<le> length (uc_inbox (lf_objs w ! i))"
    by (simp_all add: c'_def udp_recv_same)
  then have key: "uc_key c' = uc_key (lf_objs w ! i)" "cn_dialed c' = cn_dialed (lf_objs w ! i)"
    by (simp_all add: udp_data_def)
  have fk: "from_key k c' = from_key k (lf_objs w ! i)" for k by (simp add: from_key_def key)
  have w: "lf_objs ?w = (lf_objs w)[i := c']" "uw_assocs ?w = uw_assocs w" "uw_delivering ?w = uw_delivering w"
    "uw_log ?w = uw_log w"
    by (simp_all add: put_conn_def c'_def)
  have at: "uc_key ((lf_objs w)[i := c'] ! j) = uc_key (lf_objs w ! j)" for j by (simp add: nth_upd key)
  then have keys: "uc_key (lf_objs ?w ! j) = uc_key (lf_objs w ! j)" for j by (simp add: w)
  have "map udp_data (lf_objs ?w) = map udp_data (lf_objs w)"
    by (simp add: w map_update same(1) list_update_id [of "map udp_data (lf_objs w)" i, unfolded nth_map])
      (metis list_update_beyond list_update_id length_map not_less nth_map)
  then have "in_order ?w"
    using inv by (simp add: udp_inv_def in_order_def chan_of_data arriving_def keys w(3,4) cong: option.case_cong prod.case_cong)
  moreover have "world_inv ?w"
    using inv by (intro put_world) (simp_all add: udp_inv_def udp_recv_same)
  moreover have "assocs_last ?w"
    using inv fk by (auto simp: udp_inv_def assocs_last_def w intro: last_of_update)
  moreover have "open_found ?w"
    using inv same(2) key by (auto simp: udp_inv_def open_found_def w nth_upd)
  moreover have "inboxes_fit ?w"
    using inv same(3) unfolding udp_inv_def inboxes_fit_def w list_all_length by (fastforce simp: nth_upd)
  moreover have "delivers_last ?w"
    using inv fk by (auto simp: udp_inv_def delivers_last_def at w(1,3) intro: last_of_update split: option.splits)
  ultimately show ?thesis by (simp add: udp_inv_def)
qed

lemma untrack_assoc_inv:
  assumes inv: "udp_inv w" and i: "i < length (lf_objs w)" "cn_running (lf_objs w ! i)" "cn_closed (lf_objs w ! i)"
  shows "udp_inv (untrack_assoc i w)"
proof -
  let ?r = "life_returned i w"
  have l: "life_inv w" "world_inv w" using inv by (simp_all add: udp_inv_def world_inv_def)
  have "world_inv ?r"
    using returned_inv [OF l(1) i(1,2)] returned_grows [OF l(1)] by (intro world_invI [OF l(2)]) simp_all
  moreover have "frame (lf_objs w) (lf_objs ?r)"
    by (auto simp: life_returned_def put_conn_at udp_data_def intro!: frame_update)
  ultimately have r: "udp_inv ?r"
    by (rule udp_frame_inv [OF inv]) (simp_all add: life_returned_def put_conn_def life_untrack_def)
  have closed: "cn_closed (lf_objs ?r ! i)" using i by (simp add: life_returned_def put_conn_at nth_upd)
  show ?thesis
  proof (cases "map_of (uw_assocs ?r) (uc_key (lf_objs w ! i)) = Some i")
    case True
    let ?w = "?r\<lparr>uw_assocs := drop_key (uc_key (lf_objs w ! i)) (uw_assocs ?r)\<rparr>"
    have "world_inv ?w" by (rule world_inv_data [of ?r]) (use r in \<open>simp_all add: udp_inv_def\<close>)
    moreover have "arriving k ?w = arriving k ?r" for k by (simp add: arriving_def cong: option.case_cong prod.case_cong)
    moreover have "open_found ?w"
      using r closed True by (auto simp: udp_inv_def open_found_def)
    ultimately have "udp_inv ?w"
      using r by (simp add: udp_inv_def assocs_last_def delivers_last_def inboxes_fit_def in_order_def
          cong: option.case_cong prod.case_cong)
    with True show ?thesis by (simp add: untrack_assoc_def Let_def)
  qed (use r in \<open>simp add: untrack_assoc_def Let_def\<close>)
qed

lemma udp_do_inv: "udp_inv w \<Longrightarrow> udp_inv (udp_do e w)"
proof -
  assume w: "udp_inv w"
  show ?thesis
  proof (cases e)
    case (UdpLife le)
    have "udp_inv (life_do ''udp'' ''read'' new_client_conn le w)"
      by (rule udp_frame_inv [OF w life_do_inv frame_life]) (use w in \<open>simp_all add: udp_inv_def\<close>)
    with UdpLife show ?thesis by (simp add: udp_do_def)
  next
    case (UdpDeliver d)
    then show ?thesis
      using w deliver_inv [OF w, of _ _ d] by (auto simp: udp_do_def split: option.split)
  qed (use w in \<open>simp_all add: udp_do_def read_inv recv_inv untrack_assoc_inv\<close>)
qed

interpretation udp_machine: invariant_machine udp_do udp_inv
  by unfold_locales (rule udp_do_inv)

lemma udp_run_inv: "udp_inv (udp_run es)"
  by (rule udp_machine.run_inv) (rule udp_start_inv)

text \<open>After \<open>Close\<close> no association or dialed connection is left open.\<close>

lemma udp_close_final:
  "close_returned (udp_run es) \<Longrightarrow> list_all conn_over (lf_objs (udp_run es)) \<and> listener_down (udp_run es)"
  using close_over [of "udp_run es"] udp_run_inv [of es] by (simp add: udp_inv_def)

lemma few_matches:
  "(\<And>i j. i < length xs \<Longrightarrow> j < length xs \<Longrightarrow> P (xs ! i) \<Longrightarrow> P (xs ! j) \<Longrightarrow> i = j) \<Longrightarrow> length (filter P xs) \<le> 1"
proof (induction xs)
  case (Cons x xs)
  have ih: "length (filter P xs) \<le> 1"
    by (rule Cons.IH) (metis Cons.prems Suc_less_eq length_Cons nat.inject nth_Cons_Suc)
  show ?case
  proof (cases "P x")
    case True
    have "\<not> P (xs ! j)" if "j < length xs" for j
      using Cons.prems [of 0 "Suc j"] True that by auto
    then have "filter P xs = []" by (auto simp: filter_empty_conv in_set_conv_nth)
    then show ?thesis by simp
  qed (use ih in simp)
qed simp

text \<open>
  C24: the UDP server sorts datagrams without loss of order or identity: whatever the interleaving of
  reads, receives, closes, ends of callbacks, shutdowns and restarts, a remote address has at most one
  open association, no inbox holds more than 32 datagrams, and the datagrams of the address that
  its associations got, taken or waiting, are some of those read from it, each at most once and in
  the order they were read.
\<close>

theorem udp_in_order:
  "let w = udp_run es in
    subseq (concat (map (\<lambda>c. uc_taken c @ uc_inbox c)
                      (filter (\<lambda>c. \<not> cn_dialed c \<and> uc_key c = k) (lf_objs w))))
           (map snd (filter (\<lambda>(a, _). a = k) (uw_log w)))
    \<and> length (filter (\<lambda>c. \<not> cn_dialed c \<and> uc_key c = k \<and> \<not> cn_closed c) (lf_objs w)) \<le> 1
    \<and> list_all (\<lambda>c. length (uc_inbox c) \<le> 32) (lf_objs w)"
proof -
  define w where "w = udp_run es"
  have inv: "udp_inv w" unfolding w_def by (rule udp_run_inv)
  then have o: "open_found w" "subseq (chan k (lf_objs w) @ arriving k w) (logged k (uw_log w))"
    by (simp_all add: udp_inv_def in_order_def)
  have "length (filter (\<lambda>c. \<not> cn_dialed c \<and> uc_key c = k \<and> \<not> cn_closed c) (lf_objs w)) \<le> 1"
  proof (rule few_matches)
    fix i j assume a: "i < length (lf_objs w)" "j < length (lf_objs w)"
      "\<not> cn_dialed (lf_objs w ! i) \<and> uc_key (lf_objs w ! i) = k \<and> \<not> cn_closed (lf_objs w ! i)"
      "\<not> cn_dialed (lf_objs w ! j) \<and> uc_key (lf_objs w ! j) = k \<and> \<not> cn_closed (lf_objs w ! j)"
    then have "map_of (uw_assocs w) k = Some i" "map_of (uw_assocs w) k = Some j"
      using o(1) by (auto simp: open_found_def)
    then show "i = j" by simp
  qed
  moreover have "list_all (\<lambda>c. length (uc_inbox c) \<le> 32) (lf_objs w)"
    using inv by (simp add: udp_inv_def inboxes_fit_def inbox_size_def)
  moreover have "subseq (concat (map (\<lambda>c. uc_taken c @ uc_inbox c)
                      (filter (\<lambda>c. \<not> cn_dialed c \<and> uc_key c = k) (lf_objs w))))
           (map snd (filter (\<lambda>(a, _). a = k) (uw_log w)))"
    using subseq_shorter [OF o(2)] by (simp add: chan_def from_key_def [abs_def] logged_def)
  ultimately show ?thesis by (simp add: Let_def w_def)
qed

end
