(* ===== verification/Ws_Carrier.thy ===== *)
theory Ws_Carrier
  imports Carrier_World
begin

text \<open>
  The WebSocket transport (src/transport/ws/ws.go): the life of theory \<open>Carrier_World\<close>, with an HTTP
  server in the place of the accept loop, and the message operations of a connection. The upgrade and
  the WebSocket connection are third-party code; their results are arguments.
\<close>

section \<open>Options and addresses\<close>

definition default_max_read_bytes :: int where
  "default_max_read_bytes = 5 * 2 ^ 20"

text \<open>The options in the order they are given, nil ones left out; the result is the read limit.\<close>

definition ws_new :: "int list \<Rightarrow> int" where
  "ws_new opts =
     (let m = foldl (\<lambda>_ n. n) 0 opts in if m = 0 then default_max_read_bytes else m)"

definition ws_dial_url :: "string \<Rightarrow> string" where
  "ws_dial_url endpoint =
     (if has_prefix endpoint ''ws://'' \<or> has_prefix endpoint ''wss://''
        \<or> has_prefix endpoint ''http://'' \<or> has_prefix endpoint ''https://''
      then endpoint else ''ws://'' @ endpoint)"

lemma ws_dial_url_idem: "ws_dial_url (ws_dial_url e) = ws_dial_url e"
  by (simp add: ws_dial_url_def has_prefix_def)

section \<open>Serving\<close>

text \<open>\<open>err\<close> is what \<open>http.Server.Serve\<close> returned.\<close>

definition err_server_closed :: go_error where "err_server_closed = ErrVar ''http: Server closed''"

definition ws_serve_result ::
    "string \<Rightarrow> go_error option \<Rightarrow> go_error option \<Rightarrow> ('c, 'm) carrier_life_scheme \<Rightarrow> go_error option" where
  "ws_serve_result pkg ctxErr err s =
     (let shuttingDown = lf_shutdown s \<or> lf_closed s;
          stopped = (if shuttingDown \<or> ctxErr \<noteq> None
                     then Some (if ctxErr \<noteq> None \<and> \<not> shuttingDown then ctxErr else None) else None) in
      case err of
        None \<Rightarrow> (case stopped of Some r \<Rightarrow> r | None \<Rightarrow> None)
      | Some e \<Rightarrow>
          if errors_is e err_server_closed then (case stopped of Some r \<Rightarrow> r | None \<Rightarrow> None)
          else (case stopped of Some r \<Rightarrow> r | None \<Rightarrow> Some (pkg_wrap pkg ''serve'' e)))"

datatype ws_event =
    WsUpgrade bool
  | WsReturned nat
  | WsServeEnds "go_error option" "go_error option" nat
  | WsLife life_event

definition ws_conn :: carrier_conn where
  "ws_conn = \<lparr>cn_dialed = False, cn_closed = False, cn_running = False, cn_counted = False\<rparr>"

definition ws_handle_upgrade :: "bool \<Rightarrow> unit carrier_world \<Rightarrow> unit carrier_world" where
  "ws_handle_upgrade ok w = (if \<not> ok then w else snd (life_accept ws_conn w))"

fun plain_life :: "life_event \<Rightarrow> bool" where
  "plain_life (LAcceptFailed a b c) = False"
| "plain_life _ = True"

definition ws_do :: "ws_event \<Rightarrow> unit carrier_world \<Rightarrow> unit carrier_world" where
  "ws_do e w =
     (case e of
        WsUpgrade ok \<Rightarrow> ws_handle_upgrade ok w
      | WsReturned i \<Rightarrow>
          if i < length (lf_objs w) \<and> cn_running (lf_objs w ! i) then life_returned i w else w
      | WsServeEnds ctxErr err k \<Rightarrow>
          if k < length (lf_serves w) \<and> sr_phase (lf_serves w ! k) = Accepting
          then put_serve k (\<lambda>r. r\<lparr>sr_phase := Leaving (ws_serve_result ''ws'' ctxErr err w)\<rparr>) w else w
      | WsLife le \<Rightarrow> if plain_life le then life_do ''ws'' ''serve'' ws_conn le w else w)"

lemma ws_do_inv: "world_inv w \<Longrightarrow> world_inv (ws_do e w)"
proof -
  assume w: "world_inv w"
  then have l: "life_inv w" by (simp add: world_inv_def)
  show ?thesis
  proof (cases e)
    case (WsUpgrade ok)
    have "world_inv (snd (life_accept ws_conn w))"
      using accept_inv [OF l] accept_grows by (intro world_invI [OF w]) simp_all
    with w WsUpgrade show ?thesis by (simp add: ws_do_def ws_handle_upgrade_def)
  next
    case (WsReturned i)
    have "world_inv (life_returned i w)" if "i < length (lf_objs w)" "cn_running (lf_objs w ! i)"
      using returned_inv [OF l that] returned_grows [OF l] by (intro world_invI [OF w]) simp_all
    with w WsReturned show ?thesis by (simp add: ws_do_def)
  next
    case (WsServeEnds ctxErr err k)
    have "world_inv (put_serve k (\<lambda>r. r\<lparr>sr_phase := p\<rparr>) w)" for p
    proof (rule world_invI [OF w])
      show "grows w (put_serve k (\<lambda>r. r\<lparr>sr_phase := p\<rparr>) w)" by (rule put_serve_grows) simp
    qed (use l in simp_all)
    with w WsServeEnds show ?thesis by (simp add: ws_do_def)
  next
    case (WsLife le)
    with life_do_inv [OF w] w show ?thesis by (simp add: ws_do_def)
  qed
qed

interpretation ws_world: invariant_machine ws_do world_inv
  by unfold_locales (rule ws_do_inv)

text \<open>As for TCP: what \<open>Close\<close> leaves behind when it has returned.\<close>

lemma ws_close_final:
  assumes "close_returned (run_steps ws_do es carrier_start)"
  shows "list_all conn_over (lf_objs (run_steps ws_do es carrier_start)) \<and> listener_down (run_steps ws_do es carrier_start)"
  using close_over [OF ws_world.run_inv [OF carrier_start_inv] assms] by simp

section \<open>Messages\<close>

text \<open>\<open>res\<close> is what the WebSocket read: an error, or whether the message is binary, and its data.\<close>

definition ws_recv_message :: "string \<Rightarrow> go_error + (bool \<times> bytes) \<Rightarrow> go_error + bytes" where
  "ws_recv_message typ res =
     (case res of
        Inl e \<Rightarrow> Inl e
      | Inr (binary, b) \<Rightarrow>
          if \<not> binary then Inl (ErrNew (''ws: expected binary message, got '' @ typ)) else Inr b)"

definition ws_send_message :: "go_error option \<Rightarrow> 'c carrier_conn_scheme \<Rightarrow> go_error option" where
  "ws_send_message err c = (if err \<noteq> None then wrap_send_error err (\<not> cn_closed c) else None)"

lemma ws_send_direction:
  "errors_as_send e = None \<Longrightarrow>
    map_send_err (ws_send_message (Some e) c) = (if cn_closed c then Some (ErrSend e False) else Some ErrSendClosed)"
  by (simp add: ws_send_message_def wrap_send_error_def map_send_err_def errors_as_send_def)

end
