(* ===== verification/Http_Life.thy ===== *)
theory Http_Life
  imports Ws_Carrier Http_Client
begin

text \<open>
  The HTTP transports (src/transport/http1/http1.go and src/transport/http2/http2.go): the options, and
  the life of theory \<open>Carrier_World\<close> with requests for accepted connections. What \<open>Dial\<close> hands out is
  not a connection but an endpoint handle with streams of its own (theory \<open>Http_Client\<close>), tracked in a
  second map. The two packages have the same sections but for the end of \<open>Serve\<close>. The server and the
  client of net/http are outside: a request arrives as an event, and the listener of a \<open>Serve\<close> stands
  for its \<open>http.Server\<close>, which is made and dropped in the same sections and whose \<open>Close\<close> also cuts
  the connections it serves.
\<close>

section \<open>Options\<close>

record tls_config =
  tc_minVersion :: int
  tc_nextProtos :: "string list"

definition tls_version12 :: int where "tls_version12 = 771"
definition empty_tls :: tls_config where "empty_tls = \<lparr>tc_minVersion = 0, tc_nextProtos = []\<rparr>"

definition clone_tls :: "tls_config option \<Rightarrow> tls_config" where
  "clone_tls cfg =
     (let c = (case cfg of None \<Rightarrow> empty_tls | Some c \<Rightarrow> c) in
      if tc_minVersion c = 0 then c\<lparr>tc_minVersion := tls_version12\<rparr> else c)"

fun str_slice_contains :: "string list \<Rightarrow> string \<Rightarrow> bool" where
  "str_slice_contains [] s = False"
| "str_slice_contains (v # vs) s = (if v = s then True else str_slice_contains vs s)"

definition ensure_h2_alpn :: "tls_config option \<Rightarrow> tls_config" where
  "ensure_h2_alpn cfg =
     (let c = (case cfg of None \<Rightarrow> empty_tls | Some c \<Rightarrow> c);
          c1 = (if str_slice_contains (tc_nextProtos c) ''h2'' then c
                else c\<lparr>tc_nextProtos := ''h2'' # tc_nextProtos c\<rparr>) in
      if tc_minVersion c1 = 0 then c1\<lparr>tc_minVersion := tls_version12\<rparr> else c1)"

record http_protocols =
  pr_http1 :: bool
  pr_http2 :: bool
  pr_unencryptedHTTP2 :: bool

definition client_protocols :: http_protocols where
  "client_protocols = \<lparr>pr_http1 = False, pr_http2 = True, pr_unencryptedHTTP2 = True\<rparr>"

definition server_protocols :: "bool \<Rightarrow> http_protocols" where
  "server_protocols serverTLS = \<lparr>pr_http1 = True, pr_http2 = serverTLS, pr_unencryptedHTTP2 = (\<not> serverTLS)\<rparr>"

lemma str_slice_contains_set [simp]: "str_slice_contains xs s \<longleftrightarrow> s \<in> set xs"
  by (induction xs) auto

text \<open>An explicit version is kept, so is the order of the protocols; the second call changes nothing.\<close>

lemma ensure_h2_alpn_idem:
  "''h2'' \<in> set (tc_nextProtos (ensure_h2_alpn cfg)) \<and> tc_minVersion (ensure_h2_alpn cfg) \<noteq> 0
   \<and> ensure_h2_alpn (Some (ensure_h2_alpn cfg)) = ensure_h2_alpn cfg"
  by (simp add: ensure_h2_alpn_def Let_def tls_version12_def split: option.split)

text \<open>
  The options of a transport (None is a nil option), and the TLS configuration its listener and its
  clients get from them.
\<close>

record http_options =
  ho_serverTLS :: "tls_config option"
  ho_clientTLS :: "tls_config option"

datatype http_option = WithServerTLS "tls_config option" | WithClientTLS "tls_config option"

fun apply_http_option :: "http_option option \<Rightarrow> http_options \<Rightarrow> http_options" where
  "apply_http_option None os = os"
| "apply_http_option (Some (WithServerTLS cfg)) os = os\<lparr>ho_serverTLS := cfg\<rparr>"
| "apply_http_option (Some (WithClientTLS cfg)) os = os\<lparr>ho_clientTLS := cfg\<rparr>"

definition new_http_options :: "http_option option list \<Rightarrow> http_options" where
  "new_http_options opts = fold apply_http_option opts \<lparr>ho_serverTLS = None, ho_clientTLS = None\<rparr>"

definition h1_tls :: "tls_config option \<Rightarrow> tls_config option" where
  "h1_tls cfg = (case cfg of None \<Rightarrow> None | Some c \<Rightarrow> Some (clone_tls (Some c)))"

definition h2_tls :: "tls_config option \<Rightarrow> tls_config option" where
  "h2_tls cfg = (case cfg of None \<Rightarrow> None | Some c \<Rightarrow> Some (ensure_h2_alpn (Some c)))"

text \<open>A header map in some order of its keys, each with its values.\<close>

definition headers_from_http :: "(string \<times> string list) list \<Rightarrow> (string \<times> string) list" where
  "headers_from_http h = concat (map (\<lambda>(k, vs). map (\<lambda>v. (k, v)) vs) h)"

text \<open>
  The URL of a stream. Parsing and printing of URLs are arguments; \<open>ul_base\<close> is what the code leaves as
  it is.
\<close>

record 'u url_parts =
  ul_base :: 'u
  ul_path :: string
  ul_rawPath :: string
  ul_rawQuery :: string
  ul_fragment :: string

definition stream_url :: "(string \<Rightarrow> go_error + 'u url_parts) \<Rightarrow> (string \<Rightarrow> go_error + 'u url_parts)
    \<Rightarrow> ('u url_parts \<Rightarrow> string) \<Rightarrow> string \<Rightarrow> string \<Rightarrow> go_error + string" where
  "stream_url urlParse parseRequestURI urlString base target =
     (case urlParse base of
        Inl e \<Rightarrow> Inl e
      | Inr bu \<Rightarrow>
          let t = (case target of c # _ \<Rightarrow> if c = CHR ''/'' then target else ''/'' @ target | [] \<Rightarrow> ''/'' @ target);
              bu1 = (case parseRequestURI t of
                       Inr tu \<Rightarrow> bu\<lparr>ul_path := ul_path tu, ul_rawPath := ul_rawPath tu, ul_rawQuery := ul_rawQuery tu\<rparr>
                     | Inl _ \<Rightarrow> bu\<lparr>ul_path := t, ul_rawQuery := []\<rparr>) in
          Inr (urlString (bu1\<lparr>ul_fragment := []\<rparr>)))"

text \<open>Only the base decides where the request goes; the path and the query come from the target.\<close>

lemma stream_url_keeps_base:
  "stream_url urlParse parseRequestURI id_string base target = Inr u \<Longrightarrow> urlParse base = Inr bu
   \<Longrightarrow> \<exists>p. u = id_string p \<and> ul_base p = ul_base bu \<and> ul_fragment p = []"
  by (auto simp: stream_url_def Let_def split: sum.splits)

section \<open>State\<close>

text \<open>A request is a connection that came through the server of one \<open>Serve\<close>.\<close>

record http_request = carrier_conn +
  rq_server :: nat

datatype http_version = Http1 | Http2

definition pkg_name :: "http_version \<Rightarrow> string" where
  "pkg_name v = (case v of Http1 \<Rightarrow> ''http1'' | Http2 \<Rightarrow> ''http2'')"

text \<open>
  The goroutine of a \<open>Close\<close> of one endpoint handle: the swap, the section that takes the map, the
  aborts of what was in it, one after the other, and the detach.
\<close>

datatype handle_close =
    HcSwap nat
  | HcCollect nat
  | HcAbort nat
  | HcAbortEnd nat nat "nat option"
  | HcDetach nat
  | HcDone

text \<open>
  \<open>hw_streams\<close> is the map \<open>streamConns\<close>; \<open>hw_users\<close> are the closes of handles by applications; \<open>hw_final\<close>
  is the last part of \<open>Close\<close> of the transport, the close it is in and the handles still to come.
\<close>

record http_world = "unit http_request_ext carrier_world" +
  hw_handles :: "stream_world list"
  hw_streams :: "nat list"
  hw_users :: "handle_close list"
  hw_final :: "(handle_close \<times> nat list) option"

definition http_start :: http_world where
  "http_start = carrier_world.extend carrier_start
     \<lparr>hw_handles = [], hw_streams = [], hw_users = [], hw_final = None\<rparr>"

section \<open>Operations\<close>

definition new_request :: "nat \<Rightarrow> http_request" where
  "new_request k = \<lparr>cn_dialed = False, cn_closed = False, cn_running = False, cn_counted = False, rq_server = k\<rparr>"

text \<open>
  The clean-up of \<open>Serve\<close>. HTTP/1 closes \<open>serveDone\<close> in its section; HTTP/2 defers that, so that it comes
  after the close of the server (the event \<open>HvServeDone\<close>).
\<close>

definition http_leave :: "http_version \<Rightarrow> nat \<Rightarrow> go_error option \<Rightarrow> ('c, 'm) carrier_life_scheme \<Rightarrow> ('c, 'm) carrier_life_scheme" where
  "http_leave v k res s =
     put_serve k (\<lambda>r. r\<lparr>sr_done := (v = Http1 \<or> sr_done r), sr_phase := Unlistening res\<rparr>)
       (s\<lparr>lf_serving := False, lf_listener := (if lf_listener s = Some k then None else lf_listener s)\<rparr>)"

definition http_dial_commit :: "string \<Rightarrow> http_world \<Rightarrow> (go_error + nat) \<times> http_world" where
  "http_dial_commit pkg w =
     (if lf_closed w then (Inl (pkg_error pkg ''transport closed''), w)
      else
        let h = length (hw_handles w) in
        (Inr h, w\<lparr>hw_handles := hw_handles w @ [stream_start], hw_streams := hw_streams w @ [h]\<rparr>))"

definition put_handle :: "nat \<Rightarrow> stream_world \<Rightarrow> http_world \<Rightarrow> http_world" where
  "put_handle h sw w = w\<lparr>hw_handles := (hw_handles w)[h := sw]\<rparr>"

fun hclose_step :: "string \<Rightarrow> handle_close \<Rightarrow> http_world \<Rightarrow> handle_close \<times> http_world" where
  "hclose_step pkg (HcSwap h) w =
     (if sw_closed (hw_handles w ! h) then (HcDone, w)
      else (HcCollect h, put_handle h (sv_step pkg SvCloseSwap (hw_handles w ! h)) w))"
| "hclose_step pkg (HcCollect h) w = (HcAbort h, put_handle h (sv_step pkg SvCloseCollect (hw_handles w ! h)) w)"
| "hclose_step pkg (HcAbort h) w =
     (case sw_todo (hw_handles w ! h) of
        [] \<Rightarrow> (HcDetach h, w)
      | i # _ \<Rightarrow>
          (case fst (cl_abort_begin (sw_cars (hw_handles w ! h) ! i)) of
             None \<Rightarrow> HcAbort h
           | Some resp \<Rightarrow> HcAbortEnd h i resp,
           put_handle h (sv_step pkg (SvAbortBegin i) (hw_handles w ! h)) w))"
| "hclose_step pkg (HcAbortEnd h i resp) w =
     (HcAbort h, put_handle h (sv_step pkg (SvAbortEnd i resp) (hw_handles w ! h)) w)"
| "hclose_step pkg (HcDetach h) w = (HcDone, w\<lparr>hw_streams := remove1 h (hw_streams w)\<rparr>)"
| "hclose_step pkg HcDone w = (HcDone, w)"

text \<open>\<open>closeAllStreamConns\<close> after its snapshot.\<close>

fun close_all_step :: "string \<Rightarrow> handle_close \<times> nat list \<Rightarrow> http_world \<Rightarrow> (handle_close \<times> nat list) \<times> http_world" where
  "close_all_step pkg (HcDone, []) w = ((HcDone, []), w)"
| "close_all_step pkg (HcDone, h # hs) w = ((HcSwap h, hs), w)"
| "close_all_step pkg (c, hs) w = (let (c', w') = hclose_step pkg c w in ((c', hs), w'))"

section \<open>Runs\<close>

text \<open>
  \<open>HvRequest k\<close>: the server of \<open>Serve\<close> number \<open>k\<close> calls its handler, which it may still do for a
  request it has read when that \<open>Serve\<close> has returned.
\<close>

datatype http_event =
    HvRequest nat
  | HvReturned nat
  | HvServeEnds "go_error option" "go_error option" nat
  | HvLeave nat
  | HvServeDone nat
  | HvDial
  | HvStream nat stream_event
  | HvHandleClose nat
  | HvUserStep nat
  | HvCloseStreams
  | HvCloseStep
  | HvLife life_event

fun http_life :: "life_event \<Rightarrow> bool" where
  "http_life (LAcceptFailed ce er k) = False"
| "http_life (LLeave k) = False"
| "http_life (LDial ep de) = False"
| "http_life e = True"

fun stream_use :: "stream_event \<Rightarrow> bool" where
  "stream_use SvCloseSwap = False"
| "stream_use SvCloseCollect = False"
| "stream_use e = True"

text \<open>The sections that are those of theory \<open>Carrier_World\<close>: \<open>Shutdown\<close>, \<open>Close\<close>, and the start of \<open>Serve\<close>.\<close>

definition http_life_do :: "http_version \<Rightarrow> life_event \<Rightarrow> http_world \<Rightarrow> http_world" where
  "http_life_do v le w = (if http_life le then life_do (pkg_name v) ''serve'' (new_request 0) le w else w)"

definition http_do :: "http_version \<Rightarrow> http_event \<Rightarrow> http_world \<Rightarrow> http_world" where
  "http_do v e w =
     (case e of
        HvRequest k \<Rightarrow> if k < length (lf_serves w) then snd (life_accept (new_request k) w) else w
      | HvReturned i \<Rightarrow>
          if i < length (lf_objs w) \<and> cn_running (lf_objs w ! i) then life_returned i w else w
      | HvServeEnds ctxErr err k \<Rightarrow>
          if k < length (lf_serves w) \<and> sr_phase (lf_serves w ! k) = Accepting
          then put_serve k (\<lambda>r. r\<lparr>sr_phase := Leaving (ws_serve_result (pkg_name v) ctxErr err w)\<rparr>) w else w
      | HvLeave k \<Rightarrow>
          if k < length (lf_serves w) then
            (case sr_phase (lf_serves w ! k) of Leaving res \<Rightarrow> http_leave v k res w | _ \<Rightarrow> w) else w
      | HvServeDone k \<Rightarrow>
          if k < length (lf_serves w) then
            (case sr_phase (lf_serves w ! k) of Served res \<Rightarrow> put_serve k (\<lambda>r. r\<lparr>sr_done := True\<rparr>) w | _ \<Rightarrow> w) else w
      | HvDial \<Rightarrow> snd (http_dial_commit (pkg_name v) w)
      | HvStream h se \<Rightarrow>
          if h < length (hw_handles w) \<and> stream_use se
          then put_handle h (sv_step (pkg_name v) se (hw_handles w ! h)) w else w
      | HvHandleClose h \<Rightarrow>
          if h < length (hw_handles w) then w\<lparr>hw_users := hw_users w @ [HcSwap h]\<rparr> else w
      | HvUserStep j \<Rightarrow>
          if j < length (hw_users w)
          then (let (c, w1) = hclose_step (pkg_name v) (hw_users w ! j) w in w1\<lparr>hw_users := (hw_users w1)[j := c]\<rparr>) else w
      | HvCloseStreams \<Rightarrow>
          if close_returned w \<and> hw_final w = None then w\<lparr>hw_final := Some (HcDone, hw_streams w)\<rparr> else w
      | HvCloseStep \<Rightarrow>
          (case hw_final w of
             None \<Rightarrow> w
           | Some c \<Rightarrow> (let (c', w1) = close_all_step (pkg_name v) c w in w1\<lparr>hw_final := Some c'\<rparr>))
      | HvLife le \<Rightarrow> http_life_do v le w)"

abbreviation http_run :: "http_version \<Rightarrow> http_event list \<Rightarrow> http_world" where
  "http_run v es \<equiv> run_steps (http_do v) es http_start"

end
