(* ===== verification/Http_Life_Props.thy ===== *)
theory Http_Life_Props
  imports Http_Life
begin

text \<open>
  What \<open>Close\<close> and \<open>Shutdown\<close> of the HTTP transports guarantee (src/transport/http1/http1.go and
  src/transport/http2/http2.go), by invariants over all interleavings: the requests as in theory
  \<open>Carrier_World\<close>, the endpoint handles and their streams by the invariant of theory \<open>Http_Client\<close>.
\<close>

section \<open>What the sections of the life leave alone\<close>

lemma more_ops [simp]:
  fixes w :: "('c, 'm) carrier_world_scheme"
  shows "carrier_world.more (put_conn i f w) = carrier_world.more w"
    "carrier_world.more (put_serve k g w) = carrier_world.more w"
    "carrier_world.more (life_untrack i w) = carrier_world.more w"
    "carrier_world.more (life_returned i w) = carrier_world.more w"
    "carrier_world.more (life_wg_done i w) = carrier_world.more w"
    "carrier_world.more (snd (life_accept c w)) = carrier_world.more w"
    "carrier_world.more (snd (dial_commit pkg ep de c w)) = carrier_world.more w"
    "carrier_world.more (set_phase j p w) = carrier_world.more w"
    "carrier_world.more (close_listener ln w) = carrier_world.more w"
    "carrier_world.more (http_leave v k res w) = carrier_world.more w"
  by (simp_all add: put_conn_def put_serve_def life_untrack_def life_returned_def life_wg_done_def life_accept_def
      dial_commit_def set_phase_def close_listener_def http_leave_def Let_def split: option.split)

lemma more_closing [simp]:
  fixes w :: "('c, 'm) carrier_world_scheme"
  shows "carrier_world.more (snd (closing_step c w)) = carrier_world.more w"
  by (cases "(c, w)" rule: closing_step.cases) simp_all

lemma more_closer [simp]:
  fixes w :: "('c, 'm) carrier_world_scheme"
  shows "carrier_world.more (snd (closer_step c w)) = carrier_world.more w"
  by (cases c) (simp_all add: case_prod_beta)

lemma more_shut [simp]:
  fixes w :: "('c, 'm) carrier_world_scheme"
  shows "carrier_world.more (snd (shut_step p w)) = carrier_world.more w"
  by (cases "(p, w)" rule: shut_step.cases) (simp_all add: case_prod_beta del: closing_step.simps)

lemma more_serve [simp]:
  fixes w :: "('c, 'm) carrier_world_scheme"
  shows "carrier_world.more (serve_do pkg what e w) = carrier_world.more w"
  by (auto simp: serve_do_def life_serve_def life_accept_failed_def life_leave_def life_unlisten_def Let_def
      put_serve_def close_listener_def split: life_event.split option.split serve_phase.split)

lemma more_shutter [simp]:
  fixes w :: "('c, 'm) carrier_world_scheme"
  shows "carrier_world.more (shutter_do e w) = carrier_world.more w"
  by (auto simp: shutter_do_def shutdown_begin_life_def case_prod_beta split: life_event.split)

lemma more_life [simp]:
  fixes w :: "('c, 'm) carrier_world_scheme"
  shows "carrier_world.more (life_do pkg what c e w) = carrier_world.more w"
  by (auto simp: life_do_def close_begin_life_def case_prod_beta split: life_event.split)

text \<open>The HTTP part of the state.\<close>

lemma http_part:
  assumes "carrier_world.more (w' :: http_world) = carrier_world.more w"
  shows "hw_handles w' = hw_handles w" "hw_streams w' = hw_streams w" "hw_users w' = hw_users w" "hw_final w' = hw_final w"
  using assms by (cases w; cases w'; simp)+

lemma world_inv_frame:
  fixes w w' :: "('c, 'm) carrier_world_scheme"
  assumes "world_inv w" "lf_objs w' = lf_objs w" "lf_serves w' = lf_serves w" "lf_conns w' = lf_conns w"
    "lf_closed w' = lf_closed w" "lf_listener w' = lf_listener w" "lf_wg w' = lf_wg w"
    "gr_users w' = gr_users w" "gr_shutters w' = gr_shutters w" "gr_closers w' = gr_closers w"
  shows "world_inv w'"
proof (rule world_invI [OF assms(1)])
  show "life_inv w'" using assms by (simp add: world_inv_def cong: life_inv_same)
  show "grows w w'" using assms by (simp add: grows_same)
qed (use assms in simp_all)

section \<open>The invariant\<close>

definition closers :: "http_world \<Rightarrow> handle_close list" where
  "closers w = hw_users w @ (case hw_final w of None \<Rightarrow> [] | Some (c, hs) \<Rightarrow> [c])"

fun handle_of :: "handle_close \<Rightarrow> nat option" where
  "handle_of (HcSwap h) = Some h"
| "handle_of (HcCollect h) = Some h"
| "handle_of (HcAbort h) = Some h"
| "handle_of (HcAbortEnd h i r) = Some h"
| "handle_of (HcDetach h) = Some h"
| "handle_of HcDone = None"

text \<open>A close is of a handle that exists, and past its swap the handle is closed.\<close>

definition hclose_ok :: "stream_world list \<Rightarrow> handle_close \<Rightarrow> bool" where
  "hclose_ok hs c \<longleftrightarrow>
     (case handle_of c of
        None \<Rightarrow> True
      | Some h \<Rightarrow> h < length hs \<and> (case c of HcSwap _ \<Rightarrow> True | _ \<Rightarrow> sw_closed (hs ! h)))"

fun aborts :: "nat \<Rightarrow> handle_close \<Rightarrow> bool" where
  "aborts h (HcAbort h') = (h' = h)"
| "aborts h (HcAbortEnd h' i r) = (h' = h)"
| "aborts h c = False"

text \<open>Work that is left on a handle is somebody's.\<close>

definition handle_ok :: "http_world \<Rightarrow> nat \<Rightarrow> bool" where
  "handle_ok w h \<longleftrightarrow>
     (let sw = hw_handles w ! h in
      sw_inv sw \<and> (sw_closed sw \<or> h \<in> set (hw_streams w))
      \<and> (sw_collecting sw \<longrightarrow> HcCollect h \<in> set (closers w))
      \<and> (sw_todo sw \<noteq> [] \<longrightarrow> list_ex (aborts h) (closers w)))"

definition final_ok :: "http_world \<Rightarrow> bool" where
  "final_ok w \<longleftrightarrow>
     (case hw_final w of
        None \<Rightarrow> True
      | Some (c, hs) \<Rightarrow> close_returned w \<and> (\<forall>h \<in> set hs. h < length (hw_handles w))
          \<and> (\<forall>h < length (hw_handles w). sw_closed (hw_handles w ! h) \<or> h \<in> set hs \<or> c = HcSwap h))"

definition http_inv :: "http_world \<Rightarrow> bool" where
  "http_inv w \<longleftrightarrow>
     world_inv w \<and> distinct (hw_streams w) \<and> (\<forall>h \<in> set (hw_streams w). h < length (hw_handles w))
     \<and> (\<forall>h < length (hw_handles w). handle_ok w h) \<and> (\<forall>c \<in> set (closers w). hclose_ok (hw_handles w) c)
     \<and> final_ok w"

lemma http_start_inv: "http_inv http_start"
  by (simp add: http_inv_def http_start_def final_ok_def closers_def carrier_world.defs carrier_start_def
      carrier_life.defs world_inv_def life_inv_def life_new_def)

text \<open>A step of the life: the handles are as before, and a \<open>Close\<close> that has returned stays so.\<close>

lemma http_life_inv:
  assumes w: "http_inv w" and l: "world_inv w'" and m: "carrier_world.more w' = carrier_world.more w"
    and r: "close_returned w \<Longrightarrow> close_returned w'"
  shows "http_inv w'"
  using w l r http_part [OF m]
  by (auto simp: http_inv_def handle_ok_def closers_def final_ok_def Let_def split: option.splits)

lemma leave_http:
  assumes "world_inv (w :: ('c, 'm) carrier_world_scheme)"
  shows "world_inv (http_leave v k res w)"
proof (rule world_invI [OF assms])
  have l: "life_inv w" using assms by (simp add: world_inv_def)
  then show "life_inv (http_leave v k res w)" by (auto simp: http_leave_def life_inv_def split: option.splits)
  show "grows w (http_leave v k res w)"
    unfolding http_leave_def by (rule grows_trans [OF _ put_serve_grows]) (simp_all add: grows_def)
qed (simp_all add: http_leave_def put_serve_def)

lemma put_serve_world:
  "world_inv w \<Longrightarrow> (\<And>r. sr_listening (f r) \<Longrightarrow> sr_listening r) \<Longrightarrow> world_inv (put_serve k f w)"
  by (rule world_invI) (auto simp: world_inv_def intro: put_serve_grows)

lemma closers_same:
  "gr_closers w' = gr_closers w \<Longrightarrow> close_returned w' = close_returned w"
  by (simp add: close_returned_def)

lemma life_event_inv:
  assumes w: "http_inv w"
  shows "http_inv (snd (life_accept c w))"
    "i < length (lf_objs w) \<Longrightarrow> cn_running (lf_objs w ! i) \<Longrightarrow> http_inv (life_returned i w)"
    "http_inv (put_serve k (\<lambda>r. r\<lparr>sr_phase := p\<rparr>) w)" "http_inv (put_serve k (\<lambda>r. r\<lparr>sr_done := True\<rparr>) w)"
    "http_inv (http_leave v k res w)" "http_inv (life_do pkg what c le w)"
proof -
  have W: "world_inv w" and l: "life_inv w" using w by (simp_all add: http_inv_def world_inv_def)
  have "world_inv (snd (life_accept c w))"
    using accept_inv [OF l] accept_grows by (intro world_invI [OF W]) simp_all
  then show "http_inv (snd (life_accept c w))" by (rule http_life_inv [OF w]) (simp_all add: close_returned_def)
  show "http_inv (life_returned i w)" if i: "i < length (lf_objs w)" "cn_running (lf_objs w ! i)"
  proof (rule http_life_inv [OF w])
    show "world_inv (life_returned i w)"
      using returned_inv [OF l i] returned_grows [OF l] by (intro world_invI [OF W]) simp_all
  qed (simp_all add: close_returned_def)
  show "http_inv (put_serve k (\<lambda>r. r\<lparr>sr_phase := p\<rparr>) w)"
    by (rule http_life_inv [OF w put_serve_world [OF W]]) (simp_all add: close_returned_def)
  show "http_inv (put_serve k (\<lambda>r. r\<lparr>sr_done := True\<rparr>) w)"
    by (rule http_life_inv [OF w put_serve_world [OF W]]) (simp_all add: close_returned_def)
  show "http_inv (http_leave v k res w)"
    by (rule http_life_inv [OF w leave_http [OF W]]) (simp_all add: close_returned_def http_leave_def)
  show "http_inv (life_do pkg what c le w)"
  proof (rule http_life_inv [OF w life_do_inv [OF W]])
    assume r: "close_returned w"
    with life_do_no_more [OF close_over(3) [OF W r]] show "close_returned (life_do pkg what c le w)"
      by (simp add: no_more_def)
  qed simp
qed

section \<open>Steps of handles and their closes\<close>

lemma put_handle_fields [simp]:
  "gr_closers (put_handle h sw w) = gr_closers w" "hw_users (put_handle h sw w) = hw_users w"
  "hw_final (put_handle h sw w) = hw_final w" "hw_streams (put_handle h sw w) = hw_streams w"
  "hw_handles (put_handle h sw w) = (hw_handles w)[h := sw]" "lf_closed (put_handle h sw w) = lf_closed w"
  "lf_objs (put_handle h sw w) = lf_objs w"
  by (simp_all add: put_handle_def)

text \<open>A close that was at \<open>c\<close> and is at \<open>c'\<close>; a use of a stream is a step of no close.\<close>

definition moved :: "handle_close \<Rightarrow> handle_close \<Rightarrow> http_world \<Rightarrow> http_world \<Rightarrow> bool" where
  "moved c c' w w' \<longleftrightarrow>
     world_inv w' \<and> gr_closers w' = gr_closers w \<and> hw_users w' = hw_users w \<and> hw_final w' = hw_final w
     \<and> length (hw_handles w') = length (hw_handles w)
     \<and> distinct (hw_streams w') \<and> set (hw_streams w') \<subseteq> set (hw_streams w) \<and> hclose_ok (hw_handles w') c'
     \<and> (\<forall>h < length (hw_handles w).
          let sw = hw_handles w ! h; sw' = hw_handles w' ! h in
          sw_inv sw' \<and> (sw_closed sw \<longrightarrow> sw_closed sw') \<and> (c = HcSwap h \<longrightarrow> sw_closed sw')
          \<and> (sw_closed sw' \<or> h \<notin> set (hw_streams w) \<or> h \<in> set (hw_streams w'))
          \<and> (sw_collecting sw' \<longrightarrow> c' = HcCollect h \<or> sw_collecting sw \<and> c \<noteq> HcCollect h)
          \<and> (sw_todo sw' \<noteq> [] \<longrightarrow> aborts h c' \<or> sw_todo sw \<noteq> [] \<and> \<not> aborts h c))"

lemma sv_use_frame:
  assumes "stream_use e"
  shows "sw_closed (sv_step pkg e w) = sw_closed w" "sw_collecting (sv_step pkg e w) = sw_collecting w"
    "sw_todo (sv_step pkg e w) \<noteq> [] \<Longrightarrow> sw_todo w \<noteq> []"
  using assms
  by (cases e; auto simp: put_carrier_def Let_def split: option.splits prod.splits if_splits)+

lemma put_handle_world [simp]: "world_inv w \<Longrightarrow> world_inv (put_handle h sw w)"
  by (rule world_inv_frame) (simp_all add: put_handle_def)

lemma put_handle_moved:
  assumes w: "http_inv w" and h: "h < length (hw_handles w)" and sw: "sw_inv sw"
    and cl: "sw_closed (hw_handles w ! h) \<Longrightarrow> sw_closed sw" "c = HcSwap h \<Longrightarrow> sw_closed sw"
    and co: "sw_collecting sw \<Longrightarrow> c' = HcCollect h \<or> sw_collecting (hw_handles w ! h) \<and> c \<noteq> HcCollect h"
    and td: "sw_todo sw \<noteq> [] \<Longrightarrow> aborts h c' \<or> sw_todo (hw_handles w ! h) \<noteq> [] \<and> \<not> aborts h c"
    and one: "\<And>h'. handle_of c = Some h' \<Longrightarrow> h' = h"
    and c': "handle_of c' = None \<or> handle_of c' = Some h \<and> sw_closed sw"
  shows "moved c c' w (put_handle h sw w)"
proof -
  have ne: "c \<noteq> HcSwap j" "c \<noteq> HcCollect j" "\<not> aborts j c" if "j \<noteq> h" for j
    using one that by (cases c; auto)+
  have ok: "hclose_ok ((hw_handles w)[h := sw]) c'"
    using c' h by (auto simp: hclose_ok_def split: option.split handle_close.split)
  show ?thesis
    unfolding moved_def
  proof (intro conjI allI impI)
    fix j assume j: "j < length (hw_handles w)"
    have i: "sw_inv (hw_handles w ! j)" using w j by (simp add: http_inv_def handle_ok_def Let_def)
    show "let s = hw_handles w ! j; s' = hw_handles (put_handle h sw w) ! j in
          sw_inv s' \<and> (sw_closed s \<longrightarrow> sw_closed s') \<and> (c = HcSwap j \<longrightarrow> sw_closed s')
          \<and> (sw_closed s' \<or> j \<notin> set (hw_streams w) \<or> j \<in> set (hw_streams (put_handle h sw w)))
          \<and> (sw_collecting s' \<longrightarrow> c' = HcCollect j \<or> sw_collecting s \<and> c \<noteq> HcCollect j)
          \<and> (sw_todo s' \<noteq> [] \<longrightarrow> aborts j c' \<or> sw_todo s \<noteq> [] \<and> \<not> aborts j c)"
    proof (cases "j = h")
      case True
      then show ?thesis using h sw cl co td by (auto simp: put_handle_def Let_def)
    qed (use i ne in \<open>simp add: put_handle_def Let_def\<close>)
  qed (use w ok in \<open>simp_all add: http_inv_def\<close>)
qed

lemma hclose_moved:
  assumes w: "http_inv w" and ok: "hclose_ok (hw_handles w) c"
  shows "moved c (fst (hclose_step pkg c w)) w (snd (hclose_step pkg c w))"
proof -
  have stay: "moved c c' w w" if "hclose_ok (hw_handles w) c'" "\<And>h. c = HcSwap h \<Longrightarrow> sw_closed (hw_handles w ! h)"
      "\<And>h. c \<noteq> HcCollect h" "\<And>h. aborts h c \<Longrightarrow> sw_todo (hw_handles w ! h) = []" for c'
    using w that by (auto simp: moved_def http_inv_def handle_ok_def Let_def)
  have sw: "sw_inv (hw_handles w ! h)" if "h < length (hw_handles w)" for h
    using w that by (simp add: http_inv_def handle_ok_def Let_def)
  have keep: "sw_inv (sv_step pkg e (hw_handles w ! h))" if "h < length (hw_handles w)" for e h
    by (rule stream_machine.step_inv [OF sw [OF that]])
  show ?thesis
  proof (cases c)
    case (HcSwap h)
    then have h: "h < length (hw_handles w)" using ok by (simp add: hclose_ok_def)
    show ?thesis
    proof (cases "sw_closed (hw_handles w ! h)")
      case True
      then show ?thesis using HcSwap stay [of HcDone] by (simp add: hclose_ok_def)
    next
      case False
      have "moved c (HcCollect h) w (put_handle h (sv_step pkg SvCloseSwap (hw_handles w ! h)) w)"
        by (rule put_handle_moved [OF w h keep [OF h]]) (use HcSwap False in auto)
      with HcSwap False show ?thesis by simp
    qed
  next
    case (HcCollect h)
    then have h: "h < length (hw_handles w)" "sw_closed (hw_handles w ! h)" using ok by (simp_all add: hclose_ok_def)
    have "moved c (HcAbort h) w (put_handle h (sv_step pkg SvCloseCollect (hw_handles w ! h)) w)"
      by (rule put_handle_moved [OF w h(1) keep [OF h(1)]]) (use HcCollect h in \<open>auto split: if_splits\<close>)
    with HcCollect show ?thesis by simp
  next
    case (HcAbort h)
    then have h: "h < length (hw_handles w)" "sw_closed (hw_handles w ! h)" using ok by (simp_all add: hclose_ok_def)
    have go: "moved c c' w (put_handle h (sv_step pkg (SvAbortBegin i) (hw_handles w ! h)) w)"
      if "c' = HcAbort h \<or> (\<exists>r. c' = HcAbortEnd h i r)" for c' i
      by (rule put_handle_moved [OF w h(1) keep [OF h(1)]])
        (use that HcAbort h in \<open>auto simp del: sv_step.simps simp: sv_use_frame\<close>)
    show ?thesis
    proof (cases "sw_todo (hw_handles w ! h)")
      case Nil
      then show ?thesis using HcAbort h stay [of "HcDetach h"] by (simp add: hclose_ok_def)
    next
      case (Cons i js)
      then show ?thesis using HcAbort go by (simp del: sv_step.simps split: option.split)
    qed
  next
    case (HcAbortEnd h i r)
    then have h: "h < length (hw_handles w)" "sw_closed (hw_handles w ! h)" using ok by (simp_all add: hclose_ok_def)
    have "moved c (HcAbort h) w (put_handle h (sv_step pkg (SvAbortEnd i r) (hw_handles w ! h)) w)"
      by (rule put_handle_moved [OF w h(1) keep [OF h(1)]])
        (use HcAbortEnd h in \<open>auto simp del: sv_step.simps simp: sv_use_frame\<close>)
    with HcAbortEnd show ?thesis by simp
  next
    case (HcDetach h)
    let ?w = "w\<lparr>hw_streams := remove1 h (hw_streams w)\<rparr>"
    have W: "world_inv ?w" by (rule world_inv_frame [of w]) (use w in \<open>simp_all add: http_inv_def\<close>)
    have "sw_closed (hw_handles w ! h)" using ok HcDetach by (simp add: hclose_ok_def)
    then have "j \<in> set (remove1 h (hw_streams w)) \<or> sw_closed (hw_handles w ! j)" if "j \<in> set (hw_streams w)" for j
      using that w by (cases "j = h") (simp_all add: in_set_remove1 http_inv_def)
    then have "moved c HcDone w ?w"
      using w W HcDetach set_remove1_subset [of h "hw_streams w"]
      by (auto simp: moved_def http_inv_def handle_ok_def hclose_ok_def Let_def)
    with HcDetach show ?thesis by simp
  next
    case HcDone
    then show ?thesis using stay [of HcDone] by (simp add: hclose_ok_def)
  qed
qed

lemma moved_inv:
  assumes w: "http_inv w" and m: "moved c c' w w1"
    and same: "world_inv w2" "gr_closers w2 = gr_closers w1" "hw_handles w2 = hw_handles w1" "hw_streams w2 = hw_streams w1"
    and cs: "set (closers w2) \<subseteq> insert c' (set (closers w))"
    and left: "\<And>x. x \<in> set (closers w) \<Longrightarrow> x \<noteq> c \<Longrightarrow> x \<in> set (closers w2)"
    and new: "c' = HcDone \<or> c' \<in> set (closers w2)" and f: "final_ok w2"
  shows "http_inv w2"
proof -
  have hl: "length (hw_handles w1) = length (hw_handles w)" using m by (simp add: moved_def)
  have hk: "handle_ok w2 h" if h: "h < length (hw_handles w)" for h
  proof -
    let ?s = "hw_handles w ! h" and ?t = "hw_handles w1 ! h"
    have old: "handle_ok w h" using w h by (simp add: http_inv_def)
    have t: "sw_inv ?t" "sw_closed ?s \<longrightarrow> sw_closed ?t"
      "sw_closed ?t \<or> h \<notin> set (hw_streams w) \<or> h \<in> set (hw_streams w1)"
      "sw_collecting ?t \<longrightarrow> c' = HcCollect h \<or> sw_collecting ?s \<and> c \<noteq> HcCollect h"
      "sw_todo ?t \<noteq> [] \<longrightarrow> aborts h c' \<or> sw_todo ?s \<noteq> [] \<and> \<not> aborts h c"
      using m h unfolding moved_def Let_def by blast+
    have "HcCollect h \<in> set (closers w2)" if "sw_collecting ?t"
      using t(4) that old new left by (auto simp: handle_ok_def Let_def)
    moreover have "list_ex (aborts h) (closers w2)" if "sw_todo ?t \<noteq> []"
    proof (cases "aborts h c'")
      case True
      then show ?thesis using new by (auto simp: list_ex_iff)
    next
      case False
      then have "sw_todo ?s \<noteq> []" and nc: "\<not> aborts h c" using t(5) that by simp_all
      then obtain x where "x \<in> set (closers w)" "aborts h x"
        using old by (auto simp: handle_ok_def Let_def list_ex_iff)
      then show ?thesis using left [of x] nc by (auto simp: list_ex_iff)
    qed
    ultimately show ?thesis using t old same by (simp add: handle_ok_def Let_def) blast
  qed
  have "hclose_ok (hw_handles w2) x" if x: "x \<in> set (closers w2)" for x
  proof (cases "x = c'")
    case True
    then show ?thesis using m same by (simp add: moved_def)
  next
    case False
    then have "hclose_ok (hw_handles w) x" using x cs w by (auto simp: http_inv_def)
    then show ?thesis using m same
      by (auto simp: hclose_ok_def moved_def Let_def split: option.splits handle_close.splits)
  qed
  then show ?thesis using hk m same f w hl by (auto simp: http_inv_def moved_def)
qed

lemma final_moved:
  assumes "http_inv w" "moved c c' w w1" "hw_final w2 = hw_final w1" "gr_closers w2 = gr_closers w1"
    "hw_handles w2 = hw_handles w1"
  shows "final_ok w2"
  using assms closers_same [of w2 w]
  by (fastforce simp: http_inv_def final_ok_def moved_def Let_def split: option.splits prod.splits)

lemma use_moved:
  assumes w: "http_inv w" and h: "h < length (hw_handles w)" and e: "stream_use e"
  shows "moved HcDone HcDone w (put_handle h (sv_step pkg e (hw_handles w ! h)) w)"
proof (rule put_handle_moved [OF w h])
  show "sw_inv (sv_step pkg e (hw_handles w ! h))"
    by (rule stream_machine.step_inv) (use w h in \<open>simp add: http_inv_def handle_ok_def Let_def\<close>)
qed (use sv_use_frame [OF e] in simp_all)

lemma use_inv:
  assumes w: "http_inv w" and h: "h < length (hw_handles w)" and e: "stream_use e"
  shows "http_inv (put_handle h (sv_step pkg e (hw_handles w ! h)) w)"
proof -
  have m: "moved HcDone HcDone w (put_handle h (sv_step pkg e (hw_handles w ! h)) w)" by (rule use_moved [OF assms])
  then have W: "world_inv (put_handle h (sv_step pkg e (hw_handles w ! h)) w)" by (simp add: moved_def)
  show ?thesis
    by (rule moved_inv [OF w m W]) (use final_moved [OF w m] in \<open>auto simp: closers_def\<close>)
qed

lemma user_step_inv:
  assumes w: "http_inv w" and j: "j < length (hw_users w)"
  shows "http_inv ((snd (hclose_step pkg (hw_users w ! j) w))\<lparr>hw_users := (hw_users w)[j := fst (hclose_step pkg (hw_users w ! j) w)]\<rparr>)"
proof -
  let ?c = "hw_users w ! j"
  let ?w = "snd (hclose_step pkg ?c w)" and ?c' = "fst (hclose_step pkg ?c w)"
  let ?v = "?w\<lparr>hw_users := (hw_users w)[j := ?c']\<rparr>"
  have m: "moved ?c ?c' w ?w"
    by (rule hclose_moved [OF w]) (use w j in \<open>simp add: http_inv_def closers_def\<close>)
  then have u: "hw_users ?w = hw_users w" "hw_final ?w = hw_final w" and W: "world_inv ?w" by (simp_all add: moved_def)
  have V: "world_inv ?v" by (rule world_inv_frame [OF W]) simp_all
  have cl: "closers ?v = (hw_users w)[j := ?c'] @ drop (length (hw_users w)) (closers w)"
    using u by (simp add: closers_def)
  have sets: "set (closers w) = set (hw_users w) \<union> set (drop (length (hw_users w)) (closers w))"
    by (simp add: closers_def)
  show ?thesis
  proof (rule moved_inv [OF w m V])
    show "set (closers ?v) \<subseteq> insert ?c' (set (closers w))"
      using cl sets set_update_subset_insert [of "hw_users w" j ?c'] by auto
    show "x \<in> set (closers ?v)" if "x \<in> set (closers w)" "x \<noteq> ?c" for x
    proof (cases "x \<in> set (hw_users w)")
      case True
      then obtain i where "i < length (hw_users w)" "x = hw_users w ! i" by (auto simp: in_set_conv_nth)
      then have "x \<in> set ((hw_users w)[j := ?c'])"
        using that(2) by (metis length_list_update nth_list_update_neq nth_mem)
      then show ?thesis by (simp add: cl)
    qed (use that sets cl in auto)
    show "?c' = HcDone \<or> ?c' \<in> set (closers ?v)" using cl j set_update_memI [OF j, of ?c'] by simp
    show "final_ok ?v" by (rule final_moved [OF w m]) simp_all
  qed simp_all
qed

lemma close_all_inv:
  assumes w: "http_inv w" and f: "hw_final w = Some (c, hs)"
  shows "http_inv ((snd (close_all_step pkg (c, hs) w))\<lparr>hw_final := Some (fst (close_all_step pkg (c, hs) w))\<rparr>)"
proof (cases "c = HcDone")
  case True
  show ?thesis
  proof (cases hs)
    case Nil
    then have "w\<lparr>hw_final := Some (HcDone, [])\<rparr> = w" using True f by (intro http_world.equality) simp_all
    then show ?thesis using w True Nil by simp
  next
    case (Cons h js)
    let ?v = "w\<lparr>hw_final := Some (HcSwap h, js)\<rparr>"
    have V: "world_inv ?v" by (rule world_inv_frame [of w]) (use w in \<open>simp_all add: http_inv_def\<close>)
    have "final_ok ?v" using w f True Cons closers_same [of ?v w] by (auto simp: http_inv_def final_ok_def)
    moreover have "h < length (hw_handles w)" using w f Cons by (simp add: http_inv_def final_ok_def)
    ultimately have "http_inv ?v" using w V f True
      by (auto simp: http_inv_def handle_ok_def closers_def hclose_ok_def Let_def)
    then show ?thesis using True Cons by simp
  qed
next
  case False
  let ?w = "snd (hclose_step pkg c w)" and ?c' = "fst (hclose_step pkg c w)"
  let ?v = "?w\<lparr>hw_final := Some (?c', hs)\<rparr>"
  have m: "moved c ?c' w ?w"
    by (rule hclose_moved [OF w]) (use w f in \<open>simp add: http_inv_def closers_def\<close>)
  then have u: "hw_users ?w = hw_users w" and W: "world_inv ?w" by (simp_all add: moved_def)
  have V: "world_inv ?v" by (rule world_inv_frame [OF W]) simp_all
  have fin: "final_ok ?v"
    unfolding final_ok_def
  proof (simp, intro conjI ballI allI impI)
    have o: "final_ok w" using w by (simp add: http_inv_def)
    then show "close_returned ?v" using f m closers_same [of ?v w] by (simp add: final_ok_def moved_def)
    show "h < length (hw_handles ?w)" if "h \<in> set hs" for h
      using o f m that by (simp add: final_ok_def moved_def)
    show "sw_closed (hw_handles ?w ! h) \<or> h \<in> set hs \<or> ?c' = HcSwap h" if "h < length (hw_handles ?w)" for h
      using o f m that by (fastforce simp: final_ok_def moved_def Let_def)
  qed
  have "http_inv ?v"
    by (rule moved_inv [OF w m V]) (use u f fin in \<open>auto simp: closers_def\<close>)
  moreover have "close_all_step pkg (c, hs) w = ((?c', hs), ?w)"
    using False by (cases c; simp add: case_prod_beta Let_def del: hclose_step.simps)
  ultimately show ?thesis by simp
qed

lemma frame_inv:
  assumes w: "http_inv w" and "world_inv w'" "gr_closers w' = gr_closers w" "hw_handles w' = hw_handles w"
    "hw_streams w' = hw_streams w" "set (closers w) \<subseteq> set (closers w')"
    "\<And>c. c \<in> set (closers w') \<Longrightarrow> c \<in> set (closers w) \<or> hclose_ok (hw_handles w) c" "final_ok w'"
  shows "http_inv w'"
  using assms unfolding http_inv_def handle_ok_def Let_def by (fastforce simp: list_ex_iff)

lemma dial_http_inv:
  assumes w: "http_inv w"
  shows "http_inv (snd (http_dial_commit pkg w))"
proof (cases "lf_closed w")
  case True
  then show ?thesis using w by (simp add: http_dial_commit_def)
next
  case False
  let ?v = "w\<lparr>hw_handles := hw_handles w @ [stream_start], hw_streams := hw_streams w @ [length (hw_handles w)]\<rparr>"
  have W: "world_inv w" using w by (simp add: http_inv_def)
  have V: "world_inv ?v" by (rule world_inv_frame [OF W]) simp_all
  have "hw_final w = None"
    using w False close_over(3) [OF W] by (auto simp: http_inv_def final_ok_def split: option.splits)
  then have "http_inv ?v"
    using w V sw_start_inv
    by (auto simp: http_inv_def handle_ok_def final_ok_def closers_def hclose_ok_def nth_append less_Suc_eq Let_def
        stream_start_def split: option.splits handle_close.splits)
  then show ?thesis using False by (simp add: http_dial_commit_def Let_def)
qed

lemma http_do_inv: "http_inv w \<Longrightarrow> http_inv (http_do v e w)"
proof -
  assume w: "http_inv w"
  have W: "world_inv w" using w by (simp add: http_inv_def)
  show ?thesis
  proof (cases e)
    case (HvHandleClose h)
    let ?v = "w\<lparr>hw_users := hw_users w @ [HcSwap h]\<rparr>"
    have V: "world_inv ?v" by (rule world_inv_frame [OF W]) simp_all
    have "final_ok ?v" using w closers_same [of ?v w] by (auto simp: http_inv_def final_ok_def split: option.splits)
    then have "http_inv ?v" if "h < length (hw_handles w)"
      using that by (intro frame_inv [OF w V]) (auto simp: closers_def hclose_ok_def)
    with w show ?thesis by (simp add: HvHandleClose http_do_def http_life_do_def)
  next
    case HvCloseStreams
    let ?v = "w\<lparr>hw_final := Some (HcDone, hw_streams w)\<rparr>"
    have V: "world_inv ?v" by (rule world_inv_frame [OF W]) simp_all
    have "final_ok ?v" if "close_returned w"
      using w that closers_same [of ?v w] by (auto simp: http_inv_def final_ok_def handle_ok_def Let_def)
    then have "http_inv ?v" if "close_returned w" "hw_final w = None"
      using that by (intro frame_inv [OF w V]) (auto simp: closers_def hclose_ok_def)
    with w show ?thesis by (simp add: HvCloseStreams http_do_def http_life_do_def)
  next
    case HvCloseStep
    with w show ?thesis by (auto simp: http_do_def http_life_do_def case_prod_beta close_all_inv split: option.split)
  next
    case (HvUserStep j)
    have "hw_users (snd (hclose_step (pkg_name v) (hw_users w ! j) w)) = hw_users w" if "j < length (hw_users w)"
      using hclose_moved [OF w, of "hw_users w ! j"] w that by (simp add: moved_def http_inv_def closers_def)
    with w user_step_inv [OF w] show ?thesis by (simp add: HvUserStep http_do_def http_life_do_def case_prod_beta)
  qed (use w life_event_inv [OF w] use_inv [OF w] dial_http_inv [OF w]
      in \<open>auto simp: http_do_def http_life_do_def split: serve_phase.split\<close>)
qed

interpretation http_machine: invariant_machine "http_do v" http_inv for v
  by unfold_locales (rule http_do_inv)

lemma http_run_inv: "http_inv (http_run v es)"
  by (rule http_machine.run_inv) (rule http_start_inv)

section \<open>Close is final\<close>

lemma hclose_keeps [simp]:
  "hw_final (snd (hclose_step pkg c w)) = hw_final w" "lf_objs (snd (hclose_step pkg c w)) = lf_objs w"
  "length (hw_handles (snd (hclose_step pkg c w))) = length (hw_handles w)"
  "lf_wg (snd (hclose_step pkg c w)) = lf_wg w" "lf_shutdown (snd (hclose_step pkg c w)) = lf_shutdown w"
  "gr_shutters (snd (hclose_step pkg c w)) = gr_shutters w"
  by (cases "(pkg, c, w)" rule: hclose_step.cases;
      simp add: put_handle_def del: sv_step.simps split: list.split)+

lemma http_final_closed: "http_inv w \<Longrightarrow> hw_final w = Some x \<Longrightarrow> close_returned w \<and> lf_closed w"
  using close_over(3) by (auto simp: http_inv_def final_ok_def split: prod.splits)

lemma http_final_stays:
  assumes w: "http_inv w" and f: "hw_final w = Some (HcDone, [])"
  shows "hw_final (http_do v e w) = Some (HcDone, []) \<and> length (lf_objs (http_do v e w)) = length (lf_objs w)
    \<and> length (hw_handles (http_do v e w)) = length (hw_handles w)"
proof -
  have cl: "lf_closed w" using http_final_closed [OF w f] by simp
  show ?thesis
  proof (cases e)
    case (HvLife le)
    then show ?thesis
      using f life_do_no_more [OF cl, of "pkg_name v" "''serve''" "new_request 0" le]
        http_part [OF more_life [of "pkg_name v" "''serve''" "new_request 0" le w]]
      by (simp add: http_do_def http_life_do_def no_more_def)
  qed (use f cl in \<open>auto simp: http_do_def http_life_do_def life_accept_def life_returned_def life_untrack_def http_leave_def put_serve_def
         http_dial_commit_def put_conn_def case_prod_beta split: serve_phase.split\<close>)
qed

lemma http_final_run:
  "http_inv w \<Longrightarrow> hw_final w = Some (HcDone, []) \<Longrightarrow>
    hw_final (run_steps (http_do v) es w) = Some (HcDone, [])
    \<and> length (lf_objs (run_steps (http_do v) es w)) = length (lf_objs w)
    \<and> length (hw_handles (run_steps (http_do v) es w)) = length (hw_handles w)"
proof (induction es arbitrary: w)
  case (Cons e es)
  with http_final_stays [OF Cons.prems, of v e] http_do_inv [OF Cons.prems(1), of v e] show ?case by simp
qed simp

text \<open>A handle whose streams, but for refused opens, all have an outcome or are being aborted.\<close>

definition handle_over :: "stream_world \<Rightarrow> bool" where
  "handle_over sw \<longleftrightarrow>
     sw_map sw = None
     \<and> list_all (\<lambda>i. cl_ready (sw_cars sw ! i) \<or> cl_aborted (sw_cars sw ! i))
         (filter (\<lambda>i. i \<notin> set (sw_opening sw) \<and> i \<notin> set (sw_refused sw)) [0..<length (sw_cars sw)])"

lemma handle_overI:
  assumes "sw_inv sw" "sw_closed sw" "\<not> sw_collecting sw" "sw_todo sw = []"
  shows "handle_over sw"
proof -
  have m: "sw_map sw = None" using assms by (simp add: sw_inv_def sw_flags_def)
  have "cl_ready (sw_cars sw ! i) \<or> cl_aborted (sw_cars sw ! i)"
    if "i < length (sw_cars sw)" "i \<notin> set (sw_opening sw)" "i \<notin> set (sw_refused sw)" for i
    using assms m that by (auto simp: sw_inv_def car_ok_def car_good_def split: if_splits)
  then show ?thesis using m by (auto simp: handle_over_def list_all_iff)
qed

text \<open>
  C39: \<open>Close\<close> of an HTTP transport is final in every interleaving: when it has returned, whatever other
  goroutines are between their sections, the server is closed, every request the transport ever took
  in is aborted or its callback has returned, every endpoint handle it ever handed out is closed, and
  neither a request nor a dial that was under way adds another. Once the closes that applications
  began have returned as well, no stream of any handle is left without an outcome or an abort.
\<close>

theorem http_close_final:
  "if hw_final (http_run v es) = Some (HcDone, []) then
     (let w = run_steps (http_do v) es' (http_run v es) in
        list_all conn_over (lf_objs w) \<and> listener_down w \<and> list_all sw_closed (hw_handles w)
        \<and> length (lf_objs w) = length (lf_objs (http_run v es))
        \<and> length (hw_handles w) = length (hw_handles (http_run v es))
        \<and> fst (life_accept c w) = None \<and> (\<exists>err. fst (http_dial_commit pkg w) = Inl err)
        \<and> (if list_all (\<lambda>c. c = HcDone) (hw_users w) then list_all handle_over (hw_handles w) else True))
   else True"
proof (cases "hw_final (http_run v es) = Some (HcDone, [])")
  case True
  define w where "w = run_steps (http_do v) es' (http_run v es)"
  have i: "http_inv w" unfolding w_def by (rule http_machine.run_inv) (rule http_run_inv)
  have f: "hw_final w = Some (HcDone, [])" and len: "length (lf_objs w) = length (lf_objs (http_run v es))"
      "length (hw_handles w) = length (hw_handles (http_run v es))"
    using http_final_run [OF http_run_inv True] by (simp_all add: w_def)
  have W: "world_inv w" and r: "close_returned w" using i http_final_closed [OF i f] by (simp_all add: http_inv_def)
  have cl: "sw_closed (hw_handles w ! h)" if "h < length (hw_handles w)" for h
    using i f that by (simp add: http_inv_def final_ok_def)
  have "handle_over (hw_handles w ! h)"
    if "h < length (hw_handles w)" "list_all (\<lambda>c. c = HcDone) (hw_users w)" for h
  proof -
    have "x = HcDone" if "x \<in> set (closers w)" for x
      using that \<open>list_all _ _\<close> f by (auto simp: closers_def list_all_iff)
    then show ?thesis
      using i that(1) cl [OF that(1)]
      by (intro handle_overI) (fastforce simp: http_inv_def handle_ok_def Let_def list_ex_iff)+
  qed
  then show ?thesis
    using True close_over [OF W r] cl len
    by (simp add: w_def [symmetric] Let_def list_all_length life_accept_def http_dial_commit_def)
qed simp

text \<open>
  The run of the example: a request and a stream are under way when \<open>Close\<close> starts; the dial that comes
  after it is refused.
\<close>

lemma http_close_example:
  "let w = http_run Http2 [HvLife (LServe ''a:1'' None), HvRequest 0, HvDial, HvStream 0 (SvOpen ''POST''),
                           HvStream 0 (SvTrack 0), HvLife LClose, HvDial, HvRequest 0,
                           HvLife (LCloserStep 0), HvLife (LCloserStep 0), HvLife (LCloserStep 0), HvCloseStreams,
                           HvCloseStep, HvCloseStep, HvCloseStep, HvCloseStep, HvCloseStep, HvCloseStep, HvCloseStep]
   in hw_final w = Some (HcDone, []) \<and> map cn_closed (lf_objs w) = [True]
      \<and> map (\<lambda>c. (cl_respErr c, cl_cancelled c)) (concat (map sw_cars (hw_handles w)))
        = [(Some (err_aborted ''http2''), True)] \<and> hw_streams w = []"
  by code_simp

section \<open>Shutdown\<close>

fun http_serves :: "http_event \<Rightarrow> bool" where
  "http_serves (HvLife le) = serves_again le"
| "http_serves e = False"

lemma put_serve_calm [simp]:
  "gr_shutters (put_serve k f w) = gr_shutters w" "gr_shutters (http_leave v k res w) = gr_shutters w"
  "lf_wg (http_leave v k res w) = lf_wg w" "lf_shutdown (http_leave v k res w) = lf_shutdown w"
  by (simp_all add: put_serve_def http_leave_def)

lemma close_all_calm [simp]:
  "lf_wg (snd (close_all_step pkg c w)) = lf_wg w" "lf_shutdown (snd (close_all_step pkg c w)) = lf_shutdown w"
  "gr_shutters (snd (close_all_step pkg c w)) = gr_shutters w"
  by (cases "(pkg, c, w)" rule: close_all_step.cases; simp add: case_prod_beta Let_def del: hclose_step.simps)+

lemma http_do_waits:
  assumes w: "shut_waits j w" and e: "\<not> http_serves e"
  shows "shut_waits j (http_do v e w)"
proof (cases e)
  case (HvLife le)
  with w e show ?thesis by (simp add: http_do_def http_life_do_def life_do_waits)
qed (rule shut_waits_lift [OF w]; use w in \<open>auto simp: http_do_def http_life_do_def shut_waits_def life_accept_def life_returned_def
       http_dial_commit_def put_handle_def case_prod_beta Let_def split: serve_phase.split option.split\<close>)+

text \<open>As for TCP: a \<open>Shutdown\<close> that returns nil has seen the last callback return.\<close>

lemma http_shutdown_waits:
  assumes "\<not> lf_closed (http_run v es)"
    "w' = run_steps (http_do v) (filter (\<lambda>e. \<not> http_serves e) es') (http_do v (HvLife LShutdown) (http_run v es))"
    "sh_phase (gr_shutters w' ! length (gr_shutters (http_run v es))) = ShutReturned None"
  shows "list_all (\<lambda>c. \<not> cn_running c) (lf_objs w')"
proof -
  let ?j = "length (gr_shutters (http_run v es))"
  have waits: "shut_waits ?j (run_steps (http_do v) (filter (\<lambda>e. \<not> http_serves e) xs) u)" if "shut_waits ?j u" for xs u
    using that by (induction xs arbitrary: u) (simp_all add: http_do_waits)
  have "shut_waits ?j (http_do v (HvLife LShutdown) (http_run v es))"
    using assms(1) by (simp add: http_do_def http_life_do_def life_do_def serve_do_def shutter_do_def shutdown_begin_life_def shut_waits_def)
  then have "shut_waits ?j w'" unfolding assms(2) by (rule waits)
  moreover have "world_inv w'"
    using http_machine.run_inv [OF http_do_inv [OF http_run_inv]] by (simp add: assms(2) http_inv_def)
  ultimately show ?thesis using assms(3) idle_callbacks [of w'] by (simp add: shut_waits_def)
qed

text \<open>
  But the request itself does not survive: \<open>Shutdown\<close> begins with \<open>http.Server.Close\<close>, which cuts the
  connections in use, where \<open>http.Server.Shutdown\<close> would wait. Here a callback is running, nobody has
  closed its request and the deadline has not passed, and its connection is gone.
\<close>

lemma shutdown_cuts_requests:
  "let w = http_run v [HvLife (LServe ''a:1'' None), HvRequest 0, HvLife LShutdown, HvLife (LShutStep 0)];
       c = lf_objs w ! 0 in
   map sh_phase (gr_shutters w) = [ShutSelect] \<and> cn_running c \<and> \<not> cn_closed c
   \<and> \<not> sr_listening (lf_serves w ! rq_server c)"
  by (cases v) code_simp+

text \<open>
  When \<open>serveDone\<close> is closed: by HTTP/2 after the server is closed, by HTTP/1 before it. A \<open>Shutdown\<close> that
  finds no server any more (the section of the clean-up has run) and waits for \<open>serveDone\<close> may
  therefore return while the port is still bound under HTTP/1, but not under HTTP/2.
\<close>

fun is_served :: "serve_phase \<Rightarrow> bool" where
  "is_served (Served res) = True"
| "is_served p = False"

definition serve_quiet :: "serve_run \<Rightarrow> bool" where
  "serve_quiet r \<longleftrightarrow> (sr_done r \<or> is_served (sr_phase r) \<longrightarrow> \<not> sr_listening r)"

definition done_after_close :: "('c, 'm) carrier_life_scheme \<Rightarrow> bool" where
  "done_after_close s \<longleftrightarrow> list_all serve_quiet (lf_serves s)"

lemma done_put_serve:
  "done_after_close s \<Longrightarrow> (k < length (lf_serves s) \<Longrightarrow> serve_quiet (lf_serves s ! k) \<Longrightarrow> serve_quiet (f (lf_serves s ! k)))
    \<Longrightarrow> done_after_close (put_serve k f s)"
  by (auto simp: done_after_close_def put_serve_def list_all_length nth_upd)

lemma done_close_listener: "done_after_close s \<Longrightarrow> done_after_close (close_listener ln s)"
  by (auto simp: close_listener_def serve_quiet_def intro!: done_put_serve split: option.split)

lemma serves_same [simp]:
  "lf_serves (snd (closing_step c s)) = lf_serves s"
  by (cases "(c, s)" rule: closing_step.cases) simp_all

lemma done_life:
  assumes d: "done_after_close w" and e: "http_life le"
  shows "done_after_close (life_do pkg what c le w)"
proof -
  have same: "done_after_close s' = done_after_close s" if "lf_serves s' = lf_serves s"
    for s s' :: "('a, 'b) carrier_world_scheme"
    using that by (simp add: done_after_close_def)
  have shut: "done_after_close (snd (shut_step p w))" for p
    using d done_close_listener [OF d] by (cases "(p, w)" rule: shut_step.cases)
      (simp_all add: case_prod_beta done_after_close_def del: closing_step.simps)
  have closer: "done_after_close (snd (closer_step cl w))" for cl
    using d done_close_listener [OF d] by (cases cl) (simp_all add: case_prod_beta done_after_close_def)
  have unlisten: "done_after_close (life_unlisten k res w)" for k res
    unfolding life_unlisten_def
    by (rule done_put_serve [OF done_close_listener [OF d]])
      (simp add: close_listener_def put_serve_def serve_quiet_def)
  show ?thesis
  proof (cases le)
    case (LServe addr lerr)
    with d show ?thesis
      by (auto simp: life_do_def serve_do_def shutter_do_def life_serve_def done_after_close_def serve_quiet_def Let_def
          split: option.split)
  next
    case (LUnlisten k)
    with d unlisten show ?thesis by (simp add: life_do_def serve_do_def shutter_do_def split: serve_phase.split)
  next
    case (LShutStep j)
    with d shut show ?thesis
      by (simp add: life_do_def serve_do_def shutter_do_def case_prod_beta set_phase_def done_after_close_def)
  next
    case (LCloserStep j)
    with d closer show ?thesis
      by (simp add: life_do_def serve_do_def shutter_do_def case_prod_beta done_after_close_def)
  qed (use d e done_close_listener [OF d] in \<open>simp_all add: life_do_def serve_do_def shutter_do_def case_prod_beta set_phase_def
      shutdown_begin_life_def close_begin_life_def dial_commit_def life_wg_done_def Let_def done_after_close_def
      split: option.split\<close>)
qed

lemma done_http:
  assumes d: "done_after_close w"
  shows "done_after_close (http_do Http2 e w)"
proof -
  have same: "lf_serves w' = lf_serves w \<Longrightarrow> done_after_close w'" for w' :: http_world
    using d by (simp add: done_after_close_def)
  have hc: "lf_serves (snd (hclose_step pkg c w)) = lf_serves w" for pkg c
    by (cases "(pkg, c, w)" rule: hclose_step.cases; simp add: put_handle_def del: sv_step.simps split: list.split)
  have ca: "lf_serves (snd (close_all_step pkg c w)) = lf_serves w" for pkg c
    using hc by (cases "(pkg, c, w)" rule: close_all_step.cases; simp add: case_prod_beta Let_def del: hclose_step.simps)
  show ?thesis
  proof (cases e)
    case (HvServeEnds ce er k)
    with d show ?thesis by (auto simp: http_do_def http_life_do_def serve_quiet_def intro!: done_put_serve)
  next
    case (HvLeave k)
    have "done_after_close (http_leave Http2 k res w)" for res
      unfolding http_leave_def
      by (rule done_put_serve) (use d in \<open>simp_all add: done_after_close_def serve_quiet_def\<close>)
    with d HvLeave show ?thesis by (simp add: http_do_def http_life_do_def split: serve_phase.split)
  next
    case (HvServeDone k)
    have "done_after_close (put_serve k (\<lambda>r. r\<lparr>sr_done := True\<rparr>) w)" if "sr_phase (lf_serves w ! k) = Served res" for res
      by (rule done_put_serve [OF d]) (use that in \<open>simp add: serve_quiet_def\<close>)
    with d HvServeDone show ?thesis by (auto simp: http_do_def http_life_do_def split: serve_phase.split)
  next
    case (HvLife le)
    with d done_life [OF d] show ?thesis by (simp add: http_do_def http_life_do_def)
  qed (use hc ca in \<open>auto simp: http_do_def http_life_do_def life_accept_def life_returned_def life_untrack_def http_dial_commit_def
      put_handle_def put_conn_def case_prod_beta Let_def split: option.split intro!: same\<close>)
qed

lemma http2_done_late: "done_after_close (http_run Http2 es)"
proof -
  have run: "done_after_close w \<Longrightarrow> done_after_close (run_steps (http_do Http2) es w)" for w
    by (induction es arbitrary: w) (simp_all add: done_http)
  show ?thesis
    by (rule run) (simp add: http_start_def carrier_start_def life_new_def carrier_world.defs carrier_life.defs
        done_after_close_def)
qed

lemma http1_done_early:
  "\<not> done_after_close (http_run Http1
     [HvLife (LServe ''a:1'' None), HvServeEnds None (Some (ErrVar ''accept'')) 0, HvLeave 0])"
  by code_simp

end
