(* ===== verification/Synth_Wire.thy ===== *)
theory Synth_Wire
  imports Go_IO Status
begin

text \<open>
  The wire of the synthetic example protocol (src/example/synth/wire.go): the greeting and its
  acknowledgement, and frames of a four-byte length, a type byte and a body.
\<close>

section \<open>Frames\<close>

definition typeOpen :: nat where "typeOpen = 1"
definition typeData :: nat where "typeData = 2"
definition typeEnd :: nat where "typeEnd = 3"
definition typeStatus :: nat where "typeStatus = 4"
definition flagOpenEnd :: nat where "flagOpenEnd = 1"

lemmas frame_types = typeOpen_def typeData_def typeEnd_def typeStatus_def

definition magicGreeting :: string where "magicGreeting = ''SYN1''"
definition magicAck :: string where "magicAck = ''ACK1''"

definition err_bad_magic :: go_error where "err_bad_magic = ErrVar ''synth: bad handshake magic''"
definition err_truncated :: go_error where "err_truncated = ErrVar ''synth: truncated frame''"
definition err_unknown_type :: go_error where "err_unknown_type = ErrVar ''synth: unknown frame type''"
definition err_frame_too_large :: go_error where "err_frame_too_large = ErrVar ''synth: frame too large''"

lemmas wire_errors = err_bad_magic_def err_truncated_def err_unknown_type_def err_frame_too_large_def

text \<open>\<open>fr_typ\<close> and \<open>fr_flags\<close> are bytes, \<open>fr_code\<close> is 32 bits wide.\<close>

record synth_frame =
  fr_typ :: nat
  fr_method :: string
  fr_flags :: nat
  fr_data :: bytes
  fr_code :: u32
  fr_message :: string

definition zero_frame :: "nat \<Rightarrow> synth_frame" where
  "zero_frame t = \<lparr>fr_typ = t, fr_method = [], fr_flags = 0, fr_data = [], fr_code = 0, fr_message = []\<rparr>"

definition be16 :: "nat \<Rightarrow> bytes" where
  "be16 n = [char_of (n div 256), char_of n]"

fun be16_val :: "bytes \<Rightarrow> nat" where
  "be16_val [a, b] = byte a * 256 + byte b"
| "be16_val _ = 0"

definition marshal_body :: "synth_frame \<Rightarrow> go_error + bytes" where
  "marshal_body f =
     (if fr_typ f = typeOpen then
        if 65535 < int (length (fr_method f)) then Inl (ErrNew ''synth: method too long'')
        else Inr (char_of typeOpen # be16 (length (fr_method f)) @ fr_method f @ [char_of (fr_flags f)])
      else if fr_typ f = typeData then Inr (char_of typeData # fr_data f)
      else if fr_typ f = typeEnd then Inr [char_of typeEnd]
      else if fr_typ f = typeStatus then
        if 65535 < int (length (fr_message f)) then Inl (ErrNew ''synth: status message too long'')
        else Inr (char_of typeStatus # be32 (int (unat (fr_code f))) @ be16 (length (fr_message f)) @ fr_message f)
      else Inl err_unknown_type)"

definition parse_body :: "bytes \<Rightarrow> go_error + synth_frame" where
  "parse_body body =
     (if length body < 1 then Inl err_truncated
      else
        let t = byte (body ! 0); f = zero_frame t in
        if t = typeOpen then
          if length body < 4 then Inl err_truncated
          else
            let mlen = be16_val (take 2 (drop 1 body)) in
            if length body < 3 + mlen + 1 then Inl err_truncated
            else Inr (f\<lparr>fr_method := take mlen (drop 3 body), fr_flags := byte (body ! (3 + mlen))\<rparr>)
        else if t = typeData then Inr (f\<lparr>fr_data := drop 1 body\<rparr>)
        else if t = typeEnd then Inr f
        else if t = typeStatus then
          if length body < 7 then Inl err_truncated
          else
            let f = f\<lparr>fr_code := word_of_int (be32_val (take 4 (drop 1 body)))\<rparr>;
                mlen = be16_val (take 2 (drop 5 body)) in
            if length body < 7 + mlen then Inl err_truncated
            else Inr (f\<lparr>fr_message := take mlen (drop 7 body)\<rparr>)
        else Inl err_unknown_type)"

definition write_frame :: "synth_frame \<Rightarrow> go_writer \<Rightarrow> go_error option \<times> go_writer" where
  "write_frame f w =
     (case marshal_body f of
        Inl e \<Rightarrow> (Some e, w)
      | Inr body \<Rightarrow>
          (case go_write w (be32 (int (length body))) of
             (Some e, w1) \<Rightarrow> (Some e, w1)
           | (None, w1) \<Rightarrow> go_write w1 body))"

definition read_frame :: "int \<Rightarrow> go_reader \<Rightarrow> (go_error + synth_frame) \<times> go_reader" where
  "read_frame maxFrame r =
     (case read_full r 4 of
        (Inl e, r1) \<Rightarrow> (Inl e, r1)
      | (Inr hdr, r1) \<Rightarrow>
          let n = be32_val hdr in
          if n < 1 then (Inl err_truncated, r1)
          else if 0 < maxFrame \<and> maxFrame < n then (Inl err_frame_too_large, r1)
          else
            case read_full r1 (nat n) of
              (Inl e, r2) \<Rightarrow> (Inl e, r2)
            | (Inr body, r2) \<Rightarrow> (parse_body body, r2))"

section \<open>The greeting\<close>

definition write_greeting :: "string \<Rightarrow> go_writer \<Rightarrow> go_error option \<times> go_writer" where
  "write_greeting greeting w =
     (if 65535 < int (length greeting) then (Some (ErrNew ''synth: greeting too long''), w)
      else
        case go_write w (magicGreeting @ be16 (length greeting)) of
          (Some e, w1) \<Rightarrow> (Some e, w1)
        | (None, w1) \<Rightarrow> go_write w1 greeting)"

definition read_greeting :: "go_reader \<Rightarrow> (go_error + string) \<times> go_reader" where
  "read_greeting r =
     (case read_full r 6 of
        (Inl e, r1) \<Rightarrow> (Inl e, r1)
      | (Inr hdr, r1) \<Rightarrow>
          if take 4 hdr \<noteq> magicGreeting then (Inl err_bad_magic, r1)
          else read_full r1 (be16_val (drop 4 hdr)))"

definition write_ack :: "go_writer \<Rightarrow> go_error option \<times> go_writer" where
  "write_ack w = go_write w magicAck"

definition read_ack :: "go_reader \<Rightarrow> go_error option \<times> go_reader" where
  "read_ack r =
     (case read_full r 4 of
        (Inl e, r1) \<Rightarrow> (Some e, r1)
      | (Inr b, r1) \<Rightarrow> (if b \<noteq> magicAck then Some err_bad_magic else None, r1))"

section \<open>Round trips\<close>

lemma length_be16 [simp]: "length (be16 n) = 2"
  by (simp add: be16_def)

lemma be16_round_trip: "n \<le> 65535 \<Longrightarrow> be16_val (be16 n) = n"
proof -
  assume "n \<le> 65535"
  then have "n div 256 < 256" by linarith
  then show ?thesis by (simp add: be16_def byte_def)
qed

text \<open>The frames a peer can write: only the fields of their type are set.\<close>

definition frame_ok :: "synth_frame \<Rightarrow> bool" where
  "frame_ok f \<longleftrightarrow>
     (if fr_typ f = typeOpen then
        length (fr_method f) \<le> 65535 \<and> fr_flags f < 256 \<and>
        f = (zero_frame typeOpen)\<lparr>fr_method := fr_method f, fr_flags := fr_flags f\<rparr>
      else if fr_typ f = typeData then int (length (fr_data f)) < 2 ^ 32 - 1 \<and> f = (zero_frame typeData)\<lparr>fr_data := fr_data f\<rparr>
      else if fr_typ f = typeEnd then f = zero_frame typeEnd
      else fr_typ f = typeStatus \<and> length (fr_message f) \<le> 65535 \<and>
        f = (zero_frame typeStatus)\<lparr>fr_code := fr_code f, fr_message := fr_message f\<rparr>)"

lemma frame_cases:
  assumes "frame_ok f"
  obtains (Open) m b where "f = (zero_frame typeOpen)\<lparr>fr_method := m, fr_flags := b\<rparr>" "length m \<le> 65535" "b < 256"
  | (Data) d where "f = (zero_frame typeData)\<lparr>fr_data := d\<rparr>" "int (length d) < 2 ^ 32 - 1"
  | (End) "f = zero_frame typeEnd"
  | (Status) c m where "f = (zero_frame typeStatus)\<lparr>fr_code := c, fr_message := m\<rparr>" "length m \<le> 65535"
  using assms unfolding frame_ok_def by (metis (no_types))

lemma parse_marshal_body:
  assumes "frame_ok f"
  shows "\<exists>body. marshal_body f = Inr body \<and> parse_body body = Inr f \<and> 0 < length body \<and> int (length body) < 2 ^ 32"
  using assms
proof (cases rule: frame_cases)
  case (Open m b)
  then show ?thesis
    by (simp add: marshal_body_def parse_body_def zero_frame_def frame_types be16_round_trip Let_def nth_append)
next
  case (Data d)
  then show ?thesis by (simp add: marshal_body_def parse_body_def zero_frame_def frame_types Let_def)
next
  case End
  then show ?thesis by (simp add: marshal_body_def parse_body_def zero_frame_def frame_types Let_def)
next
  case (Status c m)
  have "(word_of_int (be32_val (be32 (int (unat c)))) :: u32) = c"
  proof -
    have "int (unat c) < 4294967296" using unsigned_less [of c] by simp
    then show ?thesis by (simp add: be32_val_be32)
  qed
  with Status show ?thesis
    by (simp add: marshal_body_def parse_body_def zero_frame_def frame_types be16_round_trip Let_def)
qed

lemma read_written:
  assumes f: "frame_ok f" and w: "wr_script w = []"
  shows "\<exists>b. write_frame f w = (None, w\<lparr>wr_out := wr_out w @ b\<rparr>) \<and> b \<noteq> []
    \<and> (\<forall>rest m. m \<le> 0 \<or> int (length b) - 4 \<le> m \<longrightarrow> read_frame m (reader (b @ rest)) = (Inr f, reader rest))"
proof -
  obtain body where b: "marshal_body f = Inr body" "parse_body body = Inr f" "0 < length body" "int (length body) < 2 ^ 32"
    using parse_marshal_body [OF f] by blast
  let ?b = "be32 (int (length body)) @ body"
  have v: "be32_val (be32 (int (length body))) = int (length body)" using b(4) by (simp add: be32_val_be32)
  have h: "read_full (reader (be32 (int (length body)) @ body @ rest)) 4 = (Inr (be32 (int (length body))), reader (body @ rest))" for rest
    using read_full_reader [of "be32 (int (length body))" "body @ rest"] by simp
  have "read_frame m (reader (?b @ rest)) = (Inr f, reader rest)" if "m \<le> 0 \<or> int (length ?b) - 4 \<le> m" for m rest
    using that b(2,3) by (auto simp: read_frame_def h v Let_def)
  moreover have "write_frame f w = (None, w\<lparr>wr_out := wr_out w @ ?b\<rparr>)"
    using b(1) w by (simp add: write_frame_def)
  ultimately show ?thesis by (intro exI [of _ ?b]) (auto simp: be32_def)
qed

fun write_frames :: "synth_frame list \<Rightarrow> go_writer \<Rightarrow> go_writer" where
  "write_frames [] w = w"
| "write_frames (f # fs) w = write_frames fs (snd (write_frame f w))"

fun read_frames :: "int \<Rightarrow> nat \<Rightarrow> go_reader \<Rightarrow> (go_error + synth_frame) list \<times> go_reader" where
  "read_frames m 0 r = ([], r)"
| "read_frames m (Suc n) r = (let (x, r1) = read_frame m r; (xs, r2) = read_frames m n r1 in (x # xs, r2))"

lemma read_frames_snoc:
  "read_frames m (Suc n) r =
     (let (xs, r1) = read_frames m n r; (x, r2) = read_frame m r1 in (xs @ [x], r2))"
  by (induction n arbitrary: r) (simp_all add: case_prod_beta Let_def)

text \<open>
  What is written is read back: any sequence of frames, whatever follows it, and the next read is at
  the end of the stream.
\<close>

lemma synth_frames_round_trip:
  assumes "list_all frame_ok fs" "wr_script w = []"
  shows "\<exists>b. wr_out (write_frames fs w) = wr_out w @ b
    \<and> (\<forall>rest. read_frames 0 (length fs) (reader (b @ rest)) = (map Inr fs, reader rest))"
  using assms
proof (induction fs arbitrary: w)
  case (Cons f fs)
  from read_written [of f w] Cons.prems obtain b where b:
    "write_frame f w = (None, w\<lparr>wr_out := wr_out w @ b\<rparr>)"
    "\<And>rest. read_frame 0 (reader (b @ rest)) = (Inr f, reader rest)" by fastforce
  let ?w = "w\<lparr>wr_out := wr_out w @ b\<rparr>"
  from Cons.IH [of ?w] Cons.prems obtain b' where b': "wr_out (write_frames fs ?w) = wr_out ?w @ b'"
    "\<And>rest. read_frames 0 (length fs) (reader (b' @ rest)) = (map Inr fs, reader rest)" by auto
  show ?case
    by (rule exI [of _ "b @ b'"]) (use b b' in simp)
qed (rule exI [of _ "[]"], simp)

lemma greeting_round_trip:
  "length g \<le> 65535 \<Longrightarrow>
    write_greeting g writer = (None, writer\<lparr>wr_out := magicGreeting @ be16 (length g) @ g\<rparr>)
    \<and> read_greeting (reader (magicGreeting @ be16 (length g) @ g @ rest)) = (Inr g, reader rest)"
proof -
  assume g: "length g \<le> 65535"
  have "read_full (reader ((magicGreeting @ be16 (length g)) @ g @ rest)) 6 = (Inr (magicGreeting @ be16 (length g)), reader (g @ rest))"
    using read_full_reader [of "magicGreeting @ be16 (length g)" "g @ rest"] by (simp add: magicGreeting_def)
  with g show ?thesis
    by (simp add: write_greeting_def read_greeting_def writer_def magicGreeting_def be16_round_trip)
qed

lemma ack_round_trip:
  "write_ack writer = (None, writer\<lparr>wr_out := magicAck\<rparr>) \<and> read_ack (reader (magicAck @ rest)) = (None, reader rest)"
proof -
  have "read_full (reader (magicAck @ rest)) 4 = (Inr magicAck, reader rest)"
    using read_full_reader [of magicAck rest] by (simp add: magicAck_def eval_nat_numeral)
  then show ?thesis by (simp add: write_ack_def read_ack_def writer_def)
qed

end
