(* ===== verification/Synth_Call.thy ===== *)
theory Synth_Call
  imports Synth_Wire Descriptor
begin

text \<open>
  Sessions and calls of the synthetic example protocol (src/example/synth/session.go, call.go): one
  call at a time on a connection, whose frames a goroutine of the call reads into an inbox of 8. Each
  operation below is one section; the goroutine, the application and \<open>Close\<close> interleave freely.
\<close>

section \<open>Sessions\<close>

text \<open>
  The carrier is a reader and a writer; once it is aborted, both fail with the error an argument
  gives.
\<close>

record sy_session =
  ss_client :: bool
  ss_closed :: bool
  ss_reusable :: bool
  ss_exclusive :: bool
  ss_ioError :: bool
  ss_inCall :: bool
  ss_spentClean :: bool
  ss_aborted :: bool
  ss_connClosed :: bool
  ss_maxFrame :: int
  ss_maxMessage :: int
  ss_rd :: go_reader
  ss_wr :: go_writer
  ss_greeting :: string

definition new_sy_session :: "bool \<Rightarrow> int \<Rightarrow> int \<Rightarrow> go_reader \<Rightarrow> go_writer \<Rightarrow> sy_session" where
  "new_sy_session client maxFrame maxMessage r w =
     \<lparr>ss_client = client, ss_closed = False, ss_reusable = True, ss_exclusive = False, ss_ioError = False,
      ss_inCall = False, ss_spentClean = False, ss_aborted = False, ss_connClosed = False,
      ss_maxFrame = maxFrame, ss_maxMessage = maxMessage, ss_rd = r, ss_wr = w, ss_greeting = []\<rparr>"

definition sy_mark_bad :: "sy_session \<Rightarrow> sy_session" where
  "sy_mark_bad s = s\<lparr>ss_reusable := False, ss_ioError := True, ss_aborted := True\<rparr>"

definition sy_reusable :: "sy_session \<Rightarrow> bool" where
  "sy_reusable s \<longleftrightarrow> ss_reusable s \<and> \<not> ss_closed s \<and> \<not> ss_ioError s \<and> \<not> ss_exclusive s \<and> \<not> ss_spentClean s"

definition sy_close_session :: "sy_session \<Rightarrow> sy_session" where
  "sy_close_session s =
     (if ss_closed s then s else s\<lparr>ss_closed := True, ss_reusable := False, ss_connClosed := True\<rparr>)"

definition enter_exclusive :: "sy_session \<Rightarrow> sy_session" where
  "enter_exclusive s = s\<lparr>ss_exclusive := True, ss_reusable := False\<rparr>"

definition sy_write :: "go_error \<Rightarrow> synth_frame \<Rightarrow> sy_session \<Rightarrow> go_error option \<times> sy_session" where
  "sy_write deadErr f s =
     (if ss_aborted s then
        (case marshal_body f of Inl e \<Rightarrow> (Some e, s) | Inr _ \<Rightarrow> (Some deadErr, s))
      else (let (e, w) = write_frame f (ss_wr s) in (e, s\<lparr>ss_wr := w\<rparr>)))"

definition sy_read :: "go_error \<Rightarrow> sy_session \<Rightarrow> (go_error + synth_frame) \<times> sy_session" where
  "sy_read deadErr s =
     (if ss_aborted s then (Inl deadErr, s)
      else (let (f, r) = read_frame (ss_maxFrame s) (ss_rd s) in (f, s\<lparr>ss_rd := r\<rparr>)))"

text \<open>Without a deadline in between, the handshakes of both sides.\<close>

definition default_greeting :: string where "default_greeting = ''argos-synth/1''"

definition sy_wrap :: "string \<Rightarrow> go_error \<Rightarrow> go_error" where
  "sy_wrap what e = ErrWrap (''synth: '' @ what @ '': '' @ err_text e) [e]"

definition sy_client_handshake :: "sy_session \<Rightarrow> go_error option \<times> sy_session" where
  "sy_client_handshake s =
     (let (g, r) = read_greeting (ss_rd s); s1 = s\<lparr>ss_rd := r\<rparr> in
      case g of
        Inl e \<Rightarrow> (Some (sy_wrap ''read greeting'' e), s1)
      | Inr greeting \<Rightarrow>
          (let (e, w) = write_ack (ss_wr s1); s2 = s1\<lparr>ss_wr := w\<rparr> in
           case e of
             Some e \<Rightarrow> (Some (sy_wrap ''write ack'' e), s2)
           | None \<Rightarrow> (None, s2\<lparr>ss_greeting := greeting\<rparr>)))"

definition sy_server_handshake :: "string \<Rightarrow> sy_session \<Rightarrow> go_error option \<times> sy_session" where
  "sy_server_handshake configured s =
     (let greeting = (if configured = [] then default_greeting else configured);
          (e, w) = write_greeting greeting (ss_wr s);
          s1 = s\<lparr>ss_greeting := greeting, ss_wr := w\<rparr> in
      case e of
        Some e \<Rightarrow> (Some (sy_wrap ''write greeting'' e), s1)
      | None \<Rightarrow>
          (let (e2, r) = read_ack (ss_rd s1) in
           (map_option (sy_wrap ''read ack'') e2, s1\<lparr>ss_rd := r\<rparr>)))"

section \<open>Calls\<close>

datatype sy_item = Payload bytes | Ended go_error

datatype sy_loop = Reading | Pushing sy_item bool | LoopDone

record sy_call =
  yc_client :: bool
  yc_peerHalfClosed :: bool
  yc_sendClosed :: bool
  yc_finished :: bool
  yc_closed :: bool
  yc_gotTerminal :: bool
  yc_recvErr :: "go_error option"
  yc_inbox :: "sy_item list"
  yc_cancelled :: "go_error option"
  yc_loop :: sy_loop

definition new_sy_call :: "bool \<Rightarrow> sy_call" where
  "new_sy_call client =
     \<lparr>yc_client = client, yc_peerHalfClosed = False, yc_sendClosed = False, yc_finished = False, yc_closed = False,
      yc_gotTerminal = False, yc_recvErr = None, yc_inbox = [], yc_cancelled = None, yc_loop = Reading\<rparr>"

definition sy_inbox_size :: nat where "sy_inbox_size = 8"

definition sy_detach :: "bool \<Rightarrow> sy_session \<Rightarrow> sy_session" where
  "sy_detach poison s =
     (if ss_inCall s then
        (let s1 = s\<lparr>ss_inCall := False\<rparr> in if poison then s1\<lparr>ss_spentClean := True, ss_reusable := False\<rparr> else s1)
      else s)"

definition method_exclusive :: string where "method_exclusive = ''synth.v1.Synth.Exclusive''"

text \<open>\<open>OpenCall\<close>: \<open>nilCtx\<close> for a nil context, an empty method name for the zero method.\<close>

definition sy_open_admit :: "bool \<Rightarrow> string \<Rightarrow> sy_session \<Rightarrow> go_error option \<times> sy_session" where
  "sy_open_admit nilCtx method s =
     (if nilCtx then (Some (status_error InvalidArgument ''synth: nil context''), s)
      else if method = [] then (Some (status_error InvalidArgument ''synth: zero Method''), s)
      else if ss_closed s then (Some (status_error Unavailable ''synth: session closed''), s)
      else if ss_inCall s then (Some (ErrVar ''transport: connection busy''), s)
      else if \<not> ss_reusable s \<or> ss_ioError s \<or> ss_exclusive s
      then (Some (status_error Unavailable ''synth: session not reusable''), s)
      else (None, s\<lparr>ss_inCall := True\<rparr>))"

definition sy_open_call :: "go_error \<Rightarrow> bool \<Rightarrow> string \<Rightarrow> sy_session \<Rightarrow> (go_error + sy_call) \<times> sy_session" where
  "sy_open_call deadErr nilCtx method s =
     (case sy_open_admit nilCtx method s of
        (Some e, s1) \<Rightarrow> (Inl e, s1)
      | (None, s1) \<Rightarrow>
          let s2 = (if method = method_exclusive then enter_exclusive s1 else s1) in
          case sy_write deadErr ((zero_frame typeOpen)\<lparr>fr_method := method\<rparr>) s2 of
            (Some e, s3) \<Rightarrow> (Inl e, sy_detach True s3)
          | (None, s3) \<Rightarrow> (Inr (new_sy_call True), s3))"

text \<open>
  \<open>AcceptCall\<close>, without a deadline in between. The header of the OPEN frame is read in two parts, the
  first byte alone.
\<close>

definition sy_read_open :: "sy_session \<Rightarrow> (go_error + synth_frame) \<times> sy_session" where
  "sy_read_open s =
     (case read_full (ss_rd s) 1 of
        (Inl e, r1) \<Rightarrow> (Inl e, s\<lparr>ss_rd := r1\<rparr>)
      | (Inr first, r1) \<Rightarrow>
          case read_full r1 3 of
            (Inl e, r2) \<Rightarrow> (Inl e, s\<lparr>ss_rd := r2\<rparr>)
          | (Inr tail, r2) \<Rightarrow>
              let n = be32_val (first @ tail); s2 = s\<lparr>ss_rd := r2\<rparr> in
              if n < 1 then (Inl err_truncated, s2)
              else if 0 < ss_maxFrame s \<and> ss_maxFrame s < n then (Inl err_frame_too_large, s2)
              else
                case read_full r2 (nat n) of
                  (Inl e, r3) \<Rightarrow> (Inl e, s\<lparr>ss_rd := r3\<rparr>)
                | (Inr body, r3) \<Rightarrow>
                    (case parse_body body of
                       Inl e \<Rightarrow> (Inl e, s\<lparr>ss_rd := r3\<rparr>)
                     | Inr f \<Rightarrow>
                         (if fr_typ f \<noteq> typeOpen
                          then Inl (ErrNew (''synth: expected OPEN, got type '' @ nat_str (fr_typ f))) else Inr f,
                          s\<lparr>ss_rd := r3\<rparr>)))"

definition sy_accept_call :: "sy_session \<Rightarrow> (go_error + string \<times> sy_call) \<times> sy_session" where
  "sy_accept_call s =
     (if ss_closed s then (Inl err_EOF, s)
      else if ss_inCall s then (Inl (ErrVar ''transport: connection busy''), s)
      else
        case sy_read_open s of
          (Inl e, s1) \<Rightarrow> if e = err_EOF \<or> e = ctx_Canceled then (Inl err_EOF, s1) else (Inl e, sy_mark_bad s1)
        | (Inr f, s1) \<Rightarrow>
            let s2 = s1\<lparr>ss_inCall := True\<rparr>; c = new_sy_call False in
            (Inr (fr_method f, if odd (fr_flags f) then c\<lparr>yc_peerHalfClosed := True, yc_loop := LoopDone\<rparr> else c), s2))"

section \<open>The receiving goroutine\<close>

text \<open>A send that does not wait: the item is dropped when the inbox is full.\<close>

definition try_push :: "sy_item \<Rightarrow> sy_call \<Rightarrow> sy_call" where
  "try_push it c = (if length (yc_inbox c) < sy_inbox_size then c\<lparr>yc_inbox := yc_inbox c @ [it]\<rparr> else c)"

text \<open>What it does with a frame or an error it has read.\<close>

definition loop_frame :: "go_error + synth_frame \<Rightarrow> sy_call \<Rightarrow> sy_session \<Rightarrow> sy_call \<times> sy_session" where
  "loop_frame res c s =
     (case res of
        Inl e \<Rightarrow>
          if yc_closed c then (c\<lparr>yc_loop := LoopDone\<rparr>, s)
          else ((try_push (Ended e) (c\<lparr>yc_recvErr := Some e\<rparr>))\<lparr>yc_loop := LoopDone\<rparr>,
                if e \<noteq> err_EOF then sy_mark_bad s else s)
      | Inr f \<Rightarrow>
          if fr_typ f = typeData then (c\<lparr>yc_loop := Pushing (Payload (fr_data f)) True\<rparr>, s)
          else if fr_typ f = typeEnd then
            (c\<lparr>yc_peerHalfClosed := True, yc_loop := Pushing (Ended err_EOF) (yc_client c)\<rparr>, s)
          else if fr_typ f = typeStatus then
            (c\<lparr>yc_gotTerminal := True,
               yc_loop := Pushing (Ended (if fr_code f \<noteq> OK then status_error (fr_code f) (fr_message f) else err_EOF)) False\<rparr>, s)
          else if fr_typ f = typeOpen then
            ((try_push (Ended (status_error Internal ''synth: unexpected OPEN'')) c)\<lparr>yc_loop := LoopDone\<rparr>, sy_mark_bad s)
          else ((try_push (Ended err_unknown_type) c)\<lparr>yc_loop := LoopDone\<rparr>, sy_mark_bad s))"

text \<open>The hand-over of an item: \<open>pickDone\<close> chooses when the context has ended and there is room too.\<close>

definition loop_push :: "bool \<Rightarrow> sy_call \<Rightarrow> sy_call" where
  "loop_push pickDone c =
     (case yc_loop c of
        Pushing it goOn \<Rightarrow>
          if yc_cancelled c \<noteq> None \<and> (pickDone \<or> \<not> length (yc_inbox c) < sy_inbox_size) then c\<lparr>yc_loop := LoopDone\<rparr>
          else if length (yc_inbox c) < sy_inbox_size
          then c\<lparr>yc_inbox := yc_inbox c @ [it], yc_loop := (if goOn then Reading else LoopDone)\<rparr>
          else c
      | _ \<Rightarrow> c)"

section \<open>Operations of the application\<close>

definition item_result :: "sy_item \<Rightarrow> go_error + bytes" where
  "item_result it = (case it of Payload b \<Rightarrow> Inr b | Ended e \<Rightarrow> Inl e)"

text \<open>
  None while \<open>Recv\<close> blocks. \<open>pickCtx\<close>: it waits in the second select and picks the ended context.
\<close>

definition sy_recv :: "bool \<Rightarrow> sy_call \<Rightarrow> (go_error + bytes) option \<times> sy_call" where
  "sy_recv pickCtx c =
     (if yc_closed c then (Some (Inl (status_error Canceled ''synth: call closed'')), c)
      else
        case (if pickCtx then yc_cancelled c else None) of
          Some e \<Rightarrow> (Some (Inl e), c)
        | None \<Rightarrow>
            case yc_inbox c of
              it # its \<Rightarrow> (Some (item_result it), c\<lparr>yc_inbox := its\<rparr>)
            | [] \<Rightarrow>
                (case yc_cancelled c of
                   Some e \<Rightarrow> Some (Inl e)
                 | None \<Rightarrow>
                     if yc_loop c = LoopDone
                     then Some (Inl (case yc_recvErr c of Some e \<Rightarrow> e | None \<Rightarrow> err_EOF)) else None, c))"

definition sy_send_check :: "bytes \<Rightarrow> sy_call \<Rightarrow> sy_session \<Rightarrow> go_error option" where
  "sy_send_check payload c s =
     (if yc_closed c \<or> yc_sendClosed c then Some (status_error Unavailable ''synth: send closed'')
      else if 0 < ss_maxMessage s \<and> ss_maxMessage s < int (length payload)
      then Some (status_error ResourceExhausted ''synth: message too large'') else None)"

text \<open>A write of a call: a failure marks the session bad.\<close>

definition call_write :: "go_error \<Rightarrow> synth_frame \<Rightarrow> sy_session \<Rightarrow> go_error option \<times> sy_session" where
  "call_write deadErr f s =
     (case sy_write deadErr f s of
        (Some e, s1) \<Rightarrow> (Some e, sy_mark_bad s1)
      | (None, s1) \<Rightarrow> (None, s1))"

definition sy_send :: "go_error \<Rightarrow> bytes \<Rightarrow> sy_call \<Rightarrow> sy_session \<Rightarrow> go_error option \<times> sy_session" where
  "sy_send deadErr payload c s =
     (case sy_send_check payload c s of
        Some e \<Rightarrow> (Some e, s)
      | None \<Rightarrow> call_write deadErr ((zero_frame typeData)\<lparr>fr_data := payload\<rparr>) s)"

definition sy_half_close :: "go_error \<Rightarrow> sy_call \<Rightarrow> sy_session \<Rightarrow> go_error option \<times> sy_call \<times> sy_session" where
  "sy_half_close deadErr c s =
     (if \<not> yc_client c then (Some (status_error Unimplemented ''synth: HalfClose is initiator-only''), c, s)
      else if yc_sendClosed c then (None, c, s)
      else (let (e, s1) = call_write deadErr (zero_frame typeEnd) s in (e, c\<lparr>yc_sendClosed := True\<rparr>, s1)))"

definition sy_finish_frame :: "go_error option \<Rightarrow> synth_frame" where
  "sy_finish_frame err =
     (zero_frame typeStatus)\<lparr>fr_code := (case err of None \<Rightarrow> OK | Some e \<Rightarrow> code_of (Some e)),
        fr_message := (case err of None \<Rightarrow> [] | Some e \<Rightarrow> err_text e)\<rparr>"

definition sy_finish :: "go_error \<Rightarrow> go_error option \<Rightarrow> sy_call \<Rightarrow> sy_session
    \<Rightarrow> go_error option \<times> sy_call \<times> sy_session" where
  "sy_finish deadErr err c s =
     (if yc_client c then (Some (status_error Unimplemented ''synth: Finish is responder-only''), c, s)
      else if yc_finished c then (Some (status_error Internal ''synth: Finish called twice''), c, s)
      else
        case call_write deadErr (sy_finish_frame err) s of
          (Some e, s1) \<Rightarrow> (Some e, c\<lparr>yc_finished := True\<rparr>, s1)
        | (None, s1) \<Rightarrow> (None, c\<lparr>yc_finished := True, yc_gotTerminal := True\<rparr>, s1))"

text \<open>
  \<open>Close\<close>: its first section with the cancel; the look at \<open>done\<close>, which aborts the carrier when the
  goroutine may still be reading; the wait for \<open>done\<close> and the detach. The argument of the phases is
  \<open>poison\<close>, that of the first also \<open>atEnd\<close>.
\<close>

datatype sy_close_phase = CloseEntered bool bool | CloseWaits bool | CloseOver bool

definition sy_close_begin :: "sy_call \<Rightarrow> sy_close_phase option \<times> sy_call" where
  "sy_close_begin c =
     (if yc_closed c then (None, c)
      else (Some (CloseEntered (if yc_client c then yc_gotTerminal c else yc_peerHalfClosed c)
                               (yc_client c \<and> \<not> yc_gotTerminal c)),
            c\<lparr>yc_closed := True, yc_cancelled := (case yc_cancelled c of None \<Rightarrow> Some ctx_Canceled | e \<Rightarrow> e)\<rparr>))"

fun sy_close_step :: "sy_close_phase \<Rightarrow> sy_call \<Rightarrow> sy_session \<Rightarrow> sy_close_phase \<times> sy_session" where
  "sy_close_step (CloseEntered atEnd poison) c s =
     (if atEnd \<or> yc_loop c = LoopDone then (CloseWaits poison, s)
      else (CloseWaits True, s\<lparr>ss_aborted := True\<rparr>))"
| "sy_close_step (CloseWaits poison) c s =
     (if yc_loop c = LoopDone then (CloseOver poison, sy_detach poison s) else (CloseWaits poison, s))"
| "sy_close_step (CloseOver poison) c s = (CloseOver poison, s)"

end
