(* ===== verification/Synth_Props.thy ===== *)
theory Synth_Props
  imports Synth_Call
begin

text \<open>
  What a session of the synthetic protocol may rely on when it is used again, and where the code lets
  one call reach into the next.
\<close>

section \<open>One call of an initiator\<close>

text \<open>\<open>yw_read\<close> records the frames the goroutine has read.\<close>

record sy_world =
  yw_sess :: sy_session
  yw_call :: sy_call
  yw_close :: "sy_close_phase option"
  yw_read :: "synth_frame list"

definition sy_start :: "sy_call \<Rightarrow> sy_session \<Rightarrow> sy_world" where
  "sy_start c s = \<lparr>yw_sess = s, yw_call = c, yw_close = None, yw_read = []\<rparr>"

datatype sy_event =
    YRead go_error
  | YPush bool
  | YRecv bool
  | YSend go_error bytes
  | YHalfClose go_error
  | YFinish go_error "go_error option"
  | YContextEnds go_error
  | YExclusive
  | YClose
  | YCloseStep
  | YSessionClose

definition sy_do :: "sy_event \<Rightarrow> sy_world \<Rightarrow> sy_world" where
  "sy_do e w =
     (case e of
        YRead de \<Rightarrow>
          if yc_loop (yw_call w) = Reading then
            (let (res, s1) = sy_read de (yw_sess w);
                 (c2, s2) = loop_frame res (yw_call w) s1 in
             w\<lparr>yw_sess := s2, yw_call := c2,
               yw_read := (case res of Inl _ \<Rightarrow> yw_read w | Inr f \<Rightarrow> yw_read w @ [f])\<rparr>)
          else w
      | YPush pick \<Rightarrow> w\<lparr>yw_call := loop_push pick (yw_call w)\<rparr>
      | YRecv pick \<Rightarrow> w\<lparr>yw_call := snd (sy_recv pick (yw_call w))\<rparr>
      | YSend de b \<Rightarrow> w\<lparr>yw_sess := snd (sy_send de b (yw_call w) (yw_sess w))\<rparr>
      | YHalfClose de \<Rightarrow>
          (let (_, c, s) = sy_half_close de (yw_call w) (yw_sess w) in w\<lparr>yw_sess := s, yw_call := c\<rparr>)
      | YFinish de err \<Rightarrow>
          (let (_, c, s) = sy_finish de err (yw_call w) (yw_sess w) in w\<lparr>yw_sess := s, yw_call := c\<rparr>)
      | YContextEnds er \<Rightarrow>
          w\<lparr>yw_call := (yw_call w)\<lparr>yc_cancelled := (case yc_cancelled (yw_call w) of None \<Rightarrow> Some er | x \<Rightarrow> x)\<rparr>\<rparr>
      | YExclusive \<Rightarrow> w\<lparr>yw_sess := enter_exclusive (yw_sess w)\<rparr>
      | YClose \<Rightarrow>
          (case sy_close_begin (yw_call w) of
             (None, _) \<Rightarrow> w
           | (Some p, c) \<Rightarrow> w\<lparr>yw_call := c, yw_close := Some p\<rparr>)
      | YCloseStep \<Rightarrow>
          (case yw_close w of
             None \<Rightarrow> w
           | Some p \<Rightarrow> (let (p', s) = sy_close_step p (yw_call w) (yw_sess w) in w\<lparr>yw_sess := s, yw_close := Some p'\<rparr>))
      | YSessionClose \<Rightarrow> w\<lparr>yw_sess := sy_close_session (yw_sess w)\<rparr>)"

section \<open>The invariant\<close>

definition plain_frame :: "synth_frame \<Rightarrow> bool" where
  "plain_frame f \<longleftrightarrow> fr_typ f = typeData \<or> fr_typ f = typeEnd"

definition ended_by_status :: "synth_frame list \<Rightarrow> bool" where
  "ended_by_status fs \<longleftrightarrow>
     (case rev fs of [] \<Rightarrow> False | st # earlier \<Rightarrow> fr_typ st = typeStatus \<and> list_all plain_frame earlier)"

lemma ended_snoc: "ended_by_status (fs @ [f]) \<longleftrightarrow> fr_typ f = typeStatus \<and> list_all plain_frame fs"
  by (simp add: ended_by_status_def)

fun poisons :: "sy_close_phase \<Rightarrow> bool" where
  "poisons (CloseEntered a p) = p"
| "poisons (CloseWaits p) = p"
| "poisons (CloseOver p) = p"

fun over :: "sy_close_phase \<Rightarrow> bool" where
  "over (CloseOver p) = True"
| "over _ = False"

fun goes_on :: "sy_loop \<Rightarrow> bool" where
  "goes_on Reading = True"
| "goes_on (Pushing it g) = g"
| "goes_on LoopDone = False"

definition call_ok :: "synth_frame list \<Rightarrow> sy_call \<Rightarrow> bool" where
  "call_ok fs c \<longleftrightarrow> yc_client c
     \<and> (if yc_gotTerminal c then ended_by_status fs \<and> \<not> goes_on (yc_loop c)
        else yc_loop c = LoopDone \<or> list_all plain_frame fs \<and> goes_on (yc_loop c))"

definition reads_ok :: "int \<Rightarrow> go_reader \<Rightarrow> synth_frame list \<Rightarrow> sy_call \<Rightarrow> sy_session \<Rightarrow> bool" where
  "reads_ok m r0 fs c s \<longleftrightarrow> ss_maxFrame s = m
     \<and> (\<not> ss_aborted s \<and> (yc_gotTerminal c \<or> yc_loop c \<noteq> LoopDone) \<longrightarrow>
        read_frames m (length fs) r0 = (map Inr fs, ss_rd s))"

definition phase_ok :: "sy_close_phase option \<Rightarrow> sy_call \<Rightarrow> sy_session \<Rightarrow> bool" where
  "phase_ok ph c s \<longleftrightarrow> yc_closed c = (ph \<noteq> None) \<and>
     (case ph of
        None \<Rightarrow> ss_inCall s \<and> (ss_aborted s \<longrightarrow> ss_ioError s)
      | Some p \<Rightarrow> (poisons p \<or> yc_gotTerminal c) \<and> (ss_aborted s \<longrightarrow> ss_ioError s \<or> poisons p)
          \<and> ss_inCall s = (\<not> over p) \<and> (over p \<and> poisons p \<longrightarrow> ss_spentClean s))"

definition sy_inv :: "int \<Rightarrow> go_reader \<Rightarrow> sy_world \<Rightarrow> bool" where
  "sy_inv m r0 w \<longleftrightarrow> call_ok (yw_read w) (yw_call w) \<and> reads_ok m r0 (yw_read w) (yw_call w) (yw_sess w)
     \<and> phase_ok (yw_close w) (yw_call w) (yw_sess w)"

text \<open>Changes of the session a write or a bad mark makes.\<close>

definition same_reads :: "sy_session \<Rightarrow> sy_session \<Rightarrow> bool" where
  "same_reads s s' \<longleftrightarrow> ss_maxFrame s' = ss_maxFrame s \<and> ss_rd s' = ss_rd s \<and> ss_inCall s' = ss_inCall s
     \<and> (ss_aborted s \<longrightarrow> ss_aborted s') \<and> (ss_ioError s \<longrightarrow> ss_ioError s') \<and> (ss_spentClean s \<longrightarrow> ss_spentClean s')
     \<and> (ss_aborted s' \<longrightarrow> ss_aborted s \<or> ss_ioError s')"

lemma same_reads_inv:
  "reads_ok m r0 fs c s \<Longrightarrow> same_reads s s' \<Longrightarrow> reads_ok m r0 fs c s'"
  "phase_ok ph c s \<Longrightarrow> same_reads s s' \<Longrightarrow> phase_ok ph c s'"
  by (auto simp: reads_ok_def same_reads_def phase_ok_def split: option.splits)

lemma same_reads_refl [simp]: "same_reads s s"
  by (simp add: same_reads_def)

lemma same_reads_marked [simp]: "same_reads s (sy_mark_bad s)"
  by (simp add: same_reads_def sy_mark_bad_def)

lemma same_reads_write: "same_reads s (snd (sy_write de f s))"
  by (auto simp: sy_write_def same_reads_def case_prod_beta Let_def split: sum.split)

lemma same_reads_trans: "same_reads a b \<Longrightarrow> same_reads b c \<Longrightarrow> same_reads a c"
  by (auto simp: same_reads_def)

lemma same_reads_call_write: "same_reads s (snd (call_write de f s))"
  using same_reads_write [of s de f] same_reads_trans [OF same_reads_write same_reads_marked, of s de f]
  by (auto simp: call_write_def split: prod.split option.split)

lemma same_reads_ops:
  "same_reads s (snd (sy_send de b c s))" "same_reads s (snd (snd (sy_half_close de c s)))"
  "same_reads s (snd (snd (sy_finish de err c s)))" "same_reads s (enter_exclusive s)"
  "same_reads s (sy_close_session s)"
  using same_reads_call_write
  by (auto simp: sy_send_def sy_half_close_def sy_finish_def case_prod_beta enter_exclusive_def sy_close_session_def
      same_reads_def split: option.split prod.split)

section \<open>Every step keeps it\<close>

lemma try_push_same [simp]:
  "yc_client (try_push it c) = yc_client c" "yc_gotTerminal (try_push it c) = yc_gotTerminal c"
  "yc_closed (try_push it c) = yc_closed c"
  by (simp_all add: try_push_def)

lemma read_step:
  assumes inv: "sy_inv m r0 w" and l: "yc_loop (yw_call w) = Reading"
  shows "sy_inv m r0 (sy_do (YRead de) w)"
proof -
  define c where "c = yw_call w"
  define s where "s = yw_sess w"
  define fs where "fs = yw_read w"
  have nt: "\<not> yc_gotTerminal c" and cl: "yc_client c" and fs: "list_all plain_frame fs"
    using inv l by (auto simp: sy_inv_def call_ok_def c_def fs_def split: if_splits)
  have r: "\<not> ss_aborted s \<Longrightarrow> read_frames m (length fs) r0 = (map Inr fs, ss_rd s)" and m: "ss_maxFrame s = m"
    using inv l by (auto simp: sy_inv_def reads_ok_def c_def s_def fs_def)
  have ph: "phase_ok (yw_close w) c s" using inv by (simp add: sy_inv_def c_def s_def)
  obtain res s1 where rd: "sy_read de s = (res, s1)" by (metis surj_pair)
  have s1: "ss_aborted s1 = ss_aborted s" "ss_inCall s1 = ss_inCall s" "ss_ioError s1 = ss_ioError s"
    "ss_spentClean s1 = ss_spentClean s" "ss_maxFrame s1 = m"
    using rd m by (auto simp: sy_read_def case_prod_beta Let_def split: if_splits)
  obtain c2 s2 where lf: "loop_frame res c s1 = (c2, s2)" by (metis surj_pair)
  have w: "sy_do (YRead de) w = w\<lparr>yw_sess := s2, yw_call := c2, yw_read := (case res of Inl _ \<Rightarrow> fs | Inr f \<Rightarrow> fs @ [f])\<rparr>"
    using l rd lf by (cases res) (simp_all add: sy_do_def c_def s_def fs_def)
  have cd: "yc_closed c2 = yc_closed c" using lf by (auto simp: loop_frame_def split: sum.splits if_splits)
  have same: "same_reads s1 s2"
    using lf by (auto simp: loop_frame_def split: sum.splits if_splits)
  have ph1: "phase_ok (yw_close w) c s1" using ph s1 by (simp add: phase_ok_def split: option.splits)
  have mono: "yc_gotTerminal c2 \<or> \<not> yc_gotTerminal c" using nt by simp
  have ph2: "phase_ok (yw_close w) c2 s2"
    using same_reads_inv(2) [OF ph1 same] nt mono cd by (auto simp: phase_ok_def split: option.splits)
  show ?thesis
  proof (cases res)
    case (Inl e)
    then have "call_ok fs c2" "yc_loop c2 = LoopDone" "\<not> yc_gotTerminal c2"
      using lf nt cl by (auto simp: loop_frame_def call_ok_def split: if_splits)
    with ph2 same s1 Inl show ?thesis by (simp add: w sy_inv_def reads_ok_def same_reads_def)
  next
    case (Inr f)
    have live: "\<not> ss_aborted s" "read_frame m (ss_rd s) = (Inr f, ss_rd s1)"
      using rd Inr m by (auto simp: sy_read_def Let_def split: if_splits prod.splits)
    have "read_frames m (length (fs @ [f])) r0 = (map Inr (fs @ [f]), ss_rd s1)"
      using r [OF live(1)] live(2) by (simp add: read_frames_snoc del: read_frames.simps)
    moreover have "call_ok (fs @ [f]) c2"
      using lf nt cl fs Inr
      by (auto simp: loop_frame_def call_ok_def ended_snoc plain_frame_def frame_types split: if_splits)
    ultimately show ?thesis
      using ph2 same s1 Inr by (simp add: w sy_inv_def reads_ok_def same_reads_def)
  qed
qed

lemma push_step: "sy_inv m r0 w \<Longrightarrow> sy_inv m r0 (sy_do (YPush pick) w)"
proof -
  assume inv: "sy_inv m r0 w"
  let ?c = "loop_push pick (yw_call w)"
  have same: "yc_client ?c = yc_client (yw_call w)" "yc_gotTerminal ?c = yc_gotTerminal (yw_call w)"
    "yc_closed ?c = yc_closed (yw_call w)"
    by (simp_all add: loop_push_def split: sy_loop.split)
  have loop: "yc_loop ?c = yc_loop (yw_call w) \<or> yc_loop ?c = LoopDone
      \<or> goes_on (yc_loop (yw_call w)) \<and> yc_loop (yw_call w) \<noteq> LoopDone \<and> yc_loop ?c = Reading"
    by (auto simp: loop_push_def split: sy_loop.split)
  have "call_ok (yw_read w) ?c"
    using inv same loop by (auto simp: sy_inv_def call_ok_def split: if_splits)
  moreover have "reads_ok m r0 (yw_read w) ?c (yw_sess w)"
    using inv same loop by (auto simp: sy_inv_def reads_ok_def)
  moreover have "phase_ok (yw_close w) ?c (yw_sess w)"
    using inv same by (simp add: sy_inv_def phase_ok_def split: option.splits)
  ultimately show ?thesis by (simp add: sy_inv_def sy_do_def)
qed

text \<open>Operations of the application change neither what was read nor the state of the goroutine.\<close>

definition same_call :: "sy_call \<Rightarrow> sy_call \<Rightarrow> bool" where
  "same_call c c' \<longleftrightarrow> yc_client c' = yc_client c \<and> yc_gotTerminal c' = yc_gotTerminal c \<and> yc_loop c' = yc_loop c
     \<and> yc_closed c' = yc_closed c"

lemma app_step:
  assumes inv: "sy_inv m r0 w" and c: "same_call (yw_call w) (yw_call w')" and s: "same_reads (yw_sess w) (yw_sess w')"
    and l: "yw_read w' = yw_read w" "yw_close w' = yw_close w"
  shows "sy_inv m r0 w'"
proof -
  have "reads_ok m r0 (yw_read w) (yw_call w) (yw_sess w')" "phase_ok (yw_close w) (yw_call w) (yw_sess w')"
    using inv s same_reads_inv by (auto simp: sy_inv_def)
  with inv c l show ?thesis by (simp add: sy_inv_def same_call_def call_ok_def reads_ok_def phase_ok_def split: option.splits)
qed

lemma same_call_refl [simp]: "same_call c c" "same_call c (c\<lparr>yc_cancelled := x\<rparr>)"
  by (simp_all add: same_call_def)

lemma same_call_ops:
  "same_call c (snd (sy_recv pick c))" "same_call c (fst (snd (sy_half_close de c s)))"
  "yc_client c \<Longrightarrow> same_call c (fst (snd (sy_finish de err c s)))"
  by (auto simp: same_call_def sy_recv_def sy_half_close_def sy_finish_def case_prod_beta
      split: option.split list.split if_splits)

lemma sy_do_inv: "sy_inv m r0 w \<Longrightarrow> sy_inv m r0 (sy_do e w)"
proof -
  assume inv: "sy_inv m r0 w"
  then have cl: "yc_client (yw_call w)" by (simp add: sy_inv_def call_ok_def)
  show ?thesis
  proof (cases e)
    case (YRead de)
    then show ?thesis using inv read_step [OF inv] by (cases "yc_loop (yw_call w) = Reading") (auto simp: sy_do_def)
  next
    case (YPush pick)
    then show ?thesis using push_step [OF inv] by simp
  next
    case YClose
    show ?thesis
    proof (cases "yc_closed (yw_call w)")
      case False
      then have "yw_close w = None" using inv by (auto simp: sy_inv_def phase_ok_def)
      then show ?thesis
        using inv False cl
        by (simp add: YClose sy_do_def sy_close_begin_def sy_inv_def call_ok_def reads_ok_def phase_ok_def)
    qed (use inv in \<open>simp add: YClose sy_do_def sy_close_begin_def\<close>)
  next
    case YCloseStep
    show ?thesis
    proof (cases "yw_close w")
      case (Some p)
      then have ph: "phase_ok (Some p) (yw_call w) (yw_sess w)" using inv by (simp add: sy_inv_def)
      define s where "s = snd (sy_close_step p (yw_call w) (yw_sess w))"
      define q where "q = fst (sy_close_step p (yw_call w) (yw_sess w))"
      have "phase_ok (Some q) (yw_call w) s"
        using ph unfolding s_def q_def
        by (cases "(p, yw_call w, yw_sess w)" rule: sy_close_step.cases) (auto simp: phase_ok_def sy_detach_def Let_def)
      moreover have "ss_maxFrame s = ss_maxFrame (yw_sess w)" "ss_rd s = ss_rd (yw_sess w)"
        "ss_aborted (yw_sess w) \<longrightarrow> ss_aborted s"
        unfolding s_def
        by (cases "(p, yw_call w, yw_sess w)" rule: sy_close_step.cases; simp add: sy_detach_def Let_def)+
      then have "reads_ok m r0 (yw_read w) (yw_call w) s" using inv by (auto simp: sy_inv_def reads_ok_def)
      ultimately show ?thesis
        using inv Some by (simp add: YCloseStep sy_do_def case_prod_beta sy_inv_def s_def q_def)
    qed (use inv in \<open>simp add: YCloseStep sy_do_def\<close>)
  qed (use inv cl in \<open>auto simp: sy_do_def case_prod_beta intro!: app_step [OF inv] same_call_ops same_reads_ops\<close>)
qed

interpretation sy_machine: invariant_machine sy_do "sy_inv m r0"
  by unfold_locales (rule sy_do_inv)

section \<open>Reuse\<close>

lemma opened_inv:
  assumes "sy_open_call de nilCtx method s0 = (Inr c, s)"
  shows "sy_inv (ss_maxFrame s0) (ss_rd s0) (sy_start c s)"
proof -
  have w: "sy_write de f t = (None, t') \<Longrightarrow> \<not> ss_aborted t \<and> \<not> ss_aborted t'
      \<and> ss_inCall t' = ss_inCall t \<and> ss_maxFrame t' = ss_maxFrame t \<and> ss_rd t' = ss_rd t" for f t t'
    by (auto simp: sy_write_def case_prod_beta Let_def split: sum.splits if_splits)
  show ?thesis
    using assms
    by (auto dest!: w simp: sy_open_call_def sy_open_admit_def Let_def enter_exclusive_def sy_start_def sy_inv_def call_ok_def
        reads_ok_def phase_ok_def new_sy_call_def split: option.splits prod.splits if_splits)
qed

text \<open>
  C26: a connection of the synthetic protocol is reused only at a frame boundary. Whatever the
  application, the receiving goroutine and \<open>Close\<close> do in whatever order, and whatever bytes the peer
  sends: when \<open>Close\<close> of an initiator's call is over and the session still counts as reusable, the
  frames read for the call are data and end frames and one STATUS frame, the last; the next call
  reads on right behind it, no goroutine is left, and the carrier was not aborted.
\<close>

theorem synth_reuse_clean:
  "case sy_open_call de nilCtx method s0 of
     (Inl e, s) \<Rightarrow> True
   | (Inr c, s) \<Rightarrow>
       let w = run_steps sy_do es (sy_start c s) in
       if (yw_close w = Some (CloseOver False) \<or> yw_close w = Some (CloseOver True)) \<and> sy_reusable (yw_sess w)
       then ended_by_status (yw_read w)
         \<and> read_frames (ss_maxFrame s0) (length (yw_read w)) (ss_rd s0) = (map Inr (yw_read w), ss_rd (yw_sess w))
         \<and> \<not> ss_aborted (yw_sess w) \<and> \<not> ss_inCall (yw_sess w)
       else True"
proof -
  have "ended_by_status (yw_read w)
      \<and> read_frames (ss_maxFrame s0) (length (yw_read w)) (ss_rd s0) = (map Inr (yw_read w), ss_rd (yw_sess w))
      \<and> \<not> ss_aborted (yw_sess w) \<and> \<not> ss_inCall (yw_sess w)"
    if "sy_inv (ss_maxFrame s0) (ss_rd s0) w" "yw_close w = Some (CloseOver p)" "sy_reusable (yw_sess w)" for w p
    using that by (auto simp: sy_inv_def phase_ok_def sy_reusable_def call_ok_def reads_ok_def split: if_splits)
  then show ?thesis
    using sy_machine.run_inv [OF opened_inv] by (fastforce simp: Let_def split: prod.split sum.split)
qed

section \<open>Where one call reaches into the next\<close>

abbreviation demo_session :: "bool \<Rightarrow> bytes \<Rightarrow> sy_session" where
  "demo_session client b \<equiv> new_sy_session client 0 0 (reader b) writer"

definition demo_bytes :: "synth_frame list \<Rightarrow> bytes" where
  "demo_bytes fs = wr_out (write_frames fs writer)"

text \<open>A carrier that ends without a STATUS ends the call as an OK status does: \<open>Recv\<close> returns \<open>io.EOF\<close>.\<close>

lemma lost_connection_looks_finished:
  "let (c, s) = loop_frame (fst (sy_read err_EOF (demo_session True []))) (new_sy_call True) (demo_session True []);
       (c', s') = loop_frame (fst (sy_read err_EOF (demo_session True (demo_bytes [zero_frame typeStatus]))))
                    (new_sy_call True) (demo_session True [])
   in fst (sy_recv False c) = Some (Inl err_EOF)
    \<and> fst (sy_recv False (loop_push False c')) = fst (sy_recv False c)
    \<and> \<not> ss_ioError s \<and> \<not> yc_gotTerminal c"
  by code_simp

text \<open>A responder that sends after \<open>Finish\<close> succeeds, and its data frame goes out behind the STATUS frame.\<close>

lemma send_after_finish:
  "let (e1, c1, s1) = sy_finish err_EOF None (new_sy_call False) (demo_session False []);
       (e2, s2) = sy_send err_EOF ''late'' c1 s1
   in e1 = None \<and> e2 = None
    \<and> wr_out (ss_wr s2) = demo_bytes [zero_frame typeStatus, (zero_frame typeData)\<lparr>fr_data := ''late''\<rparr>]"
  by code_simp

text \<open>
  \<open>HalfClose\<close> does not look at \<open>closed\<close>: on a call that was closed after its STATUS it ends the request of
  the next call on the connection.
\<close>

lemma late_half_close:
  "let c = (new_sy_call True)\<lparr>yc_gotTerminal := True, yc_closed := True, yc_loop := LoopDone\<rparr>;
       (r, s1) = sy_open_call err_EOF False ''a.B'' (demo_session True []);
       (e, c', s2) = sy_half_close err_EOF c s1
   in \<not> isl r \<and> e = None
    \<and> wr_out (ss_wr s2) = demo_bytes [(zero_frame typeOpen)\<lparr>fr_method := ''a.B''\<rparr>, zero_frame typeEnd]"
  by code_simp

text \<open>A STATUS that does not fit its frame is not sent at all, and the connection is aborted instead.\<close>

lemma long_status_lost:
  assumes "65535 < length (err_text e)"
  shows "let (r, c, s) = sy_finish de (Some e) (new_sy_call False) (demo_session False b) in
    r = Some (ErrNew ''synth: status message too long'') \<and> wr_out (ss_wr s) = [] \<and> ss_aborted s"
  using assms
  by (simp add: sy_finish_def new_sy_call_def call_write_def sy_write_def new_sy_session_def write_frame_def
      sy_finish_frame_def marshal_body_def zero_frame_def frame_types sy_mark_bad_def writer_def)

text \<open>A connection cut right after the first byte of a call is taken for its normal end.\<close>

lemma cut_open_is_eof: "fst (sy_accept_call (demo_session False [c])) = Inl err_EOF"
  by (simp add: sy_accept_call_def new_sy_session_def sy_read_open_def read_full_def reader_def)

end
