(* ===== verification/Synth_Link.thy ===== *)
theory Synth_Link
  imports Synth_Props Resp_Link
begin

text \<open>
  The synthetic transport around its sessions (src/example/synth/link.go, state.go): options and
  limits, the dial the pool uses, the handshake of an accepted connection, the end of the transport,
  its pass-through codec, and the state of a connection that handlers read. The TCP transport is an
  argument, as what it answers.
\<close>

section \<open>Options\<close>

record synth_transport =
  st_greeting :: string
  st_openTimeout :: int
  st_maxDrainBytes :: int
  st_maxFrame :: int
  st_maxMessage :: int
  st_pool :: pool_options
  st_conn :: "pool option"
  st_trClosed :: bool
  st_dials :: int

datatype synth_option =
    SWithGreeting string
  | SWithOpenTimeout int
  | SWithLimits transport_limits
  | SWithPool int int int int
  | SWithHandshakeTimeout int

definition if_positive :: "int \<Rightarrow> int \<Rightarrow> int" where
  "if_positive new old = (if 0 < new then new else old)"

fun apply_synth_option :: "synth_option \<Rightarrow> synth_transport \<Rightarrow> synth_transport" where
  "apply_synth_option (SWithGreeting g) a = (if g \<noteq> [] then a\<lparr>st_greeting := g\<rparr> else a)"
| "apply_synth_option (SWithOpenTimeout d) a = (if 0 < d then a\<lparr>st_openTimeout := d\<rparr> else a)"
| "apply_synth_option (SWithLimits l) a =
     a\<lparr>st_openTimeout := if_positive (OpenTimeout l) (st_openTimeout a),
       st_maxFrame := if_positive (MaxFrameSize l) (st_maxFrame a),
       st_maxMessage := if_positive (MaxMessageSize l) (st_maxMessage a),
       st_maxDrainBytes := if_positive (MaxDrainBytes l) (st_maxDrainBytes a)\<rparr>"
| "apply_synth_option (SWithPool per idle idleTimeout lifetime) a =
     a\<lparr>st_pool := (st_pool a)\<lparr>MaxSessionsPerEndpoint := per, MaxIdleSessions := idle,
                              SessionIdleTimeout := idleTimeout, MaxSessionLifetime := lifetime\<rparr>\<rparr>"
| "apply_synth_option (SWithHandshakeTimeout d) a =
     (if 0 < d then a\<lparr>st_pool := (st_pool a)\<lparr>HandshakeTimeout := d\<rparr>\<rparr> else a)"

definition synth_new :: "synth_option option list \<Rightarrow> synth_transport" where
  "synth_new opts =
     (let a = fold (\<lambda>opt a. case opt of None \<Rightarrow> a | Some x \<Rightarrow> apply_synth_option x a) opts
                \<lparr>st_greeting = default_greeting, st_openTimeout = 0, st_maxDrainBytes = 0, st_maxFrame = 0,
                 st_maxMessage = 0, st_pool = default_pool_options, st_conn = None, st_trClosed = False, st_dials = 0\<rparr>;
          pool = (st_pool a)\<lparr>MaxCallsPerConn := 1\<rparr>
      in a\<lparr>st_pool := pool, st_conn := Some (new_pool pool)\<rparr>)"

definition synth_limits :: "synth_transport \<Rightarrow> transport_limits" where
  "synth_limits a =
     \<lparr>MaxMessageSize = st_maxMessage a, MaxFrameSize = st_maxFrame a, MaxMetadataSize = 0, MaxInboundMetadataSize = 0,
      ReadAheadMessages = 0, OpenTimeout = st_openTimeout a, MaxDrainBytes = st_maxDrainBytes a\<rparr>"

definition synth_pool_limits :: "synth_transport \<Rightarrow> pool_limits" where
  "synth_pool_limits a = to_pool_limits (case st_conn a of Some p \<Rightarrow> p_cfg p | None \<Rightarrow> st_pool a)"

text \<open>What a transport reports is what its sessions are made with.\<close>

definition axis_session :: "bool \<Rightarrow> go_reader \<Rightarrow> go_writer \<Rightarrow> synth_transport \<Rightarrow> sy_session" where
  "axis_session client r w a = new_sy_session client (st_maxFrame a) (st_maxMessage a) r w"

lemma synth_limits_enforced:
  "MaxFrameSize (synth_limits a) = ss_maxFrame (axis_session client r w a)
   \<and> MaxMessageSize (synth_limits a) = ss_maxMessage (axis_session client r w a)"
  by (simp add: synth_limits_def axis_session_def new_sy_session_def)

section \<open>Connections\<close>

definition assert_byte_carrier :: "resp_conn \<Rightarrow> go_error option" where
  "assert_byte_carrier c =
     (if \<not> cn_isCarrier c then Some (ErrNew (''synth: Conn '' @ cn_type c @ '' is not transport.CarrierConn''))
      else if \<not> cn_isByteStream c then Some (ErrNew (''synth: Carrier '' @ cn_carrierType c @ '' is not ByteStreamCarrier''))
      else None)"

text \<open>\<open>dial\<close>: what the TCP dial answered. The boolean says that the connection was closed on the way out.\<close>

definition synth_dial :: "go_error + resp_conn \<Rightarrow> go_reader \<Rightarrow> go_writer \<Rightarrow> synth_transport
    \<Rightarrow> (go_error + sy_session) \<times> bool \<times> synth_transport" where
  "synth_dial dialed r w a =
     (case dialed of
        Inl e \<Rightarrow> (Inl e, False, a)
      | Inr conn \<Rightarrow>
          let a1 = a\<lparr>st_dials := st_dials a + 1\<rparr> in
          case assert_byte_carrier conn of
            Some e \<Rightarrow> (Inl e, True, a1)
          | None \<Rightarrow>
              (case sy_client_handshake (axis_session True r w a1) of
                 (Some e, s) \<Rightarrow> (Inl e, ss_connClosed (sy_close_session s), a1)
               | (None, s) \<Rightarrow> (Inr s, False, a1)))"

definition sy_server_conn_handshake :: "resp_conn \<Rightarrow> go_reader \<Rightarrow> go_writer \<Rightarrow> synth_transport
    \<Rightarrow> (go_error + sy_session) \<times> bool" where
  "sy_server_conn_handshake conn r w a =
     (case assert_byte_carrier conn of
        Some e \<Rightarrow> (Inl e, False)
      | None \<Rightarrow>
          (case sy_server_handshake (st_greeting a) (axis_session False r w a) of
             (Some e, s) \<Rightarrow> (Inl e, ss_connClosed (sy_close_session s))
           | (None, s) \<Rightarrow> (Inr s, False)))"

definition synth_close :: "go_error option \<Rightarrow> synth_transport \<Rightarrow> go_error option \<times> synth_transport" where
  "synth_close trErr a = (trErr, a\<lparr>st_conn := map_option pool_close (st_conn a), st_trClosed := True\<rparr>)"

text \<open>
  The handshakes meet: a client that reads what the server wrote, and a server that reads what that
  client writes, both finish, and both know the greeting of the server.
\<close>

lemma synth_handshakes_agree:
  assumes g: "length greeting \<le> 65535" "greeting \<noteq> []"
  shows "sy_server_handshake greeting (new_sy_session False mf mm (reader (magicAck @ more_c)) writer)
      = (None, (new_sy_session False mf mm (reader more_c) (writer\<lparr>wr_out := magicGreeting @ be16 (length greeting) @ greeting\<rparr>))
                 \<lparr>ss_greeting := greeting\<rparr>)
    \<and> sy_client_handshake (new_sy_session True mf mm (reader (magicGreeting @ be16 (length greeting) @ greeting @ more_s)) writer)
      = (None, (new_sy_session True mf mm (reader more_s) (writer\<lparr>wr_out := magicAck\<rparr>))\<lparr>ss_greeting := greeting\<rparr>)"
  using greeting_round_trip [OF g(1)] ack_round_trip g(2)
  by (simp add: sy_server_handshake_def sy_client_handshake_def new_sy_session_def Let_def)

text \<open>A failed handshake leaves no connection open.\<close>

lemma sy_close_session_closes: "ss_connClosed s = ss_closed s \<Longrightarrow> ss_connClosed (sy_close_session s)"
  by (simp add: sy_close_session_def)

lemma synth_dial_closes:
  "case synth_dial (Inr conn) r w a of (Inl e, closed, a') \<Rightarrow> closed | (Inr s, closed, a') \<Rightarrow> \<not> closed"
proof -
  have "ss_connClosed s = ss_closed s" if "sy_client_handshake (axis_session True r w t) = (x, s)" for x s t
    using that
    by (auto simp: sy_client_handshake_def axis_session_def new_sy_session_def case_prod_beta Let_def
        split: sum.splits option.splits)
  then show ?thesis
    by (auto simp: synth_dial_def Let_def intro!: sy_close_session_closes split: option.split prod.split)
qed

section \<open>The codec\<close>

definition synth_marshal :: "raw_value \<Rightarrow> go_error + bytes" where
  "synth_marshal v =
     (case v of
        RawBytes b \<Rightarrow> Inr b
      | RawString s \<Rightarrow> Inr s
      | RawBytesPtr _ \<Rightarrow> Inl (ErrNew ''synth: raw codec: unsupported type *[]uint8'')
      | RawStringPtr _ \<Rightarrow> Inl (ErrNew ''synth: raw codec: unsupported type *string'')
      | RawOther t \<Rightarrow> Inl (ErrNew (''synth: raw codec: unsupported type '' @ t)))"

text \<open>Decoding into a nil pointer panics: None.\<close>

definition synth_unmarshal :: "bytes \<Rightarrow> raw_value \<Rightarrow> (go_error + raw_value) option" where
  "synth_unmarshal b v =
     (case v of
        RawBytesPtr (Some _) \<Rightarrow> Some (Inr (RawBytesPtr (Some b)))
      | RawStringPtr (Some _) \<Rightarrow> Some (Inr (RawStringPtr (Some b)))
      | RawBytesPtr None \<Rightarrow> None
      | RawStringPtr None \<Rightarrow> None
      | RawBytes _ \<Rightarrow> Some (Inl (ErrNew ''synth: raw codec: unsupported type []uint8''))
      | RawString _ \<Rightarrow> Some (Inl (ErrNew ''synth: raw codec: unsupported type string''))
      | RawOther t \<Rightarrow> Some (Inl (ErrNew (''synth: raw codec: unsupported type '' @ t))))"

lemma synth_codec_round_trip:
  "synth_marshal v = Inr b \<Longrightarrow> synth_unmarshal b (RawBytesPtr (Some x)) = Some (Inr (RawBytesPtr (Some b)))
    \<and> synth_unmarshal b (RawStringPtr (Some y)) = Some (Inr (RawStringPtr (Some b)))"
  by (simp add: synth_unmarshal_def)

section \<open>The state of a connection\<close>

text \<open>
  \<open>FromContext\<close>: a state on the context, or the one the accept goroutine of the given number installed.
  States are known by number.
\<close>

definition install_handoff :: "nat \<Rightarrow> nat \<Rightarrow> (nat, nat) gomap \<Rightarrow> (nat, nat) gomap" where
  "install_handoff goid st t = alist_put goid st t"

definition clear_handoff :: "nat \<Rightarrow> (nat, nat) gomap \<Rightarrow> (nat, nat) gomap" where
  "clear_handoff goid t = filter (\<lambda>(g, _). g \<noteq> goid) t"

definition from_context :: "nat option \<Rightarrow> nat \<Rightarrow> (nat, nat) gomap \<Rightarrow> nat option" where
  "from_context onCtx goid t = (case onCtx of Some st \<Rightarrow> Some st | None \<Rightarrow> map_of t goid)"

lemma handoff_table:
  "from_context None g (install_handoff goid st t) = (if g = goid then Some st else from_context None g t)"
  "from_context None g (clear_handoff goid t) = (if g = goid then None else from_context None g t)"
  by (simp_all add: from_context_def install_handoff_def clear_handoff_def) (induction t, auto)

end
